(* ===== verification/Prelude.thy ===== *)
theory Prelude
  imports Main "HOL-Library.AList" "HOL-Library.Sublist"
begin

text \<open>
  The JavaScript run time that the TypeScript sources share: strings, insertion-ordered
  maps and sets, and the reachability facts that the graph components rest on.

  A JavaScript string is modelled by its UTF-8 bytes, a \<^typ>\<open>string\<close> of HOL. The text
  operations act on the ASCII range: \<open>js_trim\<close> removes ASCII white space and
  \<open>to_lower\<close> maps the letters A to Z, so the models are exact for texts whose other
  characters are neither white space nor cased letters. The sources only cut strings next to
  ASCII characters, so no cut falls inside a multi-byte character.

  A JavaScript \<open>Map\<close> keeps its keys in the order of their first insertion, and \<open>set\<close>
  on a present key keeps the position. That is \<^const>\<open>AList.update\<close> on an association list;
  the locale \<open>ordered_map\<close> states the laws the components use and derives what
  \<open>new Map(entries)\<close> holds. A \<open>Set\<close> is a list without repetitions.
\<close>

named_theorems js_map \<open>lookup and key laws of insertion-ordered maps\<close>
named_theorems js_str \<open>string operations of the JavaScript run time\<close>

section \<open>Strings\<close>

definition is_space :: "char \<Rightarrow> bool" where
  "is_space c \<longleftrightarrow> c \<in> {CHR '' '', CHR 0x09, CHR 0x0A, CHR 0x0B, CHR 0x0C, CHR 0x0D}"

definition newline :: char where "newline = CHR 0x0A"

definition trim_start :: "string \<Rightarrow> string" where
  "trim_start s = dropWhile is_space s"

definition trim_end :: "string \<Rightarrow> string" where
  "trim_end s = rev (dropWhile is_space (rev s))"

definition js_trim :: "string \<Rightarrow> string" where
  "js_trim s = trim_end (trim_start s)"

definition lower_char :: "char \<Rightarrow> char" where
  "lower_char c = (let n = of_char c :: nat in if 65 \<le> n \<and> n \<le> 90 then char_of (n + 32) else c)"

definition to_lower :: "string \<Rightarrow> string" where
  "to_lower s = map lower_char s"

definition starts_with :: "string \<Rightarrow> string \<Rightarrow> bool" where
  "starts_with p s \<longleftrightarrow> take (length p) s = p"

definition ends_with :: "string \<Rightarrow> string \<Rightarrow> bool" where
  "ends_with p s \<longleftrightarrow> starts_with (rev p) (rev s)"

fun str_includes :: "string \<Rightarrow> string \<Rightarrow> bool" where
  "str_includes [] needle = (needle = [])"
| "str_includes (c # cs) needle = (starts_with needle (c # cs) \<or> str_includes cs needle)"

definition replace_char :: "char \<Rightarrow> char \<Rightarrow> string \<Rightarrow> string" where
  "replace_char a b s = map (\<lambda>c. if c = a then b else c) s"

fun split_char :: "char \<Rightarrow> string \<Rightarrow> string list" where
  "split_char d [] = [[]]"
| "split_char d (c # cs) =
     (if c = d then [] # split_char d cs
      else case split_char d cs of [] \<Rightarrow> [[c]] | w # ws \<Rightarrow> (c # w) # ws)"

fun join :: "string \<Rightarrow> string list \<Rightarrow> string" where
  "join sep [] = []"
| "join sep [w] = w"
| "join sep (w # ws) = w @ sep @ join sep ws"

text \<open>Three characters outside ASCII that the sources print: an arrow, "greater or equal" and
  an em dash.\<close>

definition u_arrow :: string where "u_arrow = [CHR 0xE2, CHR 0x86, CHR 0x92]"
definition u_ge :: string where "u_ge = [CHR 0xE2, CHR 0x89, CHR 0xA5]"
definition u_emdash :: string where "u_emdash = [CHR 0xE2, CHR 0x80, CHR 0x94]"

text \<open>\<open>a || b\<close> on an optional string: the empty string is falsy.\<close>

definition or_else :: "string option \<Rightarrow> string \<Rightarrow> string" where
  "or_else v d = (case v of Some s \<Rightarrow> if s = [] then d else s | None \<Rightarrow> d)"

text \<open>\<open>v || undefined\<close>.\<close>

definition truthy :: "string option \<Rightarrow> string option" where
  "truthy v = (case v of Some s \<Rightarrow> if s = [] then None else Some s | None \<Rightarrow> None)"

text \<open>\<open>a ?? b\<close>.\<close>

abbreviation nullish :: "'a option \<Rightarrow> 'a \<Rightarrow> 'a" where
  "nullish v d \<equiv> (case v of Some x \<Rightarrow> x | None \<Rightarrow> d)"

text \<open>A non-negative integer in decimal, as a template literal prints it.\<close>

definition digit_char :: "nat \<Rightarrow> char" where
  "digit_char d = ''0123456789'' ! d"

fun nat_str :: "nat \<Rightarrow> string" where
  "nat_str n = (if n < 10 then [digit_char n] else nat_str (n div 10) @ [digit_char (n mod 10)])"

declare nat_str.simps [simp del]

definition int_str :: "int \<Rightarrow> string" where
  "int_str i = (if i < 0 then ''-'' @ nat_str (nat (- i)) else nat_str (nat i))"

lemma starts_with_append [simp, js_str]: "starts_with p (p @ s)"
  by (simp add: starts_with_def)

lemma starts_with_iff [js_str]: "starts_with p s \<longleftrightarrow> (\<exists>r. s = p @ r)"
  by (metis append_eq_conv_conj append_take_drop_id starts_with_def)

lemma ends_with_iff [js_str]: "ends_with p s \<longleftrightarrow> (\<exists>r. s = r @ p)"
  unfolding ends_with_def starts_with_iff
  by (metis rev_append rev_rev_ident)

lemma str_includes_iff [js_str]: "str_includes s needle \<longleftrightarrow> (\<exists>a b. s = a @ needle @ b)"
proof (induction s)
  case Nil
  then show ?case by auto
next
  case (Cons c cs)
  have "(\<exists>a b. c # cs = a @ needle @ b)
      \<longleftrightarrow> (\<exists>b. c # cs = needle @ b) \<or> (\<exists>a b. cs = a @ needle @ b)"
    by (auto simp: append_eq_Cons_conv Cons_eq_append_conv)
  then show ?case using Cons.IH by (simp add: starts_with_iff)
qed

lemma trim_start_id [js_str]: "s = [] \<or> \<not> is_space (hd s) \<Longrightarrow> trim_start s = s"
  by (cases s) (auto simp: trim_start_def)

lemma trim_end_id [js_str]: "s = [] \<or> \<not> is_space (last s) \<Longrightarrow> trim_end s = s"
  by (cases s rule: rev_cases) (auto simp: trim_end_def)

lemma js_trim_id [js_str]:
  "s = [] \<or> (\<not> is_space (hd s) \<and> \<not> is_space (last s)) \<Longrightarrow> js_trim s = s"
  by (auto simp: js_trim_def trim_start_id trim_end_id)

lemma trim_end_idem [simp]: "trim_end (trim_end s) = trim_end s"
  by (simp add: trim_end_def)

lemma trim_start_trim_end: "trim_start (trim_end s) = trim_end (trim_start s)"
proof (cases "\<forall>c\<in>set s. is_space c")
  case True
  then have "dropWhile is_space s = []" "dropWhile is_space (rev s) = []"
    by (auto simp: dropWhile_eq_Nil_conv)
  then show ?thesis
    by (simp only: trim_start_def trim_end_def rev.simps dropWhile.simps)
next
  case False
  then obtain c where c: "c \<in> set s" "\<not> is_space c" by blast
  define a where "a = takeWhile is_space s"
  define m where "m = dropWhile is_space s"
  have m: "m \<noteq> []" "\<not> is_space (hd m)"
    using c hd_dropWhile[of is_space s] by (auto simp: m_def dropWhile_eq_Nil_conv)
  have s: "s = a @ m" by (simp add: a_def m_def)
  have ne: "\<exists>x\<in>set (rev m). \<not> is_space x" using m by (cases m) auto
  have e: "trim_end s = a @ trim_end m"
    using ne by (auto simp: trim_end_def s dropWhile_append)
  have h: "trim_end m \<noteq> []" "hd (trim_end m) = hd m"
    using m by (cases m; auto simp: trim_end_def dropWhile_append dropWhile_eq_Nil_conv)+
  have "trim_start (a @ trim_end m) = trim_start (trim_end m)"
    by (auto simp: trim_start_def a_def dropWhile_append dropWhile_eq_Nil_conv dest: set_takeWhileD)
  also have "\<dots> = trim_end m" using h m by (simp add: trim_start_id)
  finally show ?thesis by (simp add: e trim_start_def m_def)
qed

lemma js_trim_idem [simp]: "js_trim (js_trim s) = js_trim s"
  by (simp add: js_trim_def trim_start_trim_end) (simp add: trim_start_def)

lemma js_trim_ends: "js_trim s \<noteq> [] \<Longrightarrow> \<not> is_space (hd (js_trim s)) \<and> \<not> is_space (last (js_trim s))"
proof -
  assume ne: "js_trim s \<noteq> []"
  have 1: "js_trim s = trim_start (trim_end s)" by (simp add: js_trim_def trim_start_trim_end)
  have "\<not> is_space (hd (js_trim s))"
    using ne hd_dropWhile[of is_space "trim_end s"] unfolding 1 trim_start_def by blast
  moreover have "\<not> is_space (last (js_trim s))"
    using ne hd_dropWhile[of is_space "rev (trim_start s)"]
    unfolding js_trim_def trim_end_def by (simp add: last_rev)
  ultimately show ?thesis by blast
qed

lemma split_char_not_Nil [simp]: "split_char d s \<noteq> []"
  by (induction s) (auto split: list.splits)

lemma split_char_no_sep: "d \<notin> set s \<Longrightarrow> split_char d s = [s]"
  by (induction s) auto

lemma split_char_append: "d \<notin> set w \<Longrightarrow> split_char d (w @ d # s) = w # split_char d s"
  by (induction w) auto

lemma split_join:
  assumes "ws \<noteq> []" and "\<forall>w\<in>set ws. d \<notin> set w"
  shows "split_char d (join [d] ws) = ws"
  using assms by (induction "[d]" ws rule: join.induct) (auto simp: split_char_no_sep split_char_append)

lemma join_split [simp]: "join [d] (split_char d s) = s"
proof (induction s)
  case Nil
  then show ?case by simp
next
  case (Cons c s)
  obtain w ws where w: "split_char d s = w # ws" by (cases "split_char d s") auto
  with Cons show ?case by (cases ws) auto
qed

lemma str_includes_sublist [js_str]: "str_includes s needle \<longleftrightarrow> sublist needle s"
  by (simp add: str_includes_iff sublist_def)

lemma sublist_dropWhile: "sublist (dropWhile P s) s"
  by (metis sublist_appendI sublist_append_rightI suffix_dropWhile suffix_imp_sublist)

lemma sublist_trim_end: "sublist (trim_end s) s"
  by (simp add: trim_end_def sublist_rev_left sublist_dropWhile)

lemma sublist_trim_start: "sublist (trim_start s) s"
  by (simp add: trim_start_def sublist_dropWhile)

lemma sublist_js_trim: "sublist (js_trim s) s"
  unfolding js_trim_def using sublist_trim_end sublist_trim_start sublist_order.order_trans by blast

lemma sublist_join: "w \<in> set ws \<Longrightarrow> sublist w (join sep ws)"
proof (induction sep ws rule: join.induct)
  case (3 sep v u ws)
  then show ?case
    by (auto intro: sublist_order.order_trans[OF _ sublist_append_leftI] simp: sublist_append_rightI)
qed simp_all

lemma or_else_ne: "d \<noteq> [] \<Longrightarrow> or_else v d \<noteq> []"
  by (auto simp: or_else_def split: option.splits)

lemma digit_char_inj: "a < 10 \<Longrightarrow> b < 10 \<Longrightarrow> digit_char a = digit_char b \<Longrightarrow> a = b"
proof -
  have "distinct ''0123456789''" by simp
  then show "a < 10 \<Longrightarrow> b < 10 \<Longrightarrow> digit_char a = digit_char b \<Longrightarrow> a = b"
    unfolding digit_char_def by (subst (asm) nth_eq_iff_index_eq) auto
qed

lemma nat_str_not_Nil [simp]: "nat_str n \<noteq> []"
  by (subst nat_str.simps) simp

lemma nat_str_inj: "nat_str m = nat_str n \<Longrightarrow> m = n"
proof (induction m arbitrary: n rule: nat_str.induct)
  case (1 m)
  show ?case
  proof (cases "m < 10")
    case True
    note m = True
    show ?thesis
    proof (cases "n < 10")
      case True
      with m "1.prems" show ?thesis
        by (simp add: nat_str.simps[of m] nat_str.simps[of n] digit_char_inj)
    next
      case False
      with m "1.prems" show ?thesis
        by (simp add: nat_str.simps[of m] nat_str.simps[of n]) (metis nat_str_not_Nil)
    qed
  next
    case False
    note m = False
    show ?thesis
    proof (cases "n < 10")
      case True
      with m "1.prems" show ?thesis
        by (simp add: nat_str.simps[of m] nat_str.simps[of n])
    next
      case False
      with m "1.prems" have eq: "nat_str (m div 10) = nat_str (n div 10)"
        and d: "digit_char (m mod 10) = digit_char (n mod 10)"
        by (simp_all add: nat_str.simps[of m] nat_str.simps[of n])
      have "m div 10 = n div 10" using "1.IH"[OF m eq] .
      moreover have "m mod 10 = n mod 10" using digit_char_inj[OF _ _ d] by simp
      ultimately show ?thesis by (metis div_mult_mod_eq)
    qed
  qed
qed

lemma filter_length_id: "length (filter P xs) = length xs \<Longrightarrow> filter P xs = xs"
proof (induction xs)
  case (Cons x xs)
  moreover have "length (filter P xs) \<noteq> Suc (length xs)" using length_filter_le[of P xs] by linarith
  ultimately show ?case by (auto split: if_splits)
qed simp

section \<open>Insertion-ordered maps and sets\<close>

text \<open>What a client of a JavaScript \<open>Map\<close> relies on: \<open>get\<close>, \<open>set\<close> and the order of
  the keys.\<close>

locale ordered_map =
  fixes empty :: "'m"
    and upd :: "'k \<Rightarrow> 'v \<Rightarrow> 'm \<Rightarrow> 'm"
    and get :: "'m \<Rightarrow> 'k \<Rightarrow> 'v option"
    and keys :: "'m \<Rightarrow> 'k list"
  assumes get_empty: "get empty k = None"
    and keys_empty: "keys empty = []"
    and get_upd: "get (upd k v m) k' = (if k' = k then Some v else get m k')"
    and keys_upd: "keys (upd k v m) = (if k \<in> set (keys m) then keys m else keys m @ [k])"
    and get_keys: "get m k \<noteq> None \<longleftrightarrow> k \<in> set (keys m)"
begin

lemma set_keys_upd: "set (keys (upd k v m)) = insert k (set (keys m))"
  by (auto simp: keys_upd)

lemma distinct_upd: "distinct (keys m) \<Longrightarrow> distinct (keys (upd k v m))"
  by (simp add: keys_upd)

text \<open>\<open>new Map(entries)\<close> over any starting map: the last entry of a key wins.\<close>

lemma get_fold: "get (fold (\<lambda>(k, v). upd k v) es m) k
    = (case map_of (rev es) k of None \<Rightarrow> get m k | Some v \<Rightarrow> Some v)"
proof (induction es arbitrary: m)
  case Nil
  then show ?case by simp
next
  case (Cons e es)
  then show ?case
    by (cases e) (auto simp: map_add_def get_upd split: option.splits)
qed

lemma set_keys_fold: "set (keys (fold (\<lambda>(k, v). upd k v) es m)) = set (keys m) \<union> fst ` set es"
  by (induction es arbitrary: m) (auto simp: set_keys_upd)

lemma distinct_fold: "distinct (keys m) \<Longrightarrow> distinct (keys (fold (\<lambda>(k, v). upd k v) es m))"
  by (induction es arbitrary: m) (auto simp: distinct_upd)

lemma get_from: "get (fold (\<lambda>(k, v). upd k v) es empty) k = map_of (rev es) k"
  by (simp add: get_fold get_empty split: option.splits)

lemma distinct_from: "distinct (keys (fold (\<lambda>(k, v). upd k v) es empty))"
  by (simp add: distinct_fold keys_empty)

lemma keys_from_distinct:
  "distinct (map fst es) \<Longrightarrow> fst ` set es \<inter> set (keys m) = {} \<Longrightarrow>
   keys (fold (\<lambda>(k, v). upd k v) es m) = keys m @ map fst es"
  by (induction es arbitrary: m) (auto simp: keys_upd)

end

interpretation js_map: ordered_map "[]" AList.update map_of "map fst"
proof (unfold_locales, goal_cases)
  case (3 k v m k')
  show ?case by (simp add: update_conv')
next
  case (4 k v m)
  show ?case by (induction m) auto
next
  case (5 m k)
  show ?case by (simp add: map_of_eq_None_iff)
qed simp_all

lemma dom_map_of_update [simp]: "dom (map_of (AList.update k v m)) = insert k (dom (map_of m))"
  by (simp add: update_conv')

text \<open>\<open>new Map(entries)\<close>.\<close>

definition map_from :: "('k \<times> 'v) list \<Rightarrow> ('k \<times> 'v) list" where
  "map_from es = fold (\<lambda>(k, v). AList.update k v) es []"

lemma map_of_map_from [js_map]: "map_of (map_from es) k = map_of (rev es) k"
  unfolding map_from_def by (rule js_map.get_from)

lemma distinct_map_from [simp, js_map]: "distinct (map fst (map_from es))"
  unfolding map_from_def by (rule js_map.distinct_from)

lemma keys_map_from [simp, js_map]: "fst ` set (map_from es) = fst ` set es"
  unfolding map_from_def using js_map.set_keys_fold[of es "[]"] by simp

lemma map_from_in: "map_of (map_from es) k = Some v \<Longrightarrow> (k, v) \<in> set es"
  by (auto simp: map_of_map_from dest: map_of_SomeD)

lemma map_from_distinct:
  "distinct (map fst es) \<Longrightarrow> map_of (map_from es) = map_of es"
  by (rule ext) (metis map_of_map_from map_of_eqI rev_map distinct_rev set_rev map_of_inject_set)

text \<open>\<open>Set.add\<close>: a present element keeps its place.\<close>

definition set_add :: "'a \<Rightarrow> 'a list \<Rightarrow> 'a list" where
  "set_add x xs = (if x \<in> set xs then xs else xs @ [x])"

lemma set_set_add [simp]: "set (set_add x xs) = insert x (set xs)"
  by (auto simp: set_add_def)

lemma distinct_set_add [simp]: "distinct (set_add x xs) = distinct xs"
  by (auto simp: set_add_def)

definition set_from :: "'a list \<Rightarrow> 'a list" where
  "set_from xs = fold set_add xs []"

lemma set_fold_set_add: "set (fold set_add xs ys) = set ys \<union> set xs"
  by (induction xs arbitrary: ys) auto

lemma set_set_from [simp]: "set (set_from xs) = set xs"
  by (simp add: set_from_def set_fold_set_add)

lemma distinct_fold_set_add: "distinct ys \<Longrightarrow> distinct (fold set_add xs ys)"
  by (induction xs arbitrary: ys) auto

lemma distinct_set_from [simp]: "distinct (set_from xs)"
  by (simp add: set_from_def distinct_fold_set_add)

text \<open>A map of lists: \<open>m.set(k, [...(m.get(k) ?? []), v])\<close>.\<close>

definition multi_get :: "('k \<times> 'v list) list \<Rightarrow> 'k \<Rightarrow> 'v list" where
  "multi_get m k = nullish (map_of m k) []"

definition multi_add :: "'k \<Rightarrow> 'v \<Rightarrow> ('k \<times> 'v list) list \<Rightarrow> ('k \<times> 'v list) list" where
  "multi_add k v m = AList.update k (multi_get m k @ [v]) m"

lemma multi_get_add [js_map]:
  "multi_get (multi_add k v m) k' = (if k' = k then multi_get m k @ [v] else multi_get m k')"
  by (simp add: multi_get_def multi_add_def js_map.get_upd)

lemma multi_get_fold [js_map]:
  "multi_get (fold (\<lambda>e. multi_add (f e) (g e)) es m) k
     = multi_get m k @ map g (filter (\<lambda>e. f e = k) es)"
  by (induction es arbitrary: m) (auto simp: multi_get_add)

lemma multi_get_Nil [simp]: "multi_get [] k = []"
  by (simp add: multi_get_def)

lemma multi_get_values: "set (multi_get m k) \<subseteq> \<Union> (set ` snd ` set m)"
  by (cases "map_of m k") (force simp: multi_get_def dest: map_of_SomeD)+

section \<open>Searches that compute a closure\<close>

text \<open>
  A work-list search returns a set of visited nodes. Whatever the order in which it visits
  them, three facts make the result the set of nodes reachable from the start: it holds the
  start, it is closed under successors, and it holds nothing else.
\<close>

definition succ_rel :: "('a \<Rightarrow> 'a list) \<Rightarrow> ('a \<times> 'a) set" where
  "succ_rel succ = {(x, y). y \<in> set (succ x)}"

locale closure_search =
  fixes succ :: "'a \<Rightarrow> 'a list"
    and search :: "'a list \<Rightarrow> 'a set"
  assumes contains_start: "set xs \<subseteq> search xs"
    and closed: "x \<in> search xs \<Longrightarrow> set (succ x) \<subseteq> search xs"
    and sound: "y \<in> search xs \<Longrightarrow> \<exists>x\<in>set xs. (x, y) \<in> (succ_rel succ)\<^sup>*"
begin

lemma complete: "x \<in> set xs \<Longrightarrow> (x, y) \<in> (succ_rel succ)\<^sup>* \<Longrightarrow> y \<in> search xs"
proof (rotate_tac, induction rule: rtrancl_induct)
  case base
  then show ?case using contains_start by blast
next
  case (step y z)
  then show ?case using closed by (auto simp: succ_rel_def)
qed

lemma search_eq: "search xs = (succ_rel succ)\<^sup>* `` set xs"
  using sound complete by (auto simp: Image_def)

end

section \<open>Acyclic relations\<close>

lemma acyclic_insert_closed:
  assumes "acyclic (E \<inter> B \<times> B)" and "E `` B \<subseteq> B" and "v \<notin> B" and "(v, v) \<notin> E"
  shows "acyclic (E \<inter> insert v B \<times> insert v B)"
proof (rule acyclicI, rule allI, rule notI)
  fix x
  let ?R = "E \<inter> insert v B \<times> insert v B"
  assume c: "(x, x) \<in> ?R\<^sup>+"
  have inB: "y \<in> B \<and> (x, y) \<in> (E \<inter> B \<times> B)\<^sup>+" if "(x, y) \<in> ?R\<^sup>+" "x \<in> B" for x y
    using that
  proof (induction rule: trancl_induct)
    case (base y)
    with assms(2,3) show ?case by auto
  next
    case (step y z)
    with assms(2,3) have "z \<in> B" "(y, z) \<in> E \<inter> B \<times> B" by auto
    with step show ?case by (meson trancl.trancl_into_trancl)
  qed
  show False
  proof (cases "x \<in> B")
    case True
    with inB[OF c] assms(1) show False by (auto simp: acyclic_def)
  next
    case False
    with c have x: "x = v" by (auto dest: tranclD)
    from c obtain z where z: "(x, z) \<in> ?R" "(z, x) \<in> ?R\<^sup>*" by (auto dest: tranclD)
    with assms(4) x have zB: "z \<in> B" by auto
    with z(2) have "x \<in> B"
      using inB by (metis False rtranclD)
    with False show False ..
  qed
qed

lemma finite_acyclic_sink:
  assumes "finite E" and "acyclic E"
  shows "\<exists>t. (s, t) \<in> E\<^sup>* \<and> (\<forall>u. (t, u) \<notin> E)"
proof -
  have "wf (E\<inverse>)" using assms by (simp add: finite_acyclic_wf_converse)
  then show ?thesis
  proof (induction s rule: wf_induct_rule)
    case (less s)
    show ?case
    proof (cases "\<exists>u. (s, u) \<in> E")
      case True
      then obtain u where u: "(s, u) \<in> E" ..
      with less obtain t where "(u, t) \<in> E\<^sup>*" "\<forall>w. (t, w) \<notin> E" by blast
      with u show ?thesis by (meson converse_rtrancl_into_rtrancl)
    next
      case False
      then show ?thesis by blast
    qed
  qed
qed

end
