(* ===== verification/Json.thy ===== *)
theory Json
  imports Prelude
begin

text \<open>
  The JSON values that cross the program's boundaries (node configurations, saved
  definitions) with the two library functions the sources call on them, \<open>JSON.stringify\<close>
  and \<open>JSON.parse\<close>, and the conversion \<open>String(v)\<close>.

  An object is the list of its entries in the order in which \<open>Object.entries\<close> yields
  them. A number is an integer, or a literal with a fraction or exponent kept as its text
  (\<open>JReal\<close>): the sources never compute with parsed numbers, they only print them.
\<close>

datatype json =
    JNull
  | JBool bool
  | JNum int
  | JReal string
  | JStr string
  | JArr "json list"
  | JObj "(string \<times> json) list"

definition obj_get :: "(string \<times> json) list \<Rightarrow> string \<Rightarrow> json option" where
  "obj_get ob k = map_of ob k"

text \<open>A property that is present and truthy.\<close>

definition truthy_json :: "json option \<Rightarrow> bool" where
  "truthy_json v =
     (case v of
        None \<Rightarrow> False
      | Some JNull \<Rightarrow> False
      | Some (JBool b) \<Rightarrow> b
      | Some (JNum i) \<Rightarrow> i \<noteq> 0
      | Some (JReal s) \<Rightarrow> \<not> list_all (\<lambda>c. c \<in> set ''-0.'') (takeWhile (\<lambda>c. c \<notin> set ''eE'') s)
      | Some (JStr s) \<Rightarrow> s \<noteq> []
      | Some _ \<Rightarrow> True)"

section \<open>Property order\<close>

text \<open>
  JavaScript lists the integer-like keys of an object first, in ascending order, then the
  others in insertion order.
\<close>

definition is_digit :: "char \<Rightarrow> bool" where
  "is_digit c \<longleftrightarrow> c \<in> set ''0123456789''"

definition digit_val :: "char \<Rightarrow> nat" where
  "digit_val c = of_char c - 48"

fun digits_val :: "nat \<Rightarrow> string \<Rightarrow> nat" where
  "digits_val acc [] = acc"
| "digits_val acc (c # cs) = digits_val (10 * acc + digit_val c) cs"

definition is_index_key :: "string \<Rightarrow> bool" where
  "is_index_key k \<longleftrightarrow> k \<noteq> [] \<and> list_all is_digit k \<and> (k = ''0'' \<or> hd k \<noteq> CHR ''0'')
     \<and> digits_val 0 k < 4294967295"

fun insert_by :: "('a \<Rightarrow> nat) \<Rightarrow> 'a \<Rightarrow> 'a list \<Rightarrow> 'a list" where
  "insert_by f x [] = [x]"
| "insert_by f x (y # ys) = (if f x < f y then x # y # ys else y # insert_by f x ys)"

text \<open>A stable sort on a key in ascending order, as \<open>Array.prototype.sort\<close> is: equal keys
  keep their order.\<close>

definition stable_sort_by :: "('a \<Rightarrow> nat) \<Rightarrow> 'a list \<Rightarrow> 'a list" where
  "stable_sort_by f xs = fold (insert_by f) xs []"

lemma set_insert_by [simp]: "set (insert_by f x ys) = insert x (set ys)"
  by (induction ys) auto

lemma length_insert_by [simp]: "length (insert_by f x ys) = Suc (length ys)"
  by (induction ys) auto

lemma sorted_insert_by: "sorted (map f ys) \<Longrightarrow> sorted (map f (insert_by f x ys))"
  by (induction ys) auto

lemma filter_insert_by:
  "sorted (map f ys) \<Longrightarrow> filter (\<lambda>y. f y = k) (insert_by f x ys)
     = filter (\<lambda>y. f y = k) ys @ (if f x = k then [x] else [])"
proof (induction ys)
  case Nil
  then show ?case by simp
next
  case (Cons y ys)
  have "filter (\<lambda>y. f y = k) (y # ys) = []" if "f x < f y" "f x = k"
    using that Cons.prems by (auto simp: filter_empty_conv)
  with Cons show ?case by auto
qed

lemma stable_sort_fold:
  "sorted (map f ys) \<Longrightarrow> sorted (map f (fold (insert_by f) xs ys))
     \<and> set (fold (insert_by f) xs ys) = set xs \<union> set ys
     \<and> length (fold (insert_by f) xs ys) = length xs + length ys
     \<and> filter (\<lambda>y. f y = k) (fold (insert_by f) xs ys)
        = filter (\<lambda>y. f y = k) ys @ filter (\<lambda>y. f y = k) xs"
  by (induction xs arbitrary: ys) (auto simp: sorted_insert_by filter_insert_by)

lemma sorted_stable_sort [simp]: "sorted (map f (stable_sort_by f xs))"
  using stable_sort_fold[of f "[]" xs] by (simp add: stable_sort_by_def)

lemma set_stable_sort [simp]: "set (stable_sort_by f xs) = set xs"
  using stable_sort_fold[of f "[]" xs] by (simp add: stable_sort_by_def)

lemma length_stable_sort [simp]: "length (stable_sort_by f xs) = length xs"
  using stable_sort_fold[of f "[]" xs] by (simp add: stable_sort_by_def)

lemma stable_stable_sort:
  "filter (\<lambda>y. f y = k) (stable_sort_by f xs) = filter (\<lambda>y. f y = k) xs"
  using stable_sort_fold[of f "[]" xs] by (simp add: stable_sort_by_def)

definition js_key_order :: "(string \<times> json) list \<Rightarrow> (string \<times> json) list" where
  "js_key_order ob = stable_sort_by (\<lambda>e. digits_val 0 (fst e)) (filter (\<lambda>e. is_index_key (fst e)) ob)
     @ filter (\<lambda>e. \<not> is_index_key (fst e)) ob"

section \<open>JSON.stringify\<close>

definition hex_digit :: "nat \<Rightarrow> char" where
  "hex_digit d = ''0123456789abcdef'' ! d"

definition escape_char :: "char \<Rightarrow> string" where
  "escape_char c =
     (if c = CHR 0x22 then [CHR 0x5C, CHR 0x22]
      else if c = CHR 0x5C then [CHR 0x5C, CHR 0x5C]
      else if c = CHR 0x08 then [CHR 0x5C, CHR ''b'']
      else if c = CHR 0x0C then [CHR 0x5C, CHR ''f'']
      else if c = CHR 0x0A then [CHR 0x5C, CHR ''n'']
      else if c = CHR 0x0D then [CHR 0x5C, CHR ''r'']
      else if c = CHR 0x09 then [CHR 0x5C, CHR ''t'']
      else if (of_char c :: nat) < 32
        then CHR 0x5C # ''u00'' @ [hex_digit (of_char c div 16), hex_digit (of_char c mod 16)]
      else [c])"

definition quote :: "string \<Rightarrow> string" where
  "quote s = CHR 0x22 # concat (map escape_char s) @ [CHR 0x22]"

fun stringify :: "json \<Rightarrow> string" where
  "stringify JNull = ''null''"
| "stringify (JBool b) = (if b then ''true'' else ''false'')"
| "stringify (JNum i) = int_str i"
| "stringify (JReal s) = s"
| "stringify (JStr s) = quote s"
| "stringify (JArr js) = ''['' @ join '','' (map stringify js) @ '']''"
| "stringify (JObj es) = ''{'' @ join '','' (map (\<lambda>e. quote (fst e) @ '':'' @ stringify (snd e)) es) @ ''}''"

text \<open>\<open>JSON.stringify(v, null, 2)\<close>: the text of a value that begins at the given depth.\<close>

definition line_at :: "nat \<Rightarrow> string" where
  "line_at k = newline # replicate (2 * k) (CHR '' '')"

fun indented :: "nat \<Rightarrow> json \<Rightarrow> string" where
  "indented k (JArr js) =
     (if js = [] then ''[]''
      else ''['' @ line_at (Suc k) @ join ('','' @ line_at (Suc k)) (map (indented (Suc k)) js) @ line_at k @ '']'')"
| "indented k (JObj es) =
     (if es = [] then ''{}''
      else ''{'' @ line_at (Suc k) @ join ('','' @ line_at (Suc k)) (map (\<lambda>e. quote (fst e) @ '': '' @ indented (Suc k) (snd e)) es)
        @ line_at k @ ''}'')"
| "indented k v = stringify v"

lemma attributes_printed:
  "indented 0 (JObj [(''type'', JStr ''sink''), (''config'', JObj []), (''tags'', JArr [JStr ''x'', JNull])])
    = ''{'' @ newline # ''  \"type\": \"sink\",'' @ newline # ''  \"config\": {},'' @ newline # ''  \"tags\": ['' @ newline # ''    \"x\",''
      @ newline # ''    null'' @ newline # ''  ]'' @ newline # ''}''"
  by code_simp

text \<open>\<open>String(v)\<close>; an array prints its elements joined by commas, \<open>null\<close> as nothing.\<close>

fun to_string :: "json \<Rightarrow> string" where
  "to_string JNull = ''null''"
| "to_string (JBool b) = (if b then ''true'' else ''false'')"
| "to_string (JNum i) = int_str i"
| "to_string (JReal s) = s"
| "to_string (JStr s) = s"
| "to_string (JArr js) = join '','' (map (\<lambda>j. if j = JNull then '''' else to_string j) js)"
| "to_string (JObj es) = ''[object Object]''"

section \<open>JSON.parse\<close>

text \<open>
  A recursive-descent reader. Each function consumes a prefix of the text; \<open>None\<close> is a
  \<open>SyntaxError\<close>. The recursion is bounded by the fuel \<open>n\<close>, which \<open>parse\<close> sets to twice the
  length of the text plus one; \<open>parse_value_enough\<close> below shows that no text needs more.
\<close>

definition is_json_ws :: "char \<Rightarrow> bool" where
  "is_json_ws c \<longleftrightarrow> c \<in> {CHR '' '', CHR 0x09, CHR 0x0A, CHR 0x0D}"

definition skip_ws :: "string \<Rightarrow> string" where
  "skip_ws s = dropWhile is_json_ws s"

definition hex_val :: "char \<Rightarrow> nat option" where
  "hex_val c =
     (let n = of_char c :: nat in
      if 48 \<le> n \<and> n \<le> 57 then Some (n - 48)
      else if 97 \<le> n \<and> n \<le> 102 then Some (n - 87)
      else if 65 \<le> n \<and> n \<le> 70 then Some (n - 55)
      else None)"

definition utf8 :: "nat \<Rightarrow> string" where
  "utf8 u =
     (if u < 128 then [char_of u]
      else if u < 2048 then [char_of (192 + u div 64), char_of (128 + u mod 64)]
      else if u < 65536 then [char_of (224 + u div 4096), char_of (128 + u div 64 mod 64), char_of (128 + u mod 64)]
      else [char_of (240 + u div 262144), char_of (128 + u div 4096 mod 64),
            char_of (128 + u div 64 mod 64), char_of (128 + u mod 64)])"

fun parse_hex4 :: "string \<Rightarrow> (nat \<times> string) option" where
  "parse_hex4 (a # b # c # d # s) =
     (case (hex_val a, hex_val b, hex_val c, hex_val d) of
        (Some w, Some x, Some y, Some z) \<Rightarrow> Some (4096 * w + 256 * x + 16 * y + z, s)
      | _ \<Rightarrow> None)"
| "parse_hex4 s = None"

lemma parse_hex4_length: "parse_hex4 s = Some (u, s') \<Longrightarrow> length s' < length s"
  by (induction s rule: parse_hex4.induct) (auto split: option.splits)

definition simple_escape :: "char \<Rightarrow> char option" where
  "simple_escape c =
     (if c = CHR 0x22 \<or> c = CHR 0x5C \<or> c = CHR ''/'' then Some c
      else if c = CHR ''b'' then Some (CHR 0x08)
      else if c = CHR ''f'' then Some (CHR 0x0C)
      else if c = CHR ''n'' then Some (CHR 0x0A)
      else if c = CHR ''r'' then Some (CHR 0x0D)
      else if c = CHR ''t'' then Some (CHR 0x09)
      else None)"

text \<open>\<open>\\uD83D\\uDE00\<close>: a high and a low surrogate make one code point.\<close>

definition parse_unicode :: "string \<Rightarrow> (string \<times> string) option" where
  "parse_unicode s =
     (case parse_hex4 s of
        None \<Rightarrow> None
      | Some (u, s') \<Rightarrow>
          if 55296 \<le> u \<and> u < 56320 \<and> take 2 s' = [CHR 0x5C, CHR ''u''] then
            (case parse_hex4 (drop 2 s') of
               Some (v, s'') \<Rightarrow>
                 if 56320 \<le> v \<and> v < 57344
                 then Some (utf8 (65536 + (u - 55296) * 1024 + (v - 56320)), s'')
                 else Some (utf8 u, s')
             | None \<Rightarrow> Some (utf8 u, s'))
          else Some (utf8 u, s'))"

lemma parse_unicode_length: "parse_unicode s = Some (t, s') \<Longrightarrow> length s' < length s"
  using parse_hex4_length
  by (fastforce simp: parse_unicode_def split: option.splits prod.splits if_splits
      dest: parse_hex4_length)

function parse_chars :: "string \<Rightarrow> (string \<times> string) option" where
  "parse_chars [] = None"
| "parse_chars (c # cs) =
     (if c = CHR 0x22 then Some ([], cs)
      else if (of_char c :: nat) < 32 then None
      else if c = CHR 0x5C then
        (case cs of
           [] \<Rightarrow> None
         | d # ds \<Rightarrow>
             if d = CHR ''u'' then
               (case parse_unicode ds of
                  None \<Rightarrow> None
                | Some (t, ds') \<Rightarrow> map_option (\<lambda>(r, s). (t @ r, s)) (parse_chars ds'))
             else
               (case simple_escape d of
                  None \<Rightarrow> None
                | Some e \<Rightarrow> map_option (\<lambda>(r, s). (e # r, s)) (parse_chars ds)))
      else map_option (\<lambda>(r, s). (c # r, s)) (parse_chars cs))"
  by pat_completeness auto
termination parse_chars
  by (relation "measure length") (auto dest: parse_unicode_length)

text \<open>What is left after an optional fraction and after an optional exponent; \<open>None\<close> when a
  point or an \<open>e\<close> is not followed by a digit.\<close>

definition skip_digits :: "string \<Rightarrow> string option" where
  "skip_digits s = (if takeWhile is_digit s = [] then None else Some (dropWhile is_digit s))"

definition skip_sign :: "string \<Rightarrow> string" where
  "skip_sign s = (case s of [] \<Rightarrow> [] | c # r \<Rightarrow> if c = CHR ''+'' \<or> c = CHR ''-'' then r else s)"

definition skip_fraction :: "string \<Rightarrow> string option" where
  "skip_fraction s = (case s of [] \<Rightarrow> Some [] | c # r \<Rightarrow> if c = CHR ''.'' then skip_digits r else Some s)"

definition skip_exponent :: "string \<Rightarrow> string option" where
  "skip_exponent s = (case s of [] \<Rightarrow> Some []
     | c # r \<Rightarrow> if c = CHR ''e'' \<or> c = CHR ''E'' then skip_digits (skip_sign r) else Some s)"

definition parse_number :: "string \<Rightarrow> (json \<times> string) option" where
  "parse_number s =
     (let neg = starts_with ''-'' s; s1 = (if neg then drop 1 s else s); ds = takeWhile is_digit s1 in
      if ds = [] \<or> (hd ds = CHR ''0'' \<and> length ds > 1) then None
      else (case skip_fraction (dropWhile is_digit s1) of
          None \<Rightarrow> None
        | Some s2 \<Rightarrow>
            (case skip_exponent s2 of
               None \<Rightarrow> None
             | Some s3 \<Rightarrow>
                 Some (if s3 = dropWhile is_digit s1
                       then JNum ((if neg then -1 else 1) * int (digits_val 0 ds))
                       else JReal (take (length s - length s3) s), s3))))"

definition parse_literal :: "string \<Rightarrow> json \<Rightarrow> string \<Rightarrow> (json \<times> string) option" where
  "parse_literal w v s = (if starts_with w s then Some (v, drop (length w) s) else None)"

text \<open>Duplicate keys: the last value wins and the first position stays.\<close>

definition obj_put :: "string \<Rightarrow> json \<Rightarrow> (string \<times> json) list \<Rightarrow> (string \<times> json) list" where
  "obj_put k v ob = AList.update k v ob"

fun parse_value :: "nat \<Rightarrow> string \<Rightarrow> (json \<times> string) option"
  and parse_elems :: "nat \<Rightarrow> string \<Rightarrow> (json list \<times> string) option"
  and parse_members :: "nat \<Rightarrow> (string \<times> json) list \<Rightarrow> string \<Rightarrow> ((string \<times> json) list \<times> string) option"
where
  "parse_value 0 s = None"
| "parse_value (Suc n) s0 =
     (case skip_ws s0 of
        [] \<Rightarrow> None
      | c # s \<Rightarrow>
          if c = CHR 0x22 then map_option (\<lambda>(t, r). (JStr t, r)) (parse_chars s)
          else if c = CHR ''['' then
            (case skip_ws s of
               [] \<Rightarrow> None
             | d # r \<Rightarrow> if d = CHR '']'' then Some (JArr [], r)
                         else map_option (\<lambda>(js, r). (JArr js, r)) (parse_elems n s))
          else if c = CHR ''{'' then
            (case skip_ws s of
               [] \<Rightarrow> None
             | d # r \<Rightarrow> if d = CHR ''}'' then Some (JObj [], r)
                         else map_option (\<lambda>(es, r). (JObj (js_key_order es), r)) (parse_members n [] s))
          else if c = CHR ''t'' then parse_literal ''true'' (JBool True) (c # s)
          else if c = CHR ''f'' then parse_literal ''false'' (JBool False) (c # s)
          else if c = CHR ''n'' then parse_literal ''null'' JNull (c # s)
          else parse_number (c # s))"
| "parse_elems 0 s = None"
| "parse_elems (Suc n) s =
     (case parse_value n s of
        None \<Rightarrow> None
      | Some (v, r) \<Rightarrow>
          (case skip_ws r of
             [] \<Rightarrow> None
           | c # r' \<Rightarrow>
               if c = CHR '','' then map_option (\<lambda>(vs, q). (v # vs, q)) (parse_elems n r')
               else if c = CHR '']'' then Some ([v], r')
               else None))"
| "parse_members 0 acc s = None"
| "parse_members (Suc n) acc s0 =
     (case skip_ws s0 of
        [] \<Rightarrow> None
      | c # s \<Rightarrow>
          if c \<noteq> CHR 0x22 then None
          else (case parse_chars s of
             None \<Rightarrow> None
           | Some (k, r) \<Rightarrow>
               (case skip_ws r of
                  [] \<Rightarrow> None
                | d # r' \<Rightarrow>
                    if d \<noteq> CHR '':'' then None
                    else (case parse_value n r' of
                       None \<Rightarrow> None
                     | Some (v, q) \<Rightarrow>
                         (case skip_ws q of
                            [] \<Rightarrow> None
                          | e # q' \<Rightarrow>
                              if e = CHR '','' then parse_members n (obj_put k v acc) q'
                              else if e = CHR ''}'' then Some (obj_put k v acc, q')
                              else None)))))"

definition parse :: "string \<Rightarrow> json option" where
  "parse s = (case parse_value (Suc (2 * length s)) s of
     Some (v, r) \<Rightarrow> if skip_ws r = [] then Some v else None
   | None \<Rightarrow> None)"

lemma parse_chars_length: "parse_chars s = Some (t, r) \<Longrightarrow> length r < length s"
proof (induction s arbitrary: t r rule: parse_chars.induct)
  case (2 c cs)
  then show ?case
    by (fastforce split: if_splits list.splits option.splits prod.splits dest: parse_unicode_length)
qed simp

lemma skip_lengths:
  "skip_digits s = Some r \<Longrightarrow> length r < length s"
  "length (skip_sign s) \<le> length s"
  "skip_fraction s = Some r \<Longrightarrow> length r \<le> length s"
  "skip_exponent s = Some r \<Longrightarrow> length r \<le> length s"
proof -
  show digits: "skip_digits s = Some r \<Longrightarrow> length r < length s" for s r
  proof -
    assume "skip_digits s = Some r"
    then have "takeWhile is_digit s \<noteq> []" "r = dropWhile is_digit s"
      by (auto simp: skip_digits_def split: if_splits)
    then show "length r < length s"
      by (metis add_less_same_cancel2 length_0_conv length_append length_greater_0_conv
          less_add_same_cancel2 takeWhile_dropWhile_id)
  qed
  show sign: "length (skip_sign s) \<le> length s" for s
    by (auto simp: skip_sign_def split: list.splits)
  show "skip_fraction s = Some r \<Longrightarrow> length r \<le> length s"
    by (auto simp: skip_fraction_def split: list.splits if_splits dest!: digits)
  show "skip_exponent s = Some r \<Longrightarrow> length r \<le> length s"
  proof (cases s)
    case (Cons c cs)
    then show "skip_exponent s = Some r \<Longrightarrow> length r \<le> length s"
      using digits[of "skip_sign cs" r] sign[of cs]
      by (auto simp: skip_exponent_def split: if_splits)
  qed (simp add: skip_exponent_def)
qed

lemma parse_number_length: "parse_number s = Some (v, r) \<Longrightarrow> length r < length s"
proof -
  assume p: "parse_number s = Some (v, r)"
  define s1 where "s1 = (if starts_with ''-'' s then drop 1 s else s)"
  obtain s2 where d: "takeWhile is_digit s1 \<noteq> []" and f: "skip_fraction (dropWhile is_digit s1) = Some s2"
    and e: "skip_exponent s2 = Some r"
    using p by (auto simp: parse_number_def Let_def s1_def split: if_splits option.splits)
  have "skip_digits s1 = Some (dropWhile is_digit s1)" using d by (simp add: skip_digits_def)
  then have "length (dropWhile is_digit s1) < length s1" by (rule skip_lengths(1))
  moreover have "length s1 \<le> length s" by (simp add: s1_def)
  ultimately show ?thesis using skip_lengths(3)[OF f] skip_lengths(4)[OF e] by linarith
qed

lemma skip_ws_length: "length (skip_ws s) \<le> length s"
  by (simp add: skip_ws_def length_dropWhile_le)

lemma skip_ws_Cons: "skip_ws s = c # r \<Longrightarrow> length r < length s"
  by (metis skip_ws_length length_Cons Suc_le_eq)

lemma parse_literal_length: "w \<noteq> [] \<Longrightarrow> parse_literal w v s = Some (v', r) \<Longrightarrow> length r < length s"
  by (auto simp: parse_literal_def starts_with_iff split: if_splits)

lemma parse_lengths:
  "parse_value n s = Some (v, r) \<Longrightarrow> length r < length s"
  "parse_elems n s = Some (vs, r) \<Longrightarrow> length r < length s"
  "parse_members n acc s = Some (es, r) \<Longrightarrow> length r < length s"
proof (induction n s and n s and n acc s arbitrary: v r and vs r and es r
    rule: parse_value_parse_elems_parse_members.induct)
  case (2 n s0)
  obtain c s where c: "skip_ws s0 = c # s" using "2.prems" by (auto split: list.splits)
  have "length r < length (c # s)"
    using "2.prems" c "2.IH"(1)[OF c] "2.IH"(2)[OF c]
    by (auto split: if_splits list.splits dest!: skip_ws_Cons parse_chars_length parse_number_length
        parse_literal_length[rotated]) (force dest: less_trans)+
  then show ?case using skip_ws_length[of s0] c by simp
next
  case (4 n s)
  then show ?case
    by (fastforce split: option.splits list.splits if_splits dest!: skip_ws_Cons)
next
  case (6 n acc s0)
  then show ?case
    by (fastforce split: option.splits list.splits if_splits
        dest!: skip_ws_Cons parse_chars_length)
qed simp_all

text \<open>The fuel \<open>parse\<close> starts with is enough: more of it gives the same result on every text.\<close>

lemma parse_stable:
  "2 * length s < n \<Longrightarrow> parse_value (Suc n) s = parse_value n s"
  "2 * length s + 1 < n \<Longrightarrow> parse_elems (Suc n) s = parse_elems n s"
  "2 * length s < n \<Longrightarrow> parse_members (Suc n) acc s = parse_members n acc s"
proof (induction n s and n s and n acc s rule: parse_value_parse_elems_parse_members.induct)
  case (2 n s0)
  have "parse_elems (Suc n) s = parse_elems n s"
    if "skip_ws s0 = c # s" "skip_ws s = d # r" "d \<noteq> CHR '']''" "c = CHR ''[''" for c s d r
    using "2.IH"(1)[OF that(1) _ that(4,2,3)] "2.prems" skip_ws_Cons[OF that(1)] that by simp
  moreover have "parse_members (Suc n) [] s = parse_members n [] s"
    if "skip_ws s0 = c # s" "skip_ws s = d # r" "d \<noteq> CHR ''}''" "c = CHR ''{''" for c s d r
    using "2.IH"(2)[OF that(1) _ _ that(4,2,3)] "2.prems" skip_ws_Cons[OF that(1)] that by simp
  ultimately show ?case
    unfolding parse_value.simps(2)[of "Suc n"] parse_value.simps(2)[of n s0]
    by (auto split: list.split simp del: parse_elems.simps parse_members.simps parse_value.simps)
next
  case (4 n s)
  have v: "parse_value (Suc n) s = parse_value n s" using 4 by simp
  have e: "parse_elems (Suc n) r' = parse_elems n r'"
    if "parse_value n s = Some (v, r)" "skip_ws r = c # r'" "c = CHR '',''" for v r c r'
  proof -
    have "length r' < length r" "length r < length s"
      using that skip_ws_Cons parse_lengths(1) by auto
    with 4 that show ?thesis by auto
  qed
  show ?case
    unfolding parse_elems.simps(2)[of "Suc n"] parse_elems.simps(2)[of n s] v
    using e by (auto split: option.split list.split simp del: parse_elems.simps parse_members.simps parse_value.simps)
next
  case (6 n acc s0)
  have v: "parse_value (Suc n) r' = parse_value n r'"
    if "skip_ws s0 = c # s" "c = CHR 0x22" "parse_chars s = Some (k, r)" "skip_ws r = d # r'" "d = CHR '':''"
    for c s k r d r'
  proof -
    have "length r' < length r" "length r < length s" "length s < length s0"
      using that skip_ws_Cons parse_chars_length by auto
    with "6.IH"(1)[OF that(1) _ that(3) refl that(4)] "6.prems" that show ?thesis by auto
  qed
  have m: "parse_members (Suc n) (obj_put k v acc) q' = parse_members n (obj_put k v acc) q'"
    if "skip_ws s0 = c # s" "c = CHR 0x22" "parse_chars s = Some (k, r)" "skip_ws r = d # r'" "d = CHR '':''"
      "parse_value n r' = Some (v, q)" "skip_ws q = e # q'" "e = CHR '',''"
    for c s k r d r' v q e q'
  proof -
    have "length q' < length q" "length q < length r'" "length r' < length r" "length r < length s" "length s < length s0"
      using that skip_ws_Cons parse_chars_length parse_lengths(1) by auto
    with "6.IH"(2)[OF that(1) _ that(3) refl that(4) _ that(6) refl that(7,8)] "6.prems" that
    show ?thesis by auto
  qed
  show ?case
    unfolding parse_members.simps(2)[of "Suc n"] parse_members.simps(2)[of n acc s0]
    using v m by (auto split: option.split list.split simp del: parse_elems.simps parse_members.simps parse_value.simps)
qed simp_all

lemma parse_value_enough: "2 * length s < n \<Longrightarrow> parse_value n s = parse_value (Suc (2 * length s)) s"
proof (induction n)
  case (Suc n)
  then show ?case by (cases "2 * length s < n") (simp_all only: parse_stable(1), metis not_less_less_Suc_eq)
qed simp

text \<open>Concrete readings, evaluated in the kernel.\<close>

lemma parse_example:
  "parse (''{'' @ quote ''id'' @ '':'' @ quote ''number'' @ '', '' @ quote ''n'' @ '':[1,-20,true]}'')
     = Some (JObj [(''id'', JStr ''number''), (''n'', JArr [JNum 1, JNum (-20), JBool True])])"
  by code_simp

lemma parse_rejects: "parse ''{'' = None" "parse ''[1,]'' = None" "parse ''01'' = None" "parse '''' = None"
  by code_simp+

end
