(* ===== verification/JsNumber.thy ===== *)
theory JsNumber
  imports Prelude
begin

text \<open>
  Number formatting of the JavaScript run time: \<open>Math.round\<close> of a quotient and
  \<open>toFixed(1)\<close>, the latter on the binary64 quotient that \<open>a / b\<close> really is, because
  \<open>toFixed\<close> decides a decimal tie by the binary value.
\<close>

fun log2_floor :: "nat \<Rightarrow> nat" where
  "log2_floor n = (if n < 2 then 0 else Suc (log2_floor (n div 2)))"

declare log2_floor.simps [simp del]

text \<open>\<open>Math.round(p / q)\<close>: to the nearest integer, halves upward.\<close>

definition round_div :: "int \<Rightarrow> int \<Rightarrow> int" where
  "round_div p q = (2 * p + q) div (2 * q)"

text \<open>\<open>p / q\<close> for \<open>p \<ge> q > 0\<close> as a binary64 number: \<open>(m, s)\<close> stands for \<open>m / 2^s\<close> with 53
  significant bits, ties to even.\<close>

definition binary64_quotient :: "int \<Rightarrow> int \<Rightarrow> int \<times> nat" where
  "binary64_quotient p q =
     (let s = 52 - log2_floor (nat (p div q));
          n = p * 2 ^ s; m = n div q; r = n mod q
      in (if 2 * r > q \<or> (2 * r = q \<and> odd m) then m + 1 else m, s))"

text \<open>\<open>(p / q).toFixed(1)\<close>: the number of tenths closest to the binary value, the larger one of
  two.\<close>

definition tenths :: "int \<Rightarrow> int \<Rightarrow> int" where
  "tenths p q = (case binary64_quotient p q of (m, s) \<Rightarrow> round_div (10 * m) (2 ^ s))"

definition to_fixed1 :: "int \<Rightarrow> int \<Rightarrow> string" where
  "to_fixed1 p q = int_str (tenths p q div 10) @ ''.'' @ int_str (tenths p q mod 10)"

lemma round_div_bounds:
  assumes "q > 0"
  shows "2 * (round_div p q * q) \<le> 2 * p + q" and "2 * p - q < 2 * (round_div p q * q)"
proof -
  have "(2 * p + q) div (2 * q) * (2 * q) + (2 * p + q) mod (2 * q) = 2 * p + q"
    by (rule div_mult_mod_eq)
  moreover have "0 \<le> (2 * p + q) mod (2 * q)" "(2 * p + q) mod (2 * q) < 2 * q" using assms by simp_all
  ultimately show "2 * (round_div p q * q) \<le> 2 * p + q" and "2 * p - q < 2 * (round_div p q * q)"
    unfolding round_div_def by (simp_all add: algebra_simps)
qed

lemma round_div_exact [simp]: "q > 0 \<Longrightarrow> round_div (a * q) q = a"
  unfolding round_div_def by (rule int_div_pos_eq[where r = q]) (auto simp: algebra_simps)

text \<open>The tie at 1.15 is decided downward, the one at 1.25 upward.\<close>

lemma to_fixed1_ties: "to_fixed1 1150 1000 = ''1.1''" "to_fixed1 1250 1000 = ''1.3''" "to_fixed1 59960 1000 = ''60.0''"
  by code_simp+

end
