(* ===== verification/JsDate.thy ===== *)
theory JsDate
  imports Json
begin

text \<open>
  \<open>Date.parse\<close> of the JavaScript run time on the ISO 8601 forms: a date, optionally with a time
  to the minute, the second or a fraction of it, and a zone (\<open>Z\<close> or an offset; none means UTC
  here, as the servers that run this code are set). The result counts milliseconds since 1970;
  \<open>None\<close> stands for \<open>NaN\<close>. Other texts, which the standard leaves to the engine, are not dates.
\<close>

fun take_digits :: "nat \<Rightarrow> nat \<Rightarrow> string \<Rightarrow> (nat \<times> string) option" where
  "take_digits 0 acc s = Some (acc, s)"
| "take_digits (Suc n) acc s =
     (case s of
        [] \<Rightarrow> None
      | c # r \<Rightarrow> if is_digit c then take_digits n (10 * acc + digit_val c) r else None)"

definition expect :: "char \<Rightarrow> string \<Rightarrow> string option" where
  "expect c s = (case s of [] \<Rightarrow> None | d # r \<Rightarrow> if d = c then Some r else None)"

text \<open>Two-digit fields after a separator.\<close>

definition sep_field :: "char \<Rightarrow> string \<Rightarrow> (nat \<times> string) option" where
  "sep_field c s = Option.bind (expect c s) (take_digits 2 0)"

text \<open>Days since 1970-01-01 in the proleptic Gregorian calendar; the year starts in March.\<close>

definition days_from_civil :: "int \<Rightarrow> int \<Rightarrow> int \<Rightarrow> int" where
  "days_from_civil y m d =
     (let y' = (if m \<le> 2 then y - 1 else y); era = y' div 400; yoe = y' mod 400;
          doy = (153 * ((m + 9) mod 12) + 2) div 5 + d - 1
      in era * 146097 + yoe * 365 + yoe div 4 - yoe div 100 + doy - 719468)"

definition parse_fraction :: "string \<Rightarrow> (nat \<times> string) option" where
  "parse_fraction s =
     (case expect (CHR ''.'') s of
        None \<Rightarrow> Some (0, s)
      | Some r \<Rightarrow>
          (let ds = takeWhile is_digit r
           in if ds = [] then None
              else Some (digits_val 0 (take 3 (ds @ ''00'')), dropWhile is_digit r)))"

definition parse_seconds :: "string \<Rightarrow> (nat \<times> nat \<times> string) option" where
  "parse_seconds s =
     (case sep_field (CHR '':'') s of
        None \<Rightarrow> if starts_with '':'' s then None else Some (0, 0, s)
      | Some (sec, r) \<Rightarrow> map_option (\<lambda>(ms, q). (sec, ms, q)) (parse_fraction r))"

text \<open>The zone, as minutes east of UTC.\<close>

definition parse_zone :: "string \<Rightarrow> int option" where
  "parse_zone s =
     (case s of
        [] \<Rightarrow> Some 0
      | c # r \<Rightarrow>
          if c = CHR ''Z'' then (if r = [] then Some 0 else None)
          else if c = CHR ''+'' \<or> c = CHR ''-'' then
            (case take_digits 2 0 r of
               None \<Rightarrow> None
             | Some (h, r1) \<Rightarrow>
                 (case sep_field (CHR '':'') r1 of
                    Some (mi, []) \<Rightarrow> Some ((if c = CHR ''+'' then 1 else -1) * int (60 * h + mi))
                  | _ \<Rightarrow> None))
          else None)"

definition parse_time :: "string \<Rightarrow> int option" where
  "parse_time s =
     (if s = [] then Some 0
      else case expect (CHR ''T'') s of
        None \<Rightarrow> None
      | Some r \<Rightarrow>
          (case take_digits 2 0 r of
             None \<Rightarrow> None
           | Some (h, r1) \<Rightarrow>
               (case sep_field (CHR '':'') r1 of
                  None \<Rightarrow> None
                | Some (mi, r2) \<Rightarrow>
                    (case parse_seconds r2 of
                       None \<Rightarrow> None
                     | Some (sec, ms, r3) \<Rightarrow>
                         if h \<le> 24 \<and> mi \<le> 59 \<and> sec \<le> 59
                         then map_option (\<lambda>z. ((int h * 60 + int mi) * 60 + int sec) * 1000 + int ms - z * 60000) (parse_zone r3)
                         else None))))"

definition date_parse :: "string \<Rightarrow> int option" where
  "date_parse s =
     (case take_digits 4 0 s of
        None \<Rightarrow> None
      | Some (y, r) \<Rightarrow>
          (case sep_field (CHR ''-'') r of
             None \<Rightarrow> None
           | Some (m, r1) \<Rightarrow>
               (case sep_field (CHR ''-'') r1 of
                  None \<Rightarrow> None
                | Some (d, r2) \<Rightarrow>
                    if 1 \<le> m \<and> m \<le> 12 \<and> 1 \<le> d \<and> d \<le> 31
                    then map_option (\<lambda>t. days_from_civil (int y) (int m) (int d) * 86400000 + t) (parse_time r2)
                    else None)))"

lemma date_parse_examples:
  "date_parse ''1970-01-01T00:00:00.000Z'' = Some 0"
  "date_parse ''2024-03-01T12:30:15.250Z'' = Some 1709296215250"
  "date_parse ''2024-03-01T14:30:15.25+02:00'' = Some 1709296215250"
  "date_parse ''yesterday'' = None"
  by code_simp+

end
