(* ===== verification/PipelineTypes.thy ===== *)
theory PipelineTypes
  imports Json
begin

text \<open>
  The data model of \<open>packages/shared/src/types.ts\<close>, \<open>catalog-types.ts\<close> and \<open>features.ts\<close>:
  pipeline definitions with their nodes, edges, trigger and declared data assets, the entries
  of the connector catalog, and the paid features. An optional property is an \<open>option\<close>;
  \<open>Record<string, unknown>\<close> is a list of JSON entries. The types of the run-time payloads that
  only the Go back end produces (\<open>DataRef\<close>, \<open>CdcEvent\<close>, \<open>DynamicWorkflowInput\<close>) are not modelled.
\<close>

section \<open>Assets and pipelines\<close>

datatype node_type = Source | Transform | Sink | Fork | Merge

datatype asset_type = Table | File | Topic | Stream | VectorIndex | Model | Api | Collection

datatype layer = Bronze | Silver | Gold

record contract_field =
  cf_name :: string
  cf_type :: string
  cf_nullable :: "bool option"

record data_asset =
  a_urn :: string
  a_platform :: string
  a_namespace :: string
  a_name :: string
  a_type :: asset_type
  a_layer :: "layer option"
  a_schema :: "contract_field list option"
  a_owner :: "string option"
  a_tags :: "string list option"

datatype trigger =
    Cron string
  | Webhook string string
  | Event string
  | AssetTrigger string
  | Manual

record ingestion_config =
  ing_mode :: string
  ing_backfillStart :: "string option"
  ing_backfillEnd :: "string option"
  ing_stateKey :: "string option"
  ing_pageSize :: "int option"

record pipeline_node =
  n_id :: string
  n_type :: node_type
  n_activityType :: string
  n_label :: "string option"
  n_config :: "(string \<times> json) list"
  n_ingestion :: "ingestion_config option"
  n_timeoutSec :: "int option"
  n_retry :: "int option option"
  n_mergeStrategy :: "string option"
  n_joinKey :: "string option"
  n_inputAssets :: "data_asset list option"
  n_outputAssets :: "data_asset list option"

record pipeline_edge =
  e_id :: string
  e_source :: string
  e_target :: string
  e_condition :: "string option"

record pipeline_metadata =
  md_owner :: "string option"
  md_domain :: "string option"
  md_tags :: "string list option"

record pipeline_slo =
  slo_freshnessMinutes :: "int option"
  slo_maxFailureRatePercent :: "int option"
  slo_maxDurationMs :: "int option"

record notification_policy =
  np_connectionId :: "string option"
  np_minimumSeverity :: "string option"

record execution_config =
  ex_engine :: "string option"
  ex_transformSql :: "string option"

record pipeline_definition =
  p_id :: string
  p_version :: int
  p_name :: string
  p_tenantId :: string
  p_trigger :: "trigger option"
  p_nodes :: "pipeline_node list"
  p_edges :: "pipeline_edge list"
  p_concurrency :: "int option option"
  p_metadata :: "pipeline_metadata option"
  p_slo :: "pipeline_slo option"
  p_notifications :: "notification_policy option"
  p_execution :: "execution_config option"

text \<open>The words the sources print for the members of the unions.\<close>

fun asset_type_str :: "asset_type \<Rightarrow> string" where
  "asset_type_str Table = ''table''"
| "asset_type_str File = ''file''"
| "asset_type_str Topic = ''topic''"
| "asset_type_str Stream = ''stream''"
| "asset_type_str VectorIndex = ''vector-index''"
| "asset_type_str Model = ''model''"
| "asset_type_str Api = ''api''"
| "asset_type_str Collection = ''collection''"

fun layer_str :: "layer \<Rightarrow> string" where
  "layer_str Bronze = ''bronze''"
| "layer_str Silver = ''silver''"
| "layer_str Gold = ''gold''"

fun node_type_str :: "node_type \<Rightarrow> string" where
  "node_type_str Source = ''source''"
| "node_type_str Transform = ''transform''"
| "node_type_str Sink = ''sink''"
| "node_type_str Fork = ''fork''"
| "node_type_str Merge = ''merge''"

lemma layer_str_inj [simp]: "layer_str a = layer_str b \<longleftrightarrow> a = b"
  by (cases a; cases b) auto

lemma node_type_str_inj [simp]: "node_type_str a = node_type_str b \<longleftrightarrow> a = b"
  by (cases a; cases b) auto

fun trigger_json :: "trigger \<Rightarrow> json" where
  "trigger_json (Cron s) = JObj [(''type'', JStr ''cron''), (''schedule'', JStr s)]"
| "trigger_json (Webhook p s) = JObj [(''type'', JStr ''webhook''), (''path'', JStr p), (''secret'', JStr s)]"
| "trigger_json (Event t) = JObj [(''type'', JStr ''event''), (''topic'', JStr t)]"
| "trigger_json (AssetTrigger u) = JObj [(''type'', JStr ''asset''), (''assetUrn'', JStr u)]"
| "trigger_json Manual = JObj [(''type'', JStr ''manual'')]"

section \<open>Paid features and the catalog's entries\<close>

datatype paid_feature =
    AdvancedConnectors
  | Realtime
  | SparkSql
  | FlinkSql
  | StatefulProcessing
  | DeepObservability
  | Governance

definition PAID_FEATURE_KEYS :: "paid_feature list" where
  "PAID_FEATURE_KEYS = [AdvancedConnectors, Realtime, SparkSql, FlinkSql, StatefulProcessing,
     DeepObservability, Governance]"

fun feature_key :: "paid_feature \<Rightarrow> string" where
  "feature_key AdvancedConnectors = ''advancedConnectors''"
| "feature_key Realtime = ''realtime''"
| "feature_key SparkSql = ''sparkSql''"
| "feature_key FlinkSql = ''flinkSql''"
| "feature_key StatefulProcessing = ''statefulProcessing''"
| "feature_key DeepObservability = ''deepObservability''"
| "feature_key Governance = ''governance''"

type_synonym paid_features = "paid_feature \<Rightarrow> bool"

definition DEFAULT_PAID_FEATURES :: paid_features where
  "DEFAULT_PAID_FEATURES = (\<lambda>_. False)"

lemma PAID_FEATURE_KEYS_all: "f \<in> set PAID_FEATURE_KEYS"
  by (cases f) (simp_all add: PAID_FEATURE_KEYS_def)

record field_spec =
  fs_key :: string
  fs_label :: string
  fs_type :: string
  fs_options :: "string list option"
  fs_placeholder :: "string option"
  fs_help :: "string option"
  fs_visibleWhen :: "(string \<times> string) option"
  fs_picker :: "string option"
  fs_provider :: "string option"
  fs_writes :: "string list option"

record catalog_entry =
  ce_activityType :: string
  ce_nodeType :: node_type
  ce_label :: string
  ce_color :: string
  ce_fields :: "field_spec list"
  ce_supportsIngestion :: "bool option"
  ce_requiredFeature :: "paid_feature option"

section \<open>Building small pipelines\<close>

text \<open>Shorthands for the concrete pipelines on which the properties are exercised.\<close>

definition bare_node :: "string \<Rightarrow> node_type \<Rightarrow> string \<Rightarrow> (string \<times> json) list \<Rightarrow> pipeline_node" where
  "bare_node i t act config = \<lparr>n_id = i, n_type = t, n_activityType = act, n_label = None, n_config = config,
     n_ingestion = None, n_timeoutSec = None, n_retry = None, n_mergeStrategy = None, n_joinKey = None,
     n_inputAssets = None, n_outputAssets = None\<rparr>"

definition bare_edge :: "string \<Rightarrow> string \<Rightarrow> string \<Rightarrow> pipeline_edge" where
  "bare_edge i s t = \<lparr>e_id = i, e_source = s, e_target = t, e_condition = None\<rparr>"

definition bare_pipeline :: "string \<Rightarrow> pipeline_node list \<Rightarrow> pipeline_edge list \<Rightarrow> pipeline_definition" where
  "bare_pipeline i nodes edges = \<lparr>p_id = i, p_version = 1, p_name = i, p_tenantId = ''t'', p_trigger = Some Manual,
     p_nodes = nodes, p_edges = edges, p_concurrency = None, p_metadata = None, p_slo = None,
     p_notifications = None, p_execution = None\<rparr>"

definition orders_pipeline :: pipeline_definition where
  "orders_pipeline = bare_pipeline ''p''
     [bare_node ''src'' Source ''postgres.fetch'' [(''table'', JStr ''raw.orders'')],
      bare_node ''check'' Transform ''transform.contract''
        [(''schemaJson'', JObj [(''id'', JStr ''number''), (''email'', JStr ''string?'')])],
      bare_node ''sink'' Sink ''sink.postgres'' [(''table'', JStr ''orders''), (''layer'', JStr ''bronze'')]]
     [bare_edge ''e1'' ''src'' ''check'', bare_edge ''e2'' ''check'' ''sink'']"

lemmas sample_defs = bare_node_def bare_edge_def bare_pipeline_def orders_pipeline_def

end
