(* ===== verification/Catalog.thy ===== *)
theory Catalog
  imports PipelineTypes
begin

text \<open>
  \<open>packages/shared/src/catalog.ts\<close>: the connector catalog, entry by entry in the order of the
  source (split here into its four sections), the index \<open>catalogByType\<close>, and
  \<open>catalogForFeatures\<close>, which hides the entries and the select options that a workspace has
  not paid for.
\<close>

definition field :: "string \<Rightarrow> string \<Rightarrow> string \<Rightarrow> field_spec" where
  "field key label type = \<lparr>fs_key = key, fs_label = label, fs_type = type, fs_options = None,
     fs_placeholder = None, fs_help = None, fs_visibleWhen = None, fs_picker = None,
     fs_provider = None, fs_writes = None\<rparr>"

definition catalog_sources :: "catalog_entry list" where
  "catalog_sources = [
    \<lparr>ce_activityType = ''zendesk.fetch'', ce_nodeType = Source, ce_label = ''Zendesk'', ce_color = ''#1D9E75'',
      ce_fields = [(field ''connection'' ''Zendesk account'' ''oauth-picker'')\<lparr>fs_writes := Some [''connectionId'', ''subdomain'', ''resource''],
          fs_picker := Some ''zendesk'',
          fs_provider := Some ''zendesk''\<rparr>],
      ce_supportsIngestion = Some True, ce_requiredFeature = None\<rparr>,
    \<lparr>ce_activityType = ''gsheets.fetch'', ce_nodeType = Source, ce_label = ''Google Sheets'', ce_color = ''#1D9E75'',
      ce_fields = [(field ''connection'' ''Spreadsheet'' ''oauth-picker'')\<lparr>fs_writes := Some [''connectionId'', ''spreadsheetId'', ''range'', ''sheetName''],
          fs_picker := Some ''gsheets'',
          fs_provider := Some ''google''\<rparr>,
        (field ''keyColumn'' ''Key column'' ''text'')\<lparr>fs_help := Some ''Column used to detect changed rows''\<rparr>],
      ce_supportsIngestion = Some True, ce_requiredFeature = None\<rparr>,
    \<lparr>ce_activityType = ''gdrive.fetch'', ce_nodeType = Source, ce_label = ''Google Drive'', ce_color = ''#1D9E75'',
      ce_fields = [(field ''connection'' ''Drive folder'' ''oauth-picker'')\<lparr>fs_writes := Some [''connectionId'', ''folderId'', ''query''],
          fs_picker := Some ''gdrive'',
          fs_provider := Some ''google''\<rparr>],
      ce_supportsIngestion = Some True, ce_requiredFeature = None\<rparr>,
    \<lparr>ce_activityType = ''excel.fetch'', ce_nodeType = Source, ce_label = ''Microsoft Excel'', ce_color = ''#1D9E75'',
      ce_fields = [(field ''connection'' ''Workbook'' ''oauth-picker'')\<lparr>fs_writes := Some [''connectionId'', ''driveId'', ''itemId'', ''sheetName''],
          fs_picker := Some ''excel'',
          fs_provider := Some ''microsoft''\<rparr>,
        (field ''keyColumn'' ''Key column'' ''text'')\<lparr>fs_help := Some ''Column used to detect changed rows''\<rparr>],
      ce_supportsIngestion = Some True, ce_requiredFeature = None\<rparr>,
    \<lparr>ce_activityType = ''http.fetch'', ce_nodeType = Source, ce_label = ''Custom API'', ce_color = ''#1D9E75'',
      ce_fields = [(field ''url'' ''URL'' ''text'')\<lparr>fs_placeholder := Some ''https://api.example.com/items''\<rparr>,
        (field ''recordsPath'' ''Records path'' ''text'')\<lparr>fs_placeholder := Some ''data.items''\<rparr>,
        (field ''paginationJson'' ''Pagination (JSON)'' ''textarea'')\<lparr>fs_placeholder := Some ''{\"style\":\"cursor\",\"cursorPath\":\"meta.next\",\"param\":\"cursor\",\"limitParam\":\"limit\",\"limit\":100}''\<rparr>,
        (field ''authJson'' ''Auth (JSON)'' ''textarea'')\<lparr>fs_placeholder := Some ''{\"type\":\"bearer\",\"token\":\"...\"}''\<rparr>,
        (field ''incrementalJson'' ''Incremental (JSON)'' ''textarea'')\<lparr>fs_placeholder := Some ''{\"sinceParam\":\"updated_after\",\"recordTimestampPath\":\"updated_at\"}''\<rparr>],
      ce_supportsIngestion = Some True, ce_requiredFeature = None\<rparr>,
    \<lparr>ce_activityType = ''postgres.fetch'', ce_nodeType = Source, ce_label = ''PostgreSQL'', ce_color = ''#336791'',
      ce_fields = [(field ''connection'' ''Database connection'' ''instance-picker'')\<lparr>fs_writes := Some [''connectionId''],
          fs_provider := Some ''postgres''\<rparr>,
        (field ''table'' ''Source table'' ''text'')\<lparr>fs_placeholder := Some ''public.orders''\<rparr>,
        (field ''syncMode'' ''Sync mode'' ''select'')\<lparr>fs_options := Some [''cursor'', ''cdc'']\<rparr>,
        (field ''columns'' ''Columns'' ''text'')\<lparr>fs_placeholder := Some ''*'',
          fs_visibleWhen := Some (''syncMode'', ''cursor'')\<rparr>,
        (field ''cursorColumn'' ''Incremental cursor column'' ''text'')\<lparr>fs_placeholder := Some ''updated_at'',
          fs_help := Some ''Indexed, monotonically increasing column such as id or updated_at'',
          fs_visibleWhen := Some (''syncMode'', ''cursor'')\<rparr>,
        (field ''cursorType'' ''Cursor type'' ''select'')\<lparr>fs_options := Some [''date'', ''number'', ''string''],
          fs_visibleWhen := Some (''syncMode'', ''cursor'')\<rparr>,
        (field ''layer'' ''Data layer'' ''select'')\<lparr>fs_options := Some [''bronze'', ''silver'', ''gold'']\<rparr>],
      ce_supportsIngestion = Some True, ce_requiredFeature = None\<rparr>,
    \<lparr>ce_activityType = ''mysql.fetch'', ce_nodeType = Source, ce_label = ''MySQL'', ce_color = ''#4479A1'',
      ce_fields = [(field ''connection'' ''Database connection'' ''instance-picker'')\<lparr>fs_writes := Some [''connectionId''],
          fs_provider := Some ''mysql''\<rparr>,
        (field ''table'' ''Source table'' ''text'')\<lparr>fs_placeholder := Some ''orders''\<rparr>,
        (field ''syncMode'' ''Sync mode'' ''select'')\<lparr>fs_options := Some [''cursor'', ''cdc'']\<rparr>,
        (field ''columns'' ''Columns'' ''text'')\<lparr>fs_placeholder := Some ''*'',
          fs_visibleWhen := Some (''syncMode'', ''cursor'')\<rparr>,
        (field ''cursorColumn'' ''Incremental cursor column'' ''text'')\<lparr>fs_placeholder := Some ''updated_at'',
          fs_visibleWhen := Some (''syncMode'', ''cursor'')\<rparr>,
        (field ''cursorType'' ''Cursor type'' ''select'')\<lparr>fs_options := Some [''date'', ''number'', ''string''],
          fs_visibleWhen := Some (''syncMode'', ''cursor'')\<rparr>,
        (field ''layer'' ''Data layer'' ''select'')\<lparr>fs_options := Some [''bronze'', ''silver'', ''gold'']\<rparr>],
      ce_supportsIngestion = Some True, ce_requiredFeature = None\<rparr>,
    \<lparr>ce_activityType = ''mongodb.fetch'', ce_nodeType = Source, ce_label = ''MongoDB'', ce_color = ''#47A248'',
      ce_fields = [(field ''connection'' ''Database connection'' ''instance-picker'')\<lparr>fs_writes := Some [''connectionId''],
          fs_provider := Some ''mongodb''\<rparr>,
        (field ''collection'' ''Collection'' ''text'')\<lparr>fs_placeholder := Some ''orders''\<rparr>,
        (field ''syncMode'' ''Sync mode'' ''select'')\<lparr>fs_options := Some [''cursor'', ''cdc'']\<rparr>,
        (field ''cursorField'' ''Cursor field'' ''text'')\<lparr>fs_placeholder := Some ''_id'',
          fs_visibleWhen := Some (''syncMode'', ''cursor'')\<rparr>,
        (field ''cursorType'' ''Cursor type'' ''select'')\<lparr>fs_options := Some [''objectId'', ''string'', ''number'', ''date''],
          fs_visibleWhen := Some (''syncMode'', ''cursor'')\<rparr>,
        (field ''layer'' ''Data layer'' ''select'')\<lparr>fs_options := Some [''bronze'', ''silver'', ''gold'']\<rparr>],
      ce_supportsIngestion = Some True, ce_requiredFeature = None\<rparr>,
    \<lparr>ce_activityType = ''s3.fetch'', ce_nodeType = Source, ce_label = ''Amazon S3'', ce_color = ''#FF9900'',
      ce_fields = [(field ''connection'' ''S3 connection'' ''instance-picker'')\<lparr>fs_writes := Some [''connectionId''],
          fs_provider := Some ''s3''\<rparr>,
        field ''bucket'' ''Bucket'' ''text'',
        (field ''key'' ''Object key'' ''text'')\<lparr>fs_placeholder := Some ''imports/orders.jsonl''\<rparr>,
        (field ''format'' ''Format'' ''select'')\<lparr>fs_options := Some [''jsonl'', ''json'']\<rparr>,
        (field ''layer'' ''Data layer'' ''select'')\<lparr>fs_options := Some [''bronze'', ''silver'', ''gold'']\<rparr>],
      ce_supportsIngestion = Some True, ce_requiredFeature = None\<rparr>,
    \<lparr>ce_activityType = ''kafka.fetch'', ce_nodeType = Source, ce_label = ''Kafka / Redpanda'', ce_color = ''#7C3AED'',
      ce_fields = [(field ''connection'' ''Kafka connection'' ''instance-picker'')\<lparr>fs_writes := Some [''connectionId''],
          fs_provider := Some ''kafka''\<rparr>,
        (field ''topic'' ''Topic'' ''text'')\<lparr>fs_placeholder := Some ''orders.v1''\<rparr>,
        (field ''cluster'' ''Lineage cluster name'' ''text'')\<lparr>fs_placeholder := Some ''events-prod'',
          fs_help := Some ''Use the same name across connections to merge topic lineage''\<rparr>,
        (field ''startPosition'' ''First run starts at'' ''select'')\<lparr>fs_options := Some [''earliest'', ''latest'']\<rparr>,
        (field ''valueFormat'' ''Value format'' ''select'')\<lparr>fs_options := Some [''json'', ''string'']\<rparr>,
        field ''includeMetadata'' ''Include Kafka metadata'' ''checkbox'',
        (field ''pageSize'' ''Messages per page'' ''number'')\<lparr>fs_placeholder := Some ''1000''\<rparr>,
        (field ''layer'' ''Data layer'' ''select'')\<lparr>fs_options := Some [''bronze'', ''silver'', ''gold'']\<rparr>],
      ce_supportsIngestion = None, ce_requiredFeature = Some Realtime\<rparr>,
    \<lparr>ce_activityType = ''sftp.fetch'', ce_nodeType = Source, ce_label = ''SFTP'', ce_color = ''#536DFE'',
      ce_fields = [(field ''connection'' ''SFTP connection'' ''instance-picker'')\<lparr>fs_writes := Some [''connectionId''],
          fs_provider := Some ''sftp''\<rparr>,
        (field ''path'' ''Remote file'' ''text'')\<lparr>fs_placeholder := Some ''/exports/orders.jsonl''\<rparr>,
        (field ''format'' ''Format'' ''select'')\<lparr>fs_options := Some [''jsonl'', ''json'']\<rparr>],
      ce_supportsIngestion = Some True, ce_requiredFeature = Some AdvancedConnectors\<rparr>,
    \<lparr>ce_activityType = ''snowflake.fetch'', ce_nodeType = Source, ce_label = ''Snowflake'', ce_color = ''#29B5E8'',
      ce_fields = [(field ''connection'' ''Snowflake connection'' ''instance-picker'')\<lparr>fs_writes := Some [''connectionId''],
          fs_provider := Some ''snowflake''\<rparr>,
        (field ''table'' ''Table'' ''text'')\<lparr>fs_placeholder := Some ''RAW.ORDERS''\<rparr>,
        (field ''syncMode'' ''Sync mode'' ''select'')\<lparr>fs_options := Some [''cursor'', ''changes'']\<rparr>,
        (field ''cursorColumn'' ''Cursor column'' ''text'')\<lparr>fs_placeholder := Some ''UPDATED_AT'',
          fs_visibleWhen := Some (''syncMode'', ''cursor'')\<rparr>],
      ce_supportsIngestion = Some True, ce_requiredFeature = Some AdvancedConnectors\<rparr>,
    \<lparr>ce_activityType = ''iceberg.fetch'', ce_nodeType = Source, ce_label = ''Apache Iceberg'', ce_color = ''#4B88A2'',
      ce_fields = [(field ''connection'' ''Iceberg REST catalog'' ''instance-picker'')\<lparr>fs_writes := Some [''connectionId''],
          fs_provider := Some ''iceberg''\<rparr>,
        (field ''namespace'' ''Namespace'' ''text'')\<lparr>fs_placeholder := Some ''analytics''\<rparr>,
        (field ''table'' ''Table'' ''text'')\<lparr>fs_placeholder := Some ''orders''\<rparr>],
      ce_supportsIngestion = Some True, ce_requiredFeature = Some AdvancedConnectors\<rparr>]"

definition catalog_transforms :: "catalog_entry list" where
  "catalog_transforms = [
    \<lparr>ce_activityType = ''transform.map'', ce_nodeType = Transform, ce_label = ''Map'', ce_color = ''#D85A30'',
      ce_fields = [(field ''expression'' ''Safe projection expression'' ''textarea'')\<lparr>fs_placeholder := Some ''({ id: r.id, subject: r.subject, priority: r.priority })''\<rparr>],
      ce_supportsIngestion = None, ce_requiredFeature = None\<rparr>,
    \<lparr>ce_activityType = ''transform.filter'', ce_nodeType = Transform, ce_label = ''Filter'', ce_color = ''#D85A30'',
      ce_fields = [(field ''predicate'' ''Safe predicate'' ''textarea'')\<lparr>fs_placeholder := Some (''r.status === '' @ [CHR 0x27] @ ''open'' @ [CHR 0x27])\<rparr>],
      ce_supportsIngestion = None, ce_requiredFeature = None\<rparr>,
    \<lparr>ce_activityType = ''transform.formula'', ce_nodeType = Transform, ce_label = ''Formula'', ce_color = ''#D85A30'',
      ce_fields = [(field ''outputField'' ''Output field'' ''text'')\<lparr>fs_placeholder := Some ''total''\<rparr>,
        (field ''expression'' ''Formula'' ''textarea'')\<lparr>fs_placeholder := Some ''round(r.price * r.quantity, 2)'',
          fs_help := Some ''Functions: abs, round, lower, upper, string, number, length, coalesce, concat''\<rparr>],
      ce_supportsIngestion = None, ce_requiredFeature = None\<rparr>,
    \<lparr>ce_activityType = ''transform.select'', ce_nodeType = Transform, ce_label = ''JMESPath select'', ce_color = ''#D85A30'',
      ce_fields = [(field ''expression'' ''JMESPath expression'' ''textarea'')\<lparr>fs_placeholder := Some ''{id: id, total: total}''\<rparr>],
      ce_supportsIngestion = None, ce_requiredFeature = None\<rparr>,
    \<lparr>ce_activityType = ''transform.rename'', ce_nodeType = Transform, ce_label = ''Rename'', ce_color = ''#D85A30'',
      ce_fields = [(field ''mapping'' ''Field mapping (JSON)'' ''textarea'')\<lparr>fs_placeholder := Some ''{\"old_name\":\"new_name\",\"ticket_id\":\"id\"}''\<rparr>],
      ce_supportsIngestion = None, ce_requiredFeature = None\<rparr>,
    \<lparr>ce_activityType = ''transform.dedupe'', ce_nodeType = Transform, ce_label = ''Dedupe'', ce_color = ''#D85A30'',
      ce_fields = [(field ''key'' ''Dedup key(s)'' ''text'')\<lparr>fs_placeholder := Some ''id, country'',
          fs_help := Some ''One field, or comma-separated for a compound key''\<rparr>,
        (field ''keep'' ''Keep'' ''select'')\<lparr>fs_options := Some [''first'', ''last'']\<rparr>,
        (field ''scope'' ''Scope'' ''select'')\<lparr>fs_options := Some [''run'', ''pipeline''],
          fs_help := Some ''Pipeline scope remembers keys across runs''\<rparr>],
      ce_supportsIngestion = None, ce_requiredFeature = None\<rparr>,
    \<lparr>ce_activityType = ''transform.flatten'', ce_nodeType = Transform, ce_label = ''Flatten'', ce_color = ''#D85A30'',
      ce_fields = [(field ''delimiter'' ''Key delimiter'' ''text'')\<lparr>fs_placeholder := Some ''.''\<rparr>,
        (field ''maxDepth'' ''Max depth'' ''number'')\<lparr>fs_placeholder := Some ''10''\<rparr>,
        (field ''arrayPolicy'' ''Array policy'' ''select'')\<lparr>fs_options := Some [''index'', ''stringify'', ''keep'']\<rparr>],
      ce_supportsIngestion = None, ce_requiredFeature = None\<rparr>,
    \<lparr>ce_activityType = ''transform.parse'', ce_nodeType = Transform, ce_label = ''Parse JSON'', ce_color = ''#D85A30'',
      ce_fields = [(field ''fields'' ''Fields (comma-separated)'' ''text'')\<lparr>fs_placeholder := Some ''payload,metadata''\<rparr>,
        (field ''onError'' ''On error'' ''select'')\<lparr>fs_options := Some [''skip'', ''fail'', ''null'']\<rparr>],
      ce_supportsIngestion = None, ce_requiredFeature = None\<rparr>,
    \<lparr>ce_activityType = ''transform.contract'', ce_nodeType = Transform, ce_label = ''Data contract'', ce_color = ''#7C3AED'',
      ce_fields = [(field ''schemaJson'' ''Field contract (JSON)'' ''textarea'')\<lparr>fs_placeholder := Some ''{\"id\":\"number\",\"email\":\"string\",\"updated_at\":\"date?\"}''\<rparr>,
        (field ''onViolation'' ''On violation'' ''select'')\<lparr>fs_options := Some [''fail'', ''drop'', ''quarantine'']\<rparr>,
        field ''allowExtra'' ''Allow extra fields'' ''checkbox''],
      ce_supportsIngestion = None, ce_requiredFeature = None\<rparr>]"

definition catalog_flow :: "catalog_entry list" where
  "catalog_flow = [
    \<lparr>ce_activityType = ''flow.fork'', ce_nodeType = Fork, ce_label = ''Fork'', ce_color = ''#7F77DD'',
      ce_fields = [],
      ce_supportsIngestion = None, ce_requiredFeature = None\<rparr>,
    \<lparr>ce_activityType = ''flow.merge'', ce_nodeType = Merge, ce_label = ''Merge'', ce_color = ''#7F77DD'',
      ce_fields = [(field ''mergeStrategy'' ''Strategy'' ''select'')\<lparr>fs_options := Some [''concat'', ''union'', ''innerJoin'', ''leftJoin'', ''outerJoin'', ''appendWithSourceTag'']\<rparr>,
        field ''joinKey'' ''Join key (joins only)'' ''text''],
      ce_supportsIngestion = None, ce_requiredFeature = None\<rparr>]"

definition catalog_sinks :: "catalog_entry list" where
  "catalog_sinks = [
    \<lparr>ce_activityType = ''sink.postgres'', ce_nodeType = Sink, ce_label = ''Postgres (destination)'', ce_color = ''#639922'',
      ce_fields = [(field ''connection'' ''Destination'' ''instance-picker'')\<lparr>fs_writes := Some [''connectionId''],
          fs_provider := Some ''postgres''\<rparr>,
        (field ''table'' ''Target table'' ''text'')\<lparr>fs_placeholder := Some ''public.orders''\<rparr>,
        (field ''writeMode'' ''Write mode'' ''select'')\<lparr>fs_options := Some [''upsert'', ''apply-cdc'']\<rparr>,
        (field ''conflictKey'' ''Upsert key(s)'' ''text'')\<lparr>fs_placeholder := Some ''id'',
          fs_help := Some ''Required for apply-cdc; comma-separated for a composite key''\<rparr>,
        (field ''layer'' ''Data layer'' ''select'')\<lparr>fs_options := Some [''bronze'', ''silver'', ''gold'']\<rparr>],
      ce_supportsIngestion = None, ce_requiredFeature = None\<rparr>,
    \<lparr>ce_activityType = ''sink.clickhouse'', ce_nodeType = Sink, ce_label = ''ClickHouse'', ce_color = ''#F4C430'',
      ce_fields = [(field ''connection'' ''ClickHouse connection'' ''instance-picker'')\<lparr>fs_writes := Some [''connectionId''],
          fs_provider := Some ''clickhouse''\<rparr>,
        (field ''table'' ''Target table'' ''text'')\<lparr>fs_placeholder := Some ''analytics.events''\<rparr>,
        (field ''layer'' ''Data layer'' ''select'')\<lparr>fs_options := Some [''bronze'', ''silver'', ''gold'']\<rparr>],
      ce_supportsIngestion = None, ce_requiredFeature = None\<rparr>,
    \<lparr>ce_activityType = ''sink.mysql'', ce_nodeType = Sink, ce_label = ''MySQL'', ce_color = ''#4479A1'',
      ce_fields = [(field ''connection'' ''Database connection'' ''instance-picker'')\<lparr>fs_writes := Some [''connectionId''],
          fs_provider := Some ''mysql''\<rparr>,
        (field ''table'' ''Target table'' ''text'')\<lparr>fs_placeholder := Some ''orders''\<rparr>,
        (field ''writeMode'' ''Write mode'' ''select'')\<lparr>fs_options := Some [''upsert'', ''apply-cdc'']\<rparr>,
        (field ''primaryKey'' ''Primary key(s)'' ''text'')\<lparr>fs_placeholder := Some ''id'',
          fs_help := Some ''Required for apply-cdc; comma-separated for a composite key''\<rparr>,
        (field ''layer'' ''Data layer'' ''select'')\<lparr>fs_options := Some [''bronze'', ''silver'', ''gold'']\<rparr>],
      ce_supportsIngestion = None, ce_requiredFeature = None\<rparr>,
    \<lparr>ce_activityType = ''sink.mongodb'', ce_nodeType = Sink, ce_label = ''MongoDB'', ce_color = ''#47A248'',
      ce_fields = [(field ''connection'' ''Database connection'' ''instance-picker'')\<lparr>fs_writes := Some [''connectionId''],
          fs_provider := Some ''mongodb''\<rparr>,
        (field ''collection'' ''Collection'' ''text'')\<lparr>fs_placeholder := Some ''orders''\<rparr>,
        (field ''keyField'' ''Upsert key'' ''text'')\<lparr>fs_placeholder := Some ''_id''\<rparr>,
        (field ''writeMode'' ''Write mode'' ''select'')\<lparr>fs_options := Some [''upsert'', ''apply-cdc'']\<rparr>,
        (field ''layer'' ''Data layer'' ''select'')\<lparr>fs_options := Some [''bronze'', ''silver'', ''gold'']\<rparr>],
      ce_supportsIngestion = None, ce_requiredFeature = None\<rparr>,
    \<lparr>ce_activityType = ''sink.s3'', ce_nodeType = Sink, ce_label = ''Amazon S3'', ce_color = ''#FF9900'',
      ce_fields = [(field ''connection'' ''S3 connection'' ''instance-picker'')\<lparr>fs_writes := Some [''connectionId''],
          fs_provider := Some ''s3''\<rparr>,
        field ''bucket'' ''Bucket'' ''text'',
        (field ''key'' ''Object key'' ''text'')\<lparr>fs_placeholder := Some ''exports/{executionId}.jsonl''\<rparr>,
        (field ''format'' ''Format'' ''select'')\<lparr>fs_options := Some [''jsonl'', ''json'']\<rparr>,
        (field ''layer'' ''Data layer'' ''select'')\<lparr>fs_options := Some [''bronze'', ''silver'', ''gold'']\<rparr>],
      ce_supportsIngestion = None, ce_requiredFeature = None\<rparr>,
    \<lparr>ce_activityType = ''sink.kafka'', ce_nodeType = Sink, ce_label = ''Kafka / Redpanda'', ce_color = ''#7C3AED'',
      ce_fields = [(field ''connection'' ''Kafka connection'' ''instance-picker'')\<lparr>fs_writes := Some [''connectionId''],
          fs_provider := Some ''kafka''\<rparr>,
        (field ''topic'' ''Topic'' ''text'')\<lparr>fs_placeholder := Some ''orders.cleaned.v1''\<rparr>,
        (field ''cluster'' ''Lineage cluster name'' ''text'')\<lparr>fs_placeholder := Some ''events-prod''\<rparr>,
        (field ''keyField'' ''Message key field'' ''text'')\<lparr>fs_placeholder := Some ''id'',
          fs_help := Some ''Recommended for compacted topics''\<rparr>,
        (field ''layer'' ''Data layer'' ''select'')\<lparr>fs_options := Some [''bronze'', ''silver'', ''gold'']\<rparr>],
      ce_supportsIngestion = None, ce_requiredFeature = Some Realtime\<rparr>,
    \<lparr>ce_activityType = ''sink.sftp'', ce_nodeType = Sink, ce_label = ''SFTP (destination)'', ce_color = ''#536DFE'',
      ce_fields = [(field ''connection'' ''SFTP connection'' ''instance-picker'')\<lparr>fs_writes := Some [''connectionId''],
          fs_provider := Some ''sftp''\<rparr>,
        (field ''path'' ''Remote file'' ''text'')\<lparr>fs_placeholder := Some ''/imports/{executionId}.jsonl''\<rparr>,
        (field ''format'' ''Format'' ''select'')\<lparr>fs_options := Some [''jsonl'', ''json'']\<rparr>],
      ce_supportsIngestion = None, ce_requiredFeature = Some AdvancedConnectors\<rparr>,
    \<lparr>ce_activityType = ''sink.snowflake'', ce_nodeType = Sink, ce_label = ''Snowflake (destination)'', ce_color = ''#29B5E8'',
      ce_fields = [(field ''connection'' ''Snowflake connection'' ''instance-picker'')\<lparr>fs_writes := Some [''connectionId''],
          fs_provider := Some ''snowflake''\<rparr>,
        (field ''table'' ''Target table'' ''text'')\<lparr>fs_placeholder := Some ''ANALYTICS.ORDERS''\<rparr>],
      ce_supportsIngestion = None, ce_requiredFeature = Some AdvancedConnectors\<rparr>,
    \<lparr>ce_activityType = ''sink.iceberg'', ce_nodeType = Sink, ce_label = ''Apache Iceberg (destination)'', ce_color = ''#4B88A2'',
      ce_fields = [(field ''connection'' ''Iceberg REST catalog'' ''instance-picker'')\<lparr>fs_writes := Some [''connectionId''],
          fs_provider := Some ''iceberg''\<rparr>,
        (field ''namespace'' ''Namespace'' ''text'')\<lparr>fs_placeholder := Some ''analytics''\<rparr>,
        (field ''table'' ''Existing table'' ''text'')\<lparr>fs_placeholder := Some ''orders''\<rparr>],
      ce_supportsIngestion = None, ce_requiredFeature = Some AdvancedConnectors\<rparr>,
    \<lparr>ce_activityType = ''sink.gsheets'', ce_nodeType = Sink, ce_label = ''Google Sheets (destination)'', ce_color = ''#639922'',
      ce_fields = [(field ''connection'' ''Destination'' ''instance-picker'')\<lparr>fs_writes := Some [''connectionId''],
          fs_provider := Some ''google''\<rparr>,
        field ''spreadsheetId'' ''Spreadsheet ID'' ''text'',
        (field ''sheetName'' ''Sheet name'' ''text'')\<lparr>fs_placeholder := Some ''Sheet1''\<rparr>,
        (field ''writeMode'' ''Write mode'' ''select'')\<lparr>fs_options := Some [''replace'', ''append''],
          fs_help := Some ''replace = clear & rewrite each run (idempotent); append = add rows''\<rparr>,
        field ''includeHeader'' ''Include header row'' ''checkbox''],
      ce_supportsIngestion = None, ce_requiredFeature = None\<rparr>,
    \<lparr>ce_activityType = ''sink.webhook'', ce_nodeType = Sink, ce_label = ''Webhook (destination)'', ce_color = ''#639922'',
      ce_fields = [(field ''connection'' ''Stored HTTP credential (optional)'' ''instance-picker'')\<lparr>fs_writes := Some [''connectionId''],
          fs_provider := Some ''http''\<rparr>,
        (field ''url'' ''URL'' ''text'')\<lparr>fs_help := Some ''Used only when no stored HTTP credential is selected''\<rparr>],
      ce_supportsIngestion = None, ce_requiredFeature = None\<rparr>,
    \<lparr>ce_activityType = ''sink.records'', ce_nodeType = Sink, ce_label = ''DataFlow store (managed)'', ce_color = ''#639922'',
      ce_fields = [field ''collection'' ''Collection name'' ''text'',
        (field ''dedupField'' ''Dedup field'' ''text'')\<lparr>fs_placeholder := Some ''id''\<rparr>],
      ce_supportsIngestion = None, ce_requiredFeature = None\<rparr>]"

definition CATALOG :: "catalog_entry list" where
  "CATALOG = catalog_sources @ catalog_transforms @ catalog_flow @ catalog_sinks"

text \<open>\<open>Object.fromEntries\<close>: no activity type is an integer key, so the order is that of the
  insertions.\<close>

definition catalogByType :: "(string \<times> catalog_entry) list" where
  "catalogByType = map_from (map (\<lambda>c. (ce_activityType c, c)) CATALOG)"

section \<open>Feature gating\<close>

definition entry_allowed :: "paid_features \<Rightarrow> catalog_entry \<Rightarrow> bool" where
  "entry_allowed features entry =
     (case ce_requiredFeature entry of None \<Rightarrow> True | Some f \<Rightarrow> features f)"

definition option_allowed :: "paid_features \<Rightarrow> string \<Rightarrow> bool" where
  "option_allowed features opt \<longleftrightarrow>
     (features Realtime \<or> (opt \<noteq> ''cdc'' \<and> opt \<noteq> ''apply-cdc''))
     \<and> (features StatefulProcessing \<or> opt \<noteq> ''pipeline'')"

definition gate_field :: "paid_features \<Rightarrow> field_spec \<Rightarrow> field_spec" where
  "gate_field features fld =
     (case fs_options fld of
        None \<Rightarrow> fld
      | Some opts \<Rightarrow>
          (let options = filter (option_allowed features) opts in
           if length options = length opts then fld else fld\<lparr>fs_options := Some options\<rparr>))"

definition catalogForFeatures :: "catalog_entry list \<Rightarrow> paid_features \<Rightarrow> catalog_entry list" where
  "catalogForFeatures catalog features =
     map (\<lambda>entry. entry\<lparr>ce_fields := map (gate_field features) (ce_fields entry)\<rparr>)
       (filter (entry_allowed features) catalog)"

lemma gate_field_eq:
  "gate_field features fld = fld\<lparr>fs_options := map_option (filter (option_allowed features)) (fs_options fld)\<rparr>"
  by (cases fld) (auto simp: gate_field_def Let_def dest: filter_length_id split: option.split)

lemma option_allowed_mono:
  "\<forall>f. features f \<longrightarrow> features' f \<Longrightarrow> option_allowed features opt \<Longrightarrow> option_allowed features' opt"
  by (auto simp: option_allowed_def)

lemma entry_allowed_mono:
  "\<forall>f. features f \<longrightarrow> features' f \<Longrightarrow> entry_allowed features e \<Longrightarrow> entry_allowed features' e"
  by (auto simp: entry_allowed_def split: option.splits)

lemma entry_allowed_fields [simp]:
  "entry_allowed features (e\<lparr>ce_fields := fs\<rparr>) = entry_allowed features e"
  by (simp add: entry_allowed_def)

lemma gate_field_comp:
  assumes "\<forall>f. features f \<longrightarrow> features' f"
  shows "gate_field features (gate_field features' fld) = gate_field features fld"
proof -
  have "filter (option_allowed features) (filter (option_allowed features') opts)
      = filter (option_allowed features) opts" for opts
    using option_allowed_mono[OF assms] by (simp add: filter_filter) (metis (mono_tags, lifting))
  then show ?thesis by (cases "fs_options fld") (simp_all add: gate_field_eq)
qed

section \<open>Properties\<close>

text \<open>No connector type is declared twice, so the index finds every entry of the catalog under
  its own activity type.\<close>

theorem catalogByType_complete:
  "list_all (\<lambda>c. map_of catalogByType (ce_activityType c) = Some c) CATALOG"
proof -
  have d: "distinct (map ce_activityType CATALOG)"
    unfolding CATALOG_def catalog_sources_def catalog_transforms_def catalog_flow_def catalog_sinks_def
    by simp
  have "map_of catalogByType = map_of (map (\<lambda>c. (ce_activityType c, c)) CATALOG)"
    unfolding catalogByType_def using d by (intro map_from_distinct) (simp add: comp_def)
  moreover have "map_of (map (\<lambda>c. (ce_activityType c, c)) CATALOG) (ce_activityType c) = Some c"
    if "c \<in> set CATALOG" for c
    using that d by (intro map_of_is_SomeI) (auto simp: comp_def)
  ultimately show ?thesis by (simp add: list_all_iff)
qed

text \<open>C35: gating is safe: what \<open>catalogForFeatures\<close> returns needs no feature the workspace lacks, and
  no select of it offers a change-data-capture mode without the real-time feature or the pipeline
  scope without stateful processing.\<close>

theorem catalogForFeatures_safe:
  assumes "e \<in> set (catalogForFeatures catalog features)"
  shows "(\<forall>f. ce_requiredFeature e = Some f \<longrightarrow> features f)
    \<and> (\<forall>fld\<in>set (ce_fields e). \<forall>opts. fs_options fld = Some opts \<longrightarrow>
         (\<not> features Realtime \<longrightarrow> ''cdc'' \<notin> set opts \<and> ''apply-cdc'' \<notin> set opts) \<and>
         (\<not> features StatefulProcessing \<longrightarrow> ''pipeline'' \<notin> set opts))"
proof -
  obtain e0 where "e0 \<in> set catalog" "entry_allowed features e0"
    and e: "e = e0\<lparr>ce_fields := map (gate_field features) (ce_fields e0)\<rparr>"
    using assms by (auto simp: catalogForFeatures_def)
  then have "\<forall>f. ce_requiredFeature e = Some f \<longrightarrow> features f"
    by (auto simp: entry_allowed_def)
  then show ?thesis by (auto simp: e gate_field_eq option_allowed_def)
qed

theorem catalogForFeatures_safe_witness:
  "\<not> (\<exists>f. ce_requiredFeature (hd (catalogForFeatures catalog_flow DEFAULT_PAID_FEATURES)) = Some f
     \<and> \<not> DEFAULT_PAID_FEATURES f)"
proof -
  have "hd (catalogForFeatures catalog_flow DEFAULT_PAID_FEATURES)
      \<in> set (catalogForFeatures catalog_flow DEFAULT_PAID_FEATURES)"
    by (simp add: catalogForFeatures_def catalog_flow_def entry_allowed_def)
  from catalogForFeatures_safe[OF this] show ?thesis by blast
qed

text \<open>Gating composes: restricting an already restricted catalog to fewer features gives what
  restricting the whole catalog gives; in particular a second pass changes nothing.\<close>

theorem catalogForFeatures_compose:
  assumes "\<forall>f. features f \<longrightarrow> features' f"
  shows "catalogForFeatures (catalogForFeatures catalog features') features = catalogForFeatures catalog features"
proof -
  have "filter (entry_allowed features) (filter (entry_allowed features') catalog)
      = filter (entry_allowed features) catalog"
    using entry_allowed_mono[OF assms] by (simp add: filter_filter) (metis (mono_tags, lifting))
  then show ?thesis
    by (simp add: catalogForFeatures_def filter_map comp_def gate_field_comp[OF assms])
qed

theorem catalogForFeatures_compose_witness:
  "catalogForFeatures (catalogForFeatures CATALOG (\<lambda>f. f = Realtime)) DEFAULT_PAID_FEATURES
     = catalogForFeatures CATALOG DEFAULT_PAID_FEATURES"
  by (rule catalogForFeatures_compose) (simp add: DEFAULT_PAID_FEATURES_def)

end
