(* ===== verification/SafeExpression.thy ===== *)
theory SafeExpression
  imports Prelude
begin

text \<open>
  \<open>packages/shared/src/safe-expression.ts\<close>: the output-to-input field mapping that lineage reads
  off a safe map projection such as \<open>({ id: r.id, name: r.user.name })\<close>. The loop over the
  characters of the projection body becomes a recursion whose arguments are the loop's
  variables; \<open>throw\<close> becomes the left side of a sum.
\<close>

record map_field_lineage =
  ml_outputField :: string
  ml_inputFields :: "string list"

datatype projection_error = InvalidMapProjectionField string

section \<open>Splitting the projection body\<close>

definition is_quote :: "char \<Rightarrow> bool" where
  "is_quote c \<longleftrightarrow> c = CHR 0x27 \<or> c = CHR 0x22"

text \<open>\<open>cur\<close> is \<open>body.slice(start, i)\<close>; \<open>q\<close> is the open quote. A backslash inside a quote skips
  the next character.\<close>

fun split_loop :: "string \<Rightarrow> string \<Rightarrow> int \<Rightarrow> char option \<Rightarrow> string list" where
  "split_loop [] cur depth q = [cur]"
| "split_loop (c # cs) cur depth (Some q) =
     (if c = CHR 0x5C then
        (case cs of
           [] \<Rightarrow> [cur @ [c]]
         | d # ds \<Rightarrow> split_loop ds (cur @ [c, d]) depth (Some q))
      else if c = q then split_loop cs (cur @ [c]) depth None
      else split_loop cs (cur @ [c]) depth (Some q))"
| "split_loop (c # cs) cur depth None =
     (if is_quote c then split_loop cs (cur @ [c]) depth (Some c)
      else if c = CHR ''('' then split_loop cs (cur @ [c]) (depth + 1) None
      else if c = CHR '')'' then split_loop cs (cur @ [c]) (depth - 1) None
      else if c = CHR '','' \<and> depth = 0 then cur # split_loop cs [] depth None
      else split_loop cs (cur @ [c]) depth None)"

definition splitProjectionFields :: "string \<Rightarrow> string list" where
  "splitProjectionFields body = filter (\<lambda>f. f \<noteq> []) (map js_trim (split_loop body [] 0 None))"

section \<open>The mapping\<close>

text \<open>The pattern \<open>^\(?\s*\{([\s\S]*)\}\s*\)?$\<close> on a trimmed text: an optional opening
  parenthesis, a brace, the body up to the last brace that only white space and an optional
  closing parenthesis follow.\<close>

definition object_body :: "string \<Rightarrow> string option" where
  "object_body s =
     (case trim_start (if starts_with ''('' s then drop 1 s else s) of
        [] \<Rightarrow> None
      | b # r \<Rightarrow>
          let t = trim_end (if ends_with '')'' r then butlast r else r)
          in if b = CHR ''{'' \<and> t \<noteq> [] \<and> last t = CHR ''}'' then Some (butlast t) else None)"

definition is_alpha :: "char \<Rightarrow> bool" where
  "is_alpha c \<longleftrightarrow> (let n = of_char c :: nat in (65 \<le> n \<and> n \<le> 90) \<or> (97 \<le> n \<and> n \<le> 122))"

definition is_num :: "char \<Rightarrow> bool" where
  "is_num c \<longleftrightarrow> (let n = of_char c :: nat in 48 \<le> n \<and> n \<le> 57)"

definition is_word :: "char \<Rightarrow> bool" where
  "is_word c \<longleftrightarrow> is_alpha c \<or> is_num c \<or> c = CHR ''_''"

definition ident_start :: "char \<Rightarrow> bool" where
  "ident_start c \<longleftrightarrow> is_alpha c \<or> c = CHR ''_'' \<or> c = CHR ''$''"

definition ident_part :: "char \<Rightarrow> bool" where
  "ident_part c \<longleftrightarrow> is_alpha c \<or> is_num c \<or> c = CHR ''_'' \<or> c = CHR ''$'' \<or> c = CHR ''.''"

text \<open>All matches of \<open>\br\.([A-Za-z_$][A-Za-z0-9_$.]*)\<close>, from left to right; \<open>pw\<close> says that
  the character before the rest of the text is a word character.\<close>

function scan_refs :: "bool \<Rightarrow> string \<Rightarrow> string list" where
  "scan_refs pw [] = []"
| "scan_refs pw (c # cs) =
     (if \<not> pw \<and> c = CHR ''r'' \<and> starts_with ''.'' cs \<and> length cs > 1 \<and> ident_start (cs ! 1) then
        (let name = cs ! 1 # takeWhile ident_part (drop 2 cs)
         in name # scan_refs (is_word (last name)) (dropWhile ident_part (drop 2 cs)))
      else scan_refs (is_word c) cs)"
  by pat_completeness auto
termination scan_refs
proof (relation "measure (\<lambda>(pw, s). length s)", goal_cases)
  case (2 pw c cs x)
  have "length (dropWhile ident_part (drop 2 cs)) \<le> length (drop 2 cs)" by (rule length_dropWhile_le)
  then show ?case by simp
qed simp_all

declare scan_refs.simps [simp del]

definition strip_quotes :: "string \<Rightarrow> string" where
  "strip_quotes s =
     (let t = (if s \<noteq> [] \<and> is_quote (hd s) then tl s else s)
      in if t \<noteq> [] \<and> is_quote (last t) then butlast t else t)"

definition map_field :: "string \<Rightarrow> projection_error + map_field_lineage" where
  "map_field fld =
     (let before = takeWhile (\<lambda>c. c \<noteq> CHR '':'') fld; after = dropWhile (\<lambda>c. c \<noteq> CHR '':'') fld
      in if after = [] \<or> before = [] then Inl (InvalidMapProjectionField fld)
         else Inr \<lparr>ml_outputField = strip_quotes (js_trim before),
                   ml_inputFields = set_from (scan_refs False (tl after))\<rparr>)"

fun map_fields :: "string list \<Rightarrow> projection_error + map_field_lineage list" where
  "map_fields [] = Inr []"
| "map_fields (f # fs) =
     (case map_field f of
        Inl e \<Rightarrow> Inl e
      | Inr l \<Rightarrow> (case map_fields fs of Inl e \<Rightarrow> Inl e | Inr ls \<Rightarrow> Inr (l # ls)))"

definition deriveMapFieldLineage :: "string \<Rightarrow> projection_error + map_field_lineage list" where
  "deriveMapFieldLineage expression =
     (case object_body (js_trim expression) of
        None \<Rightarrow> Inr []
      | Some body \<Rightarrow> map_fields (splitProjectionFields body))"

section \<open>Facts about the scanners\<close>

lemma split_loop_not_Nil [simp]: "split_loop s cur depth q \<noteq> []"
proof (induction s cur depth q rule: split_loop.induct)
  case (2 c cs cur depth q)
  then show ?case by (cases cs) simp_all
qed simp_all

lemma join_split_loop: "join '','' (split_loop s cur depth q) = cur @ s"
proof (induction s cur depth q rule: split_loop.induct)
  case (3 c cs cur depth)
  show ?case
  proof (cases "split_loop cs [] depth None")
    case Nil
    then show ?thesis using split_loop_not_Nil by blast
  next
    case (Cons w ws)
    with 3 show ?thesis by auto
  qed
qed (auto split: list.splits)

text \<open>Text without quotes, parentheses or commas is taken over as it is.\<close>

definition plain_char :: "char \<Rightarrow> bool" where
  "plain_char c \<longleftrightarrow> \<not> is_quote c \<and> c \<noteq> CHR ''('' \<and> c \<noteq> CHR '')'' \<and> c \<noteq> CHR '',''"

lemma split_loop_plain:
  "list_all plain_char s \<Longrightarrow> split_loop (s @ rest) cur 0 None = split_loop rest (cur @ s) 0 None"
  by (induction s arbitrary: cur) (auto simp: plain_char_def)

lemma split_loop_join:
  assumes "fs \<noteq> []" and "\<forall>f\<in>set fs. list_all plain_char f" and "list_all plain_char t"
  shows "split_loop (join '','' fs @ t) cur 0 None
    = (if tl fs = [] then [cur @ hd fs @ t] else (cur @ hd fs) # butlast (tl fs) @ [last fs @ t])"
  using assms
proof (induction "'',''" fs arbitrary: cur rule: join.induct)
  case (2 w)
  then show ?case using split_loop_plain[of "w @ t" "[]" cur] by simp
next
  case (3 w v ws)
  then show ?case using split_loop_plain[of w "'','' @ join '','' (v # ws) @ t" cur]
    by (simp add: is_quote_def)
qed simp

lemma scan_refs_sound:
  "x \<in> set (scan_refs pw s) \<Longrightarrow>
     sublist (''r.'' @ x) s \<and> x \<noteq> [] \<and> ident_start (hd x) \<and> list_all ident_part (tl x)"
proof (induction pw s rule: scan_refs.induct)
  case (1 pw)
  then show ?case by (simp add: scan_refs.simps)
next
  case (2 pw c cs)
  let ?m = "\<not> pw \<and> c = CHR ''r'' \<and> starts_with ''.'' cs \<and> length cs > 1 \<and> ident_start (cs ! 1)"
  show ?case
  proof (cases ?m)
    case False
    then have "scan_refs pw (c # cs) = scan_refs (is_word c) cs"
      by (simp only: scan_refs.simps(2)[of pw c cs] if_False)
    with "2.prems" have "x \<in> set (scan_refs (is_word c) cs)" by simp
    with "2.IH"(2)[OF False] show ?thesis by (simp add: sublist_Cons_right)
  next
    case True
    then obtain d ds where cs: "cs = CHR ''.'' # d # ds" "ident_start d"
      by (cases cs; cases "tl cs") (auto simp: starts_with_iff)
    let ?name = "d # takeWhile ident_part ds"
    have name: "''r.'' @ ?name @ dropWhile ident_part ds = c # cs" using True cs by simp
    have "scan_refs pw (c # cs) = ?name # scan_refs (is_word (last ?name)) (dropWhile ident_part ds)"
      using True cs by (subst scan_refs.simps) (simp add: Let_def)
    with "2.prems" consider "x = ?name"
      | "x \<in> set (scan_refs (is_word (last ?name)) (dropWhile ident_part ds))"
      by auto
    then show ?thesis
    proof cases
      case 1
      then have "c # cs = (''r.'' @ x) @ dropWhile ident_part ds" using name by simp
      then have "sublist (''r.'' @ x) (c # cs)" by (simp only: sublist_append_rightI)
      then show ?thesis using 1 cs(2) by (auto simp: list_all_iff dest: set_takeWhileD)
    next
      case 2
      have "sublist (''r.'' @ x) (dropWhile ident_part ds) \<and> x \<noteq> [] \<and> ident_start (hd x) \<and> list_all ident_part (tl x)"
        using "2.IH"(1)[OF True refl] 2 cs by simp
      moreover have "sublist (dropWhile ident_part ds) (c # cs)"
        using name by (metis append.assoc sublist_append_leftI)
      ultimately show ?thesis by (meson sublist_order.order_trans)
    qed
  qed
qed

lemma object_body_sublist: "object_body s = Some b \<Longrightarrow> sublist b s"
proof -
  assume b: "object_body s = Some b"
  define s1 where "s1 = (if starts_with ''('' s then drop 1 s else s)"
  obtain c r where r: "trim_start s1 = c # r"
    using b by (auto simp: object_body_def s1_def split: list.splits)
  define t where "t = (if ends_with '')'' r then butlast r else r)"
  have "b = butlast (trim_end t)"
    using b r by (auto simp: object_body_def s1_def[symmetric] t_def[symmetric] Let_def split: if_splits)
  then have "sublist b (trim_end t)" by simp
  also have "sublist (trim_end t) t" by (rule sublist_trim_end)
  also have "sublist t r"
    by (auto simp: t_def)
  also have "sublist r (trim_start s1)" unfolding r by (simp add: sublist_Cons_right)
  also have "sublist (trim_start s1) s1" by (rule sublist_trim_start)
  also have "sublist s1 s" by (simp add: s1_def sublist_drop)
  finally show ?thesis .
qed

lemma map_fields_Inr:
  "map_fields fs = Inr ls \<Longrightarrow> list_all2 (\<lambda>f l. map_field f = Inr l) fs ls"
  by (induction fs arbitrary: ls) (auto split: sum.splits)

lemma map_fields_all:
  "list_all2 (\<lambda>f l. map_field f = Inr l) fs ls \<Longrightarrow> map_fields fs = Inr ls"
  by (induction rule: list_all2_induct) auto

section \<open>Properties\<close>

text \<open>Every input field the mapping reports is a reference \<open>r.name\<close> that stands in the expression,
  its name starts like an identifier, and no output lists an input twice.\<close>

theorem deriveMapFieldLineage_sound:
  assumes "deriveMapFieldLineage expression = Inr ls" and "l \<in> set ls" and "x \<in> set (ml_inputFields l)"
  shows "str_includes expression (''r.'' @ x) \<and> x \<noteq> [] \<and> ident_start (hd x) \<and> list_all ident_part (tl x)
    \<and> distinct (ml_inputFields l)"
proof -
  obtain body where b: "object_body (js_trim expression) = Some body"
    and fs: "map_fields (splitProjectionFields body) = Inr ls"
    using assms(1,2) by (auto simp: deriveMapFieldLineage_def split: option.splits)
  obtain f where f: "f \<in> set (splitProjectionFields body)" "map_field f = Inr l"
    using map_fields_Inr[OF fs] assms(2) by (auto simp: list_all2_conv_all_nth in_set_conv_nth) blast
  let ?after = "dropWhile (\<lambda>c. c \<noteq> CHR '':'') f"
  have l: "ml_inputFields l = set_from (scan_refs False (tl ?after))"
    using f(2) by (auto simp: map_field_def Let_def split: if_splits)
  with assms(3) have x: "sublist (''r.'' @ x) (tl ?after)" "x \<noteq> []" "ident_start (hd x)" "list_all ident_part (tl x)"
    using scan_refs_sound by auto
  note x(1)
  also have "sublist (tl ?after) ?after" by simp
  also have "sublist ?after f" by simp
  also obtain g where g: "g \<in> set (split_loop body [] 0 None)" "f = js_trim g"
    using f(1) by (auto simp: splitProjectionFields_def)
  have "sublist f g" using g(2) by (simp add: sublist_js_trim)
  also have "sublist g body"
    using sublist_join[OF g(1), of "'',''"] by (simp add: join_split_loop)
  also have "sublist body (js_trim expression)" by (rule object_body_sublist[OF b])
  also have "sublist (js_trim expression) expression" by (rule sublist_js_trim)
  finally show ?thesis using x l by (simp add: str_includes_sublist)
qed

theorem deriveMapFieldLineage_sound_witness:
  "str_includes ''({ id: r.id })'' ''r.id''"
proof -
  have "deriveMapFieldLineage ''({ id: r.id })'' = Inr [\<lparr>ml_outputField = ''id'', ml_inputFields = [''id'']\<rparr>]"
    by code_simp
  from deriveMapFieldLineage_sound[OF this, of _ "''id''"] show ?thesis by simp
qed

text \<open>A name as people write it in a projection.\<close>

definition simple_name :: "string \<Rightarrow> bool" where
  "simple_name s \<longleftrightarrow> s \<noteq> [] \<and> ident_start (hd s) \<and> list_all ident_part s"

definition projection_text :: "(string \<times> string) list \<Rightarrow> string" where
  "projection_text ps = ''({'' @ join '','' (map (\<lambda>(out, inp). '' '' @ out @ '': r.'' @ inp) ps) @ '' })''"

lemma ident_part_facts:
  "ident_part c \<Longrightarrow> plain_char c \<and> \<not> is_space c \<and> c \<noteq> CHR '':'' \<and> \<not> is_quote c"
  by (auto simp: ident_part_def plain_char_def is_quote_def is_space_def is_alpha_def is_num_def Let_def)

lemma simple_name_facts:
  assumes "simple_name s"
  shows "s \<noteq> []" "list_all plain_char s" "\<not> is_space (hd s)" "\<not> is_space (last s)"
    "\<not> is_quote (hd s)" "\<not> is_quote (last s)" "CHR '':'' \<notin> set s"
proof -
  have "c \<in> set s \<Longrightarrow> plain_char c \<and> \<not> is_space c \<and> c \<noteq> CHR '':'' \<and> \<not> is_quote c" for c
    using assms ident_part_facts by (auto simp: simple_name_def list_all_iff)
  moreover show "s \<noteq> []" using assms by (simp add: simple_name_def)
  ultimately show "list_all plain_char s" "\<not> is_space (hd s)" "\<not> is_space (last s)"
    "\<not> is_quote (hd s)" "\<not> is_quote (last s)" "CHR '':'' \<notin> set s"
    by (auto simp: list_all_iff)
qed

lemma scan_refs_single: "simple_name x \<Longrightarrow> scan_refs False ('' r.'' @ x) = [x]"
proof -
  assume x: "simple_name x"
  then obtain d ds where d: "x = d # ds" "ident_start d" "list_all ident_part ds"
    by (cases x) (auto simp: simple_name_def)
  have tw: "takeWhile ident_part ds = ds" "dropWhile ident_part ds = []"
    using d(3) by (auto simp: list_all_iff)
  have "\<not> is_word (CHR '' '')" by (simp add: is_word_def is_alpha_def is_num_def)
  then have "scan_refs False ('' r.'' @ x) = scan_refs False (''r.'' @ x)"
    using scan_refs.simps(2)[of False "CHR '' ''" "''r.'' @ x"] by simp
  also have "\<dots> = [x]"
    using d scan_refs.simps(2)[of False "CHR ''r''" "''.'' @ x"]
    by (simp add: tw Let_def starts_with_def scan_refs.simps(1))
  finally show ?thesis .
qed

lemma map_field_simple:
  assumes "simple_name out" and "simple_name inp"
  shows "map_field (out @ '': r.'' @ inp) = Inr \<lparr>ml_outputField = out, ml_inputFields = [inp]\<rparr>"
proof -
  let ?f = "out @ '': r.'' @ inp"
  have "takeWhile (\<lambda>c. c \<noteq> CHR '':'') ?f = out" "dropWhile (\<lambda>c. c \<noteq> CHR '':'') ?f = '': r.'' @ inp"
    using simple_name_facts(7)[OF assms(1)]
    by (subst takeWhile_append2 dropWhile_append2; force)+
  moreover have "strip_quotes (js_trim out) = out"
    using simple_name_facts[OF assms(1)] by (simp add: js_trim_id strip_quotes_def Let_def)
  moreover have "set_from [inp] = [inp]" by (simp add: set_from_def set_add_def)
  ultimately show ?thesis
    using simple_name_facts(1)[OF assms(1)] scan_refs_single[OF assms(2)] by (simp add: map_field_def Let_def)
qed

lemma js_trim_pad:
  assumes "s \<noteq> []" and "\<not> is_space (hd s)" and "\<not> is_space (last s)"
  shows "js_trim (CHR '' '' # s) = s" and "js_trim (CHR '' '' # s @ '' '') = s"
proof -
  have sp: "is_space (CHR '' '')" by (simp add: is_space_def)
  have "trim_start s = s" "trim_end s = s" using assms by (simp_all add: trim_start_id trim_end_id)
  moreover have "trim_start (CHR '' '' # t) = trim_start t" for t using sp by (simp add: trim_start_def)
  moreover have "trim_start (s @ t) = s @ t" for t
    using assms by (intro trim_start_id) simp
  moreover have "trim_end (s @ '' '') = trim_end s" using sp by (simp add: trim_end_def)
  ultimately show "js_trim (CHR '' '' # s) = s" "js_trim (CHR '' '' # s @ '' '') = s"
    by (simp_all add: js_trim_def)
qed

lemma object_body_projection:
  "object_body (js_trim (''({'' @ s @ '' })'')) = Some (s @ '' '')"
proof -
  have "js_trim (''({'' @ s @ '' })'') = ''({'' @ s @ '' })''"
    by (rule js_trim_id) (simp add: is_space_def)
  moreover have "trim_start (''{'' @ s @ '' })'') = ''{'' @ s @ '' })''"
    by (rule trim_start_id) (simp add: is_space_def)
  moreover have "butlast (s @ '' })'') = s @ '' }''" by (simp add: butlast_append)
  moreover have "trim_end (s @ '' }'') = s @ '' }''"
    by (rule trim_end_id) (simp add: is_space_def)
  moreover have "ends_with '')'' (s @ '' })'')" by (simp add: ends_with_iff)
  moreover have "butlast (s @ '' }'') = s @ '' ''" by (simp add: butlast_append)
  ultimately show ?thesis by (simp add: object_body_def starts_with_def Let_def)
qed

text \<open>On a projection of simple field references the mapping is exact: each output field gets
  the one input it is defined by, in the order of the projection.\<close>

theorem deriveMapFieldLineage_projection:
  assumes "ps \<noteq> []" and "\<forall>(out, inp)\<in>set ps. simple_name out \<and> simple_name inp"
  shows "deriveMapFieldLineage (projection_text ps)
    = Inr (map (\<lambda>(out, inp). \<lparr>ml_outputField = out, ml_inputFields = [inp]\<rparr>) ps)"
proof -
  define core where "core = map (\<lambda>(out, inp). out @ '': r.'' @ inp) ps"
  define fs where "fs = map (\<lambda>f. CHR '' '' # f) core"
  have core: "f \<noteq> [] \<and> \<not> is_space (hd f) \<and> \<not> is_space (last f) \<and> list_all plain_char f" if f: "f \<in> set core" for f
  proof -
    obtain out inp where "f = out @ '': r.'' @ inp" "simple_name out" "simple_name inp"
      using f assms(2) by (auto simp: core_def)
    then show ?thesis
      using simple_name_facts[of out] simple_name_facts[of inp] by (simp add: plain_char_def is_quote_def)
  qed
  have fs: "fs \<noteq> []" "core \<noteq> []" "\<forall>f\<in>set fs. list_all plain_char f"
    using assms(1) core by (auto simp: fs_def core_def plain_char_def is_quote_def)
  have "map js_trim (split_loop (join '','' fs @ '' '') [] 0 None) = core"
  proof (cases core rule: rev_cases)
    case Nil
    with fs show ?thesis by simp
  next
    case (snoc cs c)
    have t: "js_trim (CHR '' '' # f) = f" "js_trim (CHR '' '' # f @ '' '') = f" if "f \<in> set core" for f
      using core[OF that] js_trim_pad by auto
    have "split_loop (join '','' fs @ '' '') [] 0 None = map ((#) (CHR '' '')) cs @ [CHR '' '' # c @ '' '']"
      using split_loop_join[OF fs(1) fs(3), of "'' ''" "[]"] snoc
      by (cases cs) (auto simp: fs_def plain_char_def is_quote_def butlast_append)
    then show ?thesis using snoc t by (auto simp: map_idI)
  qed
  then have "splitProjectionFields (join '','' fs @ '' '') = core"
    using core by (simp add: splitProjectionFields_def filter_id_conv)
  moreover have "projection_text ps = ''({'' @ join '','' fs @ '' })''"
    by (simp add: projection_text_def fs_def core_def comp_def split_def)
  moreover have "map_fields core = Inr (map (\<lambda>(out, inp). \<lparr>ml_outputField = out, ml_inputFields = [inp]\<rparr>) ps)"
    using assms(2) map_field_simple
    by (intro map_fields_all) (auto simp: core_def list_all2_map1 list_all2_map2 list_all2_same)
  ultimately show ?thesis
    using object_body_projection[of "join '','' fs"] by (simp add: deriveMapFieldLineage_def)
qed

theorem deriveMapFieldLineage_projection_witness:
  "deriveMapFieldLineage ''({ id: r.id, name: r.user.name })''
    = Inr [\<lparr>ml_outputField = ''id'', ml_inputFields = [''id'']\<rparr>,
           \<lparr>ml_outputField = ''name'', ml_inputFields = [''user.name'']\<rparr>]"
  using deriveMapFieldLineage_projection[of "[(''id'', ''id''), (''name'', ''user.name'')]"]
  by (simp add: projection_text_def simple_name_def ident_start_def ident_part_def is_alpha_def is_num_def)

end
