(* ===== verification/LineageBindings.thy ===== *)
theory LineageBindings
  imports PipelineTypes
begin

text \<open>
  The first half of \<open>packages/shared/src/lineage.ts\<close>: the data assets a pipeline definition
  reads and writes. \<open>infer\<close> derives an asset from the configuration of a built-in connector,
  \<open>upstreamContract\<close> searches the graph backwards for the data contract that covers a sink,
  \<open>deriveAssetBindings\<close> lists the bindings, and the two filters select the outputs that a run
  wrote or that lie downstream of a node.

  \<open>new URL(raw)\<close> belongs to the host platform: it is the parameter \<open>url_of\<close> of the definitions,
  \<open>None\<close> where the constructor throws.
\<close>

datatype direction = Input | Output

fun direction_str :: "direction \<Rightarrow> string" where
  "direction_str Input = ''input''"
| "direction_str Output = ''output''"

record asset_binding =
  b_nodeId :: string
  b_direction :: direction
  b_port :: string
  b_asset :: data_asset

record url =
  u_protocol :: string
  u_host :: string
  u_pathname :: string

definition assetMaterializationTopic :: "string \<Rightarrow> string" where
  "assetMaterializationTopic assetUrn = ''asset.materialized.'' @ assetUrn"

section \<open>Assets of the built-in connectors\<close>

definition config_value :: "pipeline_node \<Rightarrow> string \<Rightarrow> string option" where
  "config_value node key =
     (case obj_get (n_config node) key of
        Some (JStr v) \<Rightarrow> if js_trim v \<noteq> [] then Some (js_trim v) else None
      | _ \<Rightarrow> None)"

definition node_layer :: "pipeline_node \<Rightarrow> layer option" where
  "node_layer node =
     (let v = config_value node ''layer'' in
      if v = Some ''bronze'' then Some Bronze
      else if v = Some ''silver'' then Some Silver
      else if v = Some ''gold'' then Some Gold
      else None)"

definition asset :: "string \<Rightarrow> string \<Rightarrow> string \<Rightarrow> string \<Rightarrow> asset_type \<Rightarrow> layer option \<Rightarrow> data_asset" where
  "asset urn platform namespace name type assetLayer =
     \<lparr>a_urn = urn, a_platform = platform, a_namespace = namespace, a_name = name, a_type = type,
      a_layer = assetLayer, a_schema = None, a_owner = None, a_tags = None\<rparr>"

definition strip_trailing_slashes :: "string \<Rightarrow> string" where
  "strip_trailing_slashes s = rev (dropWhile (\<lambda>c. c = CHR ''/'') (rev s))"

definition httpAsset :: "(string \<Rightarrow> url option) \<Rightarrow> string \<Rightarrow> layer option \<Rightarrow> data_asset option" where
  "httpAsset url_of raw assetLayer =
     (case url_of raw of
        None \<Rightarrow> None
      | Some u \<Rightarrow>
          (let path = or_else (Some (strip_trailing_slashes (u_pathname u))) ''/''
           in Some (asset (u_protocol u @ ''//'' @ u_host u @ path) ''http'' (u_host u) path Api assetLayer)))"

text \<open>The shape that the database connectors share: \<open>scheme://connection/name\<close>, where the
  connection defaults to \<open>default\<close> and the asset exists only when the named key is set.\<close>

definition connection_asset :: "pipeline_node \<Rightarrow> string \<Rightarrow> string \<Rightarrow> asset_type \<Rightarrow> data_asset option" where
  "connection_asset node scheme key type =
     (let connection = nullish (config_value node ''connectionId'') ''default'' in
      case config_value node key of
        None \<Rightarrow> None
      | Some nm \<Rightarrow> Some (asset (scheme @ ''://'' @ connection @ ''/'' @ nm) scheme connection nm type (node_layer node)))"

definition infer :: "(string \<Rightarrow> url option) \<Rightarrow> pipeline_node \<Rightarrow> data_asset option" where
  "infer url_of node =
     (let t = n_activityType node; l = node_layer node; v = config_value node in
      if t = ''zendesk.fetch'' then
        (let subdomain = (case v ''subdomain'' of Some s \<Rightarrow> Some s | None \<Rightarrow> v ''connectionId'');
             resource = nullish (v ''resource'') ''records''
         in case subdomain of None \<Rightarrow> None
            | Some s \<Rightarrow> Some (asset (''zendesk://'' @ s @ ''/'' @ resource) ''zendesk'' s resource Collection l))
      else if t = ''gsheets.fetch'' \<or> t = ''sink.gsheets'' then
        (let sheet = nullish (v ''sheetName'') (nullish (v ''range'') ''Sheet1'')
         in case v ''spreadsheetId'' of None \<Rightarrow> None
            | Some book \<Rightarrow> Some (asset (''gsheets://'' @ book @ ''/'' @ sheet) ''google-sheets'' book sheet Table l))
      else if t = ''gdrive.fetch'' then
        (let folder = nullish (v ''folderId'') ''root''
         in Some (asset (''gdrive://'' @ folder @ ''/files'') ''google-drive'' folder ''files'' File l))
      else if t = ''excel.fetch'' then
        (let drive = nullish (v ''driveId'') ''default''; sheet = nullish (v ''sheetName'') ''Sheet1''
         in case v ''itemId'' of None \<Rightarrow> None
            | Some item \<Rightarrow> Some (asset (''excel://'' @ drive @ ''/'' @ item @ ''/'' @ sheet) ''excel''
                                  (drive @ ''/'' @ item) sheet Table l))
      else if t = ''http.fetch'' then
        (case v ''url'' of None \<Rightarrow> None | Some url \<Rightarrow> httpAsset url_of url l)
      else if t = ''postgres.fetch'' \<or> t = ''sink.postgres'' then connection_asset node ''postgres'' ''table'' Table
      else if t = ''mysql.fetch'' \<or> t = ''sink.mysql'' then connection_asset node ''mysql'' ''table'' Table
      else if t = ''mongodb.fetch'' \<or> t = ''sink.mongodb'' then
        connection_asset node ''mongodb'' ''collection'' Collection
      else if t = ''s3.fetch'' \<or> t = ''sink.s3'' then
        (case (v ''bucket'', v ''key'') of
           (Some bucket, Some key) \<Rightarrow> Some (asset (''s3://'' @ bucket @ ''/'' @ key) ''s3'' bucket key File l)
         | _ \<Rightarrow> None)
      else if t = ''sftp.fetch'' \<or> t = ''sink.sftp'' then
        (let connection = nullish (v ''connectionId'') ''default''
         in case v ''path'' of None \<Rightarrow> None
            | Some path \<Rightarrow> Some (asset (''sftp://'' @ connection @ (if starts_with ''/'' path then '''' else ''/'') @ path)
                                  ''sftp'' connection path File l))
      else if t = ''snowflake.fetch'' \<or> t = ''sink.snowflake'' then
        connection_asset node ''snowflake'' ''table'' Table
      else if t = ''iceberg.fetch'' \<or> t = ''sink.iceberg'' then
        (let connection = nullish (v ''connectionId'') ''default'';
             nm = join ''.'' (List.map_filter id [v ''namespace'', v ''table''])
         in if nm = [] then None
            else Some (asset (''iceberg://'' @ connection @ ''/'' @ nm) ''iceberg'' connection nm Table l))
      else if t = ''kafka.fetch'' \<or> t = ''sink.kafka'' then
        (let cluster = nullish (v ''cluster'') (nullish (v ''connectionId'') ''default'')
         in case v ''topic'' of None \<Rightarrow> None
            | Some topic \<Rightarrow> Some (asset (''kafka://'' @ cluster @ ''/'' @ topic) ''kafka'' cluster topic Topic l))
      else if t = ''sink.webhook'' then
        (case v ''url'' of None \<Rightarrow> None | Some url \<Rightarrow> httpAsset url_of url l)
      else if t = ''sink.records'' then
        (case v ''collection'' of None \<Rightarrow> None
         | Some collection \<Rightarrow> Some (asset (''dataflow://records/'' @ collection) ''dataflow'' ''records'' collection Collection l))
      else if t = ''sink.clickhouse'' then connection_asset node ''clickhouse'' ''table'' Table
      else None)"

section \<open>The contract that covers a sink\<close>

datatype contract_step = Found "contract_field list" | ParseFailed | NoContract

definition contract_field_of :: "string \<times> json \<Rightarrow> contract_field" where
  "contract_field_of e =
     (let value = to_string (snd e); nullable = ends_with ''?'' value
      in \<lparr>cf_name = fst e, cf_type = (if nullable then butlast value else value),
          cf_nullable = (if nullable then Some True else None)\<rparr>)"

text \<open>One visited node: a contract node with an object ends the search, one whose text does not
  parse ends it without a contract, everything else lets it go on.\<close>

definition contract_at :: "(string \<times> pipeline_node) list \<Rightarrow> string \<Rightarrow> contract_step" where
  "contract_at byId i =
     (case map_of byId i of
        None \<Rightarrow> NoContract
      | Some node \<Rightarrow>
          if n_activityType node = ''transform.contract'' then
            (case obj_get (n_config node) ''schemaJson'' of
               None \<Rightarrow> NoContract
             | Some (JStr raw) \<Rightarrow>
                 (case parse raw of
                    None \<Rightarrow> ParseFailed
                  | Some (JObj es) \<Rightarrow> Found (map contract_field_of es)
                  | Some _ \<Rightarrow> NoContract)
             | Some (JObj es) \<Rightarrow> Found (map contract_field_of es)
             | Some _ \<Rightarrow> NoContract)
          else NoContract)"

function contract_search ::
  "(string \<times> pipeline_node) list \<Rightarrow> (string \<times> string list) list \<Rightarrow> string list \<Rightarrow> string list
     \<Rightarrow> contract_field list option" where
  "contract_search byId incoming [] seen = None"
| "contract_search byId incoming (i # q) seen =
     (if i \<in> set seen then contract_search byId incoming q seen
      else case contract_at byId i of
        Found s \<Rightarrow> Some s
      | ParseFailed \<Rightarrow> None
      | NoContract \<Rightarrow> contract_search byId incoming (q @ multi_get incoming i) (set_add i seen))"
  by pat_completeness auto

lemma multi_get_absent: "k \<notin> fst ` set m \<Longrightarrow> multi_get m k = []"
  by (simp add: multi_get_def map_of_eq_None_iff[THEN iffD2])

lemma unseen_decreases:
  "i \<notin> seen \<Longrightarrow>
   ((fst ` set m - insert i seen, length (q @ multi_get m i)), (fst ` set m - seen, Suc (length q)))
     \<in> finite_psubset <*lex*> less_than"
  by (cases "i \<in> fst ` set m") (auto simp: finite_psubset_def multi_get_absent)

termination contract_search
proof (relation "inv_image (finite_psubset <*lex*> less_than)
      (\<lambda>(byId, m, q, seen). (fst ` set m - set seen, length q))", goal_cases)
  case 1
  show ?case by (intro wf_inv_image wf_lex_prod wf_finite_psubset wf_less_than)
next
  case (3 byId m i q seen)
  then show ?case using unseen_decreases[of i "set seen" m q] by simp
qed simp

definition incoming_of :: "pipeline_edge list \<Rightarrow> (string \<times> string list) list" where
  "incoming_of edges = fold (\<lambda>e. multi_add (e_target e) (e_source e)) edges []"

definition outgoing_of :: "pipeline_edge list \<Rightarrow> (string \<times> string list) list" where
  "outgoing_of edges = fold (\<lambda>e. multi_add (e_source e) (e_target e)) edges []"

definition upstreamContract :: "pipeline_definition \<Rightarrow> string \<Rightarrow> contract_field list option" where
  "upstreamContract defn nodeId =
     (let byId = map_from (map (\<lambda>n. (n_id n, n)) (p_nodes defn)); incoming = incoming_of (p_edges defn)
      in contract_search byId incoming (multi_get incoming nodeId) [])"

section \<open>Bindings\<close>

definition with_contract :: "contract_field list option \<Rightarrow> data_asset \<Rightarrow> data_asset" where
  "with_contract contract a =
     (case (a_schema a, contract) of (None, Some c) \<Rightarrow> a\<lparr>a_schema := Some c\<rparr> | _ \<Rightarrow> a)"

definition indexed :: "'a list \<Rightarrow> (nat \<times> 'a) list" where
  "indexed xs = zip [0..<length xs] xs"

definition node_bindings :: "(string \<Rightarrow> url option) \<Rightarrow> pipeline_definition \<Rightarrow> pipeline_node \<Rightarrow> asset_binding list" where
  "node_bindings url_of defn node =
     (let explicitInputs = nullish (n_inputAssets node) []; explicitOutputs = nullish (n_outputAssets node) [];
          contract = (if n_type node = Sink then upstreamContract defn (n_id node) else None)
      in map (\<lambda>(i, a). \<lparr>b_nodeId = n_id node, b_direction = Input, b_port = ''input-'' @ nat_str i, b_asset = a\<rparr>)
           (indexed explicitInputs)
         @ map (\<lambda>(i, a). \<lparr>b_nodeId = n_id node, b_direction = Output, b_port = ''output-'' @ nat_str i,
                  b_asset = with_contract contract a\<rparr>)
           (indexed explicitOutputs)
         @ (if explicitInputs \<noteq> [] \<or> explicitOutputs \<noteq> [] then []
            else case infer url_of node of
              None \<Rightarrow> []
            | Some a \<Rightarrow>
                [\<lparr>b_nodeId = n_id node,
                  b_direction = (if n_type node = Sink then Output else Input),
                  b_port = (if n_type node = Sink then ''output'' else ''input''),
                  b_asset = (case contract of Some c \<Rightarrow> a\<lparr>a_schema := Some c\<rparr> | None \<Rightarrow> a)\<rparr>]))"

definition deriveAssetBindings :: "(string \<Rightarrow> url option) \<Rightarrow> pipeline_definition \<Rightarrow> asset_binding list" where
  "deriveAssetBindings url_of defn = concat (map (node_bindings url_of defn) (p_nodes defn))"

record node_run =
  nr_nodeId :: string
  nr_status :: string
  nr_recordCount :: "int option"

definition successfulOutputBindings ::
  "(string \<Rightarrow> url option) \<Rightarrow> pipeline_definition \<Rightarrow> node_run list \<Rightarrow> (asset_binding \<times> int option) list" where
  "successfulOutputBindings url_of defn nodeRuns =
     (let byNode = map_from (map (\<lambda>r. (nr_nodeId r, r)) nodeRuns)
      in map (\<lambda>b. (b, case map_of byNode (b_nodeId b) of Some r \<Rightarrow> nr_recordCount r | None \<Rightarrow> None))
           (filter (\<lambda>b. b_direction b = Output
                \<and> map_option nr_status (map_of byNode (b_nodeId b)) = Some ''success'')
             (deriveAssetBindings url_of defn)))"

text \<open>The work list of \<open>downstreamOutputBindings\<close>; the result lists the visited nodes in the order
  of their visit.\<close>

function reach_loop :: "(string \<times> string list) list \<Rightarrow> string list \<Rightarrow> string list \<Rightarrow> string list" where
  "reach_loop adj [] reachable = reachable"
| "reach_loop adj (current # q) reachable =
     (if current \<in> set reachable then reach_loop adj q reachable
      else reach_loop adj (q @ multi_get adj current) (set_add current reachable))"
  by pat_completeness auto
termination reach_loop
proof (relation "inv_image (finite_psubset <*lex*> less_than)
      (\<lambda>(m, q, seen). (fst ` set m - set seen, length q))", goal_cases)
  case 1
  show ?case by (intro wf_inv_image wf_lex_prod wf_finite_psubset wf_less_than)
next
  case (3 m i q seen)
  then show ?case using unseen_decreases[of i "set seen" m q] by simp
qed simp

definition downstreamOutputBindings ::
  "(string \<Rightarrow> url option) \<Rightarrow> pipeline_definition \<Rightarrow> string \<Rightarrow> asset_binding list" where
  "downstreamOutputBindings url_of defn nodeId =
     (let outgoing = outgoing_of (p_edges defn); reachable = reach_loop outgoing [nodeId] []
      in filter (\<lambda>b. b_direction b = Output \<and> b_nodeId b \<in> set reachable) (deriveAssetBindings url_of defn))"

section \<open>The searches\<close>

definition edge_rel :: "pipeline_edge list \<Rightarrow> (string \<times> string) set" where
  "edge_rel edges = (\<lambda>e. (e_source e, e_target e)) ` set edges"

lemma succ_rel_outgoing: "succ_rel (multi_get (outgoing_of edges)) = edge_rel edges"
  by (auto simp: succ_rel_def outgoing_of_def edge_rel_def multi_get_fold)

lemma succ_rel_incoming: "succ_rel (multi_get (incoming_of edges)) = (edge_rel edges)\<inverse>"
  by (auto simp: succ_rel_def incoming_of_def edge_rel_def multi_get_fold)

lemma reach_loop_start: "set q \<union> set seen \<subseteq> set (reach_loop adj q seen)"
  by (induction adj q seen rule: reach_loop.induct) auto

lemma reach_loop_closed:
  "\<forall>x\<in>set seen. set (multi_get adj x) \<subseteq> set seen \<union> set q \<Longrightarrow>
   x \<in> set (reach_loop adj q seen) \<Longrightarrow> set (multi_get adj x) \<subseteq> set (reach_loop adj q seen)"
proof (induction adj q seen rule: reach_loop.induct)
  case (2 adj c q seen)
  show ?case
  proof (cases "c \<in> set seen")
    case True
    with "2.prems" have "\<forall>x\<in>set seen. set (multi_get adj x) \<subseteq> set seen \<union> set q"
      by (auto simp: insert_absorb)
    with 2 True show ?thesis by simp
  next
    case False
    have "\<forall>x\<in>set (set_add c seen). set (multi_get adj x) \<subseteq> set (set_add c seen) \<union> set (q @ multi_get adj c)"
      using "2.prems"(1) by auto
    with 2 False show ?thesis by simp
  qed
qed simp

lemma reach_loop_sound:
  "y \<in> set (reach_loop adj q seen) \<Longrightarrow> y \<notin> set seen \<Longrightarrow> \<exists>x\<in>set q. (x, y) \<in> (succ_rel (multi_get adj))\<^sup>*"
proof (induction adj q seen rule: reach_loop.induct)
  case (2 adj c q seen)
  show ?case
  proof (cases "c \<in> set seen")
    case True
    with 2 show ?thesis by auto
  next
    case False
    show ?thesis
    proof (cases "y = c")
      case True
      then show ?thesis by auto
    next
      case ne: False
      have "y \<in> set (reach_loop adj (q @ multi_get adj c) (set_add c seen))"
        using "2.prems"(1) False by simp
      then obtain x where x: "x \<in> set (q @ multi_get adj c)" "(x, y) \<in> (succ_rel (multi_get adj))\<^sup>*"
        using "2.IH"(2)[OF False] "2.prems"(2) ne by auto
      then show ?thesis
        by (auto simp: succ_rel_def intro: converse_rtrancl_into_rtrancl)
    qed
  qed
qed simp

interpretation reach: closure_search "multi_get adj" "\<lambda>xs. set (reach_loop adj xs [])"
  for adj :: "(string \<times> string list) list"
proof (unfold_locales, goal_cases)
  case (1 xs)
  show ?case using reach_loop_start[of xs "[]" adj] by simp
next
  case (2 x xs)
  then show ?case using reach_loop_closed[of "[]" adj xs x] by simp
next
  case (3 y xs)
  then show ?case using reach_loop_sound[of y adj xs "[]"] by simp
qed

text \<open>The contract search is the same traversal, stopped at the first node that decides it.\<close>

fun first_contract :: "(string \<times> pipeline_node) list \<Rightarrow> string list \<Rightarrow> contract_field list option" where
  "first_contract byId [] = None"
| "first_contract byId (i # is) =
     (case contract_at byId i of Found s \<Rightarrow> Some s | ParseFailed \<Rightarrow> None | NoContract \<Rightarrow> first_contract byId is)"

lemma reach_loop_extends: "\<exists>new. reach_loop adj q seen = seen @ new"
proof (induction adj q seen rule: reach_loop.induct)
  case (2 adj c q seen)
  then show ?case by (auto simp: set_add_def)
qed simp

lemma contract_search_first:
  "\<exists>new. reach_loop inc q seen = seen @ new \<and> contract_search byId inc q seen = first_contract byId new"
proof (induction byId inc q seen rule: contract_search.induct)
  case (1 byId inc seen)
  show ?case by (rule exI[of _ "[]"]) simp
next
  case (2 byId inc i q seen)
  show ?case
  proof (cases "i \<in> set seen")
    case True
    with 2 show ?thesis by simp
  next
    case False
    obtain new where new: "reach_loop inc (q @ multi_get inc i) (set_add i seen) = set_add i seen @ new"
      using reach_loop_extends by blast
    then have r: "reach_loop inc (i # q) seen = seen @ (i # new)" using False by (simp add: set_add_def)
    have "contract_search byId inc (q @ multi_get inc i) (set_add i seen) = first_contract byId new"
      if "contract_at byId i = NoContract"
      using "2.IH"(2)[OF False that] new by auto
    then show ?thesis using False r
      by (intro exI[of _ "i # new"]) (auto split: contract_step.split)
  qed
qed

lemma first_contract_Some: "first_contract byId is = Some c \<Longrightarrow> \<exists>i\<in>set is. contract_at byId i = Found c"
  by (induction "is") (auto split: contract_step.splits)

lemma first_contract_None:
  "\<forall>i\<in>set is. contract_at byId i \<noteq> ParseFailed \<Longrightarrow> first_contract byId is = None \<longleftrightarrow>
     (\<forall>i\<in>set is. \<forall>c. contract_at byId i \<noteq> Found c)"
  by (induction "is") (auto split: contract_step.splits)

definition upstream_of :: "pipeline_definition \<Rightarrow> string \<Rightarrow> string set" where
  "upstream_of defn i = {m. (m, i) \<in> (edge_rel (p_edges defn))\<^sup>+}"

lemma search_upstream:
  "set (reach_loop (incoming_of (p_edges defn)) (multi_get (incoming_of (p_edges defn)) i) []) = upstream_of defn i"
proof -
  let ?E = "edge_rel (p_edges defn)"
  have "set (multi_get (incoming_of (p_edges defn)) i) = ?E\<inverse> `` {i}"
    using succ_rel_incoming[of "p_edges defn"] by (auto simp: succ_rel_def set_eq_iff)
  then have "set (reach_loop (incoming_of (p_edges defn)) (multi_get (incoming_of (p_edges defn)) i) [])
      = (?E\<inverse> O (?E\<inverse>)\<^sup>*) `` {i}"
    by (simp add: reach.search_eq succ_rel_incoming relcomp_Image)
  also have "?E\<inverse> O (?E\<inverse>)\<^sup>* = (?E\<inverse>)\<^sup>+" by (simp add: trancl_unfold_left)
  finally show ?thesis by (auto simp: upstream_of_def trancl_converse)
qed

lemma upstreamContract_first:
  "\<exists>is. set is = upstream_of defn i
     \<and> upstreamContract defn i = first_contract (map_from (map (\<lambda>n. (n_id n, n)) (p_nodes defn))) is"
  using contract_search_first[of "incoming_of (p_edges defn)" "multi_get (incoming_of (p_edges defn)) i" "[]"]
    search_upstream[of defn i]
  by (auto simp: upstreamContract_def Let_def)

section \<open>The bindings of a node\<close>

lemma node_bindings_id: "b \<in> set (node_bindings url_of defn node) \<Longrightarrow> b_nodeId b = n_id node"
  by (auto simp: node_bindings_def Let_def split: if_splits option.splits)

lemma indexed_fst_distinct: "distinct (map fst (indexed xs))"
  by (simp add: indexed_def)

definition binding_key :: "asset_binding \<Rightarrow> string \<times> direction \<times> string" where
  "binding_key b = (b_nodeId b, b_direction b, b_port b)"

lemma node_bindings_distinct: "distinct (map binding_key (node_bindings url_of defn node))"
proof -
  have d: "distinct (map (\<lambda>(i, a). (n_id node, dir, p @ nat_str i)) (indexed xs))" for dir p and xs :: "data_asset list"
  proof -
    have "inj_on (\<lambda>i. (n_id node, dir, p @ nat_str i)) UNIV" by (rule inj_onI) (auto dest: nat_str_inj)
    then have "distinct (map ((\<lambda>i. (n_id node, dir, p @ nat_str i)) \<circ> fst) (indexed xs))"
      using indexed_fst_distinct[of xs]
      by (simp flip: map_map add: distinct_map inj_on_subset[OF _ subset_UNIV])
    then show ?thesis by (simp add: comp_def split_def)
  qed
  have e: "distinct (map binding_key
      (map (\<lambda>(i, a). \<lparr>b_nodeId = n_id node, b_direction = dir, b_port = p @ nat_str i, b_asset = f a\<rparr>) (indexed xs)))"
    for dir p f and xs :: "data_asset list"
    using d[of dir p xs] by (simp add: binding_key_def comp_def split_def)
  define ei where "ei = nullish (n_inputAssets node) []"
  define eo where "eo = nullish (n_outputAssets node) []"
  show ?thesis
  proof (cases "ei \<noteq> [] \<or> eo \<noteq> []")
    case True
    then show ?thesis
      unfolding node_bindings_def Let_def ei_def[symmetric] eo_def[symmetric]
      by (subst if_P, assumption, unfold append_Nil2 map_append distinct_append, intro conjI e)
        (auto simp: binding_key_def)
  next
    case False
    then have "ei = []" "eo = []" by auto
    then show ?thesis
      unfolding node_bindings_def Let_def ei_def[symmetric] eo_def[symmetric]
      by (simp add: indexed_def split: option.split)
  qed
qed

lemma distinct_concat_by:
  assumes "distinct (map g ns)" and "\<forall>n\<in>set ns. distinct (map k (f n)) \<and> (\<forall>b\<in>set (f n). fst (k b) = g n)"
  shows "distinct (map k (concat (map f ns)))"
  using assms
proof (induction ns)
  case (Cons n ns)
  have "fst (k b) \<noteq> g n" if "b \<in> set (f m)" "m \<in> set ns" for b m
    using Cons.prems that by auto (metis image_eqI)
  then have "k ` set (f n) \<inter> k ` (\<Union>m\<in>set ns. set (f m)) = {}"
    using Cons.prems(2) by (auto simp: image_iff) metis
  with Cons show ?case by simp
qed simp

text \<open>A map built from a list of records holds the last record of each id.\<close>

lemma last_record:
  "map_of (map_from (map (\<lambda>r. (f r, r)) rs)) i = Some r \<longleftrightarrow>
     (\<exists>before after. rs = before @ r # after \<and> f r = i \<and> i \<notin> f ` set after)"
  unfolding map_of_map_from
proof (induction rs rule: rev_induct)
  case (snoc x xs)
  show ?case
  proof (cases "f x = i")
    case True
    have "x = r" if "xs @ [x] = before @ r # after" "i \<notin> f ` set after" for before after
      using that True by (cases after rule: rev_cases) auto
    moreover have "\<exists>before after. xs @ [x] = before @ x # after \<and> f x \<notin> f ` set after"
      by (rule exI[of _ xs], rule exI[of _ "[]"]) simp
    ultimately show ?thesis using True by auto
  next
    case False
    have "(\<exists>before after. xs @ [x] = before @ r # after \<and> f r = i \<and> i \<notin> f ` set after)
        \<longleftrightarrow> (\<exists>before after. xs = before @ r # after \<and> f r = i \<and> i \<notin> f ` set after)"
    proof
      assume "\<exists>before after. xs @ [x] = before @ r # after \<and> f r = i \<and> i \<notin> f ` set after"
      then obtain bf af where e: "xs @ [x] = bf @ r # af" "f r = i" "i \<notin> f ` set af" by blast
      with False obtain af' where "af = af' @ [x]" by (cases af rule: rev_cases) auto
      with e show "\<exists>before after. xs = before @ r # after \<and> f r = i \<and> i \<notin> f ` set after" by auto
    next
      assume "\<exists>before after. xs = before @ r # after \<and> f r = i \<and> i \<notin> f ` set after"
      then obtain bf af where "xs = bf @ r # af" "f r = i" "i \<notin> f ` set af" by blast
      with False show "\<exists>before after. xs @ [x] = before @ r # after \<and> f r = i \<and> i \<notin> f ` set after"
        by (intro exI[of _ bf] exI[of _ "af @ [x]"]) auto
    qed
    with False snoc show ?thesis by simp
  qed
qed simp

section \<open>Properties\<close>

text \<open>C9: the outputs reported downstream of a node are exactly the output bindings of the nodes that
  the node reaches along edges, itself included.\<close>

theorem downstreamOutputBindings_reach:
  "downstreamOutputBindings url_of defn nodeId =
     filter (\<lambda>b. b_direction b = Output \<and> (nodeId, b_nodeId b) \<in> (edge_rel (p_edges defn))\<^sup>*)
       (deriveAssetBindings url_of defn)"
  by (simp add: downstreamOutputBindings_def Let_def reach.search_eq succ_rel_outgoing del: reach_loop.simps)

text \<open>C17: a contract attached to a node is the contract of a node upstream of it; and where every
  upstream contract text parses, no contract is found only when no upstream node has one.\<close>

theorem upstreamContract_spec:
  fixes defn i
  defines "byId \<equiv> map_from (map (\<lambda>n. (n_id n, n)) (p_nodes defn))"
  shows "(\<forall>c. upstreamContract defn i = Some c \<longrightarrow> (\<exists>m\<in>upstream_of defn i. contract_at byId m = Found c))
    \<and> ((\<forall>m\<in>upstream_of defn i. contract_at byId m \<noteq> ParseFailed) \<longrightarrow>
         (upstreamContract defn i = None \<longleftrightarrow> (\<forall>m\<in>upstream_of defn i. \<forall>c. contract_at byId m \<noteq> Found c)))"
proof -
  obtain "is" where "set is = upstream_of defn i" "upstreamContract defn i = first_contract byId is"
    using upstreamContract_first[of defn i] unfolding byId_def by blast
  then show ?thesis using first_contract_Some first_contract_None by metis
qed

theorem upstreamContract_spec_witness:
  "\<exists>m\<in>upstream_of orders_pipeline ''sink''.
     contract_at (map_from (map (\<lambda>n. (n_id n, n)) (p_nodes orders_pipeline))) m
       = Found [\<lparr>cf_name = ''id'', cf_type = ''number'', cf_nullable = None\<rparr>,
                \<lparr>cf_name = ''email'', cf_type = ''string'', cf_nullable = Some True\<rparr>]"
proof -
  have "upstreamContract orders_pipeline ''sink''
      = Some [\<lparr>cf_name = ''id'', cf_type = ''number'', cf_nullable = None\<rparr>,
              \<lparr>cf_name = ''email'', cf_type = ''string'', cf_nullable = Some True\<rparr>]"
    by code_simp
  then show ?thesis using upstreamContract_spec[of orders_pipeline "''sink''"] by blast
qed

text \<open>The bindings of a pipeline with distinct node ids differ in node, direction or port, so each
  of them makes an edge of its own in the workspace graph.\<close>

theorem deriveAssetBindings_distinct:
  assumes "distinct (map n_id (p_nodes defn))"
  shows "distinct (map binding_key (deriveAssetBindings url_of defn))"
  unfolding deriveAssetBindings_def
proof (rule distinct_concat_by[OF assms], rule ballI, rule conjI)
  fix n
  show "distinct (map binding_key (node_bindings url_of defn n))" by (rule node_bindings_distinct)
  show "\<forall>b\<in>set (node_bindings url_of defn n). fst (binding_key b) = n_id n"
    by (auto simp: binding_key_def dest: node_bindings_id)
qed

text \<open>What a run is credited with writing are outputs of the definition whose node's last run
  record is a success, each with the count that record carries.\<close>

theorem successfulOutputBindings_last_run:
  "(b, c) \<in> set (successfulOutputBindings url_of defn runs) \<longleftrightarrow>
     b \<in> set (deriveAssetBindings url_of defn) \<and> b_direction b = Output \<and>
     (\<exists>before r after. runs = before @ r # after \<and> nr_nodeId r = b_nodeId b \<and> nr_status r = ''success''
        \<and> nr_recordCount r = c \<and> b_nodeId b \<notin> nr_nodeId ` set after)"
proof -
  have "(b, c) \<in> set (successfulOutputBindings url_of defn runs) \<longleftrightarrow>
     b \<in> set (deriveAssetBindings url_of defn) \<and> b_direction b = Output \<and>
     (\<exists>r. map_of (map_from (map (\<lambda>r. (nr_nodeId r, r)) runs)) (b_nodeId b) = Some r
        \<and> nr_status r = ''success'' \<and> nr_recordCount r = c)"
    by (auto simp: successfulOutputBindings_def Let_def)
  then show ?thesis unfolding last_record by blast
qed

theorem deriveAssetBindings_distinct_witness:
  "distinct (map binding_key (deriveAssetBindings (\<lambda>_. None) orders_pipeline))"
  by (rule deriveAssetBindings_distinct) (simp add: sample_defs)

text \<open>Declared assets take precedence: a node that declares any asset contributes its declared
  inputs and outputs, in order and with their own URNs, and nothing that is inferred.\<close>

theorem explicit_assets_win:
  assumes "nullish (n_inputAssets node) [] \<noteq> [] \<or> nullish (n_outputAssets node) [] \<noteq> []"
  shows "map (\<lambda>b. (b_direction b, a_urn (b_asset b))) (node_bindings url_of defn node)
    = map (\<lambda>a. (Input, a_urn a)) (nullish (n_inputAssets node) [])
      @ map (\<lambda>a. (Output, a_urn a)) (nullish (n_outputAssets node) [])"
proof -
  have idx: "map (\<lambda>x. f (snd x)) (indexed xs) = map f xs" for f :: "data_asset \<Rightarrow> direction \<times> string" and xs
    by (simp add: indexed_def flip: map_map[of f snd, unfolded comp_def])
  have urn: "a_urn (with_contract c a) = a_urn a" for c a
    by (simp add: with_contract_def split: option.split)
  define ei where "ei = nullish (n_inputAssets node) []"
  define eo where "eo = nullish (n_outputAssets node) []"
  have "ei \<noteq> [] \<or> eo \<noteq> []" using assms by (simp add: ei_def eo_def)
  then show ?thesis
    unfolding node_bindings_def Let_def ei_def[symmetric] eo_def[symmetric] if_P[OF \<open>ei \<noteq> [] \<or> eo \<noteq> []\<close>]
    by (simp add: comp_def split_def urn idx[of "\<lambda>a. (Input, a_urn a)"] idx[of "\<lambda>a. (Output, a_urn a)"])
qed

theorem explicit_assets_win_witness:
  "map (\<lambda>b. (b_direction b, a_urn (b_asset b)))
     (node_bindings (\<lambda>_. None) orders_pipeline
       ((bare_node ''n'' Source ''postgres.fetch'' [(''table'', JStr ''t'')])
          \<lparr>n_inputAssets := Some [asset ''u1'' ''p'' ''ns'' ''nm'' Table None]\<rparr>)) = [(Input, ''u1'')]"
  by (subst explicit_assets_win) (simp_all add: bare_node_def asset_def)

lemma infer_http:
  "n_activityType node = ''http.fetch'' \<or> n_activityType node = ''sink.webhook'' \<Longrightarrow>
   infer url_of node = (case config_value node ''url'' of None \<Rightarrow> None | Some url \<Rightarrow> httpAsset url_of url (node_layer node))"
  by (elim disjE) (simp_all add: infer_def Let_def)

text \<open>The URN inferred for an HTTP node carries neither the query nor the fragment of the configured
  URL (where tokens travel), given that the platform's URL parser separates them from the path.\<close>

theorem http_urn_without_query:
  assumes parser: "\<forall>raw u. url_of raw = Some u \<longrightarrow>
      set (u_protocol u) \<union> set (u_host u) \<union> set (u_pathname u) \<subseteq> - {CHR ''?'', CHR 0x23}"
    and "n_activityType node = ''http.fetch'' \<or> n_activityType node = ''sink.webhook''"
    and "infer url_of node = Some a"
  shows "CHR ''?'' \<notin> set (a_urn a) \<and> CHR 0x23 \<notin> set (a_urn a)"
proof -
  obtain raw where "httpAsset url_of raw (node_layer node) = Some a"
    using assms(2,3) by (simp add: infer_http split: option.splits)
  then obtain u where u: "url_of raw = Some u"
    and a: "a_urn a = u_protocol u @ ''//'' @ u_host u @ or_else (Some (strip_trailing_slashes (u_pathname u))) ''/''"
    by (auto simp: httpAsset_def Let_def asset_def split: option.splits)
  have "set (strip_trailing_slashes p) \<subseteq> set p" for p
    by (auto simp: strip_trailing_slashes_def dest: set_dropWhileD)
  then have "set (or_else (Some (strip_trailing_slashes (u_pathname u))) ''/'') \<subseteq> insert (CHR ''/'') (set (u_pathname u))"
    by (auto simp: or_else_def)
  with parser u show ?thesis unfolding a by (auto simp: subset_iff)
qed

theorem http_urn_without_query_witness:
  "CHR ''?'' \<notin> set (a_urn (the (infer (\<lambda>_. Some \<lparr>u_protocol = ''https:'', u_host = ''api.example.com'', u_pathname = ''/orders/''\<rparr>)
     (bare_node ''n'' Source ''http.fetch'' [(''url'', JStr ''https://api.example.com/orders/?token=s'')]))))"
proof -
  let ?p = "\<lambda>_::string. Some \<lparr>u_protocol = ''https:'', u_host = ''api.example.com'', u_pathname = ''/orders/''\<rparr>"
  let ?n = "bare_node ''n'' Source ''http.fetch'' [(''url'', JStr ''https://api.example.com/orders/?token=s'')]"
  have "infer ?p ?n = Some (asset ''https://api.example.com/orders'' ''http'' ''api.example.com'' ''/orders'' Api None)"
    by code_simp
  moreover from this have "CHR ''?'' \<notin> set (a_urn (asset ''https://api.example.com/orders'' ''http'' ''api.example.com'' ''/orders'' Api None))"
    using http_urn_without_query[of ?p ?n] by (simp add: bare_node_def)
  ultimately show ?thesis by simp
qed

end
