(* ===== verification/WorkspaceLineage.thy ===== *)
theory WorkspaceLineage
  imports LineageBindings SafeExpression
begin

text \<open>
  The workspace lineage graph of \<open>packages/shared/src/lineage.ts\<close>: \<open>buildWorkspaceLineage\<close>
  joins the pipelines of a workspace through the assets they share, \<open>filterWorkspaceLineage\<close>
  cuts a part out of the graph, and \<open>attachLatestMaterializations\<close> and
  \<open>attachLatestQuality\<close> decorate its assets with run results.

  A \<open>Set\<close> is a list without repetitions. \<open>Date.parse\<close> is modelled on the ISO 8601 forms that
  \<open>Date.prototype.toISOString\<close> and the back end write; a text of another form is not a date.
\<close>

section \<open>The graph\<close>

record lineage_pipeline =
  v_rowId :: string
  v_pipelineKey :: string
  v_name :: string
  v_version :: int
  v_status :: string
  v_environment :: string
  v_metadata :: "pipeline_metadata option"
  v_slo :: "pipeline_slo option"

text \<open>\<open>LineagePipelineVersion\<close>: a graph node carries all of it but the definition.\<close>

record pipeline_version = lineage_pipeline +
  v_definition :: pipeline_definition

record external_job =
  x_namespace :: string
  x_name :: string
  x_environment :: string
  x_eventTime :: string
  x_inputs :: "(string \<times> string) list"
  x_outputs :: "(string \<times> string) list"

record materialization =
  m_assetUrn :: string
  m_executionId :: string
  m_pipelineRowId :: string
  m_nodeId :: string
  m_environment :: "string option"
  m_recordCount :: "int option"
  m_materializedAt :: string

record quality =
  q_assetUrn :: string
  q_executionId :: string
  q_pipelineRowId :: string
  q_nodeId :: string
  q_status :: string
  q_passedCount :: int
  q_failedCount :: int
  q_evaluatedAt :: string
  q_quarantineAvailable :: "bool option"

datatype lineage_node =
    PipelineNode (ln_id: string) (ln_pipeline: lineage_pipeline)
  | ExternalJobNode (ln_id: string) (ln_job: external_job)
  | AssetNode (ln_id: string) (ln_asset: data_asset) (ln_materialization: "materialization option")
      (ln_quality: "quality option")

record lineage_edge =
  le_id :: string
  le_source :: string
  le_target :: string
  le_pipelineRowId :: string
  le_nodeId :: string

record column_edge =
  co_id :: string
  co_pipelineRowId :: string
  co_sourceAssetUrn :: string
  co_sourceField :: string
  co_targetAssetUrn :: string
  co_targetField :: string
  co_transformNodeId :: "string option"

record lineage_stats =
  st_pipelines :: nat
  st_assets :: nat
  st_links :: nat
  st_sharedAssets :: nat
  st_columnLinks :: nat
  st_externalJobs :: nat

record workspace_lineage =
  wl_nodes :: "lineage_node list"
  wl_edges :: "lineage_edge list"
  wl_columnEdges :: "column_edge list"
  wl_stats :: lineage_stats

text \<open>A layer of the filter; \<open>None\<close> is \<open>external\<close>.\<close>

record lineage_filter =
  lf_query :: "string option"
  lf_domains :: "string list option"
  lf_layers :: "layer option list option"
  lf_focusId :: "string option"
  lf_depth :: "int option"

section \<open>Nodes as text\<close>

text \<open>\<open>JSON.stringify(node)\<close>: the properties in the order of the declarations, absent ones left
  out.\<close>

abbreviation entry :: "string \<Rightarrow> json option \<Rightarrow> (string \<times> json) list" where
  "entry k v \<equiv> (case v of None \<Rightarrow> [] | Some j \<Rightarrow> [(k, j)])"

definition metadata_json :: "pipeline_metadata \<Rightarrow> json" where
  "metadata_json m = JObj (entry ''owner'' (map_option JStr (md_owner m)) @ entry ''domain'' (map_option JStr (md_domain m))
     @ entry ''tags'' (map_option (\<lambda>ts. JArr (map JStr ts)) (md_tags m)))"

definition slo_json :: "pipeline_slo \<Rightarrow> json" where
  "slo_json s = JObj (entry ''freshnessMinutes'' (map_option JNum (slo_freshnessMinutes s))
     @ entry ''maxFailureRatePercent'' (map_option JNum (slo_maxFailureRatePercent s))
     @ entry ''maxDurationMs'' (map_option JNum (slo_maxDurationMs s)))"

definition pipeline_json :: "lineage_pipeline \<Rightarrow> json" where
  "pipeline_json p = JObj ([(''rowId'', JStr (v_rowId p)), (''pipelineKey'', JStr (v_pipelineKey p)),
       (''name'', JStr (v_name p)), (''version'', JNum (v_version p)), (''status'', JStr (v_status p)),
       (''environment'', JStr (v_environment p))]
     @ entry ''metadata'' (map_option metadata_json (v_metadata p)) @ entry ''slo'' (map_option slo_json (v_slo p)))"

definition dataset_json :: "string \<times> string \<Rightarrow> json" where
  "dataset_json d = JObj [(''namespace'', JStr (fst d)), (''name'', JStr (snd d))]"

definition job_json :: "external_job \<Rightarrow> json" where
  "job_json x = JObj [(''namespace'', JStr (x_namespace x)), (''name'', JStr (x_name x)),
     (''environment'', JStr (x_environment x)), (''eventTime'', JStr (x_eventTime x)),
     (''inputs'', JArr (map dataset_json (x_inputs x))), (''outputs'', JArr (map dataset_json (x_outputs x)))]"

definition field_json :: "contract_field \<Rightarrow> json" where
  "field_json f = JObj ([(''name'', JStr (cf_name f)), (''type'', JStr (cf_type f))]
     @ entry ''nullable'' (map_option JBool (cf_nullable f)))"

definition asset_json :: "data_asset \<Rightarrow> json" where
  "asset_json a = JObj ([(''urn'', JStr (a_urn a)), (''platform'', JStr (a_platform a)),
       (''namespace'', JStr (a_namespace a)), (''name'', JStr (a_name a)), (''type'', JStr (asset_type_str (a_type a)))]
     @ entry ''layer'' (map_option (\<lambda>l. JStr (layer_str l)) (a_layer a))
     @ entry ''schema'' (map_option (\<lambda>fs. JObj [(''fields'', JArr (map field_json fs))]) (a_schema a))
     @ entry ''owner'' (map_option JStr (a_owner a)) @ entry ''tags'' (map_option (\<lambda>ts. JArr (map JStr ts)) (a_tags a)))"

definition materialization_json :: "materialization \<Rightarrow> json" where
  "materialization_json m = JObj ([(''assetUrn'', JStr (m_assetUrn m)), (''executionId'', JStr (m_executionId m)),
       (''pipelineRowId'', JStr (m_pipelineRowId m)), (''nodeId'', JStr (m_nodeId m))]
     @ entry ''environment'' (map_option JStr (m_environment m)) @ entry ''recordCount'' (map_option JNum (m_recordCount m))
     @ [(''materializedAt'', JStr (m_materializedAt m))])"

definition quality_json :: "quality \<Rightarrow> json" where
  "quality_json q = JObj ([(''assetUrn'', JStr (q_assetUrn q)), (''executionId'', JStr (q_executionId q)),
       (''pipelineRowId'', JStr (q_pipelineRowId q)), (''nodeId'', JStr (q_nodeId q)), (''status'', JStr (q_status q)),
       (''passedCount'', JNum (q_passedCount q)), (''failedCount'', JNum (q_failedCount q)),
       (''evaluatedAt'', JStr (q_evaluatedAt q))]
     @ entry ''quarantineAvailable'' (map_option JBool (q_quarantineAvailable q)))"

fun node_json :: "lineage_node \<Rightarrow> json" where
  "node_json (PipelineNode i p) = JObj [(''id'', JStr i), (''kind'', JStr ''pipeline''), (''pipeline'', pipeline_json p)]"
| "node_json (ExternalJobNode i x) = JObj [(''id'', JStr i), (''kind'', JStr ''external-job''), (''externalJob'', job_json x)]"
| "node_json (AssetNode i a m q) = JObj ([(''id'', JStr i), (''kind'', JStr ''asset''), (''asset'', asset_json a)]
     @ entry ''materialization'' (map_option materialization_json m) @ entry ''quality'' (map_option quality_json q))"

section \<open>Filtering\<close>

definition link :: "string \<Rightarrow> string \<Rightarrow> (string \<times> string list) list \<Rightarrow> (string \<times> string list) list" where
  "link a b m = AList.update a (set_add b (multi_get m a)) m"

definition ensure_key :: "string \<Rightarrow> (string \<times> string list) list \<Rightarrow> (string \<times> string list) list" where
  "ensure_key a m = (if map_of m a \<noteq> None then m else AList.update a [] m)"

definition neighbours_of :: "lineage_edge list \<Rightarrow> (string \<times> string list) list" where
  "neighbours_of edges =
     fold (\<lambda>e m. link (le_target e) (le_source e) (link (le_source e) (le_target e)
       (ensure_key (le_target e) (ensure_key (le_source e) m)))) edges []"

definition incident :: "(string \<times> string list) list \<Rightarrow> string list \<Rightarrow> string list \<Rightarrow> string list" where
  "incident neighbours seeds within =
     fold (\<lambda>i out. fold (\<lambda>n out. if n \<in> set within then set_add n out else out) (multi_get neighbours i) out) seeds seeds"

definition select_ids :: "(lineage_node \<Rightarrow> bool) \<Rightarrow> lineage_node list \<Rightarrow> string list" where
  "select_ids P nodes = set_from (map ln_id (filter P nodes))"

fun in_domain :: "string list \<Rightarrow> lineage_node \<Rightarrow> bool" where
  "in_domain domains (PipelineNode i p) =
     (nullish (Option.bind (v_metadata p) md_domain) ''Unassigned'' \<in> set domains)"
| "in_domain domains _ = False"

fun in_layer :: "layer option list \<Rightarrow> lineage_node \<Rightarrow> bool" where
  "in_layer layers (AssetNode i a m q) = (a_layer a \<in> set layers)"
| "in_layer layers _ = False"

definition matches_query :: "string \<Rightarrow> lineage_node \<Rightarrow> bool" where
  "matches_query query node \<longleftrightarrow> str_includes (to_lower (stringify (node_json node))) query"

text \<open>One step of the walk around the focus: the unseen allowed neighbours join the focus and the
  queue.\<close>

definition visit_neighbours :: "string list \<Rightarrow> nat \<Rightarrow> string list \<Rightarrow> string list \<times> (string \<times> nat) list
    \<Rightarrow> string list \<times> (string \<times> nat) list" where
  "visit_neighbours allowed distance ns st =
     fold (\<lambda>n (focused, q). if n \<in> set allowed \<and> n \<notin> set focused then (focused @ [n], q @ [(n, distance + 1)])
            else (focused, q)) ns st"

lemma visit_neighbours_measure:
  "visit_neighbours allowed d ns (F, Q) = (F', Q') \<Longrightarrow>
   card (set allowed - set F') + length Q' = card (set allowed - set F) + length Q"
proof (induction ns arbitrary: F Q)
  case Nil
  then show ?case by (simp add: visit_neighbours_def)
next
  case (Cons n ns)
  show ?case
  proof (cases "n \<in> set allowed \<and> n \<notin> set F")
    case True
    then have step: "visit_neighbours allowed d ns (F @ [n], Q @ [(n, d + 1)]) = (F', Q')"
      using Cons.prems by (simp add: visit_neighbours_def)
    have "set allowed - set (F @ [n]) = (set allowed - set F) - {n}" by auto
    moreover have "card ((set allowed - set F) - {n}) = card (set allowed - set F) - 1" "card (set allowed - set F) > 0"
      using True by (auto simp: card_gt_0_iff)
    ultimately show ?thesis using Cons.IH[OF step] by simp
  next
    case False
    then show ?thesis using Cons by (auto simp: visit_neighbours_def)
  qed
qed

function focus_loop :: "(string \<times> string list) list \<Rightarrow> string list \<Rightarrow> nat \<Rightarrow> string list \<Rightarrow> (string \<times> nat) list \<Rightarrow> string list" where
  "focus_loop neighbours allowed depth focused [] = focused"
| "focus_loop neighbours allowed depth focused ((i, distance) # q) =
     (if distance \<ge> depth then focus_loop neighbours allowed depth focused q
      else case visit_neighbours allowed distance (multi_get neighbours i) (focused, q) of
        (focused', q') \<Rightarrow> focus_loop neighbours allowed depth focused' q')"
  by pat_completeness auto
termination focus_loop
proof (relation "measure (\<lambda>(nb, allowed, depth, focused, q). card (set allowed - set focused) + length q)", goal_cases)
  case (3 nb allowed depth focused i distance q x y)
  then have "visit_neighbours allowed distance (multi_get nb i) (focused, q) = (x, y)" by simp
  from visit_neighbours_measure[OF this] show ?case by simp
qed auto

definition focus :: "(string \<times> string list) list \<Rightarrow> string list \<Rightarrow> nat \<Rightarrow> string \<Rightarrow> string list" where
  "focus neighbours allowed depth focusId = focus_loop neighbours allowed depth [focusId] [(focusId, 0)]"

definition asset_urns :: "lineage_node list \<Rightarrow> string list" where
  "asset_urns nodes = set_from (List.map_filter (\<lambda>n. case n of AssetNode i a m q \<Rightarrow> Some (a_urn a) | _ \<Rightarrow> None) nodes)"

text \<open>The consumers of each asset, as the edges show them.\<close>

definition add_use :: "lineage_edge \<Rightarrow> (string \<times> string list) list \<Rightarrow> (string \<times> string list) list" where
  "add_use e uses =
     (let assetId = (if starts_with ''asset:'' (le_source e) then Some (le_source e)
                     else if starts_with ''asset:'' (le_target e) then Some (le_target e) else None);
          consumer = (if Some (le_source e) = assetId then le_target e else le_source e)
      in case assetId of
           Some a \<Rightarrow> if a \<noteq> [] \<and> consumer \<noteq> [] then link a consumer (ensure_key a uses) else uses
         | None \<Rightarrow> uses)"

fun is_pipeline :: "lineage_node \<Rightarrow> bool" where
  "is_pipeline (PipelineNode i p) = True"
| "is_pipeline _ = False"

fun is_external :: "lineage_node \<Rightarrow> bool" where
  "is_external (ExternalJobNode i x) = True"
| "is_external _ = False"

definition shared_count :: "(string \<times> string list) list \<Rightarrow> nat" where
  "shared_count uses = length (filter (\<lambda>e. length (snd e) > 1) uses)"

text \<open>The ids that pass the four conditions, applied in turn.\<close>

definition allowed_ids :: "workspace_lineage \<Rightarrow> lineage_filter \<Rightarrow> string list" where
  "allowed_ids graph flt =
     (let query = nullish (map_option (\<lambda>q. to_lower (js_trim q)) (lf_query flt)) '''';
          domains = filter (\<lambda>d. d \<noteq> []) (nullish (lf_domains flt) []);
          layers = nullish (lf_layers flt) [];
          nodes = wl_nodes graph;
          neighbours = neighbours_of (wl_edges graph);
          all = set_from (map ln_id nodes);
          a1 = (if domains \<noteq> [] then incident neighbours (select_ids (in_domain domains) nodes) all else all);
          a2 = (if layers \<noteq> [] then incident neighbours (select_ids (\<lambda>n. ln_id n \<in> set a1 \<and> in_layer layers n) nodes) a1 else a1);
          a3 = (if query \<noteq> [] then incident neighbours (select_ids (\<lambda>n. ln_id n \<in> set a2 \<and> matches_query query n) nodes) a2 else a2)
      in case truthy (lf_focusId flt) of
           Some f \<Rightarrow> if f \<in> set a3 then focus neighbours a3 (nat (nullish (lf_depth flt) 1)) f else a3
         | None \<Rightarrow> a3)"

definition no_filter :: "lineage_filter \<Rightarrow> bool" where
  "no_filter flt \<longleftrightarrow> nullish (map_option (\<lambda>q. to_lower (js_trim q)) (lf_query flt)) '''' = []
     \<and> filter (\<lambda>d. d \<noteq> []) (nullish (lf_domains flt) []) = [] \<and> nullish (lf_layers flt) [] = []
     \<and> truthy (lf_focusId flt) = None"

definition filterWorkspaceLineage :: "workspace_lineage \<Rightarrow> lineage_filter \<Rightarrow> workspace_lineage" where
  "filterWorkspaceLineage graph flt =
     (if no_filter flt then graph
      else
        (let allowed = allowed_ids graph flt;
             nodes = filter (\<lambda>n. ln_id n \<in> set allowed) (wl_nodes graph);
             edges = filter (\<lambda>e. le_source e \<in> set allowed \<and> le_target e \<in> set allowed) (wl_edges graph);
             urns = asset_urns nodes;
             columnEdges = filter (\<lambda>e. co_sourceAssetUrn e \<in> set urns \<and> co_targetAssetUrn e \<in> set urns) (wl_columnEdges graph);
             uses = fold add_use edges []
         in \<lparr>wl_nodes = nodes, wl_edges = edges, wl_columnEdges = columnEdges,
             wl_stats = \<lparr>st_pipelines = length (filter is_pipeline nodes), st_assets = length urns,
               st_links = length edges, st_sharedAssets = shared_count uses,
               st_columnLinks = length columnEdges, st_externalJobs = length (filter is_external nodes)\<rparr>\<rparr>))"

section \<open>The walk around the focus\<close>

text \<open>The nodes at most \<open>k\<close> steps away from a node.\<close>

definition ball :: "('a \<times> 'a) set \<Rightarrow> 'a \<Rightarrow> nat \<Rightarrow> 'a set" where
  "ball R s k = {n. \<exists>j\<le>k. (s, n) \<in> R ^^ j}"

lemma ball_0 [simp]: "ball R s 0 = {s}"
  by (auto simp: ball_def)

lemma ball_Suc: "ball R s (Suc k) = ball R s k \<union> R `` ball R s k"
proof
  show "ball R s (Suc k) \<subseteq> ball R s k \<union> R `` ball R s k"
  proof
    fix n
    assume "n \<in> ball R s (Suc k)"
    then obtain j where j: "j \<le> Suc k" "(s, n) \<in> R ^^ j" by (auto simp: ball_def)
    show "n \<in> ball R s k \<union> R `` ball R s k"
    proof (cases "j \<le> k")
      case True
      then show ?thesis using j by (auto simp: ball_def)
    next
      case False
      then have "(s, n) \<in> R ^^ Suc k" using j by (simp add: le_Suc_eq)
      then show ?thesis by (auto simp: ball_def)
    qed
  qed
  show "ball R s k \<union> R `` ball R s k \<subseteq> ball R s (Suc k)"
    unfolding ball_def by (auto intro: le_SucI) (metis Suc_le_mono relpow_Suc_I)
qed

text \<open>The links inside the allowed ids.\<close>

definition link_rel :: "(string \<times> string list) list \<Rightarrow> string list \<Rightarrow> (string \<times> string) set" where
  "link_rel neighbours allowed = {(x, y). y \<in> set (multi_get neighbours x) \<and> y \<in> set allowed}"

lemma visit_neighbours_spec:
  "\<exists>news. visit_neighbours allowed d ns (F, Q) = (F @ news, Q @ map (\<lambda>n. (n, d + 1)) news)
     \<and> set news = (set ns \<inter> set allowed) - set F"
proof (induction ns arbitrary: F Q)
  case Nil
  then show ?case by (simp add: visit_neighbours_def)
next
  case (Cons n ns)
  show ?case
  proof (cases "n \<in> set allowed \<and> n \<notin> set F")
    case True
    obtain news where "visit_neighbours allowed d ns (F @ [n], Q @ [(n, d + 1)])
        = ((F @ [n]) @ news, (Q @ [(n, d + 1)]) @ map (\<lambda>n. (n, d + 1)) news)"
      "set news = (set ns \<inter> set allowed) - set (F @ [n])"
      using Cons.IH by blast
    with True show ?thesis
      by (intro exI[of _ "n # news"]) (auto simp: visit_neighbours_def)
  next
    case False
    then show ?thesis using Cons.IH[of F Q] by (auto simp: visit_neighbours_def)
  qed
qed

text \<open>The state of the walk at distance \<open>k\<close>: \<open>A\<close> is what is left of the level, \<open>B\<close> what was found of
  the next one.\<close>

definition level_ok :: "(string \<times> string) set \<Rightarrow> string \<Rightarrow> nat \<Rightarrow> string list \<Rightarrow> string list \<Rightarrow> string list \<Rightarrow> bool" where
  "level_ok R s k A B F \<longleftrightarrow> set F = ball R s k \<union> set B \<and> set B \<subseteq> ball R s (Suc k) \<and> set A \<subseteq> ball R s k
     \<and> R `` (ball R s k - set A) \<subseteq> set F"

lemma level_step:
  assumes "k < depth" and "level_ok (link_rel nb allowed) s k A B F"
  shows "\<exists>B' F'. level_ok (link_rel nb allowed) s k [] B' F'
    \<and> focus_loop nb allowed depth F (map (\<lambda>n. (n, k)) A @ map (\<lambda>n. (n, Suc k)) B)
      = focus_loop nb allowed depth F' (map (\<lambda>n. (n, Suc k)) B')"
  using assms(2)
proof (induction A arbitrary: B F)
  case Nil
  then show ?case by (intro exI[of _ B] exI[of _ F]) simp
next
  case (Cons n A)
  let ?R = "link_rel nb allowed"
  obtain news where v: "visit_neighbours allowed k (multi_get nb n) (F, map (\<lambda>n. (n, k)) A @ map (\<lambda>n. (n, Suc k)) B)
      = (F @ news, (map (\<lambda>n. (n, k)) A @ map (\<lambda>n. (n, Suc k)) B) @ map (\<lambda>n. (n, k + 1)) news)"
    and news: "set news = (set (multi_get nb n) \<inter> set allowed) - set F"
    using visit_neighbours_spec by blast
  have succ: "?R `` {n} = set (multi_get nb n) \<inter> set allowed" by (auto simp: link_rel_def)
  have n: "n \<in> ball ?R s k" using Cons.prems by (simp add: level_ok_def)
  have "level_ok ?R s k A (B @ news) (F @ news)"
    using Cons.prems n unfolding level_ok_def ball_Suc set_append news succ[symmetric] by (auto simp: ball_Suc)
  from Cons.IH[OF this] show ?case using assms(1) v by simp
qed

lemma level_next: "level_ok R s k [] B F \<Longrightarrow> level_ok R s (Suc k) B [] F"
  unfolding level_ok_def by (auto simp: ball_Suc)

lemma focus_loop_done: "focus_loop nb allowed depth F (map (\<lambda>n. (n, depth)) A) = F"
  by (induction A) simp_all

lemma focus_loop_ball:
  "level_ok (link_rel nb allowed) s k A [] F \<Longrightarrow> k \<le> depth \<Longrightarrow>
   set (focus_loop nb allowed depth F (map (\<lambda>n. (n, k)) A)) = ball (link_rel nb allowed) s depth"
proof (induction "depth - k" arbitrary: k A F)
  case 0
  then have "k = depth" by simp
  with 0 show ?case by (simp add: focus_loop_done level_ok_def)
next
  case (Suc x)
  then have k: "k < depth" by simp
  obtain B' F' where l: "level_ok (link_rel nb allowed) s k [] B' F'"
    and e: "focus_loop nb allowed depth F (map (\<lambda>n. (n, k)) A) = focus_loop nb allowed depth F' (map (\<lambda>n. (n, Suc k)) B')"
    using level_step[OF k Suc.prems(1)] by auto
  have "set (focus_loop nb allowed depth F' (map (\<lambda>n. (n, Suc k)) B')) = ball (link_rel nb allowed) s depth"
    using Suc(2) k level_next[OF l] by (intro Suc(1)) simp_all
  with e show ?case by simp
qed

text \<open>C11: the focus keeps exactly the allowed nodes that are at most \<open>depth\<close> links away from the
  focused one, each link leading to an allowed node.\<close>

theorem focus_exact:
  "set (focus neighbours allowed depth focusId) = ball (link_rel neighbours allowed) focusId depth"
proof -
  have "level_ok (link_rel neighbours allowed) focusId 0 [focusId] [] [focusId]"
    by (simp add: level_ok_def)
  from focus_loop_ball[OF this] show ?thesis by (simp add: focus_def)
qed

section \<open>The filtered graph\<close>

lemma multi_get_link: "set (multi_get (link a b m) k) = (if k = a then insert b (set (multi_get m a)) else set (multi_get m k))"
  by (auto simp: multi_get_def link_def update_conv')

lemma multi_get_ensure [simp]: "multi_get (ensure_key a m) k = multi_get m k"
  by (auto simp: multi_get_def ensure_key_def update_conv')

definition linked :: "lineage_edge list \<Rightarrow> string \<Rightarrow> string \<Rightarrow> bool" where
  "linked edges a b \<longleftrightarrow> (\<exists>e\<in>set edges. (le_source e = a \<and> le_target e = b) \<or> (le_source e = b \<and> le_target e = a))"

lemma neighbours_fold:
  "set (multi_get (fold (\<lambda>e m. link (le_target e) (le_source e) (link (le_source e) (le_target e)
       (ensure_key (le_target e) (ensure_key (le_source e) m)))) edges m) a)
   = set (multi_get m a) \<union> {b. linked edges a b}"
  by (induction edges arbitrary: m) (auto simp: multi_get_link linked_def)

lemma neighbours_of_linked: "b \<in> set (multi_get (neighbours_of edges) a) \<longleftrightarrow> linked edges a b"
  by (simp add: neighbours_of_def neighbours_fold)

lemma incident_inner:
  "set (fold (\<lambda>n out. if n \<in> set within then set_add n out else out) ns out) = set out \<union> (set ns \<inter> set within)"
  by (induction ns arbitrary: out) auto

lemma incident_outer:
  "set (fold (\<lambda>i out. fold (\<lambda>n out. if n \<in> set within then set_add n out else out) (multi_get nb i) out) seeds out)
   = set out \<union> {n \<in> set within. \<exists>i\<in>set seeds. n \<in> set (multi_get nb i)}"
  by (induction seeds arbitrary: out) (auto simp: incident_inner)

lemma set_incident:
  "set (incident nb seeds within) = set seeds \<union> {n \<in> set within. \<exists>i\<in>set seeds. n \<in> set (multi_get nb i)}"
  unfolding incident_def by (rule incident_outer)

lemma set_select_ids [simp]: "set (select_ids P nodes) = {ln_id n | n. n \<in> set nodes \<and> P n}"
  by (auto simp: select_ids_def)

lemma ball_within: "f \<in> A \<Longrightarrow> R \<subseteq> UNIV \<times> A \<Longrightarrow> ball R f k \<subseteq> A"
  by (induction k) (auto simp: ball_Suc)

lemma focus_subset: "f \<in> set a \<Longrightarrow> set (focus nb a d f) \<subseteq> set a"
proof -
  assume f: "f \<in> set a"
  have "set (focus nb a d f) = ball (link_rel nb a) f d"
    unfolding focus_def using focus_loop_ball[of nb a f 0 "[f]" "[f]" d] by (simp add: level_ok_def)
  also have "\<dots> \<subseteq> set a" using f by (rule ball_within) (auto simp: link_rel_def)
  finally show ?thesis .
qed

lemma incident_subset: "set seeds \<subseteq> I \<Longrightarrow> set w \<subseteq> I \<Longrightarrow> set (incident nb seeds w) \<subseteq> I"
  by (auto simp: set_incident)

lemma select_ids_subset: "set (select_ids P nodes) \<subseteq> ln_id ` set nodes"
  by auto

lemma allowed_ids_subset: "set (allowed_ids graph flt) \<subseteq> ln_id ` set (wl_nodes graph)"
proof -
  let ?I = "ln_id ` set (wl_nodes graph)" and ?nb = "neighbours_of (wl_edges graph)"
  have step: "set (if b then incident ?nb (select_ids P (wl_nodes graph)) a else a) \<subseteq> ?I" if "set a \<subseteq> ?I" for b P a
    using that incident_subset[OF select_ids_subset that] by simp
  have foc: "set (case t of None \<Rightarrow> a | Some f \<Rightarrow> if f \<in> set a then focus ?nb a d f else a) \<subseteq> ?I"
    if "set a \<subseteq> ?I" for t a d
    using that focus_subset[of _ a ?nb d] by (cases t) auto
  show ?thesis
    unfolding allowed_ids_def Let_def by (intro foc step) simp
qed

text \<open>C34: a filter cuts out an induced subgraph: of the nodes it keeps it keeps every edge, no edge
  dangles, and a column edge joins two assets that are kept.\<close>

theorem filter_induced:
  assumes "\<not> no_filter flt"
  shows "wl_edges (filterWorkspaceLineage graph flt)
      = filter (\<lambda>e. le_source e \<in> ln_id ` set (wl_nodes (filterWorkspaceLineage graph flt))
          \<and> le_target e \<in> ln_id ` set (wl_nodes (filterWorkspaceLineage graph flt))) (wl_edges graph)
    \<and> (\<forall>c\<in>set (wl_columnEdges (filterWorkspaceLineage graph flt)).
          {co_sourceAssetUrn c, co_targetAssetUrn c} \<subseteq> set (asset_urns (wl_nodes (filterWorkspaceLineage graph flt))))"
proof -
  have "ln_id ` set (filter (\<lambda>n. ln_id n \<in> set (allowed_ids graph flt)) (wl_nodes graph)) = set (allowed_ids graph flt)"
    using allowed_ids_subset[of graph flt] by auto
  then show ?thesis using assms by (auto simp: filterWorkspaceLineage_def Let_def)
qed

text \<open>A filter on layers alone keeps the assets of these layers and what is linked to one of them.\<close>

theorem filter_layers:
  assumes "layers \<noteq> []"
  shows "wl_nodes (filterWorkspaceLineage graph
      \<lparr>lf_query = None, lf_domains = None, lf_layers = Some layers, lf_focusId = None, lf_depth = None\<rparr>)
    = filter (\<lambda>n. \<exists>a\<in>set (wl_nodes graph). in_layer layers a \<and> (ln_id a = ln_id n \<or> linked (wl_edges graph) (ln_id a) (ln_id n)))
        (wl_nodes graph)"
proof -
  let ?f = "\<lparr>lf_query = None, lf_domains = None, lf_layers = Some layers, lf_focusId = None, lf_depth = None\<rparr>"
  have "set (allowed_ids graph ?f) = {i \<in> ln_id ` set (wl_nodes graph).
      \<exists>a\<in>set (wl_nodes graph). in_layer layers a \<and> (ln_id a = i \<or> linked (wl_edges graph) (ln_id a) i)}"
    using assms by (auto simp: allowed_ids_def Let_def truthy_def set_incident neighbours_of_linked)
  then show ?thesis
    using assms by (auto simp: filterWorkspaceLineage_def no_filter_def Let_def intro!: filter_cong)
qed

end
