(* ===== verification/WorkspaceBuild.thy ===== *)
theory WorkspaceBuild
  imports WorkspaceLineage JsDate
begin

text \<open>
  The rest of the workspace graph in \<open>packages/shared/src/lineage.ts\<close>: \<open>buildWorkspaceLineage\<close>
  (pipelines, the assets they share, triggers, and column lineage through at most one mapping
  transform) and the two routines that attach run results to asset nodes. An expression that
  \<open>deriveMapFieldLineage\<close> rejects makes the whole construction throw: the left side of the sum.
\<close>

section \<open>Run results on assets\<close>

definition attachLatestMaterializations :: "workspace_lineage \<Rightarrow> materialization list \<Rightarrow> workspace_lineage" where
  "attachLatestMaterializations graph ms =
     (let latest = map_from (map (\<lambda>m. (m_assetUrn m, m)) ms)
      in graph\<lparr>wl_nodes := map (\<lambda>n. case n of AssetNode i a m q \<Rightarrow> AssetNode i a (map_of latest (a_urn a)) q | _ \<Rightarrow> n)
            (wl_nodes graph)\<rparr>)"

text \<open>A comparison with \<open>NaN\<close> is false.\<close>

definition later :: "string \<Rightarrow> string \<Rightarrow> bool" where
  "later a b = (case (date_parse a, date_parse b) of (Some x, Some y) \<Rightarrow> x > y | _ \<Rightarrow> False)"

definition keep_latest :: "quality \<Rightarrow> (string \<times> quality) list \<Rightarrow> (string \<times> quality) list" where
  "keep_latest r latest =
     (case map_of latest (q_assetUrn r) of
        None \<Rightarrow> AList.update (q_assetUrn r) r latest
      | Some existing \<Rightarrow>
          if later (q_evaluatedAt r) (q_evaluatedAt existing) then AList.update (q_assetUrn r) r latest else latest)"

definition attachLatestQuality :: "workspace_lineage \<Rightarrow> quality list \<Rightarrow> workspace_lineage" where
  "attachLatestQuality graph results =
     (let latest = fold keep_latest results []
      in graph\<lparr>wl_nodes := map (\<lambda>n. case n of AssetNode i a m q \<Rightarrow> AssetNode i a m (map_of latest (a_urn a)) | _ \<Rightarrow> n)
            (wl_nodes graph)\<rparr>)"

section \<open>Building the graph\<close>

record build_state =
  bs_pipelines :: "lineage_node list"
  bs_assets :: "(string \<times> data_asset) list"
  bs_use :: "(string \<times> string list) list"
  bs_edges :: "lineage_edge list"
  bs_columns :: "column_edge list"

definition pipeline_id :: "pipeline_version \<Rightarrow> string" where
  "pipeline_id v = ''pipeline:'' @ v_rowId v"

definition asset_id :: "string \<Rightarrow> string" where
  "asset_id urn = ''asset:'' @ urn"

definition use_asset :: "string \<Rightarrow> string \<Rightarrow> build_state \<Rightarrow> build_state" where
  "use_asset urn rowId st = st\<lparr>bs_use := link urn rowId (bs_use st)\<rparr>"

definition add_binding :: "pipeline_version \<Rightarrow> asset_binding \<Rightarrow> build_state \<Rightarrow> build_state" where
  "add_binding v b st =
     (let pid = pipeline_id v; urn = a_urn (b_asset b); aid = asset_id urn;
          edge = \<lparr>le_id = pid @ '':'' @ b_nodeId b @ '':'' @ direction_str (b_direction b) @ '':'' @ b_port b,
                  le_source = (if b_direction b = Input then aid else pid),
                  le_target = (if b_direction b = Input then pid else aid),
                  le_pipelineRowId = v_rowId v, le_nodeId = b_nodeId b\<rparr>
      in use_asset urn (v_rowId v)
           (st\<lparr>bs_assets := AList.update urn (b_asset b) (bs_assets st), bs_edges := bs_edges st @ [edge]\<rparr>))"

text \<open>The pattern \<open>^([a-z][a-z0-9+.-]*):\<close>, ignoring case.\<close>

definition urn_scheme :: "string \<Rightarrow> string option" where
  "urn_scheme urn =
     (let run = takeWhile (\<lambda>c. is_alpha c \<or> is_num c \<or> c \<in> set ''+.-'') urn; rest = drop (length run) urn
      in if run \<noteq> [] \<and> is_alpha (hd run) \<and> starts_with '':'' rest then Some run else None)"

definition urn_name :: "string \<Rightarrow> string" where
  "urn_name urn = (let parts = filter (\<lambda>p. p \<noteq> []) (split_char (CHR ''/'') urn) in if parts = [] then urn else last parts)"

definition trigger_asset :: "string \<Rightarrow> data_asset" where
  "trigger_asset urn = asset urn (nullish (urn_scheme urn) ''data'') ''trigger'' (urn_name urn) Stream None"

definition add_asset_trigger :: "pipeline_version \<Rightarrow> build_state \<Rightarrow> build_state" where
  "add_asset_trigger v st =
     (case p_trigger (v_definition v) of
        Some (AssetTrigger urn) \<Rightarrow>
          (let pid = pipeline_id v; aid = asset_id urn;
               st1 = (if map_of (bs_assets st) urn = None
                      then st\<lparr>bs_assets := AList.update urn (trigger_asset urn) (bs_assets st)\<rparr> else st);
               st2 = (if \<exists>e\<in>set (bs_edges st1). le_source e = aid \<and> le_target e = pid then st1
                      else st1\<lparr>bs_edges := bs_edges st1 @
                        [\<lparr>le_id = ''asset-trigger:'' @ pid @ '':'' @ urn, le_source = aid, le_target = pid,
                          le_pipelineRowId = v_rowId v, le_nodeId = ''trigger''\<rparr>]\<rparr>)
           in use_asset urn (v_rowId v) st2)
      | _ \<Rightarrow> st)"

subsection \<open>Column lineage\<close>

text \<open>\<open>Object.entries\<close> of a JSON value: the entries of an object, the elements of an array and the
  characters of a text under their index, nothing for a number or a boolean.\<close>

fun json_entries :: "json \<Rightarrow> (string \<times> json) list" where
  "json_entries (JObj es) = es"
| "json_entries (JArr js) = map (\<lambda>(i, j). (nat_str i, j)) (indexed js)"
| "json_entries (JStr s) = map (\<lambda>(i, c). (nat_str i, JStr [c])) (indexed s)"
| "json_entries _ = []"

definition identity_fields :: "contract_field list \<Rightarrow> map_field_lineage list" where
  "identity_fields fs = map (\<lambda>f. \<lparr>ml_outputField = cf_name f, ml_inputFields = [cf_name f]\<rparr>) fs"

text \<open>The configured rename mapping: \<open>None\<close> when its text does not parse.\<close>

definition rename_entries :: "pipeline_node \<Rightarrow> (string \<times> json) list option" where
  "rename_entries node =
     (case obj_get (n_config node) ''mapping'' of
        None \<Rightarrow> Some []
      | Some (JStr raw) \<Rightarrow> map_option json_entries (parse raw)
      | Some j \<Rightarrow> Some (json_entries j))"

definition rename_mapping :: "contract_field list \<Rightarrow> (string \<times> json) list \<Rightarrow> map_field_lineage list" where
  "rename_mapping outFields es =
     map (\<lambda>(from, to). \<lparr>ml_outputField = to_string to, ml_inputFields = [from]\<rparr>) es
       @ identity_fields (filter (\<lambda>f. JStr (cf_name f) \<notin> snd ` set es) outFields)"

definition expression_text :: "pipeline_node \<Rightarrow> string" where
  "expression_text node =
     (case obj_get (n_config node) ''expression'' of None \<Rightarrow> '''' | Some JNull \<Rightarrow> '''' | Some j \<Rightarrow> to_string j)"

text \<open>The field mapping of a pipeline and the transform it comes from.\<close>

definition column_mapping :: "pipeline_node list \<Rightarrow> contract_field list
    \<Rightarrow> projection_error + map_field_lineage list \<times> string option" where
  "column_mapping nodes outFields =
     (let maps = filter (\<lambda>n. n_activityType n = ''transform.map'') nodes;
          renames = filter (\<lambda>n. n_activityType n = ''transform.rename'') nodes
      in case maps of
           [m] \<Rightarrow> (case deriveMapFieldLineage (expression_text m) of
                    Inl e \<Rightarrow> Inl e
                  | Inr ls \<Rightarrow> Inr (ls, Some (n_id m)))
         | [] \<Rightarrow>
             (case renames of
                [r] \<Rightarrow> (case rename_entries r of
                         None \<Rightarrow> Inr ([], None)
                       | Some es \<Rightarrow> Inr (rename_mapping outFields es, Some (n_id r)))
              | [] \<Rightarrow> Inr (identity_fields outFields, None)
              | _ \<Rightarrow> Inr ([], None))
         | _ \<Rightarrow> Inr ([], None))"

definition column_edges_of :: "pipeline_version \<Rightarrow> string \<Rightarrow> string \<Rightarrow> map_field_lineage list \<times> string option \<Rightarrow> column_edge list" where
  "column_edges_of v inUrn outUrn m =
     concat (map (\<lambda>l. map (\<lambda>inputField.
       \<lparr>co_id = v_rowId v @ '':'' @ inputField @ '':'' @ ml_outputField l, co_pipelineRowId = v_rowId v,
        co_sourceAssetUrn = inUrn, co_sourceField = inputField,
        co_targetAssetUrn = outUrn, co_targetField = ml_outputField l,
        co_transformNodeId = truthy (snd m)\<rparr>) (ml_inputFields l)) (fst m))"

definition column_edges :: "pipeline_version \<Rightarrow> asset_binding list \<Rightarrow> projection_error + column_edge list" where
  "column_edges v bindings =
     (case (filter (\<lambda>b. b_direction b = Input) bindings, filter (\<lambda>b. b_direction b = Output) bindings) of
        ([i], [out]) \<Rightarrow>
          (case column_mapping (p_nodes (v_definition v)) (nullish (a_schema (b_asset out)) []) of
             Inl e \<Rightarrow> Inl e
           | Inr m \<Rightarrow> Inr (column_edges_of v (a_urn (b_asset i)) (a_urn (b_asset out)) m))
      | _ \<Rightarrow> Inr [])"

subsection \<open>The construction\<close>

definition add_version :: "(string \<Rightarrow> url option) \<Rightarrow> pipeline_version \<Rightarrow> build_state \<Rightarrow> projection_error + build_state" where
  "add_version url_of v st =
     (let bindings = deriveAssetBindings url_of (v_definition v);
          st1 = st\<lparr>bs_pipelines := bs_pipelines st @ [PipelineNode (pipeline_id v) (lineage_pipeline.truncate v)]\<rparr>;
          st2 = add_asset_trigger v (fold (add_binding v) bindings st1)
      in case column_edges v bindings of
           Inl e \<Rightarrow> Inl e
         | Inr cs \<Rightarrow> Inr (st2\<lparr>bs_columns := bs_columns st2 @ cs\<rparr>))"

fun add_versions :: "(string \<Rightarrow> url option) \<Rightarrow> pipeline_version list \<Rightarrow> build_state \<Rightarrow> projection_error + build_state" where
  "add_versions url_of [] st = Inr st"
| "add_versions url_of (v # vs) st =
     (case add_version url_of v st of Inl e \<Rightarrow> Inl e | Inr st' \<Rightarrow> add_versions url_of vs st')"

text \<open>The pattern \<open>^pipeline\.(?:completed|failed|cancelled)\.(.+)$\<close>.\<close>

definition strip_prefix :: "string \<Rightarrow> string \<Rightarrow> string option" where
  "strip_prefix p s = (if starts_with p s then Some (drop (length p) s) else None)"

definition event_pipeline :: "string \<Rightarrow> string option" where
  "event_pipeline topic =
     (case List.map_filter (\<lambda>p. strip_prefix p topic)
             [''pipeline.completed.'', ''pipeline.failed.'', ''pipeline.cancelled.''] of
        [] \<Rightarrow> None
      | key # _ \<Rightarrow> if key \<noteq> [] \<and> newline \<notin> set key \<and> CHR 0x0D \<notin> set key then Some key else None)"

definition version_key :: "string \<Rightarrow> string \<Rightarrow> string" where
  "version_key pipelineKey environment = pipelineKey @ '':'' @ environment"

definition event_edges :: "(string \<times> string) list \<Rightarrow> pipeline_version \<Rightarrow> lineage_edge list" where
  "event_edges byKey v =
     (case p_trigger (v_definition v) of
        Some (Event topic) \<Rightarrow>
          (case Option.bind (event_pipeline topic) (\<lambda>k. map_of byKey (version_key k (v_environment v))) of
             None \<Rightarrow> []
           | Some upstream \<Rightarrow>
               [\<lparr>le_id = ''pipeline-event:'' @ upstream @ '':'' @ pipeline_id v, le_source = upstream,
                 le_target = pipeline_id v, le_pipelineRowId = v_rowId v, le_nodeId = ''trigger''\<rparr>])
      | _ \<Rightarrow> [])"

definition buildWorkspaceLineage :: "(string \<Rightarrow> url option) \<Rightarrow> pipeline_version list \<Rightarrow> projection_error + workspace_lineage" where
  "buildWorkspaceLineage url_of versions =
     (let byKey = map_from (map (\<lambda>v. (version_key (v_pipelineKey v) (v_environment v), pipeline_id v)) versions)
      in case add_versions url_of versions
             \<lparr>bs_pipelines = [], bs_assets = [], bs_use = [], bs_edges = [], bs_columns = []\<rparr> of
           Inl e \<Rightarrow> Inl e
         | Inr st \<Rightarrow>
             (let edges = bs_edges st @ concat (map (event_edges byKey) versions);
                  assetNodes = map (\<lambda>(urn, a). AssetNode (asset_id urn) a None None) (bs_assets st)
              in Inr \<lparr>wl_nodes = bs_pipelines st @ assetNodes, wl_edges = edges, wl_columnEdges = bs_columns st,
                      wl_stats = \<lparr>st_pipelines = length versions, st_assets = length (bs_assets st),
                        st_links = length edges, st_sharedAssets = shared_count (bs_use st),
                        st_columnLinks = length (bs_columns st), st_externalJobs = 0\<rparr>\<rparr>))"

section \<open>The invariant of the construction\<close>

definition asset_keys :: "build_state \<Rightarrow> string set" where
  "asset_keys st = fst ` set (bs_assets st)"

definition known_ids :: "build_state \<Rightarrow> string set" where
  "known_ids st = ln_id ` set (bs_pipelines st) \<union> asset_id ` asset_keys st"

text \<open>What a version uses: the assets it binds and the asset that triggers it.\<close>

definition uses_asset :: "(string \<Rightarrow> url option) \<Rightarrow> pipeline_version \<Rightarrow> string \<Rightarrow> bool" where
  "uses_asset url_of v urn \<longleftrightarrow> (\<exists>b\<in>set (deriveAssetBindings url_of (v_definition v)). a_urn (b_asset b) = urn)
     \<or> p_trigger (v_definition v) = Some (AssetTrigger urn)"

definition state_ok :: "build_state \<Rightarrow> bool" where
  "state_ok st \<longleftrightarrow> distinct (map fst (bs_assets st)) \<and> distinct (map fst (bs_use st))
     \<and> (\<forall>(urn, rows)\<in>set (bs_use st). distinct rows)
     \<and> (\<forall>e\<in>set (bs_edges st). {le_source e, le_target e} \<subseteq> known_ids st)
     \<and> (\<forall>c\<in>set (bs_columns st). {co_sourceAssetUrn c, co_targetAssetUrn c} \<subseteq> asset_keys st)"

named_theorems build_steps \<open>the steps of the construction\<close>

lemma in_update: "x \<in> set (AList.update k v m) \<Longrightarrow> x = (k, v) \<or> x \<in> set m"
  by (induction m) (auto split: if_splits)

lemma fst_update [simp]: "fst ` set (AList.update k v m) = insert k (fst ` set m)"
  using js_map.set_keys_upd[of k v m] by simp

lemma multi_get_in: "distinct (map fst m) \<Longrightarrow> multi_get m k = [] \<or> (k, multi_get m k) \<in> set m"
  by (auto simp: multi_get_def split: option.splits)

lemma state_ok_use [build_steps]: "state_ok st \<Longrightarrow> state_ok (use_asset urn row st)"
proof -
  assume ok: "state_ok st"
  have "distinct (multi_get (bs_use st) urn)"
    using ok multi_get_in[of "bs_use st" urn] by (auto simp: state_ok_def)
  then have "\<forall>(urn, rows)\<in>set (link urn row (bs_use st)). distinct rows"
    using ok by (auto simp: link_def state_ok_def dest!: in_update)
  moreover have "distinct (map fst (link urn row (bs_use st)))"
    using ok by (simp add: link_def state_ok_def js_map.distinct_upd)
  ultimately show ?thesis using ok by (simp add: state_ok_def use_asset_def known_ids_def asset_keys_def)
qed

lemma use_asset_simps [simp]:
  "bs_pipelines (use_asset urn row st) = bs_pipelines st" "bs_assets (use_asset urn row st) = bs_assets st"
  "bs_edges (use_asset urn row st) = bs_edges st" "bs_columns (use_asset urn row st) = bs_columns st"
  "known_ids (use_asset urn row st) = known_ids st" "asset_keys (use_asset urn row st) = asset_keys st"
  by (simp_all add: use_asset_def known_ids_def asset_keys_def)

lemma state_ok_asset:
  assumes "state_ok st" and "bs_assets st' = AList.update urn a (bs_assets st)" and "bs_use st' = bs_use st"
    and "bs_pipelines st' = bs_pipelines st" and "bs_columns st' = bs_columns st"
    and "\<forall>e\<in>set (bs_edges st') - set (bs_edges st). {le_source e, le_target e} \<subseteq> known_ids st'"
  shows "state_ok st'"
proof -
  have k: "asset_keys st' = insert urn (asset_keys st)" "known_ids st' = insert (asset_id urn) (known_ids st)"
    using assms(2,4) by (auto simp: asset_keys_def known_ids_def)
  moreover have "distinct (map fst (bs_assets st'))"
    using assms(1,2) by (simp add: state_ok_def js_map.distinct_upd)
  moreover have "\<forall>e\<in>set (bs_edges st). {le_source e, le_target e} \<subseteq> known_ids st'"
    using assms(1) k by (auto simp: state_ok_def)
  then have "\<forall>e\<in>set (bs_edges st'). {le_source e, le_target e} \<subseteq> known_ids st'"
    using assms(6) by blast
  moreover have "\<forall>c\<in>set (bs_columns st'). {co_sourceAssetUrn c, co_targetAssetUrn c} \<subseteq> asset_keys st'"
    using assms(1,5) k by (auto simp: state_ok_def)
  ultimately show ?thesis using assms(1,3) unfolding state_ok_def by simp
qed

lemma add_binding_steps [build_steps]:
  assumes pid: "pipeline_id v \<in> ln_id ` set (bs_pipelines st)" and ok: "state_ok st"
  shows "state_ok (add_binding v b st)"
proof -
  let ?urn = "a_urn (b_asset b)"
  have "state_ok (st\<lparr>bs_assets := AList.update ?urn (b_asset b) (bs_assets st), bs_edges := bs_edges st @ [e]\<rparr>)"
    if "{le_source e, le_target e} \<subseteq> {pipeline_id v, asset_id ?urn}" for e
    using pid that by (intro state_ok_asset[OF ok, of _ ?urn "b_asset b"]) (auto simp: known_ids_def asset_keys_def)
  then show ?thesis
    unfolding add_binding_def Let_def by (intro state_ok_use) (cases "b_direction b"; simp add: insert_commute)
qed

lemma add_binding_simps [simp]:
  "bs_pipelines (add_binding v b st) = bs_pipelines st" "bs_columns (add_binding v b st) = bs_columns st"
  "asset_keys (add_binding v b st) = insert (a_urn (b_asset b)) (asset_keys st)"
  "bs_use (add_binding v b st) = link (a_urn (b_asset b)) (v_rowId v) (bs_use st)"
  by (auto simp: add_binding_def Let_def asset_keys_def use_asset_def)

lemma fold_binding_simps [simp]:
  "bs_pipelines (fold (add_binding v) bs st) = bs_pipelines st" "bs_columns (fold (add_binding v) bs st) = bs_columns st"
  "asset_keys (fold (add_binding v) bs st) = (\<lambda>b. a_urn (b_asset b)) ` set bs \<union> asset_keys st"
  by (induction bs arbitrary: st) auto

lemma fold_binding_ok [build_steps]:
  "pipeline_id v \<in> ln_id ` set (bs_pipelines st) \<Longrightarrow> state_ok st \<Longrightarrow> state_ok (fold (add_binding v) bs st)"
proof (induction bs arbitrary: st)
  case (Cons b bs)
  have "state_ok (fold (add_binding v) bs (add_binding v b st))"
    using Cons.prems by (intro Cons.IH add_binding_steps) simp_all
  then show ?case by simp
qed simp

lemma fold_binding_use:
  "set (multi_get (bs_use (fold (add_binding v) bs st)) urn)
   = set (multi_get (bs_use st) urn) \<union> {v_rowId v | b. b \<in> set bs \<and> a_urn (b_asset b) = urn}"
  by (induction bs arbitrary: st) (auto simp: multi_get_link)

lemma asset_trigger_steps [build_steps]:
  assumes "pipeline_id v \<in> ln_id ` set (bs_pipelines st)" and ok: "state_ok st"
  shows "state_ok (add_asset_trigger v st)"
proof (cases "\<exists>urn. p_trigger (v_definition v) = Some (AssetTrigger urn)")
  case False
  then show ?thesis using ok by (auto simp: add_asset_trigger_def split: option.splits trigger.splits)
next
  case True
  then obtain urn where t: "p_trigger (v_definition v) = Some (AssetTrigger urn)" by blast
  let ?st1 = "if map_of (bs_assets st) urn = None then st\<lparr>bs_assets := AList.update urn (trigger_asset urn) (bs_assets st)\<rparr> else st"
  have 1: "state_ok ?st1"
  proof (cases "map_of (bs_assets st) urn = None")
    case True
    have "state_ok (st\<lparr>bs_assets := AList.update urn (trigger_asset urn) (bs_assets st)\<rparr>)"
      by (rule state_ok_asset[OF ok]) simp_all
    with True show ?thesis by simp
  next
    case False
    show ?thesis by (subst if_not_P[OF False]) (rule ok)
  qed
  have "urn \<in> asset_keys ?st1"
  proof (cases "map_of (bs_assets st) urn = None")
    case False
    then show ?thesis using js_map.get_keys[of "bs_assets st" urn] by (simp add: asset_keys_def)
  qed (simp add: asset_keys_def)
  moreover have "pipeline_id v \<in> ln_id ` set (bs_pipelines ?st1)" using assms(1) by simp
  ultimately have "asset_id urn \<in> known_ids ?st1" "pipeline_id v \<in> known_ids ?st1"
    by (simp_all add: known_ids_def)
  then have "state_ok (?st1\<lparr>bs_edges := bs_edges ?st1 @ [\<lparr>le_id = i, le_source = asset_id urn,
      le_target = pipeline_id v, le_pipelineRowId = r, le_nodeId = n\<rparr>]\<rparr>)" for i r n
    using 1 unfolding state_ok_def known_ids_def asset_keys_def by simp
  with 1 show ?thesis by (auto simp: add_asset_trigger_def t Let_def intro!: state_ok_use)
qed

lemma asset_trigger_simps [simp]:
  "bs_pipelines (add_asset_trigger v st) = bs_pipelines st" "bs_columns (add_asset_trigger v st) = bs_columns st"
  by (simp_all add: add_asset_trigger_def Let_def split: option.split trigger.split)

lemma asset_trigger_keys: "asset_keys st \<subseteq> asset_keys (add_asset_trigger v st)"
  by (auto simp: add_asset_trigger_def Let_def asset_keys_def split: option.split trigger.split)

lemma asset_trigger_use:
  "set (multi_get (bs_use (add_asset_trigger v st)) urn)
   = set (multi_get (bs_use st) urn) \<union> (if p_trigger (v_definition v) = Some (AssetTrigger urn) then {v_rowId v} else {})"
  by (auto simp: add_asset_trigger_def Let_def use_asset_def multi_get_link split: option.split trigger.split if_splits)

lemma column_edges_assets:
  "column_edges v bs = Inr cs \<Longrightarrow> c \<in> set cs \<Longrightarrow>
   {co_sourceAssetUrn c, co_targetAssetUrn c} \<subseteq> (\<lambda>b. a_urn (b_asset b)) ` set bs"
proof -
  assume c: "column_edges v bs = Inr cs" "c \<in> set cs"
  obtain i out where io: "filter (\<lambda>b. b_direction b = Input) bs = [i]" "filter (\<lambda>b. b_direction b = Output) bs = [out]"
    using c by (auto simp: column_edges_def split: list.splits)
  then have "i \<in> set bs" "out \<in> set bs" by (metis filter_is_subset in_mono list.set_intros(1))+
  moreover have "co_sourceAssetUrn c = a_urn (b_asset i)" "co_targetAssetUrn c = a_urn (b_asset out)"
    using c io by (auto simp: column_edges_def column_edges_of_def split: sum.splits)
  ultimately show ?thesis by simp
qed

lemma add_version_Inr:
  assumes "add_version url_of v st = Inr st'" and ok: "state_ok st"
  shows "state_ok st'" (is ?ok)
    and "bs_pipelines st' = bs_pipelines st @ [PipelineNode (pipeline_id v) (lineage_pipeline.truncate v)]" (is ?pipes)
    and "set (multi_get (bs_use st') urn) = set (multi_get (bs_use st) urn) \<union> {v_rowId v | x::unit. uses_asset url_of v urn}" (is ?use)
proof -
  let ?bs = "deriveAssetBindings url_of (v_definition v)"
  let ?st1 = "st\<lparr>bs_pipelines := bs_pipelines st @ [PipelineNode (pipeline_id v) (lineage_pipeline.truncate v)]\<rparr>"
  let ?st2 = "add_asset_trigger v (fold (add_binding v) ?bs ?st1)"
  obtain cs where cs: "column_edges v ?bs = Inr cs" and st': "st' = ?st2\<lparr>bs_columns := bs_columns ?st2 @ cs\<rparr>"
    using assms(1) by (auto simp: add_version_def Let_def split: sum.splits)
  have "state_ok ?st1" using ok by (auto simp: state_ok_def known_ids_def asset_keys_def)
  then have "state_ok ?st2" by (intro build_steps) simp_all
  moreover have "{co_sourceAssetUrn c, co_targetAssetUrn c} \<subseteq> asset_keys ?st2" if "c \<in> set cs" for c
    using column_edges_assets[OF cs that] asset_trigger_keys[of "fold (add_binding v) ?bs ?st1" v] by auto
  ultimately show ?ok unfolding st' state_ok_def known_ids_def asset_keys_def by auto
  show ?pipes by (simp add: st')
  show ?use by (auto simp: st' asset_trigger_use fold_binding_use uses_asset_def)
qed

lemma add_versions_Inr:
  assumes "add_versions url_of vs st = Inr st'" and "state_ok st"
  shows "state_ok st' \<and> bs_pipelines st' = bs_pipelines st @ map (\<lambda>v. PipelineNode (pipeline_id v) (lineage_pipeline.truncate v)) vs
    \<and> set (multi_get (bs_use st') urn) = set (multi_get (bs_use st) urn) \<union> v_rowId ` {v \<in> set vs. uses_asset url_of v urn}"
  using assms
proof (induction vs arbitrary: st)
  case (Cons v vs)
  then obtain st1 where st1: "add_version url_of v st = Inr st1" "add_versions url_of vs st1 = Inr st'"
    by (auto split: sum.splits)
  note a = add_version_Inr[OF st1(1) Cons.prems(2)]
  from Cons.IH[OF st1(2) a(1)] a(2,3) show ?case by auto
qed simp

lemma start_ok:
  "state_ok \<lparr>bs_pipelines = [], bs_assets = [], bs_use = [], bs_edges = [], bs_columns = []\<rparr>"
  by (simp add: state_ok_def)

lemma event_edges_known:
  assumes "e \<in> set (event_edges byKey v)"
  shows "le_target e = pipeline_id v \<and> le_source e \<in> ran (map_of byKey)"
proof -
  obtain topic where t: "p_trigger (v_definition v) = Some (Event topic)"
    using assms by (cases "p_trigger (v_definition v)") (auto simp: event_edges_def split: trigger.splits)
  show ?thesis
  proof (cases "Option.bind (event_pipeline topic) (\<lambda>k. map_of byKey (version_key k (v_environment v)))")
    case None
    with assms show ?thesis by (simp add: event_edges_def t)
  next
    case (Some upstream)
    with assms have "le_target e = pipeline_id v" "le_source e = upstream" by (simp_all add: event_edges_def t)
    with Some show ?thesis by (auto simp: bind_eq_Some_conv intro: ranI)
  qed
qed

lemma build_Inr:
  assumes "buildWorkspaceLineage url_of vs = Inr g"
  obtains st byKey where "state_ok st"
    and "wl_nodes g = map (\<lambda>v. PipelineNode (pipeline_id v) (lineage_pipeline.truncate v)) vs
           @ map (\<lambda>(urn, a). AssetNode (asset_id urn) a None None) (bs_assets st)"
    and "wl_edges g = bs_edges st @ concat (map (event_edges byKey) vs)" and "ran (map_of byKey) \<subseteq> pipeline_id ` set vs"
    and "wl_columnEdges g = bs_columns st" and "known_ids st = ln_id ` set (wl_nodes g)"
    and "wl_stats g = \<lparr>st_pipelines = length vs, st_assets = length (bs_assets st), st_links = length (wl_edges g),
           st_sharedAssets = shared_count (bs_use st), st_columnLinks = length (bs_columns st), st_externalJobs = 0\<rparr>"
    and "\<forall>urn. set (multi_get (bs_use st) urn) = v_rowId ` {v \<in> set vs. uses_asset url_of v urn}"
proof -
  let ?byKey = "map_from (map (\<lambda>v. (version_key (v_pipelineKey v) (v_environment v), pipeline_id v)) vs)"
  let ?st0 = "\<lparr>bs_pipelines = [], bs_assets = [], bs_use = [], bs_edges = [], bs_columns = []\<rparr>"
  obtain st where st: "add_versions url_of vs ?st0 = Inr st"
    and g: "g = \<lparr>wl_nodes = bs_pipelines st @ map (\<lambda>(urn, a). AssetNode (asset_id urn) a None None) (bs_assets st),
      wl_edges = bs_edges st @ concat (map (event_edges ?byKey) vs), wl_columnEdges = bs_columns st,
      wl_stats = \<lparr>st_pipelines = length vs, st_assets = length (bs_assets st),
        st_links = length (bs_edges st @ concat (map (event_edges ?byKey) vs)), st_sharedAssets = shared_count (bs_use st),
        st_columnLinks = length (bs_columns st), st_externalJobs = 0\<rparr>\<rparr>"
    using assms by (auto simp: buildWorkspaceLineage_def Let_def split: sum.splits)
  note i = add_versions_Inr[OF st start_ok]
  show ?thesis
  proof (rule that[of st ?byKey])
    show "ran (map_of ?byKey) \<subseteq> pipeline_id ` set vs"
    proof
      fix x
      assume "x \<in> ran (map_of ?byKey)"
      then obtain k where "map_of ?byKey k = Some x" by (auto simp: ran_def)
      from map_from_in[OF this] show "x \<in> pipeline_id ` set vs" by auto
    qed
    show "known_ids st = ln_id ` set (wl_nodes g)"
      by (force simp: known_ids_def asset_keys_def g image_iff)
    show "\<forall>urn. set (multi_get (bs_use st) urn) = v_rowId ` {v \<in> set vs. uses_asset url_of v urn}"
      using i by simp
  qed (use i in \<open>simp_all add: g\<close>)
qed

section \<open>Properties\<close>

text \<open>C7: the workspace graph is closed: every edge joins two of its nodes, every column edge two of
  its assets; and there is one node per pipeline version and one per asset.\<close>

theorem workspace_closed:
  assumes "buildWorkspaceLineage url_of versions = Inr g"
  shows "(\<forall>e\<in>set (wl_edges g). {le_source e, le_target e} \<subseteq> ln_id ` set (wl_nodes g))
    \<and> (\<forall>c\<in>set (wl_columnEdges g). {asset_id (co_sourceAssetUrn c), asset_id (co_targetAssetUrn c)} \<subseteq> ln_id ` set (wl_nodes g))
    \<and> (distinct (map v_rowId versions) \<longrightarrow> distinct (map ln_id (wl_nodes g)))"
proof (rule build_Inr[OF assms])
  fix st byKey
  assume ok: "state_ok st" and n: "wl_nodes g = map (\<lambda>v. PipelineNode (pipeline_id v) (lineage_pipeline.truncate v)) versions
           @ map (\<lambda>(urn, a). AssetNode (asset_id urn) a None None) (bs_assets st)"
    and e: "wl_edges g = bs_edges st @ concat (map (event_edges byKey) versions)"
    and r: "ran (map_of byKey) \<subseteq> pipeline_id ` set versions"
    and c: "wl_columnEdges g = bs_columns st" and k: "known_ids st = ln_id ` set (wl_nodes g)"
  have pids: "pipeline_id ` set versions \<subseteq> ln_id ` set (wl_nodes g)" by (force simp: n)
  have "{le_source x, le_target x} \<subseteq> ln_id ` set (wl_nodes g)" if "x \<in> set (bs_edges st)" for x
    using that ok unfolding state_ok_def k by blast
  moreover have "{le_source x, le_target x} \<subseteq> ln_id ` set (wl_nodes g)"
    if "v \<in> set versions" "x \<in> set (event_edges byKey v)" for v x
    using event_edges_known[OF that(2)] that(1) pids r by auto
  ultimately have edges: "\<forall>x\<in>set (wl_edges g). {le_source x, le_target x} \<subseteq> ln_id ` set (wl_nodes g)"
    unfolding e by auto
  have "asset_id ` asset_keys st \<subseteq> ln_id ` set (wl_nodes g)" using k by (auto simp: known_ids_def)
  moreover have "\<forall>x\<in>set (bs_columns st). {co_sourceAssetUrn x, co_targetAssetUrn x} \<subseteq> asset_keys st"
    using ok by (simp add: state_ok_def)
  ultimately have cols: "\<forall>x\<in>set (wl_columnEdges g).
      {asset_id (co_sourceAssetUrn x), asset_id (co_targetAssetUrn x)} \<subseteq> ln_id ` set (wl_nodes g)"
    unfolding c by blast
  have "map ln_id (wl_nodes g) = map (\<lambda>v. ''pipeline:'' @ v_rowId v) versions @ map (\<lambda>x. ''asset:'' @ fst x) (bs_assets st)"
    by (simp add: n pipeline_id_def asset_id_def split_def comp_def)
  moreover have "distinct (map (\<lambda>v. ''pipeline:'' @ v_rowId v) versions)" if "distinct (map v_rowId versions)"
    using that by (simp add: distinct_map inj_on_def)
  moreover have "distinct (map (\<lambda>x. ''asset:'' @ fst x) (bs_assets st))"
    using ok by (simp add: state_ok_def distinct_map inj_on_def)
  ultimately have "distinct (map v_rowId versions) \<longrightarrow> distinct (map ln_id (wl_nodes g))" by auto
  with edges cols show ?thesis by blast
qed

lemma shared_count_eq:
  assumes "distinct (map fst uses)" and "\<forall>(k, rows)\<in>set uses. distinct rows"
  shows "shared_count uses = card {k. card (set (multi_get uses k)) > 1}"
proof -
  have get: "multi_get uses k = rows" if "(k, rows) \<in> set uses" for k rows
    using that assms(1) by (simp add: multi_get_def)
  have c: "card (set rows) = length rows" if "(k, rows) \<in> set uses" for k rows
    using that assms(2) by (auto intro: distinct_card)
  have "shared_count uses = length (map fst (filter (\<lambda>e. length (snd e) > 1) uses))"
    by (simp add: shared_count_def)
  also have "\<dots> = card (set (map fst (filter (\<lambda>e. length (snd e) > 1) uses)))"
    using assms(1) by (intro distinct_card[symmetric]) (simp add: distinct_map_filter)
  also have "set (map fst (filter (\<lambda>e. length (snd e) > 1) uses)) = {k. card (set (multi_get uses k)) > 1}"
  proof -
    have "\<exists>rows. (k, rows) \<in> set uses \<and> length rows > 1" if "card (set (multi_get uses k)) > 1" for k
    proof -
      have "multi_get uses k \<noteq> []" using that by auto
      then obtain rows where "(k, rows) \<in> set uses" "multi_get uses k = rows"
        by (auto simp: multi_get_def split: option.splits dest: map_of_SomeD)
      with that c show ?thesis by metis
    qed
    then show ?thesis using get c by (force simp: image_iff)
  qed
  finally show ?thesis .
qed

text \<open>The number of shared assets is the number of assets that two different pipeline rows use,
  by a binding or by an asset trigger.\<close>

theorem shared_assets_exact:
  assumes "buildWorkspaceLineage url_of versions = Inr g"
  shows "st_sharedAssets (wl_stats g)
    = card {urn. \<exists>v\<in>set versions. \<exists>w\<in>set versions. v_rowId v \<noteq> v_rowId w \<and> uses_asset url_of v urn \<and> uses_asset url_of w urn}"
proof (rule build_Inr[OF assms])
  fix st byKey
  assume ok: "state_ok st" and s: "wl_stats g = \<lparr>st_pipelines = length versions, st_assets = length (bs_assets st),
      st_links = length (wl_edges g), st_sharedAssets = shared_count (bs_use st), st_columnLinks = length (bs_columns st),
      st_externalJobs = 0\<rparr>"
    and u: "\<forall>urn. set (multi_get (bs_use st) urn) = v_rowId ` {v \<in> set versions. uses_asset url_of v urn}"
  have two: "card X > 1 \<longleftrightarrow> (\<exists>a\<in>X. \<exists>b\<in>X. a \<noteq> b)" if "finite X" for X :: "string set"
    using that card_le_Suc0_iff_eq[OF that] by auto
  have fin: "finite (v_rowId ` {v \<in> set versions. uses_asset url_of v urn})" for urn by simp
  have "shared_count (bs_use st) = card {k. card (set (multi_get (bs_use st) k)) > 1}"
    using ok by (intro shared_count_eq) (simp_all add: state_ok_def)
  also have "{k. card (set (multi_get (bs_use st) k)) > 1}
      = {urn. \<exists>v\<in>set versions. \<exists>w\<in>set versions. v_rowId v \<noteq> v_rowId w \<and> uses_asset url_of v urn \<and> uses_asset url_of w urn}"
    unfolding u[rule_format] two[OF fin] by blast
  finally show ?thesis by (simp add: s)
qed

lemma add_versions_Inl:
  "(\<exists>e. add_versions url_of vs st = Inl e)
     \<longleftrightarrow> (\<exists>v\<in>set vs. \<exists>e. column_edges v (deriveAssetBindings url_of (v_definition v)) = Inl e)"
proof (induction vs arbitrary: st)
  case (Cons v vs)
  show ?case
  proof (cases "column_edges v (deriveAssetBindings url_of (v_definition v))")
    case (Inl e)
    then show ?thesis by (simp add: add_version_def Let_def)
  next
    case (Inr cs)
    then obtain st' where "add_version url_of v st = Inr st'" by (simp add: add_version_def Let_def)
    with Inr Cons.IH[of st'] show ?thesis by simp
  qed
qed simp

lemma column_mapping_Inl:
  "(\<exists>e. column_mapping nodes fs = Inl e)
     \<longleftrightarrow> (\<exists>m e. filter (\<lambda>n. n_activityType n = ''transform.map'') nodes = [m] \<and> deriveMapFieldLineage (expression_text m) = Inl e)"
  by (auto simp: column_mapping_def Let_def split: list.split sum.split option.split)

lemma column_edges_Inl:
  "(\<exists>e. column_edges v bs = Inl e)
     \<longleftrightarrow> length (filter (\<lambda>b. b_direction b = Input) bs) = 1 \<and> length (filter (\<lambda>b. b_direction b = Output) bs) = 1
       \<and> (\<exists>m e. filter (\<lambda>n. n_activityType n = ''transform.map'') (p_nodes (v_definition v)) = [m]
            \<and> deriveMapFieldLineage (expression_text m) = Inl e)"
proof -
  have "(\<exists>e. column_edges v bs = Inl e)
      \<longleftrightarrow> (\<exists>i out e. filter (\<lambda>b. b_direction b = Input) bs = [i] \<and> filter (\<lambda>b. b_direction b = Output) bs = [out]
           \<and> column_mapping (p_nodes (v_definition v)) (nullish (a_schema (b_asset out)) []) = Inl e)"
    by (auto simp: column_edges_def split: list.splits sum.splits)
  also have "\<dots> \<longleftrightarrow> (\<exists>i out. filter (\<lambda>b. b_direction b = Input) bs = [i] \<and> filter (\<lambda>b. b_direction b = Output) bs = [out]
      \<and> (\<exists>m e. filter (\<lambda>n. n_activityType n = ''transform.map'') (p_nodes (v_definition v)) = [m]
           \<and> deriveMapFieldLineage (expression_text m) = Inl e))"
    by (simp add: column_mapping_Inl)
  also have "\<dots> \<longleftrightarrow> length (filter (\<lambda>b. b_direction b = Input) bs) = 1 \<and> length (filter (\<lambda>b. b_direction b = Output) bs) = 1
      \<and> (\<exists>m e. filter (\<lambda>n. n_activityType n = ''transform.map'') (p_nodes (v_definition v)) = [m]
           \<and> deriveMapFieldLineage (expression_text m) = Inl e)"
    by (auto simp: length_Suc_conv)
  finally show ?thesis .
qed

text \<open>C39: The construction throws exactly when some version has one input, one output and a single map
  node whose projection has a malformed field; then the whole workspace has no graph.\<close>

theorem build_fails_iff:
  "(\<exists>e. buildWorkspaceLineage url_of versions = Inl e)
     \<longleftrightarrow> (\<exists>v\<in>set versions.
           length (filter (\<lambda>b. b_direction b = Input) (deriveAssetBindings url_of (v_definition v))) = 1
         \<and> length (filter (\<lambda>b. b_direction b = Output) (deriveAssetBindings url_of (v_definition v))) = 1
         \<and> (\<exists>m e. filter (\<lambda>n. n_activityType n = ''transform.map'') (p_nodes (v_definition v)) = [m]
              \<and> deriveMapFieldLineage (expression_text m) = Inl e))"
proof -
  have "(\<exists>e. buildWorkspaceLineage url_of versions = Inl e)
      \<longleftrightarrow> (\<exists>e. add_versions url_of versions
            \<lparr>bs_pipelines = [], bs_assets = [], bs_use = [], bs_edges = [], bs_columns = []\<rparr> = Inl e)"
    by (auto simp: buildWorkspaceLineage_def Let_def split: sum.splits)
  then show ?thesis by (simp add: add_versions_Inl column_edges_Inl)
qed

lemma keep_latest_newest:
  assumes "\<forall>r\<in>set rs. date_parse (q_evaluatedAt r) \<noteq> None"
    and "\<forall>u q. map_of m u = Some q \<longrightarrow> date_parse (q_evaluatedAt q) \<noteq> None"
  shows "case map_of (fold keep_latest rs m) u of
      None \<Rightarrow> map_of m u = None \<and> (\<forall>r\<in>set rs. q_assetUrn r \<noteq> u)
    | Some q \<Rightarrow> (map_of m u = Some q \<or> (q \<in> set rs \<and> q_assetUrn q = u)) \<and> date_parse (q_evaluatedAt q) \<noteq> None
        \<and> (\<forall>r. (r \<in> set rs \<and> q_assetUrn r = u) \<or> map_of m u = Some r
              \<longrightarrow> the (date_parse (q_evaluatedAt r)) \<le> the (date_parse (q_evaluatedAt q)))"
  using assms
proof (induction rs arbitrary: m)
  case Nil
  then show ?case by (auto split: option.split)
next
  case (Cons r rs)
  let ?m = "keep_latest r m"
  have k: "map_of ?m u' = (if u' = q_assetUrn r \<and> (\<forall>q. map_of m u' = Some q \<longrightarrow> later (q_evaluatedAt r) (q_evaluatedAt q))
      then Some r else map_of m u')" for u'
    by (auto simp: keep_latest_def update_conv' split: option.splits)
  have "\<forall>u q. map_of ?m u = Some q \<longrightarrow> date_parse (q_evaluatedAt q) \<noteq> None"
    using Cons.prems by (auto simp: k split: if_splits)
  then have ih: "case map_of (fold keep_latest rs ?m) u of
      None \<Rightarrow> map_of ?m u = None \<and> (\<forall>r\<in>set rs. q_assetUrn r \<noteq> u)
    | Some q \<Rightarrow> (map_of ?m u = Some q \<or> (q \<in> set rs \<and> q_assetUrn q = u)) \<and> date_parse (q_evaluatedAt q) \<noteq> None
        \<and> (\<forall>r. (r \<in> set rs \<and> q_assetUrn r = u) \<or> map_of ?m u = Some r
              \<longrightarrow> the (date_parse (q_evaluatedAt r)) \<le> the (date_parse (q_evaluatedAt q)))"
    using Cons.prems by (intro Cons.IH) auto
  obtain d where d: "date_parse (q_evaluatedAt r) = Some d" using Cons.prems by auto
  show ?case
  proof (cases "q_assetUrn r = u")
    case False
    with ih show ?thesis by (auto simp: k split: option.splits)
  next
    case True
    show ?thesis
    proof (cases "map_of m u")
      case None
      then have "map_of ?m u = Some r" using True by (simp add: k)
      with ih None True show ?thesis by (auto split: option.splits)
    next
      case (Some q0)
      then have "date_parse (q_evaluatedAt q0) \<noteq> None" using Cons.prems(2) by blast
      then obtain d0 where d0: "date_parse (q_evaluatedAt q0) = Some d0" by blast
      have "map_of ?m u = Some (if d > d0 then r else q0)"
        using True Some by (simp add: k later_def d d0)
      with ih Some True d d0 show ?thesis by (auto split: option.splits if_splits)
    qed
  qed
qed

text \<open>When every evaluation date is a date, each asset shows its newest quality result, whatever
  the order of the results, and no result only when it has none.\<close>

theorem quality_newest:
  assumes "\<forall>r\<in>set results. date_parse (q_evaluatedAt r) \<noteq> None"
    and "AssetNode i a m q \<in> set (wl_nodes (attachLatestQuality graph results))"
  shows "case q of
      None \<Rightarrow> \<forall>r\<in>set results. q_assetUrn r \<noteq> a_urn a
    | Some x \<Rightarrow> x \<in> set results \<and> q_assetUrn x = a_urn a
        \<and> (\<forall>r\<in>set results. q_assetUrn r = a_urn a \<longrightarrow>
              the (date_parse (q_evaluatedAt r)) \<le> the (date_parse (q_evaluatedAt x)))"
proof -
  have "q = map_of (fold keep_latest results []) (a_urn a)"
    using assms(2) by (auto simp: attachLatestQuality_def Let_def split: lineage_node.splits)
  with keep_latest_newest[OF assms(1), of "[]" "a_urn a"] show ?thesis
    by (auto split: option.splits)
qed

section \<open>A sample workspace\<close>

text \<open>Two rows of one pipeline key that read the same table, the second one with a map.\<close>

abbreviation sample_version :: "string \<Rightarrow> string \<Rightarrow> pipeline_version" where
  "sample_version row expression \<equiv>
     \<lparr>v_rowId = row, v_pipelineKey = ''orders'', v_name = ''Orders'', v_version = 1, v_status = ''active'',
      v_environment = ''prod'', v_metadata = None, v_slo = None,
      v_definition = bare_pipeline ''p''
        [bare_node ''src'' Source ''postgres.fetch'' [(''table'', JStr ''raw'')],
         bare_node ''map'' Transform ''transform.map'' [(''expression'', JStr expression)],
         bare_node ''sink'' Sink ''sink.postgres'' [(''table'', JStr ''clean'')]]
        [bare_edge ''e1'' ''src'' ''map'', bare_edge ''e2'' ''map'' ''sink'']\<rparr>"

abbreviation sample_graph :: workspace_lineage where
  "sample_graph \<equiv> \<lparr>
     wl_nodes = [PipelineNode ''pipeline:r1'' (lineage_pipeline.truncate (sample_version ''r1'' ''({ id: r.id })'')),
       AssetNode ''asset:postgres://default/raw'' (asset ''postgres://default/raw'' ''postgres'' ''default'' ''raw'' Table None) None None,
       AssetNode ''asset:postgres://default/clean'' (asset ''postgres://default/clean'' ''postgres'' ''default'' ''clean'' Table None) None None],
     wl_edges = [\<lparr>le_id = ''pipeline:r1:src:input:input'', le_source = ''asset:postgres://default/raw'', le_target = ''pipeline:r1'',
         le_pipelineRowId = ''r1'', le_nodeId = ''src''\<rparr>,
       \<lparr>le_id = ''pipeline:r1:sink:output:output'', le_source = ''pipeline:r1'', le_target = ''asset:postgres://default/clean'',
         le_pipelineRowId = ''r1'', le_nodeId = ''sink''\<rparr>],
     wl_columnEdges = [\<lparr>co_id = ''r1:id:id'', co_pipelineRowId = ''r1'', co_sourceAssetUrn = ''postgres://default/raw'',
       co_sourceField = ''id'', co_targetAssetUrn = ''postgres://default/clean'', co_targetField = ''id'', co_transformNodeId = Some ''map''\<rparr>],
     wl_stats = \<lparr>st_pipelines = 1, st_assets = 2, st_links = 2, st_sharedAssets = 0, st_columnLinks = 1, st_externalJobs = 0\<rparr>\<rparr>"

lemma sample_build:
  "buildWorkspaceLineage (\<lambda>_. None) [sample_version ''r1'' ''({ id: r.id })''] = Inr sample_graph"
  by code_simp

theorem workspace_closed_witness:
  "distinct (map ln_id (wl_nodes sample_graph))"
  using workspace_closed[OF sample_build] by simp

theorem shared_assets_exact_witness:
  "st_sharedAssets (wl_stats sample_graph)
    = card {urn. \<exists>v\<in>set [sample_version ''r1'' ''({ id: r.id })'']. \<exists>w\<in>set [sample_version ''r1'' ''({ id: r.id })''].
        v_rowId v \<noteq> v_rowId w \<and> uses_asset (\<lambda>_. None) v urn \<and> uses_asset (\<lambda>_. None) w urn}"
  by (rule shared_assets_exact[OF sample_build])

theorem quality_newest_witness:
  "let q = (\<lambda>day. \<lparr>q_assetUrn = ''postgres://default/clean'', q_executionId = ''x'', q_pipelineRowId = ''r1'', q_nodeId = ''sink'',
      q_status = ''passed'', q_passedCount = 1, q_failedCount = 0, q_evaluatedAt = ''2024-03-0'' @ day, q_quarantineAvailable = None\<rparr>)
   in q ''2'' \<in> set [q ''1'', q ''2''] \<and> the (date_parse (q_evaluatedAt (q ''1''))) \<le> the (date_parse (q_evaluatedAt (q ''2'')))"
proof -
  let ?q = "\<lambda>day. \<lparr>q_assetUrn = ''postgres://default/clean'', q_executionId = ''x'', q_pipelineRowId = ''r1'', q_nodeId = ''sink'',
      q_status = ''passed'', q_passedCount = 1, q_failedCount = 0, q_evaluatedAt = ''2024-03-0'' @ day, q_quarantineAvailable = None\<rparr>"
  let ?a = "asset ''postgres://default/clean'' ''postgres'' ''default'' ''clean'' Table None"
  have d: "list_all (\<lambda>r. date_parse (q_evaluatedAt r) \<noteq> None) [?q ''1'', ?q ''2'']" by code_simp
  have "wl_nodes (attachLatestQuality sample_graph [?q ''1'', ?q ''2''])
      = take 2 (wl_nodes sample_graph) @ [AssetNode ''asset:postgres://default/clean'' ?a None (Some (?q ''2''))]" by code_simp
  then have n: "AssetNode ''asset:postgres://default/clean'' ?a None (Some (?q ''2''))
      \<in> set (wl_nodes (attachLatestQuality sample_graph [?q ''1'', ?q ''2'']))" by simp
  from quality_newest[OF _ n] d show ?thesis by (simp add: asset_def)
qed

text \<open>The filters of \<open>WorkspaceLineage\<close> on the sample.\<close>

theorem filter_induced_witness:
  "wl_edges (filterWorkspaceLineage sample_graph
      \<lparr>lf_query = Some ''RAW '', lf_domains = None, lf_layers = None, lf_focusId = None, lf_depth = None\<rparr>)
    = [hd (wl_edges sample_graph)]"
proof -
  let ?f = "\<lparr>lf_query = Some ''RAW '', lf_domains = None, lf_layers = None, lf_focusId = None, lf_depth = None\<rparr>"
  have "\<not> no_filter ?f" by code_simp
  note i = conjunct1[OF filter_induced[OF this, of sample_graph]]
  have n: "wl_nodes (filterWorkspaceLineage sample_graph ?f) = take 2 (wl_nodes sample_graph)" by code_simp
  show ?thesis unfolding i n by simp
qed

theorem filter_layers_witness:
  "length (wl_nodes (filterWorkspaceLineage sample_graph
      \<lparr>lf_query = None, lf_domains = None, lf_layers = Some [None], lf_focusId = None, lf_depth = None\<rparr>)) = 3"
  by (subst filter_layers) (simp_all add: linked_def asset_def)

end
