(* ===== verification/LineageDiff.thy ===== *)
theory LineageDiff
  imports LineageBindings
begin

text \<open>
  The comparison of two versions of a pipeline in \<open>packages/shared/src/lineage.ts\<close>:
  \<open>diffPipelineLineage\<close>, the reviewer's list of lineage changes with a severity each, and
  \<open>comparePublishedContracts\<close>, the check that a new version keeps the contracts of the
  outputs already published.
\<close>

datatype severity = Info | Warning | Breaking

text \<open>The rank the sort uses: the most severe first.\<close>

fun severity_rank :: "severity \<Rightarrow> nat" where
  "severity_rank Breaking = 0"
| "severity_rank Warning = 1"
| "severity_rank Info = 2"

lemma severity_rank_inj [simp]: "severity_rank a = severity_rank b \<longleftrightarrow> a = b"
  by (cases a; cases b) simp_all

text \<open>The order of severities, most severe first.\<close>

instantiation severity :: linorder
begin

definition less_eq_severity :: "severity \<Rightarrow> severity \<Rightarrow> bool" where
  "less_eq_severity a b \<longleftrightarrow> severity_rank a \<le> severity_rank b"

definition less_severity :: "severity \<Rightarrow> severity \<Rightarrow> bool" where
  "less_severity a b \<longleftrightarrow> severity_rank a < severity_rank b"

instance
  by standard (auto simp: less_eq_severity_def less_severity_def antisym)

end

datatype change_kind =
    AssetAdded | AssetRemoved | LayerChanged | FieldAdded | FieldRemoved
  | FieldTypeChanged | FieldNullabilityChanged | TriggerChanged | OwnerChanged | DomainChanged

record lineage_change =
  lc_kind :: change_kind
  lc_severity :: severity
  lc_message :: string
  lc_assetUrn :: "string option"
  lc_direction :: "direction option"
  lc_field :: "string option"
  lc_before :: "string option"
  lc_after :: "string option"

section \<open>The list of changes\<close>

definition binding_map :: "(string \<Rightarrow> url option) \<Rightarrow> pipeline_definition option \<Rightarrow> (string \<times> asset_binding) list" where
  "binding_map url_of d =
     map_from (map (\<lambda>b. (direction_str (b_direction b) @ '':'' @ a_urn (b_asset b), b))
       (case d of None \<Rightarrow> [] | Some defn \<Rightarrow> deriveAssetBindings url_of defn))"

definition asset_change :: "change_kind \<Rightarrow> severity \<Rightarrow> asset_binding \<Rightarrow> string \<Rightarrow> lineage_change" where
  "asset_change kind sev b msg =
     \<lparr>lc_kind = kind, lc_severity = sev, lc_message = msg, lc_assetUrn = Some (a_urn (b_asset b)),
      lc_direction = Some (b_direction b), lc_field = None, lc_before = None, lc_after = None\<rparr>"

definition output_severity :: "asset_binding \<Rightarrow> severity" where
  "output_severity b = (if b_direction b = Output then Breaking else Warning)"

definition removed_changes :: "(string \<times> asset_binding) list \<Rightarrow> (string \<times> asset_binding) list \<Rightarrow> lineage_change list" where
  "removed_changes before after =
     map (\<lambda>(key, b). asset_change AssetRemoved (output_severity b) b
            (direction_str (b_direction b) @ '' asset removed: '' @ a_urn (b_asset b)))
       (filter (\<lambda>(key, b). map_of after key = None) before)"

definition layer_name :: "layer option \<Rightarrow> string" where
  "layer_name l = nullish (map_option layer_str l) ''external''"

definition field_map :: "data_asset \<Rightarrow> (string \<times> contract_field) list" where
  "field_map a = map_from (map (\<lambda>f. (cf_name f, f)) (nullish (a_schema a) []))"

definition is_nullable :: "contract_field \<Rightarrow> bool" where
  "is_nullable f = nullish (cf_nullable f) False"

definition null_word :: "contract_field \<Rightarrow> string" where
  "null_word f = (if is_nullable f then ''nullable'' else ''required'')"

text \<open>One field of the prior schema against the new fields.\<close>

definition old_field_changes :: "asset_binding \<Rightarrow> (string \<times> contract_field) list \<Rightarrow> string \<times> contract_field \<Rightarrow> lineage_change list" where
  "old_field_changes b newFields e =
     (let nm = fst e; fld = snd e; urn = a_urn (b_asset b) in
      case map_of newFields nm of
        None \<Rightarrow>
          [(asset_change FieldRemoved (output_severity b) b (urn @ '': field removed: '' @ nm))
             \<lparr>lc_field := Some nm, lc_before := Some (cf_type fld)\<rparr>]
      | Some r \<Rightarrow>
          if cf_type fld \<noteq> cf_type r then
            [(asset_change FieldTypeChanged (output_severity b) b
                (urn @ '': '' @ nm @ '' changed '' @ cf_type fld @ '' '' @ u_arrow @ '' '' @ cf_type r))
               \<lparr>lc_field := Some nm, lc_before := Some (cf_type fld), lc_after := Some (cf_type r)\<rparr>]
          else if is_nullable fld \<noteq> is_nullable r then
            [(asset_change FieldNullabilityChanged
                (if b_direction b = Output \<and> \<not> is_nullable fld \<and> is_nullable r then Breaking else Warning) b
                (urn @ '': '' @ nm @ '' changed '' @ null_word fld @ '' '' @ u_arrow @ '' '' @ null_word r))
               \<lparr>lc_field := Some nm, lc_before := Some (null_word fld), lc_after := Some (null_word r)\<rparr>]
          else [])"

definition new_field_changes :: "asset_binding \<Rightarrow> (string \<times> contract_field) list \<Rightarrow> string \<times> contract_field \<Rightarrow> lineage_change list" where
  "new_field_changes b oldFields e =
     (if map_of oldFields (fst e) = None then
        [(asset_change FieldAdded Info b (a_urn (b_asset b) @ '': field added: '' @ fst e))
           \<lparr>lc_field := Some (fst e), lc_after := Some (cf_type (snd e))\<rparr>]
      else [])"

definition layer_changes :: "asset_binding \<Rightarrow> asset_binding \<Rightarrow> lineage_change list" where
  "layer_changes prior b =
     (let l = a_layer (b_asset prior); l' = a_layer (b_asset b) in
      if l \<noteq> l' then
        [(asset_change LayerChanged Warning b
            (a_urn (b_asset b) @ '': layer changed '' @ layer_name l @ '' '' @ u_arrow @ '' '' @ layer_name l'))
           \<lparr>lc_before := Some (layer_name l), lc_after := Some (layer_name l')\<rparr>]
      else [])"

definition after_changes :: "(string \<times> asset_binding) list \<Rightarrow> string \<times> asset_binding \<Rightarrow> lineage_change list" where
  "after_changes before e =
     (let b = snd e in
      case map_of before (fst e) of
        None \<Rightarrow> [asset_change AssetAdded Info b (direction_str (b_direction b) @ '' asset added: '' @ a_urn (b_asset b))]
      | Some prior \<Rightarrow>
          (let oldFields = field_map (b_asset prior); newFields = field_map (b_asset b)
           in layer_changes prior b
                @ concat (map (old_field_changes b newFields) oldFields)
                @ concat (map (new_field_changes b oldFields) newFields)))"

definition plain_change :: "change_kind \<Rightarrow> severity \<Rightarrow> string \<Rightarrow> string option \<Rightarrow> string option \<Rightarrow> lineage_change" where
  "plain_change kind sev msg before after =
     \<lparr>lc_kind = kind, lc_severity = sev, lc_message = msg, lc_assetUrn = None, lc_direction = None,
      lc_field = None, lc_before = before, lc_after = after\<rparr>"

definition scalar_changes :: "change_kind \<Rightarrow> string \<Rightarrow> string option \<Rightarrow> string option \<Rightarrow> lineage_change list" where
  "scalar_changes kind label oldValue newValue =
     (if nullish oldValue '''' \<noteq> nullish newValue '''' then
        [plain_change kind Info
           (label @ '' changed '' @ or_else oldValue ''Unassigned'' @ '' '' @ u_arrow @ '' '' @ or_else newValue ''Unassigned'')
           oldValue newValue]
      else [])"

definition trigger_text :: "pipeline_definition \<Rightarrow> string option" where
  "trigger_text d = map_option (\<lambda>t. stringify (trigger_json t)) (p_trigger d)"

definition trigger_changes :: "pipeline_definition option \<Rightarrow> pipeline_definition \<Rightarrow> lineage_change list" where
  "trigger_changes previous candidate =
     (case previous of
        None \<Rightarrow> []
      | Some p \<Rightarrow>
          if trigger_text p \<noteq> trigger_text candidate then
            [plain_change TriggerChanged Warning ''Pipeline trigger changed'' (trigger_text p) (trigger_text candidate)]
          else [])"

definition owner_of :: "pipeline_definition option \<Rightarrow> string option" where
  "owner_of d = Option.bind (Option.bind d p_metadata) md_owner"

definition domain_of :: "pipeline_definition option \<Rightarrow> string option" where
  "domain_of d = Option.bind (Option.bind d p_metadata) md_domain"

definition all_changes :: "(string \<Rightarrow> url option) \<Rightarrow> pipeline_definition option \<Rightarrow> pipeline_definition \<Rightarrow> lineage_change list" where
  "all_changes url_of previous candidate =
     (let before = binding_map url_of previous; after = binding_map url_of (Some candidate)
      in removed_changes before after
           @ concat (map (after_changes before) after)
           @ scalar_changes OwnerChanged ''Owner'' (owner_of previous) (owner_of (Some candidate))
           @ scalar_changes DomainChanged ''Domain'' (domain_of previous) (domain_of (Some candidate))
           @ trigger_changes previous candidate)"

definition diffPipelineLineage :: "(string \<Rightarrow> url option) \<Rightarrow> pipeline_definition option \<Rightarrow> pipeline_definition \<Rightarrow> lineage_change list" where
  "diffPipelineLineage url_of previous candidate =
     stable_sort_by (\<lambda>c. severity_rank (lc_severity c)) (all_changes url_of previous candidate)"

section \<open>The contract check\<close>

datatype issue_kind = AssetGone | ContractGone | FieldGone | TypeChanged | NullableWeakened

record contract_issue =
  ci_assetUrn :: string
  ci_kind :: issue_kind
  ci_field :: "string option"
  ci_message :: string

definition published :: "(string \<Rightarrow> url option) \<Rightarrow> pipeline_definition \<Rightarrow> (string \<times> contract_field list option) list" where
  "published url_of d =
     map_from (map (\<lambda>b. (a_urn (b_asset b), a_schema (b_asset b)))
       (filter (\<lambda>b. b_direction b = Output) (deriveAssetBindings url_of d)))"

definition field_issues :: "string \<Rightarrow> (string \<times> contract_field) list \<Rightarrow> contract_field \<Rightarrow> contract_issue list" where
  "field_issues urn nextFields fld =
     (let issue = (\<lambda>kind msg. \<lparr>ci_assetUrn = urn, ci_kind = kind, ci_field = Some (cf_name fld), ci_message = urn @ '': '' @ msg\<rparr>) in
      case map_of nextFields (cf_name fld) of
        None \<Rightarrow> [issue FieldGone (''field removed: '' @ cf_name fld)]
      | Some r \<Rightarrow>
          if to_lower (js_trim (cf_type r)) \<noteq> to_lower (js_trim (cf_type fld)) then
            [issue TypeChanged (cf_name fld @ '' changed '' @ cf_type fld @ '' '' @ u_arrow @ '' '' @ cf_type r)]
          else if \<not> is_nullable fld \<and> is_nullable r then
            [issue NullableWeakened (cf_name fld @ '' became nullable'')]
          else [])"

definition asset_issues :: "(string \<times> contract_field list option) list \<Rightarrow> string \<times> contract_field list option \<Rightarrow> contract_issue list" where
  "asset_issues after e =
     (let urn = fst e; fields = nullish (snd e) [] in
      if fields = [] then []
      else case map_of after urn of
        None \<Rightarrow> [\<lparr>ci_assetUrn = urn, ci_kind = AssetGone, ci_field = None, ci_message = ''Published asset removed: '' @ urn\<rparr>]
      | Some schema \<Rightarrow>
          (let next = nullish schema [] in
           if next = [] then
             [\<lparr>ci_assetUrn = urn, ci_kind = ContractGone, ci_field = None, ci_message = ''Data contract removed: '' @ urn\<rparr>]
           else concat (map (field_issues urn (map_from (map (\<lambda>f. (cf_name f, f)) next))) fields)))"

definition comparePublishedContracts :: "(string \<Rightarrow> url option) \<Rightarrow> pipeline_definition \<Rightarrow> pipeline_definition \<Rightarrow> contract_issue list" where
  "comparePublishedContracts url_of previous candidate =
     concat (map (asset_issues (published url_of candidate)) (published url_of previous))"

section \<open>What the changes mean\<close>

lemmas change_defs = asset_change_def plain_change_def output_severity_def

lemma in_map_from: "(k, v) \<in> set (map_from es) \<longleftrightarrow> map_of (map_from es) k = Some v"
  by (metis distinct_map_from map_of_SomeD map_of_is_SomeI)

lemma in_binding_map: "(k, b) \<in> set (binding_map url_of d) \<longleftrightarrow> map_of (binding_map url_of d) k = Some b"
  unfolding binding_map_def by (rule in_map_from)

lemma in_field_map: "(k, b) \<in> set (field_map a) \<longleftrightarrow> map_of (field_map a) k = Some b"
  unfolding field_map_def by (rule in_map_from)

lemma binding_map_key:
  "map_of (binding_map url_of d) k = Some b \<Longrightarrow> k = direction_str (b_direction b) @ '':'' @ a_urn (b_asset b)"
  unfolding binding_map_def by (drule map_from_in) auto

text \<open>What a consumer of a published asset sees of a version: the fields of the output, by name.\<close>

definition output_view :: "(string \<Rightarrow> url option) \<Rightarrow> pipeline_definition \<Rightarrow> string \<Rightarrow> (string \<Rightarrow> contract_field option) option" where
  "output_view url_of d urn =
     map_option (\<lambda>b. map_of (field_map (b_asset b))) (map_of (binding_map url_of (Some d)) (''output:'' @ urn))"

text \<open>A promise about a field that its replacement does not keep.\<close>

definition field_broken :: "contract_field \<Rightarrow> contract_field option \<Rightarrow> bool" where
  "field_broken f r = (case r of None \<Rightarrow> True | Some r \<Rightarrow> cf_type f \<noteq> cf_type r \<or> (\<not> is_nullable f \<and> is_nullable r))"

definition is_breaking :: "lineage_change list \<Rightarrow> bool" where
  "is_breaking cs \<longleftrightarrow> (\<exists>c\<in>set cs. lc_severity c = Breaking)"

lemma is_breaking_append [simp]: "is_breaking (xs @ ys) \<longleftrightarrow> is_breaking xs \<or> is_breaking ys"
  by (auto simp: is_breaking_def)

lemma is_breaking_concat: "is_breaking (concat (map f xs)) \<longleftrightarrow> (\<exists>x\<in>set xs. is_breaking (f x))"
  by (auto simp: is_breaking_def)

lemma is_breaking_field:
  "is_breaking (old_field_changes b newFields (nm, f)) \<longleftrightarrow> b_direction b = Output \<and> field_broken f (map_of newFields nm)"
  by (auto simp: is_breaking_def old_field_changes_def field_broken_def change_defs Let_def split: option.split)

lemma is_breaking_removed:
  "is_breaking (removed_changes before after)
     \<longleftrightarrow> (\<exists>(k, b)\<in>set before. b_direction b = Output \<and> map_of after k = None)"
proof -
  have "is_breaking (removed_changes before after) \<longleftrightarrow>
      (\<exists>e\<in>set (filter (\<lambda>(key, b). map_of after key = None) before). output_severity (snd e) = Breaking)"
    by (simp add: is_breaking_def removed_changes_def asset_change_def split_def)
  then show ?thesis by (auto simp: output_severity_def split: if_splits)
qed

lemma not_breaking:
  "\<not> is_breaking (layer_changes p b)" "\<not> is_breaking (new_field_changes b ofs e)"
  "\<not> is_breaking (scalar_changes k l o1 n1)" "\<not> is_breaking (trigger_changes pd cd)"
  by (auto simp: is_breaking_def layer_changes_def new_field_changes_def scalar_changes_def trigger_changes_def
    change_defs Let_def split: option.splits if_splits)

lemma is_breaking_after:
  "is_breaking (after_changes before (k, b)) \<longleftrightarrow> b_direction b = Output
     \<and> (\<exists>prior. map_of before k = Some prior
          \<and> (\<exists>nm f. map_of (field_map (b_asset prior)) nm = Some f \<and> field_broken f (map_of (field_map (b_asset b)) nm)))"
proof (cases "map_of before k")
  case None
  then show ?thesis by (simp add: after_changes_def is_breaking_def change_defs)
next
  case (Some prior)
  have "is_breaking (concat (map (old_field_changes b nf) (field_map (b_asset prior))))
      \<longleftrightarrow> b_direction b = Output \<and> (\<exists>nm f. map_of (field_map (b_asset prior)) nm = Some f \<and> field_broken f (map_of nf nm))" for nf
    by (simp add: is_breaking_concat Bex_def split_paired_Ex is_breaking_field in_field_map) blast
  with Some show ?thesis by (simp add: after_changes_def Let_def not_breaking is_breaking_concat)
qed

lemma binding_map_output:
  "map_of (binding_map url_of d) k = Some b \<Longrightarrow> b_direction b = Output \<longleftrightarrow> (\<exists>u. k = ''output:'' @ u)"
  by (drule binding_map_key) (cases "b_direction b"; simp)

lemma output_keys:
  "(\<exists>k b. map_of (binding_map url_of d) k = Some b \<and> b_direction b = Output \<and> Q k b)
     \<longleftrightarrow> (\<exists>u b. map_of (binding_map url_of d) (''output:'' @ u) = Some b \<and> Q (''output:'' @ u) b)"
  using binding_map_output by blast

lemma severities_sorted: "is_breaking (diffPipelineLineage url_of p c) \<longleftrightarrow> is_breaking (all_changes url_of p c)"
  by (simp add: is_breaking_def diffPipelineLineage_def)

lemma diff_breaks:
  "(\<exists>x\<in>set (diffPipelineLineage url_of (Some p) c). lc_severity x = Breaking)
     \<longleftrightarrow> (\<exists>urn v. output_view url_of p urn = Some v
           \<and> (case output_view url_of c urn of
                None \<Rightarrow> True
              | Some v' \<Rightarrow> \<exists>nm f. v nm = Some f \<and> field_broken f (v' nm)))"
  (is "?L \<longleftrightarrow> ?R")
proof -
  let ?B = "binding_map url_of (Some p)" and ?A = "binding_map url_of (Some c)"
  let ?bad = "\<lambda>prior b. \<exists>nm f. map_of (field_map (b_asset prior)) nm = Some f \<and> field_broken f (map_of (field_map (b_asset b)) nm)"
  have "?L \<longleftrightarrow> is_breaking (all_changes url_of (Some p) c)"
    using severities_sorted by (simp add: is_breaking_def)
  also have "\<dots> \<longleftrightarrow> (\<exists>k b. map_of ?B k = Some b \<and> b_direction b = Output \<and> map_of ?A k = None)
      \<or> (\<exists>k b prior. map_of ?A k = Some b \<and> b_direction b = Output \<and> map_of ?B k = Some prior \<and> ?bad prior b)"
    by (simp add: all_changes_def Let_def not_breaking is_breaking_removed is_breaking_concat Bex_def split_paired_Ex
          is_breaking_after in_binding_map conj_ac)
  also have "\<dots> \<longleftrightarrow> (\<exists>u b. map_of ?B (''output:'' @ u) = Some b \<and> map_of ?A (''output:'' @ u) = None)
      \<or> (\<exists>u b prior. map_of ?A (''output:'' @ u) = Some b \<and> map_of ?B (''output:'' @ u) = Some prior \<and> ?bad prior b)"
    using output_keys[of url_of "Some p" "\<lambda>k b. map_of ?A k = None"]
      output_keys[of url_of "Some c" "\<lambda>k b. \<exists>prior. map_of ?B k = Some prior \<and> ?bad prior b"]
    by simp
  also have "\<dots> \<longleftrightarrow> (\<exists>u. (\<exists>b. map_of ?B (''output:'' @ u) = Some b \<and> map_of ?A (''output:'' @ u) = None)
      \<or> (\<exists>b prior. map_of ?A (''output:'' @ u) = Some b \<and> map_of ?B (''output:'' @ u) = Some prior \<and> ?bad prior b))"
    by blast
  also have "\<dots> \<longleftrightarrow> ?R"
  proof (rule ex_cong1)
    fix u
    show "(\<exists>b. map_of ?B (''output:'' @ u) = Some b \<and> map_of ?A (''output:'' @ u) = None)
      \<or> (\<exists>b prior. map_of ?A (''output:'' @ u) = Some b \<and> map_of ?B (''output:'' @ u) = Some prior \<and> ?bad prior b)
      \<longleftrightarrow> (\<exists>v. output_view url_of p u = Some v \<and> (case output_view url_of c u of None \<Rightarrow> True
            | Some v' \<Rightarrow> \<exists>nm f. v nm = Some f \<and> field_broken f (v' nm)))"
      by (cases "map_of ?B (''output:'' @ u)"; cases "map_of ?A (''output:'' @ u)") (simp_all add: output_view_def)
  qed
  finally show ?thesis .
qed

text \<open>C5: a change is reported as breaking exactly when a consumer of a published output can notice:
  the output is gone, one of its fields is gone or has another type, or a required field became
  nullable.\<close>

theorem diff_breaking_iff:
  "(\<exists>x\<in>set (diffPipelineLineage url_of (Some p) c). lc_severity x = Breaking)
     \<longleftrightarrow> (\<exists>urn v. output_view url_of p urn = Some v
           \<and> (case output_view url_of c urn of
                None \<Rightarrow> True
              | Some v' \<Rightarrow> \<exists>nm f. v nm = Some f \<and> field_broken f (v' nm)))"
  by (rule diff_breaks)

text \<open>The list of changes is ordered by severity, most severe first, and inside a severity in the
  order in which the changes were found.\<close>

theorem diff_ordered:
  "sorted (map lc_severity (diffPipelineLineage url_of previous candidate))
   \<and> filter (\<lambda>x. lc_severity x = s) (diffPipelineLineage url_of previous candidate)
       = filter (\<lambda>x. lc_severity x = s) (all_changes url_of previous candidate)"
proof -
  have "sorted (map (\<lambda>x. severity_rank (lc_severity x)) (diffPipelineLineage url_of previous candidate))"
    by (simp add: diffPipelineLineage_def)
  then have "sorted (map lc_severity (diffPipelineLineage url_of previous candidate))"
    by (simp add: sorted_map less_eq_severity_def)
  moreover have "filter (\<lambda>x. severity_rank (lc_severity x) = severity_rank s) (diffPipelineLineage url_of previous candidate)
      = filter (\<lambda>x. severity_rank (lc_severity x) = severity_rank s) (all_changes url_of previous candidate)"
    unfolding diffPipelineLineage_def by (rule stable_stable_sort)
  ultimately show ?thesis by simp
qed

text \<open>A version has no lineage change against itself.\<close>

theorem diff_self: "diffPipelineLineage url_of (Some d) d = []"
proof -
  let ?B = "binding_map url_of (Some d)"
  have removed: "removed_changes ?B ?B = []"
    unfolding removed_changes_def by (auto simp: filter_empty_conv in_binding_map)
  have "old_field_changes b (field_map a) e = [] \<and> new_field_changes b (field_map a) e = []"
    if "e \<in> set (field_map a)" for a b e
    using that by (rule_tac prod.exhaust[of e]) (simp add: old_field_changes_def new_field_changes_def in_field_map)
  then have fields: "concat (map (old_field_changes b (field_map a)) (field_map a)) = []"
    "concat (map (new_field_changes b (field_map a)) (field_map a)) = []" for a b
    by (simp_all add: concat_eq_Nil_conv)
  have "after_changes ?B e = []" if "e \<in> set ?B" for e
  proof (cases e)
    case (Pair k b)
    then have "map_of ?B k = Some b" using that by (simp add: in_binding_map)
    then show ?thesis
      unfolding Pair after_changes_def Let_def fst_conv snd_conv by (simp add: layer_changes_def fields del: concat_eq_Nil_conv)
  qed
  then have after: "concat (map (after_changes ?B) ?B) = []" by simp
  have "all_changes url_of (Some d) d = []"
    unfolding all_changes_def Let_def removed after by (simp add: scalar_changes_def trigger_changes_def)
  then show ?thesis by (simp add: diffPipelineLineage_def stable_sort_by_def)
qed

section \<open>The contract check\<close>

text \<open>A promise about a field under the looser reading of the contract check: type names are
  compared without their case and surrounding space.\<close>

definition type_name :: "contract_field \<Rightarrow> string" where
  "type_name f = to_lower (js_trim (cf_type f))"

definition field_kept :: "contract_field \<Rightarrow> contract_field \<Rightarrow> bool" where
  "field_kept f r \<longleftrightarrow> type_name r = type_name f \<and> (is_nullable r \<longrightarrow> is_nullable f)"

text \<open>The contract \<open>next\<close> offers everything that the contract \<open>promised\<close> does.\<close>

definition contract_kept :: "contract_field list \<Rightarrow> contract_field list \<Rightarrow> bool" where
  "contract_kept promised next \<longleftrightarrow> (\<forall>f\<in>set promised. \<exists>r. map_of (map_from (map (\<lambda>f. (cf_name f, f)) next)) (cf_name f) = Some r \<and> field_kept f r)"

definition contract_of :: "(string \<Rightarrow> url option) \<Rightarrow> pipeline_definition \<Rightarrow> string \<Rightarrow> contract_field list" where
  "contract_of url_of d urn = nullish (Option.bind (map_of (published url_of d) urn) id) []"

lemma field_issues_Nil:
  "field_issues urn nf f = [] \<longleftrightarrow> (\<exists>r. map_of nf (cf_name f) = Some r \<and> field_kept f r)"
  by (auto simp: field_issues_def Let_def field_kept_def type_name_def split: option.split)

lemma in_published: "(k, s) \<in> set (published url_of d) \<longleftrightarrow> map_of (published url_of d) k = Some s"
  unfolding published_def by (rule in_map_from)

lemma asset_issues_Nil:
  "asset_issues (published url_of c) (urn, s) = []
     \<longleftrightarrow> nullish s [] = [] \<or> (contract_of url_of c urn \<noteq> [] \<and> contract_kept (nullish s []) (contract_of url_of c urn))"
proof (cases "map_of (published url_of c) urn")
  case None
  then show ?thesis by (simp add: asset_issues_def contract_of_def Let_def)
next
  case (Some schema)
  then have c: "contract_of url_of c urn = nullish schema []" by (simp add: contract_of_def)
  show ?thesis
    unfolding asset_issues_def Let_def fst_conv snd_conv Some c option.case(2)
    by (simp add: field_issues_Nil contract_kept_def split: if_splits)
qed

lemma compare_Nil:
  "comparePublishedContracts url_of p c = [] \<longleftrightarrow>
    (\<forall>urn. contract_of url_of p urn \<noteq> [] \<longrightarrow>
       contract_of url_of c urn \<noteq> [] \<and> contract_kept (contract_of url_of p urn) (contract_of url_of c urn))"
proof -
  have "comparePublishedContracts url_of p c = [] \<longleftrightarrow>
      (\<forall>urn s. map_of (published url_of p) urn = Some s \<longrightarrow> asset_issues (published url_of c) (urn, s) = [])"
    unfolding comparePublishedContracts_def concat_eq_Nil_conv set_map ball_simps(9)
    by (simp add: Ball_def split_paired_All in_published)
  also have "\<dots> \<longleftrightarrow> (\<forall>urn. contract_of url_of p urn \<noteq> [] \<longrightarrow>
       contract_of url_of c urn \<noteq> [] \<and> contract_kept (contract_of url_of p urn) (contract_of url_of c urn))"
  proof (rule all_cong1)
    fix urn
    show "(\<forall>s. map_of (published url_of p) urn = Some s \<longrightarrow> asset_issues (published url_of c) (urn, s) = []) \<longleftrightarrow>
       (contract_of url_of p urn \<noteq> [] \<longrightarrow>
         contract_of url_of c urn \<noteq> [] \<and> contract_kept (contract_of url_of p urn) (contract_of url_of c urn))"
      by (cases "map_of (published url_of p) urn") (auto simp: asset_issues_Nil contract_of_def[of _ p])
  qed
  finally show ?thesis .
qed

lemma contract_kept_trans:
  "contract_kept a b \<Longrightarrow> contract_kept b c \<Longrightarrow> contract_kept a c"
  unfolding contract_kept_def
proof
  fix f
  assume ab: "\<forall>f\<in>set a. \<exists>r. map_of (map_from (map (\<lambda>f. (cf_name f, f)) b)) (cf_name f) = Some r \<and> field_kept f r"
    and bc: "\<forall>f\<in>set b. \<exists>r. map_of (map_from (map (\<lambda>f. (cf_name f, f)) c)) (cf_name f) = Some r \<and> field_kept f r"
    and f: "f \<in> set a"
  obtain r where r: "map_of (map_from (map (\<lambda>f. (cf_name f, f)) b)) (cf_name f) = Some r" "field_kept f r"
    using ab f by blast
  from map_from_in[OF r(1)] have "r \<in> set b" "cf_name r = cf_name f" by auto
  with bc obtain r' where "map_of (map_from (map (\<lambda>f. (cf_name f, f)) c)) (cf_name f) = Some r'" "field_kept r r'"
    by metis
  with r(2) show "\<exists>r. map_of (map_from (map (\<lambda>f. (cf_name f, f)) c)) (cf_name f) = Some r \<and> field_kept f r"
    by (auto simp: field_kept_def)
qed

text \<open>C27: the contract check can be run release by release: when every release keeps the contracts of
  the one before, the last keeps those of the first.\<close>

theorem contracts_transitive:
  assumes "comparePublishedContracts url_of a b = []" and "comparePublishedContracts url_of b c = []"
  shows "comparePublishedContracts url_of a c = []"
  using assms unfolding compare_Nil by (blast intro: contract_kept_trans)

lemma published_view:
  "map_of (published url_of d) urn
     = map_option (\<lambda>b. a_schema (b_asset b)) (map_of (binding_map url_of (Some d)) (''output:'' @ urn))"
proof -
  have "map_of (map (\<lambda>b. (a_urn (b_asset b), a_schema (b_asset b))) (filter (\<lambda>b. b_direction b = Output) bs)) urn
      = map_option (\<lambda>b. a_schema (b_asset b))
          (map_of (map (\<lambda>b. (direction_str (b_direction b) @ '':'' @ a_urn (b_asset b), b)) bs) (''output:'' @ urn))" for bs
  proof (induction bs)
    case (Cons b bs)
    then show ?case by (cases "b_direction b") simp_all
  qed simp
  from this[of "rev (deriveAssetBindings url_of d)"] show ?thesis
    by (simp add: published_def binding_map_def map_of_map_from rev_map rev_filter)
qed

lemma contract_of_output:
  assumes "contract_of url_of d urn \<noteq> []"
  obtains b where "map_of (binding_map url_of (Some d)) (''output:'' @ urn) = Some b"
    and "a_schema (b_asset b) = Some (contract_of url_of d urn)"
proof (cases "map_of (binding_map url_of (Some d)) (''output:'' @ urn)")
  case None
  with assms show ?thesis by (simp add: contract_of_def published_view)
next
  case (Some b)
  then have c: "contract_of url_of d urn = nullish (a_schema (b_asset b)) []"
    unfolding contract_of_def published_view Some by simp
  with assms show ?thesis by (intro that[OF Some]) (auto split: option.splits)
qed

text \<open>A breaking change of the list that names a published asset and, where there is one, a field.\<close>

definition marks :: "string \<Rightarrow> change_kind set \<Rightarrow> string option \<Rightarrow> lineage_change \<Rightarrow> bool" where
  "marks urn kinds fld x \<longleftrightarrow> lc_severity x = Breaking \<and> lc_kind x \<in> kinds \<and> lc_assetUrn x = Some urn
     \<and> lc_direction x = Some Output \<and> lc_field x = fld"

lemma set_diff: "set (diffPipelineLineage url_of p c) = set (all_changes url_of p c)"
  by (simp add: diffPipelineLineage_def)

lemma gone_output_marked:
  assumes "map_of (binding_map url_of (Some p)) (''output:'' @ urn) = Some b"
    and "map_of (binding_map url_of (Some c)) (''output:'' @ urn) = None"
  shows "\<exists>x\<in>set (diffPipelineLineage url_of (Some p) c). marks urn {AssetRemoved} None x"
proof -
  have k: "b_direction b = Output" "a_urn (b_asset b) = urn"
    using binding_map_key[OF assms(1)] by (cases "b_direction b"; simp)+
  have "(''output:'' @ urn, b) \<in> set (binding_map url_of (Some p))" using assms(1) unfolding in_binding_map .
  then have "asset_change AssetRemoved Breaking b (direction_str Output @ '' asset removed: '' @ urn)
      \<in> set (removed_changes (binding_map url_of (Some p)) (binding_map url_of (Some c)))"
    using assms(2) k by (force simp: removed_changes_def output_severity_def)
  then show ?thesis
    by (intro bexI[of _ "asset_change AssetRemoved Breaking b (direction_str Output @ '' asset removed: '' @ urn)"])
      (simp_all add: set_diff all_changes_def Let_def marks_def asset_change_def k)
qed

lemma broken_field_marked:
  assumes "map_of (binding_map url_of (Some p)) (''output:'' @ urn) = Some prior"
    and "map_of (binding_map url_of (Some c)) (''output:'' @ urn) = Some b"
    and "map_of (field_map (b_asset prior)) nm = Some f"
    and "\<exists>x\<in>set (old_field_changes b (field_map (b_asset b)) (nm, f)). marks urn kinds fld x"
  shows "\<exists>x\<in>set (diffPipelineLineage url_of (Some p) c). marks urn kinds fld x"
proof -
  have "(nm, f) \<in> set (field_map (b_asset prior))" using assms(3) unfolding in_field_map .
  then have "set (old_field_changes b (field_map (b_asset b)) (nm, f))
      \<subseteq> set (after_changes (binding_map url_of (Some p)) (''output:'' @ urn, b))"
    using assms(1) by (auto simp: after_changes_def Let_def)
  moreover have "(''output:'' @ urn, b) \<in> set (binding_map url_of (Some c))" using assms(2) unfolding in_binding_map .
  ultimately have "set (old_field_changes b (field_map (b_asset b)) (nm, f)) \<subseteq> set (all_changes url_of (Some p) c)"
    by (fastforce simp: all_changes_def Let_def)
  with assms(4) show ?thesis unfolding set_diff by blast
qed

text \<open>The kinds of change that answer to an issue about a field.\<close>

fun kinds_for :: "issue_kind \<Rightarrow> change_kind set" where
  "kinds_for FieldGone = {FieldRemoved}"
| "kinds_for TypeChanged = {FieldTypeChanged}"
| "kinds_for NullableWeakened = {FieldTypeChanged, FieldNullabilityChanged}"
| "kinds_for _ = {}"

lemma gone_field_marks:
  "map_of nf nm = None \<Longrightarrow> b_direction b = Output \<Longrightarrow>
   \<exists>x\<in>set (old_field_changes b nf (nm, f)). marks (a_urn (b_asset b)) {FieldRemoved} (Some nm) x"
  by (simp add: old_field_changes_def marks_def change_defs Let_def)

lemma field_issue_marks:
  assumes "i \<in> set (field_issues urn nf f)" and "b_direction b = Output" and "a_urn (b_asset b) = urn"
  shows "ci_kind i \<in> {FieldGone, TypeChanged, NullableWeakened} \<and> ci_field i = Some (cf_name f)
    \<and> (\<exists>x\<in>set (old_field_changes b nf (cf_name f, f)). marks urn (kinds_for (ci_kind i)) (Some (cf_name f)) x)"
  using assms by (auto simp: field_issues_def old_field_changes_def marks_def change_defs Let_def split: option.splits if_splits)

text \<open>What the list must hold for an issue of the check.\<close>

definition issue_marked :: "lineage_change list \<Rightarrow> contract_field list \<Rightarrow> contract_issue \<Rightarrow> bool" where
  "issue_marked changes promised i \<longleftrightarrow>
     (let marked = (\<lambda>kinds fld. \<exists>x\<in>set changes. marks (ci_assetUrn i) kinds fld x) in
      case ci_kind i of
        AssetGone \<Rightarrow> marked {AssetRemoved} None
      | ContractGone \<Rightarrow> promised \<noteq> [] \<and> (\<forall>f\<in>set promised. marked {FieldRemoved} (Some (cf_name f)))
      | k \<Rightarrow> ci_field i \<noteq> None \<and> marked (kinds_for k) (ci_field i))"

text \<open>C23: the two routines agree on what is unsafe, issue by issue: for an asset that is gone the review list holds the removal
  of this asset, for a contract that is gone the removal of every field it promised, and for a field that is gone, has another
  type or may be null a breaking change of this field of this asset. A prior contract names no field twice; with a field
  named twice the list looks at the last one only.\<close>

theorem contract_issue_is_breaking:
  assumes issue: "i \<in> set (comparePublishedContracts url_of p c)"
    and names: "distinct (map cf_name (contract_of url_of p (ci_assetUrn i)))"
  shows "issue_marked (diffPipelineLineage url_of (Some p) c) (contract_of url_of p (ci_assetUrn i)) i"
proof -
  obtain urn s where s: "map_of (published url_of p) urn = Some s" and i: "i \<in> set (asset_issues (published url_of c) (urn, s))"
    using issue by (auto simp: comparePublishedContracts_def in_published)
  have u: "ci_assetUrn i = urn" and ne: "nullish s [] \<noteq> []"
    using i by (auto simp: asset_issues_def field_issues_def Let_def split: if_splits option.splits)
  have old: "contract_of url_of p urn = nullish s []" using s by (simp add: contract_of_def)
  with ne obtain b where b: "map_of (binding_map url_of (Some p)) (''output:'' @ urn) = Some b"
    and sch: "a_schema (b_asset b) = Some (nullish s [])"
    using contract_of_output[of url_of p urn] by metis
  have prior: "map_of (field_map (b_asset b)) (cf_name f) = Some f" if "f \<in> set (nullish s [])" for f
    using that names unfolding u old
    by (auto simp: field_map_def sch map_from_distinct comp_def intro: map_of_is_SomeI)
  show ?thesis
  proof (cases "map_of (binding_map url_of (Some c)) (''output:'' @ urn)")
    case None
    then have "map_of (published url_of c) urn = None" by (simp add: published_view)
    then have "ci_kind i = AssetGone" using i ne by (simp add: asset_issues_def Let_def)
    then show ?thesis using gone_output_marked[OF b None] by (simp add: issue_marked_def u)
  next
    case (Some b')
    have k: "b_direction b' = Output" "a_urn (b_asset b') = urn"
      using binding_map_key[OF Some] by (cases "b_direction b'"; simp)+
    note broken = broken_field_marked[OF b Some prior]
    have next': "map_of (published url_of c) urn = Some (a_schema (b_asset b'))" using Some by (simp add: published_view)
    show ?thesis
    proof (cases "nullish (a_schema (b_asset b')) [] = []")
      case True
      then have "ci_kind i = ContractGone" using i ne next' by (simp add: asset_issues_def Let_def)
      moreover have "map_of (field_map (b_asset b')) nm = None" for nm using True by (simp add: field_map_def map_from_def)
      then have "\<exists>x\<in>set (diffPipelineLineage url_of (Some p) c). marks urn {FieldRemoved} (Some (cf_name f)) x"
        if "f \<in> set (nullish s [])" for f
        using broken[OF that] gone_field_marks[OF _ k(1)] unfolding k(2) by blast
      ultimately show ?thesis using ne by (simp add: issue_marked_def u old)
    next
      case False
      then obtain f where f: "f \<in> set (nullish s [])" "i \<in> set (field_issues urn (field_map (b_asset b')) f)"
        using i ne next' by (auto simp: asset_issues_def field_map_def Let_def)
      from broken[OF f(1)] field_issue_marks[OF f(2) k]
      have "\<exists>x\<in>set (diffPipelineLineage url_of (Some p) c). marks urn (kinds_for (ci_kind i)) (Some (cf_name f)) x" by simp
      then show ?thesis using field_issue_marks[OF f(2) k] by (auto simp: issue_marked_def u)
    qed
  qed
qed

section \<open>The properties on concrete versions\<close>

text \<open>The sample pipeline with another contract before its sink.\<close>

abbreviation orders_with :: "(string \<times> json) list \<Rightarrow> pipeline_definition" where
  "orders_with contract \<equiv> bare_pipeline ''p''
     [bare_node ''check'' Transform ''transform.contract'' [(''schemaJson'', JObj contract)],
      bare_node ''sink'' Sink ''sink.postgres'' [(''table'', JStr ''orders'')]]
     [bare_edge ''e2'' ''check'' ''sink'']"

theorem contracts_transitive_witness:
  "comparePublishedContracts (\<lambda>_. None)
     (orders_with [(''id'', JStr ''number'')])
     (orders_with [(''email'', JStr ''string?''), (''ID'', JStr ''x''), (''id'', JStr '' NUMBER'')]) = []"
proof -
  let ?a = "orders_with [(''id'', JStr ''number'')]"
  let ?b = "orders_with [(''id'', JStr ''Number''), (''email'', JStr ''string?'')]"
  let ?c = "orders_with [(''email'', JStr ''string?''), (''ID'', JStr ''x''), (''id'', JStr '' NUMBER'')]"
  have "comparePublishedContracts (\<lambda>_. None) ?a ?b = []" by code_simp
  moreover have "comparePublishedContracts (\<lambda>_. None) ?b ?c = []" by code_simp
  ultimately show ?thesis by (rule contracts_transitive)
qed

text \<open>Two fields are broken, one by its type and one by its nullability, and each has its own breaking change.\<close>

theorem contract_issue_is_breaking_witness:
  "list_all (\<lambda>i. issue_marked (diffPipelineLineage (\<lambda>_. None)
        (Some (orders_with [(''id'', JStr ''number''), (''email'', JStr ''string'')]))
        (orders_with [(''id'', JStr ''string''), (''email'', JStr ''string?'')]))
      (contract_of (\<lambda>_. None) (orders_with [(''id'', JStr ''number''), (''email'', JStr ''string'')]) (ci_assetUrn i)) i)
    (comparePublishedContracts (\<lambda>_. None)
      (orders_with [(''id'', JStr ''number''), (''email'', JStr ''string'')])
      (orders_with [(''id'', JStr ''string''), (''email'', JStr ''string?'')]))
   \<and> map ci_field (comparePublishedContracts (\<lambda>_. None)
      (orders_with [(''id'', JStr ''number''), (''email'', JStr ''string'')])
      (orders_with [(''id'', JStr ''string''), (''email'', JStr ''string?'')])) = [Some ''id'', Some ''email'']"
proof -
  let ?p = "orders_with [(''id'', JStr ''number''), (''email'', JStr ''string'')]"
  let ?c = "orders_with [(''id'', JStr ''string''), (''email'', JStr ''string?'')]"
  have "list_all (\<lambda>i. distinct (map cf_name (contract_of (\<lambda>_. None) ?p (ci_assetUrn i)))) (comparePublishedContracts (\<lambda>_. None) ?p ?c)"
    by code_simp
  then have "issue_marked (diffPipelineLineage (\<lambda>_. None) (Some ?p) ?c) (contract_of (\<lambda>_. None) ?p (ci_assetUrn i)) i"
    if "i \<in> set (comparePublishedContracts (\<lambda>_. None) ?p ?c)" for i
    using contract_issue_is_breaking[OF that] that by (simp only: list_all_iff)
  moreover have "map ci_field (comparePublishedContracts (\<lambda>_. None) ?p ?c) = [Some ''id'', Some ''email'']" by code_simp
  ultimately show ?thesis by (simp only: list_all_iff simp_thms) blast
qed

text \<open>The check reads a field that a contract names twice at both places, the list only at the last.\<close>

lemma repeated_field_unmarked:
  "let f = \<lparr>cf_name = ''id'', cf_type = ''number'', cf_nullable = None\<rparr>; g = f\<lparr>cf_type := ''string''\<rparr>;
       fields = map_from (map (\<lambda>x. (cf_name x, x)) [g])
   in map ci_kind (concat (map (field_issues ''orders'' fields) [f, g])) = [TypeChanged]
     \<and> concat (map (old_field_changes b fields) (map_from (map (\<lambda>x. (cf_name x, x)) [f, g]))) = []"
  by (simp add: field_issues_def old_field_changes_def map_from_def Let_def to_lower_def lower_char_def is_nullable_def js_trim_def trim_start_def
      trim_end_def is_space_def)

end
