(* ===== verification/Mermaid.thy ===== *)
theory Mermaid
  imports Catalog SafeExpression
begin

text \<open>
  \<open>packages/shared/src/mermaid.ts\<close>: the mapping between the graph of a pipeline and a Mermaid
  flowchart. \<open>definitionToMermaid\<close> prints one line per node and per edge;
  \<open>mermaidToDefinition\<close> reads declarations anywhere in the text, then, with every bracketed
  label removed, the edges line by line. Each regular expression of the source is a scanner
  here; next to it stands why its match is determined without backtracking.
\<close>

section \<open>Printing\<close>

function collapse_spaces :: "string \<Rightarrow> string" where
  "collapse_spaces [] = []"
| "collapse_spaces (c # cs) =
     (if is_space c then CHR '' '' # collapse_spaces (dropWhile is_space cs) else c # collapse_spaces cs)"
  by pat_completeness auto
termination collapse_spaces
  by (relation "measure length") (auto simp: le_imp_less_Suc length_dropWhile_le)

definition escapeLabel :: "string \<Rightarrow> string" where
  "escapeLabel s = js_trim (collapse_spaces
     (replace_char (CHR '')'') (CHR '' '') (replace_char (CHR ''('') (CHR '' '') (replace_char (CHR 0x22) (CHR 0x27) s))))"

definition node_line :: "pipeline_node \<Rightarrow> string" where
  "node_line n =
     ''  '' @ n_id n @ ''['' @ [CHR 0x22] @ escapeLabel (or_else (n_label n) (n_activityType n)) @ '' (''
       @ n_activityType n @ '')'' @ [CHR 0x22] @ '']''"

definition edge_line :: "pipeline_edge \<Rightarrow> string" where
  "edge_line e =
     (let cond = (case truthy (e_condition e) of
                    None \<Rightarrow> ''''
                  | Some c \<Rightarrow> ''|'' @ replace_char (CHR ''|'') (CHR ''/'') c @ ''|'')
      in ''  '' @ e_source e @ '' -->'' @ (if cond \<noteq> [] then '' '' @ cond else '''') @ '' '' @ e_target e)"

definition definitionToMermaid :: "pipeline_node list \<Rightarrow> pipeline_edge list \<Rightarrow> string" where
  "definitionToMermaid nodes edges = join [newline] (''flowchart LR'' # map node_line nodes @ map edge_line edges)"

section \<open>Reading declarations\<close>

definition defaultNodeType :: "string \<Rightarrow> node_type" where
  "defaultNodeType activityType =
     (let head = takeWhile (\<lambda>c. c \<noteq> CHR ''.'') activityType in
      if head = ''flow'' then (if ends_with ''merge'' activityType then Merge else Fork)
      else if head = ''transform'' then Transform
      else if head = ''sink'' then Sink
      else Source)"

definition id_char :: "char \<Rightarrow> bool" where
  "id_char c \<longleftrightarrow> is_alpha c \<or> is_num c \<or> c = CHR ''_'' \<or> c = CHR ''-''"

text \<open>A match of \<open>(ID)\s*\[\s*"([^"]*)"\s*\]\<close> at the head of the text: the id, the quoted text
  and the rest. What follows each repetition is not in its class, so all of them are maximal.\<close>

definition match_decl :: "string \<Rightarrow> (string \<times> string \<times> string) option" where
  "match_decl s =
     (if takeWhile id_char s = [] then None
      else case trim_start (dropWhile id_char s) of
        [] \<Rightarrow> None
      | b # r1 \<Rightarrow> if b \<noteq> CHR ''['' then None
          else case trim_start r1 of
            [] \<Rightarrow> None
          | q # r2 \<Rightarrow> if q \<noteq> CHR 0x22 then None
              else case trim_start (drop 1 (dropWhile (\<lambda>c. c \<noteq> CHR 0x22) r2)) of
                [] \<Rightarrow> None
              | e # rest \<Rightarrow> if e \<noteq> CHR '']'' then None
                  else Some (takeWhile id_char s, takeWhile (\<lambda>c. c \<noteq> CHR 0x22) r2, rest))"

lemma match_decl_shorter: "match_decl s = Some (i, raw, rest) \<Longrightarrow> length rest < length s"
proof -
  assume m: "match_decl s = Some (i, raw, rest)"
  have ts: "length (trim_start x) \<le> length x" for x by (simp add: trim_start_def length_dropWhile_le)
  from m obtain b r1 q r2 where 1: "trim_start (dropWhile id_char s) = b # r1"
    and 2: "trim_start r1 = q # r2"
    and 3: "trim_start (drop 1 (dropWhile (\<lambda>c. c \<noteq> CHR 0x22) r2)) = CHR '']'' # rest"
    by (auto simp: match_decl_def split: if_splits list.splits)
  have "length (dropWhile id_char s) \<le> length s" by (rule length_dropWhile_le)
  moreover have "Suc (length r1) \<le> length (dropWhile id_char s)" using ts[of "dropWhile id_char s"] 1 by simp
  moreover have "Suc (length r2) \<le> length r1" using ts[of r1] 2 by simp
  moreover have "Suc (length rest) \<le> length r2"
    using ts[of "drop 1 (dropWhile (\<lambda>c. c \<noteq> CHR 0x22) r2)"] length_dropWhile_le[of "\<lambda>c. c \<noteq> CHR 0x22" r2] 3
    by simp
  ultimately show ?thesis by simp
qed

function scan_decls :: "string \<Rightarrow> (string \<times> string) list" where
  "scan_decls [] = []"
| "scan_decls (c # cs) =
     (case match_decl (c # cs) of
        None \<Rightarrow> scan_decls cs
      | Some (i, raw, rest) \<Rightarrow> (i, raw) # scan_decls rest)"
  by pat_completeness auto
termination scan_decls
  by (relation "measure length") (auto dest: match_decl_shorter)

declare scan_decls.simps(2) [simp del]

text \<open>The leftmost match of \<open>\(([^)]+)\)\s*$\<close>: the text before it and the group.\<close>

fun suffix_group :: "string \<Rightarrow> (string \<times> string) option" where
  "suffix_group [] = None"
| "suffix_group (c # cs) =
     (let body = takeWhile (\<lambda>x. x \<noteq> CHR '')'') cs; after = dropWhile (\<lambda>x. x \<noteq> CHR '')'') cs in
      if c = CHR ''('' \<and> body \<noteq> [] \<and> after \<noteq> [] \<and> list_all is_space (tl after) then Some ([], body)
      else case suffix_group cs of None \<Rightarrow> None | Some (pre, g) \<Rightarrow> Some (c # pre, g))"

record parse_state =
  ps_nodes :: "(string \<times> pipeline_node) list"
  ps_edges :: "pipeline_edge list"
  ps_warnings :: "string list"

definition parsed_node :: "string \<Rightarrow> node_type \<Rightarrow> string \<Rightarrow> string \<Rightarrow> pipeline_node" where
  "parsed_node i t act label = (bare_node i t act [])\<lparr>n_label := Some label\<rparr>"

definition declare_node :: "(string \<times> catalog_entry) list \<Rightarrow> (string \<times> catalog_entry) list
    \<Rightarrow> string \<times> string \<Rightarrow> parse_state \<Rightarrow> parse_state" where
  "declare_node byType byLabel d st =
     (let i = fst d; rawLabel = snd d;
          atMatch = suffix_group rawLabel;
          act0 = (case atMatch of None \<Rightarrow> '''' | Some (_, g) \<Rightarrow> js_trim g);
          labelText = js_trim (case atMatch of None \<Rightarrow> rawLabel | Some (pre, _) \<Rightarrow> pre);
          byAct = (if act0 \<noteq> [] then map_of byType act0 else None);
          entry = (case byAct of Some e \<Rightarrow> Some e | None \<Rightarrow> map_of byLabel (to_lower labelText));
          activityType = (case (byAct, entry) of (None, Some e) \<Rightarrow> ce_activityType e | _ \<Rightarrow> act0);
          shown = or_else (Some labelText) (or_else (Some activityType) ''?'');
          warning = ''Node '' @ [CHR 0x22] @ i @ [CHR 0x22] @ '' ('' @ shown
            @ '') does not map to a known connector; set its type in the canvas.'';
          node = parsed_node i
            (case entry of Some e \<Rightarrow> ce_nodeType e | None \<Rightarrow> defaultNodeType (or_else (Some activityType) ''transform.map''))
            (or_else (Some activityType) (case entry of Some e \<Rightarrow> ce_activityType e | None \<Rightarrow> ''''))
            (or_else (Some labelText) (or_else (map_option ce_label entry) i))
      in st\<lparr>ps_nodes := AList.update i node (ps_nodes st),
            ps_warnings := ps_warnings st @ (if entry = None then [warning] else [])\<rparr>)"

section \<open>Reading edges\<close>

text \<open>\<open>src.replace(/\[[^\]]*\]/g, '')\<close>: a bracket without a closing one stays.\<close>

function strip_brackets :: "string \<Rightarrow> string" where
  "strip_brackets [] = []"
| "strip_brackets (c # cs) =
     (if c = CHR ''['' \<and> CHR '']'' \<in> set cs then strip_brackets (tl (dropWhile (\<lambda>x. x \<noteq> CHR '']'') cs))
      else c # strip_brackets cs)"
  by pat_completeness auto
termination strip_brackets
proof (relation "measure length", goal_cases)
  case (2 c cs)
  have "length (tl (dropWhile (\<lambda>x. x \<noteq> CHR '']'') cs)) \<le> length cs"
    using length_dropWhile_le[of "\<lambda>x. x \<noteq> CHR '']''" cs] by simp
  then show ?case by simp
qed simp_all

text \<open>\<open>line.split(d)\<close> for a separator of more than one character.\<close>

function split_str :: "string \<Rightarrow> string \<Rightarrow> string \<Rightarrow> string list" where
  "split_str d cur [] = [cur]"
| "split_str d cur (c # cs) =
     (if d \<noteq> [] \<and> starts_with d (c # cs) then cur # split_str d [] (drop (length d) (c # cs))
      else split_str d (cur @ [c]) cs)"
  by pat_completeness auto
termination split_str
  by (relation "measure (\<lambda>(d, cur, s). length s)") auto

text \<open>\<open>(ID)\s*$\<close>: the leftmost match starts with the longest run of id characters before the
  trailing white space.\<close>

definition left_id :: "string \<Rightarrow> string option" where
  "left_id seg =
     (let i = rev (takeWhile id_char (rev (trim_end seg))) in if i = [] then None else Some i)"

text \<open>\<open>^\s*(?:\|([^|]*)\|)?\s*(ID)\<close>: an id does not start with a bar, so the optional group is
  taken exactly when the text starts with one.\<close>

definition right_id :: "string \<Rightarrow> (string option \<times> string) option" where
  "right_id seg =
     (let s = trim_start seg;
          (cond, rest) =
            (if starts_with ''|'' s \<and> CHR ''|'' \<in> set (tl s)
             then (Some (takeWhile (\<lambda>c. c \<noteq> CHR ''|'') (tl s)), trim_start (tl (dropWhile (\<lambda>c. c \<noteq> CHR ''|'') (tl s))))
             else (None, s));
          i = takeWhile id_char rest
      in if i = [] then None else Some (cond, i))"

definition ensureNode :: "string \<Rightarrow> parse_state \<Rightarrow> parse_state" where
  "ensureNode i st =
     (if map_of (ps_nodes st) i \<noteq> None then st
      else st\<lparr>ps_nodes := AList.update i (parsed_node i Transform '''' i) (ps_nodes st),
              ps_warnings := ps_warnings st
                @ [''Node '' @ [CHR 0x22] @ i @ [CHR 0x22] @ '' is referenced by an edge but never declared.'']\<rparr>)"

definition read_edge :: "string \<Rightarrow> string \<Rightarrow> parse_state \<Rightarrow> parse_state" where
  "read_edge seg seg' st =
     (case (left_id seg, right_id seg') of
        (Some source, Some (cond, target)) \<Rightarrow>
          (let st' = ensureNode target (ensureNode source st);
               condition = truthy (map_option js_trim cond)
           in st'\<lparr>ps_edges := ps_edges st'
                @ [\<lparr>e_id = ''e'' @ nat_str (length (ps_edges st') + 1), e_source = source, e_target = target,
                    e_condition = condition\<rparr>]\<rparr>)
      | _ \<Rightarrow> st)"

fun read_segments :: "string list \<Rightarrow> parse_state \<Rightarrow> parse_state" where
  "read_segments (a # b # segs) st = read_segments (b # segs) (read_edge a b st)"
| "read_segments _ st = st"

definition read_line :: "string \<Rightarrow> parse_state \<Rightarrow> parse_state" where
  "read_line line st = (if str_includes line ''-->'' then read_segments (split_str ''-->'' [] line) st else st)"

record mermaid_result =
  mp_nodes :: "pipeline_node list"
  mp_edges :: "pipeline_edge list"
  mp_warnings :: "string list"

definition mermaidToDefinition :: "string \<Rightarrow> catalog_entry list \<Rightarrow> mermaid_result" where
  "mermaidToDefinition src catalog =
     (let byType = map_from (map (\<lambda>c. (ce_activityType c, c)) catalog);
          byLabel = map_from (map (\<lambda>c. (to_lower (ce_label c), c)) catalog);
          st = fold (declare_node byType byLabel) (scan_decls src) \<lparr>ps_nodes = [], ps_edges = [], ps_warnings = []\<rparr>;
          st' = fold read_line (split_char newline (strip_brackets src)) st
      in \<lparr>mp_nodes = map snd (ps_nodes st'), mp_edges = ps_edges st', mp_warnings = ps_warnings st'\<rparr>)"

section \<open>What every text is read as\<close>

definition is_id :: "string \<Rightarrow> bool" where
  "is_id i \<longleftrightarrow> i \<noteq> [] \<and> list_all id_char i"

definition graph_ok :: "parse_state \<Rightarrow> bool" where
  "graph_ok st \<longleftrightarrow> distinct (map fst (ps_nodes st))
     \<and> (\<forall>(k, n)\<in>set (ps_nodes st). n_id n = k \<and> is_id k)
     \<and> (\<forall>e\<in>set (ps_edges st). e_source e \<in> fst ` set (ps_nodes st) \<and> e_target e \<in> fst ` set (ps_nodes st))
     \<and> map e_id (ps_edges st) = map (\<lambda>k. ''e'' @ nat_str (k + 1)) [0..<length (ps_edges st)]"

named_theorems graph_ok_steps \<open>the steps of the parser keep the graph well formed\<close>

lemma set_update_cases: "x \<in> set (AList.update k v m) \<Longrightarrow> x = (k, v) \<or> x \<in> set m"
  by (induction m) (auto split: if_splits)

lemma fst_set_update [simp]: "fst ` set (AList.update k v m) = insert k (fst ` set m)"
  using js_map.set_keys_upd[of k v m] by simp

lemma graph_ok_update:
  assumes "graph_ok st" and "n_id n = i" and "is_id i"
  shows "graph_ok (st\<lparr>ps_nodes := AList.update i n (ps_nodes st), ps_warnings := w\<rparr>)"
proof -
  have "\<forall>(k, m)\<in>set (AList.update i n (ps_nodes st)). n_id m = k \<and> is_id k"
    using assms by (auto simp: graph_ok_def dest!: set_update_cases)
  then show ?thesis
    using assms(1) js_map.distinct_upd[of "ps_nodes st" i n] by (auto simp: graph_ok_def)
qed

lemma n_id_parsed_node [simp]: "n_id (parsed_node i t act label) = i"
  by (simp add: parsed_node_def bare_node_def)

lemma takeWhile_id: "takeWhile id_char s \<noteq> [] \<Longrightarrow> is_id (takeWhile id_char s)"
  by (auto simp: is_id_def list_all_iff dest: set_takeWhileD)

lemma match_decl_id: "match_decl s = Some (i, raw, rest) \<Longrightarrow> is_id i"
  by (auto simp: match_decl_def takeWhile_id split: if_splits list.splits)

lemma scan_decls_ids: "d \<in> set (scan_decls s) \<Longrightarrow> is_id (fst d)"
proof (induction s arbitrary: d rule: scan_decls.induct)
  case (2 c cs)
  show ?case
  proof (cases "match_decl (c # cs)")
    case None
    with 2 show ?thesis by (simp add: scan_decls.simps(2)[of c cs])
  next
    case (Some m)
    obtain i raw rest where m: "match_decl (c # cs) = Some (i, raw, rest)" using Some by (cases m) auto
    have "d = (i, raw) \<or> d \<in> set (scan_decls rest)" using 2(3) m by (simp add: scan_decls.simps(2)[of c cs])
    then show ?thesis using match_decl_id[OF m] 2(2)[OF m refl refl, of d] by (cases d) auto
  qed
qed simp

lemma graph_ok_declare [graph_ok_steps]:
  "graph_ok st \<Longrightarrow> is_id (fst d) \<Longrightarrow> graph_ok (declare_node byType byLabel d st)"
  unfolding declare_node_def Let_def by (rule graph_ok_update) simp_all

lemma graph_ok_ensure [graph_ok_steps]: "graph_ok st \<Longrightarrow> is_id i \<Longrightarrow> graph_ok (ensureNode i st)"
  by (auto simp: ensureNode_def graph_ok_update)

lemma ensureNode_nodes [simp]: "fst ` set (ps_nodes (ensureNode i st)) = insert i (fst ` set (ps_nodes st))"
proof -
  have "map_of (ps_nodes st) i \<noteq> None \<Longrightarrow> i \<in> fst ` set (ps_nodes st)"
    using js_map.get_keys[of "ps_nodes st" i] by simp
  then show ?thesis by (auto simp: ensureNode_def)
qed

lemma left_id_is_id: "left_id seg = Some i \<Longrightarrow> is_id i"
  using takeWhile_id[of "rev (trim_end seg)"]
  by (auto simp: left_id_def Let_def is_id_def split: if_splits)

lemma right_id_is_id: "right_id seg = Some (c, i) \<Longrightarrow> is_id i"
  by (auto simp: right_id_def Let_def takeWhile_id split: if_splits prod.splits)

lemma graph_ok_read_edge [graph_ok_steps]: "graph_ok st \<Longrightarrow> graph_ok (read_edge a b st)"
proof (cases "left_id a = None \<or> right_id b = None")
  case True
  then show "graph_ok st \<Longrightarrow> ?thesis" by (auto simp: read_edge_def split: option.splits)
next
  case False
  then obtain s c t where st: "left_id a = Some s" "right_id b = Some (c, t)" by auto
  assume ok: "graph_ok st"
  have "graph_ok (ensureNode t (ensureNode s st))" (is "graph_ok ?st'")
    using ok left_id_is_id[OF st(1)] right_id_is_id[OF st(2)] by (intro graph_ok_steps)
  moreover have "s \<in> fst ` set (ps_nodes ?st')" "t \<in> fst ` set (ps_nodes ?st')" by simp_all
  ultimately show ?thesis
    unfolding read_edge_def st by (simp add: graph_ok_def Let_def del: ensureNode_nodes)
qed

lemma graph_ok_segments [graph_ok_steps]: "graph_ok st \<Longrightarrow> graph_ok (read_segments segs st)"
  by (induction segs st rule: read_segments.induct) (auto intro: graph_ok_steps)

lemma graph_ok_line [graph_ok_steps]: "graph_ok st \<Longrightarrow> graph_ok (read_line l st)"
  by (simp add: read_line_def graph_ok_steps)

lemma graph_ok_decls: "graph_ok st \<Longrightarrow> \<forall>d\<in>set ds. is_id (fst d) \<Longrightarrow> graph_ok (fold (declare_node byType byLabel) ds st)"
  by (induction ds arbitrary: st) (auto intro: graph_ok_steps)

lemma graph_ok_lines: "graph_ok st \<Longrightarrow> graph_ok (fold read_line ls st)"
  by (induction ls arbitrary: st) (auto intro: graph_ok_steps)

text \<open>C13: whatever text is typed, the parsed graph can be put on the canvas: node ids are distinct
  and made of id characters, edge ids count up from \<open>e1\<close>, and every edge joins two of the nodes.\<close>

theorem mermaid_graph_ok:
  fixes src catalog
  defines "r \<equiv> mermaidToDefinition src catalog"
  shows "distinct (map n_id (mp_nodes r)) \<and> list_all (\<lambda>n. is_id (n_id n)) (mp_nodes r)
    \<and> map e_id (mp_edges r) = map (\<lambda>k. ''e'' @ nat_str (k + 1)) [0..<length (mp_edges r)]
    \<and> set (map e_source (mp_edges r)) \<union> set (map e_target (mp_edges r)) \<subseteq> set (map n_id (mp_nodes r))"
proof -
  define byType where "byType = map_from (map (\<lambda>c. (ce_activityType c, c)) catalog)"
  define byLabel where "byLabel = map_from (map (\<lambda>c. (to_lower (ce_label c), c)) catalog)"
  define st where "st = fold read_line (split_char newline (strip_brackets src))
    (fold (declare_node byType byLabel) (scan_decls src) \<lparr>ps_nodes = [], ps_edges = [], ps_warnings = []\<rparr>)"
  have r: "r = \<lparr>mp_nodes = map snd (ps_nodes st), mp_edges = ps_edges st, mp_warnings = ps_warnings st\<rparr>"
    by (simp add: r_def mermaidToDefinition_def Let_def st_def byType_def byLabel_def)
  have "graph_ok st"
    unfolding st_def by (intro graph_ok_lines graph_ok_decls) (auto simp: graph_ok_def scan_decls_ids)
  then have ids: "map n_id (map snd (ps_nodes st)) = map fst (ps_nodes st)"
    by (auto simp: graph_ok_def)
  moreover have "list_all (\<lambda>n. is_id (n_id n)) (map snd (ps_nodes st))"
    using \<open>graph_ok st\<close> by (auto simp: graph_ok_def list_all_iff)
  moreover have "set (map e_source (ps_edges st)) \<union> set (map e_target (ps_edges st)) \<subseteq> fst ` set (ps_nodes st)"
    using \<open>graph_ok st\<close> by (auto simp: graph_ok_def)
  ultimately show ?thesis
    using \<open>graph_ok st\<close> unfolding r mermaid_result.simps ids set_map[of fst] by (simp add: graph_ok_def)
qed

section \<open>Reading a printed pipeline\<close>







lemma trim_start_Nil [simp]: "trim_start [] = []"
  by (simp add: trim_start_def)

lemma trim_start_space [simp]: "trim_start (CHR '' '' # s) = trim_start s" "trim_start (CHR 0x0A # s) = trim_start s"
  by (simp_all add: trim_start_def is_space_def)













definition kept_condition :: "pipeline_edge \<Rightarrow> string option" where
  "kept_condition e = truthy (map_option (\<lambda>c. js_trim (replace_char (CHR ''|'') (CHR ''/'') c)) (e_condition e))"

primrec kept_edges :: "nat \<Rightarrow> pipeline_edge list \<Rightarrow> pipeline_edge list" where
  "kept_edges k [] = []"
| "kept_edges k (e # es) =
     \<lparr>e_id = ''e'' @ nat_str (k + 1), e_source = e_source e, e_target = e_target e, e_condition = kept_condition e\<rparr>
       # kept_edges (k + 1) es"





































lemma kept_edges_append: "kept_edges k (xs @ ys) = kept_edges k xs @ kept_edges (k + length xs) ys"
  by (induction xs arbitrary: k) simp_all

lemma length_kept_edges [simp]: "length (kept_edges k es) = length es"
  by (induction es arbitrary: k) simp_all






text \<open>The header of the source says that edge conditions are carried; a disjunction is not.\<close>

lemma or_condition_changed:
  "map e_condition (mp_edges (mermaidToDefinition
      (definitionToMermaid [bare_node ''a'' Source ''http.fetch'' [], bare_node ''b'' Sink ''sink.s3'' []]
         [(bare_edge ''x'' ''a'' ''b'')\<lparr>e_condition := Some ''r.a || r.b''\<rparr>]) []))
    = [Some ''r.a // r.b'']"
  by code_simp

text \<open>The header of the source says that conditions are carried. A bracket in a condition is not:
  the index of an expression disappears when the labels are stripped.\<close>

lemma bracket_condition_lost:
  "map e_condition (mp_edges (mermaidToDefinition
      (definitionToMermaid [bare_node ''a'' Source ''http.fetch'' [], bare_node ''b'' Sink ''sink.s3'' []]
         [(bare_edge ''x'' ''a'' ''b'')\<lparr>e_condition := Some ''r.items[0] > 1''\<rparr>]) []))
    = [Some ''r.items > 1'']"
  by code_simp

end
