(* ===== verification/ApiClient.thy ===== *)
theory ApiClient
  imports Json
begin

text \<open>
  The API client of the web application, \<open>apps/web/src/api.ts\<close>: the fetch wrapper that renews an
  expired session once, the decoding of responses, the routes of every call, and the loop that
  reads all pages of the pipeline list.

  The browser's \<open>fetch\<close> is the parameter \<open>fetch\<close>: it answers a request in the current world with a
  response or with a network failure. The handler that \<open>setUnauthorizedHandler\<close> installs is the
  parameter \<open>recover\<close>. The module's \<open>accessToken\<close> is a field of the client state.
\<close>

section \<open>Requests and responses\<close>

record http_request =
  rq_path :: string
  rq_method :: string
  rq_headers :: "(string \<times> string) list"
  rq_body :: "string option"

record http_response =
  rs_status :: int
  rs_text :: "string option"

record http_init =
  in_method :: "string option"
  in_headers :: "(string \<times> string) list"
  in_body :: "string option"

datatype api_error =
    NetworkError
  | HttpError int string
  | BadJson
  | BadShape
  | RepeatedCursor

fun error_message :: "api_error \<Rightarrow> string" where
  "error_message NetworkError = ''Failed to fetch''"
| "error_message (HttpError status text) = int_str status @ '' '' @ text"
| "error_message BadJson = ''Unexpected end of JSON input''"
| "error_message BadShape = ''unexpected response shape''"
| "error_message RepeatedCursor = ''Pipeline pagination returned a repeated cursor''"

record 'w client =
  access_token :: "string option"
  world :: 'w

type_synonym 'w fetch = "http_request \<Rightarrow> 'w \<Rightarrow> (api_error + http_response) \<times> 'w"
type_synonym 'w recover = "'w client \<Rightarrow> bool \<times> 'w client"

definition setAccessToken :: "string option \<Rightarrow> 'w client \<Rightarrow> 'w client" where
  "setAccessToken t st = st\<lparr>access_token := t\<rparr>"

text \<open>Header names are compared without case: they are kept in lower case.\<close>

definition prepare :: "string option \<Rightarrow> string \<Rightarrow> http_init \<Rightarrow> http_request" where
  "prepare token path init =
     (let h1 = (case truthy token of
                  None \<Rightarrow> in_headers init
                | Some t \<Rightarrow> AList.update ''authorization'' (''Bearer '' @ t) (in_headers init));
          h2 = (if truthy (in_body init) \<noteq> None \<and> map_of h1 ''content-type'' = None
                then AList.update ''content-type'' ''application/json'' h1 else h1)
      in \<lparr>rq_path = path, rq_method = nullish (in_method init) ''GET'', rq_headers = h2, rq_body = in_body init\<rparr>)"

definition send :: "'w fetch \<Rightarrow> string \<Rightarrow> http_init \<Rightarrow> 'w client \<Rightarrow> (api_error + http_response) \<times> 'w client" where
  "send fetch path init st =
     (case fetch (prepare (access_token st) path init) (world st) of (r, w) \<Rightarrow> (r, st\<lparr>world := w\<rparr>))"

definition unauthorized :: "api_error + http_response \<Rightarrow> bool" where
  "unauthorized r = (case r of Inl _ \<Rightarrow> False | Inr res \<Rightarrow> rs_status res = 401)"

function request :: "'w fetch \<Rightarrow> 'w recover \<Rightarrow> string \<Rightarrow> http_init \<Rightarrow> bool \<Rightarrow> 'w client
    \<Rightarrow> (api_error + http_response) \<times> 'w client" where
  "request fetch recover path init retry st =
     (case send fetch path init st of
        (r, st1) \<Rightarrow>
          if unauthorized r \<and> retry then
            (case recover st1 of
               (recovered, st2) \<Rightarrow> if recovered then request fetch recover path init False st2 else (r, st2))
          else (r, st1))"
  by pat_completeness auto
termination request
  by (relation "measure (\<lambda>(f, r, p, i, retry, st). if retry then 1 else 0)") auto

declare request.simps [simp del]

text \<open>\<open>j\<close>: the JSON of a successful response.\<close>

definition response_ok :: "http_response \<Rightarrow> bool" where
  "response_ok r \<longleftrightarrow> 200 \<le> rs_status r \<and> rs_status r \<le> 299"

definition j :: "api_error + http_response \<Rightarrow> api_error + json" where
  "j r =
     (case r of
        Inl e \<Rightarrow> Inl e
      | Inr res \<Rightarrow>
          if \<not> response_ok res then Inl (HttpError (rs_status res) (nullish (rs_text res) ''''))
          else (case Option.bind (rs_text res) parse of None \<Rightarrow> Inl BadJson | Some v \<Rightarrow> Inr v))"

section \<open>URL encoding\<close>

definition hex_upper :: "nat \<Rightarrow> char" where
  "hex_upper d = ''0123456789ABCDEF'' ! d"

definition percent :: "char \<Rightarrow> string" where
  "percent c = [CHR ''%'', hex_upper (of_char c div 16), hex_upper (of_char c mod 16)]"

definition alnum :: "char \<Rightarrow> bool" where
  "alnum c \<longleftrightarrow> (let n = of_char c :: nat in (48 \<le> n \<and> n \<le> 57) \<or> (65 \<le> n \<and> n \<le> 90) \<or> (97 \<le> n \<and> n \<le> 122))"

definition encodeURIComponent :: "string \<Rightarrow> string" where
  "encodeURIComponent s = concat (map (\<lambda>c. if alnum c \<or> c \<in> {CHR ''-'', CHR ''_'', CHR ''.'', CHR ''!'', CHR ''~'',
     CHR ''*'', CHR 0x27, CHR ''('', CHR '')''} then [c] else percent c) s)"

text \<open>The serializer of \<open>URLSearchParams\<close>.\<close>

definition form_encode :: "string \<Rightarrow> string" where
  "form_encode s = concat (map (\<lambda>c. if c = CHR '' '' then ''+''
     else if alnum c \<or> c \<in> {CHR ''*'', CHR ''-'', CHR ''.'', CHR ''_''} then [c] else percent c) s)"

definition search_params :: "(string \<times> string) list \<Rightarrow> string" where
  "search_params ps = join ''&'' (map (\<lambda>(k, v). form_encode k @ ''='' @ form_encode v) ps)"

definition clean :: "(string \<times> string) list \<Rightarrow> (string \<times> string) list" where
  "clean ps = filter (\<lambda>(k, v). v \<noteq> []) ps"

definition query_string :: "(string \<times> string) list \<Rightarrow> string" where
  "query_string ps = (if clean ps \<noteq> [] then ''?'' @ search_params (clean ps) else '''')"

section \<open>The calls\<close>

text \<open>Pipelines and back-fills.\<close>

datatype pipeline_call =
    SavePipeline json
  | Activate string
  | Promote string bool
  | SetStage string string bool
  | Run string
  | ListPipelines "(string \<times> string) list"
  | GetPipeline string
  | PlanBackfill string json
  | StartBackfill string json
  | ListBackfills string

text \<open>Lineage.\<close>

datatype lineage_call =
    WorkspaceLineage "string option"
  | LineageChanges "string option" int
  | RuntimeLineageOverview "(string \<times> string) list"
  | RuntimeLineageRuns "(string \<times> string) list"
  | RuntimeLineageRun string

text \<open>Connectors.\<close>

datatype connector_call =
    GetConnectorCatalog
  | ListConnectors
  | CreateConnector json
  | TestConnector string
  | DeleteConnector string
  | GetConnectorCdc string
  | SaveConnectorCdc string "string list"
  | DeleteConnectorCdc string
  | StartConnectorOAuth string
  | StartZendeskOAuth string

text \<open>The AI builder, executions and monitoring.\<close>

datatype execution_call =
    GeneratePipeline string "string option" "json option"
  | RefinePipeline json string "string option" "json option"
  | ListExecutions "(string \<times> string) list"
  | ListExecutionsPage "(string \<times> string) list"
  | MonitoringOverview int
  | ListExecutionLogs "(string \<times> json) list"
  | GetExecution string
  | GetExecutionTrace string
  | ExecutionStatus string
  | Signal string string
  | RetryExecution string

text \<open>Alerts.\<close>

datatype alert_call =
    ListAlerts string
  | AcknowledgeAlert string
  | ResolveAlert string
  | RetryAlertNotification string

text \<open>Sessions, team, billing and edition.\<close>

datatype account_call =
    Logout
  | Refresh
  | Me
  | InviteInfo string
  | ListMembers
  | ListInvitations
  | Invite json
  | RevokeInvite string
  | RegisterWithPassword json
  | LoginWithPassword json
  | GetUsage
  | CreateOrder int
  | GetBillingHistory
  | GetEdition
  | SetPaidFeature string bool
  | DownloadAuditExport

text \<open>Analytics.\<close>

datatype analytics_call =
    GetAnalyticsDatasets
  | GetAnalyticsSchema string
  | GetDatasetRows string int int
  | QueryAnalytics string "(string \<times> json) list" "json option"
  | ListDashboards
  | CreateDashboard json
  | UpdateDashboard string json
  | DeleteDashboard string
  | ShareDashboard string
  | ListDashboardShares string
  | RevokeDashboardShare string string

datatype api_call =
    PipelineCall pipeline_call
  | LineageCall lineage_call
  | ConnectorCall connector_call
  | ExecutionCall execution_call
  | AlertCall alert_call
  | AccountCall account_call
  | AnalyticsCall analytics_call

definition get_init :: http_init where
  "get_init = \<lparr>in_method = None, in_headers = [], in_body = None\<rparr>"

definition bare_init :: "string \<Rightarrow> http_init" where
  "bare_init m = \<lparr>in_method = Some m, in_headers = [], in_body = None\<rparr>"

definition body_init :: "string \<Rightarrow> json \<Rightarrow> http_init" where
  "body_init m b = \<lparr>in_method = Some m, in_headers = [], in_body = Some (stringify b)\<rparr>"

definition ai_context :: "string option \<Rightarrow> json option \<Rightarrow> (string \<times> json) list" where
  "ai_context mermaid messages =
     [(''mermaid'', JStr (nullish mermaid '''')), (''messages'', nullish messages (JArr []))]"

definition log_params :: "(string \<times> json) list \<Rightarrow> (string \<times> string) list" where
  "log_params ps = map (\<lambda>(k, v). (k, to_string v)) (filter (\<lambda>(k, v). v \<noteq> JNull \<and> v \<noteq> JStr '''') ps)"

text \<open>The path and the options of each call.\<close>

fun pipeline_route :: "pipeline_call \<Rightarrow> string \<times> http_init" where
  "pipeline_route (SavePipeline def) = (''/api/pipelines'', body_init ''POST'' def)"
| "pipeline_route (Activate rowId) = (''/api/pipelines/'' @ rowId @ ''/activate'', bare_init ''POST'')"
| "pipeline_route (Promote rowId allow) = (''/api/pipelines/'' @ rowId @ ''/promote'',
     body_init ''POST'' (JObj [(''allowBreakingContract'', JBool allow)]))"
| "pipeline_route (SetStage rowId to allow) = (''/api/pipelines/'' @ rowId @ ''/stage'',
     body_init ''POST'' (JObj [(''to'', JStr to), (''allowBreakingContract'', JBool allow)]))"
| "pipeline_route (Run rowId) = (''/api/pipelines/'' @ rowId @ ''/run'', body_init ''POST'' (JObj []))"
| "pipeline_route (ListPipelines ps) = (''/api/pipelines'' @ query_string ps, get_init)"
| "pipeline_route (GetPipeline rowId) = (''/api/pipelines/'' @ rowId, get_init)"
| "pipeline_route (PlanBackfill rowId body) = (''/api/pipelines/'' @ rowId @ ''/backfills/plan'', body_init ''POST'' body)"
| "pipeline_route (StartBackfill rowId body) = (''/api/pipelines/'' @ rowId @ ''/backfills'', body_init ''POST'' body)"
| "pipeline_route (ListBackfills rowId) = (''/api/pipelines/'' @ rowId @ ''/backfills'', get_init)"

fun lineage_route :: "lineage_call \<Rightarrow> string \<times> http_init" where
  "lineage_route (WorkspaceLineage environment) = (''/api/pipelines/lineage/workspace''
     @ (case truthy environment of None \<Rightarrow> '''' | Some e \<Rightarrow> ''?environment='' @ encodeURIComponent e), get_init)"
| "lineage_route (LineageChanges environment limit) = (''/api/pipelines/lineage/changes?''
     @ search_params ((''limit'', int_str limit) # (case truthy environment of None \<Rightarrow> [] | Some e \<Rightarrow> [(''environment'', e)])), get_init)"
| "lineage_route (RuntimeLineageOverview ps) = (''/api/lineage/runtime/overview'' @ query_string ps, get_init)"
| "lineage_route (RuntimeLineageRuns ps) = (''/api/lineage/runtime/runs'' @ query_string ps, get_init)"
| "lineage_route (RuntimeLineageRun i) = (''/api/lineage/runtime/runs/'' @ encodeURIComponent i, get_init)"

fun connector_route :: "connector_call \<Rightarrow> string \<times> http_init" where
  "connector_route GetConnectorCatalog = (''/api/connectors/catalog'', get_init)"
| "connector_route ListConnectors = (''/api/connectors'', get_init)"
| "connector_route (CreateConnector body) = (''/api/connectors'', body_init ''POST'' body)"
| "connector_route (TestConnector i) = (''/api/connectors/'' @ i @ ''/test'', bare_init ''POST'')"
| "connector_route (DeleteConnector i) = (''/api/connectors/'' @ i, bare_init ''DELETE'')"
| "connector_route (GetConnectorCdc i) = (''/api/connectors/'' @ i @ ''/cdc'', get_init)"
| "connector_route (SaveConnectorCdc i resources) = (''/api/connectors/'' @ i @ ''/cdc'',
     body_init ''PUT'' (JObj [(''resources'', JArr (map JStr resources))]))"
| "connector_route (DeleteConnectorCdc i) = (''/api/connectors/'' @ i @ ''/cdc'', bare_init ''DELETE'')"
| "connector_route (StartConnectorOAuth provider) = (''/api/connectors/'' @ provider @ ''/auth'', get_init)"
| "connector_route (StartZendeskOAuth subdomain) = (''/api/connectors/zendesk/auth'',
     body_init ''POST'' (JObj [(''subdomain'', JStr subdomain)]))"

fun execution_route :: "execution_call \<Rightarrow> string \<times> http_init" where
  "execution_route (GeneratePipeline prompt mermaid messages) = (''/api/ai/generate'',
     body_init ''POST'' (JObj ((''prompt'', JStr prompt) # ai_context mermaid messages)))"
| "execution_route (RefinePipeline def prompt mermaid messages) = (''/api/ai/refine'',
     body_init ''POST'' (JObj ([(''definition'', def), (''prompt'', JStr prompt)] @ ai_context mermaid messages)))"
| "execution_route (ListExecutions ps) = (''/api/executions'' @ query_string ps, get_init)"
| "execution_route (ListExecutionsPage ps) = (''/api/executions?'' @ search_params (clean (AList.update ''paged'' ''1'' ps)), get_init)"
| "execution_route (MonitoringOverview days) = (''/api/executions/monitoring/overview?days='' @ int_str days, get_init)"
| "execution_route (ListExecutionLogs ps) = (''/api/executions/logs''
     @ (if log_params ps \<noteq> [] then ''?'' @ search_params (log_params ps) else ''''), get_init)"
| "execution_route (GetExecution i) = (''/api/executions/'' @ i, get_init)"
| "execution_route (GetExecutionTrace i) = (''/api/executions/'' @ i @ ''/trace'', get_init)"
| "execution_route (ExecutionStatus i) = (''/api/executions/'' @ i @ ''/status'', get_init)"
| "execution_route (Signal i action) = (''/api/executions/'' @ i @ ''/'' @ action, bare_init ''POST'')"
| "execution_route (RetryExecution i) = (''/api/executions/'' @ i @ ''/retry'', bare_init ''POST'')"

fun alert_route :: "alert_call \<Rightarrow> string \<times> http_init" where
  "alert_route (ListAlerts status) = (''/api/alerts?status='' @ encodeURIComponent status, get_init)"
| "alert_route (AcknowledgeAlert i) = (''/api/alerts/'' @ i @ ''/acknowledge'', bare_init ''POST'')"
| "alert_route (ResolveAlert i) = (''/api/alerts/'' @ i @ ''/resolve'', bare_init ''POST'')"
| "alert_route (RetryAlertNotification i) = (''/api/alerts/'' @ i @ ''/retry-notification'', bare_init ''POST'')"

fun account_route :: "account_call \<Rightarrow> string \<times> http_init" where
  "account_route Logout = (''/api/auth/logout'', bare_init ''POST'')"
| "account_route Refresh = (''/api/auth/refresh'', bare_init ''POST'')"
| "account_route Me = (''/api/auth/me'', get_init)"
| "account_route (InviteInfo t) = (''/api/auth/accept-invite?token='' @ encodeURIComponent t, get_init)"
| "account_route ListMembers = (''/api/team/members'', get_init)"
| "account_route ListInvitations = (''/api/team/invitations'', get_init)"
| "account_route (Invite body) = (''/api/team/invitations'', body_init ''POST'' body)"
| "account_route (RevokeInvite email) = (''/api/team/invitations/'' @ encodeURIComponent email, bare_init ''DELETE'')"
| "account_route (RegisterWithPassword body) = (''/api/auth/register'', body_init ''POST'' body)"
| "account_route (LoginWithPassword body) = (''/api/auth/login'', body_init ''POST'' body)"
| "account_route GetUsage = (''/api/billing/usage'', get_init)"
| "account_route (CreateOrder units) = (''/api/billing/orders'', body_init ''POST'' (JObj [(''units'', JNum units)]))"
| "account_route GetBillingHistory = (''/api/billing/history'', get_init)"
| "account_route GetEdition = (''/api/edition'', get_init)"
| "account_route (SetPaidFeature feature enabled) = (''/api/edition/features/'' @ encodeURIComponent feature,
     body_init ''PUT'' (JObj [(''enabled'', JBool enabled)]))"
| "account_route DownloadAuditExport = (''/api/edition/audit-export'', get_init)"

fun analytics_route :: "analytics_call \<Rightarrow> string \<times> http_init" where
  "analytics_route GetAnalyticsDatasets = (''/api/analytics/datasets'', get_init)"
| "analytics_route (GetAnalyticsSchema nm) = (''/api/analytics/datasets/'' @ encodeURIComponent nm @ ''/schema'', get_init)"
| "analytics_route (GetDatasetRows nm limit offset) = (''/api/analytics/datasets/'' @ encodeURIComponent nm
     @ ''/rows?limit='' @ int_str limit @ ''&offset='' @ int_str offset, get_init)"
| "analytics_route (QueryAnalytics dataset spec timeRange) = (''/api/analytics/query'',
     body_init ''POST'' (JObj ((''dataset'', JStr dataset) # spec
       @ (case timeRange of None \<Rightarrow> [] | Some t \<Rightarrow> [(''timeRange'', t)]))))"
| "analytics_route ListDashboards = (''/api/analytics/dashboards'', get_init)"
| "analytics_route (CreateDashboard body) = (''/api/analytics/dashboards'', body_init ''POST'' body)"
| "analytics_route (UpdateDashboard i body) = (''/api/analytics/dashboards/'' @ i, body_init ''PUT'' body)"
| "analytics_route (DeleteDashboard i) = (''/api/analytics/dashboards/'' @ i, bare_init ''DELETE'')"
| "analytics_route (ShareDashboard i) = (''/api/analytics/dashboards/'' @ i @ ''/share'', bare_init ''POST'')"
| "analytics_route (ListDashboardShares i) = (''/api/analytics/dashboards/'' @ i @ ''/shares'', get_init)"
| "analytics_route (RevokeDashboardShare i hash) = (''/api/analytics/dashboards/'' @ i @ ''/shares/'' @ encodeURIComponent hash,
     bare_init ''DELETE'')"

fun route :: "api_call \<Rightarrow> string \<times> http_init" where
  "route (PipelineCall c) = pipeline_route c"
| "route (LineageCall c) = lineage_route c"
| "route (ConnectorCall c) = connector_route c"
| "route (ExecutionCall c) = execution_route c"
| "route (AlertCall c) = alert_route c"
| "route (AccountCall c) = account_route c"
| "route (AnalyticsCall c) = analytics_route c"

text \<open>Only the refresh itself is sent without the renewal of the session.\<close>

definition retries :: "api_call \<Rightarrow> bool" where
  "retries c \<longleftrightarrow> c \<noteq> AccountCall Refresh"

definition perform :: "'w fetch \<Rightarrow> 'w recover \<Rightarrow> api_call \<Rightarrow> 'w client \<Rightarrow> (api_error + json) \<times> 'w client" where
  "perform fetch recover c st =
     (case request fetch recover (fst (route c)) (snd (route c)) (retries c) st of (r, st') \<Rightarrow> (j r, st'))"

text \<open>\<open>downloadAuditExport\<close> keeps the raw body of a successful response.\<close>

definition downloadAuditExport :: "'w fetch \<Rightarrow> 'w recover \<Rightarrow> 'w client \<Rightarrow> (api_error + string option) \<times> 'w client" where
  "downloadAuditExport fetch recover st =
     (case request fetch recover (fst (route (AccountCall DownloadAuditExport))) (snd (route (AccountCall DownloadAuditExport))) True st of
        (Inl e, st') \<Rightarrow> (Inl e, st')
      | (Inr res, st') \<Rightarrow>
          (if response_ok res then Inr (rs_text res) else Inl (HttpError (rs_status res) (nullish (rs_text res) '''')), st'))"

section \<open>Reading every page\<close>

text \<open>The requested page size, an integer here, is brought into the server's range.\<close>

definition page_limit :: "int \<Rightarrow> int" where
  "page_limit pageSize = min 200 (max 1 pageSize)"

record page =
  pg_rows :: "json list"
  pg_next :: "string option"

definition page_of :: "json \<Rightarrow> api_error + page" where
  "page_of v =
     (case v of
        JObj ob \<Rightarrow>
          (case obj_get ob ''rows'' of
             Some (JArr rows) \<Rightarrow>
               Inr \<lparr>pg_rows = rows,
                    pg_next = (case obj_get ob ''nextCursor'' of Some (JStr c) \<Rightarrow> truthy (Some c) | _ \<Rightarrow> None)\<rparr>
           | _ \<Rightarrow> Inl BadShape)
      | _ \<Rightarrow> Inl BadShape)"

text \<open>\<open>Object.entries({ ...params, limit, cursor })\<close>; an absent cursor is dropped by \<open>clean\<close>.\<close>

definition page_call :: "(string \<times> string) list \<Rightarrow> int \<Rightarrow> string option \<Rightarrow> api_call" where
  "page_call params limit cursor =
     PipelineCall (ListPipelines (AList.update ''cursor'' (nullish cursor '''') (AList.update ''limit'' (int_str limit) params)))"

definition list_page :: "'w fetch \<Rightarrow> 'w recover \<Rightarrow> (string \<times> string) list \<Rightarrow> int \<Rightarrow> string option \<Rightarrow> 'w client
    \<Rightarrow> (api_error + page) \<times> 'w client" where
  "list_page fetch recover params limit cursor st =
     (case perform fetch recover (page_call params limit cursor) st of
        (Inl e, st') \<Rightarrow> (Inl e, st')
      | (Inr v, st') \<Rightarrow> (page_of v, st'))"

text \<open>The loop over the pages need not end: the server could name a new cursor for ever. \<open>None\<close> is
  that case.\<close>

partial_function (option) pages_loop ::
  "(string option \<Rightarrow> 's \<Rightarrow> (api_error + page) \<times> 's) \<Rightarrow> json list \<Rightarrow> string list \<Rightarrow> string option \<Rightarrow> 's
     \<Rightarrow> ((api_error + json list) \<times> 's) option" where
  "pages_loop get rows seen cursor st =
     (case get cursor st of
        (Inl e, st') \<Rightarrow> Some (Inl e, st')
      | (Inr p, st') \<Rightarrow>
          (case pg_next p of
             None \<Rightarrow> Some (Inr (rows @ pg_rows p), st')
           | Some c \<Rightarrow>
               if c \<in> set seen then Some (Inl RepeatedCursor, st')
               else pages_loop get (rows @ pg_rows p) (set_add c seen) (Some c) st'))"

definition listAllPipelines :: "'w fetch \<Rightarrow> 'w recover \<Rightarrow> (string \<times> string) list \<Rightarrow> int \<Rightarrow> 'w client
    \<Rightarrow> ((api_error + json list) \<times> 'w client) option" where
  "listAllPipelines fetch recover params pageSize st =
     pages_loop (list_page fetch recover params (page_limit pageSize)) [] [] None st"

section \<open>Attempts\<close>

text \<open>\<open>sent\<close> counts the requests that have reached the network in a world.\<close>

lemma send_counts:
  assumes "\<And>rq w. sent (snd (fetch rq w)) = Suc (sent w)"
  shows "sent (world (snd (send fetch path init st))) = Suc (sent (world st))"
  using assms[of "prepare (access_token st) path init" "world st"] by (auto simp: send_def split: prod.splits)

lemma request_no_retry: "request fetch recover path init False st = send fetch path init st"
  by (simp add: request.simps split: prod.splits)

lemma request_retry:
  "request fetch recover path init True st =
     (case send fetch path init st of
        (r, st1) \<Rightarrow> if unauthorized r
          then (case recover st1 of (ok, st2) \<Rightarrow> if ok then send fetch path init st2 else (r, st2))
          else (r, st1))"
  by (subst request.simps) (simp add: request_no_retry split: prod.split)

lemma request_count:
  assumes fetch: "\<And>rq w. sent (snd (fetch rq w)) = Suc (sent w)"
    and recover: "\<And>st. sent (world (snd (recover st))) \<le> sent (world st) + k"
  shows "sent (world (snd (request fetch recover path init retry st))) \<le> sent (world st) + (if retry then k + 2 else 1)"
proof (cases retry)
  case False
  then show ?thesis by (simp add: request_no_retry send_counts[of sent fetch, OF fetch])
next
  case True
  obtain r st1 where s: "send fetch path init st = (r, st1)" by fastforce
  obtain ok st2 where rec: "recover st1 = (ok, st2)" by fastforce
  have 1: "sent (world st1) = Suc (sent (world st))" using send_counts[of sent fetch path init st, OF fetch] s by simp
  have 2: "sent (world st2) \<le> sent (world st1) + k" using recover[of st1] rec by simp
  show ?thesis
    using True 1 2 send_counts[of sent fetch path init st2, OF fetch] by (simp add: request_retry s rec)
qed

text \<open>An expired session cannot make the client loop: a call sends at most two requests of its own,
  besides those of the recovery, whatever the server answers.\<close>

theorem request_bounded:
  assumes "\<And>rq w. sent (snd (fetch rq w)) = Suc (sent w)"
    and "\<And>st. sent (world (snd (recover st))) \<le> sent (world st) + k"
  shows "sent (world (snd (request fetch recover path init retry st))) \<le> sent (world st) + k + 2"
  using request_count[of sent fetch recover k path init retry st, OF assms] by (simp split: if_splits)

text \<open>After a successful recovery the request is repeated once, with the same path, method and body
  and with the renewed token, and that second answer is final.\<close>

theorem request_renewed:
  assumes "send fetch path init st = (Inr res, st1)" and "rs_status res = 401"
    and "recover st1 = (True, st2)" and "access_token st2 = Some token" and "token \<noteq> []"
  shows "request fetch recover path init True st
      = (let rq = prepare (Some token) path init; (r, w) = fetch rq (world st2) in (r, st2\<lparr>world := w\<rparr>))
    \<and> map_of (rq_headers (prepare (Some token) path init)) ''authorization'' = Some (''Bearer '' @ token)
    \<and> rq_body (prepare (Some token) path init) = in_body init"
proof -
  have "truthy (Some token) = Some token" using assms(5) by (simp add: truthy_def)
  then show ?thesis
    using assms by (simp add: request_retry unauthorized_def send_def prepare_def Let_def update_conv' split: prod.splits)
qed

section \<open>Encoded texts\<close>

lemma hex_upper_cases: "n < 16 \<Longrightarrow> hex_upper n \<in> set ''0123456789ABCDEF''"
  unfolding hex_upper_def by (rule nth_mem) simp

lemma of_char_div: "(of_char c :: nat) div 16 < 16"
  using nat_of_char_less_256[of c] by linarith

lemma percent_chars: "x \<in> set (percent c) \<Longrightarrow> x = CHR ''%'' \<or> x \<in> set ''0123456789ABCDEF''"
  using hex_upper_cases[OF of_char_div[of c]] hex_upper_cases[of "of_char c mod 16"] by (auto simp: percent_def)

text \<open>An encoded path segment stays one segment: it holds no slash, no question mark, no hash sign
  and no ampersand, so an id cannot change the route it is put into.\<close>

theorem encodeURIComponent_segment:
  "set (encodeURIComponent s) \<inter> {CHR ''/'', CHR ''?'', CHR 0x23, CHR ''&''} = {}"
proof -
  have "x \<notin> {CHR ''/'', CHR ''?'', CHR 0x23, CHR ''&''}"
    if "x \<in> set (if alnum c \<or> c \<in> {CHR ''-'', CHR ''_'', CHR ''.'', CHR ''!'', CHR ''~'', CHR ''*'', CHR 0x27,
          CHR ''('', CHR '')''} then [c] else percent c)" for x c
    using that percent_chars[of x c] by (auto simp: alnum_def Let_def split: if_splits)
  then show ?thesis unfolding encodeURIComponent_def set_concat set_map by blast
qed

text \<open>How a server reads a query: percent escapes and plus signs.\<close>

definition hex_value :: "char \<Rightarrow> nat" where
  "hex_value c = (let n = of_char c :: nat in if n < 65 then n - 48 else n - 55)"

fun form_decode :: "string \<Rightarrow> string" where
  "form_decode [] = []"
| "form_decode (c # cs) =
     (if c = CHR ''+'' then CHR '' '' # form_decode cs
      else if c = CHR ''%'' then
        (case cs of a # b # r \<Rightarrow> char_of (16 * hex_value a + hex_value b) # form_decode r | _ \<Rightarrow> c # form_decode cs)
      else c # form_decode cs)"

definition decode_query :: "string \<Rightarrow> (string \<times> string) list" where
  "decode_query q = map (\<lambda>p. (form_decode (takeWhile (\<lambda>c. c \<noteq> CHR ''='') p),
     form_decode (drop 1 (dropWhile (\<lambda>c. c \<noteq> CHR ''='') p)))) (split_char (CHR ''&'') q)"

lemma hex_value_upper: "n < 16 \<Longrightarrow> hex_value (hex_upper n) = n"
proof -
  have "\<forall>n\<in>set [0..<16]. hex_value (hex_upper n) = n" by code_simp
  then show "n < 16 \<Longrightarrow> hex_value (hex_upper n) = n" by simp
qed

lemma form_decode_percent: "form_decode (percent c @ s) = c # form_decode s"
  using hex_value_upper[OF of_char_div[of c]] hex_value_upper[of "of_char c mod 16"]
  by (simp add: percent_def)

lemma form_encode_Cons:
  "form_encode (c # s) = (if c = CHR '' '' then ''+''
     else if alnum c \<or> c \<in> {CHR ''*'', CHR ''-'', CHR ''.'', CHR ''_''} then [c] else percent c) @ form_encode s"
  by (simp add: form_encode_def)

lemma form_decode_encode: "form_decode (form_encode s) = s"
proof (induction s)
  case Nil
  then show ?case by (simp add: form_encode_def)
next
  case (Cons c s)
  have "c \<noteq> CHR ''+'' \<and> c \<noteq> CHR ''%''" if "alnum c \<or> c \<in> {CHR ''*'', CHR ''-'', CHR ''.'', CHR ''_''}"
    using that by (auto simp: alnum_def Let_def)
  with Cons show ?case by (auto simp: form_encode_Cons form_decode_percent)
qed

lemma form_encode_chars: "CHR ''&'' \<notin> set (form_encode s)" "CHR ''='' \<notin> set (form_encode s)"
proof -
  have "x \<noteq> CHR ''&'' \<and> x \<noteq> CHR ''=''" if "x \<in> set (form_encode s)" for x
    using that
  proof (induction s)
    case (Cons c s)
    then show ?case
      using percent_chars[of x c] by (auto simp: form_encode_Cons alnum_def Let_def split: if_splits)
  qed (simp add: form_encode_def)
  then show "CHR ''&'' \<notin> set (form_encode s)" "CHR ''='' \<notin> set (form_encode s)" by blast+
qed

lemma decode_pair:
  "form_decode (takeWhile (\<lambda>c. c \<noteq> CHR ''='') (form_encode k @ CHR ''='' # form_encode v)) = k"
  "form_decode (drop 1 (dropWhile (\<lambda>c. c \<noteq> CHR ''='') (form_encode k @ CHR ''='' # form_encode v))) = v"
proof -
  have "takeWhile (\<lambda>c. c \<noteq> CHR ''='') (w @ CHR ''='' # r) = w \<and> dropWhile (\<lambda>c. c \<noteq> CHR ''='') (w @ CHR ''='' # r) = CHR ''='' # r"
    if "CHR ''='' \<notin> set w" for w r
    using that by (induction w) auto
  from this[OF form_encode_chars(2)[of k]]
  show "form_decode (takeWhile (\<lambda>c. c \<noteq> CHR ''='') (form_encode k @ CHR ''='' # form_encode v)) = k"
    "form_decode (drop 1 (dropWhile (\<lambda>c. c \<noteq> CHR ''='') (form_encode k @ CHR ''='' # form_encode v))) = v"
    by (simp_all add: form_decode_encode)
qed

lemma decode_search_params: "qs \<noteq> [] \<Longrightarrow> decode_query (search_params qs) = qs"
proof -
  assume "qs \<noteq> []"
  then have "split_char (CHR ''&'') (search_params qs) = map (\<lambda>(k, v). form_encode k @ ''='' @ form_encode v) qs"
    unfolding search_params_def using form_encode_chars(1) by (intro split_join) auto
  moreover have "map (\<lambda>p. (form_decode (takeWhile (\<lambda>c. c \<noteq> CHR ''='') p), form_decode (drop 1 (dropWhile (\<lambda>c. c \<noteq> CHR ''='') p))))
      (map (\<lambda>(k, v). form_encode k @ ''='' @ form_encode v) qs) = qs"
  proof (induction qs)
    case (Cons q qs)
    then show ?case using decode_pair[of "fst q" "snd q"] by (cases q) simp
  qed simp
  ultimately show ?thesis by (simp only: decode_query_def)
qed

text \<open>The server reads from the query of a list call exactly the parameters that the caller set: the
  non-empty ones, in order, whatever characters they hold.\<close>

theorem query_string_roundtrip:
  "fst (route (ExecutionCall (ListExecutions ps))) = ''/api/executions'' @ query_string ps
   \<and> (if filter (\<lambda>p. snd p \<noteq> []) ps = [] then query_string ps = []
      else hd (query_string ps) = CHR ''?'' \<and> decode_query (tl (query_string ps)) = filter (\<lambda>p. snd p \<noteq> []) ps)"
proof -
  have c: "clean ps = filter (\<lambda>p. snd p \<noteq> []) ps" by (simp add: clean_def split_def)
  show ?thesis using decode_search_params[of "clean ps"] by (auto simp: query_string_def c)
qed

section \<open>The page loop\<close>

text \<open>The pages a server serves from a cursor on, when it serves page \<open>g c\<close> at cursor \<open>c\<close>.\<close>

fun page_chain :: "(string option \<Rightarrow> page) \<Rightarrow> string option \<Rightarrow> page list \<Rightarrow> bool" where
  "page_chain g c [] = False"
| "page_chain g c (p # ps) = (g c = p \<and>
     (case pg_next p of None \<Rightarrow> ps = [] | Some d \<Rightarrow> page_chain g (Some d) ps))"

lemma page_chain_unique: "page_chain g c ps \<Longrightarrow> page_chain g c qs \<Longrightarrow> ps = qs"
proof (induction ps arbitrary: c qs)
  case (Cons p ps)
  then show ?case by (cases qs) (auto split: option.splits)
qed simp

lemma page_chain_suffix: "page_chain g c (xs @ p # ps) \<Longrightarrow> \<exists>d. page_chain g d (p # ps) \<and> (xs \<noteq> [] \<longrightarrow> pg_next (last xs) = d)"
proof (induction xs arbitrary: c)
  case (Cons x xs)
  then obtain d where d: "pg_next x = Some d" "page_chain g (Some d) (xs @ p # ps)"
    by (auto split: option.splits)
  show ?case
  proof (cases xs)
    case Nil
    with d show ?thesis by (intro exI[of _ "Some d"]) simp
  next
    case (Cons y ys)
    with Cons.IH[OF d(2)] show ?thesis by auto
  qed
qed auto

text \<open>Since the chain ends, no cursor of it comes twice.\<close>

lemma page_chain_fresh:
  assumes "page_chain g c (xs @ p # ps)" and "x \<in> set xs"
  shows "pg_next x \<noteq> pg_next p"
proof
  assume e: "pg_next x = pg_next p"
  obtain a b where xs: "xs = a @ x # b" using assms(2) by (meson split_list)
  obtain d1 where 1: "page_chain g d1 (x # b @ p # ps)"
    using page_chain_suffix[of g c a x "b @ p # ps"] assms(1) xs by auto
  obtain d2 where 2: "page_chain g d2 (p # ps)" using page_chain_suffix[OF assms(1)] by auto
  show False
  proof (cases "pg_next p")
    case None
    with 1 e show False by simp
  next
    case (Some d)
    with 1 2 e have "page_chain g (Some d) (b @ p # ps)" "page_chain g (Some d) ps" by simp_all
    then have "b @ p # ps = ps" by (rule page_chain_unique)
    then have "length (b @ p # ps) = length ps" by simp
    then show False by simp
  qed
qed

lemma pages_loop_chain:
  assumes "\<And>c st. get c st = (Inr (g c), st)"
  shows "page_chain g c (done @ ps) \<Longrightarrow> ps \<noteq> [] \<Longrightarrow> page_chain g cur ps \<Longrightarrow>
    set seen = {d. Some d \<in> pg_next ` set done} \<Longrightarrow>
    pages_loop get rows seen cur st = Some (Inr (rows @ concat (map pg_rows ps)), st)"
proof (induction ps arbitrary: "done" rows seen cur)
  case (Cons p ps)
  have g: "get cur st = (Inr p, st)" using Cons.prems(3) assms by simp
  show ?case
  proof (cases "pg_next p")
    case None
    then have "ps = []" using Cons.prems(3) by simp
    with None show ?thesis by (simp add: pages_loop.simps[of get rows] g)
  next
    case (Some d)
    have "d \<notin> set seen"
    proof
      assume "d \<in> set seen"
      then obtain x where "x \<in> set done" "pg_next x = Some d" using Cons.prems(4) by (auto simp: image_iff)
      with page_chain_fresh[OF Cons.prems(1)] Some show False by metis
    qed
    moreover have "pages_loop get (rows @ pg_rows p) (set_add d seen) (Some d) st
        = Some (Inr ((rows @ pg_rows p) @ concat (map pg_rows ps)), st)"
    proof (rule Cons.IH[of "done @ [p]"])
      show "page_chain g c ((done @ [p]) @ ps)" using Cons.prems(1) by simp
      show "page_chain g (Some d) ps" using Cons.prems(3) Some by simp
      then show "ps \<noteq> []" by (cases ps) simp_all
      show "set (set_add d seen) = {x. Some x \<in> pg_next ` set (done @ [p])}"
        using Cons.prems(4) Some by auto
    qed
    ultimately show ?thesis using Some by (simp add: pages_loop.simps[of get rows] g)
  qed
qed simp

text \<open>C18: from a server that answers every cursor with its page and whose pages end, all pages are read,
  and the rows come back complete and in order; the repeated-cursor check never fires.\<close>

theorem listAllPipelines_complete:
  assumes "\<And>c st. list_page fetch recover params (page_limit pageSize) c st = (Inr (g c), st)"
    and "page_chain g None ps"
  shows "listAllPipelines fetch recover params pageSize st = Some (Inr (concat (map pg_rows ps)), st)"
proof -
  have "ps \<noteq> []" using assms(2) by (cases ps) simp_all
  then show ?thesis
    unfolding listAllPipelines_def
    using pages_loop_chain[of "list_page fetch recover params (page_limit pageSize)" g None "[]" ps None "[]" "[]" st]
      assms by simp
qed

lemma pages_loop_terminates:
  assumes "finite C" and "\<And>c st p st'. get c st = (Inr p, st') \<Longrightarrow> set_option (pg_next p) \<subseteq> C"
  shows "\<exists>r. pages_loop get rows seen cur st = Some r"
proof (induction "card (C - set seen)" arbitrary: rows seen cur st rule: less_induct)
  case less
  obtain r st' where g: "get cur st = (r, st')" by fastforce
  show ?case
  proof (cases r)
    case (Inl e)
    with g show ?thesis by (simp add: pages_loop.simps[of get rows])
  next
    case (Inr p)
    show ?thesis
    proof (cases "pg_next p")
      case None
      with g Inr show ?thesis by (simp add: pages_loop.simps[of get rows])
    next
      case (Some c)
      have c: "c \<in> C" using assms(2)[of cur st p st'] g Inr Some by simp
      show ?thesis
      proof (cases "c \<in> set seen")
        case True
        with g Inr Some show ?thesis by (simp add: pages_loop.simps[of get rows])
      next
        case False
        have "C - set (set_add c seen) \<subset> C - set seen" using c False by auto
        then have "card (C - set (set_add c seen)) < card (C - set seen)"
          using assms(1) by (intro psubset_card_mono) simp_all
        from less[OF this] False g Inr Some show ?thesis by (simp add: pages_loop.simps[of get rows])
      qed
    qed
  qed
qed

text \<open>C20: the repeated-cursor check makes the loop end whenever the server has finitely many cursors,
  even one that serves its pages in a circle.\<close>

theorem listAllPipelines_terminates:
  assumes "finite C"
    and "\<And>c st p st'. list_page fetch recover params (page_limit pageSize) c st = (Inr p, st') \<Longrightarrow> set_option (pg_next p) \<subseteq> C"
  shows "\<exists>r. listAllPipelines fetch recover params pageSize st = Some r"
  unfolding listAllPipelines_def by (rule pages_loop_terminates[OF assms])

section \<open>The properties on a concrete server\<close>

text \<open>A server whose sessions are expired unless the token is \<open>new\<close>, and one with a single page.\<close>

definition strict_server :: "unit fetch" where
  "strict_server rq w =
     (if map_of (rq_headers rq) ''authorization'' = Some ''Bearer new''
      then (Inr \<lparr>rs_status = 200, rs_text = Some ''{}''\<rparr>, w) else (Inr \<lparr>rs_status = 401, rs_text = None\<rparr>, w))"

definition one_page_server :: "unit fetch" where
  "one_page_server rq w = (Inr \<lparr>rs_status = 200, rs_text = Some (stringify (JObj [(''rows'', JArr [JNum 7]), (''nextCursor'', JNull)]))\<rparr>, w)"

theorem request_bounded_witness:
  "world (snd (request (\<lambda>rq n. (Inr \<lparr>rs_status = 401, rs_text = None\<rparr>, Suc n)) (\<lambda>st. (True, st)) ''/api/auth/me'' get_init True
     \<lparr>access_token = None, world = 0\<rparr>)) \<le> 2"
  using request_bounded[of id "\<lambda>rq n. (Inr \<lparr>rs_status = 401, rs_text = None\<rparr>, Suc n)" "\<lambda>st. (True, st)" 0 "''/api/auth/me''" get_init True
    "\<lparr>access_token = None, world = 0\<rparr>"] by simp

theorem request_renewed_witness:
  "request strict_server (\<lambda>st. (True, setAccessToken (Some ''new'') st)) ''/api/pipelines'' get_init True
     \<lparr>access_token = Some ''old'', world = ()\<rparr>
   = (Inr \<lparr>rs_status = 200, rs_text = Some ''{}''\<rparr>, \<lparr>access_token = Some ''new'', world = ()\<rparr>)"
proof -
  let ?old = "\<lparr>access_token = Some ''old'', world = ()\<rparr>" and ?new = "\<lparr>access_token = Some ''new'', world = ()\<rparr>"
  let ?rec = "\<lambda>st::unit client. (True, setAccessToken (Some ''new'') st)"
  have 1: "send strict_server ''/api/pipelines'' get_init ?old = (Inr \<lparr>rs_status = 401, rs_text = None\<rparr>, ?old)"
    by code_simp
  have 2: "?rec ?old = (True, ?new)" by (simp add: setAccessToken_def)
  note r = request_renewed[of strict_server "''/api/pipelines''" get_init ?old "\<lparr>rs_status = 401, rs_text = None\<rparr>" ?old ?rec ?new "''new''"]
  have "(let rq = prepare (Some ''new'') ''/api/pipelines'' get_init; (r, w) = strict_server rq (world ?new) in (r, ?new\<lparr>world := w\<rparr>))
      = (Inr \<lparr>rs_status = 200, rs_text = Some ''{}''\<rparr>, ?new)"
    by code_simp
  with r[OF 1 _ 2] show ?thesis by simp
qed

lemma one_page: "list_page one_page_server recover params limit c st = (Inr \<lparr>pg_rows = [JNum 7], pg_next = None\<rparr>, st)"
proof -
  have "page_of (the (parse (stringify (JObj [(''rows'', JArr [JNum 7]), (''nextCursor'', JNull)]))))
      = Inr \<lparr>pg_rows = [JNum 7], pg_next = None\<rparr>"
    and "parse (stringify (JObj [(''rows'', JArr [JNum 7]), (''nextCursor'', JNull)])) \<noteq> None" by code_simp+
  then obtain v where "parse (stringify (JObj [(''rows'', JArr [JNum 7]), (''nextCursor'', JNull)])) = Some v"
    "page_of v = Inr \<lparr>pg_rows = [JNum 7], pg_next = None\<rparr>" by auto
  then show ?thesis
    by (simp add: list_page_def perform_def retries_def page_call_def request_retry send_def one_page_server_def
        unauthorized_def j_def response_ok_def split: prod.splits)
qed

theorem listAllPipelines_complete_witness:
  "listAllPipelines one_page_server (\<lambda>st. (False, st)) [(''search'', ''x'')] 1000 \<lparr>access_token = None, world = ()\<rparr>
     = Some (Inr [JNum 7], \<lparr>access_token = None, world = ()\<rparr>)"
  using listAllPipelines_complete[of one_page_server "\<lambda>st. (False, st)" "[(''search'', ''x'')]" 1000
      "\<lambda>_. \<lparr>pg_rows = [JNum 7], pg_next = None\<rparr>" "[\<lparr>pg_rows = [JNum 7], pg_next = None\<rparr>]" "\<lparr>access_token = None, world = ()\<rparr>"]
  by (simp add: one_page)

theorem listAllPipelines_terminates_witness:
  "\<exists>r. listAllPipelines one_page_server (\<lambda>st. (False, st)) [] 0 \<lparr>access_token = None, world = ()\<rparr> = Some r"
  by (rule listAllPipelines_terminates[of "{}"]) (auto simp: one_page)

end
