(* ===== verification/Session.thy ===== *)
theory Session
  imports ApiClient Catalog
begin

text \<open>
  The contexts of the web application that every page reads: the session
  (\<open>context/AuthContext.tsx\<close>) and the guard of the signed-in routes
  (\<open>components/ProtectedRoute.tsx\<close>), the paid features (\<open>context/FeatureContext.tsx\<close>), the
  catalog (\<open>context/CatalogContext.tsx\<close>) and the theme (\<open>context/ThemeContext.tsx\<close>).

  The session lives in two places, as in the code: the access token is the API client's, the
  user and the refresh timer are the provider's. Together they are the world of the client.
\<close>

section \<open>The session\<close>

record ui_session =
  us_user :: "json option"
  us_loading :: bool
  us_timer :: bool

type_synonym 'w session = "('w \<times> ui_session) client"

definition ui :: "'w session \<Rightarrow> ui_session" where
  "ui st = snd (world st)"

definition set_ui :: "(ui_session \<Rightarrow> ui_session) \<Rightarrow> 'w session \<Rightarrow> 'w session" where
  "set_ui f st = st\<lparr>world := (fst (world st), f (snd (world st)))\<rparr>"

text \<open>Requests leave the provider's state alone.\<close>

definition lift_fetch :: "'w fetch \<Rightarrow> ('w \<times> ui_session) fetch" where
  "lift_fetch fetch rq wu = (case fetch rq (fst wu) of (r, w') \<Rightarrow> (r, (w', snd wu)))"

definition applySession :: "string option \<Rightarrow> json option \<Rightarrow> 'w session \<Rightarrow> 'w session" where
  "applySession accessToken user st =
     set_ui (\<lambda>u. u\<lparr>us_user := user, us_timer := True\<rparr>) (setAccessToken accessToken st)"

definition clearSession :: "'w session \<Rightarrow> 'w session" where
  "clearSession st = set_ui (\<lambda>u. u\<lparr>us_user := None, us_timer := False\<rparr>) (setAccessToken None st)"

text \<open>A property of a parsed response; \<open>undefined\<close> and \<open>null\<close> are \<open>None\<close>.\<close>

definition json_prop :: "json \<Rightarrow> string \<Rightarrow> json option" where
  "json_prop v k = (case v of
      JObj es \<Rightarrow> (case obj_get es k of Some JNull \<Rightarrow> None | p \<Rightarrow> p)
    | _ \<Rightarrow> None)"

definition json_string :: "json option \<Rightarrow> string option" where
  "json_string v = (case v of Some (JStr s) \<Rightarrow> Some s | _ \<Rightarrow> None)"

text \<open>What \<open>refresh\<close> makes of the answer to its request.\<close>

definition renewed :: "api_error + json \<Rightarrow> 'w session \<Rightarrow> bool \<times> 'w session" where
  "renewed r st =
     (case r of
        Inl e \<Rightarrow> (False, clearSession st)
      | Inr v \<Rightarrow>
          if v = JNull then (False, clearSession st)
          else (True, applySession (json_string (json_prop v ''accessToken'')) (json_prop v ''user'') st))"

text \<open>
  The recursion as it is in the code: the handler that \<open>request\<close> calls is \<open>refresh\<close>, which itself
  sends a request through \<open>request\<close>, and with the handler if \<open>retries\<close> says so. It may run for ever, so it
  is a partial function; that it returns is a theorem.
\<close>

partial_function (option) requesting :: "'w fetch \<Rightarrow> string \<Rightarrow> http_init \<Rightarrow> bool \<Rightarrow> 'w session
    \<Rightarrow> ((api_error + http_response) \<times> 'w session) option" where
  "requesting fetch path init retry st =
     (case send (lift_fetch fetch) path init st of
        (r, st1) \<Rightarrow>
          if unauthorized r \<and> retry then
            Option.bind (requesting fetch (fst (route (AccountCall Refresh))) (snd (route (AccountCall Refresh)))
                (retries (AccountCall Refresh)) st1)
              (\<lambda>(answer, st2).
                 case renewed (j answer) st2 of
                   (recovered, st3) \<Rightarrow> if recovered then requesting fetch path init False st3 else Some (r, st3))
          else Some (r, st1))"

definition refreshing :: "'w fetch \<Rightarrow> 'w session \<Rightarrow> (bool \<times> 'w session) option" where
  "refreshing fetch st =
     map_option (\<lambda>(answer, st'). renewed (j answer) st')
       (requesting fetch (fst (route (AccountCall Refresh))) (snd (route (AccountCall Refresh))) (retries (AccountCall Refresh)) st)"

definition calling :: "'w fetch \<Rightarrow> api_call \<Rightarrow> 'w session \<Rightarrow> ((api_error + json) \<times> 'w session) option" where
  "calling fetch c st =
     map_option (\<lambda>(r, st'). (j r, st')) (requesting fetch (fst (route c)) (snd (route c)) (retries c) st)"

text \<open>
  What the recursion comes to, as total functions (lemmas \<open>refreshing_returns\<close> and \<open>calling_returns\<close>): the
  request of \<open>refresh\<close> is sent without the handler, so the handler it is given here is never used.
\<close>

definition refresh :: "'w fetch \<Rightarrow> 'w session \<Rightarrow> bool \<times> 'w session" where
  "refresh fetch st =
     (case perform (lift_fetch fetch) (\<lambda>st. (False, st)) (AccountCall Refresh) st of (r, st') \<Rightarrow> renewed r st')"

definition call :: "'w fetch \<Rightarrow> api_call \<Rightarrow> 'w session \<Rightarrow> (api_error + json) \<times> 'w session" where
  "call fetch c st = perform (lift_fetch fetch) (refresh fetch) c st"

definition logout :: "'w fetch \<Rightarrow> 'w session \<Rightarrow> 'w session" where
  "logout fetch st = (case call fetch (AccountCall Logout) st of (_, st') \<Rightarrow> clearSession st')"

text \<open>\<open>{ ...u, ...m.user }\<close>.\<close>

definition merge_user :: "json option \<Rightarrow> json option \<Rightarrow> json option" where
  "merge_user u m =
     (case (u, m) of
        (None, _) \<Rightarrow> m
      | (Some (JObj es), Some (JObj fs)) \<Rightarrow> Some (JObj (fold (\<lambda>(k, v). AList.update k v) fs es))
      | (Some v, _) \<Rightarrow> Some v)"

text \<open>What happens on mount.\<close>

definition bootstrap :: "'w fetch \<Rightarrow> 'w session \<Rightarrow> 'w session" where
  "bootstrap fetch st =
     (case refresh fetch st of
        (ok, st1) \<Rightarrow>
          set_ui (\<lambda>u. u\<lparr>us_loading := False\<rparr>)
            (if ok then
               (case call fetch (AccountCall Me) st1 of
                  (Inl e, st2) \<Rightarrow> st2
                | (Inr v, st2) \<Rightarrow>
                    if v = JNull then st2
                    else set_ui (\<lambda>u. u\<lparr>us_user := merge_user (us_user u) (json_prop v ''user'')\<rparr>) st2)
             else st1))"

section \<open>Protected routes\<close>

datatype route_view = LoadingView | RedirectToLogin string | Children

definition ProtectedRoute :: "'w session \<Rightarrow> string \<Rightarrow> route_view" where
  "ProtectedRoute st pathname =
     (if us_loading (ui st) then LoadingView
      else if us_user (ui st) = None then RedirectToLogin pathname
      else Children)"

section \<open>Paid features\<close>

record feature_state =
  ft_features :: paid_features
  ft_availability :: paid_features
  ft_loading :: bool

definition features_initial :: feature_state where
  "features_initial = \<lparr>ft_features = DEFAULT_PAID_FEATURES, ft_availability = DEFAULT_PAID_FEATURES, ft_loading = True\<rparr>"

text \<open>A feature record of a response: a feature is on when its property is truthy.\<close>

definition features_of :: "json option \<Rightarrow> paid_features" where
  "features_of v f = (case v of Some o' \<Rightarrow> truthy_json (json_prop o' (feature_key f)) | None \<Rightarrow> False)"

definition load_features :: "api_error + json \<Rightarrow> feature_state \<Rightarrow> feature_state" where
  "load_features r s =
     (case r of
        Inl e \<Rightarrow> s
      | Inr v \<Rightarrow>
          if v = JNull then s
          else s\<lparr>ft_features := features_of (json_prop v ''features''), ft_availability := features_of (json_prop v ''availability'')\<rparr>)
       \<lparr>ft_loading := False\<rparr>"

definition setFeature :: "api_error + json \<Rightarrow> feature_state \<Rightarrow> (api_error option) \<times> feature_state" where
  "setFeature r s =
     (case r of
        Inl e \<Rightarrow> (Some e, s)
      | Inr v \<Rightarrow>
          if v = JNull then (Some BadShape, s)
          else (None, s\<lparr>ft_features := features_of (json_prop v ''features'')\<rparr>))"

section \<open>The catalog of the workspace\<close>

text \<open>The static entries win; the server's other entries follow.\<close>

definition merge_catalog :: "catalog_entry list \<Rightarrow> catalog_entry list option \<Rightarrow> catalog_entry list" where
  "merge_catalog fallback server =
     map snd (fold (\<lambda>e m. if map_of m (ce_activityType e) \<noteq> None then m else AList.update (ce_activityType e) e m)
       (nullish server []) (map_from (map (\<lambda>c. (ce_activityType c, c)) fallback)))"

text \<open>The provider: the effect runs whenever the features change; every run asks the server, and an
  answer is merged with the fallback of the run that asked for it.\<close>

record catalog_state =
  cs_catalog :: "catalog_entry list"
  cs_asked :: "catalog_entry list list"

datatype catalog_event = FeaturesChanged paid_features | Answer nat "catalog_entry list option option"

fun catalog_step :: "catalog_event \<Rightarrow> catalog_state \<Rightarrow> catalog_state" where
  "catalog_step (FeaturesChanged features) s =
     (let fallback = catalogForFeatures CATALOG features
      in s\<lparr>cs_catalog := fallback, cs_asked := cs_asked s @ [fallback]\<rparr>)"
| "catalog_step (Answer i answer) s =
     (if i < length (cs_asked s)
      then s\<lparr>cs_catalog := (case answer of
               Some server \<Rightarrow> merge_catalog (cs_asked s ! i) server
             | None \<Rightarrow> cs_asked s ! i)\<rparr>
      else s)"

definition catalog_index :: "catalog_entry list \<Rightarrow> (string \<times> catalog_entry) list" where
  "catalog_index catalog = map_from (map (\<lambda>c. (ce_activityType c, c)) catalog)"

section \<open>The theme\<close>

datatype theme_mode = DarkMode | LightMode | SystemMode

fun theme_str :: "theme_mode \<Rightarrow> string" where
  "theme_str DarkMode = ''dark''"
| "theme_str LightMode = ''light''"
| "theme_str SystemMode = ''system''"

record theme_state =
  th_mode :: theme_mode
  th_stored :: "string option"

definition initial_mode :: "string option \<Rightarrow> theme_mode" where
  "initial_mode stored =
     (if stored = Some ''dark'' then DarkMode
      else if stored = Some ''light'' then LightMode
      else SystemMode)"

definition theme_initial :: "string option \<Rightarrow> theme_state" where
  "theme_initial stored = \<lparr>th_mode = initial_mode stored, th_stored = stored\<rparr>"

definition dark :: "bool \<Rightarrow> theme_state \<Rightarrow> bool" where
  "dark systemDark s = (if th_mode s = SystemMode then systemDark else th_mode s = DarkMode)"

definition setMode :: "theme_mode \<Rightarrow> theme_state \<Rightarrow> theme_state" where
  "setMode m s = \<lparr>th_mode = m, th_stored = Some (theme_str m)\<rparr>"

definition toggle :: "theme_state \<Rightarrow> theme_state" where
  "toggle s = setMode (if th_mode s = DarkMode then LightMode else DarkMode) s"

section \<open>Facts about the session\<close>

definition signed_out :: "'w session \<Rightarrow> bool" where
  "signed_out st \<longleftrightarrow> access_token st = None \<and> us_user (ui st) = None \<and> \<not> us_timer (ui st)"

lemma ui_simps [simp]:
  "ui (set_ui f st) = f (ui st)" "access_token (set_ui f st) = access_token st"
  "ui (setAccessToken t st) = ui st" "access_token (setAccessToken t st) = t"
  by (simp_all add: ui_def set_ui_def setAccessToken_def)

lemma signed_out_clear [simp]: "signed_out (clearSession st)"
  by (simp add: signed_out_def clearSession_def)

lemma us_loading_clear [simp]: "us_loading (ui (clearSession st)) = us_loading (ui st)"
  by (simp add: clearSession_def)

lemma us_loading_apply [simp]: "us_loading (ui (applySession t u st)) = us_loading (ui st)"
  by (simp add: applySession_def)

lemma send_ui: "send (lift_fetch fetch) path init st = (r, st') \<Longrightarrow> ui st' = ui st \<and> access_token st' = access_token st"
  by (auto simp: send_def lift_fetch_def ui_def split: prod.splits)

text \<open>A fetch that advances a counter of the world advances it under the session too.\<close>

lemma lift_fetch_counts:
  "(\<And>rq w. sent (snd (fetch rq w)) = Suc (sent w)) \<Longrightarrow>
   sent (fst (snd (lift_fetch fetch rq wu))) = Suc (sent (fst wu))"
proof -
  assume "\<And>rq w. sent (snd (fetch rq w)) = Suc (sent w)"
  from this[of rq "fst wu"] show ?thesis by (auto simp: lift_fetch_def split: prod.split)
qed

lemma set_ui_world [simp]: "fst (world (set_ui f st)) = fst (world st)"
  by (simp add: set_ui_def)

lemma world_clear [simp]: "fst (world (clearSession st)) = fst (world st)"
  by (simp add: clearSession_def setAccessToken_def set_ui_def)

lemma world_apply [simp]: "fst (world (applySession t u st)) = fst (world st)"
  by (simp add: applySession_def setAccessToken_def set_ui_def)

lemma snd_perform: "snd (perform fetch recover c st) = snd (request fetch recover (fst (route c)) (snd (route c)) (retries c) st)"
  by (simp add: perform_def split: prod.split)

lemma perform_counts:
  assumes "\<And>rq w. sent (snd (fetch rq w)) = Suc (sent w)"
    and "\<And>st. sent (fst (world (snd (recover st)))) \<le> sent (fst (world st)) + k"
  shows "sent (fst (world (snd (perform (lift_fetch fetch) recover c st))))
    \<le> sent (fst (world st)) + (if retries c then k + 2 else 1)"
  unfolding snd_perform
  using request_count[of "sent \<circ> fst" "lift_fetch fetch" recover k "fst (route c)" "snd (route c)" "retries c" st]
    lift_fetch_counts[of sent fetch, OF assms(1)] assms(2)
  by simp

lemma refresh_counts:
  assumes "\<And>rq w. sent (snd (fetch rq w)) = Suc (sent w)"
  shows "sent (fst (world (snd (refresh fetch st)))) \<le> sent (fst (world st)) + 1"
proof -
  obtain r st' where p: "perform (lift_fetch fetch) (\<lambda>st. (False, st)) (AccountCall Refresh) st = (r, st')" by fastforce
  have "sent (fst (world st')) \<le> sent (fst (world st)) + 1"
    using perform_counts[of sent fetch "\<lambda>st. (False, st)" 0 "AccountCall Refresh" st, OF assms] p
    by (simp add: retries_def)
  then show ?thesis by (cases r) (simp_all add: refresh_def renewed_def p)
qed

lemma refresh_failed: "refresh fetch st = (False, st') \<Longrightarrow> signed_out st'"
  by (auto simp: refresh_def renewed_def split: prod.splits sum.splits if_splits)

lemma refresh_loading: "us_loading (ui (snd (refresh fetch st))) = us_loading (ui st)"
proof -
  obtain r st' where p: "perform (lift_fetch fetch) (\<lambda>st. (False, st)) (AccountCall Refresh) st = (r, st')" by fastforce
  then have "ui st' = ui st"
    by (auto simp: perform_def retries_def request_no_retry split: prod.splits dest: send_ui)
  then show ?thesis by (cases r) (simp_all add: refresh_def renewed_def p)
qed

lemma call_loading: "us_loading (ui (snd (call fetch c st))) = us_loading (ui st)"
proof -
  have "us_loading (ui (snd (request (lift_fetch fetch) (refresh fetch) path init retry st))) = us_loading (ui st)" for path init retry
  proof (cases retry)
    case False
    then show ?thesis by (cases "send (lift_fetch fetch) path init st") (simp add: request_no_retry send_ui)
  next
    case True
    obtain r st1 where s: "send (lift_fetch fetch) path init st = (r, st1)" by fastforce
    obtain ok st2 where f: "refresh fetch st1 = (ok, st2)" by fastforce
    obtain r3 st3 where s3: "send (lift_fetch fetch) path init st2 = (r3, st3)" by fastforce
    have "us_loading (ui st2) = us_loading (ui st)"
      using refresh_loading[of fetch st1] f send_ui[OF s] by simp
    then show ?thesis using True send_ui[OF s] send_ui[OF s3] by (simp add: request_retry s f s3)
  qed
  then show ?thesis unfolding call_def snd_perform .
qed

section \<open>Properties of the session\<close>

text \<open>The recursion returns, because the request of the handler is sent without the handler.\<close>

lemma requesting_no_retry: "requesting fetch path init False st = Some (send (lift_fetch fetch) path init st)"
  by (subst requesting.simps) (simp split: prod.split)

lemma refreshing_returns: "refreshing fetch st = Some (refresh fetch st)"
  by (simp add: refreshing_def refresh_def perform_def retries_def requesting_no_retry request_no_retry split: prod.split)

lemma requesting_retry:
  "requesting fetch path init True st =
     (case send (lift_fetch fetch) path init st of
        (r, st1) \<Rightarrow>
          if unauthorized r then
            Option.bind (refreshing fetch st1)
              (\<lambda>(recovered, st3). if recovered then requesting fetch path init False st3 else Some (r, st3))
          else Some (r, st1))"
  by (subst requesting.simps) (auto simp: refreshing_def map_option_case split: prod.split option.split)

lemma requesting_returns: "requesting fetch path init retry st = Some (request (lift_fetch fetch) (refresh fetch) path init retry st)"
  by (cases retry) (auto simp: requesting_no_retry requesting_retry request_no_retry request_retry refreshing_returns split: prod.split)

lemma calling_returns: "calling fetch c st = Some (call fetch c st)"
  by (simp add: calling_def call_def perform_def requesting_returns split: prod.split)

text \<open>C29: every call returns, and after at most three requests: its own, the one of the session's
  renewal, and the repetition. The recursion is the one of the code: a 401 calls the session's
  handler, which sends a request the same way, so that a handler whose own request were renewed on
  a 401 would never return.\<close>

theorem session_bounded:
  assumes "\<And>rq w. sent (snd (fetch rq w)) = Suc (sent w)"
  shows "\<exists>res st'. calling fetch c st = Some (res, st') \<and> sent (fst (world st')) \<le> sent (fst (world st)) + 3"
proof -
  have "sent (fst (world (snd (call fetch c st)))) \<le> sent (fst (world st)) + 3"
    unfolding call_def
    using perform_counts[of sent fetch "refresh fetch" 1 c st, OF assms refresh_counts[of sent fetch, OF assms]]
    by (auto split: if_splits)
  then show ?thesis by (cases "call fetch c st") (simp add: calling_returns)
qed

text \<open>C4: when the session has expired and cannot be renewed, the call fails with status 401, the user is
  signed out everywhere, and every protected page sends the user to the login.\<close>

theorem expired_session_redirects:
  assumes "retries c" and "fst (send (lift_fetch fetch) (fst (route c)) (snd (route c)) st) = Inr res" and "rs_status res = 401"
    and "\<not> fst (refresh fetch (snd (send (lift_fetch fetch) (fst (route c)) (snd (route c)) st)))"
    and "\<not> us_loading (ui st)"
  shows "fst (call fetch c st) = Inl (HttpError 401 (nullish (rs_text res) ''''))
    \<and> signed_out (snd (call fetch c st))
    \<and> ProtectedRoute (snd (call fetch c st)) pathname = RedirectToLogin pathname"
proof -
  obtain st1 where s: "send (lift_fetch fetch) (fst (route c)) (snd (route c)) st = (Inr res, st1)"
    using assms(2) by (cases "send (lift_fetch fetch) (fst (route c)) (snd (route c)) st") simp
  obtain st2 where f: "refresh fetch st1 = (False, st2)"
    using assms(4) s by (cases "refresh fetch st1") simp
  have "call fetch c st = (j (Inr res), st2)"
    unfolding call_def perform_def using assms(1,3) by (simp add: request_retry s f unauthorized_def)
  moreover have "signed_out st2" by (rule refresh_failed[OF f])
  moreover have "\<not> us_loading (ui st2)" using refresh_loading[of fetch st1] f send_ui[OF s] assms(5) by simp
  ultimately show ?thesis using assms(3) by (simp add: j_def response_ok_def signed_out_def ProtectedRoute_def)
qed

text \<open>Signing out always ends the session, whatever the server says to it.\<close>

theorem logout_signs_out:
  "signed_out (logout fetch st) \<and> ProtectedRoute (logout fetch st) pathname \<noteq> Children"
proof -
  obtain r st' where "call fetch (AccountCall Logout) st = (r, st')" by fastforce
  then have l: "logout fetch st = clearSession st'" by (simp add: logout_def)
  have "signed_out (clearSession st')" by simp
  then show ?thesis unfolding l by (simp add: ProtectedRoute_def signed_out_def)
qed

text \<open>After the start of the application no page waits for the session any more: it is shown when
  there is a user, and without a renewed session it redirects.\<close>

theorem bootstrap_decides:
  "ProtectedRoute (bootstrap fetch st) pathname
     = (if us_user (ui (bootstrap fetch st)) = None then RedirectToLogin pathname else Children)
   \<and> (\<not> fst (refresh fetch st) \<longrightarrow> ProtectedRoute (bootstrap fetch st) pathname = RedirectToLogin pathname)"
proof -
  obtain ok st1 where f: "refresh fetch st = (ok, st1)" by fastforce
  have "\<not> us_loading (ui (bootstrap fetch st))" by (simp add: bootstrap_def f)
  moreover have "us_user (ui (bootstrap fetch st)) = None" if "\<not> ok"
    using that refresh_failed[of fetch st st1] f by (simp add: bootstrap_def signed_out_def)
  ultimately show ?thesis by (simp add: ProtectedRoute_def f)
qed

text \<open>The properties on a server that has closed every session.\<close>

definition closed_server :: "nat fetch" where
  "closed_server rq n = (Inr \<lparr>rs_status = 401, rs_text = Some ''no session''\<rparr>, Suc n)"

abbreviation open_session :: "nat session" where
  "open_session \<equiv> \<lparr>access_token = Some ''old'', world = (0, \<lparr>us_user = Some (JObj []), us_loading = False, us_timer = True\<rparr>)\<rparr>"

theorem session_bounded_witness:
  "\<exists>res st'. calling closed_server (AccountCall Me) open_session = Some (res, st') \<and> fst (world st') \<le> 3"
  using session_bounded[of id closed_server "AccountCall Me" open_session] by (simp add: closed_server_def)

theorem bootstrap_decides_witness:
  "ProtectedRoute (bootstrap closed_server open_session) ''/runs'' = RedirectToLogin ''/runs''"
proof -
  have "\<not> fst (refresh closed_server open_session)" by code_simp
  then show ?thesis using bootstrap_decides[of closed_server open_session "''/runs''"] by blast
qed

theorem expired_session_redirects_witness:
  "ProtectedRoute (snd (call closed_server (AccountCall Me) open_session)) ''/runs'' = RedirectToLogin ''/runs''"
proof -
  have s: "send (lift_fetch closed_server) (fst (route (AccountCall Me))) (snd (route (AccountCall Me))) open_session
      = (Inr \<lparr>rs_status = 401, rs_text = Some ''no session''\<rparr>,
         open_session\<lparr>world := (1, \<lparr>us_user = Some (JObj []), us_loading = False, us_timer = True\<rparr>)\<rparr>)"
    by code_simp
  have f: "\<not> fst (refresh closed_server (open_session\<lparr>world := (1, \<lparr>us_user = Some (JObj []), us_loading = False, us_timer = True\<rparr>)\<rparr>))"
    by code_simp
  show ?thesis
    using expired_session_redirects[of "AccountCall Me" closed_server open_session "\<lparr>rs_status = 401, rs_text = Some ''no session''\<rparr>" "''/runs''"] s f
    by (simp add: retries_def ui_def)
qed

section \<open>Properties of the catalog and the theme\<close>

lemma merge_fold:
  assumes "distinct (map fst m)" and "\<forall>(k, e)\<in>set m. k = ce_activityType e"
  shows "\<exists>extra. fold (\<lambda>e m. if map_of m (ce_activityType e) \<noteq> None then m else AList.update (ce_activityType e) e m) es m
      = m @ map (\<lambda>e. (ce_activityType e, e)) extra
    \<and> set extra \<subseteq> set es \<and> distinct (map ce_activityType extra)
    \<and> ce_activityType ` set extra = ce_activityType ` set es - fst ` set m"
  using assms
proof (induction es arbitrary: m)
  case (Cons e es)
  let ?t = "ce_activityType e"
  show ?case
  proof (cases "?t \<in> fst ` set m")
    case True
    then have k: "map_of m ?t \<noteq> None" using js_map.get_keys[of m ?t] by simp
    obtain extra where "fold (\<lambda>e m. if map_of m (ce_activityType e) \<noteq> None then m else AList.update (ce_activityType e) e m) es m
        = m @ map (\<lambda>e. (ce_activityType e, e)) extra" "set extra \<subseteq> set es" "distinct (map ce_activityType extra)"
      "ce_activityType ` set extra = ce_activityType ` set es - fst ` set m"
      using Cons.IH[OF Cons.prems] by blast
    with True k show ?thesis by (intro exI[of _ extra]) auto
  next
    case False
    then have k: "map_of m ?t = None" using js_map.get_keys[of m ?t] by auto
    have u: "AList.update ?t e m = m @ [(?t, e)]" using False by (induction m) auto
    have "distinct (map fst (m @ [(?t, e)]))" using Cons.prems(1) False by simp
    moreover have "\<forall>(k, x)\<in>set (m @ [(?t, e)]). k = ce_activityType x" using Cons.prems(2) by auto
    ultimately obtain extra where "fold (\<lambda>e m. if map_of m (ce_activityType e) \<noteq> None then m else AList.update (ce_activityType e) e m) es (m @ [(?t, e)])
        = (m @ [(?t, e)]) @ map (\<lambda>e. (ce_activityType e, e)) extra" "set extra \<subseteq> set es" "distinct (map ce_activityType extra)"
      "ce_activityType ` set extra = ce_activityType ` set es - fst ` set (m @ [(?t, e)])"
      using Cons.IH[of "m @ [(?t, e)]"] by blast
    with False k u show ?thesis by (intro exI[of _ "e # extra"]) auto
  qed
qed simp

lemma merge_catalog_extra:
  assumes "distinct (map ce_activityType fallback)"
  shows "\<exists>extra. merge_catalog fallback server = fallback @ extra \<and> set extra \<subseteq> set (nullish server [])
    \<and> distinct (map ce_activityType extra)
    \<and> ce_activityType ` set extra = ce_activityType ` set (nullish server []) - ce_activityType ` set fallback"
proof -
  let ?m = "map_from (map (\<lambda>c. (ce_activityType c, c)) fallback)"
  have m: "?m = map (\<lambda>c. (ce_activityType c, c)) fallback"
  proof -
    have "distinct (map ce_activityType (xs @ ys)) \<Longrightarrow>
        fold (\<lambda>(k, v). AList.update k v) (map (\<lambda>c. (ce_activityType c, c)) ys) (map (\<lambda>c. (ce_activityType c, c)) xs)
        = map (\<lambda>c. (ce_activityType c, c)) (xs @ ys)" for xs ys
    proof (induction ys arbitrary: xs)
      case (Cons y ys)
      have "ce_activityType y \<notin> fst ` set (map (\<lambda>c. (ce_activityType c, c)) xs)" using Cons.prems by auto
      then have "AList.update (ce_activityType y) y (map (\<lambda>c. (ce_activityType c, c)) xs) = map (\<lambda>c. (ce_activityType c, c)) (xs @ [y])"
        by (induction xs) auto
      with Cons.IH[of "xs @ [y]"] Cons.prems show ?case by simp
    qed simp
    from this[of "[]" fallback] assms show ?thesis by (simp add: map_from_def)
  qed
  have "distinct (map fst ?m)" by simp
  moreover have "\<forall>(k, e)\<in>set ?m. k = ce_activityType e" by (simp add: m)
  ultimately obtain extra where "fold (\<lambda>e m. if map_of m (ce_activityType e) \<noteq> None then m else AList.update (ce_activityType e) e m)
        (nullish server []) ?m = ?m @ map (\<lambda>e. (ce_activityType e, e)) extra" "set extra \<subseteq> set (nullish server [])"
      "distinct (map ce_activityType extra)" "ce_activityType ` set extra = ce_activityType ` set (nullish server []) - fst ` set ?m"
    using merge_fold[of ?m "nullish server []"] by blast
  then show ?thesis by (intro exI[of _ extra]) (simp add: merge_catalog_def m comp_def image_comp)
qed

text \<open>The catalog shown is the gated static catalog, untouched and in front, followed by the server's
  connectors of other types, each type once; as long as the server's own connectors need no paid feature,
  nothing shown needs a feature the workspace lacks.\<close>

theorem merged_catalog_gated:
  assumes "distinct (map ce_activityType fallback)" and "fallback = catalogForFeatures catalog features"
    and "\<forall>e\<in>set (nullish server []). ce_requiredFeature e = None"
  shows "take (length fallback) (merge_catalog fallback server) = fallback
    \<and> distinct (map ce_activityType (merge_catalog fallback server))
    \<and> ce_activityType ` set (merge_catalog fallback server) = ce_activityType ` (set fallback \<union> set (nullish server []))
    \<and> (\<forall>e\<in>set (merge_catalog fallback server). \<forall>f. ce_requiredFeature e = Some f \<longrightarrow> features f)"
proof -
  obtain extra where e: "merge_catalog fallback server = fallback @ extra" "set extra \<subseteq> set (nullish server [])"
    "distinct (map ce_activityType extra)"
    "ce_activityType ` set extra = ce_activityType ` set (nullish server []) - ce_activityType ` set fallback"
    using merge_catalog_extra[OF assms(1)] by blast
  have "\<forall>f. ce_requiredFeature x = Some f \<longrightarrow> features f" if "x \<in> set fallback" for x
    using that unfolding assms(2) by (auto simp: catalogForFeatures_def entry_allowed_def)
  then show ?thesis using assms(1,3) e by (auto simp: image_Un)
qed

theorem merged_catalog_gated_witness:
  "distinct (map ce_activityType (merge_catalog (catalogForFeatures catalog_flow DEFAULT_PAID_FEATURES)
      (Some [(hd catalog_flow)\<lparr>ce_activityType := ''acme.fetch''\<rparr>])))"
proof -
  let ?s = "Some [(hd catalog_flow)\<lparr>ce_activityType := ''acme.fetch''\<rparr>]"
  have "distinct (map ce_activityType (catalogForFeatures catalog_flow DEFAULT_PAID_FEATURES))" by code_simp
  moreover have "\<forall>e\<in>set (nullish ?s []). ce_requiredFeature e = None" by (simp add: catalog_flow_def)
  ultimately show ?thesis using merged_catalog_gated[OF _ refl] by blast
qed

text \<open>The effect of the provider has no guard against late answers: the answer of an earlier run replaces
  the catalog of the present features.\<close>

lemma late_answer_wins:
  "cs_catalog (fold catalog_step
      [FeaturesChanged DEFAULT_PAID_FEATURES, FeaturesChanged (\<lambda>_. True), Answer 1 None, Answer 0 None]
      \<lparr>cs_catalog = [], cs_asked = []\<rparr>)
   = catalogForFeatures CATALOG DEFAULT_PAID_FEATURES"
  by (simp add: Let_def)

text \<open>The stored theme survives a reload, and toggling twice returns to where the first toggle began
  unless that was the mode of the system.\<close>

theorem theme_kept:
  "th_mode (theme_initial (th_stored (setMode m s))) = m
   \<and> dark sys (toggle (toggle s)) = (th_mode s = DarkMode)
   \<and> (th_mode s \<noteq> SystemMode \<longrightarrow> th_mode (toggle (toggle s)) = th_mode s)"
  by (cases m; cases "th_mode s") (simp_all add: theme_initial_def initial_mode_def setMode_def toggle_def dark_def)

end
