(* ===== verification/SessionTimer.thy ===== *)
theory SessionTimer
  imports Session
begin

text \<open>
  What the session and the theme do in time: the timer that renews the session
  (\<open>scheduleRefresh\<close>, \<open>clearSession\<close> of \<open>context/AuthContext.tsx\<close>) with the requests that are under way when
  it fires, and the effects of \<open>context/ThemeContext.tsx\<close> on the document. Theory Session gives each operation as a whole;
  here an operation that awaits the server is a start and an answer, which other events come between.
\<close>

section \<open>The timer\<close>

text \<open>The browser numbers timers from one; \<open>refreshTimer.current\<close> keeps the number of the last one, also after it has fired.\<close>

record refresh_timer =
  rt_current :: "nat option"
  rt_pending :: "(nat \<times> int) list"
  rt_next :: nat

definition no_timer :: refresh_timer where
  "no_timer = \<lparr>rt_current = None, rt_pending = [], rt_next = 1\<rparr>"

definition clearTimer :: "refresh_timer \<Rightarrow> refresh_timer" where
  "clearTimer t =
     (case rt_current t of None \<Rightarrow> t | Some i \<Rightarrow> t\<lparr>rt_pending := filter (\<lambda>p. fst p \<noteq> i) (rt_pending t)\<rparr>)"

definition scheduleRefresh :: "int \<Rightarrow> refresh_timer \<Rightarrow> refresh_timer" where
  "scheduleRefresh now t =
     (let t1 = clearTimer t in
      t1\<lparr>rt_current := Some (rt_next t1), rt_pending := rt_pending t1 @ [(rt_next t1, now + 14 * 60 * 1000)],
         rt_next := Suc (rt_next t1)\<rparr>)"

section \<open>The life of a session\<close>

text \<open>\<open>sl_refreshing\<close> and \<open>sl_leaving\<close> count the requests to renew and to sign out that have no answer yet.\<close>

record session_life =
  sl_user :: "string option"
  sl_timer :: refresh_timer
  sl_refreshing :: nat
  sl_leaving :: nat

definition life_start :: session_life where
  "life_start = \<lparr>sl_user = None, sl_timer = no_timer, sl_refreshing = 0, sl_leaving = 0\<rparr>"

definition refresh_asked :: "session_life \<Rightarrow> session_life" where
  "refresh_asked s = s\<lparr>sl_refreshing := Suc (sl_refreshing s)\<rparr>"

definition timer_fires :: "nat \<times> int \<Rightarrow> session_life \<Rightarrow> session_life" where
  "timer_fires p s =
     refresh_asked (s\<lparr>sl_timer := (sl_timer s)\<lparr>rt_pending := filter (\<lambda>q. fst q \<noteq> fst p) (rt_pending (sl_timer s))\<rparr>\<rparr>)"

definition apply_session :: "int \<Rightarrow> string \<Rightarrow> session_life \<Rightarrow> session_life" where
  "apply_session now user s = s\<lparr>sl_user := Some user, sl_timer := scheduleRefresh now (sl_timer s)\<rparr>"

definition clear_session :: "session_life \<Rightarrow> session_life" where
  "clear_session s = s\<lparr>sl_user := None, sl_timer := clearTimer (sl_timer s)\<rparr>"

definition refresh_answered :: "int \<Rightarrow> string option \<Rightarrow> session_life \<Rightarrow> session_life" where
  "refresh_answered now answer s =
     (let s1 = s\<lparr>sl_refreshing := sl_refreshing s - 1\<rparr> in
      case answer of Some user \<Rightarrow> apply_session now user s1 | None \<Rightarrow> clear_session s1)"

definition logout_asked :: "session_life \<Rightarrow> session_life" where
  "logout_asked s = s\<lparr>sl_leaving := Suc (sl_leaving s)\<rparr>"

definition logout_answered :: "session_life \<Rightarrow> session_life" where
  "logout_answered s = clear_session (s\<lparr>sl_leaving := sl_leaving s - 1\<rparr>)"

text \<open>A renewal is asked for on mount, by a call that was answered with 401, and by the timer.\<close>

inductive life_step :: "session_life \<Rightarrow> session_life \<Rightarrow> bool" where
  Asked: "life_step s (refresh_asked s)"
| Fired: "p \<in> set (rt_pending (sl_timer s)) \<Longrightarrow> life_step s (timer_fires p s)"
| Answered: "0 < sl_refreshing s \<Longrightarrow> life_step s (refresh_answered now answer s)"
| Leaving: "life_step s (logout_asked s)"
| Left: "0 < sl_leaving s \<Longrightarrow> life_step s (logout_answered s)"

abbreviation lives :: "session_life \<Rightarrow> bool" where
  "lives \<equiv> life_step\<^sup>*\<^sup>* life_start"

definition timer_inv :: "session_life \<Rightarrow> bool" where
  "timer_inv s \<longleftrightarrow> (let t = sl_timer s in
     (rt_pending t = [] \<or> (\<exists>i due. rt_pending t = [(i, due)] \<and> rt_current t = Some i \<and> sl_user s \<noteq> None)))"

lemma clear_empties: "timer_inv s \<Longrightarrow> rt_pending (clearTimer (sl_timer s)) = []"
  by (auto simp: timer_inv_def clearTimer_def Let_def split: option.split)

lemma timer_inv_step:
  assumes "life_step s s'" and "timer_inv s"
  shows "timer_inv s'"
  using assms(1)
proof cases
  case (Answered now answer)
  then show ?thesis using clear_empties[OF assms(2)]
    by (cases answer) (simp_all add: timer_inv_def refresh_answered_def apply_session_def clear_session_def scheduleRefresh_def Let_def)
next
  case Left
  then show ?thesis using clear_empties[OF assms(2)] by (simp add: timer_inv_def logout_answered_def clear_session_def)
next
  case (Fired p)
  then show ?thesis using assms(2) by (auto simp: timer_inv_def timer_fires_def refresh_asked_def Let_def)
qed (use assms(2) in \<open>simp_all add: timer_inv_def refresh_asked_def logout_asked_def\<close>)

text \<open>However renewals, sign-outs and timers interleave, at most one timer is pending, the one that \<open>clearSession\<close> would stop; and
  when nobody is signed in none is, so an idle session that was left is never renewed by itself.\<close>

theorem one_timer:
  assumes "lives s"
  shows "length (rt_pending (sl_timer s)) \<le> 1 \<and> (sl_user s = None \<longrightarrow> rt_pending (sl_timer s) = [])
    \<and> rt_pending (sl_timer (clear_session s)) = []"
proof -
  have "timer_inv s" using assms
  proof (induction rule: rtranclp_induct)
    case base
    then show ?case by (simp add: timer_inv_def life_start_def no_timer_def)
  next
    case (step s s')
    then show ?case using timer_inv_step by blast
  qed
  then show ?thesis using clear_empties[of s] by (auto simp: timer_inv_def clear_session_def Let_def)
qed

text \<open>A renewal that was under way when the user signed out signs the user in again, with a new timer.\<close>

definition signed_in :: session_life where
  "signed_in = refresh_answered 0 (Some ''ann'') (refresh_asked life_start)"

definition left_while_renewing :: session_life where
  "left_while_renewing = logout_answered (logout_asked (timer_fires (1, 840000) signed_in))"

lemmas life_eval = signed_in_def left_while_renewing_def refresh_answered_def refresh_asked_def life_start_def logout_answered_def
  logout_asked_def timer_fires_def apply_session_def clear_session_def scheduleRefresh_def clearTimer_def no_timer_def

lemma signed_in_lives: "lives signed_in"
proof -
  have "life_step life_start (refresh_asked life_start)" by (rule Asked)
  moreover have "life_step (refresh_asked life_start) signed_in"
    unfolding signed_in_def by (rule life_step.Answered) (simp add: refresh_asked_def)
  ultimately show ?thesis by (meson r_into_rtranclp rtranclp_trans)
qed

lemma logout_undone:
  "lives left_while_renewing" "sl_user left_while_renewing = None"
  "lives (refresh_answered 900000 (Some ''ann'') left_while_renewing)"
  "sl_user (refresh_answered 900000 (Some ''ann'') left_while_renewing) = Some ''ann''"
  "rt_pending (sl_timer (refresh_answered 900000 (Some ''ann'') left_while_renewing)) = [(2, 1740000)]"
proof -
  have "life_step signed_in (timer_fires (1, 840000) signed_in)" by (rule Fired) (simp add: life_eval)
  moreover have "life_step (timer_fires (1, 840000) signed_in) (logout_asked (timer_fires (1, 840000) signed_in))" by (rule Leaving)
  moreover have "life_step (logout_asked (timer_fires (1, 840000) signed_in)) left_while_renewing"
    unfolding left_while_renewing_def by (rule Left) (simp add: logout_asked_def)
  ultimately show l: "lives left_while_renewing" using signed_in_lives by (meson rtranclp.rtrancl_into_rtrancl)
  show "sl_user left_while_renewing = None" by (simp add: life_eval)
  have "life_step left_while_renewing (refresh_answered 900000 (Some ''ann'') left_while_renewing)"
    by (rule life_step.Answered) (simp add: life_eval)
  then show "lives (refresh_answered 900000 (Some ''ann'') left_while_renewing)" using l by (rule rtranclp.rtrancl_into_rtrancl[rotated])
  show "sl_user (refresh_answered 900000 (Some ''ann'') left_while_renewing) = Some ''ann''"
    "rt_pending (sl_timer (refresh_answered 900000 (Some ''ann'') left_while_renewing)) = [(2, 1740000)]"
    by (simp_all add: life_eval)
qed

theorem one_timer_witness:
  "rt_pending (sl_timer signed_in) = [(1, 840000)] \<and> rt_pending (sl_timer (clear_session signed_in)) = []"
  using one_timer[OF signed_in_lives] by (simp add: life_eval)

section \<open>The theme of the document\<close>

text \<open>\<open>td_rendered\<close> is the value \<open>dark\<close> of the last render, \<open>td_class\<close> whether the document has the class, \<open>td_os\<close> the
  preference of the system, \<open>td_listening\<close> whether the listener is installed.\<close>

record theme_dom =
  td_theme :: theme_state
  td_os :: bool
  td_rendered :: bool
  td_class :: bool
  td_listening :: bool

definition theme_mounted :: "bool \<Rightarrow> string option \<Rightarrow> theme_dom" where
  "theme_mounted os stored =
     (let s = theme_initial stored; d = dark os s in
      \<lparr>td_theme = s, td_os = os, td_rendered = d, td_class = d, td_listening = (th_mode s = SystemMode)\<rparr>)"

text \<open>A render and its effects: the first runs when \<open>dark\<close> differs from the former render, the second when the mode does.\<close>

definition theme_rendered :: "theme_state \<Rightarrow> theme_dom \<Rightarrow> theme_dom" where
  "theme_rendered s st =
     (let d = dark (td_os st) s in
      st\<lparr>td_theme := s, td_rendered := d, td_class := (if d \<noteq> td_rendered st then d else td_class st),
         td_listening := (th_mode s = SystemMode)\<rparr>)"

text \<open>\<open>setMode\<close>; the present mode is stored again but does not render.\<close>

definition choose_mode :: "theme_mode \<Rightarrow> theme_dom \<Rightarrow> theme_dom" where
  "choose_mode m st =
     (let s = setMode m (td_theme st) in
      if m = th_mode (td_theme st) then st\<lparr>td_theme := s\<rparr> else theme_rendered s st)"

definition os_changed :: "bool \<Rightarrow> theme_dom \<Rightarrow> theme_dom" where
  "os_changed b st = (let st1 = st\<lparr>td_os := b\<rparr> in if td_listening st then st1\<lparr>td_class := b\<rparr> else st1)"

inductive theme_step :: "theme_dom \<Rightarrow> theme_dom \<Rightarrow> bool" where
  Chosen: "theme_step st (choose_mode m st)"
| System: "theme_step st (os_changed b st)"

text \<open>A step that does not leave the system's theme behind a render that the system has overtaken.\<close>

definition settled :: "theme_dom \<Rightarrow> bool" where
  "settled st \<longleftrightarrow> th_mode (td_theme st) = SystemMode \<longrightarrow> td_rendered st = td_os st"

inductive settled_step :: "theme_dom \<Rightarrow> theme_dom \<Rightarrow> bool" where
  "settled st \<Longrightarrow> settled_step st (choose_mode m st)"
| "settled_step st (os_changed b st)"

definition theme_inv :: "theme_dom \<Rightarrow> bool" where
  "theme_inv st \<longleftrightarrow> td_class st = dark (td_os st) (td_theme st) \<and> td_listening st = (th_mode (td_theme st) = SystemMode)
     \<and> (th_mode (td_theme st) \<noteq> SystemMode \<longrightarrow> td_rendered st = td_class st)"

lemma theme_inv_step: "settled_step st st' \<Longrightarrow> theme_inv st \<Longrightarrow> theme_inv st'"
  by (induction rule: settled_step.induct)
    (auto simp: theme_inv_def settled_def choose_mode_def theme_rendered_def os_changed_def setMode_def dark_def Let_def)

text \<open>The document has the class of the theme in every reachable state, as long as the mode is not changed between a change of
  the system's preference and the next render.\<close>

theorem class_of_theme:
  assumes "settled_step\<^sup>*\<^sup>* (theme_mounted os stored) st"
  shows "td_class st = dark (td_os st) (td_theme st)"
proof -
  have "theme_inv st" using assms
  proof (induction rule: rtranclp_induct)
    case base
    then show ?case by (simp add: theme_inv_def theme_mounted_def Let_def)
  next
    case (step st st')
    then show ?case using theme_inv_step by blast
  qed
  then show ?thesis by (simp add: theme_inv_def)
qed

text \<open>Without that proviso it fails: the system turns dark while its theme is followed, the user chooses the light theme, and the
  page stays dark, since \<open>dark\<close> was \<open>false\<close> before and is \<open>false\<close> now. It then shows dark under a light system too.\<close>

lemma light_stays_dark:
  assumes "st = choose_mode LightMode (os_changed True (theme_mounted False None))"
  shows "theme_step\<^sup>*\<^sup>* (theme_mounted False None) st" "th_mode (td_theme st) = LightMode" "td_class st"
    "td_class (choose_mode SystemMode (os_changed False st))"
proof -
  show "theme_step\<^sup>*\<^sup>* (theme_mounted False None) st"
    unfolding assms by (meson Chosen System r_into_rtranclp rtranclp.rtrancl_into_rtrancl)
  show "th_mode (td_theme st) = LightMode" "td_class st" "td_class (choose_mode SystemMode (os_changed False st))"
    by (simp_all add: assms choose_mode_def os_changed_def theme_mounted_def theme_rendered_def theme_initial_def initial_mode_def
        setMode_def dark_def Let_def)
qed

text \<open>The value that the provider hands out is that of the last render: a change of the system does not reach it.\<close>

lemma context_goes_stale:
  "let st = os_changed True (theme_mounted False None) in td_class st \<and> \<not> td_rendered st"
  by (simp add: os_changed_def theme_mounted_def theme_initial_def initial_mode_def dark_def Let_def)

theorem class_of_theme_witness:
  "td_class (choose_mode DarkMode (theme_mounted False (Some ''light'')))"
proof -
  have "settled_step (theme_mounted False (Some ''light'')) (choose_mode DarkMode (theme_mounted False (Some ''light'')))"
    by (rule settled_step.intros) (simp add: settled_def theme_mounted_def theme_initial_def initial_mode_def Let_def)
  then show ?thesis
    using class_of_theme[of False "Some ''light''" "choose_mode DarkMode (theme_mounted False (Some ''light''))"]
    by (simp add: r_into_rtranclp choose_mode_def theme_rendered_def theme_mounted_def theme_initial_def initial_mode_def
        setMode_def dark_def Let_def)
qed

end
