(* ===== verification/Hooks.thy ===== *)
theory Hooks
  imports Json
begin

text \<open>
  The data-loading hooks of the web application: \<open>hooks/useApiQuery.ts\<close> and
  \<open>hooks/useApiResource.ts\<close>, which must not let a late answer overwrite a newer one, and
  \<open>hooks/useAiGenerate.ts\<close>, which brings the answer of the AI builder into shape.

  A hook is a state with two events: a fetch starts (on mount, on a changed key, on \<open>refresh\<close>),
  and the fetch with a given number settles. Fetches settle in any order. The locale
  \<open>latest_wins\<close> states the contract of the two hooks; both are shown to keep it.
\<close>

section \<open>The contract\<close>

datatype 'v event = Start | Settle nat "string + 'v"

locale latest_wins =
  fixes start :: "'s \<Rightarrow> 's"
    and settle :: "nat \<Rightarrow> string + 'v \<Rightarrow> 's \<Rightarrow> 's"
    and current :: "'s \<Rightarrow> nat"
    and busy :: "'s \<Rightarrow> bool"
    and shows_result :: "'s \<Rightarrow> string + 'v \<Rightarrow> bool"
    and mounted :: "'s \<Rightarrow> bool"
  assumes start_current: "mounted s \<Longrightarrow> current (start s) = Suc (current s)"
    and start_busy: "mounted s \<Longrightarrow> busy (start s)"
    and start_mounted: "mounted s \<Longrightarrow> mounted (start s)"
    and settle_current: "current (settle i out s) = current s"
    and settle_mounted: "mounted s \<Longrightarrow> mounted (settle i out s)"
    and stale: "i \<noteq> current s \<Longrightarrow> settle i out s = s"
    and fresh: "mounted s \<Longrightarrow> i = current s \<Longrightarrow> \<not> busy (settle i out s) \<and> shows_result (settle i out s) out"
begin

fun step :: "'v event \<Rightarrow> 's \<Rightarrow> 's" where
  "step Start s = start s"
| "step (Settle i out) s = settle i out s"

definition run :: "'v event list \<Rightarrow> 's \<Rightarrow> 's" where
  "run evs s = fold step evs s"

lemma run_snoc: "run (evs @ [e]) s = step e (run evs s)"
  by (simp add: run_def)

lemma run_mounted: "mounted s \<Longrightarrow> mounted (run evs s)"
proof (induction evs rule: rev_induct)
  case (snoc e evs)
  then show ?case by (cases e) (simp_all add: run_snoc start_mounted settle_mounted)
qed (simp add: run_def)

text \<open>What is on display when nothing is loading is the answer to the fetch started last.\<close>

lemma shows_latest:
  assumes "mounted s0" and "busy s0"
  shows "\<not> busy (run evs s0) \<Longrightarrow>
    \<exists>xs out ys. evs = xs @ Settle (current (run evs s0)) out # ys \<and> Start \<notin> set ys
      \<and> (\<forall>out'. Settle (current (run evs s0)) out' \<notin> set ys) \<and> shows_result (run evs s0) out"
proof (induction evs rule: rev_induct)
  case Nil
  then show ?case using assms(2) by (simp add: run_def)
next
  case (snoc e evs)
  let ?s = "run evs s0"
  have m: "mounted ?s" by (rule run_mounted[OF assms(1)])
  show ?case
  proof (cases e)
    case Start
    then show ?thesis using snoc.prems start_busy[OF m] by (simp add: run_snoc)
  next
    case (Settle i out)
    show ?thesis
    proof (cases "i = current ?s")
      case True
      then have "shows_result (run (evs @ [e]) s0) out" "current (run (evs @ [e]) s0) = i"
        using fresh[OF m True, of out] Settle by (simp_all add: run_snoc settle_current)
      then show ?thesis using Settle by (intro exI[of _ evs] exI[of _ out] exI[of _ "[]"]) simp
    next
      case False
      then have same: "run (evs @ [e]) s0 = ?s" using Settle stale by (simp add: run_snoc)
      then obtain xs out' ys where "evs = xs @ Settle (current ?s) out' # ys" "Start \<notin> set ys"
        "\<forall>o2. Settle (current ?s) o2 \<notin> set ys" "shows_result ?s out'"
        using snoc by auto
      then show ?thesis
        unfolding same using Settle False by (intro exI[of _ xs] exI[of _ out'] exI[of _ "ys @ [e]"]) auto
    qed
  qed
qed

end

section \<open>useApiQuery\<close>

text \<open>Each run of the effect aborts the controller of the one before; a settled promise whose
  controller is aborted is ignored. \<open>aq_controller\<close> numbers the controllers; unmounting aborts the
  last one.\<close>

record 'v api_query =
  aq_data :: "'v option"
  aq_error :: "string option"
  aq_loading :: bool
  aq_controller :: nat
  aq_mounted :: bool

definition aq_initial :: "'v api_query" where
  "aq_initial = \<lparr>aq_data = None, aq_error = None, aq_loading = True, aq_controller = 0, aq_mounted = True\<rparr>"

definition aq_effect :: "'v api_query \<Rightarrow> 'v api_query" where
  "aq_effect s = s\<lparr>aq_controller := Suc (aq_controller s), aq_error := None, aq_loading := True\<rparr>"

definition aq_aborted :: "nat \<Rightarrow> 'v api_query \<Rightarrow> bool" where
  "aq_aborted i s \<longleftrightarrow> i \<noteq> aq_controller s \<or> \<not> aq_mounted s"

definition aq_settle :: "nat \<Rightarrow> string + 'v \<Rightarrow> 'v api_query \<Rightarrow> 'v api_query" where
  "aq_settle i out s =
     (if aq_aborted i s then s
      else case out of
        Inr v \<Rightarrow> s\<lparr>aq_data := Some v, aq_error := None, aq_loading := False\<rparr>
      | Inl e \<Rightarrow> s\<lparr>aq_data := None, aq_error := Some e, aq_loading := False\<rparr>)"

definition aq_unmount :: "'v api_query \<Rightarrow> 'v api_query" where
  "aq_unmount s = s\<lparr>aq_mounted := False\<rparr>"

definition aq_shows :: "'v api_query \<Rightarrow> string + 'v \<Rightarrow> bool" where
  "aq_shows s out = (case out of Inr v \<Rightarrow> aq_data s = Some v \<and> aq_error s = None
     | Inl e \<Rightarrow> aq_data s = None \<and> aq_error s = Some e)"

interpretation api_query: latest_wins aq_effect aq_settle aq_controller aq_loading aq_shows aq_mounted
  by unfold_locales (auto simp: aq_effect_def aq_settle_def aq_aborted_def aq_shows_def split: sum.splits)

section \<open>useApiResource\<close>

text \<open>The counter numbers the runs; after an error the previous data stay.\<close>

record 'v api_resource =
  ar_data :: "'v option"
  ar_loading :: bool
  ar_error :: "string option"
  ar_counter :: nat

definition ar_initial :: "'v api_resource" where
  "ar_initial = \<lparr>ar_data = None, ar_loading = True, ar_error = None, ar_counter = 0\<rparr>"

definition ar_run :: "'v api_resource \<Rightarrow> 'v api_resource" where
  "ar_run s = s\<lparr>ar_counter := Suc (ar_counter s), ar_loading := True, ar_error := None\<rparr>"

definition ar_settle :: "nat \<Rightarrow> string + 'v \<Rightarrow> 'v api_resource \<Rightarrow> 'v api_resource" where
  "ar_settle i out s =
     (if i \<noteq> ar_counter s then s
      else (case out of Inr v \<Rightarrow> s\<lparr>ar_data := Some v\<rparr> | Inl e \<Rightarrow> s\<lparr>ar_error := Some e\<rparr>)\<lparr>ar_loading := False\<rparr>)"

definition ar_shows :: "'v api_resource \<Rightarrow> string + 'v \<Rightarrow> bool" where
  "ar_shows s out = (case out of Inr v \<Rightarrow> ar_data s = Some v | Inl e \<Rightarrow> ar_error s = Some e)"

interpretation api_resource: latest_wins ar_run ar_settle ar_counter ar_loading ar_shows "\<lambda>_. True"
  by unfold_locales (auto simp: ar_run_def ar_settle_def ar_shows_def split: sum.splits)

section \<open>useAiGenerate\<close>

datatype ai_status = Ready | NeedsInput | Rejected

record ai_result =
  ai_status :: ai_status
  ai_mermaid :: string
  ai_definition :: "json option"
  ai_warnings :: "string list"
  ai_assumptions :: "string list"
  ai_questions :: "string list"

text \<open>\<open>response?.key\<close>; only objects have the properties that are read here.\<close>

definition prop_of :: "json \<Rightarrow> string \<Rightarrow> json option" where
  "prop_of v k = (case v of JObj es \<Rightarrow> obj_get es k | _ \<Rightarrow> None)"

definition strings :: "json option \<Rightarrow> string list" where
  "strings v = (case v of
      Some (JArr js) \<Rightarrow> List.map_filter (\<lambda>item. case item of JStr s \<Rightarrow> if js_trim s \<noteq> [] then Some s else None | _ \<Rightarrow> None) js
    | _ \<Rightarrow> [])"

definition falsy :: "json option \<Rightarrow> bool" where
  "falsy v \<longleftrightarrow> \<not> truthy_json v"

definition known_status :: "json option \<Rightarrow> ai_status option" where
  "known_status v =
     (if v = Some (JStr ''ready'') then Some Ready
      else if v = Some (JStr ''needs_input'') then Some NeedsInput
      else if v = Some (JStr ''rejected'') then Some Rejected
      else None)"

definition normalizeAiGenerateResult :: "json \<Rightarrow> ai_result" where
  "normalizeAiGenerateResult response =
     (let rawStatus = prop_of response ''status'';
          hasStatus = (rawStatus \<noteq> None);
          requested = (if \<not> hasStatus then Ready else nullish (known_status rawStatus) Rejected);
          own = prop_of response ''definition'';
          def = (if requested = Ready
                 then (if own \<noteq> None \<and> own \<noteq> Some JNull then own
                       else case prop_of response ''nodes'' of Some (JArr _) \<Rightarrow> Some response | _ \<Rightarrow> None)
                 else None)
      in \<lparr>ai_status = (if requested = Ready \<and> falsy def then Rejected else requested),
          ai_mermaid = (case prop_of response ''mermaid'' of Some (JStr m) \<Rightarrow> m | _ \<Rightarrow> ''''),
          ai_definition = def,
          ai_warnings = strings (prop_of response ''warnings'')
            @ (if requested = Ready \<and> falsy def then [''The AI response did not include a pipeline definition.''] else [])
            @ (if hasStatus \<and> known_status rawStatus = None then [''The AI response included an unsupported status.''] else []),
          ai_assumptions = strings (prop_of response ''assumptions''),
          ai_questions = strings (prop_of response ''questions'')\<rparr>)"

record ai_hook =
  ah_loading :: bool
  ah_error :: "string option"

definition ah_start :: "ai_hook \<Rightarrow> ai_hook" where
  "ah_start s = \<lparr>ah_loading = True, ah_error = None\<rparr>"

text \<open>\<open>generate\<close> and \<open>refine\<close>: the answer of the call and the state after it.\<close>

definition ah_finish :: "string + json \<Rightarrow> ai_hook \<Rightarrow> ai_result option \<times> ai_hook" where
  "ah_finish out s =
     (case out of
        Inr v \<Rightarrow> (Some (normalizeAiGenerateResult v), s\<lparr>ah_loading := False\<rparr>)
      | Inl e \<Rightarrow> (None, s\<lparr>ah_error := Some e, ah_loading := False\<rparr>))"

section \<open>Properties\<close>

text \<open>C6: whatever order the answers come in, a query that is not loading shows the answer to the fetch
  that was started last: no later start, no other answer to it, and data and error as it said.\<close>

theorem useApiQuery_latest:
  assumes "\<not> aq_loading (api_query.run evs aq_initial)"
  shows "\<exists>xs out ys. evs = xs @ Settle (aq_controller (api_query.run evs aq_initial)) out # ys \<and> Start \<notin> set ys
    \<and> (\<forall>out'. Settle (aq_controller (api_query.run evs aq_initial)) out' \<notin> set ys)
    \<and> (case out of Inr v \<Rightarrow> aq_data (api_query.run evs aq_initial) = Some v \<and> aq_error (api_query.run evs aq_initial) = None
        | Inl e \<Rightarrow> aq_data (api_query.run evs aq_initial) = None \<and> aq_error (api_query.run evs aq_initial) = Some e)"
proof -
  have "aq_mounted aq_initial" "aq_loading aq_initial" by (simp_all add: aq_initial_def)
  from api_query.shows_latest[OF this assms] show ?thesis unfolding aq_shows_def by blast
qed

text \<open>An answer that comes after the component is gone is dropped.\<close>

lemma aq_unmounted_inert: "aq_settle i out (aq_unmount s) = aq_unmount s"
  by (simp add: aq_settle_def aq_unmount_def aq_aborted_def)

text \<open>The same for the resource hook; after an error it says so, and keeps the data it had.\<close>

theorem useApiResource_latest:
  assumes "\<not> ar_loading (api_resource.run evs ar_initial)"
  shows "\<exists>xs out ys. evs = xs @ Settle (ar_counter (api_resource.run evs ar_initial)) out # ys \<and> Start \<notin> set ys
    \<and> (\<forall>out'. Settle (ar_counter (api_resource.run evs ar_initial)) out' \<notin> set ys)
    \<and> (case out of Inr v \<Rightarrow> ar_data (api_resource.run evs ar_initial) = Some v
        | Inl e \<Rightarrow> ar_error (api_resource.run evs ar_initial) = Some e)"
proof -
  have "ar_loading ar_initial" by (simp add: ar_initial_def)
  from api_resource.shows_latest[OF _ this assms] show ?thesis unfolding ar_shows_def by blast
qed

text \<open>Two fetches of a query, the second one answering first.\<close>

theorem useApiQuery_latest_witness:
  "let evs = [Start, Start, Settle 2 (Inr ''new''), Settle 1 (Inr ''old'')] in
   \<exists>xs out ys. evs = xs @ Settle (aq_controller (api_query.run evs aq_initial)) out # ys \<and> Start \<notin> set ys"
proof -
  let ?evs = "[Start, Start, Settle 2 (Inr ''new''), Settle 1 (Inr ''old'')]"
  have "\<not> aq_loading (api_query.run ?evs aq_initial)"
    by (simp add: api_query.run_def aq_initial_def aq_effect_def aq_settle_def aq_aborted_def)
  from useApiQuery_latest[OF this] show ?thesis unfolding Let_def by blast
qed

theorem useApiResource_latest_witness:
  "let evs = [Start, Settle 1 (Inr ''old''), Start, Settle 2 (Inl ''down'')] in
   \<exists>xs out ys. evs = xs @ Settle (ar_counter (api_resource.run evs ar_initial)) out # ys \<and> Start \<notin> set ys"
proof -
  let ?evs = "[Start, Settle 1 (Inr ''old''), Start, Settle 2 (Inl ''down'')]"
  have "\<not> ar_loading (api_resource.run ?evs ar_initial)"
    by (simp add: api_resource.run_def ar_initial_def ar_run_def ar_settle_def)
  from useApiResource_latest[OF this] show ?thesis unfolding Let_def by blast
qed

text \<open>A proposal counts as ready exactly when the server asked for nothing else and there is a
  definition to apply; a result that is not ready carries none, and a missing definition or an unknown
  status is told to the user.\<close>

theorem normalize_ready_iff:
  fixes response
  defines "r \<equiv> normalizeAiGenerateResult response"
  shows "(ai_status r = Ready \<longleftrightarrow> prop_of response ''status'' \<in> {None, Some (JStr ''ready'')} \<and> \<not> falsy (ai_definition r))
    \<and> (ai_status r = Ready \<longleftrightarrow> \<not> falsy (ai_definition r))
    \<and> (known_status (prop_of response ''status'') \<notin> {Some NeedsInput, Some Rejected} \<and> ai_status r = Rejected
        \<longrightarrow> ai_warnings r \<noteq> [] \<and> last (ai_warnings r) \<in> {''The AI response did not include a pipeline definition.'',
              ''The AI response included an unsupported status.''})"
proof -
  have f: "falsy None" by (simp add: falsy_def truthy_json_def)
  consider "prop_of response ''status'' = None" | "prop_of response ''status'' = Some (JStr ''ready'')"
    | "prop_of response ''status'' \<noteq> None" "prop_of response ''status'' \<noteq> Some (JStr ''ready'')" by blast
  then show ?thesis
  proof cases
    case 1
    then show ?thesis by (simp add: r_def normalizeAiGenerateResult_def Let_def known_status_def)
  next
    case 2
    then show ?thesis by (simp add: r_def normalizeAiGenerateResult_def Let_def known_status_def)
  next
    case 3
    then show ?thesis using f by (auto simp: r_def normalizeAiGenerateResult_def Let_def known_status_def)
  qed
qed


theorem normalize_ready_iff_witness:
  "ai_status (normalizeAiGenerateResult (JObj [])) = Rejected
   \<and> last (ai_warnings (normalizeAiGenerateResult (JObj []))) = ''The AI response did not include a pipeline definition.''"
proof -
  have "ai_status (normalizeAiGenerateResult (JObj [])) = Rejected"
    and "known_status (prop_of (JObj []) ''status'') = None"
    and "ai_warnings (normalizeAiGenerateResult (JObj [])) = [''The AI response did not include a pipeline definition.'']"
    by code_simp+
  then show ?thesis using normalize_ready_iff[of "JObj []"] by simp
qed

end
