(* ===== verification/FlowConvert.thy ===== *)
theory FlowConvert
  imports PipelineTypes
begin

text \<open>
  The conversions between a saved definition and the canvas
  (\<open>apps/web/src/utils/pipelineConvert.ts\<close>), the life-cycle stage of a version
  (\<open>utils/pipelineStage.ts\<close>) and the graph of a run (\<open>pages/runGraph.ts\<close>).

  A definition reaches these functions as untyped JSON, so the properties the code defends
  against being absent are options here: the type of a node, the id of an edge. The clock that
  names an edge without id is the parameter \<open>clock\<close>, a reading per edge; the catalog index is
  the parameter \<open>byType\<close>.
\<close>

record saved_node =
  sn_id :: string
  sn_type :: "node_type option"
  sn_activityType :: string
  sn_label :: "string option"
  sn_config :: "(string \<times> json) list"
  sn_ingestion :: "ingestion_config option"
  sn_timeoutSec :: "int option"
  sn_retry :: "int option option"
  sn_mergeStrategy :: "json option"
  sn_joinKey :: "json option"
  sn_inputAssets :: "data_asset list option"
  sn_outputAssets :: "data_asset list option"

record saved_edge =
  se_id :: "string option"
  se_source :: string
  se_target :: string
  se_condition :: "string option"

record saved_definition =
  sd_id :: string
  sd_version :: int
  sd_name :: string
  sd_tenantId :: string
  sd_trigger :: "trigger option"
  sd_nodes :: "saved_node list"
  sd_edges :: "saved_edge list"
  sd_concurrency :: "int option option"
  sd_metadata :: "pipeline_metadata option"
  sd_slo :: "pipeline_slo option"
  sd_notifications :: "notification_policy option"
  sd_execution :: "execution_config option"

record flow_node =
  fn_id :: string
  fn_position :: "int \<times> int"
  fn_activityType :: string
  fn_nodeType :: "node_type option"
  fn_label :: "string option"
  fn_ingestion :: "ingestion_config option"
  fn_config :: "(string \<times> json) list"

text \<open>\<open>label\<close>, \<open>animated\<close> and the two styles of a canvas edge follow its condition.\<close>

record flow_edge =
  fe_id :: string
  fe_source :: string
  fe_target :: string
  fe_condition :: "string option"
  fe_label :: "string option"
  fe_animated :: bool
  fe_highlighted :: bool

record flow_meta =
  fm_name :: string
  fm_trigger :: "trigger option"
  fm_pipelineKey :: "string option"
  fm_metadata :: "pipeline_metadata option"
  fm_slo :: "pipeline_slo option"
  fm_notifications :: "notification_policy option"
  fm_execution :: "execution_config option"

section \<open>Saved definition to canvas\<close>

definition spread_if :: "string \<Rightarrow> json option \<Rightarrow> (string \<times> json) list \<Rightarrow> (string \<times> json) list" where
  "spread_if k v ob = (if truthy_json v then AList.update k (the v) ob else ob)"

definition canvas_node :: "(string \<Rightarrow> catalog_entry option) \<Rightarrow> nat \<times> saved_node \<Rightarrow> flow_node" where
  "canvas_node byType x =
     (let i = int (fst x); pn = snd x in
      \<lparr>fn_id = sn_id pn, fn_position = (80 + i * 60, 80 + (i mod 5) * 100), fn_activityType = sn_activityType pn,
       fn_nodeType = (case sn_type pn of Some t \<Rightarrow> Some t | None \<Rightarrow> map_option ce_nodeType (byType (sn_activityType pn))),
       fn_label = sn_label pn, fn_ingestion = sn_ingestion pn,
       fn_config = spread_if ''joinKey'' (sn_joinKey pn) (spread_if ''mergeStrategy'' (sn_mergeStrategy pn) (sn_config pn))\<rparr>)"

definition canvas_edge :: "(nat \<Rightarrow> int) \<Rightarrow> nat \<times> saved_edge \<Rightarrow> flow_edge" where
  "canvas_edge clock x =
     (let e = snd x; c = truthy (se_condition e) in
      \<lparr>fe_id = (case se_id e of Some i \<Rightarrow> i
                 | None \<Rightarrow> ''e'' @ int_str (clock (fst x)) @ ''-'' @ se_source e @ ''-'' @ se_target e),
       fe_source = se_source e, fe_target = se_target e, fe_condition = se_condition e,
       fe_label = c, fe_animated = (c \<noteq> None), fe_highlighted = (c \<noteq> None)\<rparr>)"

definition numbered :: "'a list \<Rightarrow> (nat \<times> 'a) list" where
  "numbered xs = zip [0..<length xs] xs"

definition definitionToFlow :: "(nat \<Rightarrow> int) \<Rightarrow> (string \<Rightarrow> catalog_entry option) \<Rightarrow> saved_node list \<Rightarrow> saved_edge list
    \<Rightarrow> flow_node list \<times> flow_edge list" where
  "definitionToFlow clock byType nodes edges =
     (map (canvas_node byType) (numbered nodes), map (canvas_edge clock) (numbered edges))"

section \<open>Canvas to saved definition\<close>

definition saved_of_node :: "flow_node \<Rightarrow> saved_node" where
  "saved_of_node n =
     \<lparr>sn_id = fn_id n, sn_type = fn_nodeType n, sn_activityType = fn_activityType n, sn_label = fn_label n,
      sn_config = fn_config n, sn_ingestion = fn_ingestion n, sn_timeoutSec = None, sn_retry = None,
      sn_mergeStrategy = obj_get (fn_config n) ''mergeStrategy'', sn_joinKey = obj_get (fn_config n) ''joinKey'',
      sn_inputAssets = None, sn_outputAssets = None\<rparr>"

definition saved_of_edge :: "flow_edge \<Rightarrow> saved_edge" where
  "saved_of_edge e = \<lparr>se_id = Some (fe_id e), se_source = fe_source e, se_target = fe_target e,
     se_condition = truthy (fe_condition e)\<rparr>"

definition flowToDefinition :: "flow_node list \<Rightarrow> flow_edge list \<Rightarrow> flow_meta \<Rightarrow> saved_definition" where
  "flowToDefinition nodes edges meta =
     \<lparr>sd_id = nullish (fm_pipelineKey meta) '''', sd_version = 0, sd_name = fm_name meta, sd_tenantId = ''default'',
      sd_trigger = fm_trigger meta, sd_nodes = map saved_of_node nodes, sd_edges = map saved_of_edge edges,
      sd_concurrency = None, sd_metadata = fm_metadata meta, sd_slo = fm_slo meta,
      sd_notifications = fm_notifications meta, sd_execution = fm_execution meta\<rparr>"

section \<open>Stages\<close>

datatype stage = Draft | Testing | Production | Archived

fun displayStage :: "stage \<Rightarrow> string" where
  "displayStage Draft = ''Draft''"
| "displayStage Testing = ''Integration''"
| "displayStage Production = ''Production''"
| "displayStage Archived = ''Archived''"

definition ENV_LABEL :: "(string \<times> string) list" where
  "ENV_LABEL = [(''test'', ''Integration''), (''prod'', ''Production'')]"

definition displayEnvironment :: "string option \<Rightarrow> string" where
  "displayEnvironment environment =
     (case truthy environment of
        None \<Rightarrow> ''Integration''
      | Some e \<Rightarrow> nullish (map_of ENV_LABEL e) e)"

definition deriveStage :: "string option \<Rightarrow> string option \<Rightarrow> stage" where
  "deriveStage status environment =
     (if status = Some ''active'' \<and> environment = Some ''prod'' then Production
      else if status = Some ''active'' \<and> environment = Some ''test'' then Testing
      else if status = Some ''archived'' then Archived
      else Draft)"

section \<open>The graph of a run\<close>

record run_record =
  rr_node_id :: string
  rr_status :: "string option"
  rr_duration_ms :: "int option"
  rr_record_count :: "int option"
  rr_error :: "string option"

record run_node =
  rn_id :: string
  rn_position :: "int \<times> int"
  rn_activityType :: string
  rn_nodeType :: "node_type option"
  rn_label :: "string option"
  rn_status :: "string option"
  rn_recordCount :: "int option"
  rn_durationMs :: "int option"
  rn_error :: "string option"

record run_edge =
  re_id :: string
  re_source :: string
  re_target :: string
  re_label :: "string option"

text \<open>\<open>to_locale\<close> is \<open>Number.prototype.toLocaleString\<close> of the browser's locale.\<close>

definition buildRunGraph :: "(int \<Rightarrow> string) \<Rightarrow> saved_node list \<Rightarrow> saved_edge list \<Rightarrow> run_record list
    \<Rightarrow> run_node list \<times> run_edge list" where
  "buildRunGraph to_locale nodes edges nodeRuns =
     (let byNode = map_from (map (\<lambda>r. (rr_node_id r, r)) nodeRuns) in
      (map (\<lambda>(i, pn). let run = map_of byNode (sn_id pn) in
          \<lparr>rn_id = sn_id pn, rn_position = (80 + int i * 220, 80 + (int i mod 5) * 130),
           rn_activityType = sn_activityType pn, rn_nodeType = sn_type pn, rn_label = sn_label pn,
           rn_status = Option.bind run rr_status, rn_recordCount = Option.bind run rr_record_count,
           rn_durationMs = Option.bind run rr_duration_ms, rn_error = Option.bind run rr_error\<rparr>) (numbered nodes),
       map (\<lambda>(i, e).
          \<lparr>re_id = (case se_id e of Some x \<Rightarrow> x | None \<Rightarrow> ''e-'' @ se_source e @ ''-'' @ se_target e @ ''-'' @ nat_str i),
           re_source = se_source e, re_target = se_target e,
           re_label = map_option (\<lambda>n. to_locale n @ '' rec'') (Option.bind (map_of byNode (se_source e)) rr_record_count)\<rparr>)
         (numbered edges)))"

section \<open>What a round trip through the canvas keeps\<close>

text \<open>Loading a definition and saving it unchanged.\<close>

definition through_canvas :: "(nat \<Rightarrow> int) \<Rightarrow> (string \<Rightarrow> catalog_entry option) \<Rightarrow> saved_node list \<Rightarrow> saved_edge list
    \<Rightarrow> flow_meta \<Rightarrow> saved_definition" where
  "through_canvas clock byType nodes edges meta =
     (case definitionToFlow clock byType nodes edges of (ns, es) \<Rightarrow> flowToDefinition ns es meta)"

lemma map_numbered: "(\<And>i x. x \<in> set xs \<Longrightarrow> f (i, x) = g x) \<Longrightarrow> map f (numbered xs) = map g xs"
proof -
  assume fg: "\<And>i x. x \<in> set xs \<Longrightarrow> f (i, x) = g x"
  have "map f (numbered xs) = map (g \<circ> snd) (numbered xs)"
    using fg by (intro map_cong) (auto simp: numbered_def dest: set_zip_rightD)
  also have "\<dots> = map g xs" by (simp add: numbered_def flip: map_map)
  finally show ?thesis .
qed

definition kept_by_canvas :: "(string \<Rightarrow> catalog_entry option) \<Rightarrow> saved_node \<Rightarrow> saved_node" where
  "kept_by_canvas byType n = saved_of_node (canvas_node byType (0, n))"

lemma sd_nodes_through: "sd_nodes (through_canvas clock byType nodes edges meta) = map (kept_by_canvas byType) nodes"
  by (simp add: through_canvas_def definitionToFlow_def flowToDefinition_def,
      rule map_numbered) (simp add: kept_by_canvas_def canvas_node_def saved_of_node_def Let_def)

lemma obj_get_spread:
  "obj_get (spread_if k v ob) k' = (if k' = k \<and> truthy_json v then v else obj_get ob k')"
  by (auto simp: obj_get_def spread_if_def update_conv' truthy_json_def split: option.splits)

lemma update_same: "map_of ob k = Some v \<Longrightarrow> AList.update k v ob = ob"
  by (induction ob) (auto split: if_splits)

lemma spread_same: "spread_if k (obj_get ob k) ob = ob"
  by (auto simp: spread_if_def obj_get_def truthy_json_def update_same split: option.splits)

lemma kept_by_canvas_idem: "kept_by_canvas byType (kept_by_canvas byType n) = kept_by_canvas byType n"
proof -
  define cfg where "cfg = spread_if ''joinKey'' (sn_joinKey n) (spread_if ''mergeStrategy'' (sn_mergeStrategy n) (sn_config n))"
  have "fn_config (canvas_node byType (0, n)) = cfg" by (simp add: canvas_node_def cfg_def Let_def)
  moreover have "spread_if ''joinKey'' (obj_get cfg ''joinKey'') (spread_if ''mergeStrategy'' (obj_get cfg ''mergeStrategy'') cfg) = cfg"
    by (simp add: spread_same)
  ultimately show ?thesis
    by (cases "sn_type n"; cases "byType (sn_activityType n)")
       (simp_all add: kept_by_canvas_def canvas_node_def saved_of_node_def Let_def cfg_def)
qed

lemma sd_edges_through:
  "sd_edges (through_canvas clock byType nodes edges meta) = map (\<lambda>x. saved_of_edge (canvas_edge clock x)) (numbered edges)"
  by (simp add: through_canvas_def definitionToFlow_def flowToDefinition_def)

lemma saved_edge_again: "saved_of_edge (canvas_edge clock' (j, saved_of_edge e)) = saved_of_edge e"
  by (auto simp: saved_of_edge_def canvas_edge_def truthy_def Let_def split: option.splits)

text \<open>C30: saving is stable: a definition that went through the canvas once is not changed by going
  through it again, at any time and with any index of the catalog that knows the same types.\<close>

theorem through_canvas_stable:
  fixes clock clock' byType nodes edges meta
  defines "d \<equiv> through_canvas clock byType nodes edges meta"
  shows "through_canvas clock' byType (sd_nodes d) (sd_edges d) meta = d"
proof -
  have "sd_nodes (through_canvas clock' byType (sd_nodes d) (sd_edges d) meta) = sd_nodes d"
    by (simp add: sd_nodes_through d_def kept_by_canvas_idem)
  moreover have "sd_edges (through_canvas clock' byType (sd_nodes d) (sd_edges d) meta) = sd_edges d"
    unfolding sd_edges_through d_def
    by (rule trans[OF map_numbered[where g = id]]) (auto simp: saved_edge_again)
  ultimately show ?thesis
    by (simp add: d_def through_canvas_def definitionToFlow_def flowToDefinition_def)
qed

text \<open>C16: what survives loading and saving: a typed node keeps its id, type, activity, label, ingestion,
  merge settings and every entry of its configuration, but loses its timeout, its retry policy and
  its declared input and output assets; the concurrency limit of the definition is lost too.\<close>

theorem canvas_keeps:
  assumes "sn_type n \<noteq> None"
    and "sn_mergeStrategy n = obj_get (sn_config n) ''mergeStrategy''
      \<or> (truthy_json (sn_mergeStrategy n) \<and> obj_get (sn_config n) ''mergeStrategy'' = None)"
    and "sn_joinKey n = obj_get (sn_config n) ''joinKey''
      \<or> (truthy_json (sn_joinKey n) \<and> obj_get (sn_config n) ''joinKey'' = None)"
    and d: "d = through_canvas clock byType nodes edges meta"
  shows "sd_concurrency d = None \<and> (n \<in> set nodes \<longrightarrow> (\<exists>config. n\<lparr>sn_config := config, sn_timeoutSec := None,
      sn_retry := None, sn_inputAssets := None, sn_outputAssets := None\<rparr> \<in> set (sd_nodes d)
    \<and> (\<forall>k. k \<notin> {''mergeStrategy'', ''joinKey''} \<longrightarrow> obj_get config k = obj_get (sn_config n) k)))"
proof -
  define cfg where "cfg = spread_if ''joinKey'' (sn_joinKey n) (spread_if ''mergeStrategy'' (sn_mergeStrategy n) (sn_config n))"
  have "obj_get cfg ''mergeStrategy'' = sn_mergeStrategy n" "obj_get cfg ''joinKey'' = sn_joinKey n"
    using assms(2,3) by (auto simp: cfg_def obj_get_spread)
  then have "kept_by_canvas byType n = n\<lparr>sn_config := cfg, sn_timeoutSec := None,
      sn_retry := None, sn_inputAssets := None, sn_outputAssets := None\<rparr>"
    using assms(1) by (auto simp: kept_by_canvas_def canvas_node_def saved_of_node_def Let_def cfg_def)
  moreover have "\<forall>k. k \<notin> {''mergeStrategy'', ''joinKey''} \<longrightarrow> obj_get cfg k = obj_get (sn_config n) k"
    by (simp add: cfg_def obj_get_spread)
  moreover have "sd_concurrency d = None"
    by (simp add: d through_canvas_def definitionToFlow_def flowToDefinition_def)
  moreover have "n \<in> set nodes \<Longrightarrow> kept_by_canvas byType n \<in> set (sd_nodes d)"
    unfolding d sd_nodes_through by simp
  ultimately show ?thesis by (intro conjI impI exI[of _ cfg]) simp_all
qed

text \<open>A node as the server stores it.\<close>

abbreviation stored_node :: saved_node where
  "stored_node \<equiv> \<lparr>sn_id = ''sink'', sn_type = Some Sink, sn_activityType = ''sink.s3'', sn_label = None,
     sn_config = [(''bucket'', JStr ''b'')], sn_ingestion = None, sn_timeoutSec = Some 60, sn_retry = None,
     sn_mergeStrategy = Some (JStr ''concat''), sn_joinKey = None, sn_inputAssets = None,
     sn_outputAssets = Some []\<rparr>"

abbreviation stored_meta :: flow_meta where
  "stored_meta \<equiv> \<lparr>fm_name = ''p'', fm_trigger = Some Manual, fm_pipelineKey = None, fm_metadata = None,
     fm_slo = None, fm_notifications = None, fm_execution = None\<rparr>"

theorem canvas_keeps_witness:
  "\<exists>config. stored_node\<lparr>sn_config := config, sn_timeoutSec := None, sn_retry := None, sn_inputAssets := None, sn_outputAssets := None\<rparr>
     \<in> set (sd_nodes (through_canvas (\<lambda>_. 0) (\<lambda>_. None) [stored_node] [] stored_meta))"
proof -
  have "sn_type stored_node \<noteq> None" by simp
  moreover have "truthy_json (sn_mergeStrategy stored_node) \<and> obj_get (sn_config stored_node) ''mergeStrategy'' = None"
    by (simp add: truthy_json_def obj_get_def)
  moreover have "sn_joinKey stored_node = obj_get (sn_config stored_node) ''joinKey''" by (simp add: obj_get_def)
  ultimately show ?thesis
    using canvas_keeps[of stored_node, OF _ _ _ refl, of "\<lambda>_. 0" "\<lambda>_. None" "[stored_node]" "[]" stored_meta]
    by (meson list.set_intros(1))
qed

text \<open>The stages: only an active version in production is shown as such.\<close>

lemma deriveStage_cases:
  "deriveStage status environment = Production \<longleftrightarrow> status = Some ''active'' \<and> environment = Some ''prod''"
  "deriveStage status environment = Testing \<longleftrightarrow> status = Some ''active'' \<and> environment = Some ''test''"
  "deriveStage status environment = Archived \<longleftrightarrow> status = Some ''archived''"
  by (auto simp: deriveStage_def)

text \<open>In the graph of a run the label of an edge is the record count that the last record of its
  source node carries, and there is none when that record or its count is missing.\<close>

theorem runGraph_volume:
  "map (\<lambda>e. (re_source e, re_target e, re_label e)) (snd (buildRunGraph to_locale nodes edges nodeRuns))
   = map (\<lambda>e. (se_source e, se_target e,
       map_option (\<lambda>n. to_locale n @ '' rec'')
         (case filter (\<lambda>r. rr_node_id r = se_source e) nodeRuns of [] \<Rightarrow> None | r # rs \<Rightarrow> rr_record_count (last (r # rs))))) edges"
proof -
  have last: "map_of (map_from (map (\<lambda>r. (rr_node_id r, r)) nodeRuns)) k
      = (case filter (\<lambda>r. rr_node_id r = k) nodeRuns of [] \<Rightarrow> None | r # rs \<Rightarrow> Some (last (r # rs)))" for k
    unfolding map_of_map_from
  proof (induction nodeRuns rule: rev_induct)
    case (snoc x xs)
    then show ?case by (cases "filter (\<lambda>r. rr_node_id r = k) xs") auto
  qed simp
  show ?thesis
    unfolding buildRunGraph_def Let_def snd_conv map_map comp_def
    by (rule map_numbered) (simp add: last split: list.split)
qed

end
