(* ===== verification/PageText.thy ===== *)
theory PageText
  imports FlowConvert JsDate JsNumber
begin

text \<open>
  Words and small formats that several pages of \<open>apps/web/src/pages\<close> write in the same way:
  punctuation, elapsed time between two time stamps, percentages. A time stamp that does not parse is
  \<open>NaN\<close>, here \<open>None\<close>.
\<close>

definition u_middot :: string where "u_middot = [CHR 0xC2, CHR 0xB7]"
definition u_ellipsis :: string where "u_ellipsis = [CHR 0xE2, CHR 0x80, CHR 0xA6]"

text \<open>\<open>new Date(b).getTime() - new Date(a).getTime()\<close>.\<close>

definition ms_between :: "string \<Rightarrow> string \<Rightarrow> int option" where
  "ms_between a b = (case (date_parse a, date_parse b) of (Some x, Some y) \<Rightarrow> Some (y - x) | _ \<Rightarrow> None)"

text \<open>The last three lines of \<open>duration\<close> and of \<open>durMs\<close>; every comparison with \<open>NaN\<close> fails.\<close>

definition elapsed_text :: "int option \<Rightarrow> string" where
  "elapsed_text ms =
     (case ms of
        None \<Rightarrow> ''NaNm''
      | Some ms \<Rightarrow>
          if ms < 1000 then int_str ms @ ''ms''
          else if ms < 60000 then to_fixed1 ms 1000 @ ''s''
          else int_str (round_div ms 60000) @ ''m'')"

text \<open>\<open>Math.round((part / whole) * 100)\<close>.\<close>

definition percent_of :: "nat \<Rightarrow> nat \<Rightarrow> int" where
  "percent_of part whole = round_div (100 * int part) (int whole)"

definition plural :: "nat \<Rightarrow> string \<Rightarrow> string" where
  "plural n word = nat_str n @ '' '' @ word @ (if n \<noteq> 1 then ''s'' else '''')"

text \<open>A server that answers page by page: the first \<open>n\<close> pages of the answer to the query \<open>q\<close>, and the cursor
  after them.\<close>

fun first_pages :: "('q \<Rightarrow> string option \<Rightarrow> 'r list \<times> string option) \<Rightarrow> 'q \<Rightarrow> nat \<Rightarrow> 'r list \<times> string option" where
  "first_pages server q 0 = ([], None)"
| "first_pages server q (Suc 0) = server q None"
| "first_pages server q (Suc (Suc n)) =
     (case first_pages server q (Suc n) of (rows, cursor) \<Rightarrow>
        case truthy cursor of
          None \<Rightarrow> (rows, cursor)
        | Some c \<Rightarrow> (case server q (Some c) of (rows1, next) \<Rightarrow> (rows @ rows1, next)))"

lemma first_pages_Suc:
  "0 < n \<Longrightarrow> truthy (snd (first_pages server q n)) = Some c \<Longrightarrow>
   first_pages server q (Suc n) = (fst (first_pages server q n) @ fst (server q (Some c)), snd (server q (Some c)))"
  by (cases n) (auto split: prod.split)

lemma percent_of_bounds:
  assumes "part \<le> whole" and "whole > 0"
  shows "0 \<le> percent_of part whole" and "percent_of part whole \<le> 100"
    and "percent_of whole whole = 100" and "percent_of 0 whole = 0"
proof -
  have "2 * (100 * int part) + int whole \<le> 100 * (2 * int whole) + int whole" using assms by simp
  then have "percent_of part whole \<le> (100 * (2 * int whole) + int whole) div (2 * int whole)"
    unfolding percent_of_def round_div_def using assms by (intro zdiv_mono1) auto
  also have "\<dots> = 100" using assms by simp
  finally show "percent_of part whole \<le> 100" .
  show "0 \<le> percent_of part whole" using assms(2) by (simp add: percent_of_def round_div_def pos_imp_zdiv_nonneg_iff)
  show "percent_of whole whole = 100" using round_div_exact[of "int whole" 100] assms(2) by (simp add: percent_of_def)
  show "percent_of 0 whole = 0" using round_div_exact[of "int whole" 0] assms(2) by (simp add: percent_of_def)
qed

text \<open>Just under a minute, a duration is shown as \<open>60.0s\<close>; under ninety seconds as one minute.\<close>

lemma elapsed_edges: "elapsed_text (Some 59960) = ''60.0s''" "elapsed_text (Some 89999) = ''1m''" "elapsed_text (Some (-5)) = ''-5ms''"
  by (simp_all add: elapsed_text_def to_fixed1_ties round_div_def int_str_def nat_str.simps digit_char_def)

end
