(* ===== verification/ValidatePipeline.thy ===== *)
theory ValidatePipeline
  imports Prelude
begin

text \<open>
  \<open>apps/web/src/utils/validatePipeline.ts\<close>: the checks the canvas runs on a pipeline
  graph before it is saved. The edge scan builds the two adjacency maps and the duplicate
  set, the three-colour depth-first search looks for a cycle, and the remaining passes read
  the adjacency maps. Maps are association lists in insertion order; the mutable error list
  is threaded through the scan.
\<close>

section \<open>Data\<close>

record pnode =
  pn_id :: string
  pn_type :: string
  pn_label :: "string option"

record pedge =
  pe_id :: string
  pe_source :: string
  pe_target :: string

record validation_error =
  ve_type :: string
  ve_message :: string
  ve_nodeId :: "string option"
  ve_edgeId :: "string option"

type_synonym adjacency = "(string \<times> string list) list"

section \<open>The edge scan\<close>

record scan_state =
  sc_errs :: "validation_error list"
  sc_edgeSet :: "string list"
  sc_outgoing :: adjacency
  sc_incoming :: adjacency

text \<open>\<open>map.get(k)?.push(v)\<close>: nothing happens when the key is absent.\<close>

definition push_existing :: "string \<Rightarrow> string \<Rightarrow> adjacency \<Rightarrow> adjacency" where
  "push_existing k v m = (case map_of m k of None \<Rightarrow> m | Some vs \<Rightarrow> AList.update k (vs @ [v]) m)"

definition edge_key :: "pedge \<Rightarrow> string" where
  "edge_key e = pe_source e @ u_arrow @ pe_target e"

definition scan_edge :: "pedge \<Rightarrow> scan_state \<Rightarrow> scan_state" where
  "scan_edge e st =
     (if pe_source e = pe_target e then
        st\<lparr>sc_errs := sc_errs st @ [\<lparr>ve_type = ''SELF_LOOP'',
             ve_message = ''Node \"'' @ pe_source e @ ''\" has a self-loop.'',
             ve_nodeId = None, ve_edgeId = Some (pe_id e)\<rparr>]\<rparr>
      else if edge_key e \<in> set (sc_edgeSet st) then
        st\<lparr>sc_errs := sc_errs st @ [\<lparr>ve_type = ''DUPLICATE_EDGE'',
             ve_message = ''Duplicate edge '' @ edge_key e @ ''.'',
             ve_nodeId = None, ve_edgeId = Some (pe_id e)\<rparr>]\<rparr>
      else
        st\<lparr>sc_edgeSet := set_add (edge_key e) (sc_edgeSet st),
           sc_outgoing := push_existing (pe_source e) (pe_target e) (sc_outgoing st),
           sc_incoming := push_existing (pe_target e) (pe_source e) (sc_incoming st)\<rparr>)"

definition scan_init :: "pnode list \<Rightarrow> scan_state" where
  "scan_init nodes = \<lparr>sc_errs = [], sc_edgeSet = [],
     sc_outgoing = map_from (map (\<lambda>n. (pn_id n, [])) nodes),
     sc_incoming = map_from (map (\<lambda>n. (pn_id n, [])) nodes)\<rparr>"

definition scan_edges :: "pnode list \<Rightarrow> pedge list \<Rightarrow> scan_state" where
  "scan_edges nodes edges = fold scan_edge edges (scan_init nodes)"

section \<open>Cycle detection\<close>

datatype colour = White | Gray | Black

type_synonym colours = "(string \<times> colour) list"

definition white_ids :: "colours \<Rightarrow> string set" where
  "white_ids col = {x. map_of col x = Some White}"

lemma finite_white_ids [simp]: "finite (white_ids col)"
  by (rule finite_subset[of _ "fst ` set col"])
    (auto simp: white_ids_def dest: map_of_SomeD intro: image_eqI[rotated])

text \<open>
  \<open>dfs_each adj ns col\<close> is the loop \<open>for (const next of outgoing.get(id) ?? [])\<close> over the
  remaining successors \<open>ns\<close>; the call \<open>dfs(next)\<close> is inlined: it colours the node gray, runs
  its own loop and, if that returns without a cycle, colours the node black.
\<close>

function dfs_each :: "adjacency \<Rightarrow> string list \<Rightarrow> colours \<Rightarrow> bool \<times> colours" where
  "dfs_each adj [] col = (False, col)"
| "dfs_each adj (n # ns) col =
     (if map_of col n = Some Gray then (True, col)
      else if map_of col n = Some White then
        (case dfs_each adj (multi_get adj n) (AList.update n Gray col) of
           (True, col') \<Rightarrow> (True, col')
         | (False, col') \<Rightarrow> dfs_each adj ns (AList.update n Black col'))
      else dfs_each adj ns col)"
  by pat_completeness auto

lemma white_update:
  "white_ids (AList.update n c col) = (if c = White then insert n (white_ids col) else white_ids col - {n})"
  by (auto simp: white_ids_def js_map.get_upd split: if_splits)

lemma dfs_each_white_dom:
  "dfs_each_dom (adj, ns, col) \<Longrightarrow> white_ids (snd (dfs_each adj ns col)) \<subseteq> white_ids col"
proof (induction adj ns col rule: dfs_each.pinduct)
  case (1 adj col)
  then show ?case by (simp add: dfs_each.psimps)
next
  case (2 adj n ns col)
  show ?case
  proof (cases "map_of col n = Some White")
    case False
    with 2 show ?thesis by (cases "map_of col n = Some Gray") (simp_all add: dfs_each.psimps)
  next
    case True
    obtain b col' where r: "dfs_each adj (multi_get adj n) (AList.update n Gray col) = (b, col')"
      by (cases "dfs_each adj (multi_get adj n) (AList.update n Gray col)")
    have ih: "white_ids col' \<subseteq> white_ids col - {n}"
      using "2.IH"(1) True r by (simp add: white_update)
    show ?thesis
    proof (cases b)
      case True
      with r 2 \<open>map_of col n = Some White\<close> ih show ?thesis by (auto simp: dfs_each.psimps)
    next
      case False
      with "2.IH"(2)[OF _ True r[symmetric]] True r
      have "white_ids (snd (dfs_each adj ns (AList.update n Black col'))) \<subseteq> white_ids col' - {n}"
        by (simp add: white_update)
      with False r 2(1) \<open>map_of col n = Some White\<close> ih show ?thesis
        by (auto simp: dfs_each.psimps)
    qed
  qed
qed

lemma white_ids_iff: "n \<in> white_ids col \<longleftrightarrow> map_of col n = Some White"
  by (simp add: white_ids_def)

termination dfs_each
proof (relation "inv_image (finite_psubset <*lex*> less_than)
      (\<lambda>(adj, ns, col). (white_ids col, length ns))", goal_cases)
  case 1
  show ?case by (intro wf_inv_image wf_lex_prod wf_finite_psubset wf_less_than)
next
  case (2 adj n ns col)
  then have "n \<in> white_ids col" by (simp add: white_ids_iff)
  then have "white_ids (AList.update n Gray col) \<subset> white_ids col"
    unfolding white_update by auto
  then show ?case by (simp add: finite_psubset_def)
next
  case (3 adj n ns col b col')
  have "white_ids col' \<subseteq> white_ids (AList.update n Gray col)"
    using dfs_each_white_dom[OF 3(5)] 3(3) by (metis snd_conv)
  moreover have "n \<in> white_ids col" using 3 by (simp add: white_ids_iff)
  ultimately have "white_ids (AList.update n Black col') \<subset> white_ids col"
    unfolding white_update by auto
  then show ?case by (simp add: finite_psubset_def)
next
  case (4 adj n ns col)
  then show ?case by simp
qed

text \<open>The search over the nodes in declaration order, with the \<open>break\<close> at the first cycle.\<close>

fun dfs_nodes :: "adjacency \<Rightarrow> string list \<Rightarrow> colours \<Rightarrow> bool" where
  "dfs_nodes adj [] col = False"
| "dfs_nodes adj (n # ns) col =
     (if map_of col n = Some White then
        (case dfs_each adj (multi_get adj n) (AList.update n Gray col) of
           (True, col') \<Rightarrow> True
         | (False, col') \<Rightarrow> dfs_nodes adj ns (AList.update n Black col'))
      else dfs_nodes adj ns col)"

definition has_cycle :: "pnode list \<Rightarrow> adjacency \<Rightarrow> bool" where
  "has_cycle nodes outgoing =
     dfs_nodes outgoing (map pn_id nodes) (map_from (map (\<lambda>n. (pn_id n, White)) nodes))"

section \<open>The validator\<close>

definition display_name :: "pnode \<Rightarrow> string" where
  "display_name n = or_else (pn_label n) (pn_id n)"

definition degree :: "adjacency \<Rightarrow> string \<Rightarrow> nat" where
  "degree m k = nullish (map_option length (map_of m k)) 0"

abbreviation node_error :: "string \<Rightarrow> string \<Rightarrow> pnode \<Rightarrow> validation_error" where
  "node_error t msg n \<equiv> \<lparr>ve_type = t, ve_message = msg, ve_nodeId = Some (pn_id n), ve_edgeId = None\<rparr>"

abbreviation graph_error :: "string \<Rightarrow> string \<Rightarrow> validation_error" where
  "graph_error t msg \<equiv> \<lparr>ve_type = t, ve_message = msg, ve_nodeId = None, ve_edgeId = None\<rparr>"

definition cycle_errors :: "pnode list \<Rightarrow> adjacency \<Rightarrow> validation_error list" where
  "cycle_errors nodes outgoing =
     (if has_cycle nodes outgoing
      then [graph_error ''CYCLE'' (''Pipeline contains a cycle '' @ u_emdash @ '' DAGs must be acyclic.'')]
      else [])"

definition source_errors :: "pnode list \<Rightarrow> adjacency \<Rightarrow> validation_error list" where
  "source_errors nodes incoming =
     map (\<lambda>n. node_error ''SOURCE_HAS_INCOMING''
              (''Source \"'' @ display_name n @ ''\" cannot have incoming edges.'') n)
       (filter (\<lambda>n. pn_type n = ''source'' \<and> 0 < degree incoming (pn_id n)) nodes)"

definition sink_errors :: "pnode list \<Rightarrow> adjacency \<Rightarrow> validation_error list" where
  "sink_errors nodes outgoing =
     map (\<lambda>n. node_error ''SINK_HAS_OUTGOING''
              (''Sink \"'' @ display_name n @ ''\" cannot have outgoing edges.'') n)
       (filter (\<lambda>n. pn_type n = ''sink'' \<and> 0 < degree outgoing (pn_id n)) nodes)"

definition presence_errors :: "pnode list \<Rightarrow> validation_error list" where
  "presence_errors nodes =
     (if \<not> list_ex (\<lambda>n. pn_type n = ''source'') nodes
      then [graph_error ''NO_SOURCE'' ''Pipeline needs at least one source node.''] else []) @
     (if \<not> list_ex (\<lambda>n. pn_type n = ''sink'') nodes
      then [graph_error ''NO_SINK'' ''Pipeline needs at least one sink node.''] else [])"

definition fork_errors :: "pnode list \<Rightarrow> adjacency \<Rightarrow> validation_error list" where
  "fork_errors nodes outgoing =
     map (\<lambda>n. node_error ''FORK_TOO_FEW_OUTPUTS''
              (''Fork \"'' @ display_name n @ ''\" needs '' @ u_ge @ ''2 outgoing edges.'') n)
       (filter (\<lambda>n. degree outgoing (pn_id n) < 2) (filter (\<lambda>n. pn_type n = ''fork'') nodes))"

definition merge_errors :: "pnode list \<Rightarrow> adjacency \<Rightarrow> validation_error list" where
  "merge_errors nodes incoming =
     map (\<lambda>n. node_error ''MERGE_TOO_FEW_INPUTS''
              (''Merge \"'' @ display_name n @ ''\" needs '' @ u_ge @ ''2 incoming edges.'') n)
       (filter (\<lambda>n. degree incoming (pn_id n) < 2) (filter (\<lambda>n. pn_type n = ''merge'') nodes))"

definition orphan_errors :: "pnode list \<Rightarrow> adjacency \<Rightarrow> adjacency \<Rightarrow> validation_error list" where
  "orphan_errors nodes incoming outgoing =
     map (\<lambda>n. node_error ''ORPHAN'' (''Node \"'' @ display_name n @ ''\" is not connected.'') n)
       (filter (\<lambda>n. degree incoming (pn_id n) + degree outgoing (pn_id n) = 0) nodes)"

definition dead_end_errors :: "pnode list \<Rightarrow> adjacency \<Rightarrow> adjacency \<Rightarrow> validation_error list" where
  "dead_end_errors nodes incoming outgoing =
     map (\<lambda>n. node_error ''DEAD_END''
              (''\"'' @ display_name n @ ''\" ('' @ pn_type n @ '') has no outgoing edge ''
                 @ u_emdash @ '' data dropped.'') n)
       (filter (\<lambda>n. pn_type n \<noteq> ''sink'' \<and> degree outgoing (pn_id n) = 0
                    \<and> 0 < degree incoming (pn_id n)) nodes)"

definition validatePipeline :: "pnode list \<Rightarrow> pedge list \<Rightarrow> validation_error list" where
  "validatePipeline nodes edges =
     (let st = scan_edges nodes edges; incoming = sc_incoming st; outgoing = sc_outgoing st in
      sc_errs st @ cycle_errors nodes outgoing @ source_errors nodes incoming
        @ sink_errors nodes outgoing @ presence_errors nodes @ fork_errors nodes outgoing
        @ merge_errors nodes incoming @ orphan_errors nodes incoming outgoing
        @ dead_end_errors nodes incoming outgoing)"

section \<open>The search decides acyclicity\<close>

definition coloured :: "colours \<Rightarrow> colour \<Rightarrow> string set" where
  "coloured col c = {x. map_of col x = Some c}"

lemma coloured_update [simp]:
  "coloured (AList.update n c col) c' = (if c = c' then insert n (coloured col c') else coloured col c' - {n})"
  by (auto simp: coloured_def js_map.get_upd split: if_splits)

lemma coloured_disjoint: "x \<in> coloured col c \<Longrightarrow> x \<in> coloured col c' \<Longrightarrow> c = c'"
  by (simp add: coloured_def)

lemma dfs_each_dom_col: "dom (map_of (snd (dfs_each adj ns col))) = dom (map_of col)"
proof (induction adj ns col rule: dfs_each.induct)
  case (2 adj n ns col)
  then show ?case
    by (auto simp del: dom_def split: prod.splits bool.splits) (auto simp: insert_absorb domIff)
qed simp

lemma dfs_each_gray:
  "dfs_each adj ns col = (False, col') \<Longrightarrow> coloured col' Gray = coloured col Gray"
proof (induction adj ns col arbitrary: col' rule: dfs_each.induct)
  case (1 adj col)
  then show ?case by simp
next
  case (2 adj n ns col)
  show ?case
  proof (cases "map_of col n = Some White")
    case True
    then obtain c1 where r: "dfs_each adj (multi_get adj n) (AList.update n Gray col) = (False, c1)"
      and r': "dfs_each adj ns (AList.update n Black c1) = (False, col')"
      using "2.prems" by (auto split: prod.splits bool.splits)
    have "coloured c1 Gray = insert n (coloured col Gray)" using "2.IH"(1)[OF _ True r] True by simp
    moreover have "coloured col' Gray = coloured c1 Gray - {n}"
      using "2.IH"(2)[OF _ True r[symmetric] refl r'] True by simp
    moreover have "n \<notin> coloured col Gray" using True by (simp add: coloured_def)
    ultimately show ?thesis by auto
  next
    case False
    with 2 show ?thesis by (auto split: if_splits)
  qed
qed

definition declared_rel :: "adjacency \<Rightarrow> string set \<Rightarrow> (string \<times> string) set" where
  "declared_rel adj D = succ_rel (multi_get adj) \<inter> D \<times> D"

lemma declared_relI: "y \<in> set (multi_get adj x) \<Longrightarrow> x \<in> D \<Longrightarrow> y \<in> D \<Longrightarrow> (x, y) \<in> declared_rel adj D"
  by (simp add: declared_rel_def succ_rel_def)

text \<open>A reported cycle is one: the gray nodes lead to the node whose edges are being followed.\<close>

lemma dfs_each_sound:
  assumes "fst (dfs_each adj ns col)" and "dom (map_of col) = D" and "v \<in> D"
    and "set ns \<subseteq> set (multi_get adj v)"
    and "\<forall>g\<in>coloured col Gray. (g, v) \<in> (declared_rel adj D)\<^sup>*"
  shows "\<exists>x. (x, x) \<in> (declared_rel adj D)\<^sup>+"
  using assms
proof (induction adj ns col arbitrary: v rule: dfs_each.induct)
  case (1 adj col)
  then show ?case by simp
next
  case (2 adj n ns col)
  have nv: "(v, n) \<in> declared_rel adj D" if "map_of col n \<noteq> None"
    using 2 that by (intro declared_relI) (auto simp: domIff)
  consider (gray) "map_of col n = Some Gray" | (white) "map_of col n = Some White"
    | (other) "map_of col n \<noteq> Some Gray" "map_of col n \<noteq> Some White" by blast
  then show ?case
  proof cases
    case gray
    then have "(n, v) \<in> (declared_rel adj D)\<^sup>*" using "2.prems"(5) by (simp add: coloured_def)
    then show ?thesis using nv gray by (auto intro: rtrancl_into_trancl1)
  next
    case other
    with "2.prems" show ?thesis by (intro "2.IH"(3)[of v]) auto
  next
    case white
    then have nD: "n \<in> D" and ng: "n \<notin> coloured col Gray"
      using "2.prems"(2) by (auto simp: coloured_def)
    obtain b c1 where r: "dfs_each adj (multi_get adj n) (AList.update n Gray col) = (b, c1)"
      by (cases "dfs_each adj (multi_get adj n) (AList.update n Gray col)")
    show ?thesis
    proof (cases b)
      case True
      have "\<forall>g\<in>insert n (coloured col Gray). (g, n) \<in> (declared_rel adj D)\<^sup>*"
        using "2.prems"(5) nv white by (auto intro: rtrancl.rtrancl_into_rtrancl)
      with white r True nD "2.prems"(2) show ?thesis
        by (intro "2.IH"(1)[of n]) (simp_all add: insert_absorb)
    next
      case False
      have g: "coloured (AList.update n Black c1) Gray = coloured col Gray"
        using dfs_each_gray[of adj "multi_get adj n" "AList.update n Gray col" c1] r False ng
        by simp
      have d: "dom (map_of (AList.update n Black c1)) = D"
        using dfs_each_dom_col[of adj "multi_get adj n" "AList.update n Gray col"] r nD "2.prems"(2)
        by (auto simp: insert_absorb)
      have t: "fst (dfs_each adj ns (AList.update n Black c1))"
        using "2.prems"(1) white r False by simp
      show ?thesis
        using "2.IH"(2)[OF _ white r[symmetric], of v] False white t d g "2.prems" by simp
    qed
  qed
qed

text \<open>A search that reports none leaves the black nodes closed under edges and free of cycles.\<close>

definition black_ok :: "adjacency \<Rightarrow> string set \<Rightarrow> colours \<Rightarrow> bool" where
  "black_ok adj D col \<longleftrightarrow> dom (map_of col) = D
     \<and> declared_rel adj D `` coloured col Black \<subseteq> coloured col Black
     \<and> acyclic (declared_rel adj D \<inter> coloured col Black \<times> coloured col Black)"

lemma black_ok_finish:
  assumes ok: "black_ok adj D col" and n: "map_of col n = Some Gray"
    and succs: "\<forall>m\<in>set (multi_get adj n). m \<in> D \<longrightarrow> m \<in> coloured col Black"
  shows "black_ok adj D (AList.update n Black col)"
proof -
  let ?B = "coloured col Black" and ?E = "declared_rel adj D"
  have nB: "n \<notin> ?B" using n by (simp add: coloured_def)
  have succ: "m \<in> ?B" if "(n, m) \<in> ?E" for m
    using that succs by (auto simp: declared_rel_def succ_rel_def)
  with nB have "(n, n) \<notin> ?E" by blast
  then have "acyclic (?E \<inter> insert n ?B \<times> insert n ?B)"
    using ok nB by (intro acyclic_insert_closed) (auto simp: black_ok_def)
  moreover have "?E `` insert n ?B \<subseteq> insert n ?B" using ok succ by (auto simp: black_ok_def)
  moreover have "n \<in> D" using ok n by (auto simp: black_ok_def)
  ultimately show ?thesis using ok by (auto simp: black_ok_def)
qed

lemma black_ok_gray: "black_ok adj D col \<Longrightarrow> map_of col n = Some White \<Longrightarrow> black_ok adj D (AList.update n Gray col)"
proof -
  assume "black_ok adj D col" and n: "map_of col n = Some White"
  moreover have "n \<notin> coloured col Black" using n by (simp add: coloured_def)
  moreover have "dom (map_of (AList.update n Gray col)) = dom (map_of col)"
    using n by auto
  ultimately show ?thesis by (simp add: black_ok_def)
qed

lemma dfs_each_complete:
  assumes "dfs_each adj ns col = (False, col')" and "black_ok adj D col"
  shows "black_ok adj D col' \<and> coloured col Black \<subseteq> coloured col' Black
     \<and> (\<forall>m\<in>set ns. m \<in> D \<longrightarrow> m \<in> coloured col' Black)"
  using assms
proof (induction adj ns col arbitrary: col' rule: dfs_each.induct)
  case (1 adj col)
  then show ?case by simp
next
  case (2 adj n ns col)
  show ?case
  proof (cases "map_of col n = Some White")
    case True
    then obtain c1 where r: "dfs_each adj (multi_get adj n) (AList.update n Gray col) = (False, c1)"
      and r': "dfs_each adj ns (AList.update n Black c1) = (False, col')"
      using "2.prems" by (auto split: prod.splits bool.splits)
    have ih1: "black_ok adj D c1" "coloured col Black \<subseteq> coloured c1 Black"
      "\<forall>m\<in>set (multi_get adj n). m \<in> D \<longrightarrow> m \<in> coloured c1 Black"
      using "2.IH"(1)[OF _ True r black_ok_gray[OF "2.prems"(2) True]] True
      by (simp_all add: coloured_def[of col] subset_iff)
    have "map_of c1 n = Some Gray"
      using dfs_each_gray[OF r] by (simp add: coloured_def set_eq_iff js_map.get_upd)
    from black_ok_finish[OF ih1(1) this ih1(3)] have ok: "black_ok adj D (AList.update n Black c1)" .
    have "black_ok adj D col' \<and> coloured (AList.update n Black c1) Black \<subseteq> coloured col' Black
        \<and> (\<forall>m\<in>set ns. m \<in> D \<longrightarrow> m \<in> coloured col' Black)"
      using "2.IH"(2)[OF _ True r[symmetric] refl r' ok] True by simp
    with ih1(2) show ?thesis by auto
  next
    case False
    then have ng: "map_of col n \<noteq> Some Gray" and r': "dfs_each adj ns col = (False, col')"
      using "2.prems"(1) by (auto split: if_splits)
    have ih: "black_ok adj D col' \<and> coloured col Black \<subseteq> coloured col' Black
        \<and> (\<forall>m\<in>set ns. m \<in> D \<longrightarrow> m \<in> coloured col' Black)"
      using "2.IH"(3)[OF ng False r' "2.prems"(2)] .
    have "n \<in> coloured col Black" if "n \<in> D"
    proof -
      obtain c where "map_of col n = Some c" using \<open>n \<in> D\<close> "2.prems"(2) by (auto simp: black_ok_def)
      with False ng show ?thesis by (cases c) (auto simp: coloured_def)
    qed
    with ih show ?thesis by auto
  qed
qed

lemma dfs_nodes_iff:
  assumes "black_ok adj D col" and "coloured col Gray = {}" and "set ns \<subseteq> D"
    and "D \<subseteq> set ns \<union> coloured col Black"
  shows "dfs_nodes adj ns col \<longleftrightarrow> \<not> acyclic (declared_rel adj D)"
  using assms
proof (induction adj ns col rule: dfs_nodes.induct)
  case (1 adj col)
  then have "coloured col Black = D" by (auto simp: black_ok_def coloured_def)
  then have "declared_rel adj D \<inter> coloured col Black \<times> coloured col Black = declared_rel adj D"
    by (auto simp: declared_rel_def)
  with 1 show ?case by (simp add: black_ok_def)
next
  case (2 adj n ns col)
  have nD: "n \<in> D" using "2.prems"(3) by simp
  show ?case
  proof (cases "map_of col n = Some White")
    case True
    let ?col = "AList.update n Gray col"
    obtain b c1 where r: "dfs_each adj (multi_get adj n) ?col = (b, c1)"
      by (cases "dfs_each adj (multi_get adj n) ?col")
    have ok: "black_ok adj D ?col" by (rule black_ok_gray[OF "2.prems"(1) True])
    show ?thesis
    proof (cases b)
      case b: True
      have "\<exists>x. (x, x) \<in> (declared_rel adj D)\<^sup>+"
        using r b ok nD "2.prems"(2)
        by (intro dfs_each_sound[of adj "multi_get adj n" ?col D n]) (auto simp: black_ok_def)
      with b r True show ?thesis by (auto simp: acyclic_def)
    next
      case b: False
      with r have r: "dfs_each adj (multi_get adj n) ?col = (False, c1)" by simp
      have g: "coloured c1 Gray = {n}" using dfs_each_gray[OF r] "2.prems"(2) by simp
      then have "map_of c1 n = Some Gray" by (auto simp: coloured_def)
      moreover have c: "black_ok adj D c1" "coloured ?col Black \<subseteq> coloured c1 Black"
        "\<forall>m\<in>set (multi_get adj n). m \<in> D \<longrightarrow> m \<in> coloured c1 Black"
        using dfs_each_complete[OF r ok] by auto
      ultimately have "black_ok adj D (AList.update n Black c1)" by (intro black_ok_finish) auto
      moreover have "D \<subseteq> set ns \<union> coloured (AList.update n Black c1) Black"
        using c(2) "2.prems"(4) by auto
      moreover have "coloured (AList.update n Black c1) Gray = {}" using g by simp
      ultimately show ?thesis
        using "2.IH"(1)[OF True r[symmetric] refl] True r "2.prems"(3) by simp
    qed
  next
    case False
    then have "n \<in> coloured col Black"
      using nD "2.prems"(1,2) by (auto simp: black_ok_def coloured_def) (metis colour.exhaust)
    with False "2.prems" show ?thesis by (intro trans[OF _ "2.IH"(2)]) auto
  qed
qed

lemma has_cycle_iff:
  "has_cycle nodes adj \<longleftrightarrow> \<not> acyclic (declared_rel adj (pn_id ` set nodes))"
proof -
  let ?D = "pn_id ` set nodes" and ?col = "map_from (map (\<lambda>n. (pn_id n, White)) nodes)"
  have w: "c = White" if "map_of ?col x = Some c" for x c
    using map_from_in[OF that] by auto
  have "dom (map_of ?col) = ?D" by (simp add: dom_map_of_conv_image_fst image_image)
  moreover have "coloured ?col Black = {}" "coloured ?col Gray = {}" using w by (auto simp: coloured_def)
  ultimately show ?thesis
    unfolding has_cycle_def by (intro dfs_nodes_iff) (auto simp: black_ok_def acyclic_def)
qed

section \<open>What the edge scan builds\<close>

text \<open>The edges that neither loop nor repeat, in order; \<open>seen\<close> holds the keys met before.\<close>

fun kept_edges :: "string list \<Rightarrow> pedge list \<Rightarrow> pedge list" where
  "kept_edges seen [] = []"
| "kept_edges seen (e # es) =
     (if pe_source e = pe_target e \<or> edge_key e \<in> set seen then kept_edges seen es
      else e # kept_edges (set_add (edge_key e) seen) es)"

lemma push_existing_dom [simp]: "dom (map_of (push_existing k v m)) = dom (map_of m)"
  by (auto simp: push_existing_def insert_absorb domIff split: option.splits)

lemma multi_get_push:
  "multi_get (push_existing k v m) k' =
     (if k' = k \<and> k \<in> dom (map_of m) then multi_get m k' @ [v] else multi_get m k')"
  by (auto simp: push_existing_def multi_get_def js_map.get_upd split: option.splits)

lemma fold_scan_edge:
  fixes es st
  defines "st' \<equiv> fold scan_edge es st" and "ks \<equiv> kept_edges (sc_edgeSet st) es"
  shows "multi_get (sc_outgoing st') k = multi_get (sc_outgoing st) k @
           (if k \<in> dom (map_of (sc_outgoing st)) then map pe_target (filter (\<lambda>e. pe_source e = k) ks) else [])"
    and "multi_get (sc_incoming st') k = multi_get (sc_incoming st) k @
           (if k \<in> dom (map_of (sc_incoming st)) then map pe_source (filter (\<lambda>e. pe_target e = k) ks) else [])"
    and "dom (map_of (sc_outgoing st')) = dom (map_of (sc_outgoing st))"
    and "dom (map_of (sc_incoming st')) = dom (map_of (sc_incoming st))"
  unfolding st'_def ks_def
  by (induction es arbitrary: st) (auto simp: scan_edge_def multi_get_push)

lemma multi_get_init: "multi_get (map_from (map (\<lambda>n. (pn_id n, [])) nodes)) k = []"
  using map_from_in[of "map (\<lambda>n. (pn_id n, [])) nodes" k]
  by (auto simp: multi_get_def split: option.splits)

lemma dom_init: "dom (map_of (map_from (map (\<lambda>n. (pn_id n, [])) nodes))) = pn_id ` set nodes"
  by (simp add: dom_map_of_conv_image_fst image_image)

lemma scan_outgoing: "multi_get (sc_outgoing (scan_edges nodes edges)) k =
    (if k \<in> pn_id ` set nodes
     then map pe_target (filter (\<lambda>e. pe_source e = k) (kept_edges [] edges)) else [])"
  unfolding scan_edges_def by (simp add: fold_scan_edge(1) scan_init_def multi_get_init dom_init)

lemma scan_incoming: "multi_get (sc_incoming (scan_edges nodes edges)) k =
    (if k \<in> pn_id ` set nodes
     then map pe_source (filter (\<lambda>e. pe_target e = k) (kept_edges [] edges)) else [])"
  unfolding scan_edges_def by (simp add: fold_scan_edge(2) scan_init_def multi_get_init dom_init)

lemma degree_multi_get: "degree m k = length (multi_get m k)"
  by (simp add: degree_def multi_get_def split: option.splits)

text \<open>The keys tell edges apart when no source id holds the arrow's first byte.\<close>

definition arrow_free :: "pedge list \<Rightarrow> bool" where
  "arrow_free edges = (\<forall>e\<in>set edges. CHR 0xE2 \<notin> set (pe_source e))"

lemma edge_key_inj:
  assumes "CHR 0xE2 \<notin> set (pe_source e)" and "CHR 0xE2 \<notin> set (pe_source e')" and "edge_key e = edge_key e'"
  shows "pe_source e = pe_source e' \<and> pe_target e = pe_target e'"
proof -
  have tw: "takeWhile (\<lambda>c. c \<noteq> CHR 0xE2) (edge_key e) = pe_source e"
    if "CHR 0xE2 \<notin> set (pe_source e)" for e
    using that by (auto simp: edge_key_def u_arrow_def takeWhile_append)
  then have "pe_source e = pe_source e'" using assms by metis
  with assms(3) show ?thesis by (simp add: edge_key_def)
qed

definition flow_pairs :: "pedge list \<Rightarrow> (string \<times> string) set" where
  "flow_pairs edges = {(pe_source e, pe_target e) | e. e \<in> set edges \<and> pe_source e \<noteq> pe_target e}"

lemma flow_pairsI:
  "e \<in> set edges \<Longrightarrow> pe_source e \<noteq> pe_target e \<Longrightarrow> (pe_source e, pe_target e) \<in> flow_pairs edges"
  by (auto simp: flow_pairs_def)

lemma flow_pairs_simps [simp]:
  "flow_pairs [] = {}"
  "flow_pairs (e # es) =
     (if pe_source e = pe_target e then flow_pairs es else insert (pe_source e, pe_target e) (flow_pairs es))"
  by (auto simp: flow_pairs_def)

lemma kept_edges_subset: "set (kept_edges seen es) \<subseteq> {e \<in> set es. pe_source e \<noteq> pe_target e}"
  by (induction seen es rule: kept_edges.induct) auto

lemma kept_edges_keys:
  "edge_key ` {e \<in> set es. pe_source e \<noteq> pe_target e} \<subseteq> set seen \<union> edge_key ` set (kept_edges seen es)"
  by (induction seen es rule: kept_edges.induct) auto

lemma kept_pairs:
  assumes "arrow_free es"
  shows "(\<lambda>e. (pe_source e, pe_target e)) ` set (kept_edges [] es) = flow_pairs es"
proof
  show "(\<lambda>e. (pe_source e, pe_target e)) ` set (kept_edges [] es) \<subseteq> flow_pairs es"
    using kept_edges_subset[of "[]" es] by (auto simp: flow_pairs_def)
  show "flow_pairs es \<subseteq> (\<lambda>e. (pe_source e, pe_target e)) ` set (kept_edges [] es)"
  proof
    fix p assume "p \<in> flow_pairs es"
    then obtain e where e: "p = (pe_source e, pe_target e)" "e \<in> set es" "pe_source e \<noteq> pe_target e"
      by (auto simp: flow_pairs_def)
    then obtain e' where e': "e' \<in> set (kept_edges [] es)" "edge_key e = edge_key e'"
      using kept_edges_keys[of es "[]"] by auto
    then have "e' \<in> set es" using kept_edges_subset[of "[]" es] by auto
    with e e' assms have "pe_source e = pe_source e' \<and> pe_target e = pe_target e'"
      by (intro edge_key_inj) (auto simp: arrow_free_def)
    with e e' show "p \<in> (\<lambda>e. (pe_source e, pe_target e)) ` set (kept_edges [] es)" by auto
  qed
qed

definition flow_rel :: "pnode list \<Rightarrow> pedge list \<Rightarrow> (string \<times> string) set" where
  "flow_rel nodes edges = flow_pairs edges \<inter> (pn_id ` set nodes) \<times> (pn_id ` set nodes)"

lemma declared_rel_scan:
  "arrow_free edges \<Longrightarrow>
   declared_rel (sc_outgoing (scan_edges nodes edges)) (pn_id ` set nodes) = flow_rel nodes edges"
  using kept_pairs[of edges]
  by (auto simp: declared_rel_def succ_rel_def scan_outgoing flow_rel_def set_eq_iff image_iff
      split: if_splits) metis+

lemma kept_length: "length (kept_edges seen es) \<le> length es"
  by (induction seen es rule: kept_edges.induct) auto

lemma kept_eq_iff: "kept_edges seen es = es \<longleftrightarrow> length (kept_edges seen es) = length es"
proof (induction seen es rule: kept_edges.induct)
  case (2 seen e es)
  have "length (kept_edges seen es) \<noteq> Suc (length es)" using kept_length[of seen es] by simp
  moreover from this have "kept_edges seen es \<noteq> e # es" by (metis length_Cons)
  ultimately show ?case using 2 by simp
qed simp

lemma scan_edge_errs:
  "\<exists>xs. sc_errs (scan_edge e st) = sc_errs st @ xs
     \<and> length xs + length (kept_edges (sc_edgeSet st) (e # es))
         = Suc (length (kept_edges (sc_edgeSet (scan_edge e st)) es))
     \<and> (\<forall>x\<in>set xs. ve_type x = ''SELF_LOOP'' \<or> ve_type x = ''DUPLICATE_EDGE'')"
  by (auto simp: scan_edge_def)

lemma scan_errs:
  "\<exists>xs. sc_errs (fold scan_edge es st) = sc_errs st @ xs
     \<and> length xs + length (kept_edges (sc_edgeSet st) es) = length es
     \<and> (\<forall>x\<in>set xs. ve_type x = ''SELF_LOOP'' \<or> ve_type x = ''DUPLICATE_EDGE'')"
proof (induction es arbitrary: st)
  case Nil
  then show ?case by simp
next
  case (Cons e es)
  obtain xs where xs: "sc_errs (scan_edge e st) = sc_errs st @ xs"
    "length xs + length (kept_edges (sc_edgeSet st) (e # es))
         = Suc (length (kept_edges (sc_edgeSet (scan_edge e st)) es))"
    "\<forall>x\<in>set xs. ve_type x = ''SELF_LOOP'' \<or> ve_type x = ''DUPLICATE_EDGE''"
    using scan_edge_errs[of e st es] by blast
  obtain ys where ys: "sc_errs (fold scan_edge es (scan_edge e st)) = sc_errs (scan_edge e st) @ ys"
    "length ys + length (kept_edges (sc_edgeSet (scan_edge e st)) es) = length es"
    "\<forall>x\<in>set ys. ve_type x = ''SELF_LOOP'' \<or> ve_type x = ''DUPLICATE_EDGE''"
    using Cons.IH by blast
  have "sc_errs (fold scan_edge (e # es) st) = sc_errs st @ (xs @ ys)" using xs(1) ys(1) by simp
  moreover have "length (xs @ ys) + length (kept_edges (sc_edgeSet st) (e # es)) = length (e # es)"
    using xs(2) ys(2) unfolding length_append list.size by linarith
  ultimately show ?case using xs(3) ys(3) by (intro exI[of _ "xs @ ys"]) auto
qed

lemma scan_edges_errs:
  "\<exists>xs. sc_errs (scan_edges nodes edges) = xs \<and> length xs + length (kept_edges [] edges) = length edges
     \<and> (\<forall>x\<in>set xs. ve_type x = ''SELF_LOOP'' \<or> ve_type x = ''DUPLICATE_EDGE'')"
  using scan_errs[of edges "scan_init nodes"] by (simp add: scan_edges_def scan_init_def)

lemma scan_errs_Nil_iff: "sc_errs (scan_edges nodes edges) = [] \<longleftrightarrow> kept_edges [] edges = edges"
  using scan_edges_errs[of nodes edges] unfolding kept_eq_iff by (metis add_cancel_right_left length_0_conv)

lemma kept_all_iff:
  "kept_edges seen es = es \<longleftrightarrow>
     (\<forall>e\<in>set es. pe_source e \<noteq> pe_target e \<and> edge_key e \<notin> set seen) \<and> distinct (map edge_key es)"
proof (induction seen es rule: kept_edges.induct)
  case (2 seen e es)
  have "kept_edges seen es \<noteq> e # es"
    using kept_length[of seen es] by (metis impossible_Cons)
  with 2 show ?case by (cases "pe_source e = pe_target e \<or> edge_key e \<in> set seen") (auto simp: image_iff)
qed simp

lemma distinct_keys_iff:
  "arrow_free es \<Longrightarrow> distinct (map edge_key es) \<longleftrightarrow> distinct (map (\<lambda>e. (pe_source e, pe_target e)) es)"
proof (induction es)
  case (Cons e es)
  have "edge_key e = edge_key e' \<longleftrightarrow> (pe_source e, pe_target e) = (pe_source e', pe_target e')"
    if "e' \<in> set es" for e'
    using edge_key_inj[of e e'] Cons.prems that by (auto simp: arrow_free_def edge_key_def)
  with Cons show ?case by (auto simp: arrow_free_def image_iff)
qed simp

text \<open>What a pipeline without errors is, stated on the edges rather than on the maps.\<close>

definition in_count :: "pedge list \<Rightarrow> pnode \<Rightarrow> nat" where
  "in_count edges n = length (filter (\<lambda>e. pe_target e = pn_id n) edges)"

definition out_count :: "pedge list \<Rightarrow> pnode \<Rightarrow> nat" where
  "out_count edges n = length (filter (\<lambda>e. pe_source e = pn_id n) edges)"

definition node_ok :: "pedge list \<Rightarrow> pnode \<Rightarrow> bool" where
  "node_ok edges n \<longleftrightarrow>
     (pn_type n = ''source'' \<longrightarrow> in_count edges n = 0) \<and>
     (pn_type n = ''sink'' \<longrightarrow> out_count edges n = 0) \<and>
     (pn_type n = ''fork'' \<longrightarrow> 2 \<le> out_count edges n) \<and>
     (pn_type n = ''merge'' \<longrightarrow> 2 \<le> in_count edges n) \<and>
     0 < in_count edges n + out_count edges n \<and>
     (pn_type n \<noteq> ''sink'' \<longrightarrow> 0 < out_count edges n)"

definition sound_pipeline :: "pnode list \<Rightarrow> pedge list \<Rightarrow> bool" where
  "sound_pipeline nodes edges \<longleftrightarrow>
     (\<forall>e\<in>set edges. pe_source e \<noteq> pe_target e) \<and>
     distinct (map (\<lambda>e. (pe_source e, pe_target e)) edges) \<and>
     acyclic (flow_rel nodes edges) \<and>
     (\<exists>n\<in>set nodes. pn_type n = ''source'') \<and> (\<exists>n\<in>set nodes. pn_type n = ''sink'') \<and>
     (\<forall>n\<in>set nodes. node_ok edges n)"

lemma degree_scan:
  assumes "kept_edges [] edges = edges" and "n \<in> set nodes"
  shows "degree (sc_outgoing (scan_edges nodes edges)) (pn_id n) = out_count edges n"
    and "degree (sc_incoming (scan_edges nodes edges)) (pn_id n) = in_count edges n"
  using assms by (simp_all add: degree_multi_get scan_outgoing scan_incoming out_count_def in_count_def)

lemma node_checks:
  assumes "\<forall>n\<in>set nodes. degree inc (pn_id n) = in_count edges n \<and> degree out (pn_id n) = out_count edges n"
  shows "source_errors nodes inc = [] \<and> sink_errors nodes out = [] \<and> fork_errors nodes out = []
      \<and> merge_errors nodes inc = [] \<and> orphan_errors nodes inc out = [] \<and> dead_end_errors nodes inc out = []
    \<longleftrightarrow> (\<forall>n\<in>set nodes. node_ok edges n)"
  using assms
  by (simp add: source_errors_def sink_errors_def fork_errors_def merge_errors_def orphan_errors_def
      dead_end_errors_def filter_empty_conv node_ok_def not_less) (fastforce simp: not_less)

abbreviation pnode_of :: "string \<Rightarrow> string \<Rightarrow> pnode" where
  "pnode_of i t \<equiv> \<lparr>pn_id = i, pn_type = t, pn_label = None\<rparr>"

abbreviation pedge_of :: "string \<Rightarrow> string \<Rightarrow> string \<Rightarrow> pedge" where
  "pedge_of i s t \<equiv> \<lparr>pe_id = i, pe_source = s, pe_target = t\<rparr>"

section \<open>Properties\<close>

text \<open>C2: the validator reports a cycle exactly when the declared nodes and the edges between
  two different ones form a graph with a cycle, for edges whose source ids hold no arrow (the
  character that separates the two ids in the duplicate keys).\<close>

theorem validate_cycle_iff:
  assumes "arrow_free edges"
  shows "(\<exists>err\<in>set (validatePipeline nodes edges). ve_type err = ''CYCLE'')
    \<longleftrightarrow> (\<exists>x. (x, x) \<in> (flow_rel nodes edges)\<^sup>+)"
proof -
  have scan: "ve_type err \<noteq> ''CYCLE''" if "err \<in> set (sc_errs (scan_edges nodes edges))" for err
    using scan_edges_errs[of nodes edges] that by auto
  have "(\<exists>err\<in>set (validatePipeline nodes edges). ve_type err = ''CYCLE'')
      \<longleftrightarrow> has_cycle nodes (sc_outgoing (scan_edges nodes edges))"
    by (auto simp: validatePipeline_def Let_def cycle_errors_def source_errors_def sink_errors_def
        presence_errors_def fork_errors_def merge_errors_def orphan_errors_def dead_end_errors_def
        dest: scan)
  then show ?thesis
    using assms by (simp add: has_cycle_iff declared_rel_scan acyclic_def)
qed

theorem validate_cycle_iff_witness:
  "\<exists>err\<in>set (validatePipeline
      [pnode_of ''a'' ''transform'', pnode_of ''b'' ''transform'']
      [pedge_of ''e1'' ''a'' ''b'', pedge_of ''e2'' ''b'' ''a'']).
    ve_type err = ''CYCLE''"
proof (subst validate_cycle_iff)
  let ?E = "flow_rel
      [pnode_of ''a'' ''transform'', pnode_of ''b'' ''transform'']
      [pedge_of ''e1'' ''a'' ''b'', pedge_of ''e2'' ''b'' ''a'']"
  have "(''a'', ''b'') \<in> ?E" "(''b'', ''a'') \<in> ?E"
    by (simp_all add: flow_rel_def)
  then show "\<exists>x. (x, x) \<in> ?E\<^sup>+" by (meson r_into_trancl trancl_into_trancl)
qed (simp add: arrow_free_def)

text \<open>C1: the validator returns no error exactly for the pipelines that are sound: no self-loop, no
  repeated edge, no cycle, a source and a sink, and every node connected as its kind demands.\<close>

theorem validate_sound_iff:
  assumes "arrow_free edges"
  shows "validatePipeline nodes edges = [] \<longleftrightarrow> sound_pipeline nodes edges"
proof (cases "kept_edges [] edges = edges")
  case False
  with assms show ?thesis
    using kept_all_iff[of "[]" edges]
    by (auto simp: validatePipeline_def Let_def scan_errs_Nil_iff sound_pipeline_def distinct_keys_iff)
next
  case True
  let ?inc = "sc_incoming (scan_edges nodes edges)" and ?out = "sc_outgoing (scan_edges nodes edges)"
  have "validatePipeline nodes edges = [] \<longleftrightarrow> cycle_errors nodes ?out = [] \<and> presence_errors nodes = []
      \<and> (source_errors nodes ?inc = [] \<and> sink_errors nodes ?out = [] \<and> fork_errors nodes ?out = []
        \<and> merge_errors nodes ?inc = [] \<and> orphan_errors nodes ?inc ?out = [] \<and> dead_end_errors nodes ?inc ?out = [])"
    using True by (simp add: validatePipeline_def Let_def scan_errs_Nil_iff conj_ac)
  also have "cycle_errors nodes ?out = [] \<longleftrightarrow> acyclic (flow_rel nodes edges)"
    using assms by (simp add: cycle_errors_def has_cycle_iff declared_rel_scan)
  also have "presence_errors nodes = [] \<longleftrightarrow>
      (\<exists>n\<in>set nodes. pn_type n = ''source'') \<and> (\<exists>n\<in>set nodes. pn_type n = ''sink'')"
    by (simp add: presence_errors_def list_ex_iff)
  also have "source_errors nodes ?inc = [] \<and> sink_errors nodes ?out = [] \<and> fork_errors nodes ?out = []
        \<and> merge_errors nodes ?inc = [] \<and> orphan_errors nodes ?inc ?out = [] \<and> dead_end_errors nodes ?inc ?out = []
      \<longleftrightarrow> (\<forall>n\<in>set nodes. node_ok edges n)"
    by (rule node_checks) (simp add: degree_scan[OF True])
  finally have v: "validatePipeline nodes edges = [] \<longleftrightarrow> acyclic (flow_rel nodes edges)
      \<and> ((\<exists>n\<in>set nodes. pn_type n = ''source'') \<and> (\<exists>n\<in>set nodes. pn_type n = ''sink''))
      \<and> (\<forall>n\<in>set nodes. node_ok edges n)" .
  have "\<forall>e\<in>set edges. pe_source e \<noteq> pe_target e" "distinct (map (\<lambda>e. (pe_source e, pe_target e)) edges)"
    using True kept_all_iff[of "[]" edges] distinct_keys_iff[OF assms] by auto
  then show ?thesis unfolding v sound_pipeline_def by simp
qed

theorem validate_sound_iff_witness:
  "validatePipeline [pnode_of ''s'' ''source'', pnode_of ''k'' ''sink'']
     [pedge_of ''e1'' ''s'' ''k''] = []"
proof (subst validate_sound_iff)
  let ?ns = "[pnode_of ''s'' ''source'', pnode_of ''k'' ''sink'']"
  let ?es = "[pedge_of ''e1'' ''s'' ''k'']"
  have "flow_rel ?ns ?es \<subseteq> {(''s'', ''k'')}" by (auto simp: flow_rel_def)
  moreover have "acyclic {(''s'', ''k'')}" by (simp add: acyclic_insert acyclic_def[of "{}"])
  ultimately have "acyclic (flow_rel ?ns ?es)" by (rule acyclic_subset[rotated])
  then show "sound_pipeline ?ns ?es"
    by (simp add: sound_pipeline_def node_ok_def in_count_def out_count_def)
qed (simp add: arrow_free_def)

text \<open>In a pipeline that validates without errors and whose edges end at declared nodes, data
  from every node can flow along edges to a sink.\<close>

theorem validate_delivers:
  assumes "validatePipeline nodes edges = []" and "arrow_free edges"
    and "\<forall>e\<in>set edges. pe_target e \<in> pn_id ` set nodes" and "n \<in> set nodes"
  shows "\<exists>m\<in>set nodes. pn_type m = ''sink'' \<and> (pn_id n, pn_id m) \<in> (flow_rel nodes edges)\<^sup>*"
proof -
  have kept: "kept_edges [] edges = edges" and cyc: "cycle_errors nodes (sc_outgoing (scan_edges nodes edges)) = []"
    and nodes: "orphan_errors nodes (sc_incoming (scan_edges nodes edges)) (sc_outgoing (scan_edges nodes edges)) = []"
      "dead_end_errors nodes (sc_incoming (scan_edges nodes edges)) (sc_outgoing (scan_edges nodes edges)) = []"
    using assms(1) by (simp_all add: validatePipeline_def Let_def scan_errs_Nil_iff)
  have "acyclic (flow_rel nodes edges)"
    using cyc assms(2) by (simp add: cycle_errors_def has_cycle_iff declared_rel_scan split: if_splits)
  moreover have "finite (flow_rel nodes edges)" by (simp add: flow_rel_def)
  ultimately obtain t where t: "(pn_id n, t) \<in> (flow_rel nodes edges)\<^sup>*" "\<forall>u. (t, u) \<notin> flow_rel nodes edges"
    using finite_acyclic_sink[of "flow_rel nodes edges" "pn_id n"] by auto
  have "t \<in> pn_id ` set nodes" using t(1) assms(4) by (auto simp: flow_rel_def elim: rtranclE)
  then obtain m where m: "m \<in> set nodes" "t = pn_id m" by blast
  have noself: "\<forall>e\<in>set edges. pe_source e \<noteq> pe_target e" using kept kept_all_iff[of "[]" edges] by blast
  have "pe_source e \<noteq> pn_id m" if e: "e \<in> set edges" for e
  proof
    assume "pe_source e = pn_id m"
    with e m noself assms(3) have "(t, pe_target e) \<in> flow_rel nodes edges"
      using flow_pairsI[OF e] by (auto simp: flow_rel_def)
    with t(2) show False by blast
  qed
  then have "out_count edges m = 0" by (simp add: out_count_def filter_empty_conv)
  then have "pn_type m = ''sink''"
    using nodes m(1) degree_scan[OF kept m(1)]
    by (fastforce simp: orphan_errors_def dead_end_errors_def filter_empty_conv)
  with m t(1) show ?thesis by blast
qed

theorem validate_delivers_witness:
  "\<exists>m\<in>set [pnode_of ''s'' ''source'', pnode_of ''k'' ''sink''].
     pn_type m = ''sink'' \<and> (''s'', pn_id m) \<in> (flow_rel
       [pnode_of ''s'' ''source'', pnode_of ''k'' ''sink'']
       [pedge_of ''e1'' ''s'' ''k''])\<^sup>*"
proof -
  let ?ns = "[pnode_of ''s'' ''source'', pnode_of ''k'' ''sink'']"
  let ?es = "[pedge_of ''e1'' ''s'' ''k'']"
  have "validatePipeline ?ns ?es = []" by code_simp
  then show ?thesis
    using validate_delivers[of ?ns ?es "hd ?ns"] by (simp add: arrow_free_def)
qed

text \<open>The arrow joins the two ids of a duplicate key, so two different edges get one key when an
  id holds an arrow: the second is reported as a duplicate.\<close>

lemma edge_key_collision:
  "map ve_type (sc_errs (scan_edges []
     [\<lparr>pe_id = ''e1'', pe_source = ''a'' @ u_arrow @ ''b'', pe_target = ''c''\<rparr>,
      \<lparr>pe_id = ''e2'', pe_source = ''a'', pe_target = ''b'' @ u_arrow @ ''c''\<rparr>])) = [''DUPLICATE_EDGE'']"
  by (simp add: scan_edges_def scan_edge_def scan_init_def edge_key_def u_arrow_def set_add_def)

end
