(* ===== verification/LineageFlow.thy ===== *)
theory LineageFlow
  imports WorkspaceLineage JsNumber "HOL-Library.Multiset"
begin

text \<open>
  The layout of the lineage graph, \<open>apps/web/src/pages/lineageFlow.tsx\<close>: columns from the
  longest-path rank, rows from four barycenter sweeps, the positions of the cards and the texts
  they show.

  A JavaScript number that may be \<open>NaN\<close> (what \<open>undefined\<close> becomes in arithmetic) is an option:
  \<open>None\<close> is \<open>NaN\<close>. The queue of the rank loop is its unread rest. The loop is a
  \<open>partial_function\<close>, because on edges that leave the graph it may run forever; on a closed
  graph it is proved to return. A hole of the sparse array \<open>columns\<close> is an empty column, which
  every later loop skips in the same way. The locale's number and time formats are the
  parameter \<open>lc\<close>.
\<close>

section \<open>Layers, health and texts\<close>

definition LAYER_COLOR :: "(string \<times> string) list" where
  "LAYER_COLOR = [(''external'', ''#64748b''), (''bronze'', ''#b7791f''), (''silver'', ''#94a3b8''), (''gold'', ''#eab308'')]"

definition ASSET_WIDTH :: int where "ASSET_WIDTH = 360"
definition ASSET_HEIGHT :: int where "ASSET_HEIGHT = 152"
definition PIPELINE_WIDTH :: int where "PIPELINE_WIDTH = 200"
definition PIPELINE_HEIGHT :: int where "PIPELINE_HEIGHT = 128"
definition COL_GAP :: int where "COL_GAP = 160"
definition ROW_GAP :: int where "ROW_GAP = 32"

definition normalizeLayer :: "json option \<Rightarrow> string" where
  "normalizeLayer layer =
     (case layer of Some (JStr s) \<Rightarrow> if map_of LAYER_COLOR s \<noteq> None then s else ''external'' | _ \<Rightarrow> ''external'')"

definition HEALTH_COLOR :: "(string \<times> string) list" where
  "HEALTH_COLOR = [(''healthy'', ''#10b981''), (''warning'', ''#f59e0b''), (''critical'', ''#ef4444''), (''unmonitored'', ''#94a3b8'')]"

record health_breach =
  br_type :: string
  br_severity :: string
  br_message :: string

record pipeline_health =
  ph_id :: "string option"
  ph_health :: string
  ph_last_execution_id :: "string option"
  ph_last_phase :: "string option"
  ph_breaches :: "health_breach list option"

record node_metrics =
  nm_runs :: int
  nm_succeeded :: "int option"
  nm_failed :: int
  nm_running :: "int option"
  nm_cancelled :: "int option"
  nm_successRate :: "int option"
  nm_errorRate :: "int option"
  nm_p50Ms :: "int option"
  nm_p95Ms :: "int option"
  nm_records :: "int option"
  nm_lastRunAt :: "string option"
  nm_lastAt :: "string option"

record locale_formats =
  lc_number :: "int \<Rightarrow> string"
  lc_time :: "string \<Rightarrow> string"
  lc_dateTime :: "string \<Rightarrow> string"

text \<open>\<open>formatDuration\<close> on the whole milliseconds that the servers send.\<close>

definition formatDuration :: "int option \<Rightarrow> string" where
  "formatDuration ms =
     (case ms of
        None \<Rightarrow> u_emdash
      | Some ms \<Rightarrow>
          if ms < 1000 then int_str ms @ ''ms''
          else if ms < 60000 then to_fixed1 ms 1000 @ ''s''
          else let minutes = ms div 60000 in
            if minutes < 60 then int_str minutes @ ''m '' @ int_str (round_div (ms mod 60000) 1000) @ ''s''
            else int_str (minutes div 60) @ ''h '' @ int_str (minutes mod 60) @ ''m'')"

definition formatCount :: "locale_formats \<Rightarrow> int option \<Rightarrow> string" where
  "formatCount lc value = (case value of None \<Rightarrow> u_emdash | Some v \<Rightarrow> lc_number lc v)"

section \<open>The cards\<close>

text \<open>What \<open>buildFlow\<close> hands to a card as \<open>data\<close>.\<close>

datatype card =
    AssetCard (cd_asset: data_asset) (cd_layer: string) (cd_materialization: "materialization option")
      (cd_quality: "quality option") (cd_metrics: "node_metrics option")
  | JobCard (cd_job: external_job) (cd_metrics: "node_metrics option")
  | PipelineCard (cd_pipeline: lineage_pipeline) (cd_health: pipeline_health) (cd_metrics: "node_metrics option")

definition u_dot :: string where "u_dot = [CHR '' '', CHR 0xC2, CHR 0xB7, CHR '' '']"

abbreviation line_if :: "bool \<Rightarrow> string \<Rightarrow> string list" where
  "line_if b s \<equiv> (if b then [s] else [])"

text \<open>The lines of \<open>AssetNode\<close> and \<open>PipelineNode\<close>, from top to bottom.\<close>

definition asset_lines :: "locale_formats \<Rightarrow> data_asset \<Rightarrow> materialization option \<Rightarrow> quality option \<Rightarrow> node_metrics option \<Rightarrow> string list" where
  "asset_lines lc a mat q metrics =
     [a_name a, a_platform a @ u_dot @ a_namespace a]
     @ (case metrics of
          Some m \<Rightarrow> [formatCount lc (nm_records m) @ '' records'' @ u_dot @ ''last write ''
              @ (case truthy (nm_lastAt m) of Some t \<Rightarrow> lc_time lc t | None \<Rightarrow> u_emdash)]
        | None \<Rightarrow>
            (let n = length (nullish (a_schema a) []) in
               line_if (n > 0) (''Contract'' @ u_dot @ nat_str n @ '' fields''))
            @ (case mat of
                 Some m \<Rightarrow> [''Updated '' @ lc_dateTime lc (m_materializedAt m)
                     @ (case m_recordCount m of Some c \<Rightarrow> u_dot @ lc_number lc c @ '' rows'' | None \<Rightarrow> '''')]
               | None \<Rightarrow> [])
            @ (case q of
                 Some r \<Rightarrow> [''Quality '' @ q_status r @ u_dot @ lc_number lc (q_failedCount r) @ '' rejected'']
               | None \<Rightarrow> []))"

definition metric_lines :: "node_metrics \<Rightarrow> string list" where
  "metric_lines m =
     [int_str (nm_runs m) @ '' run'' @ (if nm_runs m = 1 then '''' else ''s'')
        @ (case nm_errorRate m of Some r \<Rightarrow> u_dot @ int_str r @ ''% err'' | None \<Rightarrow> '''')]
     @ line_if (nullish (nm_running m) 0 > 0) (int_str (nullish (nm_running m) 0))
     @ [if nm_runs m > 0 then ''p50 '' @ formatDuration (nm_p50Ms m) @ u_dot @ ''p95 '' @ formatDuration (nm_p95Ms m)
        else ''no runs in window'']"

definition breach_suffix :: "pipeline_health \<Rightarrow> string" where
  "breach_suffix h =
     (let n = length (nullish (ph_breaches h) []) in
        if n > 0 then u_dot @ nat_str n @ '' breach'' @ (if n = 1 then '''' else ''es'') else '''')"

definition owner_lines :: "pipeline_metadata option \<Rightarrow> string list" where
  "owner_lines md =
     (let domain = Option.bind md md_domain; owner = Option.bind md md_owner in
        line_if (truthy domain \<noteq> None \<or> truthy owner \<noteq> None)
          (nullish domain ''Unassigned'' @ (case truthy owner of Some w \<Rightarrow> u_dot @ w | None \<Rightarrow> '''')))"

definition pipeline_lines :: "lineage_pipeline \<Rightarrow> pipeline_health \<Rightarrow> node_metrics option \<Rightarrow> string list" where
  "pipeline_lines p h metrics =
     [v_name p, ''v'' @ int_str (v_version p) @ u_dot
        @ (if v_environment p = ''prod'' then ''Production'' else ''Integration'') @ u_dot @ v_status p]
     @ (case metrics of Some m \<Rightarrow> metric_lines m | None \<Rightarrow> [ph_health h @ breach_suffix h])
     @ owner_lines (v_metadata p)"

definition job_lines :: "external_job \<Rightarrow> node_metrics option \<Rightarrow> string list" where
  "job_lines x metrics =
     [x_name x, x_namespace x @ u_dot @ ''external''] @ (case metrics of Some m \<Rightarrow> metric_lines m | None \<Rightarrow> [])"

section \<open>The layout\<close>

text \<open>\<open>Map.get\<close> of a number: a missing one is \<open>NaN\<close> in arithmetic.\<close>

definition num_get :: "(string \<times> 'n option) list \<Rightarrow> string \<Rightarrow> 'n option" where
  "num_get m k = nullish (map_of m k) None"

definition max_num :: "nat option \<Rightarrow> nat option \<Rightarrow> nat option" where
  "max_num a b = (case (a, b) of (Some x, Some y) \<Rightarrow> Some (max x y) | _ \<Rightarrow> None)"

definition outgoing_of :: "lineage_edge list \<Rightarrow> (string \<times> string list) list" where
  "outgoing_of edges = fold (\<lambda>e. multi_add (le_source e) (le_target e)) edges []"

definition incoming_of :: "lineage_edge list \<Rightarrow> (string \<times> string list) list" where
  "incoming_of edges = fold (\<lambda>e. multi_add (le_target e) (le_source e)) edges []"

record rank_state =
  rk_rank :: "(string \<times> nat option) list"
  rk_indegree :: "(string \<times> int option) list"
  rk_queue :: "string list"

text \<open>\<open>!n\<close> of a number: zero and \<open>NaN\<close> are falsy.\<close>

definition falsy_num :: "int option \<Rightarrow> bool" where
  "falsy_num n \<longleftrightarrow> n = None \<or> n = Some 0"

definition rank_init :: "lineage_node list \<Rightarrow> (string \<times> string list) list \<Rightarrow> rank_state" where
  "rank_init nodes incoming =
     (let indegree = map_from (map (\<lambda>n. (ln_id n, Some (int (length (multi_get incoming (ln_id n)))))) nodes)
      in \<lparr>rk_rank = map_from (map (\<lambda>n. (ln_id n, Some 0)) nodes), rk_indegree = indegree,
          rk_queue = map ln_id (filter (\<lambda>n. falsy_num (num_get indegree (ln_id n))) nodes)\<rparr>)"

definition relax :: "string \<Rightarrow> string \<Rightarrow> rank_state \<Rightarrow> rank_state" where
  "relax nid next st =
     (let rank = AList.update next
            (max_num (num_get (rk_rank st) next) (map_option Suc (num_get (rk_rank st) nid))) (rk_rank st);
          remaining = map_option (\<lambda>d. d - 1) (num_get (rk_indegree st) next)
      in \<lparr>rk_rank = rank, rk_indegree = AList.update next remaining (rk_indegree st),
          rk_queue = rk_queue st @ (if falsy_num remaining then [next] else [])\<rparr>)"

partial_function (option) rank_loop :: "(string \<times> string list) list \<Rightarrow> rank_state \<Rightarrow> (string \<times> nat option) list option" where
  "rank_loop outgoing st =
     (case rk_queue st of
        [] \<Rightarrow> Some (rk_rank st)
      | nid # queue \<Rightarrow> rank_loop outgoing (fold (relax nid) (multi_get outgoing nid) (st\<lparr>rk_queue := queue\<rparr>)))"

definition push_at :: "nat \<Rightarrow> string \<Rightarrow> string list list \<Rightarrow> string list list" where
  "push_at r nid cols =
     (let cols' = cols @ replicate (Suc r - length cols) [] in cols'[r := cols' ! r @ [nid]])"

text \<open>A node whose rank is \<open>NaN\<close> lands on a property of the array that no loop reads.\<close>

definition columns_of :: "lineage_node list \<Rightarrow> (string \<times> nat option) list \<Rightarrow> string list list" where
  "columns_of nodes rank =
     fold (\<lambda>n cols. case num_get rank (ln_id n) of Some r \<Rightarrow> push_at r (ln_id n) cols | None \<Rightarrow> cols) nodes []"

type_synonym order_index = "(string \<times> nat) list"

definition index_column :: "string list \<Rightarrow> order_index \<Rightarrow> order_index" where
  "index_column column oi = fold (\<lambda>(i, nid). AList.update nid i) (List.enumerate 0 column) oi"

text \<open>The barycenter as a fraction: the sum of the positions and their number.\<close>

definition barycenter :: "order_index \<Rightarrow> (string \<times> string list) list \<Rightarrow> string \<Rightarrow> (nat \<times> nat) option" where
  "barycenter oi neighbours nid =
     (let positions = map (map_of oi) (multi_get neighbours nid)
      in if positions \<noteq> []
         then (if list_all (\<lambda>p. p \<noteq> None) positions then Some (sum_list (map the positions), length positions) else None)
         else map_option (\<lambda>i. (i, 1)) (map_of oi nid))"

text \<open>The comparator is negative; \<open>NaN\<close> counts as zero.\<close>

definition before :: "(nat \<times> nat) option \<Rightarrow> (nat \<times> nat) option \<Rightarrow> bool" where
  "before a b = (case (a, b) of (Some (s, c), Some (t, d)) \<Rightarrow> s * d < t * c | _ \<Rightarrow> False)"

fun insert_before :: "('a \<Rightarrow> 'a \<Rightarrow> bool) \<Rightarrow> 'a \<Rightarrow> 'a list \<Rightarrow> 'a list" where
  "insert_before lt x [] = [x]"
| "insert_before lt x (y # ys) = (if lt x y then x # y # ys else y # insert_before lt x ys)"

definition sort_with :: "('a \<Rightarrow> 'a \<Rightarrow> bool) \<Rightarrow> 'a list \<Rightarrow> 'a list" where
  "sort_with lt xs = fold (insert_before lt) xs []"

fun sweep_columns :: "(string \<times> string list) list \<Rightarrow> string list list \<Rightarrow> order_index \<Rightarrow> string list list \<times> order_index" where
  "sweep_columns neighbours [] oi = ([], oi)"
| "sweep_columns neighbours (c # cs) oi =
     (let c' = sort_with (\<lambda>a b. before (barycenter oi neighbours a) (barycenter oi neighbours b)) c;
          (cs', oi') = sweep_columns neighbours cs (index_column c' oi)
      in (c' # cs', oi'))"

definition sweep :: "(string \<times> string list) list \<Rightarrow> (string \<times> string list) list \<Rightarrow> nat
    \<Rightarrow> string list list \<times> order_index \<Rightarrow> string list list \<times> order_index" where
  "sweep incoming outgoing k st =
     (if even k then sweep_columns incoming (fst st) (snd st)
      else (case sweep_columns outgoing (rev (fst st)) (snd st) of (cs, oi) \<Rightarrow> (rev cs, oi)))"

definition order_columns :: "(string \<times> string list) list \<Rightarrow> (string \<times> string list) list \<Rightarrow> string list list \<Rightarrow> string list list" where
  "order_columns incoming outgoing cols =
     fst (fold (sweep incoming outgoing) [0..<4] (cols, fold index_column cols []))"

fun is_asset :: "lineage_node \<Rightarrow> bool" where
  "is_asset (AssetNode nid a mat q) = True"
| "is_asset _ = False"

text \<open>\<open>sizeOf\<close>, width and height.\<close>

definition sizeOf :: "lineage_node list \<Rightarrow> string \<Rightarrow> int \<times> int" where
  "sizeOf nodes nid =
     (if map_option is_asset (map_of (map_from (map (\<lambda>n. (ln_id n, n)) nodes)) nid) = Some True
      then (ASSET_WIDTH, ASSET_HEIGHT) else (PIPELINE_WIDTH, PIPELINE_HEIGHT))"

definition place_card :: "(string \<Rightarrow> int \<times> int) \<Rightarrow> int \<Rightarrow> int \<Rightarrow> string
    \<Rightarrow> (string \<times> int \<times> int) list \<times> int \<Rightarrow> (string \<times> int \<times> int) list \<times> int" where
  "place_card sz x columnWidth nid = (\<lambda>(position, y).
     (AList.update nid (x + (columnWidth - fst (sz nid)) div 2, y) position, y + snd (sz nid) + ROW_GAP))"

definition column_width :: "(string \<Rightarrow> int \<times> int) \<Rightarrow> string list \<Rightarrow> int" where
  "column_width sz column = Max (set (map (\<lambda>nid. fst (sz nid)) column))"

definition column_height :: "(string \<Rightarrow> int \<times> int) \<Rightarrow> string list \<Rightarrow> int" where
  "column_height sz column = fold (\<lambda>nid sum. sum + snd (sz nid) + ROW_GAP) column (- ROW_GAP)"

definition place_column :: "(string \<Rightarrow> int \<times> int) \<Rightarrow> string list
    \<Rightarrow> (string \<times> int \<times> int) list \<times> int \<Rightarrow> (string \<times> int \<times> int) list \<times> int" where
  "place_column sz column = (\<lambda>(position, x).
     if column = [] then (position, x)
     else let w = column_width sz column in
       (fst (fold (place_card sz x w) column (position, (- column_height sz column) div 2)), x + w + COL_GAP))"

definition place_columns :: "(string \<Rightarrow> int \<times> int) \<Rightarrow> string list list \<Rightarrow> (string \<times> int \<times> int) list" where
  "place_columns sz cols = fst (fold (place_column sz) cols ([], 0))"

record flow_card =
  fc_id :: string
  fc_position :: "(int \<times> int) option"
  fc_size :: "int \<times> int"
  fc_data :: card

record flow_line =
  fl_id :: string
  fl_source :: string
  fl_target :: string
  fl_stroke :: string

fun card_of :: "(string \<times> pipeline_health) list \<Rightarrow> (string \<Rightarrow> node_metrics option) \<Rightarrow> lineage_node \<Rightarrow> card" where
  "card_of healthById metrics (AssetNode nid a mat q) =
     AssetCard a (normalizeLayer (map_option (\<lambda>l. JStr (layer_str l)) (a_layer a))) mat q (metrics nid)"
| "card_of healthById metrics (ExternalJobNode nid x) = JobCard x (metrics nid)"
| "card_of healthById metrics (PipelineNode nid p) =
     PipelineCard p (nullish (map_of healthById (v_rowId p))
       \<lparr>ph_id = None, ph_health = ''unmonitored'', ph_last_execution_id = None, ph_last_phase = None, ph_breaches = Some []\<rparr>)
       (metrics nid)"

definition line_of :: "(string \<times> pipeline_health) list \<Rightarrow> lineage_edge \<Rightarrow> flow_line" where
  "line_of healthById e =
     \<lparr>fl_id = le_id e, fl_source = le_source e, fl_target = le_target e,
      fl_stroke = nullish (Option.bind (map_of healthById (le_pipelineRowId e)) (\<lambda>h. map_of HEALTH_COLOR (ph_health h))) ''#8b86f8''\<rparr>"

definition positions_of :: "workspace_lineage \<Rightarrow> (string \<times> nat option) list \<Rightarrow> (string \<times> int \<times> int) list" where
  "positions_of graph rank =
     place_columns (sizeOf (wl_nodes graph))
       (order_columns (incoming_of (wl_edges graph)) (outgoing_of (wl_edges graph)) (columns_of (wl_nodes graph) rank))"

definition buildFlow :: "workspace_lineage \<Rightarrow> (string \<times> pipeline_health) list \<Rightarrow> (string \<Rightarrow> node_metrics option)
    \<Rightarrow> (flow_card list \<times> flow_line list) option" where
  "buildFlow graph healthById metrics =
     (let outgoing = outgoing_of (wl_edges graph); incoming = incoming_of (wl_edges graph) in
      map_option (\<lambda>rank.
        (let position = positions_of graph rank in
         (map (\<lambda>n. \<lparr>fc_id = ln_id n, fc_position = map_of position (ln_id n), fc_size = sizeOf (wl_nodes graph) (ln_id n),
                  fc_data = card_of healthById metrics n\<rparr>) (wl_nodes graph),
          map (line_of healthById) (wl_edges graph))))
        (rank_loop outgoing (rank_init (wl_nodes graph) incoming)))"

section \<open>The rank loop\<close>

definition edge_rel :: "lineage_edge list \<Rightarrow> (string \<times> string) set" where
  "edge_rel edges = {(le_source e, le_target e) | e. e \<in> set edges}"

definition node_ids :: "workspace_lineage \<Rightarrow> string set" where
  "node_ids g = ln_id ` set (wl_nodes g)"

text \<open>A graph as \<open>buildWorkspaceLineage\<close> returns it: one node per id, no edge that leaves it.\<close>

definition closed_graph :: "workspace_lineage \<Rightarrow> bool" where
  "closed_graph g \<longleftrightarrow> distinct (map ln_id (wl_nodes g)) \<and> edge_rel (wl_edges g) \<subseteq> node_ids g \<times> node_ids g"

lemma outgoing_get: "multi_get (outgoing_of edges) k = map le_target (filter (\<lambda>e. le_source e = k) edges)"
  by (simp add: outgoing_of_def multi_get_fold)

lemma incoming_get: "multi_get (incoming_of edges) k = map le_source (filter (\<lambda>e. le_target e = k) edges)"
  by (simp add: incoming_of_def multi_get_fold)

lemma num_get_update [simp]: "num_get (AList.update k v m) k' = (if k' = k then v else num_get m k')"
  by (simp add: num_get_def update_conv')

lemma num_get_map_from:
  assumes "distinct (map ln_id ns)" and "n \<in> set ns"
  shows "num_get (map_from (map (\<lambda>n. (ln_id n, f n)) ns)) (ln_id n) = f n"
proof -
  have d: "distinct (map fst (map (\<lambda>n. (ln_id n, f n)) ns))" using assms(1) by (simp add: comp_def)
  have "map_of (map (\<lambda>n. (ln_id n, f n)) ns) (ln_id n) = Some (f n)"
    using assms(2) by (intro map_of_is_SomeI[OF d]) auto
  then show ?thesis by (simp only: num_get_def map_from_distinct[OF d] option.simps)
qed

text \<open>Edges into \<open>n\<close> whose source is not in \<open>P\<close>.\<close>

definition waiting :: "lineage_edge list \<Rightarrow> string set \<Rightarrow> string \<Rightarrow> nat" where
  "waiting edges P n = length (filter (\<lambda>e. le_target e = n \<and> le_source e \<notin> P) edges)"

lemma waiting_step:
  "s \<notin> P \<Longrightarrow> waiting edges (insert s P) n + count_list (multi_get (outgoing_of edges) s) n = waiting edges P n"
  by (induction edges) (auto simp: waiting_def outgoing_get)

lemma edge_rel_image: "edge_rel edges = (\<lambda>e. (le_source e, le_target e)) ` set edges"
  by (auto simp: edge_rel_def)

lemma waiting_pos: "waiting edges P n \<noteq> 0 \<longleftrightarrow> (\<exists>m. (m, n) \<in> edge_rel edges \<and> m \<notin> P)"
  by (auto simp: waiting_def edge_rel_def filter_empty_conv)

abbreviation rank_of :: "(string \<times> nat option) list \<Rightarrow> string \<Rightarrow> nat" where
  "rank_of rank n \<equiv> the (num_get rank n)"

text \<open>\<open>P\<close> are the nodes taken from the queue, \<open>ys\<close> the targets of the last one that are still to be
  relaxed, \<open>R\<close> the relaxed edges.\<close>

definition rank_inv :: "string set \<Rightarrow> lineage_edge list \<Rightarrow> string list \<Rightarrow> string list \<Rightarrow> (string \<times> string) set \<Rightarrow> rank_state \<Rightarrow> bool" where
  "rank_inv V edges P ys R st \<longleftrightarrow>
     distinct (P @ rk_queue st) \<and> set P \<union> set (rk_queue st) \<subseteq> V
   \<and> (\<forall>n\<in>V. num_get (rk_indegree st) n = Some (int (waiting edges (set P) n + count_list ys n)))
   \<and> (\<forall>n\<in>V. n \<in> set P \<union> set (rk_queue st) \<longleftrightarrow> waiting edges (set P) n + count_list ys n = 0)
   \<and> (\<forall>n\<in>V. num_get (rk_rank st) n \<noteq> None)
   \<and> R \<subseteq> set P \<times> V \<and> (\<forall>(s, t)\<in>R. rank_of (rk_rank st) s < rank_of (rk_rank st) t)"

lemma rank_invD:
  assumes "rank_inv V edges P ys R st"
  shows "distinct (P @ rk_queue st)" and "set P \<union> set (rk_queue st) \<subseteq> V"
    and "n \<in> V \<Longrightarrow> num_get (rk_indegree st) n = Some (int (waiting edges (set P) n + count_list ys n))"
    and "n \<in> V \<Longrightarrow> n \<in> set P \<union> set (rk_queue st) \<longleftrightarrow> waiting edges (set P) n + count_list ys n = 0"
    and "n \<in> V \<Longrightarrow> \<exists>k. num_get (rk_rank st) n = Some k"
    and "R \<subseteq> set P \<times> V" and "(s, t) \<in> R \<Longrightarrow> rank_of (rk_rank st) s < rank_of (rk_rank st) t"
  using assms unfolding rank_inv_def by (simp, simp, simp, metis, simp, simp, blast)

lemma relax_inv:
  assumes inv: "rank_inv V edges P (t # ys) R st" and s: "s \<in> set P" and t: "t \<in> V"
  shows "rank_inv V edges P ys (insert (s, t) R) (relax s t st)"
proof -
  note D = rank_invD[OF inv]
  have sV: "s \<in> V" using D(2) s by blast
  have tnew: "t \<notin> set P \<union> set (rk_queue st)" using D(4)[OF t] by simp
  then have st: "s \<noteq> t" using s by auto
  obtain a b where ab: "num_get (rk_rank st) s = Some a" "num_get (rk_rank st) t = Some b"
    using D(5)[OF sV] D(5)[OF t] by blast
  have d: "num_get (rk_indegree st) t = Some (int (waiting edges (set P) t + count_list ys t) + 1)"
    using D(3)[OF t] by simp
  have lt: "rank_of (rk_rank st) x < rank_of (rk_rank st) y \<and> x \<noteq> t" if "(x, y) \<in> R" for x y
    using D(7)[OF that] D(6) tnew that by blast
  have q: "rk_queue (relax s t st) = rk_queue st @ (if waiting edges (set P) t + count_list ys t = 0 then [t] else [])"
    and i: "rk_indegree (relax s t st)
        = AList.update t (Some (int (waiting edges (set P) t + count_list ys t))) (rk_indegree st)"
    and r: "rk_rank (relax s t st) = AList.update t (Some (max b (Suc a))) (rk_rank st)"
    by (simp_all add: relax_def Let_def d ab max_num_def falsy_num_def)
  have "\<forall>(x, y)\<in>insert (s, t) R. rank_of (rk_rank (relax s t st)) x < rank_of (rk_rank (relax s t st)) y"
    using lt st ab by (fastforce simp: r)
  moreover have "insert (s, t) R \<subseteq> set P \<times> V" using D(6) s t by auto
  moreover have "\<forall>n\<in>V. num_get (rk_rank (relax s t st)) n \<noteq> None"
    using D(5) by (auto simp: r)
  moreover have "n \<in> set P \<union> set (rk_queue (relax s t st)) \<longleftrightarrow> waiting edges (set P) n + count_list ys n = 0"
    if "n \<in> V" for n using D(4)[OF that] tnew by (auto simp: q split: if_splits)
  moreover have "\<forall>n\<in>V. num_get (rk_indegree (relax s t st)) n = Some (int (waiting edges (set P) n + count_list ys n))"
    using D(3) by (auto simp: i)
  moreover have "distinct (P @ rk_queue (relax s t st)) \<and> set P \<union> set (rk_queue (relax s t st)) \<subseteq> V"
    using D(1,2) tnew t by (auto simp: q)
  ultimately show ?thesis unfolding rank_inv_def by metis
qed

lemma relax_all_inv:
  "rank_inv V edges P ys R st \<Longrightarrow> s \<in> set P \<Longrightarrow> set ys \<subseteq> V \<Longrightarrow>
   rank_inv V edges P [] (R \<union> {s} \<times> set ys) (fold (relax s) ys st)"
proof (induction ys arbitrary: R st)
  case (Cons t ys)
  from Cons.IH[OF relax_inv[OF Cons.prems(1,2)] Cons.prems(2)] Cons.prems(3) show ?case by simp
qed simp

abbreviation relaxed :: "lineage_edge list \<Rightarrow> string list \<Rightarrow> (string \<times> string) set" where
  "relaxed edges P \<equiv> {(s, t) \<in> edge_rel edges. s \<in> set P}"

lemma take_inv:
  assumes inv: "rank_inv V edges P [] (relaxed edges P) st" and q: "rk_queue st = s # queue"
    and closed: "edge_rel edges \<subseteq> V \<times> V"
  shows "rank_inv V edges (P @ [s]) [] (relaxed edges (P @ [s]))
    (fold (relax s) (multi_get (outgoing_of edges) s) (st\<lparr>rk_queue := queue\<rparr>))"
proof -
  have s: "s \<notin> set P" using inv q by (auto simp: rank_inv_def)
  have "rank_inv V edges (P @ [s]) (multi_get (outgoing_of edges) s) (relaxed edges P) (st\<lparr>rk_queue := queue\<rparr>)"
    using inv q waiting_step[OF s, of edges] closed unfolding rank_inv_def by auto
  moreover have o: "set (multi_get (outgoing_of edges) s) = {t. (s, t) \<in> edge_rel edges}"
    by (auto simp: outgoing_get edge_rel_def)
  moreover from closed have "set (multi_get (outgoing_of edges) s) \<subseteq> V" unfolding o by blast
  ultimately have "rank_inv V edges (P @ [s]) [] (relaxed edges P \<union> {s} \<times> {t. (s, t) \<in> edge_rel edges})
      (fold (relax s) (multi_get (outgoing_of edges) s) (st\<lparr>rk_queue := queue\<rparr>))"
    using relax_all_inv[where s = s and P = "P @ [s]" and ys = "multi_get (outgoing_of edges) s"] by simp
  moreover have "relaxed edges (P @ [s]) = relaxed edges P \<union> {s} \<times> {t. (s, t) \<in> edge_rel edges}" by auto
  ultimately show ?thesis by simp
qed

lemma rank_loop_inv:
  assumes "finite V" and closed: "edge_rel edges \<subseteq> V \<times> V" and "rank_inv V edges P [] (relaxed edges P) st"
  shows "\<exists>rank P' st'. rank_loop (outgoing_of edges) st = Some rank \<and> rk_rank st' = rank \<and> rk_queue st' = []
    \<and> rank_inv V edges P' [] (relaxed edges P') st'"
  using assms(3)
proof (induction "card V - length P" arbitrary: P st rule: less_induct)
  case less
  show ?case
  proof (cases "rk_queue st")
    case Nil
    then have "rank_loop (outgoing_of edges) st = Some (rk_rank st)" by (simp add: rank_loop.simps)
    with Nil less.prems show ?thesis by blast
  next
    case (Cons s queue)
    let ?st = "fold (relax s) (multi_get (outgoing_of edges) s) (st\<lparr>rk_queue := queue\<rparr>)"
    have "distinct (P @ [s])" "set (P @ [s]) \<subseteq> V" using less.prems Cons by (auto simp: rank_inv_def)
    then have "length (P @ [s]) \<le> card V"
      using assms(1) by (metis card_mono distinct_card)
    then have "card V - length (P @ [s]) < card V - length P" by simp
    from less.hyps[OF this take_inv[OF less.prems Cons closed]]
    show ?thesis using Cons by (simp add: rank_loop.simps[of _ st])
  qed
qed

text \<open>What the rank loop computes on a closed graph: every node has a rank; when the graph has no
  cycle, an edge always goes to a higher rank.\<close>

lemma rank_init_inv:
  assumes "closed_graph g"
  shows "rank_inv (node_ids g) (wl_edges g) [] [] {} (rank_init (wl_nodes g) (incoming_of (wl_edges g)))"
proof -
  let ?ns = "wl_nodes g" and ?es = "wl_edges g"
  let ?st = "rank_init ?ns (incoming_of ?es)"
  have d: "distinct (map ln_id ?ns)" using assms by (simp add: closed_graph_def)
  have deg: "length (multi_get (incoming_of ?es) n) = waiting ?es {} n" for n
    by (simp add: incoming_get waiting_def)
  have i: "num_get (rk_indegree ?st) (ln_id n) = Some (int (waiting ?es {} (ln_id n)))" if "n \<in> set ?ns" for n
    using num_get_map_from[OF d that, of "\<lambda>n. Some (int (waiting ?es {} (ln_id n)))"] by (simp add: rank_init_def Let_def deg)
  have r: "num_get (rk_rank ?st) (ln_id n) = Some 0" if "n \<in> set ?ns" for n
    using num_get_map_from[OF d that, of "\<lambda>_. Some 0"] by (simp add: rank_init_def Let_def)
  have q: "rk_queue ?st = map ln_id (filter (\<lambda>n. waiting ?es {} (ln_id n) = 0) ?ns)"
  proof -
    have "rk_queue ?st = map ln_id (filter (\<lambda>n. falsy_num (num_get (rk_indegree ?st) (ln_id n))) ?ns)"
      by (simp add: rank_init_def Let_def)
    also have "filter (\<lambda>n. falsy_num (num_get (rk_indegree ?st) (ln_id n))) ?ns = filter (\<lambda>n. waiting ?es {} (ln_id n) = 0) ?ns"
      by (rule filter_cong) (auto simp: i falsy_num_def)
    finally show ?thesis .
  qed
  have "n \<in> set (rk_queue ?st) \<longleftrightarrow> waiting ?es {} n = 0" if "n \<in> node_ids g" for n
    using that by (auto simp: q node_ids_def)
  moreover have "distinct (rk_queue ?st)" using d unfolding q by (simp add: distinct_map_filter)
  moreover have "set (rk_queue ?st) \<subseteq> node_ids g" by (auto simp: q node_ids_def)
  moreover have "\<forall>n\<in>node_ids g. num_get (rk_indegree ?st) n = Some (int (waiting ?es {} n))"
    "\<forall>n\<in>node_ids g. num_get (rk_rank ?st) n \<noteq> None" using i r by (auto simp: node_ids_def)
  ultimately show ?thesis unfolding rank_inv_def by simp
qed

lemma ranks_exist:
  assumes "closed_graph g"
  shows "\<exists>rank. rank_loop (outgoing_of (wl_edges g)) (rank_init (wl_nodes g) (incoming_of (wl_edges g))) = Some rank
    \<and> (\<forall>n\<in>node_ids g. num_get rank n \<noteq> None)
    \<and> (acyclic (edge_rel (wl_edges g)) \<longrightarrow> (\<forall>(s, t)\<in>edge_rel (wl_edges g). rank_of rank s < rank_of rank t))"
proof -
  let ?E = "edge_rel (wl_edges g)" and ?V = "node_ids g"
  have c: "?E \<subseteq> ?V \<times> ?V" using assms by (simp add: closed_graph_def)
  have fin: "finite ?V" by (simp add: node_ids_def)
  have "rank_inv ?V (wl_edges g) [] [] (relaxed (wl_edges g) []) (rank_init (wl_nodes g) (incoming_of (wl_edges g)))"
    using rank_init_inv[OF assms] by simp
  from rank_loop_inv[OF fin c this] obtain rank P st where
    r: "rank_loop (outgoing_of (wl_edges g)) (rank_init (wl_nodes g) (incoming_of (wl_edges g))) = Some rank" "rk_rank st = rank"
    and q: "rk_queue st = []" and inv: "rank_inv ?V (wl_edges g) P [] (relaxed (wl_edges g) P) st" by blast
  note D = rank_invD[OF inv]
  have all: "?V \<subseteq> set P" if "acyclic ?E"
  proof (rule ccontr)
    assume "\<not> ?V \<subseteq> set P"
    then obtain n where n: "n \<in> ?V - set P" by blast
    have "finite ?E" using c fin finite_subset by blast
    then have "wf ?E" using that by (simp add: finite_acyclic_wf)
    with n obtain z where z: "z \<in> ?V - set P" "\<And>y. (y, z) \<in> ?E \<Longrightarrow> y \<notin> ?V - set P" by (meson wfE_min)
    then have "waiting (wl_edges g) (set P) z \<noteq> 0" using D(4)[of z] q by simp
    then obtain m where "(m, z) \<in> ?E" "m \<notin> set P" unfolding waiting_pos by blast
    with z c show False by blast
  qed
  have "rank_of rank s < rank_of rank t" if "acyclic ?E" "(s, t) \<in> ?E" for s t
    using D(7)[of s t] all[OF that(1)] that(2) c r(2) by blast
  with r D(5) show ?thesis by blast
qed

section \<open>The columns\<close>

text \<open>The column of a rank, empty beyond the end.\<close>

definition col :: "string list list \<Rightarrow> nat \<Rightarrow> string list" where
  "col cols k = (if k < length cols then cols ! k else [])"

lemma col_push_at: "col (push_at r i cols) k = col cols k @ (if k = r then [i] else [])"
  by (auto simp: col_def push_at_def Let_def nth_append nth_list_update)

lemma col_columns_of: "col (columns_of nodes rank) k = map ln_id (filter (\<lambda>n. num_get rank (ln_id n) = Some k) nodes)"
proof (induction nodes rule: rev_induct)
  case (snoc n nodes)
  then show ?case
    by (cases "num_get rank (ln_id n)") (simp_all add: columns_of_def col_push_at)
qed (simp add: columns_of_def col_def)

lemma mset_insert_before [simp]: "mset (insert_before lt x ys) = add_mset x (mset ys)"
  by (induction ys) auto

lemma mset_sort_with [simp]: "mset (sort_with lt xs) = mset xs"
proof -
  have "mset (fold (insert_before lt) xs ys) = mset xs + mset ys" for ys by (induction xs arbitrary: ys) auto
  then show ?thesis by (simp add: sort_with_def)
qed

text \<open>The sweeps only reorder columns.\<close>

abbreviation reordered :: "string list list \<Rightarrow> string list list \<Rightarrow> bool" where
  "reordered \<equiv> list_all2 (\<lambda>c d. mset c = mset d)"

lemma reordered_trans: "reordered a b \<Longrightarrow> reordered b c \<Longrightarrow> reordered a c"
  by (rule list_all2_trans[where ?P1.0 = "\<lambda>c d. mset c = mset d" and ?P2.0 = "\<lambda>c d. mset c = mset d"]) auto

lemma reordered_sweep_columns: "reordered cs (fst (sweep_columns nb cs oi))"
  by (induction nb cs oi rule: sweep_columns.induct) (auto simp: Let_def split: prod.split)

lemma reordered_sweep: "reordered (fst st) (fst (sweep incoming outgoing k st))"
proof (cases "even k")
  case False
  have "reordered (rev (rev (fst st))) (rev (fst (sweep_columns outgoing (rev (fst st)) (snd st))))"
    unfolding list_all2_rev by (rule reordered_sweep_columns)
  with False show ?thesis
    by (cases "sweep_columns outgoing (rev (fst st)) (snd st)") (simp add: sweep_def)
qed (simp add: sweep_def reordered_sweep_columns)

lemma reordered_order_columns: "reordered cols (order_columns incoming outgoing cols)"
proof -
  have "reordered (fst st) (fst (fold (sweep incoming outgoing) ks st))" for ks st
  proof (induction ks arbitrary: st)
    case (Cons k ks)
    then show ?case using reordered_trans[OF reordered_sweep] by simp blast
  qed (simp add: list_all2_refl)
  from this[of "(cols, fold index_column cols [])"] show ?thesis by (simp add: order_columns_def)
qed

lemma reordered_col: "reordered a b \<Longrightarrow> mset (col a k) = mset (col b k)"
  by (auto simp: col_def list_all2_conv_all_nth)

lemma col_final:
  fixes rank :: "(string \<times> nat option) list" and incoming outgoing :: "(string \<times> string list) list"
  assumes "distinct (map ln_id nodes)"
  defines "cols \<equiv> order_columns incoming outgoing (columns_of nodes rank)"
  shows "i \<in> set (col cols k) \<longleftrightarrow> (\<exists>n\<in>set nodes. ln_id n = i \<and> num_get rank i = Some k)"
    and "distinct (col cols k)"
proof -
  have m: "mset (col cols k) = mset (map ln_id (filter (\<lambda>n. num_get rank (ln_id n) = Some k) nodes))"
    unfolding cols_def using reordered_col[OF reordered_order_columns] col_columns_of by metis
  from mset_eq_setD[OF m] show "i \<in> set (col cols k) \<longleftrightarrow> (\<exists>n\<in>set nodes. ln_id n = i \<and> num_get rank i = Some k)"
    by auto
  show "distinct (col cols k)" using mset_eq_imp_distinct_iff[OF m] assms(1) by (simp add: distinct_map_filter)
qed

section \<open>The positions\<close>

text \<open>A card lies left of another, with the column gap between them; or above it, with the row gap.\<close>

definition left_of :: "(string \<Rightarrow> int \<times> int) \<Rightarrow> (string \<times> int \<times> int) list \<Rightarrow> string \<Rightarrow> string \<Rightarrow> bool" where
  "left_of sz p a b = (case (map_of p a, map_of p b) of
     (Some (ax, ay), Some (bx, by)) \<Rightarrow> ax + fst (sz a) + COL_GAP \<le> bx | _ \<Rightarrow> False)"

definition above :: "(string \<Rightarrow> int \<times> int) \<Rightarrow> (string \<times> int \<times> int) list \<Rightarrow> string \<Rightarrow> string \<Rightarrow> bool" where
  "above sz p a b = (case (map_of p a, map_of p b) of
     (Some (ax, ay), Some (bx, by)) \<Rightarrow> ay + snd (sz a) + ROW_GAP \<le> by | _ \<Rightarrow> False)"

lemma place_card_apply:
  "place_card sz x w i (p, y) = (AList.update i (x + (w - fst (sz i)) div 2, y) p, y + snd (sz i) + ROW_GAP)"
  by (simp add: place_card_def)

lemma place_cards:
  assumes "\<forall>i. 0 \<le> snd (sz i)" and "distinct c" and "fold (place_card sz x w) c (p, y) = (p', y')"
  shows "(\<forall>i. i \<notin> set c \<longrightarrow> map_of p' i = map_of p i) \<and> y \<le> y'
    \<and> (\<forall>i\<in>set c. \<exists>iy. map_of p' i = Some (x + (w - fst (sz i)) div 2, iy) \<and> y \<le> iy \<and> iy + snd (sz i) + ROW_GAP \<le> y')
    \<and> sorted_wrt (above sz p') c"
  using assms(2,3)
proof (induction c arbitrary: p y)
  case (Cons i c)
  let ?p = "AList.update i (x + (w - fst (sz i)) div 2, y) p" and ?y = "y + snd (sz i) + ROW_GAP"
  have f: "fold (place_card sz x w) c (?p, ?y) = (p', y')" using Cons.prems by (simp add: place_card_apply)
  have ic: "i \<notin> set c" and dc: "distinct c" using Cons.prems by auto
  note IH = Cons.IH[OF dc f]
  have i: "map_of p' i = Some (x + (w - fst (sz i)) div 2, y)" using IH ic by (simp add: update_conv')
  have ge: "y \<le> ?y" using assms(1) by (simp add: ROW_GAP_def)
  have "above sz p' i j" if j: "j \<in> set c" for j
  proof -
    obtain jy where "map_of p' j = Some (x + (w - fst (sz j)) div 2, jy)" "?y \<le> jy" using IH j by blast
    then show ?thesis using i by (simp add: above_def)
  qed
  moreover have "\<exists>jy. map_of p' j = Some (x + (w - fst (sz j)) div 2, jy) \<and> y \<le> jy \<and> jy + snd (sz j) + ROW_GAP \<le> y'"
    if "j \<in> set (i # c)" for j
  proof (cases "j = i")
    case True
    then show ?thesis using i IH by auto
  next
    case False
    with that have "j \<in> set c" by simp
    with IH ge show ?thesis by (meson order_trans)
  qed
  moreover have "map_of p' j = map_of p j" if "j \<notin> set (i # c)" for j using that IH by (simp add: update_conv')
  moreover have "y \<le> y'" using IH ge by linarith
  ultimately show ?case using IH by simp
qed simp

lemma width_le_column: "i \<in> set c \<Longrightarrow> fst (sz i) \<le> column_width sz c"
  by (simp add: column_width_def)

definition within_column :: "(string \<Rightarrow> int \<times> int) \<Rightarrow> (string \<times> int \<times> int) list \<Rightarrow> int \<Rightarrow> int \<Rightarrow> string \<Rightarrow> bool" where
  "within_column sz p x x' i = (case map_of p i of Some (ix, iy) \<Rightarrow> x \<le> ix \<and> ix + fst (sz i) + COL_GAP \<le> x' | None \<Rightarrow> False)"

lemma place_one_column:
  assumes "\<forall>i. 0 \<le> snd (sz i) \<and> 0 \<le> fst (sz i)" and "distinct c" and "place_column sz c (p, x) = (p', x')"
  shows "(\<forall>i. i \<notin> set c \<longrightarrow> map_of p' i = map_of p i) \<and> x \<le> x'
    \<and> (\<forall>i\<in>set c. within_column sz p' x x' i) \<and> sorted_wrt (above sz p') c"
proof (cases "c = []")
  case True
  with assms(3) show ?thesis by (simp add: place_column_def)
next
  case False
  let ?w = "column_width sz c"
  obtain y' where f: "fold (place_card sz x ?w) c (p, (- column_height sz c) div 2) = (p', y')"
    and x': "x' = x + ?w + COL_GAP"
    using assms(3) False by (cases "fold (place_card sz x ?w) c (p, (- column_height sz c) div 2)")
      (auto simp: place_column_def Let_def)
  have "\<forall>i. 0 \<le> snd (sz i)" using assms(1) by simp
  note C = place_cards[OF this assms(2) f]
  have "within_column sz p' x x' i" if i: "i \<in> set c" for i
  proof -
    obtain iy where "map_of p' i = Some (x + (?w - fst (sz i)) div 2, iy)" using C i by blast
    moreover have "fst (sz i) \<le> ?w" using i by (rule width_le_column)
    ultimately show ?thesis by (simp add: within_column_def x')
  qed
  moreover have "x \<le> x'"
  proof -
    from False obtain i where "i \<in> set c" by (cases c) auto
    then have "0 \<le> ?w" using width_le_column[of i c sz] assms(1) by (meson order_trans)
    then show ?thesis by (simp add: x' COL_GAP_def)
  qed
  ultimately show ?thesis using C by blast
qed

lemma above_cong: "map_of p a = map_of q a \<Longrightarrow> map_of p b = map_of q b \<Longrightarrow> above sz p a b = above sz q a b"
  by (simp add: above_def)

lemma place_all_columns:
  assumes sz: "\<forall>i. 0 \<le> snd (sz i) \<and> 0 \<le> fst (sz i)"
    and "distinct (concat cols)" and "fold (place_column sz) cols (p, x) = (p', x')"
  shows "(\<forall>i. i \<notin> set (concat cols) \<longrightarrow> map_of p' i = map_of p i) \<and> x \<le> x'
    \<and> (\<forall>i\<in>set (concat cols). within_column sz p' x x' i)
    \<and> (\<forall>c\<in>set cols. sorted_wrt (above sz p') c)
    \<and> sorted_wrt (\<lambda>c d. \<forall>a\<in>set c. \<forall>b\<in>set d. left_of sz p' a b) cols"
  using assms(2,3)
proof (induction cols arbitrary: p x)
  case (Cons c cols)
  obtain p1 x1 where 1: "place_column sz c (p, x) = (p1, x1)" by fastforce
  have f: "fold (place_column sz) cols (p1, x1) = (p', x')" using Cons.prems(2) 1 by simp
  have dc: "distinct c" and dcs: "distinct (concat cols)" and dis: "set c \<inter> set (concat cols) = {}"
    using Cons.prems(1) by auto
  note C = place_one_column[OF sz dc 1] and IH = Cons.IH[OF dcs f]
  have keep: "map_of p' a = map_of p1 a" if "a \<in> set c" for a using IH dis that by blast
  have ac: "within_column sz p' x x1 a" if "a \<in> set c" for a
    using C that keep[OF that] by (simp add: within_column_def)
  have "left_of sz p' a b" if a: "a \<in> set c" and b: "b \<in> set (concat cols)" for a b
  proof -
    have "within_column sz p' x x1 a" "within_column sz p' x1 x' b" using ac[OF a] IH b by blast+
    then show ?thesis by (auto simp: within_column_def left_of_def split: option.splits)
  qed
  then have "\<forall>d\<in>set cols. \<forall>a\<in>set c. \<forall>b\<in>set d. left_of sz p' a b" by auto
  moreover have "sorted_wrt (above sz p') c"
    using C above_cong[OF keep keep] by (metis sorted_wrt_mono_rel)
  moreover have "within_column sz p' x x' a" if "a \<in> set (concat (c # cols))" for a
  proof (cases "a \<in> set c")
    case True
    then show ?thesis using ac[OF True] IH by (auto simp: within_column_def split: option.splits)
  next
    case False
    then have "within_column sz p' x1 x' a" using IH that by auto
    then show ?thesis using C by (auto simp: within_column_def split: option.splits)
  qed
  moreover have "map_of p' i = map_of p i" if "i \<notin> set (concat (c # cols))" for i using that IH C by simp
  ultimately show ?case using IH C by simp
qed simp

lemma col_Cons: "col (c # cs) k = (case k of 0 \<Rightarrow> c | Suc l \<Rightarrow> col cs l)"
  by (simp add: col_def split: nat.split)

lemma set_concat_col: "i \<in> set (concat cols) \<longleftrightarrow> (\<exists>k. i \<in> set (col cols k))"
  by (auto simp: col_def Bex_def in_set_conv_nth[of _ cols] split: if_splits)

lemma distinct_concat_col:
  "(\<And>k. distinct (col cols k)) \<Longrightarrow> (\<And>i k l. i \<in> set (col cols k) \<Longrightarrow> i \<in> set (col cols l) \<Longrightarrow> k = l) \<Longrightarrow>
   distinct (concat cols)"
proof (induction cols)
  case (Cons c cs)
  have s: "col (c # cs) (Suc k) = col cs k" and z: "col (c # cs) 0 = c" for k by (simp_all add: col_Cons)
  have "distinct (concat cs)"
    using Cons.IH Cons.prems(1)[of "Suc _"] Cons.prems(2)[of _ "Suc _" "Suc _"] by (simp add: s)
  moreover have "set c \<inter> set (concat cs) = {}"
    using Cons.prems(2)[of _ 0 "Suc _"] unfolding set_eq_iff Int_iff set_concat_col by (auto simp: s z)
  ultimately show ?case using Cons.prems(1)[of 0] by (simp add: z)
qed simp

lemma sorted_wrt_either: "sorted_wrt R xs \<Longrightarrow> a \<in> set xs \<Longrightarrow> b \<in> set xs \<Longrightarrow> a \<noteq> b \<Longrightarrow> R a b \<or> R b a"
  by (induction xs) auto

lemma sorted_wrt_col:
  "sorted_wrt (\<lambda>c d. \<forall>a\<in>set c. \<forall>b\<in>set d. R a b) cols \<Longrightarrow> k < l \<Longrightarrow> a \<in> set (col cols k) \<Longrightarrow> b \<in> set (col cols l) \<Longrightarrow> R a b"
  by (auto simp: col_def sorted_wrt_iff_nth_less split: if_splits)

lemma size_nonneg: "\<forall>i. 0 \<le> snd (sizeOf nodes i) \<and> 0 \<le> fst (sizeOf nodes i)"
  by (simp add: sizeOf_def ASSET_WIDTH_def ASSET_HEIGHT_def PIPELINE_WIDTH_def PIPELINE_HEIGHT_def)

text \<open>Ranks give the positions their order: a lower rank is further left, cards of one rank are stacked.\<close>

lemma positions_by_rank:
  assumes "closed_graph g" and "\<forall>n\<in>node_ids g. num_get rank n \<noteq> None" and ab: "a \<in> node_ids g" "b \<in> node_ids g"
  defines "p \<equiv> positions_of g rank"
  shows "rank_of rank a < rank_of rank b \<Longrightarrow> left_of (sizeOf (wl_nodes g)) p a b"
    and "rank_of rank a = rank_of rank b \<Longrightarrow> a \<noteq> b \<Longrightarrow> above (sizeOf (wl_nodes g)) p a b \<or> above (sizeOf (wl_nodes g)) p b a"
proof -
  let ?cols = "order_columns (incoming_of (wl_edges g)) (outgoing_of (wl_edges g)) (columns_of (wl_nodes g) rank)"
  let ?sz = "sizeOf (wl_nodes g)"
  have d: "distinct (map ln_id (wl_nodes g))" using assms(1) by (simp add: closed_graph_def)
  note cf = col_final[OF d, where incoming = "incoming_of (wl_edges g)" and outgoing = "outgoing_of (wl_edges g)" and rank = rank]
  have dc: "distinct (concat ?cols)"
    by (rule distinct_concat_col) (use cf in \<open>auto\<close>)
  obtain x' where f: "fold (place_column ?sz) ?cols ([], 0) = (p, x')"
    by (cases "fold (place_column ?sz) ?cols ([], 0)") (simp add: p_def positions_of_def place_columns_def)
  note P = place_all_columns[OF size_nonneg dc f]
  have mem: "i \<in> set (col ?cols (rank_of rank i))" if "i \<in> node_ids g" for i
    using assms(2) that cf(1) by (force simp: node_ids_def)
  show "left_of ?sz p a b" if "rank_of rank a < rank_of rank b"
    using P that mem[OF ab(1)] mem[OF ab(2)] sorted_wrt_col[of "left_of ?sz p" ?cols] by blast
  show "above ?sz p a b \<or> above ?sz p b a" if e: "rank_of rank a = rank_of rank b" and ne: "a \<noteq> b"
  proof -
    have "col ?cols (rank_of rank a) \<in> set ?cols" using mem[OF ab(1)] by (auto simp: col_def split: if_splits)
    then have "sorted_wrt (above ?sz p) (col ?cols (rank_of rank a))" using P by blast
    from sorted_wrt_either[OF this mem[OF ab(1)]] mem[OF ab(2)] e ne show ?thesis by simp
  qed
qed

section \<open>Properties\<close>

definition card_left_of :: "flow_card \<Rightarrow> flow_card \<Rightarrow> bool" where
  "card_left_of a b = (case (fc_position a, fc_position b) of
     (Some (ax, ay), Some (bx, by)) \<Rightarrow> ax + fst (fc_size a) + COL_GAP \<le> bx | _ \<Rightarrow> False)"

definition card_above :: "flow_card \<Rightarrow> flow_card \<Rightarrow> bool" where
  "card_above a b = (case (fc_position a, fc_position b) of
     (Some (ax, ay), Some (bx, by)) \<Rightarrow> ay + snd (fc_size a) + ROW_GAP \<le> by | _ \<Rightarrow> False)"

lemma card_relations:
  assumes "fc_position a = map_of p (fc_id a)" and "fc_position b = map_of p (fc_id b)" and "fc_size a = sz (fc_id a)"
  shows "card_left_of a b = left_of sz p (fc_id a) (fc_id b)" and "card_above a b = above sz p (fc_id a) (fc_id b)"
  using assms by (auto simp: card_left_of_def left_of_def card_above_def above_def split: option.splits)

lemma buildFlow_cards:
  assumes "closed_graph g"
  obtains rank cards lines where "buildFlow g health metrics = Some (cards, lines)"
    and "map fc_id cards = map ln_id (wl_nodes g)" and "lines = map (line_of health) (wl_edges g)"
    and "\<forall>c\<in>set cards. fc_position c = map_of (positions_of g rank) (fc_id c) \<and> fc_size c = sizeOf (wl_nodes g) (fc_id c)
      \<and> fc_id c \<in> node_ids g"
    and "\<forall>n\<in>node_ids g. num_get rank n \<noteq> None"
    and "acyclic (edge_rel (wl_edges g)) \<longrightarrow> (\<forall>(s, t)\<in>edge_rel (wl_edges g). rank_of rank s < rank_of rank t)"
proof -
  obtain rank where r: "rank_loop (outgoing_of (wl_edges g)) (rank_init (wl_nodes g) (incoming_of (wl_edges g))) = Some rank"
    and o: "\<forall>n\<in>node_ids g. num_get rank n \<noteq> None"
      "acyclic (edge_rel (wl_edges g)) \<longrightarrow> (\<forall>(s, t)\<in>edge_rel (wl_edges g). rank_of rank s < rank_of rank t)"
    using ranks_exist[OF assms] by blast
  show ?thesis
    by (rule that[of "map (\<lambda>n. \<lparr>fc_id = ln_id n, fc_position = map_of (positions_of g rank) (ln_id n),
        fc_size = sizeOf (wl_nodes g) (ln_id n), fc_data = card_of health metrics n\<rparr>) (wl_nodes g)" _ rank])
      (use r o in \<open>simp_all add: buildFlow_def Let_def comp_def node_ids_def\<close>)
qed

text \<open>C19: the lineage of an acyclic workspace reads from left to right: the layout returns, and the card an
  edge starts from ends at least one column gap before the card it leads to.\<close>

theorem lineage_flows_right:
  assumes "closed_graph g" and "acyclic (edge_rel (wl_edges g))"
  shows "\<exists>cards lines. buildFlow g health metrics = Some (cards, lines)
    \<and> (\<forall>e\<in>set (wl_edges g). \<exists>a\<in>set cards. \<exists>b\<in>set cards. fc_id a = le_source e \<and> fc_id b = le_target e \<and> card_left_of a b)"
proof (rule buildFlow_cards[OF assms(1), of health metrics])
  fix rank cards lines
  assume b: "buildFlow g health metrics = Some (cards, lines)" and ids: "map fc_id cards = map ln_id (wl_nodes g)"
    and c: "\<forall>c\<in>set cards. fc_position c = map_of (positions_of g rank) (fc_id c) \<and> fc_size c = sizeOf (wl_nodes g) (fc_id c)
      \<and> fc_id c \<in> node_ids g"
    and r: "\<forall>n\<in>node_ids g. num_get rank n \<noteq> None"
    and up: "acyclic (edge_rel (wl_edges g)) \<longrightarrow> (\<forall>(s, t)\<in>edge_rel (wl_edges g). rank_of rank s < rank_of rank t)"
  have "\<exists>a\<in>set cards. \<exists>b\<in>set cards. fc_id a = le_source e \<and> fc_id b = le_target e \<and> card_left_of a b"
    if e: "e \<in> set (wl_edges g)" for e
  proof -
    have er: "(le_source e, le_target e) \<in> edge_rel (wl_edges g)" using e by (auto simp: edge_rel_def)
    then have v: "le_source e \<in> node_ids g" "le_target e \<in> node_ids g" using assms(1) by (auto simp: closed_graph_def)
    have "fc_id ` set cards = node_ids g" using arg_cong[OF ids, of set] by (simp add: node_ids_def)
    then obtain a b where ab: "a \<in> set cards" "fc_id a = le_source e" "b \<in> set cards" "fc_id b = le_target e"
      using v by (metis imageE)
    have "rank_of rank (le_source e) < rank_of rank (le_target e)" using up assms(2) er by blast
    from positions_by_rank(1)[OF assms(1) r v this] have "card_left_of a b"
      using ab c card_relations(1)[of a "positions_of g rank" b "sizeOf (wl_nodes g)"] by simp
    with ab show ?thesis by blast
  qed
  with b show ?thesis by blast
qed

text \<open>C22: on every closed workspace graph, cyclic ones included, the layout returns one card per node, each of
  them placed, and no two cards overlap: one is left of the other by the column gap or above it by the
  row gap.\<close>

theorem lineage_cards_apart:
  assumes "closed_graph g"
  shows "\<exists>cards lines. buildFlow g health metrics = Some (cards, lines) \<and> map fc_id cards = map ln_id (wl_nodes g)
    \<and> (\<forall>a\<in>set cards. \<forall>b\<in>set cards. fc_id a \<noteq> fc_id b \<longrightarrow>
         card_left_of a b \<or> card_left_of b a \<or> card_above a b \<or> card_above b a)"
proof (rule buildFlow_cards[OF assms, of health metrics])
  fix rank cards lines
  assume b: "buildFlow g health metrics = Some (cards, lines)" and ids: "map fc_id cards = map ln_id (wl_nodes g)"
    and c: "\<forall>c\<in>set cards. fc_position c = map_of (positions_of g rank) (fc_id c) \<and> fc_size c = sizeOf (wl_nodes g) (fc_id c)
      \<and> fc_id c \<in> node_ids g"
    and r: "\<forall>n\<in>node_ids g. num_get rank n \<noteq> None"
  have "card_left_of x y \<or> card_left_of y x \<or> card_above x y \<or> card_above y x"
    if xy: "x \<in> set cards" "y \<in> set cards" "fc_id x \<noteq> fc_id y" for x y
  proof -
    have v: "fc_id x \<in> node_ids g" "fc_id y \<in> node_ids g" using c xy by blast+
    have l: "left_of (sizeOf (wl_nodes g)) (positions_of g rank) (fc_id u) (fc_id w) \<Longrightarrow> card_left_of u w"
      and a: "above (sizeOf (wl_nodes g)) (positions_of g rank) (fc_id u) (fc_id w) \<Longrightarrow> card_above u w"
      if "u \<in> set cards" "w \<in> set cards" for u w
      using c that card_relations[of u "positions_of g rank" w "sizeOf (wl_nodes g)"] by simp_all
    consider "rank_of rank (fc_id x) < rank_of rank (fc_id y)" | "rank_of rank (fc_id y) < rank_of rank (fc_id x)"
      | "rank_of rank (fc_id x) = rank_of rank (fc_id y)" by linarith
    then show ?thesis
    proof cases
      case 1
      then show ?thesis using positions_by_rank(1)[OF assms r v] l[OF xy(1,2)] by blast
    next
      case 2
      then show ?thesis using positions_by_rank(1)[OF assms r v(2,1)] l[OF xy(2,1)] by blast
    next
      case 3
      then show ?thesis using positions_by_rank(2)[OF assms r v 3 xy(3)] a[OF xy(1,2)] a[OF xy(2,1)] by blast
    qed
  qed
  with b ids show ?thesis by blast
qed

section \<open>A sample graph\<close>

abbreviation orders_edge :: "string \<Rightarrow> string \<Rightarrow> lineage_edge" where
  "orders_edge s t \<equiv> \<lparr>le_id = s @ t, le_source = s, le_target = t, le_pipelineRowId = '''', le_nodeId = ''''\<rparr>"

text \<open>A job that reads one table and writes another.\<close>

abbreviation orders_graph :: workspace_lineage where
  "orders_graph \<equiv> \<lparr>
     wl_nodes = [ExternalJobNode ''j'' \<lparr>x_namespace = ''ns'', x_name = ''load'', x_environment = ''prod'', x_eventTime = '''', x_inputs = [], x_outputs = []\<rparr>,
       AssetNode ''a'' (asset ''u1'' ''pg'' ''default'' ''raw'' Table None) None None,
       AssetNode ''b'' (asset ''u2'' ''pg'' ''default'' ''clean'' Table None) None None],
     wl_edges = [orders_edge ''a'' ''j'', orders_edge ''j'' ''b''], wl_columnEdges = [],
     wl_stats = \<lparr>st_pipelines = 0, st_assets = 2, st_links = 2, st_sharedAssets = 0, st_columnLinks = 0, st_externalJobs = 1\<rparr>\<rparr>"

lemma orders_graph_closed: "closed_graph orders_graph"
  by (simp add: closed_graph_def edge_rel_image node_ids_def)

theorem lineage_flows_right_witness:
  "\<exists>cards lines. buildFlow orders_graph [] (\<lambda>_. None) = Some (cards, lines)
    \<and> (\<exists>a\<in>set cards. \<exists>b\<in>set cards. fc_id a = ''a'' \<and> fc_id b = ''j'' \<and> card_left_of a b)"
proof -
  let ?f = "\<lambda>x::string. if x = ''a'' then 0 else if x = ''j'' then 1 else (2::nat)"
  have "edge_rel (wl_edges orders_graph) \<subseteq> measure ?f" by (simp add: edge_rel_image)
  then have "acyclic (edge_rel (wl_edges orders_graph))" by (meson wf_acyclic wf_measure wf_subset)
  from lineage_flows_right[OF orders_graph_closed this, of "[]" "\<lambda>_. None"]
  obtain cards lines where "buildFlow orders_graph [] (\<lambda>_. None) = Some (cards, lines)"
    and "\<forall>e\<in>set (wl_edges orders_graph). \<exists>a\<in>set cards. \<exists>b\<in>set cards. fc_id a = le_source e \<and> fc_id b = le_target e \<and> card_left_of a b"
    by blast
  then show ?thesis by simp
qed

theorem lineage_cards_apart_witness:
  "\<exists>cards lines. buildFlow orders_graph [] (\<lambda>_. None) = Some (cards, lines) \<and> map fc_id cards = [''j'', ''a'', ''b'']"
proof -
  obtain cards lines where "buildFlow orders_graph [] (\<lambda>_. None) = Some (cards, lines)"
    and "map fc_id cards = map ln_id (wl_nodes orders_graph)"
    using lineage_cards_apart[OF orders_graph_closed, of "[]" "\<lambda>_. None"] by blast
  then show ?thesis by simp
qed

text \<open>The rounding comes after the split into units, so a duration just under the next unit reads as sixty
  seconds.\<close>

lemma formatDuration_sixty:
  "formatDuration (Some 119700) = ''1m 60s''" and "formatDuration (Some 59960) = ''60.0s''"
  by (simp_all add: formatDuration_def to_fixed1_ties round_div_def int_str_def nat_str.simps digit_char_def)

end
