(* ===== verification/CanvasPage.thy ===== *)
theory CanvasPage
  imports PageText ValidatePipeline Mermaid Hooks
begin

text \<open>
  The pipeline editor, \<open>apps/web/src/pages/PipelineCanvasPage.tsx\<close>, with its action bar
  (\<open>canvas/PipelineActionBar.tsx\<close>): the graph on the canvas, loading, saving, activating,
  promoting and running, the Mermaid text and the proposals of the AI builder.

  A handler that waits for the server is two functions: the start, which logs the call, and the
  answer. A fingerprint, \<open>JSON.stringify(definition)\<close>, is the definition itself. The
  graph library's \<open>addEdge\<close>, the catalog (\<open>catalog\<close>, \<open>byType\<close>) and the clock are parameters;
  the number fields of the policy form hold a whole number or nothing, and the duration, shown in
  seconds, is kept in thousandths, so that the division and the product by 1000 cancel.
\<close>

section \<open>The state\<close>

record pipeline_policy =
  po_owner :: string
  po_domain :: string
  po_tags :: string
  po_freshnessMinutes :: "int option"
  po_maxFailureRatePercent :: "int option"
  po_maxDurationSeconds :: "int option"
  po_notificationConnectionId :: string
  po_minimumSeverity :: string

datatype page_call =
    GetPipeline string
  | SavePipeline saved_definition
  | Activate string
  | Promote string bool
  | RunPipeline string
  | AiGenerate string string
  | AiRefine saved_definition string string

record ai_proposal =
  ap_status :: ai_status
  ap_definition :: "saved_definition option"
  ap_suggestedName :: "string option"
  ap_questions :: "string list"
  ap_assumptions :: "string list"
  ap_warnings :: "string list"

record canvas_page =
  cv_nodes :: "flow_node list"
  cv_edges :: "flow_edge list"
  cv_results :: "(string \<times> string \<times> int option) list"
  cv_selected :: "string option"
  cv_selectedEdge :: "string option"
  cv_name :: string
  cv_pipelineKey :: string
  cv_trigger :: trigger
  cv_execution :: "execution_config option"
  cv_policy :: pipeline_policy
  cv_savedRowId :: "string option"
  cv_stage :: stage
  cv_executionId :: "string option"
  cv_msg :: string
  cv_fingerprint :: "saved_definition option"
  cv_cleanAfterHydration :: bool
  cv_loading :: "string option"
  cv_mermaidDraft :: string
  cv_mermaidValid :: bool
  cv_showMermaid :: bool
  cv_aiPrompt :: string
  cv_aiLoading :: bool
  cv_aiMessages :: "(string \<times> string) list"
  cv_aiProposal :: "ai_proposal option"
  cv_aiUndo :: "saved_definition option"
  cv_nid :: nat
  cv_calls :: "page_call list"

definition empty_policy :: pipeline_policy where
  "empty_policy = \<lparr>po_owner = '''', po_domain = '''', po_tags = '''', po_freshnessMinutes = None,
     po_maxFailureRatePercent = None, po_maxDurationSeconds = None, po_notificationConnectionId = '''',
     po_minimumSeverity = ''critical''\<rparr>"

definition initial_canvas :: canvas_page where
  "initial_canvas = \<lparr>cv_nodes = [], cv_edges = [], cv_results = [], cv_selected = None, cv_selectedEdge = None,
     cv_name = ''My pipeline'', cv_pipelineKey = '''', cv_trigger = Manual, cv_execution = None, cv_policy = empty_policy,
     cv_savedRowId = None, cv_stage = Draft, cv_executionId = None, cv_msg = '''', cv_fingerprint = None,
     cv_cleanAfterHydration = False, cv_loading = None, cv_mermaidDraft = '''', cv_mermaidValid = False,
     cv_showMermaid = False, cv_aiPrompt = '''', cv_aiLoading = False, cv_aiMessages = [], cv_aiProposal = None,
     cv_aiUndo = None, cv_nid = 0, cv_calls = []\<rparr>"

section \<open>The definition on the canvas\<close>

definition policy_metadata :: "pipeline_policy \<Rightarrow> pipeline_metadata" where
  "policy_metadata p = \<lparr>md_owner = truthy (Some (js_trim (po_owner p))), md_domain = truthy (Some (js_trim (po_domain p))),
     md_tags = Some (filter (\<lambda>t. t \<noteq> []) (map js_trim (split_char (CHR '','') (po_tags p))))\<rparr>"

definition policy_slo :: "pipeline_policy \<Rightarrow> pipeline_slo" where
  "policy_slo p = \<lparr>slo_freshnessMinutes = po_freshnessMinutes p, slo_maxFailureRatePercent = po_maxFailureRatePercent p,
     slo_maxDurationMs = po_maxDurationSeconds p\<rparr>"

definition policy_notifications :: "pipeline_policy \<Rightarrow> notification_policy option" where
  "policy_notifications p =
     (if po_notificationConnectionId p = [] then None
      else Some \<lparr>np_connectionId = Some (po_notificationConnectionId p), np_minimumSeverity = Some (po_minimumSeverity p)\<rparr>)"

definition canvas_meta :: "canvas_page \<Rightarrow> flow_meta" where
  "canvas_meta st =
     \<lparr>fm_name = cv_name st, fm_trigger = Some (cv_trigger st), fm_pipelineKey = Some (cv_pipelineKey st),
      fm_metadata = Some (policy_metadata (cv_policy st)), fm_slo = Some (policy_slo (cv_policy st)),
      fm_notifications = policy_notifications (cv_policy st), fm_execution = cv_execution st\<rparr>"

definition buildDefinition :: "canvas_page \<Rightarrow> saved_definition" where
  "buildDefinition st = flowToDefinition (cv_nodes st) (cv_edges st) (canvas_meta st)"

definition hasUnsavedChanges :: "canvas_page \<Rightarrow> bool" where
  "hasUnsavedChanges st \<longleftrightarrow> cv_savedRowId st \<noteq> None \<and> cv_fingerprint st \<noteq> Some (buildDefinition st)"

text \<open>The effect on a change of the definition, after a handler.\<close>

definition commit :: "canvas_page \<Rightarrow> canvas_page \<Rightarrow> canvas_page" where
  "commit old new =
     (if buildDefinition new \<noteq> buildDefinition old \<and> cv_cleanAfterHydration new
      then new\<lparr>cv_cleanAfterHydration := False, cv_fingerprint := Some (buildDefinition new)\<rparr> else new)"

definition type_word :: "node_type option \<Rightarrow> string \<Rightarrow> string" where
  "type_word t d = (case t of Some n \<Rightarrow> node_type_str n | None \<Rightarrow> d)"

text \<open>The marks of the graph on the canvas; a node without a type counts as the library's
  \<open>flowNode\<close>.\<close>

definition graphValidationErrors :: "canvas_page \<Rightarrow> validation_error list" where
  "graphValidationErrors st =
     validatePipeline
       (map (\<lambda>n. \<lparr>pn_id = fn_id n, pn_type = type_word (fn_nodeType n) ''flowNode'', pn_label = fn_label n\<rparr>) (cv_nodes st))
       (map (\<lambda>e. \<lparr>pe_id = fe_id e, pe_source = fe_source e, pe_target = fe_target e\<rparr>) (cv_edges st))"

definition definition_errors :: "saved_definition \<Rightarrow> validation_error list" where
  "definition_errors def =
     validatePipeline
       (map (\<lambda>n. \<lparr>pn_id = sn_id n, pn_type = type_word (sn_type n) '''', pn_label = sn_label n\<rparr>) (sd_nodes def))
       (map (\<lambda>e. \<lparr>pe_id = nullish (se_id e) '''', pe_source = se_source e, pe_target = se_target e\<rparr>) (sd_edges def))"

definition validate :: "canvas_page \<Rightarrow> bool \<times> canvas_page" where
  "validate st =
     (case definition_errors (buildDefinition st) of
        [] \<Rightarrow> (True, st)
      | e # _ \<Rightarrow> (False, st\<lparr>cv_msg := ve_message e\<rparr>))"

section \<open>Loading\<close>

record pipeline_row =
  row_id :: string
  row_version :: int
  row_status :: "string option"
  row_environment :: "string option"
  row_definition :: saved_definition

definition hydrated_policy :: "saved_definition \<Rightarrow> pipeline_policy" where
  "hydrated_policy def =
     (let md = sd_metadata def; slo = sd_slo def; nt = sd_notifications def in
      \<lparr>po_owner = nullish (Option.bind md md_owner) '''', po_domain = nullish (Option.bind md md_domain) '''',
       po_tags = join '', '' (nullish (Option.bind md md_tags) []),
       po_freshnessMinutes = Option.bind slo slo_freshnessMinutes,
       po_maxFailureRatePercent = Option.bind slo slo_maxFailureRatePercent,
       po_maxDurationSeconds = (case Option.bind slo slo_maxDurationMs of
           Some ms \<Rightarrow> if ms = 0 then None else Some ms | None \<Rightarrow> None),
       po_notificationConnectionId = nullish (Option.bind nt np_connectionId) '''',
       po_minimumSeverity = nullish (Option.bind nt np_minimumSeverity) ''critical''\<rparr>)"

definition set_flow :: "(nat \<Rightarrow> int) \<Rightarrow> (string \<Rightarrow> catalog_entry option) \<Rightarrow> saved_node list \<Rightarrow> saved_edge list
    \<Rightarrow> canvas_page \<Rightarrow> canvas_page" where
  "set_flow clock byType nodes edges st =
     (case definitionToFlow clock byType nodes edges of
        (ns, es) \<Rightarrow> st\<lparr>cv_nodes := ns, cv_edges := es, cv_results := []\<rparr>)"

definition hydrateFromDefinition :: "(nat \<Rightarrow> int) \<Rightarrow> (string \<Rightarrow> catalog_entry option) \<Rightarrow> saved_definition \<Rightarrow> string
    \<Rightarrow> canvas_page \<Rightarrow> canvas_page" where
  "hydrateFromDefinition clock byType def message st =
     (set_flow clock byType (sd_nodes def) (sd_edges def) st)
       \<lparr>cv_name := or_else (Some (sd_name def)) (cv_name st),
        cv_pipelineKey := or_else (Some (sd_id def)) (cv_pipelineKey st),
        cv_trigger := nullish (sd_trigger def) (cv_trigger st), cv_execution := sd_execution def,
        cv_policy := hydrated_policy def, cv_msg := message\<rparr>"

definition load_generated :: "(nat \<Rightarrow> int) \<Rightarrow> (string \<Rightarrow> catalog_entry option) \<Rightarrow> saved_definition \<Rightarrow> canvas_page \<Rightarrow> canvas_page" where
  "load_generated clock byType def st =
     hydrateFromDefinition clock byType def (''Loaded from AI builder '' @ u_emdash @ '' review and Save'')
       (st\<lparr>cv_savedRowId := None, cv_fingerprint := None, cv_loading := None\<rparr>)"

definition load_start :: "string \<Rightarrow> canvas_page \<Rightarrow> canvas_page" where
  "load_start pipelineId st =
     st\<lparr>cv_savedRowId := None, cv_fingerprint := None, cv_selected := None, cv_selectedEdge := None,
        cv_nodes := [], cv_edges := [], cv_results := [], cv_msg := ''Loading pipeline'' @ u_ellipsis, cv_loading := Some pipelineId,
        cv_calls := cv_calls st @ [GetPipeline pipelineId]\<rparr>"

text \<open>The answer to the request for \<open>pipelineId\<close>; one that is no longer awaited is dropped.\<close>

definition load_answer :: "(nat \<Rightarrow> int) \<Rightarrow> (string \<Rightarrow> catalog_entry option) \<Rightarrow> string \<Rightarrow> string + pipeline_row
    \<Rightarrow> canvas_page \<Rightarrow> canvas_page" where
  "load_answer clock byType pipelineId answer st =
     (if cv_loading st \<noteq> Some pipelineId then st
      else case answer of
          Inl e \<Rightarrow> st\<lparr>cv_msg := ''Load failed: '' @ e\<rparr>
        | Inr row \<Rightarrow>
            (hydrateFromDefinition clock byType (row_definition row) (''Loaded v'' @ int_str (row_version row))
               (st\<lparr>cv_cleanAfterHydration := True, cv_loading := None\<rparr>))
              \<lparr>cv_savedRowId := Some (row_id row), cv_stage := deriveStage (row_status row) (row_environment row)\<rparr>)"

section \<open>Editing the graph\<close>

type_synonym add_edge = "string \<Rightarrow> string \<Rightarrow> string \<Rightarrow> flow_edge list \<Rightarrow> flow_edge list"

text \<open>\<open>addEdge\<close> gets the id, the source and the target of the new edge.\<close>

definition onConnect :: "add_edge \<Rightarrow> int \<Rightarrow> string \<Rightarrow> string \<Rightarrow> canvas_page \<Rightarrow> canvas_page" where
  "onConnect addEdge now source target st = st\<lparr>cv_edges := addEdge (''e'' @ int_str now) source target (cv_edges st)\<rparr>"

definition new_position :: "flow_node list \<Rightarrow> string option \<Rightarrow> int \<times> int" where
  "new_position ns sourceId =
     (case (case sourceId of Some s \<Rightarrow> find (\<lambda>n. fn_id n = s) ns | None \<Rightarrow> None) of
        Some source \<Rightarrow> (fst (fn_position source) + 260, snd (fn_position source))
      | None \<Rightarrow> (160 + int (length ns) * 44, 120 + (int (length ns) mod 5) * 90))"

definition addNode :: "add_edge \<Rightarrow> int \<Rightarrow> catalog_entry \<Rightarrow> string option \<Rightarrow> canvas_page \<Rightarrow> canvas_page" where
  "addNode addEdge now entry sourceId st =
     (let nid = Suc (cv_nid st); i = ''n'' @ nat_str nid @ ''-'' @ int_str (now mod 10000) in
      st\<lparr>cv_nid := nid,
         cv_nodes := cv_nodes st @ [\<lparr>fn_id = i, fn_position = new_position (cv_nodes st) sourceId,
             fn_activityType = ce_activityType entry, fn_nodeType = Some (ce_nodeType entry), fn_label = Some (ce_label entry),
             fn_ingestion = None, fn_config = []\<rparr>],
         cv_edges := (case sourceId of
             Some s \<Rightarrow> if s = [] then cv_edges st else addEdge (''e'' @ int_str now) s i (cv_edges st)
           | None \<Rightarrow> cv_edges st)\<rparr>)"

definition patchNode :: "string \<Rightarrow> (flow_node \<Rightarrow> flow_node) \<Rightarrow> canvas_page \<Rightarrow> canvas_page" where
  "patchNode i patch st = st\<lparr>cv_nodes := map (\<lambda>n. if fn_id n = i then (patch n)\<lparr>fn_id := fn_id n, fn_position := fn_position n\<rparr> else n) (cv_nodes st)\<rparr>"

definition patchEdgeCondition :: "string \<Rightarrow> string \<Rightarrow> canvas_page \<Rightarrow> canvas_page" where
  "patchEdgeCondition i condition st =
     st\<lparr>cv_edges := map (\<lambda>e. if fe_id e = i
         then e\<lparr>fe_condition := Some condition, fe_label := truthy (Some condition),
                fe_animated := (condition \<noteq> []), fe_highlighted := (condition \<noteq> [])\<rparr> else e) (cv_edges st)\<rparr>"

definition deleteNode :: "string \<Rightarrow> canvas_page \<Rightarrow> canvas_page" where
  "deleteNode i st =
     st\<lparr>cv_nodes := filter (\<lambda>n. fn_id n \<noteq> i) (cv_nodes st),
        cv_edges := filter (\<lambda>e. fe_source e \<noteq> i \<and> fe_target e \<noteq> i) (cv_edges st), cv_selected := None\<rparr>"

text \<open>\<open>onNodeStatus\<close>: results of nodes on the canvas.\<close>

definition onNodeStatus :: "(string \<times> string \<times> int option) list \<Rightarrow> canvas_page \<Rightarrow> canvas_page" where
  "onNodeStatus results st =
     st\<lparr>cv_results := fold (\<lambda>n m. case map_of results (fn_id n) of
         Some r \<Rightarrow> AList.update (fn_id n) r m | None \<Rightarrow> m) (cv_nodes st) (cv_results st)\<rparr>"

section \<open>Saving, activating, promoting, running\<close>

definition save_start :: "canvas_page \<Rightarrow> canvas_page" where
  "save_start st =
     (case validate st of
        (False, st1) \<Rightarrow> st1
      | (True, st1) \<Rightarrow> st1\<lparr>cv_calls := cv_calls st1 @ [SavePipeline (buildDefinition st1)]\<rparr>)"

text \<open>The answer to the save of \<open>def\<close>: row, key and version.\<close>

definition save_answer :: "saved_definition \<Rightarrow> string + (string \<times> string \<times> int) \<Rightarrow> canvas_page \<Rightarrow> canvas_page" where
  "save_answer def answer st =
     (case answer of
        Inr (rowId, key, version) \<Rightarrow>
          st\<lparr>cv_savedRowId := Some rowId, cv_pipelineKey := key, cv_fingerprint := Some (def\<lparr>sd_id := key\<rparr>),
             cv_stage := deriveStage (Some ''inactive'') (Some ''test''), cv_msg := ''Saved v'' @ int_str version\<rparr>
      | Inl e \<Rightarrow> st\<lparr>cv_msg := ''Save failed: '' @ e\<rparr>)"

text \<open>The common guard of the three calls on a saved row.\<close>

definition guarded :: "string \<Rightarrow> (string \<Rightarrow> canvas_page \<Rightarrow> canvas_page) \<Rightarrow> canvas_page \<Rightarrow> canvas_page" where
  "guarded verb act st =
     (case cv_savedRowId st of
        None \<Rightarrow> st\<lparr>cv_msg := ''Save first''\<rparr>
      | Some row \<Rightarrow>
          if hasUnsavedChanges st then st\<lparr>cv_msg := ''Save changes before '' @ verb @ '' the pipeline''\<rparr>
          else act row st)"

definition log_call :: "page_call \<Rightarrow> canvas_page \<Rightarrow> canvas_page" where
  "log_call c st = st\<lparr>cv_calls := cv_calls st @ [c]\<rparr>"

definition activate :: "canvas_page \<Rightarrow> canvas_page" where
  "activate = guarded ''activating'' (\<lambda>row. log_call (Activate row))"

definition activate_answer :: "string option \<Rightarrow> canvas_page \<Rightarrow> canvas_page" where
  "activate_answer environment st =
     st\<lparr>cv_stage := deriveStage (Some ''active'') environment,
        cv_msg := ''Activated in '' @ displayEnvironment environment\<rparr>"

definition promote :: "canvas_page \<Rightarrow> canvas_page" where
  "promote = guarded ''promoting'' (\<lambda>row. log_call (Promote row False))"

text \<open>The answer to a promotion of \<open>row\<close>; \<open>confirmed\<close> is the user's answer to the question about a
  breaking contract.\<close>

definition promote_answer :: "string \<Rightarrow> bool \<Rightarrow> string + int \<Rightarrow> canvas_page \<Rightarrow> canvas_page" where
  "promote_answer row confirmed answer st =
     (case answer of
        Inr version \<Rightarrow> st\<lparr>cv_stage := Production,
            cv_msg := ''Promoted to production '' @ u_middot @ '' v'' @ int_str version\<rparr>
      | Inl e \<Rightarrow>
          if str_includes e ''breaking data contract'' \<and> confirmed then log_call (Promote row True) st
          else st\<lparr>cv_msg := ''Promote failed: '' @ e\<rparr>)"

definition override_answer :: "string + int \<Rightarrow> canvas_page \<Rightarrow> canvas_page" where
  "override_answer answer st =
     (case answer of
        Inr version \<Rightarrow> st\<lparr>cv_stage := Production,
            cv_msg := ''Promoted with contract override '' @ u_middot @ '' v'' @ int_str version\<rparr>
      | Inl e \<Rightarrow> st\<lparr>cv_msg := ''Promote failed: '' @ e\<rparr>)"

definition run :: "canvas_page \<Rightarrow> canvas_page" where
  "run = guarded ''running'' (\<lambda>row st.
     case validate st of (False, st1) \<Rightarrow> st1 | (True, st1) \<Rightarrow> log_call (RunPipeline row) st1)"

definition run_answer :: "string + string \<Rightarrow> canvas_page \<Rightarrow> canvas_page" where
  "run_answer answer st =
     (case answer of
        Inr executionId \<Rightarrow> st\<lparr>cv_executionId := Some executionId, cv_msg := ''Running'' @ u_ellipsis\<rparr>
      | Inl e \<Rightarrow> st\<lparr>cv_msg := ''Run failed: '' @ e\<rparr>)"

section \<open>The action bar\<close>

definition graphReady :: "canvas_page \<Rightarrow> bool" where
  "graphReady st \<longleftrightarrow> graphValidationErrors st = []"

definition status_text :: "canvas_page \<Rightarrow> string" where
  "status_text st =
     (if cv_msg st \<noteq> [] then cv_msg st
      else case graphValidationErrors st of
          e # _ \<Rightarrow> ve_message e
        | [] \<Rightarrow> if hasUnsavedChanges st then ''Unsaved changes. Save before activating or running.'' else '''')"

definition save_disabled :: "canvas_page \<Rightarrow> bool" where
  "save_disabled st \<longleftrightarrow> \<not> graphReady st"

definition run_disabled :: "canvas_page \<Rightarrow> bool" where
  "run_disabled st \<longleftrightarrow> cv_savedRowId st = None \<or> \<not> graphReady st \<or> hasUnsavedChanges st"

text \<open>The engines of the picker, with the ones a workspace has not bought.\<close>

definition engine_options :: "(paid_feature \<Rightarrow> bool) \<Rightarrow> (string \<times> bool) list" where
  "engine_options features =
     [(''workflow'', True), (''stream-direct'', features Realtime), (''spark-sql'', features SparkSql),
      (''flink-sql'', features Realtime \<and> features FlinkSql)]"

definition set_engine :: "string \<Rightarrow> canvas_page \<Rightarrow> canvas_page" where
  "set_engine engine st =
     st\<lparr>cv_execution := Some (case cv_execution st of
         Some x \<Rightarrow> x\<lparr>ex_engine := Some engine\<rparr> | None \<Rightarrow> \<lparr>ex_engine = Some engine, ex_transformSql = None\<rparr>)\<rparr>"

section \<open>Mermaid\<close>

text \<open>A node or an edge of the canvas as the shared type; the type of a node is not printed.\<close>

definition as_node :: "saved_node \<Rightarrow> pipeline_node" where
  "as_node n = (bare_node (sn_id n) (nullish (sn_type n) Source) (sn_activityType n) (sn_config n))
     \<lparr>n_label := sn_label n, n_ingestion := sn_ingestion n\<rparr>"

definition as_edge :: "saved_edge \<Rightarrow> pipeline_edge" where
  "as_edge e = (bare_edge (nullish (se_id e) '''') (se_source e) (se_target e))\<lparr>e_condition := se_condition e\<rparr>"

definition canvas_mermaid :: "canvas_page \<Rightarrow> string" where
  "canvas_mermaid st =
     definitionToMermaid (map as_node (sd_nodes (buildDefinition st))) (map as_edge (sd_edges (buildDefinition st)))"

definition openMermaid :: "canvas_page \<Rightarrow> canvas_page" where
  "openMermaid st = st\<lparr>cv_mermaidDraft := canvas_mermaid st, cv_showMermaid := True, cv_selected := None, cv_selectedEdge := None\<rparr>"

definition saved_of_parsed :: "pipeline_node \<Rightarrow> saved_node" where
  "saved_of_parsed n =
     \<lparr>sn_id = n_id n, sn_type = Some (n_type n), sn_activityType = n_activityType n, sn_label = n_label n,
      sn_config = n_config n, sn_ingestion = n_ingestion n, sn_timeoutSec = n_timeoutSec n, sn_retry = n_retry n,
      sn_mergeStrategy = map_option JStr (n_mergeStrategy n), sn_joinKey = map_option JStr (n_joinKey n),
      sn_inputAssets = n_inputAssets n, sn_outputAssets = n_outputAssets n\<rparr>"

definition saved_of_parsed_edge :: "pipeline_edge \<Rightarrow> saved_edge" where
  "saved_of_parsed_edge e = \<lparr>se_id = Some (e_id e), se_source = e_source e, se_target = e_target e, se_condition = e_condition e\<rparr>"

text \<open>A node that was on the canvas keeps its configuration.\<close>

definition keep_config :: "flow_node list \<Rightarrow> flow_node \<Rightarrow> flow_node" where
  "keep_config before n =
     (case map_of (map_from (map (\<lambda>m. (fn_id m, m)) before)) (fn_id n) of
        None \<Rightarrow> n
      | Some prev \<Rightarrow> n\<lparr>fn_config := fn_config prev,
            fn_ingestion := (if fn_ingestion prev \<noteq> None then fn_ingestion prev else fn_ingestion n)\<rparr>)"

definition applyMermaid :: "(nat \<Rightarrow> int) \<Rightarrow> (string \<Rightarrow> catalog_entry option) \<Rightarrow> catalog_entry list \<Rightarrow> canvas_page \<Rightarrow> canvas_page" where
  "applyMermaid clock byType catalog st =
     (if \<not> cv_mermaidValid st then st\<lparr>cv_msg := ''Fix Mermaid validation errors before applying''\<rparr>
      else let r = mermaidToDefinition (cv_mermaidDraft st) catalog;
               (ns, es) = definitionToFlow clock byType (map saved_of_parsed (mp_nodes r)) (map saved_of_parsed_edge (mp_edges r));
               n = length (mp_warnings r)
           in st\<lparr>cv_nodes := map (keep_config (cv_nodes st)) ns, cv_edges := es, cv_results := [], cv_selected := None,
                 cv_msg := (if n > 0 then ''Applied Mermaid '' @ u_middot @ '' '' @ nat_str n @ '' warning(s)'' else ''Applied Mermaid'')\<rparr>)"

section \<open>The AI builder\<close>

definition runAI :: "canvas_page \<Rightarrow> canvas_page" where
  "runAI st =
     (if cv_aiLoading st \<or> js_trim (cv_aiPrompt st) = [] then st
      else if cv_nodes st \<noteq> []
      then st\<lparr>cv_msg := ''Refining pipeline'' @ u_ellipsis, cv_aiLoading := True,
              cv_calls := cv_calls st @ [AiRefine (buildDefinition st) (cv_aiPrompt st) (canvas_mermaid st)]\<rparr>
      else st\<lparr>cv_msg := ''Generating pipeline'' @ u_ellipsis, cv_aiLoading := True,
              cv_calls := cv_calls st @ [AiGenerate (cv_aiPrompt st) '''']\<rparr>)"

definition response_summary :: "ai_proposal \<Rightarrow> string" where
  "response_summary r = join [newline]
     ((case ap_status r of Ready \<Rightarrow> ''Proposal ready'' | NeedsInput \<Rightarrow> ''I need more information.''
         | Rejected \<Rightarrow> ''I could not create a safe proposal.'')
      # map (\<lambda>q. ''Question: '' @ q) (ap_questions r) @ map (\<lambda>a. ''Assumption: '' @ a) (ap_assumptions r)
        @ map (\<lambda>w. ''Warning: '' @ w) (ap_warnings r))"

text \<open>The answer to \<open>prompt\<close>; \<open>None\<close> when the call failed.\<close>

definition ai_answer :: "string \<Rightarrow> ai_proposal option \<Rightarrow> canvas_page \<Rightarrow> canvas_page" where
  "ai_answer prompt answer st =
     (case answer of
        None \<Rightarrow> st\<lparr>cv_aiLoading := False\<rparr>
      | Some r \<Rightarrow> st\<lparr>cv_aiLoading := False, cv_aiProposal := Some r,
          cv_aiMessages := cv_aiMessages st @ [(''user'', prompt), (''assistant'', response_summary r)],
          cv_msg := (case ap_status r of
              Ready \<Rightarrow> ''AI proposal ready '' @ u_emdash @ '' review before applying''
            | NeedsInput \<Rightarrow> ''AI needs more information''
            | Rejected \<Rightarrow> ''AI could not create a safe proposal'')\<rparr>)"

definition applyAI :: "(nat \<Rightarrow> int) \<Rightarrow> (string \<Rightarrow> catalog_entry option) \<Rightarrow> canvas_page \<Rightarrow> canvas_page" where
  "applyAI clock byType st =
     (case cv_aiProposal st of
        None \<Rightarrow> st
      | Some prop \<Rightarrow>
          (case (ap_status prop, ap_definition prop) of
             (Ready, Some def) \<Rightarrow>
               (let st1 = (set_flow clock byType (sd_nodes def) (sd_edges def) st)
                      \<lparr>cv_aiUndo := Some (buildDefinition st),
                       cv_execution := (if sd_execution def \<noteq> None then sd_execution def else cv_execution st),
                       cv_aiProposal := None, cv_aiPrompt := '''', cv_msg := ''AI proposal applied''\<rparr>
                in if cv_nodes st = []
                   then st1\<lparr>cv_name := nullish (ap_suggestedName prop) (sd_name def),
                            cv_trigger := nullish (sd_trigger def) (cv_trigger st)\<rparr>
                   else st1)
           | _ \<Rightarrow> st))"

definition undoAI :: "(nat \<Rightarrow> int) \<Rightarrow> (string \<Rightarrow> catalog_entry option) \<Rightarrow> canvas_page \<Rightarrow> canvas_page" where
  "undoAI clock byType st =
     (case cv_aiUndo st of
        None \<Rightarrow> st
      | Some prev \<Rightarrow>
          (set_flow clock byType (sd_nodes prev) (sd_edges prev) st)
            \<lparr>cv_name := sd_name prev, cv_trigger := nullish (sd_trigger prev) (cv_trigger st), cv_execution := sd_execution prev,
             cv_aiUndo := None, cv_msg := ''AI change undone''\<rparr>)"

section \<open>Undoing a proposal\<close>

text \<open>Every node on the canvas has a type, or none that the catalog knows.\<close>

definition typed_canvas :: "(string \<Rightarrow> catalog_entry option) \<Rightarrow> canvas_page \<Rightarrow> bool" where
  "typed_canvas byType st \<longleftrightarrow> list_all (\<lambda>n. fn_nodeType n \<noteq> None \<or> byType (fn_activityType n) = None) (cv_nodes st)"

lemma canvas_node_again:
  "fn_nodeType n \<noteq> None \<or> byType (fn_activityType n) = None \<Longrightarrow> saved_of_node (canvas_node byType (i, saved_of_node n)) = saved_of_node n"
  by (cases "fn_nodeType n") (auto simp: saved_of_node_def canvas_node_def Let_def spread_same)

lemma flow_again:
  assumes "typed_canvas byType st" and "definitionToFlow clock byType (map saved_of_node (cv_nodes st)) (map saved_of_edge (cv_edges st)) = (ns, es)"
  shows "map saved_of_node ns = map saved_of_node (cv_nodes st)" and "map saved_of_edge es = map saved_of_edge (cv_edges st)"
proof -
  have "map (\<lambda>x. saved_of_node (canvas_node byType x)) (numbered (map saved_of_node (cv_nodes st)))
      = map (\<lambda>x. x) (map saved_of_node (cv_nodes st))"
    by (rule map_numbered) (use assms(1) canvas_node_again in \<open>auto simp: typed_canvas_def list_all_iff\<close>)
  then show "map saved_of_node ns = map saved_of_node (cv_nodes st)"
    using assms(2) by (auto simp: definitionToFlow_def comp_def)
  have "map (\<lambda>x. saved_of_edge (canvas_edge clock x)) (numbered (map saved_of_edge (cv_edges st)))
      = map (\<lambda>x. x) (map saved_of_edge (cv_edges st))"
    by (rule map_numbered) (use saved_edge_again in auto)
  then show "map saved_of_edge es = map saved_of_edge (cv_edges st)"
    using assms(2) by (auto simp: definitionToFlow_def comp_def)
qed

text \<open>What a change of the canvas by a proposal or its undoing leaves alone.\<close>

lemma applyAI_keeps [simp]:
  "cv_policy (applyAI clock byType st) = cv_policy st" "cv_pipelineKey (applyAI clock byType st) = cv_pipelineKey st"
  "cv_savedRowId (applyAI clock byType st) = cv_savedRowId st" "cv_fingerprint (applyAI clock byType st) = cv_fingerprint st"
  "cv_cleanAfterHydration (applyAI clock byType st) = cv_cleanAfterHydration st" "cv_calls (applyAI clock byType st) = cv_calls st"
  by (auto simp: applyAI_def set_flow_def Let_def split: option.splits ai_status.splits prod.splits)

lemma undoAI_keeps [simp]:
  "cv_policy (undoAI clock byType st) = cv_policy st" "cv_pipelineKey (undoAI clock byType st) = cv_pipelineKey st"
  "cv_savedRowId (undoAI clock byType st) = cv_savedRowId st" "cv_fingerprint (undoAI clock byType st) = cv_fingerprint st"
  "cv_cleanAfterHydration (undoAI clock byType st) = cv_cleanAfterHydration st" "cv_calls (undoAI clock byType st) = cv_calls st"
  by (auto simp: undoAI_def set_flow_def split: option.splits prod.splits)

lemma applied_undo:
  "cv_aiProposal st = Some proposal \<Longrightarrow> ap_status proposal = Ready \<Longrightarrow> ap_definition proposal \<noteq> None \<Longrightarrow>
   cv_aiUndo (applyAI clock byType st) = Some (buildDefinition st)"
  by (auto simp: applyAI_def set_flow_def Let_def split: prod.splits)

text \<open>C33: an applied AI proposal can be taken back: undoing it restores the definition of the pipeline as it
  was before, whatever the proposal changed, and with it the mark of unsaved changes.\<close>

theorem undo_restores:
  assumes "cv_aiProposal st = Some proposal" and "ap_status proposal = Ready" and "ap_definition proposal \<noteq> None"
    and "typed_canvas byType st"
  shows "buildDefinition (undoAI clock' byType (applyAI clock byType st)) = buildDefinition st
    \<and> hasUnsavedChanges (undoAI clock' byType (applyAI clock byType st)) = hasUnsavedChanges st"
proof -
  let ?a = "applyAI clock byType st"
  let ?u = "undoAI clock' byType ?a"
  have nodes: "sd_nodes (buildDefinition st) = map saved_of_node (cv_nodes st)"
    and edges: "sd_edges (buildDefinition st) = map saved_of_edge (cv_edges st)"
    and meta: "sd_name (buildDefinition st) = cv_name st" "sd_trigger (buildDefinition st) = Some (cv_trigger st)"
      "sd_execution (buildDefinition st) = cv_execution st"
    by (simp_all add: buildDefinition_def flowToDefinition_def canvas_meta_def)
  obtain ns es where f: "definitionToFlow clock' byType (map saved_of_node (cv_nodes st)) (map saved_of_edge (cv_edges st)) = (ns, es)"
    by fastforce
  have u: "cv_nodes ?u = ns" "cv_edges ?u = es" "cv_name ?u = cv_name st" "cv_trigger ?u = cv_trigger st" "cv_execution ?u = cv_execution st"
    using f by (simp_all add: undoAI_def applied_undo[OF assms(1-3)] set_flow_def nodes edges meta)
  have "buildDefinition ?u = buildDefinition st"
    unfolding buildDefinition_def canvas_meta_def flowToDefinition_def using u flow_again[OF assms(4) f] by simp
  then show ?thesis by (simp add: hasUnsavedChanges_def)
qed

section \<open>What runs is what is shown\<close>

datatype edit =
    EConnect int string string
  | EAdd int catalog_entry "string option"
  | EPatch string "flow_node \<Rightarrow> flow_node"
  | ECondition string string
  | EDelete string
  | EChanges "flow_node list" "flow_edge list"
  | EName string
  | ETrigger trigger
  | EEngine string
  | EPolicy pipeline_policy
  | EStatus "(string \<times> string \<times> int option) list"
  | EOpenMermaid
  | EDraft string bool
  | EApplyMermaid "nat \<Rightarrow> int"
  | EPrompt string
  | EAiAnswer string "ai_proposal option"
  | EApplyAI "nat \<Rightarrow> int"
  | EUndoAI "nat \<Rightarrow> int"

text \<open>The edits; \<open>EChanges\<close> is whatever the graph library reports: moves, selections, removals.\<close>

fun apply_edit :: "(string \<Rightarrow> catalog_entry option) \<Rightarrow> catalog_entry list \<Rightarrow> add_edge \<Rightarrow> edit \<Rightarrow> canvas_page \<Rightarrow> canvas_page" where
  "apply_edit byType catalog addEdge (EConnect now s t) st = onConnect addEdge now s t st"
| "apply_edit byType catalog addEdge (EAdd now entry source) st = addNode addEdge now entry source st"
| "apply_edit byType catalog addEdge (EPatch i patch) st = patchNode i patch st"
| "apply_edit byType catalog addEdge (ECondition i c) st = patchEdgeCondition i c st"
| "apply_edit byType catalog addEdge (EDelete i) st = deleteNode i st"
| "apply_edit byType catalog addEdge (EChanges ns es) st = st\<lparr>cv_nodes := ns, cv_edges := es\<rparr>"
| "apply_edit byType catalog addEdge (EName s) st = st\<lparr>cv_name := s\<rparr>"
| "apply_edit byType catalog addEdge (ETrigger t) st = st\<lparr>cv_trigger := t\<rparr>"
| "apply_edit byType catalog addEdge (EEngine e) st = set_engine e st"
| "apply_edit byType catalog addEdge (EPolicy p) st = st\<lparr>cv_policy := p\<rparr>"
| "apply_edit byType catalog addEdge (EStatus r) st = onNodeStatus r st"
| "apply_edit byType catalog addEdge EOpenMermaid st = openMermaid st"
| "apply_edit byType catalog addEdge (EDraft d v) st = st\<lparr>cv_mermaidDraft := d, cv_mermaidValid := v\<rparr>"
| "apply_edit byType catalog addEdge (EApplyMermaid clock) st = applyMermaid clock byType catalog st"
| "apply_edit byType catalog addEdge (EPrompt s) st = st\<lparr>cv_aiPrompt := s\<rparr>"
| "apply_edit byType catalog addEdge (EAiAnswer prompt r) st = ai_answer prompt r st"
| "apply_edit byType catalog addEdge (EApplyAI clock) st = applyAI clock byType st"
| "apply_edit byType catalog addEdge (EUndoAI clock) st = undoAI clock byType st"

type_synonym row_store = "string \<Rightarrow> saved_definition option"

text \<open>
  The editor and the rows of the server. A row never changes; a save stores what was sent, under the
  key the server chose, in a new row. The flag of a step says that it is a quiet load: the answer to
  a load that leaves the definition on the canvas as it was, so that the effect that takes the
  fingerprint does not run.
\<close>

inductive editor_step :: "(string \<Rightarrow> catalog_entry option) \<Rightarrow> catalog_entry list \<Rightarrow> add_edge
    \<Rightarrow> canvas_page \<times> row_store \<Rightarrow> bool \<Rightarrow> canvas_page \<times> row_store \<Rightarrow> bool" for byType catalog addEdge where
  Edited: "editor_step byType catalog addEdge (p, rows) False (commit p (apply_edit byType catalog addEdge e p), rows)"
| AskedAI: "editor_step byType catalog addEdge (p, rows) False (runAI p, rows)"
| LoadStarted: "editor_step byType catalog addEdge (p, rows) False (commit p (load_start i p), rows)"
| Generated: "editor_step byType catalog addEdge (p, rows) False (commit p (load_generated clock byType def p), rows)"
| LoadedRow: "rows (row_id row) = Some (row_definition row) \<Longrightarrow> p' = load_answer clock byType i (Inr row) p \<Longrightarrow>
    quiet = (cv_loading p = Some i \<and> buildDefinition p' = buildDefinition p) \<Longrightarrow>
    editor_step byType catalog addEdge (p, rows) quiet (commit p p', rows)"
| LoadFailed: "editor_step byType catalog addEdge (p, rows) False (load_answer clock byType i (Inl e) p, rows)"
| SaveStarted: "editor_step byType catalog addEdge (p, rows) False (save_start p, rows)"
| SavedRow: "SavePipeline def \<in> set (cv_calls p) \<Longrightarrow> rows r = None \<Longrightarrow>
    editor_step byType catalog addEdge (p, rows) False
      (commit p (save_answer def (Inr (r, key, version)) p), rows(r \<mapsto> def\<lparr>sd_id := key\<rparr>))"
| SaveFailed: "editor_step byType catalog addEdge (p, rows) False (save_answer def (Inl e) p, rows)"
| OtherRow: "rows r = None \<Longrightarrow> editor_step byType catalog addEdge (p, rows) False (p, rows(r \<mapsto> def))"
| Acted: "act \<in> {activate, promote, run} \<Longrightarrow> editor_step byType catalog addEdge (p, rows) False (act p, rows)"
| ActivateAnswered: "editor_step byType catalog addEdge (p, rows) False (activate_answer env p, rows)"
| PromoteAnswered: "Promote r False \<in> set (cv_calls p) \<Longrightarrow>
    editor_step byType catalog addEdge (p, rows) False (promote_answer r confirmed answer p, rows)"
| OverrideAnswered: "editor_step byType catalog addEdge (p, rows) False (override_answer answer p, rows)"
| RunAnswered: "editor_step byType catalog addEdge (p, rows) False (run_answer result p, rows)"

text \<open>The reachable states, with the mark of a session that had a quiet load.\<close>

inductive editor_reachable :: "(string \<Rightarrow> catalog_entry option) \<Rightarrow> catalog_entry list \<Rightarrow> add_edge
    \<Rightarrow> canvas_page \<times> row_store \<Rightarrow> bool \<Rightarrow> bool" for byType catalog addEdge where
  Fresh: "editor_reachable byType catalog addEdge (initial_canvas, rows) False"
| Then: "editor_reachable byType catalog addEdge s quiet \<Longrightarrow> editor_step byType catalog addEdge s q s' \<Longrightarrow>
    editor_reachable byType catalog addEdge s' (quiet \<or> q)"

text \<open>
  The policy on the canvas is the stored one, but for spaces around a text and for a duration of
  nothing, a tag with a comma in it and a notification without a connection.
\<close>

definition policy_shown :: "saved_definition \<Rightarrow> saved_definition \<Rightarrow> bool" where
  "policy_shown f def \<longleftrightarrow>
     (\<exists>m. sd_metadata f = Some m
       \<and> md_owner m = truthy (map_option js_trim (Option.bind (sd_metadata def) md_owner))
       \<and> md_domain m = truthy (map_option js_trim (Option.bind (sd_metadata def) md_domain))
       \<and> (\<forall>ts. nullish (Option.bind (sd_metadata def) md_tags) [] = ts
            \<and> list_all (\<lambda>t. t \<noteq> [] \<and> \<not> is_space (hd t) \<and> \<not> is_space (last t) \<and> CHR '','' \<notin> set t) ts \<longrightarrow> md_tags m = Some ts))
   \<and> sd_slo f = Some \<lparr>slo_freshnessMinutes = Option.bind (sd_slo def) slo_freshnessMinutes,
        slo_maxFailureRatePercent = Option.bind (sd_slo def) slo_maxFailureRatePercent,
        slo_maxDurationMs = (case Option.bind (sd_slo def) slo_maxDurationMs of Some ms \<Rightarrow> if ms = 0 then None else Some ms | None \<Rightarrow> None)\<rparr>
   \<and> sd_notifications f = (case truthy (Option.bind (sd_notifications def) np_connectionId) of
        Some c \<Rightarrow> Some \<lparr>np_connectionId = Some c,
          np_minimumSeverity = Some (nullish (Option.bind (sd_notifications def) np_minimumSeverity) ''critical'')\<rparr>
      | None \<Rightarrow> None)"

text \<open>
  The definition \<open>f\<close> on the canvas stands for the stored \<open>def\<close>: it is the same, or what the canvas
  makes of it. A name, a key or a trigger that the stored one lacks is the canvas's own, and the
  canvas has no concurrency.
\<close>

definition stands_for :: "(string \<Rightarrow> catalog_entry option) \<Rightarrow> saved_definition \<Rightarrow> saved_definition \<Rightarrow> bool" where
  "stands_for byType f def \<longleftrightarrow> f = def
     \<or> (sd_nodes f = map (kept_by_canvas byType) (sd_nodes def)
       \<and> map (\<lambda>e. (se_source e, se_target e, se_condition e)) (sd_edges f)
          = map (\<lambda>e. (se_source e, se_target e, truthy (se_condition e))) (sd_edges def)
       \<and> sd_execution f = sd_execution def
       \<and> (sd_name def \<noteq> [] \<longrightarrow> sd_name f = sd_name def) \<and> (sd_id def \<noteq> [] \<longrightarrow> sd_id f = sd_id def)
       \<and> (sd_trigger def \<noteq> None \<longrightarrow> sd_trigger f = sd_trigger def)
       \<and> policy_shown f def \<and> sd_concurrency f = None)"

definition editor_inv :: "(string \<Rightarrow> catalog_entry option) \<Rightarrow> canvas_page \<times> row_store \<Rightarrow> bool" where
  "editor_inv byType s \<longleftrightarrow> \<not> cv_cleanAfterHydration (fst s)
     \<and> (\<forall>r f. cv_savedRowId (fst s) = Some r \<and> cv_fingerprint (fst s) = Some f \<longrightarrow>
          (\<exists>def. snd s r = Some def \<and> stands_for byType f def))"

text \<open>The row holds what the canvas shows.\<close>

definition row_shown :: "(string \<Rightarrow> catalog_entry option) \<Rightarrow> canvas_page \<times> row_store \<Rightarrow> string \<Rightarrow> bool" where
  "row_shown byType s r \<longleftrightarrow> (\<exists>def. snd s r = Some def \<and> stands_for byType (buildDefinition (fst s)) def)"

text \<open>Every promotion that was asked for was asked for in a state that showed its row, which the row store still has.\<close>

definition promoted_inv :: "(string \<Rightarrow> catalog_entry option) \<Rightarrow> catalog_entry list \<Rightarrow> add_edge \<Rightarrow> canvas_page \<times> row_store \<Rightarrow> bool" where
  "promoted_inv byType catalog addEdge s \<longleftrightarrow>
     (\<forall>r. Promote r False \<in> set (cv_calls (fst s)) \<longrightarrow>
        (\<exists>q rows0 rest. editor_reachable byType catalog addEdge (q, rows0) False
           \<and> cv_calls (fst s) = cv_calls q @ Promote r False # rest \<and> row_shown byType (q, rows0) r \<and> snd s r = rows0 r))"

lemmas edit_defs = onConnect_def addNode_def patchNode_def patchEdgeCondition_def deleteNode_def set_engine_def onNodeStatus_def
  openMermaid_def applyMermaid_def ai_answer_def Let_def

lemma edit_keeps [simp]:
  "cv_savedRowId (apply_edit byType catalog addEdge e st) = cv_savedRowId st"
  "cv_fingerprint (apply_edit byType catalog addEdge e st) = cv_fingerprint st"
  "cv_cleanAfterHydration (apply_edit byType catalog addEdge e st) = cv_cleanAfterHydration st"
  "cv_calls (apply_edit byType catalog addEdge e st) = cv_calls st"
  by (cases e; simp add: edit_defs split: option.split prod.split)+

lemma validate_keeps [simp]:
  "cv_savedRowId (snd (validate st)) = cv_savedRowId st" "cv_fingerprint (snd (validate st)) = cv_fingerprint st"
  "cv_cleanAfterHydration (snd (validate st)) = cv_cleanAfterHydration st" "cv_calls (snd (validate st)) = cv_calls st"
  by (simp_all add: validate_def split: list.split)

lemma commit_unhydrated [simp]: "\<not> cv_cleanAfterHydration p \<Longrightarrow> commit old p = p"
  by (simp add: commit_def)

abbreviation same_row :: "canvas_page \<Rightarrow> canvas_page \<Rightarrow> bool" where
  "same_row p q \<equiv> cv_savedRowId p = cv_savedRowId q \<and> cv_fingerprint p = cv_fingerprint q
     \<and> cv_cleanAfterHydration p = cv_cleanAfterHydration q"

lemma log_call_same: "same_row (log_call c p) p"
  by (simp add: log_call_def)

lemma guarded_same: "(\<And>row. same_row (act row p) p) \<Longrightarrow> same_row (guarded verb act p) p"
  by (simp add: guarded_def split: option.split)

lemma act_same: "act \<in> {activate, promote, run} \<Longrightarrow> same_row (act p) p"
proof -
  have v: "same_row (case validate p of (False, p1) \<Rightarrow> p1 | (True, p1) \<Rightarrow> log_call (RunPipeline row) p1) p" for row
  proof -
    obtain ok p1 where e: "validate p = (ok, p1)" by fastforce
    then show ?thesis using validate_keeps[of p] by (cases ok) (simp_all add: log_call_def)
  qed
  have "same_row (activate p) p" unfolding activate_def by (rule guarded_same) (rule log_call_same)
  moreover have "same_row (promote p) p" unfolding promote_def by (rule guarded_same) (rule log_call_same)
  moreover have "same_row (run p) p" unfolding run_def by (rule guarded_same) (rule v)
  ultimately show "act \<in> {activate, promote, run} \<Longrightarrow> same_row (act p) p" by blast
qed

lemma tags_kept:
  assumes "list_all (\<lambda>t. t \<noteq> [] \<and> \<not> is_space (hd t) \<and> \<not> is_space (last t) \<and> CHR '','' \<notin> set t) ts"
  shows "filter (\<lambda>t. t \<noteq> []) (map js_trim (split_char (CHR '','') (join '', '' ts))) = ts"
proof -
  have pad: "js_trim (CHR '' '' # t) = js_trim t" for t
    by (simp add: js_trim_def trim_start_def is_space_def)
  have padded: "list_all (\<lambda>t. t \<noteq> [] \<and> \<not> is_space (hd t) \<and> \<not> is_space (last t) \<and> CHR '','' \<notin> set t) ts \<Longrightarrow> ts \<noteq> [] \<Longrightarrow>
      map js_trim (split_char (CHR '','') (CHR '' '' # join '', '' ts)) = ts" for ts
  proof (induction ts)
    case (Cons t us)
    then have t: "js_trim (CHR '' '' # t) = t" "CHR '','' \<notin> set (CHR '' '' # t)" by (auto simp: pad js_trim_id)
    show ?case
    proof (cases us)
      case Nil
      then show ?thesis using t split_char_no_sep[OF t(2)] by simp
    next
      case (Cons u vs)
      then show ?thesis using Cons.IH Cons.prems t split_char_append[OF t(2), of "CHR '' '' # join '', '' us"] by simp
    qed
  qed simp
  show ?thesis
  proof (cases ts)
    case (Cons t us)
    have "map js_trim (split_char (CHR '','') (join '', '' ts)) = map js_trim (split_char (CHR '','') (CHR '' '' # join '', '' ts))"
      by (cases "split_char (CHR '','') (join '', '' ts)") (auto simp: pad)
    then show ?thesis using padded[OF assms] assms Cons by (simp add: list_all_iff)
  qed (simp add: js_trim_id)
qed

lemma policy_shown_loaded:
  assumes "sd_metadata f = Some (policy_metadata (hydrated_policy def))" and "sd_slo f = Some (policy_slo (hydrated_policy def))"
    and "sd_notifications f = policy_notifications (hydrated_policy def)"
  shows "policy_shown f def"
proof -
  have t: "truthy (Some (js_trim (nullish v ''''))) = truthy (map_option js_trim v)" for v
    by (cases v) (simp_all add: js_trim_id truthy_def)
  have md: "policy_metadata (hydrated_policy def) =
      \<lparr>md_owner = truthy (map_option js_trim (Option.bind (sd_metadata def) md_owner)),
       md_domain = truthy (map_option js_trim (Option.bind (sd_metadata def) md_domain)),
       md_tags = Some (filter (\<lambda>t. t \<noteq> []) (map js_trim (split_char (CHR '','') (join '', '' (nullish (Option.bind (sd_metadata def) md_tags) [])))))\<rparr>"
    unfolding policy_metadata_def hydrated_policy_def Let_def pipeline_policy.simps t ..
  have slo: "policy_slo (hydrated_policy def) = \<lparr>slo_freshnessMinutes = Option.bind (sd_slo def) slo_freshnessMinutes,
        slo_maxFailureRatePercent = Option.bind (sd_slo def) slo_maxFailureRatePercent,
        slo_maxDurationMs = (case Option.bind (sd_slo def) slo_maxDurationMs of Some ms \<Rightarrow> if ms = 0 then None else Some ms | None \<Rightarrow> None)\<rparr>"
    unfolding policy_slo_def hydrated_policy_def Let_def pipeline_policy.simps ..
  have n: "(if nullish v '''' = [] then None else Some \<lparr>np_connectionId = Some (nullish v ''''), np_minimumSeverity = w\<rparr>)
      = (case truthy v of Some c \<Rightarrow> Some \<lparr>np_connectionId = Some c, np_minimumSeverity = w\<rparr> | None \<Rightarrow> None)" for v w
    by (cases v) (simp_all add: truthy_def)
  have nts: "policy_notifications (hydrated_policy def) = (case truthy (Option.bind (sd_notifications def) np_connectionId) of
        Some c \<Rightarrow> Some \<lparr>np_connectionId = Some c,
          np_minimumSeverity = Some (nullish (Option.bind (sd_notifications def) np_minimumSeverity) ''critical'')\<rparr>
      | None \<Rightarrow> None)"
    unfolding policy_notifications_def hydrated_policy_def Let_def pipeline_policy.simps n ..
  show ?thesis unfolding policy_shown_def assms md slo nts by (simp add: tags_kept)
qed

lemma stands_for_loaded: "stands_for byType (buildDefinition (hydrateFromDefinition clock byType def msg st)) def"
proof -
  let ?f = "buildDefinition (hydrateFromDefinition clock byType def msg st)"
  have "map (\<lambda>x. saved_of_node (canvas_node byType x)) (numbered (sd_nodes def)) = map (kept_by_canvas byType) (sd_nodes def)"
    by (rule map_numbered) (simp add: kept_by_canvas_def canvas_node_def saved_of_node_def Let_def)
  moreover have "map (\<lambda>x. (se_source (saved_of_edge (canvas_edge clock x)), se_target (saved_of_edge (canvas_edge clock x)),
        se_condition (saved_of_edge (canvas_edge clock x)))) (numbered (sd_edges def))
      = map (\<lambda>e. (se_source e, se_target e, truthy (se_condition e))) (sd_edges def)"
    by (rule map_numbered) (simp add: saved_of_edge_def canvas_edge_def Let_def)
  moreover have "policy_shown ?f def"
    by (rule policy_shown_loaded) (simp_all add: buildDefinition_def flowToDefinition_def canvas_meta_def hydrateFromDefinition_def)
  ultimately show ?thesis
    by (auto simp: stands_for_def buildDefinition_def flowToDefinition_def canvas_meta_def hydrateFromDefinition_def set_flow_def
        definitionToFlow_def comp_def or_else_def)
qed

lemma load_answer_row:
  assumes "load_answer clock byType i (Inr row) p \<noteq> p"
  shows "cv_savedRowId (load_answer clock byType i (Inr row) p) = Some (row_id row)"
    and "cv_cleanAfterHydration (load_answer clock byType i (Inr row) p)"
    and "stands_for byType (buildDefinition (load_answer clock byType i (Inr row) p)) (row_definition row)"
proof -
  let ?h = "hydrateFromDefinition clock byType (row_definition row) (''Loaded v'' @ int_str (row_version row))
      (p\<lparr>cv_cleanAfterHydration := True, cv_loading := None\<rparr>)"
  have l: "load_answer clock byType i (Inr row) p
      = ?h\<lparr>cv_savedRowId := Some (row_id row), cv_stage := deriveStage (row_status row) (row_environment row)\<rparr>"
    using assms by (auto simp: load_answer_def)
  have b: "buildDefinition (st\<lparr>cv_savedRowId := r, cv_stage := sg\<rparr>) = buildDefinition st" for st r sg
    by (simp add: buildDefinition_def canvas_meta_def)
  show "cv_savedRowId (load_answer clock byType i (Inr row) p) = Some (row_id row)" by (simp add: l)
  show "cv_cleanAfterHydration (load_answer clock byType i (Inr row) p)"
    by (simp add: l hydrateFromDefinition_def set_flow_def definitionToFlow_def)
  show "stands_for byType (buildDefinition (load_answer clock byType i (Inr row) p)) (row_definition row)"
    unfolding l b by (rule stands_for_loaded)
qed

lemma editor_inv_rows: "editor_inv byType (p, rows) \<Longrightarrow> rows r = None \<Longrightarrow> editor_inv byType (p, rows(r \<mapsto> def))"
  by (force simp: editor_inv_def)

lemma editor_inv_same:
  "editor_inv byType (p, rows) \<Longrightarrow> cv_savedRowId p' = cv_savedRowId p \<Longrightarrow> cv_fingerprint p' = cv_fingerprint p \<Longrightarrow>
   cv_cleanAfterHydration p' = cv_cleanAfterHydration p \<Longrightarrow> editor_inv byType (p', rows)"
  by (simp add: editor_inv_def)

lemma editor_step_inv:
  assumes "editor_step byType catalog addEdge s q s'" and "editor_inv byType s" and "\<not> q"
  shows "editor_inv byType s'"
  using assms
proof (induction rule: editor_step.induct)
  case (Edited p rows e)
  then show ?case by (simp add: editor_inv_def)
next
  case (LoadStarted p rows i)
  then show ?case by (simp add: editor_inv_def load_start_def)
next
  case (Generated p rows clock def)
  then show ?case
    by (simp add: editor_inv_def load_generated_def hydrateFromDefinition_def set_flow_def definitionToFlow_def)
next
  case (LoadedRow rows row p' clock i p q)
  show ?case
  proof (cases "cv_loading p = Some i")
    case False
    then show ?thesis using LoadedRow by (simp add: commit_def load_answer_def)
  next
    case True
    with LoadedRow have "load_answer clock byType i (Inr row) p \<noteq> p" and "buildDefinition p' \<noteq> buildDefinition p" by auto
    from load_answer_row[OF this(1)] this(2) LoadedRow(1,2) show ?thesis
      by (simp add: commit_def editor_inv_def buildDefinition_def canvas_meta_def)
  qed
next
  case (SavedRow def p rows r key version)
  then show ?case by (simp add: editor_inv_def save_answer_def stands_for_def)
next
  case (Acted act p rows)
  then show ?case using act_same[OF Acted(1), of p] editor_inv_same by blast
next
  case (SaveStarted p rows)
  obtain ok p1 where v: "validate p = (ok, p1)" by fastforce
  then show ?case using validate_keeps[of p] SaveStarted
    by (cases ok) (auto simp: save_start_def intro: editor_inv_same)
next
  case (OtherRow rows r p def)
  then show ?case using editor_inv_rows by blast
qed (auto intro: editor_inv_same simp: runAI_def load_answer_def save_answer_def activate_answer_def promote_answer_def
    override_answer_def run_answer_def log_call_def split: sum.split)

lemma editor_reachable_inv: "editor_reachable byType catalog addEdge s quiet \<Longrightarrow> \<not> quiet \<Longrightarrow> editor_inv byType s"
proof (induction rule: editor_reachable.induct)
  case (Fresh rows)
  show ?case by (simp add: editor_inv_def initial_canvas_def)
next
  case (Then s quiet q s')
  then show ?case using editor_step_inv by blast
qed

section \<open>The calls of the editor\<close>

lemma run_calls:
  "cv_calls (run p) \<noteq> cv_calls p \<Longrightarrow> \<exists>r. cv_savedRowId p = Some r \<and> \<not> hasUnsavedChanges p
     \<and> definition_errors (buildDefinition p) = [] \<and> cv_calls (run p) = cv_calls p @ [RunPipeline r]"
  by (auto simp: run_def guarded_def log_call_def validate_def split: option.splits if_splits list.splits)

lemma other_calls:
  "cv_calls (activate p) \<noteq> cv_calls p \<Longrightarrow> \<exists>r. cv_savedRowId p = Some r \<and> \<not> hasUnsavedChanges p
     \<and> cv_calls (activate p) = cv_calls p @ [Activate r]"
  "cv_calls (promote p) \<noteq> cv_calls p \<Longrightarrow> \<exists>r. cv_savedRowId p = Some r \<and> \<not> hasUnsavedChanges p
     \<and> cv_calls (promote p) = cv_calls p @ [Promote r False]"
  by (auto simp: activate_def promote_def guarded_def log_call_def split: option.splits if_splits)

text \<open>The calls that put a row to work, and what they need: a clean page for the row and, for a run, a valid definition;
  an override needs an earlier promotion of the row.\<close>

fun allowed :: "canvas_page \<Rightarrow> page_call \<Rightarrow> bool" where
  "allowed p (Activate r) = (cv_savedRowId p = Some r \<and> \<not> hasUnsavedChanges p)"
| "allowed p (Promote r False) = (cv_savedRowId p = Some r \<and> \<not> hasUnsavedChanges p)"
| "allowed p (Promote r True) = (Promote r False \<in> set (cv_calls p))"
| "allowed p (RunPipeline r) = (cv_savedRowId p = Some r \<and> \<not> hasUnsavedChanges p \<and> definition_errors (buildDefinition p) = [])"
| "allowed p c = True"

lemma commit_calls [simp]: "cv_calls (commit old p) = cv_calls p"
  by (simp add: commit_def)

lemma hydrate_calls [simp]: "cv_calls (hydrateFromDefinition clock byType def msg st) = cv_calls st"
  by (simp add: hydrateFromDefinition_def set_flow_def split: prod.split)

lemma act_allowed:
  assumes "act \<in> {activate, promote, run}"
  shows "cv_calls (act p) = cv_calls p \<or> (\<exists>c. cv_calls (act p) = cv_calls p @ [c] \<and> allowed p c)"
  using assms other_calls(1)[of p] other_calls(2)[of p] run_calls[of p] by (metis allowed.simps(1,2,4) insertE singletonD)

lemma step_calls:
  assumes "editor_step byType catalog addEdge (p, rows) q (p', rows')"
  shows "cv_calls p' = cv_calls p \<or> (\<exists>c. cv_calls p' = cv_calls p @ [c] \<and> allowed p c)"
  using assms
proof (cases rule: editor_step.cases)
  case (Acted act)
  then show ?thesis using act_allowed by blast
next
  case SaveStarted
  then show ?thesis by (auto simp: save_start_def validate_def split: list.split)
qed (auto simp: runAI_def load_start_def load_generated_def load_answer_def save_answer_def activate_answer_def promote_answer_def
    override_answer_def run_answer_def log_call_def split: sum.split)

lemma step_rows: "editor_step byType catalog addEdge (p, rows) q (p', rows') \<Longrightarrow> rows r = Some def \<Longrightarrow> rows' r = Some def"
  by (cases rule: editor_step.cases) auto

lemma clean_row_shown:
  assumes "editor_reachable byType catalog addEdge (p, rows) False" and "cv_savedRowId p = Some r" and "\<not> hasUnsavedChanges p"
  shows "row_shown byType (p, rows) r"
  using editor_reachable_inv[OF assms(1)] assms(2,3) by (auto simp: hasUnsavedChanges_def editor_inv_def row_shown_def)

lemma editor_reachable_promoted:
  "editor_reachable byType catalog addEdge s quiet \<Longrightarrow> \<not> quiet \<Longrightarrow> promoted_inv byType catalog addEdge s"
proof (induction rule: editor_reachable.induct)
  case (Fresh rows)
  show ?case by (simp add: promoted_inv_def initial_canvas_def)
next
  case (Then s quiet q s')
  obtain p rows p' rows' where s: "s = (p, rows)" "s' = (p', rows')" by fastforce
  have old: "promoted_inv byType catalog addEdge (p, rows)" and reached: "editor_reachable byType catalog addEdge (p, rows) False"
    using Then s by auto
  note step = Then.hyps(2)[unfolded s]
  have "\<exists>q rows0 rest. editor_reachable byType catalog addEdge (q, rows0) False
      \<and> cv_calls p' = cv_calls q @ Promote r False # rest \<and> row_shown byType (q, rows0) r \<and> rows' r = rows0 r"
    if new: "Promote r False \<in> set (cv_calls p')" for r
  proof (cases "Promote r False \<in> set (cv_calls p)")
    case True
    then obtain p0 rows0 rest where *: "editor_reachable byType catalog addEdge (p0, rows0) False"
      "cv_calls p = cv_calls p0 @ Promote r False # rest" "row_shown byType (p0, rows0) r" "rows r = rows0 r"
      using old by (auto simp: promoted_inv_def)
    then have "rows' r = rows0 r" using step_rows[OF step] by (auto simp: row_shown_def)
    moreover have "\<exists>more. cv_calls p' = cv_calls p0 @ Promote r False # more"
      using step_calls[OF step] *(2) by auto
    ultimately show ?thesis using * by blast
  next
    case False
    then have c: "cv_calls p' = cv_calls p @ [Promote r False]" "allowed p (Promote r False)"
      using step_calls[OF step] new by auto
    then have shown: "row_shown byType (p, rows) r" using clean_row_shown[OF reached] by simp
    then have "rows' r = rows r" using step_rows[OF step] by (auto simp: row_shown_def)
    then show ?thesis using reached c(1) shown by blast
  qed
  then show ?case by (simp add: promoted_inv_def s)
qed

section \<open>Properties of the editor\<close>

text \<open>C12: only rows that were shown are put to work. In every session without a quiet load, with saves, loads
  and promotions answered in any order and edits in between: when a step of the page asks the server
  to activate, to promote or to run a row, the row holds the definition that the canvas shows at
  that moment: its nodes, edges and execution, its name, key, trigger and policy as far as the canvas
  keeps them; what it asks to run passed the validation. When it asks for a promotion against a
  broken contract, the row was asked to be promoted before, in a state of the session in which the
  canvas showed what the row still holds.\<close>

theorem only_shown_rows_run:
  assumes "editor_reachable byType catalog addEdge (p, rows) False"
    and "editor_step byType catalog addEdge (p, rows) q (p', rows')" and "cv_calls p' = cv_calls p @ [c]"
  shows "(c \<in> {Activate r, Promote r False, RunPipeline r} \<longrightarrow> row_shown byType (p, rows) r)
    \<and> (c = RunPipeline r \<longrightarrow> definition_errors (buildDefinition p) = [])
    \<and> (c = Promote r True \<longrightarrow> (\<exists>p0 rows0 rest. editor_reachable byType catalog addEdge (p0, rows0) False
         \<and> cv_calls p = cv_calls p0 @ Promote r False # rest \<and> row_shown byType (p0, rows0) r \<and> rows r = rows0 r))"
proof -
  have a: "allowed p c" using step_calls[OF assms(2)] assms(3) by auto
  have "row_shown byType (p, rows) r" if "c \<in> {Activate r, Promote r False, RunPipeline r}"
    using that a clean_row_shown[OF assms(1)] by auto
  moreover have "definition_errors (buildDefinition p) = []" if "c = RunPipeline r" using that a by simp
  moreover have "\<exists>p0 rows0 rest. editor_reachable byType catalog addEdge (p0, rows0) False
      \<and> cv_calls p = cv_calls p0 @ Promote r False # rest \<and> row_shown byType (p0, rows0) r \<and> rows r = rows0 r"
    if "c = Promote r True"
    using that a editor_reachable_promoted[OF assms(1)] by (auto simp: promoted_inv_def)
  ultimately show ?thesis by blast
qed

text \<open>Saving settles: when the server has stored what was sent and nothing was edited since, there are no
  unsaved changes; an edit that changes the definition brings the mark back, and with it the guard.\<close>

theorem saved_is_clean:
  "let q = save_answer (buildDefinition p) (Inr (rowId, key, version)) p; q' = apply_edit byType catalog addEdge e q
   in \<not> hasUnsavedChanges q \<and> cv_savedRowId q = Some rowId
     \<and> hasUnsavedChanges q' = (buildDefinition q' \<noteq> buildDefinition q)
     \<and> (cv_calls (run q') = cv_calls q' \<or> buildDefinition q' = buildDefinition q)"
proof -
  let ?q = "save_answer (buildDefinition p) (Inr (rowId, key, version)) p"
  let ?q' = "apply_edit byType catalog addEdge e ?q"
  have b: "buildDefinition ?q = (buildDefinition p)\<lparr>sd_id := key\<rparr>"
    by (simp add: save_answer_def buildDefinition_def flowToDefinition_def canvas_meta_def)
  have row: "cv_savedRowId ?q = Some rowId" and "cv_fingerprint ?q = Some (buildDefinition ?q)"
    unfolding b by (simp_all add: save_answer_def)
  then have "hasUnsavedChanges ?q' = (buildDefinition ?q' \<noteq> buildDefinition ?q)" and "\<not> hasUnsavedChanges ?q"
    by (auto simp: hasUnsavedChanges_def)
  moreover have "cv_calls (run ?q') = cv_calls ?q'" if "hasUnsavedChanges ?q'"
    using run_calls[of ?q'] that by blast
  ultimately show ?thesis using row unfolding Let_def by blast
qed

section \<open>Instances\<close>

definition two_nodes :: saved_definition where
  "two_nodes = \<lparr>sd_id = ''orders'', sd_version = 1, sd_name = ''Orders'', sd_tenantId = '''', sd_trigger = Some Manual,
     sd_nodes = [\<lparr>sn_id = ''n1'', sn_type = Some Source, sn_activityType = ''a'', sn_label = None, sn_config = [],
         sn_ingestion = None, sn_timeoutSec = None, sn_retry = None, sn_mergeStrategy = None, sn_joinKey = None,
         sn_inputAssets = None, sn_outputAssets = None\<rparr>,
       \<lparr>sn_id = ''n2'', sn_type = Some Sink, sn_activityType = ''b'', sn_label = None, sn_config = [],
         sn_ingestion = None, sn_timeoutSec = None, sn_retry = None, sn_mergeStrategy = None, sn_joinKey = None,
         sn_inputAssets = None, sn_outputAssets = None\<rparr>],
     sd_edges = [\<lparr>se_id = Some ''e'', se_source = ''n1'', se_target = ''n2'', se_condition = None\<rparr>],
     sd_concurrency = None, sd_metadata = None, sd_slo = None, sd_notifications = None, sd_execution = None\<rparr>"

definition stored_row :: pipeline_row where
  "stored_row = \<lparr>row_id = ''7'', row_version = 1, row_status = None, row_environment = None, row_definition = two_nodes\<rparr>"

definition opening_page :: canvas_page where
  "opening_page = load_start ''7'' initial_canvas"

definition opened_page :: canvas_page where
  "opened_page = commit opening_page (load_answer (\<lambda>i. 0) (\<lambda>t. None) ''7'' (Inr stored_row) opening_page)"

definition proposing_page :: canvas_page where
  "proposing_page = opened_page\<lparr>cv_aiProposal := Some \<lparr>ap_status = Ready, ap_definition = Some (two_nodes\<lparr>sd_edges := []\<rparr>),
     ap_suggestedName = None, ap_questions = [], ap_assumptions = [], ap_warnings = []\<rparr>\<rparr>"

lemmas canvas_eval = load_start_def load_answer_def hydrateFromDefinition_def set_flow_def definitionToFlow_def numbered_def
  canvas_node_def canvas_edge_def initial_canvas_def two_nodes_def stored_row_def opening_page_def commit_def
  buildDefinition_def canvas_meta_def flowToDefinition_def

lemma opened_nodes:
  "map fn_nodeType (cv_nodes opened_page) = [Some Source, Some Sink]" "map fn_id (cv_nodes opened_page) = [''n1'', ''n2'']"
  by (simp_all add: opened_page_def canvas_eval)

theorem undo_restores_witness:
  "buildDefinition (undoAI (\<lambda>i. 1) (\<lambda>t. None) (applyAI (\<lambda>i. 0) (\<lambda>t. None) proposing_page)) = buildDefinition proposing_page
    \<and> hasUnsavedChanges (undoAI (\<lambda>i. 1) (\<lambda>t. None) (applyAI (\<lambda>i. 0) (\<lambda>t. None) proposing_page)) = hasUnsavedChanges proposing_page"
  by (rule undo_restores[of _ "the (cv_aiProposal proposing_page)"]) (simp_all add: proposing_page_def typed_canvas_def opened_page_def canvas_eval)

lemma opening_changes: "buildDefinition (load_answer (\<lambda>i. 0) (\<lambda>t. None) ''7'' (Inr stored_row) opening_page) \<noteq> buildDefinition opening_page"
  by (simp add: canvas_eval)

lemma opened_reachable:
  "editor_reachable (\<lambda>t. None) [] (\<lambda>i s t es. es) (opened_page, [''7'' \<mapsto> two_nodes]) False"
proof -
  have c: "opening_page = commit initial_canvas (load_start ''7'' initial_canvas)"
    by (simp add: opening_page_def commit_def initial_canvas_def load_start_def)
  have "editor_reachable (\<lambda>t. None) [] (\<lambda>i s t es. es) (opening_page, [''7'' \<mapsto> two_nodes]) False"
    unfolding c using editor_reachable.Then[OF editor_reachable.Fresh LoadStarted] by simp
  from editor_reachable.Then[OF this LoadedRow[of _ stored_row _ "\<lambda>i. 0" _ "''7''", OF _ refl refl]]
  show ?thesis by (simp add: opened_page_def opening_changes, simp add: stored_row_def)
qed

text \<open>The page asks to promote the row it has opened; the name is edited before the refusal comes.\<close>

lemma promote_asks: "promote opened_page = log_call (Promote ''7'' False) opened_page"
  by (simp add: promote_def guarded_def hasUnsavedChanges_def opened_page_def canvas_eval)

lemma promoting_reachable:
  "editor_reachable (\<lambda>t. None) [] (\<lambda>i s t es. es) (promote opened_page, [''7'' \<mapsto> two_nodes]) False"
  using editor_reachable.Then[OF opened_reachable Acted[of promote]] by simp

lemma opened_clean [simp]: "\<not> cv_cleanAfterHydration (log_call c opened_page)"
  by (simp add: log_call_def opened_page_def canvas_eval)

text \<open>The confirmation is asked for when the refusal comes, and the canvas may have been edited by then: the
  override does not look at it again.\<close>

lemma override_after_edit:
  "let p = (promote opened_page)\<lparr>cv_name := ''Edited''\<rparr>; p' = promote_answer ''7'' True (Inl ''breaking data contract'') p
   in editor_reachable (\<lambda>t. None) [] (\<lambda>i s t es. es) (p, [''7'' \<mapsto> two_nodes]) False
     \<and> hasUnsavedChanges p \<and> cv_calls p' = cv_calls p @ [Promote ''7'' True]"
proof -
  let ?p = "(promote opened_page)\<lparr>cv_name := ''Edited''\<rparr>"
  have "editor_reachable (\<lambda>t. None) [] (\<lambda>i s t es. es) (?p, [''7'' \<mapsto> two_nodes]) False"
    using editor_reachable.Then[OF promoting_reachable Edited[of _ _ _ _ _ "EName ''Edited''"]] by (simp add: promote_asks)
  moreover have "hasUnsavedChanges ?p"
    unfolding promote_asks by (simp add: hasUnsavedChanges_def log_call_def opened_page_def canvas_eval or_else_def)
  ultimately show ?thesis by (simp add: Let_def promote_answer_def log_call_def starts_with_def)
qed

theorem only_shown_rows_run_witness:
  "row_shown (\<lambda>t. None) (opened_page, [''7'' \<mapsto> two_nodes]) ''7''"
  using only_shown_rows_run[OF opened_reachable Acted[of promote], of "Promote ''7'' False" "''7''"]
  by (simp add: promote_asks log_call_def)

text \<open>
  Why quiet loads are left out: the versions 7 and 8 of a pipeline without nodes are opened one
  after the other. The second answer changes nothing, so the effect waits; the edit that follows is
  taken for the stored definition, and the page activates a row that does not hold it.
\<close>

definition bare_row :: "string \<Rightarrow> pipeline_row" where
  "bare_row i = \<lparr>row_id = i, row_version = 1, row_status = None, row_environment = None,
     row_definition = two_nodes\<lparr>sd_nodes := [], sd_edges := []\<rparr>\<rparr>"

definition bare_step :: "string \<Rightarrow> canvas_page \<Rightarrow> canvas_page" where
  "bare_step i p = (let p1 = commit p (load_start i p) in commit p1 (load_answer (\<lambda>i. 0) (\<lambda>t. None) i (Inr (bare_row i)) p1))"

definition bare_page :: canvas_page where
  "bare_page = bare_step ''8'' (bare_step ''7'' initial_canvas)"

definition renamed_page :: canvas_page where
  "renamed_page = commit bare_page (bare_page\<lparr>cv_name := ''Edited''\<rparr>)"

lemma commit_keeps [simp]:
  "cv_nodes (commit old p) = cv_nodes p" "cv_edges (commit old p) = cv_edges p" "cv_name (commit old p) = cv_name p"
  "cv_pipelineKey (commit old p) = cv_pipelineKey p" "cv_trigger (commit old p) = cv_trigger p"
  "cv_execution (commit old p) = cv_execution p" "cv_policy (commit old p) = cv_policy p"
  "cv_savedRowId (commit old p) = cv_savedRowId p" "cv_loading (commit old p) = cv_loading p"
  by (simp_all add: commit_def)

lemma commit_built [simp]: "buildDefinition (commit old p) = buildDefinition p"
  by (simp add: buildDefinition_def canvas_meta_def)

lemma bare_fields:
  "cv_nodes (bare_step i p) = []" "cv_edges (bare_step i p) = []" "cv_name (bare_step i p) = ''Orders''"
  "cv_pipelineKey (bare_step i p) = ''orders''" "cv_trigger (bare_step i p) = Manual" "cv_execution (bare_step i p) = None"
  "cv_policy (bare_step i p) = empty_policy" "cv_savedRowId (bare_step i p) = Some i"
  by (simp_all add: bare_step_def bare_row_def Let_def load_start_def load_answer_def hydrateFromDefinition_def set_flow_def
      definitionToFlow_def numbered_def two_nodes_def or_else_def hydrated_policy_def empty_policy_def)

lemma started_built: "buildDefinition (load_start j (bare_step i p)) = buildDefinition (bare_step i p)"
  by (simp add: buildDefinition_def canvas_meta_def bare_fields) (simp add: load_start_def bare_fields)

lemma bare_built: "buildDefinition (bare_step i p) = buildDefinition (bare_step i' p')"
  by (simp add: buildDefinition_def canvas_meta_def bare_fields)

lemma bare_step_reachable:
  assumes "editor_reachable (\<lambda>t. None) catalog addEdge (p, rows) quiet" and "rows i = Some (row_definition (bare_row i))"
  shows "\<exists>quiet. editor_reachable (\<lambda>t. None) catalog addEdge (bare_step i p, rows) quiet"
proof -
  have "rows (row_id (bare_row i)) = Some (row_definition (bare_row i))" using assms(2) by (simp add: bare_row_def)
  from editor_reachable.Then[OF editor_reachable.Then[OF assms(1) LoadStarted] LoadedRow[of rows "bare_row i" _ "\<lambda>i. 0" _ i, OF this refl refl]]
  show ?thesis unfolding bare_step_def Let_def by blast
qed

lemma first_bare: "\<not> cv_cleanAfterHydration (bare_step ''7'' initial_canvas)"
proof -
  let ?p1 = "commit initial_canvas (load_start ''7'' initial_canvas)"
  let ?p2 = "load_answer (\<lambda>i. 0) (\<lambda>t. None) ''7'' (Inr (bare_row ''7'')) ?p1"
  have b: "bare_step ''7'' initial_canvas = commit ?p1 ?p2" by (simp add: bare_step_def Let_def)
  have "cv_name ?p2 = ''Orders''" using bare_fields(3)[of "''7''" initial_canvas] by (simp add: b)
  moreover have "cv_name ?p1 = ''My pipeline''" by (simp add: load_start_def initial_canvas_def)
  ultimately have "sd_name (buildDefinition ?p2) \<noteq> sd_name (buildDefinition ?p1)"
    by (simp add: buildDefinition_def flowToDefinition_def canvas_meta_def)
  then have "buildDefinition ?p2 \<noteq> buildDefinition ?p1" by auto
  then show ?thesis unfolding b commit_def by auto
qed

lemma second_bare: "cv_cleanAfterHydration bare_page"
proof -
  let ?p0 = "bare_step ''7'' initial_canvas"
  let ?p1 = "load_start ''8'' ?p0"
  let ?p2 = "load_answer (\<lambda>i. 0) (\<lambda>t. None) ''8'' (Inr (bare_row ''8'')) ?p1"
  have "commit ?p0 ?p1 = ?p1" using first_bare by (simp add: load_start_def)
  then have b: "bare_page = commit ?p1 ?p2" by (simp only: bare_page_def bare_step_def[of "''8''"] Let_def)
  have "buildDefinition ?p2 = buildDefinition bare_page" unfolding b by (rule commit_built[symmetric])
  also have "\<dots> = buildDefinition ?p1" unfolding bare_page_def started_built by (rule bare_built)
  finally have same: "bare_page = ?p2" unfolding b by (simp add: commit_def)
  have "cv_loading ?p1 = Some ''8''" by (simp add: load_start_def)
  then have "cv_cleanAfterHydration ?p2"
    by (simp add: load_answer_def hydrateFromDefinition_def set_flow_def definitionToFlow_def)
  then show ?thesis by (subst same)
qed

lemma renamed_facts:
  "cv_savedRowId renamed_page = Some ''8''" "cv_fingerprint renamed_page = Some (buildDefinition renamed_page)"
proof -
  let ?r = "bare_page\<lparr>cv_name := ''Edited''\<rparr>"
  have "cv_name bare_page = ''Orders''" unfolding bare_page_def by (rule bare_fields)
  then have "sd_name (buildDefinition ?r) \<noteq> sd_name (buildDefinition bare_page)"
    by (simp add: buildDefinition_def flowToDefinition_def canvas_meta_def)
  then have "buildDefinition ?r \<noteq> buildDefinition bare_page" by auto
  then have "cv_fingerprint renamed_page = Some (buildDefinition ?r)" using second_bare by (simp add: renamed_page_def commit_def)
  then show "cv_fingerprint renamed_page = Some (buildDefinition renamed_page)" by (simp add: renamed_page_def)
  show "cv_savedRowId renamed_page = Some ''8''"
    using bare_fields(8)[of "''8''" "bare_step ''7'' initial_canvas"] by (simp add: renamed_page_def bare_page_def)
qed

lemma quiet_load_misleads:
  "(\<exists>quiet. editor_reachable (\<lambda>t. None) [] (\<lambda>i s t es. es) (renamed_page, \<lambda>i. Some (row_definition (bare_row i))) quiet)
    \<and> activate renamed_page = log_call (Activate ''8'') renamed_page
    \<and> \<not> row_shown (\<lambda>t. None) (renamed_page, \<lambda>i. Some (row_definition (bare_row i))) ''8''"
proof (intro conjI)
  let ?rows = "\<lambda>i. Some (row_definition (bare_row i))"
  have step: "\<exists>quiet. editor_reachable (\<lambda>t. None) [] (\<lambda>i s t es. es) (bare_step i p, ?rows) quiet"
    if "\<exists>quiet. editor_reachable (\<lambda>t. None) [] (\<lambda>i s t es. es) (p, ?rows) quiet" for i p
    using that bare_step_reachable by blast
  have "\<exists>quiet. editor_reachable (\<lambda>t. None) [] (\<lambda>i s t es. es) (bare_page, ?rows) quiet"
    unfolding bare_page_def by (intro step exI[of _ False] editor_reachable.Fresh)
  then obtain quiet where "editor_reachable (\<lambda>t. None) [] (\<lambda>i s t es. es) (bare_page, ?rows) quiet" ..
  from editor_reachable.Then[OF this Edited[of _ _ _ _ _ "EName ''Edited''"]]
  show "\<exists>quiet. editor_reachable (\<lambda>t. None) [] (\<lambda>i s t es. es) (renamed_page, ?rows) quiet"
    unfolding renamed_page_def apply_edit.simps by blast
  show "activate renamed_page = log_call (Activate ''8'') renamed_page"
    by (simp add: activate_def guarded_def hasUnsavedChanges_def renamed_facts)
  have "sd_name (buildDefinition renamed_page) = ''Edited''"
    by (simp add: renamed_page_def buildDefinition_def flowToDefinition_def canvas_meta_def)
  then have "\<not> stands_for (\<lambda>t. None) (buildDefinition renamed_page) (row_definition (bare_row ''8''))"
    by (auto simp: stands_for_def bare_row_def two_nodes_def)
  then show "\<not> row_shown (\<lambda>t. None) (renamed_page, ?rows) ''8''" by (simp add: row_shown_def)
qed

theorem saved_is_clean_witness:
  "\<not> hasUnsavedChanges (save_answer (buildDefinition opened_page) (Inr (''7'', ''orders'', 2)) opened_page)
    \<and> cv_savedRowId (save_answer (buildDefinition opened_page) (Inr (''7'', ''orders'', 2)) opened_page) = Some ''7''"
  using saved_is_clean[of opened_page "''7''" "''orders''" 2] unfolding Let_def by blast

end
