(* ===== verification/CanvasTools.thy ===== *)
theory CanvasTools
  imports CanvasPage WorkspaceLineage
begin

text \<open>
  What stands around the canvas of the pipeline editor (\<open>apps/web/src/pages/canvas\<close>): the rail of tools with its
  flyout (\<open>NodePalette.tsx\<close>), the panel of accounts and settings (\<open>WorkspaceSidePanel.tsx\<close>), the header with the
  stage and the trigger (\<open>PipelineHeaderBar.tsx\<close>), the drawer of runs (\<open>OutputDrawer.tsx\<close>), the menu of a
  connection that ends on the canvas (\<open>ContextAddMenu.tsx\<close>), the inspector, the AI panel, the node on the canvas
  (\<open>components/canvas/FlowNode.tsx\<close>) and the preview of the Mermaid text (\<open>components/MermaidPreview.tsx\<close>), with the
  handlers that \<open>PipelineCanvasPage.tsx\<close> gives them. The graph itself is the state of theory CanvasPage.

  Lengths on the screen are hundredths of a pixel, so that 52% of the window is a whole number.
\<close>

section \<open>The tools\<close>

datatype category = SourceCat | TransformCat | SinkCat | FlowCat

datatype side_panel = ConnectorsPanel | SettingsPanel

datatype bottom_tab = RunsTab | LogsTab | LifecycleTab | MermaidTab

record drawer_run =
  dr_id :: string
  dr_name :: string
  dr_phase :: "string option"
  dr_started_at :: "string option"

datatype tool_call = ListRuns "string option" | GetRun string | InviteMember string

record tools =
  tl_activeCat :: "category option"
  tl_panel :: "side_panel option"
  tl_catQuery :: string
  tl_showAI :: bool
  tl_showLifecycle :: bool
  tl_drawerOpen :: bool
  tl_bottomTab :: bottom_tab
  tl_drawerHeight :: int
  tl_drawerExpanded :: bool
  tl_resize :: "(int \<times> int) option"
  tl_recentRuns :: "drawer_run list"
  tl_runsLoading :: bool
  tl_selectedRun :: "drawer_run option"
  tl_runDetail :: "json option"
  tl_contextAdd :: "(string \<times> int \<times> int) option"
  tl_connectSource :: "string option"
  tl_connected :: bool
  tl_inviteEmail :: string
  tl_inviteBusy :: bool
  tl_inviteMsg :: string
  tl_calls :: "tool_call list"

definition tl_initial :: tools where
  "tl_initial = \<lparr>tl_activeCat = None, tl_panel = None, tl_catQuery = '''', tl_showAI = False, tl_showLifecycle = False,
     tl_drawerOpen = False, tl_bottomTab = RunsTab, tl_drawerHeight = 26000, tl_drawerExpanded = False, tl_resize = None,
     tl_recentRuns = [], tl_runsLoading = False, tl_selectedRun = None, tl_runDetail = None, tl_contextAdd = None,
     tl_connectSource = None, tl_connected = False, tl_inviteEmail = '''', tl_inviteBusy = False, tl_inviteMsg = '''', tl_calls = []\<rparr>"

section \<open>The rail and its flyout\<close>

definition TOOLBAR_CATS :: "(category \<times> string \<times> string) list" where
  "TOOLBAR_CATS =
     [(SourceCat, ''Sources'', ''#1D9E75''), (TransformCat, ''Transforms'', ''#D85A30''), (SinkCat, ''Sinks'', ''#639922''),
      (FlowCat, ''Flow'', ''#7F77DD'')]"

fun in_category :: "category option \<Rightarrow> node_type \<Rightarrow> bool" where
  "in_category (Some FlowCat) t = (t = Fork \<or> t = Merge)"
| "in_category (Some SourceCat) t = (t = Source)"
| "in_category (Some TransformCat) t = (t = Transform)"
| "in_category (Some SinkCat) t = (t = Sink)"
| "in_category None t = False"

definition catEntries :: "catalog_entry list \<Rightarrow> tools \<Rightarrow> catalog_entry list" where
  "catEntries catalog st =
     (let q = to_lower (tl_catQuery st) in
      filter (\<lambda>c. in_category (tl_activeCat st) (ce_nodeType c)
        \<and> (q = [] \<or> str_includes (to_lower (ce_label c @ '' '' @ ce_activityType c)) q)) catalog)"

definition click_category :: "category \<Rightarrow> tools \<Rightarrow> tools" where
  "click_category c st = st\<lparr>tl_activeCat := (if tl_activeCat st = Some c then None else Some c), tl_panel := None, tl_catQuery := ''''\<rparr>"

definition click_ai :: "tools \<Rightarrow> tools" where
  "click_ai st = st\<lparr>tl_showAI := \<not> tl_showAI st, tl_activeCat := None, tl_panel := None\<rparr>"

text \<open>The Mermaid button also opens the text of theory CanvasPage.\<close>

definition click_mermaid :: "tools \<times> canvas_page \<Rightarrow> tools \<times> canvas_page" where
  "click_mermaid s = ((fst s)\<lparr>tl_activeCat := None, tl_panel := None\<rparr>, openMermaid (snd s))"

definition click_panel :: "side_panel \<Rightarrow> tools \<Rightarrow> tools" where
  "click_panel p st = st\<lparr>tl_panel := (if tl_panel st = Some p then None else Some p), tl_activeCat := None\<rparr>"

text \<open>\<open>openDrawer\<close>: the runs are those of the saved row, or of all pipelines.\<close>

definition openDrawer :: "string option \<Rightarrow> bottom_tab \<Rightarrow> tools \<Rightarrow> tools" where
  "openDrawer savedRowId tab st =
     (let st1 = st\<lparr>tl_bottomTab := tab, tl_drawerOpen := True\<rparr> in
      if tab = RunsTab then st1\<lparr>tl_runsLoading := True, tl_calls := tl_calls st @ [ListRuns (truthy savedRowId)]\<rparr> else st1)"

definition runs_answer :: "drawer_run list option \<Rightarrow> tools \<Rightarrow> tools" where
  "runs_answer out st = (case out of Some rs \<Rightarrow> st\<lparr>tl_recentRuns := rs\<rparr> | None \<Rightarrow> st)\<lparr>tl_runsLoading := False\<rparr>"

definition click_drawer_tab :: "string option \<Rightarrow> bottom_tab \<Rightarrow> tools \<Rightarrow> tools" where
  "click_drawer_tab savedRowId tab st =
     (let st1 = st\<lparr>tl_activeCat := None, tl_panel := None\<rparr> in
      if tl_drawerOpen st \<and> tl_bottomTab st = tab then st1\<lparr>tl_drawerOpen := False\<rparr> else openDrawer savedRowId tab st1)"

text \<open>A press outside the rail and its panels closes them; one on the empty canvas also closes the two menus.\<close>

definition press_outside :: "tools \<Rightarrow> tools" where
  "press_outside st = st\<lparr>tl_activeCat := None, tl_panel := None\<rparr>"

definition onPaneClick :: "tools \<Rightarrow> tools" where
  "onPaneClick st = st\<lparr>tl_activeCat := None, tl_panel := None, tl_showLifecycle := False, tl_contextAdd := None\<rparr>"

text \<open>The two buttons of the empty canvas, which lie outside the panels.\<close>

definition shows_empty :: "tools \<times> canvas_page \<Rightarrow> bool" where
  "shows_empty s \<longleftrightarrow> cv_nodes (snd s) = [] \<and> tl_activeCat (fst s) = None \<and> \<not> tl_showAI (fst s)"

definition onAddSource :: "tools \<Rightarrow> tools" where
  "onAddSource st = (press_outside st)\<lparr>tl_activeCat := Some SourceCat\<rparr>"

definition onGenerateAI :: "tools \<Rightarrow> tools" where
  "onGenerateAI st = (press_outside st)\<lparr>tl_showAI := True\<rparr>"

definition leftOffset :: "tools \<Rightarrow> int" where
  "leftOffset st = (if tl_panel st \<noteq> None \<or> tl_activeCat st \<noteq> None then 40000 else 9000)"

section \<open>Dragging a connection\<close>

definition onConnectStart :: "string option \<Rightarrow> tools \<Rightarrow> tools" where
  "onConnectStart nodeId st = st\<lparr>tl_connectSource := nodeId, tl_connected := False\<rparr>"

definition connection_made :: "tools \<Rightarrow> tools" where
  "connection_made st = st\<lparr>tl_connected := True\<rparr>"

text \<open>\<open>finishConnection\<close> at a point, in a canvas at \<open>(left, top)\<close> of a width and a height.\<close>

definition menu_place :: "int \<Rightarrow> int \<Rightarrow> int \<Rightarrow> int" where
  "menu_place offset extent reserve = max 800 (min offset (extent - reserve))"

definition finishConnection :: "int \<times> int \<Rightarrow> int \<times> int \<Rightarrow> int \<times> int \<Rightarrow> tools \<Rightarrow> tools" where
  "finishConnection point corner extent st =
     (if tl_connected st \<or> truthy (tl_connectSource st) = None then st\<lparr>tl_connected := False, tl_connectSource := None\<rparr>
      else st\<lparr>tl_contextAdd := Some (nullish (tl_connectSource st) '''', menu_place (fst point - fst corner) (fst extent) 30000,
                menu_place (snd point - snd corner) (snd extent) 24000), tl_connectSource := None\<rparr>)"

definition menu_entries :: "catalog_entry list \<Rightarrow> flow_node list \<Rightarrow> string \<Rightarrow> catalog_entry list" where
  "menu_entries catalog nodes source =
     (if Option.bind (find (\<lambda>n. fn_id n = source) nodes) fn_nodeType = Some Sink then []
      else filter (\<lambda>e. ce_nodeType e \<noteq> Source) catalog)"

text \<open>A click in the menu or the flyout: \<open>addNode\<close> of the page, which closes the menu.\<close>

definition add_from :: "add_edge \<Rightarrow> int \<Rightarrow> catalog_entry \<Rightarrow> string option \<Rightarrow> tools \<times> canvas_page \<Rightarrow> tools \<times> canvas_page" where
  "add_from addEdge now en sourceId s = ((fst s)\<lparr>tl_contextAdd := None\<rparr>, addNode addEdge now en sourceId (snd s))"

section \<open>The drawer\<close>

text \<open>\<open>startResize\<close> and the moves of the pointer, in a window of the given height.\<close>

definition limit_height :: "int \<Rightarrow> int" where
  "limit_height innerHeight = 52 * innerHeight"

definition startResize :: "int \<Rightarrow> int \<Rightarrow> tools \<Rightarrow> tools" where
  "startResize innerHeight clientY st =
     st\<lparr>tl_resize := Some (clientY, if tl_drawerExpanded st then limit_height innerHeight else tl_drawerHeight st),
        tl_drawerExpanded := False\<rparr>"

definition resize_move :: "int \<Rightarrow> int \<Rightarrow> tools \<Rightarrow> tools" where
  "resize_move innerHeight clientY st =
     (case tl_resize st of
        Some (startY, startHeight) \<Rightarrow>
          st\<lparr>tl_drawerHeight := max 15000 (min (limit_height innerHeight) (startHeight + startY - clientY))\<rparr>
      | None \<Rightarrow> st)"

definition resize_stop :: "tools \<Rightarrow> tools" where
  "resize_stop st = st\<lparr>tl_resize := None\<rparr>"

definition toggle_expanded :: "tools \<Rightarrow> tools" where
  "toggle_expanded st = st\<lparr>tl_drawerExpanded := \<not> tl_drawerExpanded st\<rparr>"

definition shown_height :: "int \<Rightarrow> tools \<Rightarrow> int" where
  "shown_height innerHeight st = (if tl_drawerExpanded st then limit_height innerHeight else tl_drawerHeight st)"

definition selectRun :: "drawer_run \<Rightarrow> tools \<Rightarrow> tools" where
  "selectRun r st = st\<lparr>tl_selectedRun := Some r, tl_bottomTab := LogsTab, tl_runDetail := None, tl_calls := tl_calls st @ [GetRun (dr_id r)]\<rparr>"

definition detail_answer :: "string + json \<Rightarrow> tools \<Rightarrow> tools" where
  "detail_answer out st = st\<lparr>tl_runDetail := (case out of Inr v \<Rightarrow> (if v = JNull then None else Some v) | Inl e \<Rightarrow> Some (JObj [(''error'', JStr e)]))\<rparr>"

definition run_rows :: "(string \<Rightarrow> string) \<Rightarrow> tools \<Rightarrow> string list list" where
  "run_rows locale_time st =
     map (\<lambda>r. [dr_name r, nullish (dr_phase r) u_emdash, case truthy (dr_started_at r) of Some t \<Rightarrow> locale_time t | None \<Rightarrow> u_emdash])
       (take 20 (tl_recentRuns st))"

text \<open>The text of the answer: its \<open>error\<close>, or all of it, printed by \<open>JSON.stringify\<close> with an indentation.\<close>

definition detail_text :: "(json \<Rightarrow> string) \<Rightarrow> json \<Rightarrow> string" where
  "detail_text pretty v = (case prop_of v ''error'' of Some e \<Rightarrow> if e = JNull then pretty v else to_string e | None \<Rightarrow> pretty v)"

definition log_lines :: "(json \<Rightarrow> string) \<Rightarrow> string option \<Rightarrow> tools \<Rightarrow> string list" where
  "log_lines pretty executionId st =
     (case tl_selectedRun st of
        None \<Rightarrow> (case truthy executionId of
            None \<Rightarrow> [''Select a run to inspect execution output.'']
          | Some i \<Rightarrow> [''RUNNING '' @ i])
      | Some r \<Rightarrow> [dr_name r, nullish (dr_phase r) '''']
          @ (if tl_runDetail st = None then [''Loading execution detail'' @ u_ellipsis] else []))
     @ (case tl_runDetail st of Some v \<Rightarrow> [detail_text pretty v] | None \<Rightarrow> [])"

definition stage_cards :: "stage \<Rightarrow> (string \<times> bool \<times> string) list" where
  "stage_cards current =
     map (\<lambda>(s, w). (w, current = s,
         if current = s then ''Current pipeline stage''
         else if s = Production then ''Promote after green Integration run'' else ''Saved pipeline version''))
       [(Draft, ''draft''), (Testing, ''Integration''), (Production, ''production'')]"

section \<open>Accounts and settings\<close>

fun replace_first :: "string \<Rightarrow> string \<Rightarrow> string" where
  "replace_first p [] = []"
| "replace_first p (c # cs) = (if starts_with p (c # cs) then drop (length p) (c # cs) else c # replace_first p cs)"

definition account_cards :: "catalog_entry list \<Rightarrow> (string \<times> string \<times> string) list" where
  "account_cards catalog =
     map (\<lambda>e. (replace_first '' (destination)'' (ce_label e), ce_activityType e, node_type_str (ce_nodeType e)))
       (filter (\<lambda>e. ce_nodeType e = Source \<or> ce_nodeType e = Sink) catalog)"

record account =
  ac_id :: string
  ac_provider :: string
  ac_name :: "string option"
  ac_baseUrl :: "string option"

definition webhook_options :: "account list \<Rightarrow> (string \<times> string) list" where
  "webhook_options accounts =
     ('''', ''No alert webhook'')
     # map (\<lambda>c. (ac_id c, case ac_name c of Some n \<Rightarrow> n | None \<Rightarrow> nullish (ac_baseUrl c) (ac_id c)))
         (filter (\<lambda>c. ac_provider c = ''http'') accounts)"

definition severity_shown :: "canvas_page \<Rightarrow> bool" where
  "severity_shown st \<longleftrightarrow> po_notificationConnectionId (cv_policy st) \<noteq> ''''"

definition member_lines :: "(string \<times> string) list \<Rightarrow> (string \<times> string) list" where
  "member_lines members = take 6 members"

definition inviteMember :: "tools \<Rightarrow> tools" where
  "inviteMember st = st\<lparr>tl_inviteBusy := True, tl_inviteMsg := '''', tl_calls := tl_calls st @ [InviteMember (tl_inviteEmail st)]\<rparr>"

definition invite_answer :: "string option \<Rightarrow> tools \<Rightarrow> tools" where
  "invite_answer failed st =
     (case failed of
        None \<Rightarrow> st\<lparr>tl_inviteMsg := ''Invitation sent'', tl_inviteEmail := ''''\<rparr>
      | Some e \<Rightarrow> st\<lparr>tl_inviteMsg := e\<rparr>)\<lparr>tl_inviteBusy := False\<rparr>"

section \<open>Opening the editor\<close>

text \<open>What the address opens: a definition that was handed over, a saved row, or nothing new. The key of what was opened
  last (\<open>hydrated\<close>) keeps the effect from opening it again.\<close>

datatype hydration = NothingNew | HandedOver string | SavedRow string

definition hydration_of :: "string option \<Rightarrow> bool \<Rightarrow> string option \<Rightarrow> string option \<Rightarrow> hydration" where
  "hydration_of hydrated hasDefinition stateId queryId =
     (let pipelineId = (case stateId of Some i \<Rightarrow> Some i | None \<Rightarrow> queryId);
          key = (case pipelineId of Some i \<Rightarrow> Some i | None \<Rightarrow> if hasDefinition then Some ''generated'' else None)
      in case truthy key of
           None \<Rightarrow> NothingNew
         | Some k \<Rightarrow>
             if hydrated = Some k then NothingNew
             else if hasDefinition then HandedOver k
             else SavedRow k)"

definition ai_param_effect :: "string option \<Rightarrow> tools \<Rightarrow> tools" where
  "ai_param_effect param st = (if param = Some ''1'' then st\<lparr>tl_showAI := True\<rparr> else st)"

definition openBackfill :: "bool \<Rightarrow> string option \<Rightarrow> tools \<Rightarrow> tools" where
  "openBackfill asked savedRowId st =
     (if asked then openDrawer savedRowId LifecycleTab (st\<lparr>tl_showLifecycle := True\<rparr>) else st)"

text \<open>The message about a list that did not load: the pipelines before the lineage.\<close>

definition load_failed_effect :: "string option \<Rightarrow> string option \<Rightarrow> canvas_page \<Rightarrow> canvas_page" where
  "load_failed_effect pipelinesError lineageError st =
     (case truthy (case pipelinesError of Some e \<Rightarrow> Some e | None \<Rightarrow> lineageError) of
        Some e \<Rightarrow> st\<lparr>cv_msg := ''Load failed: '' @ e\<rparr> | None \<Rightarrow> st)"

text \<open>What the side panel asks for when it changes.\<close>

datatype panel_request = AskConnectors | AskMembers | AskUsage

definition panel_requests :: "side_panel option \<Rightarrow> panel_request list" where
  "panel_requests p =
     (case p of None \<Rightarrow> [] | Some ConnectorsPanel \<Rightarrow> [AskConnectors] | Some SettingsPanel \<Rightarrow> [AskConnectors, AskMembers, AskUsage])"

text \<open>Nothing is opened twice in a row, whatever the effect depends on.\<close>

lemma opened_once:
  "hydration_of h def i q = HandedOver k \<or> hydration_of h def i q = SavedRow k \<Longrightarrow> hydration_of (Some k) def i q = NothingNew"
  by (auto simp: hydration_of_def Let_def truthy_def split: option.splits if_splits)

section \<open>Stage and trigger\<close>

definition lifecycle_items :: "stage \<Rightarrow> bool \<Rightarrow> string list" where
  "lifecycle_items s isOwner =
     (if s = Draft then [''Activate '' @ u_arrow @ '' Integration''] else [])
     @ (if s = Testing \<and> isOwner then [''Promote to Production''] else [])
     @ (if s = Production then [''Live in production''] else [])"

text \<open>The buttons of the stage menu: the action of theory CanvasPage, and the menu closes.\<close>

definition menu_action :: "(canvas_page \<Rightarrow> canvas_page) \<Rightarrow> tools \<times> canvas_page \<Rightarrow> tools \<times> canvas_page" where
  "menu_action act s = ((fst s)\<lparr>tl_showLifecycle := False\<rparr>, act (snd s))"

text \<open>\<open>upstreamPipelines\<close>: the first row of every key. \<open>workspaceAssets\<close>: the assets that a pipeline writes.\<close>

definition upstreamPipelines :: "(string \<times> string) list \<Rightarrow> (string \<times> string) list" where
  "upstreamPipelines rows = fold (\<lambda>r m. if map_of m (fst r) = None then m @ [r] else m) rows []"

definition workspaceAssets :: "lineage_node list \<Rightarrow> lineage_edge list \<Rightarrow> (string \<times> string \<times> layer option) list" where
  "workspaceAssets ns es =
     (let produced = map le_target (filter (\<lambda>e. starts_with ''pipeline:'' (le_source e) \<and> starts_with ''asset:'' (le_target e)) es) in
      List.map_filter (\<lambda>n. case n of
          AssetNode i a _ _ \<Rightarrow> if i \<in> set produced then Some (a_urn a, a_name a, a_layer a) else None
        | _ \<Rightarrow> None) ns)"

definition others :: "string \<Rightarrow> (string \<times> string) list \<Rightarrow> (string \<times> string) list" where
  "others pipelineKey ups = filter (\<lambda>p. fst p \<noteq> pipelineKey) ups"

datatype trigger_kind = ManualKind | CronKind | WebhookKind | EventKind | AssetKind

definition chosen_trigger :: "string \<Rightarrow> (string \<times> string) list \<Rightarrow> (string \<times> string \<times> layer option) list \<Rightarrow> trigger_kind \<Rightarrow> trigger" where
  "chosen_trigger pipelineKey ups assets k =
     (case k of
        ManualKind \<Rightarrow> Manual
      | CronKind \<Rightarrow> Cron ''*/5 * * * *''
      | WebhookKind \<Rightarrow> Webhook ''my-hook'' ''change-me''
      | EventKind \<Rightarrow> Event (case others pipelineKey ups of
            p # _ \<Rightarrow> ''pipeline.completed.'' @ fst p
          | [] \<Rightarrow> ''pipeline.completed.<pipeline-key>'')
      | AssetKind \<Rightarrow> AssetTrigger (case assets of a # _ \<Rightarrow> fst a | [] \<Rightarrow> ''''))"

definition event_options :: "string \<Rightarrow> (string \<times> string) list \<Rightarrow> string \<Rightarrow> (string \<times> string) list" where
  "event_options pipelineKey ups topic =
     (if others pipelineKey ups = [] then [(topic, topic)] else [])
     @ concat (map (\<lambda>p. [(''pipeline.completed.'' @ fst p, snd p @ '' completed''), (''pipeline.failed.'' @ fst p, snd p @ '' failed''),
         (''pipeline.cancelled.'' @ fst p, snd p @ '' cancelled'')]) (others pipelineKey ups))"

definition asset_options :: "(string \<times> string \<times> layer option) list \<Rightarrow> (string \<times> string) list" where
  "asset_options assets =
     (if assets = [] then [('''', ''No Integration output assets'')] else [])
     @ map (\<lambda>(urn, name, l). (urn, name @ (case l of Some v \<Rightarrow> '' '' @ u_middot @ '' '' @ layer_str v | None \<Rightarrow> ''''))) assets"

text \<open>The select next to the kind of the trigger, and a choice in it.\<close>

definition trigger_options :: "string \<Rightarrow> (string \<times> string) list \<Rightarrow> (string \<times> string \<times> layer option) list \<Rightarrow> trigger \<Rightarrow> (string \<times> string) list" where
  "trigger_options pipelineKey ups assets t =
     (case t of
        Event topic \<Rightarrow> event_options pipelineKey ups topic
      | AssetTrigger urn \<Rightarrow> asset_options assets
      | _ \<Rightarrow> [])"

fun trigger_value :: "trigger \<Rightarrow> string option" where
  "trigger_value (Event topic) = Some topic"
| "trigger_value (AssetTrigger urn) = Some urn"
| "trigger_value (Cron s) = Some s"
| "trigger_value _ = None"

fun set_trigger_value :: "string \<Rightarrow> trigger \<Rightarrow> trigger" where
  "set_trigger_value v (Event topic) = Event v"
| "set_trigger_value v (AssetTrigger urn) = AssetTrigger v"
| "set_trigger_value v (Cron s) = Cron v"
| "set_trigger_value v t = t"

section \<open>The inspector and the AI panel\<close>

datatype inspector_mode = MermaidMode | EdgeMode string | NodeMode string

definition inspector :: "canvas_page \<Rightarrow> inspector_mode option" where
  "inspector st =
     (if cv_showMermaid st then Some MermaidMode
      else case cv_selectedEdge st of
          Some e \<Rightarrow> Some (EdgeMode e)
        | None \<Rightarrow> map_option NodeMode (cv_selected st))"

definition rightPanelOpen :: "canvas_page \<Rightarrow> bool" where
  "rightPanelOpen st \<longleftrightarrow> cv_selected st \<noteq> None \<or> cv_selectedEdge st \<noteq> None \<or> cv_showMermaid st"

definition inspector_title :: "canvas_page \<Rightarrow> string \<times> string" where
  "inspector_title st =
     (if cv_showMermaid st then (''Mermaid editor'', ''Edit graph as code'')
      else if cv_selectedEdge st \<noteq> None then (''Branch condition'', ''Conditional routing'')
      else (''Node settings'', ''Configure selected node''))"

definition node_click :: "string \<Rightarrow> canvas_page \<Rightarrow> canvas_page" where
  "node_click i st = st\<lparr>cv_selected := Some i, cv_selectedEdge := None, cv_showMermaid := False\<rparr>"

definition edge_click :: "string \<Rightarrow> canvas_page \<Rightarrow> canvas_page" where
  "edge_click i st = st\<lparr>cv_selectedEdge := Some i, cv_selected := None, cv_showMermaid := False\<rparr>"

definition close_inspector :: "canvas_page \<Rightarrow> canvas_page" where
  "close_inspector st = st\<lparr>cv_showMermaid := False, cv_selected := None, cv_selectedEdge := None\<rparr>"

definition proposal_heading :: "ai_proposal \<Rightarrow> string" where
  "proposal_heading p =
     (case ap_status p of
        Ready \<Rightarrow> ''Proposed graph '' @ u_middot @ '' '' @ nat_str (case ap_definition p of Some d \<Rightarrow> length (sd_nodes d) | None \<Rightarrow> 0) @ '' nodes''
      | NeedsInput \<Rightarrow> ''More information needed''
      | Rejected \<Rightarrow> ''No proposal created'')"

definition apply_offered :: "canvas_page \<Rightarrow> bool" where
  "apply_offered st \<longleftrightarrow> (case cv_aiProposal st of Some p \<Rightarrow> ap_status p = Ready \<and> ap_definition p \<noteq> None | None \<Rightarrow> False)"

definition generate_disabled :: "canvas_page \<Rightarrow> bool" where
  "generate_disabled st \<longleftrightarrow> cv_aiLoading st \<or> js_trim (cv_aiPrompt st) = ''''"

definition generate_label :: "canvas_page \<Rightarrow> string" where
  "generate_label st = (if cv_aiLoading st then u_ellipsis else if cv_nodes st \<noteq> [] then ''Refine'' else ''Generate'')"

definition discardProposal :: "canvas_page \<Rightarrow> canvas_page" where
  "discardProposal st = st\<lparr>cv_aiProposal := None\<rparr>"

section \<open>A node on the canvas\<close>

datatype icon =
    DatabaseIcon | WebhookIcon | HardDriveIcon | FilterIcon | BadgeHelpIcon | SheetIcon | TriangleIcon | FileSpreadsheetIcon
  | GlobeIcon | FileJsonIcon | ArrowDownIcon | GitForkIcon | MergeIcon | BracesIcon

definition EXACT_ICON :: "(string \<times> icon) list" where
  "EXACT_ICON = [(''sink.postgres'', DatabaseIcon), (''sink.webhook'', WebhookIcon), (''sink.records'', HardDriveIcon),
     (''transform.filter'', FilterIcon)]"

definition PREFIX_ICON :: "(string \<times> icon) list" where
  "PREFIX_ICON = [(''zendesk.'', BadgeHelpIcon), (''gsheets.'', SheetIcon), (''gdrive.'', TriangleIcon), (''excel.'', FileSpreadsheetIcon),
     (''http.'', GlobeIcon), (''transform.parse'', FileJsonIcon)]"

definition NODE_TYPE_ICON :: "(string \<times> icon) list" where
  "NODE_TYPE_ICON = [(''source'', DatabaseIcon), (''sink'', ArrowDownIcon), (''fork'', GitForkIcon), (''merge'', MergeIcon)]"

definition resolveIcon :: "string option \<Rightarrow> string option \<Rightarrow> icon" where
  "resolveIcon activityType nodeType =
     (let by_type = nullish (Option.bind (truthy nodeType) (map_of NODE_TYPE_ICON)) BracesIcon in
      case truthy activityType of
        None \<Rightarrow> by_type
      | Some a \<Rightarrow>
          (case map_of EXACT_ICON a of
             Some i \<Rightarrow> i
           | None \<Rightarrow> (case find (\<lambda>p. starts_with (fst p) a) PREFIX_ICON of Some p \<Rightarrow> snd p | None \<Rightarrow> by_type)))"

definition node_face :: "catalog_entry option \<Rightarrow> flow_node \<Rightarrow> string \<times> string \<times> string" where
  "node_face en n =
     (case truthy (fn_label n) of
        Some l \<Rightarrow> l
      | None \<Rightarrow> or_else (map_option ce_label en) (fn_activityType n),
      nullish (map_option ce_label en) (fn_activityType n),
      nullish (map_option ce_color en) ''#6965db'')"

definition node_records :: "(int \<Rightarrow> string) \<Rightarrow> int option \<Rightarrow> string option" where
  "node_records to_locale recordCount = map_option (\<lambda>n. to_locale n @ '' records'') recordCount"

section \<open>The preview of the Mermaid text\<close>

text \<open>
  The library's \<open>mermaid\<close> parses and renders a text: a picture, or a message. Each change of the text starts a new run
  and cancels the one before (\<open>mv_seq\<close> numbers them); \<open>mv_valid\<close> is the flag of the page that unlocks the Apply button.
  \<open>mv_asked\<close> remembers what each run was asked for.
\<close>

record preview =
  mv_draft :: string
  mv_svg :: string
  mv_err :: "string option"
  mv_valid :: bool
  mv_seq :: nat
  mv_pending :: bool
  mv_asked :: "(nat \<times> string) list"

definition mv_effect :: "preview \<Rightarrow> preview" where
  "mv_effect st =
     (if js_trim (mv_draft st) = ''''
      then st\<lparr>mv_seq := Suc (mv_seq st), mv_svg := '''', mv_err := None, mv_valid := False, mv_pending := False\<rparr>
      else st\<lparr>mv_seq := Suc (mv_seq st), mv_svg := '''', mv_pending := True,
              mv_asked := (Suc (mv_seq st), mv_draft st) # mv_asked st\<rparr>)"

definition mv_mounted :: "string \<Rightarrow> bool \<Rightarrow> preview" where
  "mv_mounted draft valid =
     mv_effect \<lparr>mv_draft = draft, mv_svg = '''', mv_err = None, mv_valid = valid, mv_seq = 0, mv_pending = False, mv_asked = []\<rparr>"

definition mv_edit :: "string \<Rightarrow> preview \<Rightarrow> preview" where
  "mv_edit draft st = (if draft = mv_draft st then st else mv_effect (st\<lparr>mv_draft := draft\<rparr>))"

definition mv_answer :: "nat \<Rightarrow> string + string \<Rightarrow> preview \<Rightarrow> preview" where
  "mv_answer i out st =
     (if i \<noteq> mv_seq st then st
      else case out of
        Inr svg \<Rightarrow> st\<lparr>mv_svg := svg, mv_err := None, mv_valid := True, mv_pending := False\<rparr>
      | Inl e \<Rightarrow> st\<lparr>mv_err := Some e, mv_valid := False, mv_pending := False\<rparr>)"

definition preview_text :: "preview \<Rightarrow> string + string" where
  "preview_text st =
     (case truthy (mv_err st) of
        Some e \<Rightarrow> Inl (''Invalid Mermaid: '' @ takeWhile (\<lambda>c. c \<noteq> CHR 0x0A) e)
      | None \<Rightarrow> Inr (mv_svg st))"

section \<open>What the rail offers\<close>

text \<open>Every entry of the catalog can be reached from the rail, from exactly one of its categories: opening that category
  lists it, and no search can list what another category holds.\<close>

definition opened_category :: "category \<Rightarrow> tools \<Rightarrow> tools" where
  "opened_category c st = click_category c (st\<lparr>tl_activeCat := None\<rparr>)"

theorem palette_complete:
  assumes "en \<in> set catalog"
  shows "(\<exists>!c. en \<in> set (catEntries catalog (opened_category c st)))
    \<and> (en \<in> set (catEntries catalog ((opened_category c st)\<lparr>tl_catQuery := q\<rparr>)) \<longrightarrow> en \<in> set (catEntries catalog (opened_category c st)))"
proof -
  have e: "en \<in> set (catEntries catalog (opened_category c st)) \<longleftrightarrow> in_category (Some c) (ce_nodeType en)" for c
    using assms by (simp add: catEntries_def opened_category_def click_category_def to_lower_def)
  have "\<exists>!c. in_category (Some c) t" for t
  proof (cases t)
    case Source
    then show ?thesis by (intro ex1I[of _ SourceCat]) (auto elim: in_category.elims)
  next
    case Transform
    then show ?thesis by (intro ex1I[of _ TransformCat]) (auto elim: in_category.elims)
  next
    case Sink
    then show ?thesis by (intro ex1I[of _ SinkCat]) (auto elim: in_category.elims)
  next
    case Fork
    then show ?thesis by (intro ex1I[of _ FlowCat]) (auto elim: in_category.elims)
  next
    case Merge
    then show ?thesis by (intro ex1I[of _ FlowCat]) (auto elim: in_category.elims)
  qed
  moreover have "en \<in> set (catEntries catalog ((opened_category c st)\<lparr>tl_catQuery := q\<rparr>)) \<longrightarrow> in_category (Some c) (ce_nodeType en)"
    by (simp add: catEntries_def opened_category_def click_category_def Let_def)
  ultimately show ?thesis using e by simp
qed

section \<open>Panels and places\<close>

text \<open>The page at work in a window of a height and a canvas at a corner with an extent; everything that changes the tools.\<close>

inductive tools_step :: "int \<Rightarrow> int \<times> int \<Rightarrow> tools \<Rightarrow> tools \<Rightarrow> bool" for innerHeight extent where
  Category: "tools_step innerHeight extent st (click_category c st)"
| AiButton: "tools_step innerHeight extent st (click_ai st)"
| MermaidButton: "tools_step innerHeight extent st (fst (click_mermaid (st, page)))"
| PanelButton: "tools_step innerHeight extent st (click_panel p st)"
| PanelClosed: "tools_step innerHeight extent st (st\<lparr>tl_panel := None\<rparr>)"
| Query: "tools_step innerHeight extent st (st\<lparr>tl_catQuery := q\<rparr>)"
| DrawerButton: "tools_step innerHeight extent st (click_drawer_tab savedRowId tab st)"
| DrawerOpened: "tools_step innerHeight extent st (openDrawer savedRowId tab st)"
| DrawerClosed: "tools_step innerHeight extent st (st\<lparr>tl_drawerOpen := False\<rparr>)"
| TabChosen: "tools_step innerHeight extent st (st\<lparr>tl_bottomTab := tab\<rparr>)"
| RunsAnswered: "tools_step innerHeight extent st (runs_answer out st)"
| RunSelected: "tools_step innerHeight extent st (selectRun r st)"
| DetailAnswered: "tools_step innerHeight extent st (detail_answer d st)"
| Outside: "tools_step innerHeight extent st (press_outside st)"
| Pane: "tools_step innerHeight extent st (onPaneClick st)"
| AddSource: "shows_empty (st, page) \<Longrightarrow> tools_step innerHeight extent st (onAddSource st)"
| GenerateAI: "shows_empty (st, page) \<Longrightarrow> tools_step innerHeight extent st (onGenerateAI st)"
| ConnectStart: "tools_step innerHeight extent st (onConnectStart n st)"
| Connected: "tools_step innerHeight extent st (connection_made st)"
| ConnectEnd: "tools_step innerHeight extent st (finishConnection point corner extent st)"
| Added: "tools_step innerHeight extent st (fst (add_from addEdge now en source (st, page)))"
| MenuClosed: "tools_step innerHeight extent st (st\<lparr>tl_contextAdd := None\<rparr>)"
| StageMenu: "tools_step innerHeight extent st (st\<lparr>tl_showLifecycle := b\<rparr>)"
| StageAction: "tools_step innerHeight extent st (fst (menu_action act (st, page)))"
| ResizeStart: "tools_step innerHeight extent st (startResize innerHeight y st)"
| ResizeMove: "tools_step innerHeight extent st (resize_move innerHeight y st)"
| ResizeStop: "tools_step innerHeight extent st (resize_stop st)"
| Expanded: "tools_step innerHeight extent st (toggle_expanded st)"
| InviteTyped: "tools_step innerHeight extent st (st\<lparr>tl_inviteEmail := v\<rparr>)"
| InviteStarted: "tools_step innerHeight extent st (inviteMember st)"
| InviteSettled: "tools_step innerHeight extent st (invite_answer f st)"

inductive tools_reachable :: "int \<Rightarrow> int \<times> int \<Rightarrow> tools \<Rightarrow> bool" for innerHeight extent where
  ToolsOpened: "tools_reachable innerHeight extent tl_initial"
| ToolsStepped: "tools_reachable innerHeight extent st \<Longrightarrow> tools_step innerHeight extent st st' \<Longrightarrow> tools_reachable innerHeight extent st'"

definition one_panel :: "tools \<Rightarrow> bool" where
  "one_panel st \<longleftrightarrow> tl_activeCat st = None \<or> tl_panel st = None"

definition menu_inside :: "int \<times> int \<Rightarrow> tools \<Rightarrow> bool" where
  "menu_inside extent st \<longleftrightarrow> (case tl_contextAdd st of
     None \<Rightarrow> True
   | Some (source, x, y) \<Rightarrow> source \<noteq> '''' \<and> 800 \<le> x \<and> 800 \<le> y
       \<and> (30800 \<le> fst extent \<longrightarrow> x + 30000 \<le> fst extent) \<and> (24800 \<le> snd extent \<longrightarrow> y + 24000 \<le> snd extent))"

definition height_ok :: "int \<Rightarrow> tools \<Rightarrow> bool" where
  "height_ok innerHeight st \<longleftrightarrow> 15000 \<le> tl_drawerHeight st \<and> tl_drawerHeight st \<le> max 26000 (limit_height innerHeight)"

lemmas tool_handlers = click_category_def click_ai_def click_mermaid_def click_panel_def click_drawer_tab_def openDrawer_def Let_def
  runs_answer_def selectRun_def detail_answer_def press_outside_def onPaneClick_def onAddSource_def onGenerateAI_def onConnectStart_def
  connection_made_def add_from_def menu_action_def startResize_def resize_stop_def toggle_expanded_def inviteMember_def invite_answer_def

lemma menu_inside_finish: "menu_inside extent st \<Longrightarrow> menu_inside extent (finishConnection point corner extent st)"
  by (auto simp: menu_inside_def finishConnection_def menu_place_def truthy_def split: option.splits if_splits)

lemma one_panel_step: "one_panel st \<Longrightarrow> tools_step innerHeight extent st st' \<Longrightarrow> one_panel st'"
  by (erule tools_step.cases) (simp_all add: one_panel_def tool_handlers finishConnection_def resize_move_def split: option.split)

lemma height_step: "height_ok innerHeight st \<Longrightarrow> tools_step innerHeight extent st st' \<Longrightarrow> height_ok innerHeight st'"
  by (erule tools_step.cases) (auto simp: height_ok_def tool_handlers finishConnection_def resize_move_def split: option.split)

lemma menu_inside_same: "menu_inside extent st \<Longrightarrow> tl_contextAdd st' = tl_contextAdd st \<or> tl_contextAdd st' = None \<Longrightarrow> menu_inside extent st'"
  by (auto simp: menu_inside_def)

lemma menu_step: "menu_inside extent st \<Longrightarrow> tools_step innerHeight extent st st' \<Longrightarrow> menu_inside extent st'"
  by (erule tools_step.cases)
    (simp_all add: menu_inside_finish, auto simp: tool_handlers resize_move_def split: option.split elim!: menu_inside_same)

text \<open>However the tools are used, the flyout of a category and the side panel are never open at once, the drawer
  stays between its least height and 52% of the window (or its first height), and the menu of a connection lies inside
  the canvas, whole when the canvas has room for it, and names the node the connection started from.\<close>

theorem tools_in_place:
  assumes "tools_reachable innerHeight extent st"
  shows "(tl_activeCat st = None \<or> tl_panel st = None)
    \<and> 15000 \<le> tl_drawerHeight st \<and> tl_drawerHeight st \<le> max 26000 (52 * innerHeight)
    \<and> menu_inside extent st"
proof -
  have "one_panel st \<and> height_ok innerHeight st \<and> menu_inside extent st" using assms
  proof (induction rule: tools_reachable.induct)
    case ToolsOpened
    show ?case by (simp add: one_panel_def height_ok_def menu_inside_def tl_initial_def)
  next
    case (ToolsStepped st st')
    then show ?case using one_panel_step height_step menu_step by blast
  qed
  then show ?thesis by (simp add: one_panel_def height_ok_def limit_height_def)
qed

section \<open>The trigger on display\<close>

lemma upstream_keys: "distinct (map fst (upstreamPipelines rows))"
proof -
  have "distinct (map fst m) \<Longrightarrow> distinct (map fst (fold (\<lambda>r m. if map_of m (fst r) = None then m @ [r] else m) rows m))" for m
    by (induction rows arbitrary: m) (auto simp: map_of_eq_None_iff)
  then show ?thesis by (simp add: upstreamPipelines_def)
qed

definition own_topics :: "string \<Rightarrow> string set" where
  "own_topics k = {''pipeline.completed.'' @ k, ''pipeline.failed.'' @ k, ''pipeline.cancelled.'' @ k}"

lemma own_topics_inj: "v \<in> own_topics a \<Longrightarrow> v \<in> own_topics b \<Longrightarrow> a = b"
  by (auto simp: own_topics_def)

lemma topics_distinct:
  "distinct (map fst ps) \<Longrightarrow>
   distinct (concat (map (\<lambda>p. [''pipeline.completed.'' @ fst p, ''pipeline.failed.'' @ fst p, ''pipeline.cancelled.'' @ fst p]) ps))"
  by (induction ps) auto

lemma event_options_topics:
  "others key ups \<noteq> [] \<Longrightarrow> fst ` set (event_options key ups topic) = (\<Union>p\<in>set (others key ups). own_topics (fst p))"
  by (auto simp: event_options_def own_topics_def image_iff) force+

text \<open>The trigger that a choice of its kind sets is the one the header shows: its value is among the options next to
  it. A pipeline is never offered its own events, so it cannot be made to start itself, and no option is listed twice.\<close>

theorem chosen_trigger_shown:
  fixes rows :: "(string \<times> string) list" and key :: string
  defines "ups \<equiv> upstreamPipelines rows"
  shows "(trigger_options key ups assets (chosen_trigger key ups assets k) \<noteq> [] \<longrightarrow>
       the (trigger_value (chosen_trigger key ups assets k)) \<in> fst ` set (trigger_options key ups assets (chosen_trigger key ups assets k)))
    \<and> (others key ups \<noteq> [] \<longrightarrow> fst ` set (event_options key ups topic) \<inter> own_topics key = {}
       \<and> distinct (map fst (event_options key ups topic)))"
proof -
  have "the (trigger_value (chosen_trigger key ups assets k)) \<in> fst ` set (trigger_options key ups assets (chosen_trigger key ups assets k))"
    if "trigger_options key ups assets (chosen_trigger key ups assets k) \<noteq> []"
    using that by (cases k; cases "others key ups"; cases assets)
      (auto simp: chosen_trigger_def trigger_options_def event_options_def asset_options_def image_iff split: prod.splits)
  moreover have "fst ` set (event_options key ups topic) \<inter> own_topics key = {}" if "others key ups \<noteq> []"
    using own_topics_inj unfolding event_options_topics[OF that] by (fastforce simp: others_def)
  moreover have "distinct (map fst (event_options key ups topic))" if "others key ups \<noteq> []"
  proof -
    have "distinct (map fst (others key ups))" using upstream_keys[of rows] by (simp add: others_def ups_def distinct_map_filter)
    then have "distinct (concat (map (\<lambda>p. [''pipeline.completed.'' @ fst p, ''pipeline.failed.'' @ fst p, ''pipeline.cancelled.'' @ fst p])
        (others key ups)))"
      by (rule topics_distinct)
    moreover have "map fst (event_options key ups topic) = concat (map (\<lambda>p. [''pipeline.completed.'' @ fst p, ''pipeline.failed.'' @ fst p,
        ''pipeline.cancelled.'' @ fst p]) (others key ups))"
      using that by (simp add: event_options_def map_concat o_def)
    ultimately show ?thesis by simp
  qed
  ultimately show ?thesis by blast
qed

text \<open>The assets that are offered are written by a pipeline of the graph.\<close>

lemma offered_assets_produced:
  "(urn, name, l) \<in> set (workspaceAssets ns es) \<Longrightarrow>
   \<exists>i a m q e. AssetNode i a m q \<in> set ns \<and> a_urn a = urn \<and> e \<in> set es \<and> le_target e = i \<and> starts_with ''pipeline:'' (le_source e)"
  by (fastforce simp: workspaceAssets_def Let_def List.map_filter_def split: lineage_node.splits if_splits)

section \<open>The preview tells the truth\<close>

text \<open>The text is edited and the library answers, for every text as it does, the runs in any order and more than once.\<close>

inductive preview_reachable :: "(string \<Rightarrow> string + string) \<Rightarrow> preview \<Rightarrow> bool" for mermaid where
  PreviewMounted: "preview_reachable mermaid (mv_mounted draft valid)"
| PreviewEdited: "preview_reachable mermaid st \<Longrightarrow> preview_reachable mermaid (mv_edit draft st)"
| PreviewAnswered: "preview_reachable mermaid st \<Longrightarrow> (i, d) \<in> set (mv_asked st) \<Longrightarrow> preview_reachable mermaid (mv_answer i (mermaid d) st)"

definition blank :: "string \<Rightarrow> bool" where
  "blank s \<longleftrightarrow> js_trim s = ''''"

definition preview_true :: "(string \<Rightarrow> string + string) \<Rightarrow> preview \<Rightarrow> bool" where
  "preview_true mermaid st \<longleftrightarrow>
     (if blank (mv_draft st) then \<not> mv_valid st \<and> mv_err st = None \<and> mv_svg st = ''''
      else case mermaid (mv_draft st) of
          Inr svg \<Rightarrow> mv_valid st \<and> mv_err st = None \<and> mv_svg st = svg
        | Inl e \<Rightarrow> \<not> mv_valid st \<and> mv_err st = Some e)"

definition preview_inv :: "(string \<Rightarrow> string + string) \<Rightarrow> preview \<Rightarrow> bool" where
  "preview_inv mermaid st \<longleftrightarrow>
     (\<forall>(i, d)\<in>set (mv_asked st). i \<le> mv_seq st \<and> (i = mv_seq st \<longrightarrow> d = mv_draft st \<and> \<not> blank d))
     \<and> (\<not> mv_pending st \<longrightarrow> preview_true mermaid st)"

lemma preview_inv_effect: "\<forall>(i, d)\<in>set (mv_asked st). i \<le> mv_seq st \<Longrightarrow> preview_inv mermaid (mv_effect st)"
  by (fastforce simp: preview_inv_def mv_effect_def preview_true_def blank_def)

lemma preview_inv_answer:
  assumes "preview_inv mermaid st" and "(i, d) \<in> set (mv_asked st)"
  shows "preview_inv mermaid (mv_answer i (mermaid d) st)"
proof (cases "i = mv_seq st")
  case True
  then have "d = mv_draft st" "\<not> blank d" using assms by (auto simp: preview_inv_def)
  then show ?thesis using assms(1) True
    by (auto simp: preview_inv_def mv_answer_def preview_true_def split: sum.split)
qed (use assms in \<open>simp add: mv_answer_def\<close>)

lemma preview_reachable_inv: "preview_reachable mermaid st \<Longrightarrow> preview_inv mermaid st"
proof (induction rule: preview_reachable.induct)
  case (PreviewMounted draft valid)
  show ?case unfolding mv_mounted_def by (rule preview_inv_effect) simp
next
  case (PreviewEdited st draft)
  then show ?case by (auto simp: mv_edit_def preview_inv_def intro!: preview_inv_effect[unfolded preview_inv_def])
next
  case (PreviewAnswered st i d)
  then show ?case by (simp add: preview_inv_answer)
qed

text \<open>C36: Once no run is under way the preview and the Apply button tell the truth about the text that is in the editor, in
  whatever order the runs were answered: the button is unlocked exactly when the text is not blank and the library takes it;
  then its picture is drawn, and else the library's message is shown.\<close>

theorem preview_settled:
  assumes "preview_reachable mermaid st" and "\<not> mv_pending st"
  shows "(mv_valid st \<longleftrightarrow> js_trim (mv_draft st) \<noteq> '''' \<and> (\<exists>svg. mermaid (mv_draft st) = Inr svg))
    \<and> (\<forall>svg. mv_valid st \<and> mermaid (mv_draft st) = Inr svg \<longrightarrow> preview_text st = Inr svg)
    \<and> (\<forall>e. js_trim (mv_draft st) \<noteq> '''' \<and> mermaid (mv_draft st) = Inl e \<and> e \<noteq> '''' \<longrightarrow>
         preview_text st = Inl (''Invalid Mermaid: '' @ takeWhile (\<lambda>c. c \<noteq> CHR 0x0A) e))"
proof -
  have "preview_true mermaid st" using preview_reachable_inv[OF assms(1)] assms(2) by (simp add: preview_inv_def)
  then show ?thesis
    by (cases "mermaid (mv_draft st)") (auto simp: preview_true_def blank_def preview_text_def truthy_def split: if_splits)
qed

text \<open>While a run is under way the button still has the state of the text before: a text that the library refuses can be
  applied right after one that it took.\<close>

lemma apply_while_pending:
  "js_trim draft \<noteq> '''' \<Longrightarrow> draft \<noteq> mv_draft st \<Longrightarrow> mv_valid (mv_edit draft st) = mv_valid st \<and> mv_pending (mv_edit draft st)"
  by (simp add: mv_edit_def mv_effect_def)

section \<open>What the buttons do\<close>

text \<open>A button that is not offered would do nothing: without a proposal that is ready and holds a definition applying
  changes nothing, and asking the AI is locked exactly in the states in which it asks nothing. A click on a node, an edge or
  the Mermaid button opens the inspector on that and nothing else.\<close>

theorem buttons_guarded:
  "(\<not> apply_offered st \<longrightarrow> applyAI clock byType st = st)
   \<and> (generate_disabled st \<longleftrightarrow> cv_calls (runAI st) = cv_calls st)
   \<and> (generate_disabled st \<longrightarrow> runAI st = st)
   \<and> inspector (node_click i st) = Some (NodeMode i) \<and> inspector (edge_click i st) = Some (EdgeMode i)
   \<and> inspector (openMermaid st) = Some MermaidMode \<and> inspector (close_inspector st) = None
   \<and> (rightPanelOpen st \<longleftrightarrow> inspector st \<noteq> None)"
proof -
  have "\<not> apply_offered st \<longrightarrow> applyAI clock byType st = st"
    by (auto simp: apply_offered_def applyAI_def split: option.splits ai_status.splits)
  moreover have "generate_disabled st \<longleftrightarrow> cv_calls (runAI st) = cv_calls st" "generate_disabled st \<longrightarrow> runAI st = st"
    by (auto simp: generate_disabled_def runAI_def)
  ultimately show ?thesis
    by (auto simp: inspector_def node_click_def edge_click_def openMermaid_def close_inspector_def rightPanelOpen_def split: option.splits)
qed

text \<open>A choice in the menu of a connection extends the graph as the validator wants it: the menu offers nothing behind a
  destination and no source, and the choice appends one node of the chosen kind to the right of its source, with one edge
  from the source to it; the library's \<open>addEdge\<close> appends the edge it is given.\<close>

theorem menu_extends:
  assumes "en \<in> set (menu_entries catalog (cv_nodes p) source)" and "n \<in> set (cv_nodes p)" and "fn_id n = source" and "source \<noteq> ''''"
    and "\<And>i a b es. \<exists>e. addEdge i a b es = es @ [e] \<and> fe_id e = i \<and> fe_source e = a \<and> fe_target e = b"
  shows "\<exists>new e. cv_nodes (snd (add_from addEdge now en (Some source) (st, p))) = cv_nodes p @ [new]
      \<and> cv_edges (snd (add_from addEdge now en (Some source) (st, p))) = cv_edges p @ [e]
      \<and> fe_source e = source \<and> fe_target e = fn_id new \<and> fn_nodeType new = Some (ce_nodeType en) \<and> ce_nodeType en \<noteq> Source
      \<and> (\<exists>fr. find (\<lambda>n. fn_id n = source) (cv_nodes p) = Some fr \<and> fn_nodeType fr \<noteq> Some Sink
           \<and> fn_position new = (fst (fn_position fr) + 260, snd (fn_position fr)))
      \<and> tl_contextAdd (fst (add_from addEdge now en (Some source) (st, p))) = None"
proof -
  obtain fr where fr_found: "find (\<lambda>n. fn_id n = source) (cv_nodes p) = Some fr"
    using assms(2,3) by (cases "find (\<lambda>n. fn_id n = source) (cv_nodes p)") (auto simp: find_None_iff)
  have t: "ce_nodeType en \<noteq> Source" "fn_nodeType fr \<noteq> Some Sink"
    using assms(1) fr_found by (auto simp: menu_entries_def split: if_splits)
  let ?i = "''n'' @ nat_str (Suc (cv_nid p)) @ ''-'' @ int_str (now mod 10000)"
  obtain e where e: "addEdge (''e'' @ int_str now) source ?i (cv_edges p) = cv_edges p @ [e]" "fe_source e = source" "fe_target e = ?i"
    using assms(5) by meson
  show ?thesis
    using fr_found t e assms(4) by (simp add: add_from_def addNode_def Let_def new_position_def)
qed

section \<open>What goes wrong\<close>

text \<open>The webhook trigger has no inputs: every pipeline that is given one in the editor has the same path and the same secret.\<close>

lemma webhooks_alike: "chosen_trigger key ups assets WebhookKind = chosen_trigger key' ups' assets' WebhookKind
    \<and> trigger_options key ups assets (chosen_trigger key ups assets WebhookKind) = []
    \<and> trigger_value (chosen_trigger key ups assets WebhookKind) = None
    \<and> set_trigger_value v (chosen_trigger key ups assets WebhookKind) = chosen_trigger key ups assets WebhookKind"
  by (simp add: chosen_trigger_def trigger_options_def)

text \<open>The answer about the run selected first is shown under the run selected next.\<close>

lemma late_detail_shown:
  "v \<noteq> JNull \<Longrightarrow> log_lines pretty ex (detail_answer (Inr v) (selectRun b (selectRun a st))) = [dr_name b, nullish (dr_phase b) '''', detail_text pretty v]"
  by (simp add: log_lines_def detail_answer_def selectRun_def)

text \<open>A stored event of a pipeline that is gone is not among the options: the select shows another.\<close>

lemma gone_topic_not_shown:
  "trigger_options ''p1'' [(''p2'', ''Two'')] [] (Event ''pipeline.completed.p9'')
     = [(''pipeline.completed.p2'', ''Two completed''), (''pipeline.failed.p2'', ''Two failed''), (''pipeline.cancelled.p2'', ''Two cancelled'')]"
  by (simp add: trigger_options_def event_options_def others_def)

text \<open>Witnesses.\<close>

definition demo_entry :: catalog_entry where
  "demo_entry = \<lparr>ce_activityType = ''sink.postgres'', ce_nodeType = Sink, ce_label = ''Postgres'', ce_color = ''#639922'', ce_fields = [],
     ce_supportsIngestion = None, ce_requiredFeature = None\<rparr>"

definition demo_node :: flow_node where
  "demo_node = \<lparr>fn_id = ''n1'', fn_position = (0, 0), fn_activityType = ''http.fetch'', fn_nodeType = Some Source, fn_label = None,
     fn_ingestion = None, fn_config = []\<rparr>"

definition append_edge :: add_edge where
  "append_edge i a b es = es @ [\<lparr>fe_id = i, fe_source = a, fe_target = b, fe_condition = None, fe_label = None, fe_animated = False,
     fe_highlighted = False\<rparr>]"

theorem palette_complete_witness: "\<exists>!c. demo_entry \<in> set (catEntries [demo_entry] (opened_category c tl_initial))"
  using palette_complete[of demo_entry "[demo_entry]" tl_initial] by simp

theorem tools_in_place_witness:
  "menu_inside (100000, 80000) (finishConnection (99900, 50) (0, 0) (100000, 80000) (onConnectStart (Some ''n1'') tl_initial))
   \<and> tl_contextAdd (finishConnection (99900, 50) (0, 0) (100000, 80000) (onConnectStart (Some ''n1'') tl_initial)) = Some (''n1'', 70000, 800)"
proof -
  have "tools_reachable 90000 (100000, 80000) (finishConnection (99900, 50) (0, 0) (100000, 80000) (onConnectStart (Some ''n1'') tl_initial))"
    by (rule tools_reachable.ToolsStepped[OF tools_reachable.ToolsStepped[OF tools_reachable.ToolsOpened tools_step.ConnectStart] tools_step.ConnectEnd])
  from tools_in_place[OF this] show ?thesis
    by (simp add: finishConnection_def onConnectStart_def tl_initial_def truthy_def menu_place_def)
qed

theorem chosen_trigger_shown_witness:
  "fst ` set (event_options ''p1'' (upstreamPipelines [(''p1'', ''One''), (''p2'', ''Two''), (''p1'', ''Old'')]) '''') \<inter> own_topics ''p1'' = {}"
proof -
  have "others ''p1'' (upstreamPipelines [(''p1'', ''One''), (''p2'', ''Two''), (''p1'', ''Old'')]) \<noteq> []"
    by (simp add: others_def upstreamPipelines_def)
  then show ?thesis using chosen_trigger_shown[of "''p1''" "[(''p1'', ''One''), (''p2'', ''Two''), (''p1'', ''Old'')]" "[]" EventKind "''''"] by blast
qed

theorem preview_settled_witness:
  "\<not> mv_valid (mv_answer 1 (Inl ''no'') (mv_answer 2 (Inl ''no'') (mv_edit ''bad'' (mv_mounted ''good'' False))))"
proof -
  let ?m = "\<lambda>d. if d = ''good'' then Inr ''svg'' else Inl ''no''" and ?s = "mv_edit ''bad'' (mv_mounted ''good'' False)"
  have t: "js_trim ''good'' = ''good''" "js_trim ''bad'' = ''bad''" by code_simp+
  have s: "mv_asked ?s = [(2, ''bad''), (1, ''good'')]" "mv_seq ?s = 2" by (simp_all add: mv_edit_def mv_mounted_def mv_effect_def t)
  have "preview_reachable ?m ?s" by (intro preview_reachable.intros)
  from preview_reachable.PreviewAnswered[OF this, of 2 "''bad''"] have r: "preview_reachable ?m (mv_answer 2 (Inl ''no'') ?s)" by (simp add: s)
  have "\<not> mv_pending (mv_answer 2 (Inl ''no'') ?s)" by (simp add: mv_answer_def s)
  from preview_settled[OF r this] have "\<not> mv_valid (mv_answer 2 (Inl ''no'') ?s)"
    by (auto simp: mv_answer_def s)
  then show ?thesis by (simp add: mv_answer_def s)
qed

theorem menu_extends_witness:
  "\<exists>new. cv_nodes (snd (add_from append_edge 5 demo_entry (Some ''n1'') (tl_initial, initial_canvas\<lparr>cv_nodes := [demo_node]\<rparr>))) = [demo_node, new]
    \<and> fn_nodeType new = Some Sink"
proof -
  let ?p = "initial_canvas\<lparr>cv_nodes := [demo_node]\<rparr>"
  have m: "demo_entry \<in> set (menu_entries [demo_entry] (cv_nodes ?p) ''n1'')"
    by (simp add: menu_entries_def demo_node_def demo_entry_def)
  have n: "demo_node \<in> set (cv_nodes ?p)" "fn_id demo_node = ''n1''" by (simp_all add: demo_node_def)
  have a: "\<exists>e. append_edge i a b es = es @ [e] \<and> fe_id e = i \<and> fe_source e = a \<and> fe_target e = b" for i a b es
    by (simp add: append_edge_def)
  from menu_extends[OF m n(1) n(2) _ a] show ?thesis by (auto simp: demo_entry_def)
qed

end
