(* ===== verification/CanvasPanels.thy ===== *)
theory CanvasPanels
  imports CanvasTools
begin

text \<open>
  What the panels of the pipeline editor show and send: the output drawer (\<open>OutputDrawer.tsx\<close>), the side panel of accounts
  and settings (\<open>WorkspaceSidePanel.tsx\<close>), the AI panel (\<open>AiBuilderPanel.tsx\<close>), the bar of actions
  (\<open>PipelineActionBar.tsx\<close>), the flyout of the rail (\<open>NodePalette.tsx\<close>), the inspector, a node on the canvas, and what the page
  \<open>PipelineCanvasPage.tsx\<close> computes for them: the node that is inspected, the places above the drawer, and the fitting of the view.
  The state and the handlers are those of theories CanvasPage and CanvasTools.
\<close>

section \<open>The output drawer\<close>

definition drawer_tabs :: "tools \<Rightarrow> (bottom_tab \<times> string \<times> bool) list" where
  "drawer_tabs st =
     map (\<lambda>(t, label). (t, label, tl_bottomTab st = t))
       [(RunsTab, ''Runs''), (LogsTab, ''Logs''), (LifecycleTab, ''Lifecycle''), (MermaidTab, ''Mermaid'')]"

text \<open>A press on a tab of the open drawer only changes the tab; the runs are not asked for again.\<close>

definition setBottomTab :: "bottom_tab \<Rightarrow> tools \<Rightarrow> tools" where
  "setBottomTab t st = st\<lparr>tl_bottomTab := t\<rparr>"

definition closeDrawer :: "tools \<Rightarrow> tools" where
  "closeDrawer st = st\<lparr>tl_drawerOpen := False\<rparr>"

text \<open>The pill of the closed drawer opens it at the tab it had.\<close>

definition pill_click :: "string option \<Rightarrow> tools \<Rightarrow> tools" where
  "pill_click savedRowId st = openDrawer savedRowId (tl_bottomTab st) st"

datatype runs_view = RunsLoading | NoRunsYet | RunTable "string list list"

definition runs_view_of :: "(string \<Rightarrow> string) \<Rightarrow> tools \<Rightarrow> runs_view" where
  "runs_view_of locale_time st =
     (if tl_runsLoading st then RunsLoading else if tl_recentRuns st = [] then NoRunsYet else RunTable (run_rows locale_time st))"

text \<open>The bottom edge of what stands above the drawer: an offset of 24 pixels for the controls of the canvas, 28 for the run monitor.
  Lengths are hundredths of a pixel.\<close>

definition above_drawer :: "int \<Rightarrow> int \<Rightarrow> tools \<Rightarrow> int" where
  "above_drawer gap innerHeight st = shown_height innerHeight st + gap"

definition controls_bottom :: "int \<Rightarrow> tools \<Rightarrow> int" where
  "controls_bottom innerHeight st = (if tl_drawerOpen st then above_drawer 2400 innerHeight st else 1200)"

definition monitor_bottom :: "int \<Rightarrow> tools \<Rightarrow> int option" where
  "monitor_bottom innerHeight st = (if tl_drawerOpen st then Some (above_drawer 2800 innerHeight st) else None)"

text \<open>The map of the graph is drawn when there are nodes; every node has the colour of its activity.\<close>

definition minimap :: "(string \<Rightarrow> catalog_entry option) \<Rightarrow> canvas_page \<Rightarrow> string list option" where
  "minimap byType st =
     (if cv_nodes st = [] then None
      else Some (map (\<lambda>n. nullish (map_option ce_color (byType (fn_activityType n))) ''#6965db'') (cv_nodes st)))"

section \<open>The side panel\<close>

fun panel_heading :: "side_panel \<Rightarrow> string \<times> string" where
  "panel_heading ConnectorsPanel = (''Connectors'', ''Add and configure pipeline integrations'')"
| "panel_heading SettingsPanel = (''Workspace settings'', ''Pipeline policy and workspace access'')"

definition accounts_count :: "account list \<Rightarrow> string" where
  "accounts_count accounts = nat_str (length accounts) @ '' configured''"

text \<open>An edit of one input of the policy.\<close>

datatype policy_edit =
    SetOwner string
  | SetDomain string
  | SetTags string
  | SetFreshness "int option"
  | SetFailureRate "int option"
  | SetDuration "int option"
  | SetWebhook string
  | SetSeverity string

fun edit_policy :: "policy_edit \<Rightarrow> pipeline_policy \<Rightarrow> pipeline_policy" where
  "edit_policy (SetOwner s) p = p\<lparr>po_owner := s\<rparr>"
| "edit_policy (SetDomain s) p = p\<lparr>po_domain := s\<rparr>"
| "edit_policy (SetTags s) p = p\<lparr>po_tags := s\<rparr>"
| "edit_policy (SetFreshness n) p = p\<lparr>po_freshnessMinutes := n\<rparr>"
| "edit_policy (SetFailureRate n) p = p\<lparr>po_maxFailureRatePercent := n\<rparr>"
| "edit_policy (SetDuration n) p = p\<lparr>po_maxDurationSeconds := n\<rparr>"
| "edit_policy (SetWebhook s) p = p\<lparr>po_notificationConnectionId := s\<rparr>"
| "edit_policy (SetSeverity s) p = p\<lparr>po_minimumSeverity := s\<rparr>"

definition setPolicy :: "policy_edit \<Rightarrow> canvas_page \<Rightarrow> canvas_page" where
  "setPolicy e st = st\<lparr>cv_policy := edit_policy e (cv_policy st)\<rparr>"

text \<open>The user as an address and a role; the usage as two numbers.\<close>

definition profile_lines :: "(string \<times> string option) option \<Rightarrow> string list" where
  "profile_lines user =
     [case user of Some (email, _) \<Rightarrow> email | None \<Rightarrow> '''', nullish (Option.bind user snd) ''member'' @ '' role'']"

definition billing_lines :: "(int option \<times> int option) option \<Rightarrow> string list" where
  "billing_lines usage =
     [nullish (map_option int_str (Option.bind usage fst)) u_emdash, ''limit '' @ nullish (map_option int_str (Option.bind usage snd)) u_emdash]"

text \<open>The members: their number, the first six or a sentence, and the form that owners see.\<close>

definition members_section :: "(string \<times> string) list \<Rightarrow> nat \<times> (string + (string \<times> string) list)" where
  "members_section members =
     (length members, if members = [] then Inl ''No members loaded'' else Inr (member_lines members))"

definition invite_form :: "(string \<times> string option) option \<Rightarrow> tools \<Rightarrow> (string \<times> bool) option" where
  "invite_form user st =
     (if Option.bind user snd = Some ''owner''
      then Some (if tl_inviteBusy st then ''Sending'' else ''Invite'', tl_inviteBusy st) else None)"

section \<open>The AI panel\<close>

text \<open>The parts of a proposal below its heading; \<open>mermaid\<close> is the text of its picture.\<close>

record proposal_parts =
  pp_picture :: "string option"
  pp_engine :: "string option"
  pp_questions :: "string list"
  pp_assumptions :: "string list"
  pp_warnings :: "string list"
  pp_apply :: bool

definition proposal_parts_of :: "string \<Rightarrow> ai_proposal \<Rightarrow> proposal_parts" where
  "proposal_parts_of mermaid p =
     \<lparr>pp_picture = (if ap_status p = Ready then truthy (Some mermaid) else None),
      pp_engine = (if ap_status p = Ready
        then truthy (Option.bind (Option.bind (ap_definition p) sd_execution) ex_engine) else None),
      pp_questions = ap_questions p, pp_assumptions = ap_assumptions p, pp_warnings = ap_warnings p,
      pp_apply = (ap_status p = Ready \<and> ap_definition p \<noteq> None)\<rparr>"

text \<open>A message stands on the right when it is the user's.\<close>

definition message_lines :: "canvas_page \<Rightarrow> (string \<times> bool) list" where
  "message_lines st = map (\<lambda>(role, content). (content, role = ''user'')) (cv_aiMessages st)"

definition prompt_hint :: "canvas_page \<Rightarrow> string" where
  "prompt_hint st =
     (if cv_nodes st \<noteq> [] then ''Describe changes'' @ u_ellipsis @ '' e.g. Add a filter step before the Postgres sink''
      else ''Describe your pipeline'' @ u_ellipsis @ '' e.g. Sync Zendesk tickets to Postgres'')"

definition prompt_key :: "string \<Rightarrow> canvas_page \<Rightarrow> canvas_page" where
  "prompt_key key st = (if key = ''Enter'' then runAI st else st)"

definition undo_offered :: "canvas_page \<Rightarrow> bool" where
  "undo_offered st \<longleftrightarrow> cv_aiUndo st \<noteq> None"

section \<open>The bar of actions\<close>

text \<open>The badge of wide screens. It words an unsaved change in its own way.\<close>

definition status_badge :: "canvas_page \<Rightarrow> string option" where
  "status_badge st =
     (if cv_msg st \<noteq> [] then Some (cv_msg st)
      else case graphValidationErrors st of
          e # _ \<Rightarrow> Some (ve_message e)
        | [] \<Rightarrow> if hasUnsavedChanges st then Some (''Unsaved changes '' @ u_middot @ '' save before activate/run'') else None)"

text \<open>The input of the query, for the engines that run one: its name and its text.\<close>

definition sql_input :: "canvas_page \<Rightarrow> (string \<times> string) option" where
  "sql_input st =
     (case Option.bind (cv_execution st) ex_engine of
        Some e \<Rightarrow> if e = ''spark-sql'' \<or> e = ''flink-sql''
          then Some (e @ '' SELECT'', nullish (Option.bind (cv_execution st) ex_transformSql) '''') else None
      | None \<Rightarrow> None)"

definition set_sql :: "string \<Rightarrow> canvas_page \<Rightarrow> canvas_page" where
  "set_sql sql st =
     st\<lparr>cv_execution := Some (case cv_execution st of
         Some x \<Rightarrow> x\<lparr>ex_transformSql := Some sql\<rparr> | None \<Rightarrow> \<lparr>ex_engine = None, ex_transformSql = Some sql\<rparr>)\<rparr>"

section \<open>The flyout and the menu of a connection\<close>

definition flyout :: "catalog_entry list \<Rightarrow> tools \<Rightarrow> (string option \<times> (string + (string \<times> string) list)) option" where
  "flyout catalog st =
     (case tl_activeCat st of
        None \<Rightarrow> None
      | Some c \<Rightarrow> Some (map_option fst (map_of TOOLBAR_CATS c),
          if catEntries catalog st = [] then Inl ''No matches'' else Inr (map (\<lambda>e. (ce_label e, ce_color e)) (catEntries catalog st))))"

definition setCatQuery :: "string \<Rightarrow> tools \<Rightarrow> tools" where
  "setCatQuery q st = st\<lparr>tl_catQuery := q\<rparr>"

text \<open>The buttons for the theme: what a press does is theory SessionTimer.\<close>

definition theme_button :: "bool \<Rightarrow> string \<times> string" where
  "theme_button isDark = (if isDark then (''Switch to light mode'', ''Light'') else (''Switch to dark mode'', ''Dark''))"

text \<open>The rail: each button with its title, its label for small screens and the style that marks it; a category is marked with
  its colour.\<close>

definition rail_mark :: "bool \<Rightarrow> string option" where
  "rail_mark marked = (if marked then Some ''bg-brand-500/15 text-brand-500 dark:text-brand-300'' else None)"

definition rail :: "bool \<Rightarrow> tools \<Rightarrow> (string \<times> string \<times> string option) list" where
  "rail isDark st =
     [(''All pipelines'', ''Pipelines'', None)]
     @ map (\<lambda>(c, label, color). (label, label, if tl_activeCat st = Some c then Some color else None)) TOOLBAR_CATS
     @ [(''Quick AI add'', ''Quick AI'', rail_mark (tl_showAI st)),
        (''Edit as Mermaid'', ''Mermaid'', None),
        (''Connectors'', ''Connect'', rail_mark (tl_panel st = Some ConnectorsPanel)),
        (''Pipeline runs'', ''Runs'', rail_mark (tl_drawerOpen st \<and> tl_bottomTab st = RunsTab)),
        (''Pipeline lifecycle'', ''Lifecycle'', rail_mark (tl_drawerOpen st \<and> tl_bottomTab st = LifecycleTab)),
        (''Profile and settings'', ''Settings'', rail_mark (tl_panel st = Some SettingsPanel)),
        (fst (theme_button isDark), snd (theme_button isDark), None)]"

text \<open>The buttons of the flyouts and of the side panels: what they open stands in the same place, and at most one of them is
  marked in every state the tools can reach.\<close>

definition opens_left :: "string list" where
  "opens_left = map (\<lambda>(c, label, color). label) TOOLBAR_CATS @ [''Connectors'', ''Profile and settings'']"

lemma rail_one_marked:
  "one_panel st \<Longrightarrow> length (filter (\<lambda>(title, label, mark). title \<in> set opens_left \<and> mark \<noteq> None) (rail isDark st)) \<le> 1"
proof -
  assume one: "one_panel st"
  show ?thesis
  proof (cases "tl_activeCat st")
    case None
    then show ?thesis
      by (cases "tl_panel st"; cases "the (tl_panel st)"; cases isDark)
        (simp_all add: rail_def opens_left_def TOOLBAR_CATS_def rail_mark_def theme_button_def)
  next
    case (Some c)
    then have "tl_panel st = None" using one by (simp add: one_panel_def)
    with Some show ?thesis
      by (cases c; cases isDark) (simp_all add: rail_def opens_left_def TOOLBAR_CATS_def rail_mark_def theme_button_def)
  qed
qed

section \<open>The header and the buttons\<close>

fun STAGE_STYLES :: "stage \<Rightarrow> string" where
  "STAGE_STYLES Draft = ''bg-amber-100  text-amber-700  dark:bg-amber-500/15  dark:text-amber-300''"
| "STAGE_STYLES Testing = ''bg-blue-100   text-blue-700   dark:bg-blue-500/15   dark:text-blue-300''"
| "STAGE_STYLES Production = ''bg-emerald-100 text-emerald-700 dark:bg-emerald-500/15 dark:text-emerald-300''"
| "STAGE_STYLES Archived = ''bg-gray-100   text-gray-500   dark:bg-white/5       dark:text-white/35''"

fun stage_word :: "stage \<Rightarrow> string" where
  "stage_word Draft = ''draft''"
| "stage_word Testing = ''testing''"
| "stage_word Production = ''production''"
| "stage_word Archived = ''archived''"

text \<open>The stage: its style, its word, and the items of its menu when that is open.\<close>

definition stage_button :: "stage \<Rightarrow> bool \<Rightarrow> tools \<Rightarrow> string \<times> string \<times> string list option" where
  "stage_button s isOwner st =
     (STAGE_STYLES s, stage_word s, if tl_showLifecycle st then Some (''Lifecycle'' # lifecycle_items s isOwner) else None)"

definition toggleLifecycle :: "tools \<Rightarrow> tools" where
  "toggleLifecycle st = st\<lparr>tl_showLifecycle := \<not> tl_showLifecycle st\<rparr>"

fun trigger_word :: "trigger \<Rightarrow> string" where
  "trigger_word Manual = ''manual''"
| "trigger_word (Cron s) = ''cron''"
| "trigger_word (Webhook p s) = ''webhook''"
| "trigger_word (Event t) = ''event''"
| "trigger_word (AssetTrigger u) = ''asset''"

text \<open>The kind of the trigger with the kinds to choose from, and the control next to it: a text for a schedule, a list for an
  event or an asset, nothing for the others.\<close>

datatype trigger_control = NoControl | ScheduleInput string | ChoiceList string "(string \<times> string) list"

definition trigger_select :: "trigger \<Rightarrow> string \<times> (string \<times> string) list" where
  "trigger_select t = (trigger_word t, [(''manual'', ''Manual''), (''cron'', ''Cron''), (''webhook'', ''Webhook''),
     (''event'', ''Upstream pipeline''), (''asset'', ''Asset materialized'')])"

definition trigger_control_of :: "string \<Rightarrow> (string \<times> string) list \<Rightarrow> (string \<times> string \<times> layer option) list \<Rightarrow> trigger \<Rightarrow> trigger_control" where
  "trigger_control_of pipelineKey ups assets t =
     (case t of
        Cron s \<Rightarrow> ScheduleInput s
      | Event topic \<Rightarrow> ChoiceList topic (trigger_options pipelineKey ups assets t)
      | AssetTrigger urn \<Rightarrow> ChoiceList urn (trigger_options pipelineKey ups assets t)
      | _ \<Rightarrow> NoControl)"

lemma trigger_kind_offered: "trigger_word t \<in> fst ` set (snd (trigger_select t))"
  by (cases t) (simp_all add: trigger_select_def)

text \<open>The buttons of the bar, with their locks, and the text tab of the drawer: its text, its button with the lock, and what the
  preview is given.\<close>

definition action_buttons :: "canvas_page \<Rightarrow> (string \<times> bool) list" where
  "action_buttons st = [(''Save'', save_disabled st), (''Activate'', run_disabled st), (''Run'', run_disabled st)]"

definition mermaid_tab :: "tools \<Rightarrow> canvas_page \<Rightarrow> (string \<times> (string \<times> bool) \<times> string) option" where
  "mermaid_tab st cv =
     (if tl_drawerOpen st \<and> tl_bottomTab st = MermaidTab
      then Some (cv_mermaidDraft cv, (''Apply to DAG'', \<not> cv_mermaidValid cv), cv_mermaidDraft cv) else None)"

text \<open>The height of the drawer: half the window and a little, or the one it was dragged to; and the button that switches.\<close>

definition drawer_shell :: "tools \<Rightarrow> (int option \<times> string) option" where
  "drawer_shell st =
     (if \<not> tl_drawerOpen st then None
      else if tl_drawerExpanded st then Some (None, ''Restore panel'') else Some (Some (tl_drawerHeight st), ''Expand panel''))"

definition menu_lines :: "catalog_entry list \<Rightarrow> flow_node list \<Rightarrow> string \<Rightarrow> string + (string \<times> string) list" where
  "menu_lines catalog nodes source =
     (if Option.bind (find (\<lambda>n. fn_id n = source) nodes) fn_nodeType = Some Sink then Inl ''Destinations end a pipeline branch.''
      else Inr (map (\<lambda>e. (ce_label e, node_type_str (ce_nodeType e))) (menu_entries catalog nodes source)))"

section \<open>A node on the canvas\<close>

datatype node_mark = FailedMark | SuccessMark | PendingMark

definition node_mark_of :: "string option \<Rightarrow> node_mark option" where
  "node_mark_of status =
     (case truthy status of
        None \<Rightarrow> None
      | Some s \<Rightarrow> Some (if s = ''failed'' then FailedMark else if s = ''success'' then SuccessMark else PendingMark))"

text \<open>The ring around the node, only for the two ends.\<close>

definition node_ring :: "string option \<Rightarrow> node_mark option" where
  "node_ring status =
     (if status = Some ''failed'' then Some FailedMark else if status = Some ''success'' then Some SuccessMark else None)"

section \<open>The inspected node and edge\<close>

text \<open>\<open>selectedNode\<close>: the node of the graph, or the one that was selected when the graph no longer has it.\<close>

definition selectedNode :: "flow_node \<Rightarrow> canvas_page \<Rightarrow> flow_node option" where
  "selectedNode old st = map_option (\<lambda>i. nullish (find (\<lambda>n. fn_id n = i) (cv_nodes st)) old) (cv_selected st)"

text \<open>The selected edge keeps its own copy of the condition; an edit changes both.\<close>

definition onEdgeConditionChange :: "string \<Rightarrow> string \<Rightarrow> string option \<times> canvas_page \<Rightarrow> string option \<times> canvas_page" where
  "onEdgeConditionChange i condition s = (Some condition, patchEdgeCondition i condition (snd s))"

definition shown_condition :: "string option \<times> canvas_page \<Rightarrow> string" where
  "shown_condition s = nullish (fst s) ''''"

definition edge_selected :: "flow_edge \<Rightarrow> canvas_page \<Rightarrow> string option \<times> canvas_page" where
  "edge_selected e st = (fe_condition e, edge_click (fe_id e) st)"

text \<open>The condition that the inspector shows is the one of the edge on the canvas, after a selection and after every edit.\<close>

lemma condition_in_step:
  assumes "e \<in> set (cv_edges st)" and "s = fold (\<lambda>c. onEdgeConditionChange (fe_id e) c) cs (edge_selected e st)"
  shows "\<exists>e' \<in> set (cv_edges (snd s)). fe_id e' = fe_id e \<and> nullish (fe_condition e') '''' = shown_condition s"
proof -
  have "\<exists>e' \<in> set (cv_edges (snd s)). fe_id e' = fe_id e \<and> fe_condition e' = fst s" using assms(2)
  proof (induction cs arbitrary: s rule: rev_induct)
    case Nil
    then show ?case using assms(1) by (auto simp: edge_selected_def edge_click_def)
  next
    case (snoc c cs)
    let ?t = "fold (\<lambda>c. onEdgeConditionChange (fe_id e) c) cs (edge_selected e st)"
    obtain e' where e': "e' \<in> set (cv_edges (snd ?t))" "fe_id e' = fe_id e" using snoc.IH[OF refl] by blast
    then show ?case unfolding snoc.prems
      by (intro bexI[of _ "e'\<lparr>fe_condition := Some c, fe_label := truthy (Some c), fe_animated := (c \<noteq> []), fe_highlighted := (c \<noteq> [])\<rparr>"])
        (auto simp: onEdgeConditionChange_def patchEdgeCondition_def image_iff intro!: bexI[of _ e'])
  qed
  then show ?thesis by (auto simp: shown_condition_def)
qed

text \<open>A proposal that is applied replaces the nodes but leaves the selection: the inspector shows a node that the graph no longer has, and
  what is edited there goes nowhere.\<close>

lemma inspects_removed_node:
  assumes "cv_aiProposal st = Some p" and "ap_status p = Ready" and "ap_definition p = Some def" and "cv_selected st = Some i"
    and "fn_id ` set (cv_nodes (applyAI clock byType st)) = {''source-1'', ''sink-1''}" and "i \<notin> {''source-1'', ''sink-1''}"
    and "fn_id old = i"
  shows "selectedNode old (applyAI clock byType st) = Some old"
    and "cv_nodes (patchNode i g (applyAI clock byType st)) = cv_nodes (applyAI clock byType st)"
proof -
  have sel: "cv_selected (applyAI clock byType st) = Some i"
    using assms(1-4) by (simp add: applyAI_def set_flow_def Let_def split: prod.split)
  have gone: "fn_id n \<noteq> i" if "n \<in> set (cv_nodes (applyAI clock byType st))" for n using that assms(5,6) by blast
  then have "find (\<lambda>n. fn_id n = i) (cv_nodes (applyAI clock byType st)) = None" by (simp add: find_None_iff)
  then show "selectedNode old (applyAI clock byType st) = Some old" by (simp add: selectedNode_def sel)
  show "cv_nodes (patchNode i g (applyAI clock byType st)) = cv_nodes (applyAI clock byType st)"
    using gone by (simp add: patchNode_def map_idI)
qed

section \<open>Fitting the view\<close>

text \<open>\<open>fitPending\<close>: set whenever a whole graph is put on the canvas; the effect on the graph library's instance and the nodes fits the
  view once both are there. \<open>vf_fits\<close> counts the calls.\<close>

record view_fit =
  vf_instance :: bool
  vf_nodes :: nat
  vf_pending :: bool
  vf_fits :: nat

definition fit_effect :: "view_fit \<Rightarrow> view_fit" where
  "fit_effect v =
     (if \<not> vf_instance v \<or> \<not> vf_pending v \<or> vf_nodes v = 0 then v else v\<lparr>vf_pending := False, vf_fits := Suc (vf_fits v)\<rparr>)"

definition graph_put :: "nat \<Rightarrow> view_fit \<Rightarrow> view_fit" where
  "graph_put n v = fit_effect (v\<lparr>vf_pending := True, vf_nodes := n\<rparr>)"

definition nodes_changed :: "nat \<Rightarrow> view_fit \<Rightarrow> view_fit" where
  "nodes_changed n v = fit_effect (v\<lparr>vf_nodes := n\<rparr>)"

definition canvas_ready :: "view_fit \<Rightarrow> view_fit" where
  "canvas_ready v = fit_effect (v\<lparr>vf_instance := True\<rparr>)"

inductive fit_step :: "view_fit \<Rightarrow> view_fit \<Rightarrow> bool" where
  "fit_step v (graph_put n v)"
| "fit_step v (nodes_changed n v)"
| "fit_step v (canvas_ready v)"

text \<open>A graph that is put on the canvas is fitted as soon as the canvas is ready and shows a node: nothing that is pending is ever left.\<close>

lemma fit_not_lost:
  assumes "fit_step\<^sup>*\<^sup>* \<lparr>vf_instance = False, vf_nodes = 0, vf_pending = False, vf_fits = 0\<rparr> v"
  shows "vf_pending v \<longrightarrow> \<not> vf_instance v \<or> vf_nodes v = 0"
  using assms
proof (induction rule: rtranclp_induct)
  case (step v v')
  from step(2) show ?case by cases (simp_all add: graph_put_def nodes_changed_def canvas_ready_def fit_effect_def)
qed simp

section \<open>The drawer and its neighbours\<close>

text \<open>Whatever is dragged, the controls of the canvas and the run monitor stand above the open drawer and below the upper half of the window.\<close>

lemma neighbours_above:
  assumes "15000 \<le> limit_height innerHeight" and "15000 \<le> tl_drawerHeight st" and "tl_drawerHeight st \<le> limit_height innerHeight"
    and "tl_drawerOpen st"
  shows "shown_height innerHeight st < controls_bottom innerHeight st"
    and "controls_bottom innerHeight st < the (monitor_bottom innerHeight st)"
    and "the (monitor_bottom innerHeight st) \<le> 52 * innerHeight + 2800"
  using assms by (auto simp: controls_bottom_def monitor_bottom_def above_drawer_def shown_height_def limit_height_def)

text \<open>The two texts of the state agree: the badge of wide screens is there exactly when the hidden status has words.\<close>

lemma badge_with_status:
  assumes "list_all (\<lambda>e. ve_message e \<noteq> []) (graphValidationErrors st)"
  shows "status_badge st = None \<longleftrightarrow> status_text st = []"
  using assms by (cases "graphValidationErrors st") (auto simp: status_badge_def status_text_def)

text \<open>Changing the tab of an open drawer does not ask for the runs: opened at the life cycle by the rail, it then says that there are none.\<close>

lemma runs_not_asked:
  "let st = setBottomTab RunsTab (click_drawer_tab row LifecycleTab tl_initial) in runs_view_of f st = NoRunsYet \<and> tl_calls st = []"
  by (simp add: setBottomTab_def click_drawer_tab_def openDrawer_def tl_initial_def runs_view_of_def Let_def)

section \<open>The page as a whole\<close>

text \<open>The AI panel: the messages, the heading and the parts of a proposal, the hint and the text of the prompt, the button with its
  lock, and whether the undo is offered.\<close>

record ai_panel =
  aip_messages :: "(string \<times> bool) list"
  aip_proposal :: "(string \<times> proposal_parts) option"
  aip_hint :: string
  aip_prompt :: string
  aip_generate :: "string \<times> bool"
  aip_undo :: bool

definition ai_panel_of :: "(ai_proposal \<Rightarrow> string) \<Rightarrow> canvas_page \<Rightarrow> ai_panel" where
  "ai_panel_of picture cv =
     \<lparr>aip_messages = message_lines cv,
      aip_proposal = map_option (\<lambda>p. (proposal_heading p, proposal_parts_of (picture p) p)) (cv_aiProposal cv),
      aip_hint = prompt_hint cv, aip_prompt = cv_aiPrompt cv, aip_generate = (generate_label cv, generate_disabled cv),
      aip_undo = undo_offered cv\<rparr>"

text \<open>What stands on the screen: the menu of a connection, the rail with its flyout, the side panel, the header, the bar of actions,
  the AI panel, the inspector, the run monitor above the drawer, the drawer, and the start of an empty canvas.\<close>

record canvas_screen =
  sc_minimap :: "string list option"
  sc_contextAdd :: "(string + (string \<times> string) list) option"
  sc_rail :: "(string \<times> string \<times> string option) list"
  sc_flyout :: "(string option \<times> (string + (string \<times> string) list)) option"
  sc_sidePanel :: "(string \<times> string) option"
  sc_headerLeft :: int
  sc_name :: string
  sc_stage :: "string \<times> string \<times> string list option"
  sc_trigger :: "(string \<times> (string \<times> string) list) \<times> trigger_control"
  sc_status :: "string \<times> string option"
  sc_actions :: "(string \<times> bool) list"
  sc_sql :: "(string \<times> string) option"
  sc_aiPanel :: "ai_panel option"
  sc_inspector :: "inspector_mode option"
  sc_monitor :: "(string \<times> int option) option"
  sc_drawer :: "(int option \<times> string) option"
  sc_drawerTabs :: "(bottom_tab \<times> string \<times> bool) list"
  sc_empty :: bool

record canvas_context =
  cc_dark :: bool
  cc_owner :: bool
  cc_catalog :: "catalog_entry list"
  cc_byType :: "string \<Rightarrow> catalog_entry option"
  cc_upstream :: "(string \<times> string) list"
  cc_assets :: "(string \<times> string \<times> layer option) list"
  cc_innerHeight :: int
  cc_picture :: "ai_proposal \<Rightarrow> string"

definition PipelineCanvasPage :: "canvas_context \<Rightarrow> tools \<Rightarrow> canvas_page \<Rightarrow> canvas_screen" where
  "PipelineCanvasPage cc st cv =
     \<lparr>sc_minimap = minimap (cc_byType cc) cv,
      sc_contextAdd = map_option (\<lambda>(source, x, y). menu_lines (cc_catalog cc) (cv_nodes cv) source) (tl_contextAdd st),
      sc_rail = rail (cc_dark cc) st,
      sc_flyout = flyout (cc_catalog cc) st,
      sc_sidePanel = map_option panel_heading (tl_panel st),
      sc_headerLeft = leftOffset st,
      sc_name = cv_name cv,
      sc_stage = stage_button (cv_stage cv) (cc_owner cc) st,
      sc_trigger = (trigger_select (cv_trigger cv), trigger_control_of (cv_pipelineKey cv) (cc_upstream cc) (cc_assets cc) (cv_trigger cv)),
      sc_status = (status_text cv, status_badge cv),
      sc_actions = action_buttons cv,
      sc_sql = sql_input cv,
      sc_aiPanel = (if tl_showAI st then Some (ai_panel_of (cc_picture cc) cv) else None),
      sc_inspector = (if rightPanelOpen cv then inspector cv else None),
      sc_monitor = map_option (\<lambda>i. (i, monitor_bottom (cc_innerHeight cc) st)) (truthy (cv_executionId cv)),
      sc_drawer = drawer_shell st,
      sc_drawerTabs = (if tl_drawerOpen st then drawer_tabs st else []),
      sc_empty = shows_empty (st, cv)\<rparr>"

text \<open>The start of an empty canvas stands alone: beside it there is neither a flyout, nor the AI panel, nor a map; the drawer has its
  tabs exactly when it is open, with one of them marked.\<close>

lemma empty_start_alone:
  "sc_empty (PipelineCanvasPage cc st cv) \<Longrightarrow>
     sc_flyout (PipelineCanvasPage cc st cv) = None \<and> sc_aiPanel (PipelineCanvasPage cc st cv) = None
     \<and> sc_minimap (PipelineCanvasPage cc st cv) = None"
  by (simp add: PipelineCanvasPage_def shows_empty_def flyout_def minimap_def)

lemma drawer_tab_marked:
  "length (filter (\<lambda>(t, label, marked). marked) (sc_drawerTabs (PipelineCanvasPage cc st cv)))
     = (if sc_drawer (PipelineCanvasPage cc st cv) = None then 0 else 1)"
  by (cases "tl_bottomTab st") (simp_all add: PipelineCanvasPage_def drawer_shell_def drawer_tabs_def)

text \<open>Side panel and flyout never stand on the screen together, in any state that the tools can reach.\<close>

lemma one_left_panel:
  "one_panel st \<Longrightarrow> sc_flyout (PipelineCanvasPage cc st cv) = None \<or> sc_sidePanel (PipelineCanvasPage cc st cv) = None"
  by (auto simp: PipelineCanvasPage_def one_panel_def flyout_def)

end
