(* ===== verification/Pickers.thy ===== *)
theory Pickers
  imports ApiClient Catalog PageText
begin

text \<open>
  The settings of a node: the pickers of \<open>apps/web/src/components/connectors\<close> (Google Sheets, Google
  Drive, Excel, Zendesk) and the panel \<open>apps/web/src/components/canvas/ConfigPanel.tsx\<close> that
  shows the fields of the catalog.

  A node's \<open>config\<close> is a map from keys to JSON values. A picker hands its panel a patch, which the
  panel merges into the config.
\<close>

section \<open>Configurations and patches\<close>

type_synonym config = "string \<Rightarrow> json option"

definition text_of :: "config \<Rightarrow> string \<Rightarrow> string" where
  "text_of cfg k = (case cfg k of Some (JStr s) \<Rightarrow> s | _ \<Rightarrow> '''')"

type_synonym patch = "(string \<times> string) list"

text \<open>\<open>{ ...cfg, ...p }\<close>.\<close>

definition merge :: "config \<Rightarrow> patch \<Rightarrow> config" where
  "merge cfg p = fold (\<lambda>(k, s) c. c(k \<mapsto> JStr s)) p cfg"

record connection_row =
  cx_id :: string
  cx_provider :: string
  cx_email :: "string option"
  cx_subdomain :: "string option"

record named =
  nm_id :: string
  nm_name :: string

definition of_provider :: "string \<Rightarrow> connection_row list \<Rightarrow> connection_row list" where
  "of_provider p cs = filter (\<lambda>c. cx_provider c = p) cs"

definition account_option :: "connection_row \<Rightarrow> string \<times> string" where
  "account_option c = (cx_id c, nullish (cx_email c) (cx_id c))"

definition name_of :: "named list \<Rightarrow> string \<Rightarrow> string" where
  "name_of xs i = (case find (\<lambda>x. nm_id x = i) xs of Some x \<Rightarrow> nm_name x | None \<Rightarrow> '''')"

section \<open>Google Sheets\<close>

definition gs_levels :: "string list" where
  "gs_levels = [''connectionId'', ''spreadsheetId'', ''sheetName'']"

text \<open>The patch of the selection at each level, and of the text field of the range.\<close>

definition gs_patch :: "named list \<Rightarrow> nat \<Rightarrow> string \<Rightarrow> config \<Rightarrow> patch" where
  "gs_patch files k v cfg =
     (if k = 0 then [(''connectionId'', v), (''spreadsheetId'', ''''), (''sheetName'', ''''), (''range'', '''')]
      else if k = 1 then [(''connectionId'', text_of cfg ''connectionId''), (''spreadsheetId'', v),
        (''spreadsheetName'', name_of files v), (''sheetName'', ''''), (''range'', '''')]
      else [(''connectionId'', text_of cfg ''connectionId''), (''spreadsheetId'', text_of cfg ''spreadsheetId''),
        (''sheetName'', v), (''range'', v @ ''!A:Z'')])"

definition gs_range_patch :: "string \<Rightarrow> config \<Rightarrow> patch" where
  "gs_range_patch v cfg = [(''connectionId'', text_of cfg ''connectionId''), (''spreadsheetId'', text_of cfg ''spreadsheetId''),
     (''sheetName'', text_of cfg ''sheetName''), (''range'', v)]"

type_synonym preview = "string list \<times> string list list"

record sheet_picker =
  sp_connections :: "connection_row list"
  sp_spreadsheets :: "named list"
  sp_sheets :: "string list"
  sp_preview :: "preview option"
  sp_loading :: "string option"
  sp_err :: "string option"
  sp_sent :: "string list"

definition sp_initial :: sheet_picker where
  "sp_initial = \<lparr>sp_connections = [], sp_spreadsheets = [], sp_sheets = [], sp_preview = None, sp_loading = None, sp_err = None,
     sp_sent = [''/api/connectors'']\<rparr>"

text \<open>The effects in their order, after the config changed from \<open>old\<close> to \<open>cfg\<close>; on opening, \<open>old\<close> is \<open>None\<close>
  and all of them run.\<close>

definition changed :: "string list \<Rightarrow> config option \<Rightarrow> config \<Rightarrow> bool" where
  "changed keys old cfg \<longleftrightarrow> (case old of None \<Rightarrow> True | Some c \<Rightarrow> \<exists>k\<in>set keys. text_of c k \<noteq> text_of cfg k)"

definition sp_spreadsheets_effect :: "config option \<Rightarrow> config \<Rightarrow> sheet_picker \<Rightarrow> sheet_picker" where
  "sp_spreadsheets_effect old cfg st =
     (if \<not> changed [''connectionId''] old cfg \<or> text_of cfg ''connectionId'' = [] then st
      else st\<lparr>sp_loading := Some ''sheets'', sp_spreadsheets := [], sp_sheets := [], sp_preview := None,
        sp_sent := sp_sent st @ [''/api/connectors/google/spreadsheets?connectionId='' @ text_of cfg ''connectionId'']\<rparr>)"

definition sp_tabs_effect :: "config option \<Rightarrow> config \<Rightarrow> sheet_picker \<Rightarrow> sheet_picker" where
  "sp_tabs_effect old cfg st =
     (if \<not> changed [''connectionId'', ''spreadsheetId''] old cfg \<or> text_of cfg ''connectionId'' = [] \<or> text_of cfg ''spreadsheetId'' = [] then st
      else st\<lparr>sp_loading := Some ''tabs'', sp_sheets := [], sp_preview := None,
        sp_sent := sp_sent st @ [''/api/connectors/google/spreadsheets/'' @ text_of cfg ''spreadsheetId'' @ ''/sheets?connectionId=''
          @ text_of cfg ''connectionId'']\<rparr>)"

definition sp_preview_effect :: "config option \<Rightarrow> config \<Rightarrow> sheet_picker \<Rightarrow> sheet_picker" where
  "sp_preview_effect old cfg st =
     (if \<not> changed gs_levels old cfg \<or> text_of cfg ''connectionId'' = [] \<or> text_of cfg ''spreadsheetId'' = [] \<or> text_of cfg ''sheetName'' = []
      then st
      else st\<lparr>sp_loading := Some ''preview'', sp_preview := None,
        sp_sent := sp_sent st @ [''/api/connectors/google/spreadsheets/'' @ text_of cfg ''spreadsheetId'' @ ''/sheets/''
          @ encodeURIComponent (text_of cfg ''sheetName'') @ ''/preview?connectionId='' @ text_of cfg ''connectionId'']\<rparr>)"

definition sp_effects :: "config option \<Rightarrow> config \<Rightarrow> sheet_picker \<Rightarrow> sheet_picker" where
  "sp_effects old cfg st = sp_preview_effect old cfg (sp_tabs_effect old cfg (sp_spreadsheets_effect old cfg st))"

text \<open>The answers; the failure of a preview is ignored.\<close>

definition sp_connections_answer :: "string + connection_row list \<Rightarrow> sheet_picker \<Rightarrow> sheet_picker" where
  "sp_connections_answer out st = (case out of Inr cs \<Rightarrow> st\<lparr>sp_connections := of_provider ''google'' cs\<rparr> | Inl e \<Rightarrow> st\<lparr>sp_err := Some e\<rparr>)"

definition sp_spreadsheets_answer :: "string + named list \<Rightarrow> sheet_picker \<Rightarrow> sheet_picker" where
  "sp_spreadsheets_answer out st =
     (case out of Inr fs \<Rightarrow> st\<lparr>sp_spreadsheets := fs\<rparr> | Inl e \<Rightarrow> st\<lparr>sp_err := Some e\<rparr>)\<lparr>sp_loading := None\<rparr>"

definition sp_tabs_answer :: "string + string list \<Rightarrow> sheet_picker \<Rightarrow> sheet_picker" where
  "sp_tabs_answer out st =
     (case out of Inr ss \<Rightarrow> st\<lparr>sp_sheets := ss\<rparr> | Inl e \<Rightarrow> st\<lparr>sp_err := Some e\<rparr>)\<lparr>sp_loading := None\<rparr>"

definition sp_preview_answer :: "preview option \<Rightarrow> sheet_picker \<Rightarrow> sheet_picker" where
  "sp_preview_answer out st = (case out of Some p \<Rightarrow> st\<lparr>sp_preview := Some p\<rparr> | None \<Rightarrow> st)\<lparr>sp_loading := None\<rparr>"

text \<open>What is shown: nothing but a hint without an account; else the selections whose upper one is made. Each is its empty
  option, the other options, and the selected value.\<close>

type_synonym select_box = "string \<times> (string \<times> string) list \<times> string"

definition empty_option :: "bool \<Rightarrow> string \<Rightarrow> string" where
  "empty_option loading label = u_emdash @ '' '' @ (if loading then ''Loading'' @ u_ellipsis else label) @ '' '' @ u_emdash"

definition sp_view :: "config \<Rightarrow> sheet_picker \<Rightarrow> (string, select_box list) sum" where
  "sp_view cfg st =
     (if sp_connections st = [] \<and> sp_err st = None then Inl ''No Google account connected.''
      else Inr
        ([(u_emdash @ '' Select Google account '' @ u_emdash, map account_option (sp_connections st), text_of cfg ''connectionId'')]
         @ (if text_of cfg ''connectionId'' \<noteq> [] then
              [(empty_option (sp_loading st = Some ''sheets'') ''Select spreadsheet'',
                map (\<lambda>f. (nm_id f, nm_name f)) (sp_spreadsheets st), text_of cfg ''spreadsheetId'')] else [])
         @ (if text_of cfg ''spreadsheetId'' \<noteq> [] then
              [(empty_option (sp_loading st = Some ''tabs'') ''Select sheet tab'',
                map (\<lambda>s. (s, s)) (sp_sheets st), text_of cfg ''sheetName'')] else [])))"

text \<open>\<open>SheetPreview\<close>: at most five rows, cut and filled to the headers.\<close>

definition preview_table :: "preview \<Rightarrow> (string list \<times> string list list) option" where
  "preview_table p =
     (if fst p = [] then None
      else Some (fst p, map (\<lambda>row. map (\<lambda>j. if j < length row then row ! j else '''') [0..<length (fst p)]) (take 5 (snd p))))"

section \<open>Excel\<close>

definition ex_levels :: "string list" where
  "ex_levels = [''connectionId'', ''driveId'', ''itemId'', ''sheetName'']"

definition ex_patch :: "named list \<Rightarrow> nat \<Rightarrow> string \<Rightarrow> config \<Rightarrow> patch" where
  "ex_patch items k v cfg =
     (if k = 0 then [(''connectionId'', v), (''driveId'', ''''), (''itemId'', ''''), (''sheetName'', '''')]
      else if k = 1 then [(''connectionId'', text_of cfg ''connectionId''), (''driveId'', v), (''itemId'', ''''), (''sheetName'', '''')]
      else if k = 2 then [(''connectionId'', text_of cfg ''connectionId''), (''driveId'', text_of cfg ''driveId''), (''itemId'', v),
        (''itemName'', name_of items v), (''sheetName'', '''')]
      else [(''connectionId'', text_of cfg ''connectionId''), (''driveId'', text_of cfg ''driveId''), (''itemId'', text_of cfg ''itemId''),
        (''sheetName'', v)])"

record excel_picker =
  xp_connections :: "connection_row list"
  xp_drives :: "named list"
  xp_items :: "named list"
  xp_sheets :: "named list"
  xp_preview :: "preview option"
  xp_loading :: "string option"
  xp_err :: "string option"
  xp_sent :: "string list"

definition xp_initial :: excel_picker where
  "xp_initial = \<lparr>xp_connections = [], xp_drives = [], xp_items = [], xp_sheets = [], xp_preview = None, xp_loading = None,
     xp_err = None, xp_sent = [''/api/connectors'']\<rparr>"

definition xp_drives_effect :: "config option \<Rightarrow> config \<Rightarrow> excel_picker \<Rightarrow> excel_picker" where
  "xp_drives_effect old cfg st =
     (if \<not> changed [''connectionId''] old cfg \<or> text_of cfg ''connectionId'' = [] then st
      else st\<lparr>xp_loading := Some ''drives'', xp_drives := [], xp_items := [], xp_sheets := [], xp_preview := None,
        xp_sent := xp_sent st @ [''/api/connectors/microsoft/drives?connectionId='' @ text_of cfg ''connectionId'']\<rparr>)"

definition xp_items_effect :: "config option \<Rightarrow> config \<Rightarrow> excel_picker \<Rightarrow> excel_picker" where
  "xp_items_effect old cfg st =
     (if \<not> changed [''connectionId'', ''driveId''] old cfg \<or> text_of cfg ''connectionId'' = [] \<or> text_of cfg ''driveId'' = [] then st
      else st\<lparr>xp_loading := Some ''items'', xp_items := [], xp_sheets := [], xp_preview := None,
        xp_sent := xp_sent st @ [''/api/connectors/microsoft/drives/'' @ text_of cfg ''driveId'' @ ''/items?connectionId=''
          @ text_of cfg ''connectionId'']\<rparr>)"

definition xp_sheets_effect :: "config option \<Rightarrow> config \<Rightarrow> excel_picker \<Rightarrow> excel_picker" where
  "xp_sheets_effect old cfg st =
     (if \<not> changed [''connectionId'', ''driveId'', ''itemId''] old cfg \<or> text_of cfg ''connectionId'' = [] \<or> text_of cfg ''itemId'' = [] then st
      else st\<lparr>xp_loading := Some ''sheets'', xp_sheets := [], xp_preview := None,
        xp_sent := xp_sent st @ [''/api/connectors/microsoft/workbooks/'' @ text_of cfg ''itemId'' @ ''/sheets?connectionId=''
          @ text_of cfg ''connectionId'' @ ''&driveId='' @ text_of cfg ''driveId'']\<rparr>)"

definition xp_preview_effect :: "config option \<Rightarrow> config \<Rightarrow> excel_picker \<Rightarrow> excel_picker" where
  "xp_preview_effect old cfg st =
     (if \<not> changed ex_levels old cfg \<or> text_of cfg ''connectionId'' = [] \<or> text_of cfg ''itemId'' = [] \<or> text_of cfg ''sheetName'' = [] then st
      else st\<lparr>xp_loading := Some ''preview'', xp_preview := None,
        xp_sent := xp_sent st @ [''/api/connectors/microsoft/workbooks/'' @ text_of cfg ''itemId'' @ ''/sheets/''
          @ encodeURIComponent (text_of cfg ''sheetName'') @ ''/preview?connectionId='' @ text_of cfg ''connectionId''
          @ ''&driveId='' @ text_of cfg ''driveId'']\<rparr>)"

definition xp_effects :: "config option \<Rightarrow> config \<Rightarrow> excel_picker \<Rightarrow> excel_picker" where
  "xp_effects old cfg st = xp_preview_effect old cfg (xp_sheets_effect old cfg (xp_items_effect old cfg (xp_drives_effect old cfg st)))"

datatype excel_answer =
    Drives "named list"
  | Items "named list"
  | Sheets "named list"
  | Failed string
  | Preview preview
  | NoPreview

text \<open>\<open>finally\<close> ends the loading, whichever request it was.\<close>

definition xp_answer :: "excel_answer \<Rightarrow> excel_picker \<Rightarrow> excel_picker" where
  "xp_answer out st =
     (case out of
        Drives ds \<Rightarrow> st\<lparr>xp_drives := ds\<rparr>
      | Items is \<Rightarrow> st\<lparr>xp_items := is\<rparr>
      | Sheets ss \<Rightarrow> st\<lparr>xp_sheets := ss\<rparr>
      | Failed e \<Rightarrow> st\<lparr>xp_err := Some e\<rparr>
      | Preview p \<Rightarrow> st\<lparr>xp_preview := Some p\<rparr>
      | NoPreview \<Rightarrow> st)\<lparr>xp_loading := None\<rparr>"

definition xp_connections_answer :: "string + connection_row list \<Rightarrow> excel_picker \<Rightarrow> excel_picker" where
  "xp_connections_answer out st = (case out of Inr cs \<Rightarrow> st\<lparr>xp_connections := of_provider ''microsoft'' cs\<rparr> | Inl e \<Rightarrow> st\<lparr>xp_err := Some e\<rparr>)"

definition xp_view :: "config \<Rightarrow> excel_picker \<Rightarrow> (string, select_box list) sum" where
  "xp_view cfg st =
     (if xp_connections st = [] \<and> xp_err st = None then Inl ''No Microsoft account connected.''
      else Inr
        ([(u_emdash @ '' Select Microsoft account '' @ u_emdash, map account_option (xp_connections st), text_of cfg ''connectionId'')]
         @ (if text_of cfg ''connectionId'' \<noteq> [] then
              [(empty_option (xp_loading st = Some ''drives'') ''Select drive'', map (\<lambda>d. (nm_id d, nm_name d)) (xp_drives st), text_of cfg ''driveId'')] else [])
         @ (if text_of cfg ''driveId'' \<noteq> [] then
              [(empty_option (xp_loading st = Some ''items'') ''Select workbook'', map (\<lambda>i. (nm_id i, nm_name i)) (xp_items st), text_of cfg ''itemId'')] else [])
         @ (if text_of cfg ''itemId'' \<noteq> [] then
              [(empty_option (xp_loading st = Some ''sheets'') ''Select sheet'', map (\<lambda>s. (nm_name s, nm_name s)) (xp_sheets st), text_of cfg ''sheetName'')] else [])))"

section \<open>Google Drive\<close>

definition gd_levels :: "string list" where
  "gd_levels = [''connectionId'', ''folderId'']"

definition gd_patch :: "named list \<Rightarrow> nat \<Rightarrow> string \<Rightarrow> config \<Rightarrow> patch" where
  "gd_patch folders k v cfg =
     (if k = 0 then [(''connectionId'', v), (''folderId'', ''''), (''folderName'', '''')]
      else [(''connectionId'', text_of cfg ''connectionId''), (''folderId'', v), (''folderName'', name_of folders v)])"

definition gd_query_patch :: "string \<Rightarrow> config \<Rightarrow> patch" where
  "gd_query_patch v cfg = [(''connectionId'', text_of cfg ''connectionId''), (''folderId'', text_of cfg ''folderId''), (''query'', v)]"

record drive_picker =
  dp_connections :: "connection_row list"
  dp_folders :: "named list"
  dp_loading :: bool
  dp_err :: "string option"
  dp_sent :: "string list"

definition dp_effects :: "config option \<Rightarrow> config \<Rightarrow> drive_picker \<Rightarrow> drive_picker" where
  "dp_effects old cfg st =
     (if \<not> changed [''connectionId''] old cfg \<or> text_of cfg ''connectionId'' = [] then st
      else st\<lparr>dp_loading := True, dp_folders := [],
        dp_sent := dp_sent st @ [''/api/connectors/google/drive/folders?connectionId='' @ text_of cfg ''connectionId'']\<rparr>)"

definition dp_connections_answer :: "string + connection_row list \<Rightarrow> drive_picker \<Rightarrow> drive_picker" where
  "dp_connections_answer out st = (case out of Inr cs \<Rightarrow> st\<lparr>dp_connections := of_provider ''google'' cs\<rparr> | Inl e \<Rightarrow> st\<lparr>dp_err := Some e\<rparr>)"

definition dp_answer :: "string + named list \<Rightarrow> drive_picker \<Rightarrow> drive_picker" where
  "dp_answer out st = (case out of Inr fs \<Rightarrow> st\<lparr>dp_folders := fs\<rparr> | Inl e \<Rightarrow> st\<lparr>dp_err := Some e\<rparr>)\<lparr>dp_loading := False\<rparr>"

section \<open>Zendesk\<close>

definition zp_levels :: "string list" where
  "zp_levels = [''connectionId'', ''resource'']"

definition subdomain_of :: "connection_row list \<Rightarrow> string \<Rightarrow> string" where
  "subdomain_of cs i = (case find (\<lambda>c. cx_id c = i) cs of Some c \<Rightarrow> nullish (cx_subdomain c) '''' | None \<Rightarrow> '''')"

definition zp_patch :: "connection_row list \<Rightarrow> nat \<Rightarrow> string \<Rightarrow> config \<Rightarrow> patch" where
  "zp_patch cs k v cfg =
     (if k = 0 then [(''connectionId'', v), (''subdomain'', subdomain_of cs v), (''resource'', '''')]
      else [(''connectionId'', text_of cfg ''connectionId''), (''subdomain'', subdomain_of cs (text_of cfg ''connectionId'')), (''resource'', v)])"

record zendesk_picker =
  zp_connections :: "connection_row list"
  zp_resources :: "(string \<times> string \<times> int option) list"
  zp_loading :: bool
  zp_err :: "string option"
  zp_sent :: "string list"

definition zp_effects :: "config option \<Rightarrow> config \<Rightarrow> zendesk_picker \<Rightarrow> zendesk_picker" where
  "zp_effects old cfg st =
     (if \<not> changed [''connectionId''] old cfg \<or> text_of cfg ''connectionId'' = [] then st
      else st\<lparr>zp_loading := True, zp_resources := [],
        zp_sent := zp_sent st @ [''/api/connectors/zendesk/resources?connectionId='' @ text_of cfg ''connectionId'']\<rparr>)"

definition zp_connections_answer :: "string + connection_row list \<Rightarrow> zendesk_picker \<Rightarrow> zendesk_picker" where
  "zp_connections_answer out st = (case out of Inr cs \<Rightarrow> st\<lparr>zp_connections := of_provider ''zendesk'' cs\<rparr> | Inl e \<Rightarrow> st\<lparr>zp_err := Some e\<rparr>)"

definition zp_answer :: "string + (string \<times> string \<times> int option) list \<Rightarrow> zendesk_picker \<Rightarrow> zendesk_picker" where
  "zp_answer out st = (case out of Inr rs \<Rightarrow> st\<lparr>zp_resources := rs\<rparr> | Inl e \<Rightarrow> st\<lparr>zp_err := Some e\<rparr>)\<lparr>zp_loading := False\<rparr>"

definition zp_account_option :: "connection_row \<Rightarrow> string \<times> string" where
  "zp_account_option c =
     (cx_id c, case truthy (cx_subdomain c) of Some s \<Rightarrow> s @ ''.zendesk.com'' | None \<Rightarrow> nullish (cx_email c) (cx_id c))"

definition zp_resource_option :: "(int \<Rightarrow> string) \<Rightarrow> string \<times> string \<times> int option \<Rightarrow> string \<times> string" where
  "zp_resource_option locale_number r =
     (case r of (t, label, count) \<Rightarrow> (t, label @ (case count of Some c \<Rightarrow> '' ('' @ locale_number c @ '')'' | None \<Rightarrow> '''')))"

definition zp_common_types :: "config \<Rightarrow> zendesk_picker \<Rightarrow> string list" where
  "zp_common_types cfg st =
     (if text_of cfg ''connectionId'' \<noteq> [] \<and> zp_resources st = [] \<and> \<not> zp_loading st then [''tickets'', ''users'', ''organizations''] else [])"

section \<open>The panel\<close>

text \<open>\<open>oauth-picker\<close> fields show the picker of the map, if there is one.\<close>

definition PICKER_MAP :: "(string \<times> string) list" where
  "PICKER_MAP = [(''gsheets'', ''SheetPicker''), (''gdrive'', ''DrivePicker''), (''excel'', ''ExcelPicker''), (''zendesk'', ''ZendeskPicker'')]"

definition OAuthPickerField :: "field_spec \<Rightarrow> string option" where
  "OAuthPickerField f = Option.bind (truthy (fs_picker f)) (map_of PICKER_MAP)"

definition InstancePicker :: "string option \<Rightarrow> connection_row list \<Rightarrow> connection_row list" where
  "InstancePicker provider cs = filter (\<lambda>c. case truthy provider of None \<Rightarrow> True | Some p \<Rightarrow> cx_provider c = p) cs"

definition first_option :: "field_spec \<Rightarrow> json option" where
  "first_option f = (case fs_options f of Some (x # _) \<Rightarrow> Some (JStr x) | _ \<Rightarrow> None)"

definition shown_field :: "catalog_entry \<Rightarrow> config \<Rightarrow> field_spec \<Rightarrow> bool" where
  "shown_field entry cfg f \<longleftrightarrow>
     (case fs_visibleWhen f of
        None \<Rightarrow> True
      | Some (key, expected) \<Rightarrow>
          (case cfg key of
             Some v \<Rightarrow> if v = JNull then Option.bind (find (\<lambda>g. fs_key g = key) (ce_fields entry)) first_option = Some (JStr expected)
               else v = JStr expected
           | None \<Rightarrow> Option.bind (find (\<lambda>g. fs_key g = key) (ce_fields entry)) first_option = Some (JStr expected)))"

definition shown_fields :: "catalog_entry \<Rightarrow> config \<Rightarrow> field_spec list" where
  "shown_fields entry cfg = filter (shown_field entry cfg) (ce_fields entry)"

text \<open>The value of a control: a checkbox, a selection with its first option as default, or a text.\<close>

definition nonnull :: "json option \<Rightarrow> json option" where
  "nonnull v = (if v = Some JNull then None else v)"

definition shown_value :: "config \<Rightarrow> field_spec \<Rightarrow> json option" where
  "shown_value cfg f =
     (if fs_type f = ''checkbox'' then Some (JBool (truthy_json (cfg (fs_key f))))
      else if fs_type f = ''select'' then (case nonnull (cfg (fs_key f)) of Some v \<Rightarrow> Some v | None \<Rightarrow> first_option f)
      else Some (nullish (nonnull (cfg (fs_key f))) (JStr '''')))"

definition edit_field :: "field_spec \<Rightarrow> json \<Rightarrow> config \<Rightarrow> config" where
  "edit_field f v cfg = cfg(fs_key f \<mapsto> v)"

text \<open>The ingestion mode; the box is shown unless the node captures changes.\<close>

definition ingestion_shown :: "catalog_entry \<Rightarrow> config \<Rightarrow> bool" where
  "ingestion_shown entry cfg \<longleftrightarrow> ce_supportsIngestion entry = Some True \<and> cfg ''syncMode'' \<noteq> Some (JStr ''cdc'')"

definition default_ingestion :: ingestion_config where
  "default_ingestion = \<lparr>ing_mode = ''incremental'', ing_backfillStart = None, ing_backfillEnd = None, ing_stateKey = None, ing_pageSize = None\<rparr>"

definition set_mode :: "string \<Rightarrow> ingestion_config option \<Rightarrow> ingestion_config" where
  "set_mode m ing = (nullish ing default_ingestion)\<lparr>ing_mode := m\<rparr>"

definition ingestion_inputs :: "ingestion_config option \<Rightarrow> (string \<times> string) list" where
  "ingestion_inputs ing =
     (let i = nullish ing default_ingestion in
      if ing_mode i = ''backfill'' then
        [(''Backfill start (ISO)'', nullish (ing_backfillStart i) ''''), (''Page size'', int_str (nullish (ing_pageSize i) 100))]
      else [])"

section \<open>A selection never hangs in the air\<close>

lemma merge_other: "k \<notin> fst ` set p \<Longrightarrow> merge cfg p k = cfg k"
  unfolding merge_def by (induction p arbitrary: cfg) auto

lemma merge_in: "distinct (map fst p) \<Longrightarrow> (k, s) \<in> set p \<Longrightarrow> merge cfg p k = Some (JStr s)"
proof (induction p arbitrary: cfg)
  case (Cons e p)
  show ?case
  proof (cases "e = (k, s)")
    case True
    then have "merge cfg (e # p) k = merge (cfg(k \<mapsto> JStr s)) p k" by (simp add: merge_def)
    also have "\<dots> = (cfg(k \<mapsto> JStr s)) k" using Cons.prems(1) True by (intro merge_other) auto
    finally show ?thesis by simp
  next
    case False
    then have "(k, s) \<in> set p" using Cons.prems(2) by simp
    moreover have "merge cfg (e # p) = merge (case e of (k, s) \<Rightarrow> cfg(k \<mapsto> JStr s)) p" by (cases e) (simp add: merge_def)
    ultimately show ?thesis using Cons by simp
  qed
qed simp

text \<open>No level is selected under an empty one; and a level can be selected when the one above it is.\<close>

definition chained :: "string list \<Rightarrow> config \<Rightarrow> bool" where
  "chained levels cfg \<longleftrightarrow>
     list_all (\<lambda>j. list_all (\<lambda>i. text_of cfg (levels ! j) \<noteq> '''' \<longrightarrow> text_of cfg (levels ! i) \<noteq> '''') [0..<j]) [0..<length levels]"

definition click :: "string list \<Rightarrow> (nat \<Rightarrow> string \<Rightarrow> config \<Rightarrow> patch) \<Rightarrow> nat \<times> string \<Rightarrow> config \<Rightarrow> config" where
  "click levels patch_of c cfg =
     (case c of (k, v) \<Rightarrow>
        if k < length levels \<and> (k = 0 \<or> text_of cfg (levels ! (k - 1)) \<noteq> '''') then merge cfg (patch_of k v cfg) else cfg)"

text \<open>What every picker is built from: a chain of levels, each selection of which keeps the levels above it and
  empties those below.\<close>

locale cascade =
  fixes levels :: "string list"
    and patch_of :: "nat \<Rightarrow> string \<Rightarrow> config \<Rightarrow> patch"
  assumes selection: "k < length levels \<Longrightarrow> map (text_of (merge cfg (patch_of k v cfg))) levels
      = take k (map (text_of cfg) levels) @ v # replicate (length levels - Suc k) ''''"
begin

lemma above:
  assumes "i < k" and "k < length levels"
  shows "text_of (merge cfg (patch_of k v cfg)) (levels ! i) = text_of cfg (levels ! i)"
  using arg_cong[OF selection[OF assms(2), of cfg v], of "\<lambda>xs. xs ! i"] assms by (simp add: nth_append)

lemma below:
  assumes "k < i" and "i < length levels"
  shows "text_of (merge cfg (patch_of k v cfg)) (levels ! i) = ''''"
proof -
  have "k < length levels" using assms by simp
  from arg_cong[OF selection[OF this, of cfg v], of "\<lambda>xs. xs ! i"] assms show ?thesis
    by (simp add: nth_append nth_Cons')
qed

lemma chained_iff: "chained levels cfg \<longleftrightarrow>
    (\<forall>i j. i < j \<longrightarrow> j < length levels \<longrightarrow> text_of cfg (levels ! j) \<noteq> '''' \<longrightarrow> text_of cfg (levels ! i) \<noteq> '''')"
  by (auto simp: chained_def list_all_iff)

lemma click_chained:
  assumes "chained levels cfg"
  shows "chained levels (click levels patch_of c cfg)"
proof -
  obtain k v where c: "c = (k, v)" by fastforce
  show ?thesis
  proof (cases "k < length levels \<and> (k = 0 \<or> text_of cfg (levels ! (k - 1)) \<noteq> '''')")
    case True
    have up: "text_of cfg (levels ! i) \<noteq> ''''" if "i < k" for i
    proof (cases "i = k - 1")
      case True
      then show ?thesis using \<open>k < length levels \<and> _\<close> that by auto
    next
      case False
      then have "i < k - 1" "k - 1 < length levels" "text_of cfg (levels ! (k - 1)) \<noteq> ''''" using that True by auto
      then show ?thesis using assms unfolding chained_iff by blast
    qed
    have "text_of (merge cfg (patch_of k v cfg)) (levels ! i) \<noteq> ''''"
      if ij: "i < j" "j < length levels" "text_of (merge cfg (patch_of k v cfg)) (levels ! j) \<noteq> ''''" for i j
    proof -
      have "j \<le> k" using below[of k j cfg v] ij by (meson not_le)
      then show ?thesis using above[of i k cfg v] up[of i] ij True by simp
    qed
    then show ?thesis using True by (simp add: chained_iff click_def c)
  next
    case False
    then show ?thesis using assms by (auto simp: click_def c)
  qed
qed

lemma clicks_chained: "chained levels cfg \<Longrightarrow> chained levels (fold (click levels patch_of) cs cfg)"
  by (induction cs arbitrary: cfg) (simp_all add: click_chained)

end

lemma text_of_merge:
  "distinct (map fst p) \<Longrightarrow> text_of (merge cfg p) k = (case map_of p k of Some s \<Rightarrow> s | None \<Rightarrow> text_of cfg k)"
  by (auto simp: text_of_def merge_other merge_in map_of_eq_None_iff dest: map_of_SomeD split: option.split)

text \<open>The levels of a patch, one selection at a time.\<close>

lemma gs_selection:
  "map (text_of (merge cfg (gs_patch files 0 v cfg))) gs_levels = [v, '''', '''']"
  "map (text_of (merge cfg (gs_patch files 1 v cfg))) gs_levels = [text_of cfg ''connectionId'', v, '''']"
  "map (text_of (merge cfg (gs_patch files 2 v cfg))) gs_levels = [text_of cfg ''connectionId'', text_of cfg ''spreadsheetId'', v]"
  by (simp_all add: gs_levels_def gs_patch_def text_of_merge)

lemma ex_selection:
  "map (text_of (merge cfg (ex_patch items 0 v cfg))) ex_levels = [v, '''', '''', '''']"
  "map (text_of (merge cfg (ex_patch items 1 v cfg))) ex_levels = [text_of cfg ''connectionId'', v, '''', '''']"
  "map (text_of (merge cfg (ex_patch items 2 v cfg))) ex_levels = [text_of cfg ''connectionId'', text_of cfg ''driveId'', v, '''']"
  "map (text_of (merge cfg (ex_patch items 3 v cfg))) ex_levels
    = [text_of cfg ''connectionId'', text_of cfg ''driveId'', text_of cfg ''itemId'', v]"
  by (simp_all add: ex_levels_def ex_patch_def text_of_merge)

lemma gd_selection:
  "map (text_of (merge cfg (gd_patch folders 0 v cfg))) gd_levels = [v, '''']"
  "map (text_of (merge cfg (gd_patch folders 1 v cfg))) gd_levels = [text_of cfg ''connectionId'', v]"
  by (simp_all add: gd_levels_def gd_patch_def text_of_merge)

lemma zp_selection:
  "map (text_of (merge cfg (zp_patch cs 0 v cfg))) zp_levels = [v, '''']"
  "map (text_of (merge cfg (zp_patch cs 1 v cfg))) zp_levels = [text_of cfg ''connectionId'', v]"
  by (simp_all add: zp_levels_def zp_patch_def text_of_merge)

interpretation gs: cascade gs_levels "gs_patch files" for files
proof
  fix k v cfg assume "k < length gs_levels"
  then have "k = 0 \<or> k = 1 \<or> k = 2" by (auto simp: gs_levels_def)
  then show "map (text_of (merge cfg (gs_patch files k v cfg))) gs_levels
      = take k (map (text_of cfg) gs_levels) @ v # replicate (length gs_levels - Suc k) ''''"
    by (elim disjE) (simp_all only: gs_selection, simp_all add: gs_levels_def numeral_2_eq_2)
qed

interpretation ex: cascade ex_levels "ex_patch items" for items
proof
  fix k v cfg assume "k < length ex_levels"
  then have "k = 0 \<or> k = 1 \<or> k = 2 \<or> k = 3" by (auto simp: ex_levels_def)
  then show "map (text_of (merge cfg (ex_patch items k v cfg))) ex_levels
      = take k (map (text_of cfg) ex_levels) @ v # replicate (length ex_levels - Suc k) ''''"
    by (elim disjE) (simp_all only: ex_selection, simp_all add: ex_levels_def numeral_2_eq_2 numeral_3_eq_3)
qed

interpretation gd: cascade gd_levels "gd_patch folders" for folders
proof
  fix k v cfg assume "k < length gd_levels"
  then have "k = 0 \<or> k = 1" by (auto simp: gd_levels_def)
  then show "map (text_of (merge cfg (gd_patch folders k v cfg))) gd_levels
      = take k (map (text_of cfg) gd_levels) @ v # replicate (length gd_levels - Suc k) ''''"
    by (elim disjE) (simp_all only: gd_selection, simp_all add: gd_levels_def)
qed

interpretation zp: cascade zp_levels "zp_patch cs" for cs
proof
  fix k v cfg assume "k < length zp_levels"
  then have "k = 0 \<or> k = 1" by (auto simp: zp_levels_def)
  then show "map (text_of (merge cfg (zp_patch cs k v cfg))) zp_levels
      = take k (map (text_of cfg) zp_levels) @ v # replicate (length zp_levels - Suc k) ''''"
    by (elim disjE) (simp_all only: zp_selection, simp_all add: zp_levels_def)
qed

text \<open>A selection never hangs in the air: whatever is clicked in a picker, in any order and with any lists loaded, no file, table,
  sheet, folder or resource stays selected under an account, drive or file that is not.\<close>

theorem pickers_chained:
  assumes "chained gs_levels cfg" and "chained ex_levels cfg" and "chained gd_levels cfg" and "chained zp_levels cfg"
  shows "chained gs_levels (fold (click gs_levels (gs_patch files)) clicks cfg)
    \<and> chained ex_levels (fold (click ex_levels (ex_patch files)) clicks cfg)
    \<and> chained gd_levels (fold (click gd_levels (gd_patch files)) clicks cfg)
    \<and> chained zp_levels (fold (click zp_levels (zp_patch cs)) clicks cfg)"
  using assms by (intro conjI gs.clicks_chained ex.clicks_chained gd.clicks_chained zp.clicks_chained)

section \<open>The panel shows what was entered\<close>

text \<open>The panel shows what was entered, and editing one field changes no other: after an edit with the
  value its control yields, a field shows that value, and every field with another key shows what it did.\<close>

theorem edit_shown:
  assumes "v \<noteq> JNull" and "fs_type f = ''checkbox'' \<longrightarrow> (\<exists>b. v = JBool b)" and "fs_key g \<noteq> fs_key f"
  shows "shown_value (edit_field f v cfg) f = Some v \<and> shown_value (edit_field f v cfg) g = shown_value cfg g"
  using assms by (auto simp: shown_value_def edit_field_def nonnull_def truthy_json_def)

text \<open>A selection whose value is missing is shown with its first option, and so are the fields that hang on it, but nothing is
  written to the config.\<close>

lemma default_shown_not_saved:
  assumes "fs_type f = ''select''" and "fs_options f = Some (x # xs)" and "cfg (fs_key f) = None"
  shows "shown_value cfg f = Some (JStr x) \<and> cfg (fs_key f) = None"
  using assms by (simp add: shown_value_def nonnull_def first_option_def)

section \<open>What the pickers get wrong\<close>

text \<open>Deselecting leaves the lists and the preview of the former choice on the screen: no effect clears them when the upper
  selection becomes empty.\<close>

lemma preview_survives:
  "xp_preview (xp_effects (Some old) (merge old (ex_patch items 0 '''' old)) st) = xp_preview st"
  "sp_preview (sp_effects (Some old) (merge old (gs_patch files 0 '''' old)) ps) = sp_preview ps"
  using ex_selection(1)[of old items "''''"] gs_selection(1)[of old files "''''"]
  by (simp_all add: xp_effects_def xp_drives_effect_def xp_items_effect_def xp_sheets_effect_def xp_preview_effect_def ex_levels_def
      sp_effects_def sp_spreadsheets_effect_def sp_tabs_effect_def sp_preview_effect_def gs_levels_def)

text \<open>Answers are not matched to the account: the files of the former one arrive last and are offered under the new one.\<close>

lemma late_files_offered:
  "xp_drives (xp_answer (Drives late) (xp_answer (Drives new) st)) = late"
  "sp_spreadsheets (sp_spreadsheets_answer (Inr late) (sp_spreadsheets_answer (Inr fs) ps)) = late"
  by (simp_all add: xp_answer_def sp_spreadsheets_answer_def)

text \<open>The name of the former workbook stays in the config when another account or drive is chosen; the catalog does not list
  the key either.\<close>

lemma stale_names:
  "merge cfg (ex_patch items 0 v cfg) ''itemName'' = cfg ''itemName''" "merge cfg (ex_patch items 1 v cfg) ''itemName'' = cfg ''itemName''"
  "merge cfg (gs_patch files 0 v cfg) ''spreadsheetName'' = cfg ''spreadsheetName''"
  by (simp_all add: merge_other ex_patch_def gs_patch_def)

text \<open>What the catalog says a picker writes, and what it writes.\<close>

definition declared_writes :: "string \<Rightarrow> string list" where
  "declared_writes picker =
     concat (map (\<lambda>f. nullish (fs_writes f) []) (filter (\<lambda>f. fs_picker f = Some picker) (concat (map ce_fields CATALOG))))"

lemma declared: "remdups (declared_writes ''gsheets'') = [''connectionId'', ''spreadsheetId'', ''range'', ''sheetName'']"
  "remdups (declared_writes ''excel'') = [''connectionId'', ''driveId'', ''itemId'', ''sheetName'']"
  "remdups (declared_writes ''gdrive'') = [''connectionId'', ''folderId'', ''query'']"
  "remdups (declared_writes ''zendesk'') = [''connectionId'', ''subdomain'', ''resource'']"
  by code_simp+

lemma undeclared_writes:
  "''spreadsheetName'' \<in> fst ` set (gs_patch files 1 v cfg)" "''spreadsheetName'' \<notin> set (declared_writes ''gsheets'')"
  "''itemName'' \<in> fst ` set (ex_patch files 2 v cfg)" "''itemName'' \<notin> set (declared_writes ''excel'')"
  "''folderName'' \<in> fst ` set (gd_patch files 1 v cfg)" "''folderName'' \<notin> set (declared_writes ''gdrive'')"
  using declared[THEN arg_cong[of _ _ set]] by (simp_all add: gs_patch_def ex_patch_def gd_patch_def)

section \<open>Instances\<close>

theorem pickers_chained_witness:
  "chained ex_levels (fold (click ex_levels (ex_patch [])) [(0, ''a''), (1, ''d''), (2, ''i''), (0, ''b'')] (\<lambda>_. None))"
proof -
  have "chained levels (\<lambda>_. None)" for levels by (simp add: chained_def text_of_def list_all_iff)
  then show ?thesis by (intro pickers_chained[THEN conjunct2, THEN conjunct1])
qed

definition path_field :: field_spec where
  "path_field = \<lparr>fs_key = ''path'', fs_label = ''Path'', fs_type = ''text'', fs_options = None, fs_placeholder = None, fs_help = None,
     fs_visibleWhen = None, fs_picker = None, fs_provider = None, fs_writes = None\<rparr>"

theorem edit_shown_witness: "shown_value (edit_field path_field (JStr ''x'') (\<lambda>_. None)) path_field = Some (JStr ''x'')"
  using edit_shown[of "JStr ''x''" path_field "path_field\<lparr>fs_key := ''format''\<rparr>" "\<lambda>_. None"] by (simp add: path_field_def)

end
