(* ===== verification/PipelinesPage.thy ===== *)
theory PipelinesPage
  imports PageText
begin

text \<open>
  The list of pipelines, \<open>apps/web/src/pages/PipelinesPage.tsx\<close>: the words of a row and of the
  drawer, the filters, and the protocol by which pages of the list are asked for and taken in.

  The server is a parameter: a function from a query and a cursor to a page. A request is logged with
  the numbers it captured; it is answered at any time, in any order, with its page or with an error.
  Locale formats and the present time are parameters.
\<close>

section \<open>The words of a row\<close>

record pipeline_summary =
  ps_id :: string
  ps_pipeline_key :: string
  ps_version :: int
  ps_name :: "string option"
  ps_status :: "string option"
  ps_environment :: "string option"
  ps_created_at :: string
  ps_trigger_type :: "string option"
  ps_last_run_phase :: "string option"
  ps_last_run_at :: "string option"
  ps_last_run_id :: "string option"

record pipeline_execution =
  px_id :: string
  px_phase :: string
  px_started_at :: string
  px_completed_at :: "string option"
  px_error :: "string option"
  px_record_count :: "int option"

text \<open>\<open>reltime\<close> at the time \<open>now\<close>, in milliseconds.\<close>

definition reltime :: "int \<Rightarrow> string option \<Rightarrow> string" where
  "reltime now stamp =
     (case truthy stamp of
        None \<Rightarrow> u_emdash
      | Some t \<Rightarrow>
          (case date_parse t of
             None \<Rightarrow> ''NaNd ago''
           | Some at \<Rightarrow>
               let diff = now - at in
               if diff < 60000 then int_str (round_div diff 1000) @ ''s ago''
               else if diff < 3600000 then int_str (round_div diff 60000) @ ''m ago''
               else if diff < 86400000 then int_str (round_div diff 3600000) @ ''h ago''
               else int_str (round_div diff 86400000) @ ''d ago''))"

definition duration :: "string \<Rightarrow> string option \<Rightarrow> string" where
  "duration started completed =
     (case truthy completed of None \<Rightarrow> u_emdash | Some t \<Rightarrow> elapsed_text (ms_between started t))"

definition stageOf :: "pipeline_summary \<Rightarrow> stage" where
  "stageOf p = deriveStage (ps_status p) (ps_environment p)"

definition pipelineName :: "pipeline_summary \<Rightarrow> string" where
  "pipelineName p = or_else (map_option js_trim (ps_name p)) (or_else (Some (ps_pipeline_key p)) ''Untitled pipeline'')"

definition triggerLabel :: "trigger option \<Rightarrow> string" where
  "triggerLabel t =
     (case t of
        None \<Rightarrow> ''Manual''
      | Some Manual \<Rightarrow> ''Manual''
      | Some (Cron c) \<Rightarrow> ''Cron '' @ u_middot @ '' '' @ c
      | Some (Webhook _ _) \<Rightarrow> ''Webhook''
      | Some (Event _) \<Rightarrow> ''event''
      | Some (AssetTrigger _) \<Rightarrow> ''asset'')"

definition triggerTypeLabel :: "string option \<Rightarrow> string" where
  "triggerTypeLabel type =
     (case truthy type of
        None \<Rightarrow> ''Manual''
      | Some t \<Rightarrow>
          if t = ''manual'' then ''Manual'' else if t = ''cron'' then ''Cron'' else if t = ''webhook'' then ''Webhook'' else t)"

text \<open>A node of a definition as this page reads it: it asks for a property \<open>nodeType\<close>.\<close>

record topology_node =
  tn_activityType :: string
  tn_nodeType :: "string option"

definition pipelineNodes :: "topology_node list option \<Rightarrow> topology_node list" where
  "pipelineNodes nodes =
     (case nodes of
        None \<Rightarrow> []
      | Some ns \<Rightarrow> take 4 (filter (\<lambda>n. tn_activityType n \<noteq> [] \<and> tn_nodeType n \<noteq> Some ''fork'' \<and> tn_nodeType n \<noteq> Some ''merge'') ns))"

text \<open>A saved node carries its kind in \<open>type\<close>, not in \<open>nodeType\<close>.\<close>

definition topology_of :: "saved_node \<Rightarrow> topology_node" where
  "topology_of n = \<lparr>tn_activityType = sn_activityType n, tn_nodeType = None\<rparr>"

fun stage_label :: "stage \<Rightarrow> string" where
  "stage_label Draft = ''Draft''"
| "stage_label Testing = ''Integration''"
| "stage_label Production = ''Production''"
| "stage_label Archived = ''Archived''"

text \<open>Per stage the classes of the bar before a row and of the badge.\<close>

definition STAGE_CFG :: "stage \<Rightarrow> string \<times> string" where
  "STAGE_CFG s =
     (case s of
        Draft \<Rightarrow> (''bg-amber-400/40'',
          ''bg-amber-50 border-amber-200 text-amber-700 dark:bg-amber-500/15 dark:border-amber-500/25 dark:text-amber-300'')
      | Testing \<Rightarrow> (''bg-blue-400/60'',
          ''bg-blue-50 border-blue-200 text-blue-700 dark:bg-blue-500/15 dark:border-blue-500/25 dark:text-blue-300'')
      | Production \<Rightarrow> (''bg-emerald-400/70'',
          ''bg-emerald-50 border-emerald-200 text-emerald-700 dark:bg-emerald-500/15 dark:border-emerald-500/25 dark:text-emerald-300'')
      | Archived \<Rightarrow> (''bg-gray-300/60'',
          ''bg-gray-50 border-gray-200 text-gray-400 dark:bg-white/5 dark:border-white/10 dark:text-white/35''))"

definition run_label :: "string option \<Rightarrow> string" where
  "run_label phase =
     (if phase = Some ''completed'' then ''Success'' else if phase = Some ''failed'' then ''Failed''
      else if phase = Some ''running'' then ''Running'' else ''Never run'')"

datatype dot = EmeraldDot | RedDot | PulsingDot | GrayDot

definition run_dot :: "string option \<Rightarrow> dot" where
  "run_dot phase =
     (if phase = Some ''completed'' then EmeraldDot else if phase = Some ''failed'' then RedDot
      else if phase = Some ''running'' then PulsingDot else GrayDot)"

section \<open>The drawer\<close>

record pipeline_drawer =
  dr_runs :: "pipeline_execution list"
  dr_definition :: "(trigger option \<times> topology_node list option) option"

definition drawer_opened :: pipeline_drawer where
  "drawer_opened = \<lparr>dr_runs = [], dr_definition = None\<rparr>"

definition drawer_runs :: "string + pipeline_execution list \<Rightarrow> pipeline_drawer \<Rightarrow> pipeline_drawer" where
  "drawer_runs answer st = (case answer of Inr rs \<Rightarrow> st\<lparr>dr_runs := rs\<rparr> | Inl _ \<Rightarrow> st)"

definition drawer_definition :: "string + (trigger option \<times> topology_node list option) option \<Rightarrow> pipeline_drawer \<Rightarrow> pipeline_drawer" where
  "drawer_definition answer st = (case answer of Inr def \<Rightarrow> st\<lparr>dr_definition := def\<rparr> | Inl _ \<Rightarrow> st)"

definition successRate :: "pipeline_drawer \<Rightarrow> int option" where
  "successRate st =
     (if dr_runs st = [] then None
      else Some (percent_of (length (filter (\<lambda>r. px_phase r = ''completed'') (dr_runs st))) (length (dr_runs st))))"

definition drawer_subtitle :: "pipeline_summary \<Rightarrow> pipeline_drawer \<Rightarrow> string" where
  "drawer_subtitle p st =
     ''v'' @ int_str (ps_version p) @ '' '' @ u_middot @ '' ''
       @ (case dr_definition st of Some (t, _) \<Rightarrow> triggerLabel t | None \<Rightarrow> triggerTypeLabel (ps_trigger_type p))"

text \<open>The three figures, with the mark of a good rate.\<close>

definition drawer_stats :: "int \<Rightarrow> pipeline_summary \<Rightarrow> pipeline_drawer \<Rightarrow> (string \<times> string \<times> bool) list" where
  "drawer_stats now p st =
     [(case successRate st of Some r \<Rightarrow> int_str r @ ''%'' | None \<Rightarrow> u_emdash, ''Success rate'',
       case successRate st of Some r \<Rightarrow> r \<ge> 80 | None \<Rightarrow> False),
      (nat_str (length (dr_runs st)), ''Runs (recent)'', False),
      (case truthy (ps_last_run_at p) of Some t \<Rightarrow> reltime now (Some t) | None \<Rightarrow> u_emdash, ''Last run'', False)]"

definition u_check :: string where "u_check = [CHR 0xE2, CHR 0x9C, CHR 0x93]"
definition u_cross :: string where "u_cross = [CHR 0xE2, CHR 0x9C, CHR 0x95]"
definition u_cycle :: string where "u_cycle = [CHR 0xE2, CHR 0x86, CHR 0xBB]"

text \<open>A line of the run list: mark, time, rows, error, duration.\<close>

definition drawer_run_line :: "(int \<Rightarrow> string) \<Rightarrow> int \<Rightarrow> pipeline_execution \<Rightarrow> string list" where
  "drawer_run_line locale_number now r =
     [if px_phase r = ''completed'' then u_check else if px_phase r = ''failed'' then u_cross else u_cycle,
      reltime now (Some (px_started_at r))]
     @ (case px_record_count r of Some c \<Rightarrow> [locale_number c @ '' rows''] | None \<Rightarrow> [])
     @ (case truthy (px_error r) of Some e \<Rightarrow> [e] | None \<Rightarrow> [])
     @ [duration (px_started_at r) (px_completed_at r)]"

definition drawer_run_list :: "(int \<Rightarrow> string) \<Rightarrow> int \<Rightarrow> pipeline_drawer \<Rightarrow> string + string list list" where
  "drawer_run_list locale_number now st =
     (if dr_runs st = [] then Inl ''No runs yet'' else Inr (map (drawer_run_line locale_number now) (dr_runs st)))"

text \<open>The buttons of the drawer. The answer to a run that was asked for, or its refusal, changes nothing on the page.\<close>

datatype drawer_action = EditPipeline string | RunPipeline string | BackfillPipeline string

definition drawer_buttons :: "pipeline_summary \<Rightarrow> (string \<times> drawer_action) list" where
  "drawer_buttons p =
     [(''Edit'', EditPipeline (ps_id p)), (''Run now'', RunPipeline (ps_id p)), (''Backfill'', BackfillPipeline (ps_id p))]"

definition run_now_answer :: "string + string \<Rightarrow> pipeline_drawer \<Rightarrow> pipeline_drawer" where
  "run_now_answer out st = st"

text \<open>The nodes of the drawer: colour and label of each, and whether an arrow follows.\<close>

definition topology_chip :: "(string \<Rightarrow> catalog_entry option) \<Rightarrow> topology_node \<Rightarrow> string \<times> string" where
  "topology_chip byType n =
     (case byType (tn_activityType n) of
        Some entry \<Rightarrow> (ce_color entry, ce_label entry)
      | None \<Rightarrow> (''#7c6cf2'', tn_activityType n))"

definition topology_row :: "(string \<Rightarrow> catalog_entry option) \<Rightarrow> pipeline_drawer \<Rightarrow> ((string \<times> string) \<times> bool) list" where
  "topology_row byType st =
     (let nodes = pipelineNodes (Option.bind (dr_definition st) snd); n = length nodes in
      map (\<lambda>i. (topology_chip byType (nodes ! i), i < n - 1)) [0..<n])"

definition drawer_title :: "pipeline_summary \<Rightarrow> string list" where
  "drawer_title p = [pipelineName p, stage_label (stageOf p)]"

text \<open>The tone of the mark before a run: every phase that is neither a success nor a failure is blue, as a run in progress.\<close>

datatype run_tone = GreenMark | RedMark | BlueMark

definition run_mark_tone :: "pipeline_execution \<Rightarrow> run_tone" where
  "run_mark_tone r = (if px_phase r = ''completed'' then GreenMark else if px_phase r = ''failed'' then RedMark else BlueMark)"

text \<open>The tabs: there is one, so the text for the others is never drawn.\<close>

definition drawer_tabs :: "string \<Rightarrow> (string \<times> bool) list" where
  "drawer_tabs tab = map (\<lambda>t. (t, tab = t)) [''runs'']"

definition drawer_body :: "(int \<Rightarrow> string) \<Rightarrow> int \<Rightarrow> string \<Rightarrow> pipeline_drawer \<Rightarrow> (string + (run_tone \<times> string list) list) list" where
  "drawer_body locale_number now tab st =
     (if tab = ''runs''
      then [if dr_runs st = [] then Inl ''No runs yet''
            else Inr (map (\<lambda>r. (run_mark_tone r, drawer_run_line locale_number now r)) (dr_runs st))]
      else [])
     @ (if tab \<noteq> ''runs'' then [Inl ''Coming soon''] else [])"

text \<open>The drawer as it is drawn, from the top to the bottom.\<close>

record drawer_parts =
  dp_title :: "string list"
  dp_badge :: string
  dp_subtitle :: string
  dp_buttons :: "(string \<times> drawer_action) list"
  dp_stats :: "(string \<times> string \<times> bool) list"
  dp_tabs :: "(string \<times> bool) list"
  dp_body :: "(string + (run_tone \<times> string list) list) list"
  dp_topology :: "((string \<times> string) \<times> bool) list option"

definition PipelineDrawer ::
  "(string \<Rightarrow> catalog_entry option) \<Rightarrow> (int \<Rightarrow> string) \<Rightarrow> int \<Rightarrow> pipeline_summary \<Rightarrow> string \<Rightarrow> pipeline_drawer \<Rightarrow> drawer_parts" where
  "PipelineDrawer byType locale_number now p tab st =
     \<lparr>dp_title = drawer_title p, dp_badge = snd (STAGE_CFG (stageOf p)), dp_subtitle = drawer_subtitle p st,
      dp_buttons = drawer_buttons p, dp_stats = drawer_stats now p st, dp_tabs = drawer_tabs tab,
      dp_body = drawer_body locale_number now tab st,
      dp_topology = (let row = topology_row byType st in if row = [] then None else Some row)\<rparr>"

section \<open>The list: state and requests\<close>

datatype stage_filter = AllStages | ProductionOnly | IntegrationOnly | DraftOnly
datatype trigger_filter = AllTriggers | CronOnly | ManualOnly | WebhookOnly

fun filter_key :: "stage_filter \<Rightarrow> string" where
  "filter_key AllStages = ''all''"
| "filter_key ProductionOnly = ''production''"
| "filter_key IntegrationOnly = ''integration''"
| "filter_key DraftOnly = ''draft''"

fun trigger_key :: "trigger_filter \<Rightarrow> string" where
  "trigger_key AllTriggers = ''all''"
| "trigger_key CronOnly = ''cron''"
| "trigger_key ManualOnly = ''manual''"
| "trigger_key WebhookOnly = ''webhook''"

text \<open>The buttons of the toolbar with the label each has.\<close>

definition FILTERS :: "(stage_filter \<times> string) list" where
  "FILTERS = [(AllStages, ''All''), (ProductionOnly, ''Production''), (IntegrationOnly, ''Integration''), (DraftOnly, ''Draft'')]"

definition TRIGGER_FILTERS :: "(trigger_filter \<times> string) list" where
  "TRIGGER_FILTERS = [(AllTriggers, ''All triggers''), (CronOnly, ''Cron''), (ManualOnly, ''Manual''), (WebhookOnly, ''Webhook'')]"

definition STAGE_PARAM :: "(string \<times> string) list" where
  "STAGE_PARAM = [(''production'', ''production''), (''integration'', ''testing''), (''draft'', ''draft'')]"

record pipeline_query =
  pq_search :: "string option"
  pq_stage :: "string option"
  pq_trigger :: "string option"

text \<open>A request that has no answer yet, with what its callbacks captured; \<open>lr_cursor\<close> is \<open>None\<close> for a
  \<open>load\<close>.\<close>

record list_request =
  lr_generation :: nat
  lr_signature :: string
  lr_query :: pipeline_query
  lr_cursor :: "string option"

record pipelines_page =
  pl_rows :: "pipeline_summary list"
  pl_nextCursor :: "string option"
  pl_loading :: bool
  pl_loadingMore :: bool
  pl_error :: "string option"
  pl_filter :: stage_filter
  pl_triggerFilter :: trigger_filter
  pl_failedOnly :: bool
  pl_search :: string
  pl_debouncedSearch :: string
  pl_selected :: "pipeline_summary option"
  pl_timer :: "string option"
  pl_generation :: nat
  pl_sent :: "list_request list"

definition initial_list :: pipelines_page where
  "initial_list = \<lparr>pl_rows = [], pl_nextCursor = None, pl_loading = True, pl_loadingMore = False, pl_error = None,
     pl_filter = AllStages, pl_triggerFilter = AllTriggers, pl_failedOnly = False, pl_search = '''', pl_debouncedSearch = '''',
     pl_selected = None, pl_timer = None, pl_generation = 0, pl_sent = []\<rparr>"

definition queryParams :: "pipelines_page \<Rightarrow> pipeline_query" where
  "queryParams st =
     \<lparr>pq_search = truthy (Some (pl_debouncedSearch st)), pq_stage = map_of STAGE_PARAM (filter_key (pl_filter st)),
      pq_trigger = (if pl_triggerFilter st = AllTriggers then None else Some (trigger_key (pl_triggerFilter st)))\<rparr>"

definition querySignature :: "pipelines_page \<Rightarrow> string" where
  "querySignature st =
     filter_key (pl_filter st) @ [CHR 0x00] @ trigger_key (pl_triggerFilter st) @ [CHR 0x00] @ pl_debouncedSearch st"

text \<open>A request with the present generation and signature.\<close>

definition request_for :: "string option \<Rightarrow> pipelines_page \<Rightarrow> list_request" where
  "request_for cursor st = \<lparr>lr_generation = pl_generation st, lr_signature = querySignature st, lr_query = queryParams st, lr_cursor = cursor\<rparr>"

definition load :: "pipelines_page \<Rightarrow> pipelines_page" where
  "load st =
     (let st1 = st\<lparr>pl_generation := Suc (pl_generation st)\<rparr> in
      st1\<lparr>pl_loading := True, pl_loadingMore := False, pl_error := None, pl_nextCursor := None,
          pl_sent := pl_sent st1 @ [request_for None st1]\<rparr>)"

text \<open>The effect on a change of the query: its clean-up, then \<open>load\<close>.\<close>

definition reload :: "pipelines_page \<Rightarrow> pipelines_page" where
  "reload st = load (st\<lparr>pl_generation := Suc (pl_generation st)\<rparr>)"

definition loadMore :: "pipelines_page \<Rightarrow> pipelines_page" where
  "loadMore st =
     (case truthy (pl_nextCursor st) of
        None \<Rightarrow> st
      | Some c \<Rightarrow>
          let st1 = st\<lparr>pl_generation := Suc (pl_generation st)\<rparr> in
          st1\<lparr>pl_loadingMore := True, pl_sent := pl_sent st1 @ [request_for (Some c) st1]\<rparr>)"

definition current_request :: "list_request \<Rightarrow> pipelines_page \<Rightarrow> bool" where
  "current_request r st \<longleftrightarrow> lr_generation r = pl_generation st \<and> lr_signature r = querySignature st"

text \<open>The answer to the request \<open>r\<close>.\<close>

definition list_answer :: "list_request \<Rightarrow> string + (pipeline_summary list \<times> string option) \<Rightarrow> pipelines_page \<Rightarrow> pipelines_page" where
  "list_answer r out st =
     (let st1 = st\<lparr>pl_sent := remove1 r (pl_sent st)\<rparr> in
      if \<not> current_request r st then st1
      else
        let st2 = (case out of
              Inr (rows, next) \<Rightarrow>
                st1\<lparr>pl_rows := (case lr_cursor r of None \<Rightarrow> rows | Some _ \<Rightarrow> pl_rows st @ rows), pl_nextCursor := next\<rparr>
            | Inl e \<Rightarrow> st1\<lparr>pl_error := Some e\<rparr>)
        in case lr_cursor r of None \<Rightarrow> st2\<lparr>pl_loading := False\<rparr> | Some _ \<Rightarrow> st2\<lparr>pl_loadingMore := False\<rparr>)"

text \<open>The effect runs when the filter, the trigger or the delayed search has changed.\<close>

definition with_effect :: "pipelines_page \<Rightarrow> pipelines_page \<Rightarrow> pipelines_page" where
  "with_effect old new =
     (if pl_filter new = pl_filter old \<and> pl_triggerFilter new = pl_triggerFilter old
         \<and> pl_debouncedSearch new = pl_debouncedSearch old then new else reload new)"

definition setFilter :: "stage_filter \<Rightarrow> pipelines_page \<Rightarrow> pipelines_page" where
  "setFilter f st = with_effect st (st\<lparr>pl_filter := f\<rparr>)"

definition setTriggerFilter :: "trigger_filter \<Rightarrow> pipelines_page \<Rightarrow> pipelines_page" where
  "setTriggerFilter t st = with_effect st (st\<lparr>pl_triggerFilter := t\<rparr>)"

text \<open>Typing restarts the 300 ms timer with the trimmed text.\<close>

definition setSearch :: "string \<Rightarrow> pipelines_page \<Rightarrow> pipelines_page" where
  "setSearch s st = (if s = pl_search st then st else st\<lparr>pl_search := s, pl_timer := Some (js_trim s)\<rparr>)"

definition timer_fired :: "pipelines_page \<Rightarrow> pipelines_page" where
  "timer_fired st =
     (case pl_timer st of None \<Rightarrow> st | Some s \<Rightarrow> with_effect st (st\<lparr>pl_timer := None, pl_debouncedSearch := s\<rparr>))"

definition clearFilters :: "pipelines_page \<Rightarrow> pipelines_page" where
  "clearFilters st =
     setSearch '''' (with_effect st (st\<lparr>pl_filter := AllStages, pl_triggerFilter := AllTriggers, pl_failedOnly := False\<rparr>))"

definition toggleFailedOnly :: "pipelines_page \<Rightarrow> pipelines_page" where
  "toggleFailedOnly st = st\<lparr>pl_failedOnly := \<not> pl_failedOnly st\<rparr>"

definition toggleSelected :: "pipeline_summary \<Rightarrow> pipelines_page \<Rightarrow> pipelines_page" where
  "toggleSelected p st =
     st\<lparr>pl_selected := (if map_option ps_id (pl_selected st) = Some (ps_id p) then None else Some p)\<rparr>"

definition visible :: "pipelines_page \<Rightarrow> pipeline_summary list" where
  "visible st = (if pl_failedOnly st then filter (\<lambda>p. ps_last_run_phase p = Some ''failed'') (pl_rows st) else pl_rows st)"

datatype list_view = LoadingView | ErrorView string | NoPipelinesYet | NoMatches | RowsOnly

definition list_notice :: "pipelines_page \<Rightarrow> list_view" where
  "list_notice st =
     (if pl_loading st then LoadingView
      else case truthy (pl_error st) of
          Some e \<Rightarrow> ErrorView e
        | None \<Rightarrow>
            if visible st \<noteq> [] then RowsOnly
            else if pl_rows st = [] \<and> pl_filter st = AllStages \<and> pl_triggerFilter st = AllTriggers \<and> pl_debouncedSearch st = []
            then NoPipelinesYet else NoMatches)"

definition drawn_rows :: "pipelines_page \<Rightarrow> pipeline_summary list" where
  "drawn_rows st = (if truthy (pl_error st) = None then visible st else [])"

definition row_line :: "int \<Rightarrow> pipeline_summary \<Rightarrow> string list" where
  "row_line now p =
     [pipelineName p, triggerTypeLabel (ps_trigger_type p), stage_label (stageOf p), run_label (ps_last_run_phase p),
      reltime now (ps_last_run_at p)]"

definition list_footer :: "pipelines_page \<Rightarrow> string" where
  "list_footer st = plural (length (visible st)) ''pipeline'' @ '' loaded''"

text \<open>The rows of filters: every button with the mark of the chosen one.\<close>

definition stage_buttons :: "pipelines_page \<Rightarrow> (string \<times> bool) list" where
  "stage_buttons st = map (\<lambda>(key, label). (label, pl_filter st = key)) FILTERS"

definition trigger_buttons :: "pipelines_page \<Rightarrow> (string \<times> bool) list" where
  "trigger_buttons st = map (\<lambda>(key, label). (label, pl_triggerFilter st = key)) TRIGGER_FILTERS"

text \<open>The button under the list, shown while there is a next page: its text and whether it is locked.\<close>

definition more_button :: "pipelines_page \<Rightarrow> (string \<times> bool) option" where
  "more_button st =
     map_option (\<lambda>_. (if pl_loadingMore st then ''Loading'' @ u_ellipsis else ''Load more'', pl_loadingMore st))
       (truthy (pl_nextCursor st))"

definition closeDrawer :: "pipelines_page \<Rightarrow> pipelines_page" where
  "closeDrawer st = st\<lparr>pl_selected := None\<rparr>"

text \<open>The dots of the buttons of stages, and the switch for failures: tone of its text and place of its knob in pixels.\<close>

fun filter_dot :: "stage_filter \<Rightarrow> string option" where
  "filter_dot AllStages = None"
| "filter_dot ProductionOnly = Some ''bg-emerald-400''"
| "filter_dot IntegrationOnly = Some ''bg-blue-400''"
| "filter_dot DraftOnly = Some ''bg-amber-400''"

definition failed_switch :: "pipelines_page \<Rightarrow> bool \<times> string \<times> string" where
  "failed_switch st =
     (pl_failedOnly st, ''Only show last-run failures'', if pl_failedOnly st then ''left-[15px]'' else ''left-0.5'')"

text \<open>A row: mark of the selection, bar, badge, dot of the last run, and its words.\<close>

definition list_row :: "int \<Rightarrow> pipelines_page \<Rightarrow> pipeline_summary \<Rightarrow> bool \<times> string \<times> string \<times> dot \<times> string list" where
  "list_row now st p =
     (map_option ps_id (pl_selected st) = Some (ps_id p), fst (STAGE_CFG (stageOf p)), snd (STAGE_CFG (stageOf p)),
      run_dot (ps_last_run_phase p), row_line now p)"

text \<open>The lines and the button of a notice. The message of an error goes to \<open>ApiError\<close>, which reads it (\<open>AuthPages.shown_error\<close>); its
  button loads again, that of an empty list opens the editor, that of an empty selection clears the filters.\<close>

datatype notice_action = RetryLoad | OpenEditor | ClearFilters

fun notice_lines :: "list_view \<Rightarrow> string list \<times> (string \<times> notice_action) option" where
  "notice_lines LoadingView = ([''Loading'' @ u_ellipsis], None)"
| "notice_lines (ErrorView e) = ([e], Some (''Retry'', RetryLoad))"
| "notice_lines NoPipelinesYet =
     ([''No pipelines yet. Create one to run your first data flow.''], Some (''Create pipeline'', OpenEditor))"
| "notice_lines NoMatches = ([''No pipelines match these filters.''], Some (''Clear filters'', ClearFilters))"
| "notice_lines RowsOnly = ([], None)"

record list_parts =
  lp_stages :: "(string option \<times> string \<times> bool) list"
  lp_search :: string
  lp_triggers :: "(string \<times> bool) list"
  lp_failed :: "bool \<times> string \<times> string"
  lp_notice :: "string list \<times> (string \<times> notice_action) option"
  lp_rows :: "(bool \<times> string \<times> string \<times> dot \<times> string list) list"
  lp_footer :: string
  lp_more :: "(string \<times> bool) option"
  lp_drawer :: "pipeline_summary option"

definition list_screen :: "int \<Rightarrow> pipelines_page \<Rightarrow> list_parts" where
  "list_screen now st =
     \<lparr>lp_stages = map (\<lambda>(key, label). (filter_dot key, label, pl_filter st = key)) FILTERS, lp_search = pl_search st,
      lp_triggers = trigger_buttons st, lp_failed = failed_switch st, lp_notice = notice_lines (list_notice st),
      lp_rows = map (list_row now st) (drawn_rows st), lp_footer = list_footer st, lp_more = more_button st,
      lp_drawer = pl_selected st\<rparr>"

section \<open>The drawer in time\<close>

text \<open>
  The drawer carries the id of its pipeline as its key: another selection unmounts it and mounts a new one, whose two
  effects ask for the runs and the definition. A mounted drawer is named by the number of its mount; the answer to an
  unmounted one changes nothing.
\<close>

record drawer_screen =
  ds_page :: pipelines_page
  ds_mounts :: nat
  ds_drawer :: "(nat \<times> pipeline_drawer) option"
  ds_asked :: "(nat \<times> string) list"

definition ds_initial :: drawer_screen where
  "ds_initial = \<lparr>ds_page = initial_list, ds_mounts = 0, ds_drawer = None, ds_asked = []\<rparr>"

definition ds_render :: "pipelines_page \<Rightarrow> drawer_screen \<Rightarrow> drawer_screen" where
  "ds_render pg s =
     (if map_option ps_id (pl_selected pg) = map_option ps_id (pl_selected (ds_page s)) then s\<lparr>ds_page := pg\<rparr>
      else case pl_selected pg of
          None \<Rightarrow> s\<lparr>ds_page := pg, ds_drawer := None\<rparr>
        | Some p \<Rightarrow> s\<lparr>ds_page := pg, ds_mounts := Suc (ds_mounts s), ds_drawer := Some (ds_mounts s, drawer_opened),
            ds_asked := (ds_mounts s, ps_id p) # ds_asked s\<rparr>)"

definition ds_runs :: "nat \<Rightarrow> string + pipeline_execution list \<Rightarrow> drawer_screen \<Rightarrow> drawer_screen" where
  "ds_runs n answer s =
     (case ds_drawer s of
        Some (m, d) \<Rightarrow> if m = n then s\<lparr>ds_drawer := Some (m, drawer_runs answer d)\<rparr> else s
      | None \<Rightarrow> s)"

definition ds_definition :: "nat \<Rightarrow> string + (trigger option \<times> topology_node list option) option \<Rightarrow> drawer_screen \<Rightarrow> drawer_screen" where
  "ds_definition n answer s =
     (case ds_drawer s of
        Some (m, d) \<Rightarrow> if m = n then s\<lparr>ds_drawer := Some (m, drawer_definition answer d)\<rparr> else s
      | None \<Rightarrow> s)"

text \<open>The user changes the page in any way; the server answers any request, in any order, with what it holds for the
  pipeline that was asked for, or refuses.\<close>

inductive drawer_reach ::
  "(string \<Rightarrow> pipeline_execution list) \<Rightarrow> (string \<Rightarrow> (trigger option \<times> topology_node list option) option) \<Rightarrow> drawer_screen \<Rightarrow> bool"
  for runs defs where
  at_start: "drawer_reach runs defs ds_initial"
| rendered: "drawer_reach runs defs s \<Longrightarrow> drawer_reach runs defs (ds_render pg s)"
| runs_come: "drawer_reach runs defs s \<Longrightarrow> (n, pid) \<in> set (ds_asked s) \<Longrightarrow> drawer_reach runs defs (ds_runs n (Inr (runs pid)) s)"
| runs_fail: "drawer_reach runs defs s \<Longrightarrow> drawer_reach runs defs (ds_runs n (Inl e) s)"
| definition_comes:
    "drawer_reach runs defs s \<Longrightarrow> (n, pid) \<in> set (ds_asked s) \<Longrightarrow> drawer_reach runs defs (ds_definition n (Inr (defs pid)) s)"
| definition_fails: "drawer_reach runs defs s \<Longrightarrow> drawer_reach runs defs (ds_definition n (Inl e) s)"

definition asked_once :: "drawer_screen \<Rightarrow> bool" where
  "asked_once s \<longleftrightarrow> distinct (map fst (ds_asked s)) \<and> (\<forall>(n, pid) \<in> set (ds_asked s). n < ds_mounts s)"

definition drawer_of_selected ::
  "(string \<Rightarrow> pipeline_execution list) \<Rightarrow> (string \<Rightarrow> (trigger option \<times> topology_node list option) option) \<Rightarrow> drawer_screen \<Rightarrow> bool" where
  "drawer_of_selected runs defs s \<longleftrightarrow>
     (case (pl_selected (ds_page s), ds_drawer s) of
        (None, None) \<Rightarrow> True
      | (Some p, Some (n, d)) \<Rightarrow> (n, ps_id p) \<in> set (ds_asked s) \<and> dr_runs d \<in> {[], runs (ps_id p)}
          \<and> dr_definition d \<in> {None, defs (ps_id p)}
      | _ \<Rightarrow> False)"

lemma asked_once_unique:
  "asked_once s \<Longrightarrow> (n, a) \<in> set (ds_asked s) \<Longrightarrow> (n, b) \<in> set (ds_asked s) \<Longrightarrow> a = b"
  by (auto simp: asked_once_def dest: eq_key_imp_eq_value)

lemma ds_answers_keep [simp]:
  "ds_page (ds_runs n answer s) = ds_page s" "ds_asked (ds_runs n answer s) = ds_asked s" "ds_mounts (ds_runs n answer s) = ds_mounts s"
  "ds_page (ds_definition n a s) = ds_page s" "ds_asked (ds_definition n a s) = ds_asked s" "ds_mounts (ds_definition n a s) = ds_mounts s"
  by (auto simp: ds_runs_def ds_definition_def split: option.splits)

lemma reach_asked_once: "drawer_reach runs defs s \<Longrightarrow> asked_once s"
proof (induction rule: drawer_reach.induct)
  case at_start
  then show ?case by (simp add: asked_once_def ds_initial_def)
next
  case (rendered s pg)
  then show ?case by (fastforce simp: asked_once_def ds_render_def split: option.splits)
qed (simp_all add: asked_once_def)

lemma runs_answer_kept:
  assumes "drawer_of_selected runs defs s" and "\<And>pid rs. (n, pid) \<in> set (ds_asked s) \<Longrightarrow> answer = Inr rs \<Longrightarrow> rs = runs pid"
  shows "drawer_of_selected runs defs (ds_runs n answer s)"
  using assms
  by (cases "pl_selected (ds_page s)"; cases "ds_drawer s"; cases answer)
    (simp_all add: drawer_of_selected_def ds_runs_def drawer_runs_def split_beta, metis+)

lemma definition_answer_kept:
  assumes "drawer_of_selected runs defs s" and "\<And>pid d. (n, pid) \<in> set (ds_asked s) \<Longrightarrow> answer = Inr d \<Longrightarrow> d = defs pid"
  shows "drawer_of_selected runs defs (ds_definition n answer s)"
  using assms
  by (cases "pl_selected (ds_page s)"; cases "ds_drawer s"; cases answer)
    (simp_all add: drawer_of_selected_def ds_definition_def drawer_definition_def split_beta, metis+)

text \<open>Whatever the user selects and closes, and in whatever order the answers come, the open drawer of the pipeline list
  shows runs and definition of the pipeline that is selected, or none yet; without a selection there is no drawer.\<close>

theorem drawer_never_stale:
  assumes "drawer_reach runs defs s"
  shows "drawer_of_selected runs defs s"
  using assms
proof (induction rule: drawer_reach.induct)
  case at_start
  then show ?case by (simp add: drawer_of_selected_def ds_initial_def initial_list_def)
next
  case (rendered s pg)
  then show ?case
    by (auto simp: drawer_of_selected_def ds_render_def drawer_opened_def split: option.splits)
next
  case (runs_come s n pid)
  then show ?case by (intro runs_answer_kept) (auto dest: asked_once_unique [OF reach_asked_once])
next
  case (runs_fail s n e)
  then show ?case by (intro runs_answer_kept) auto
next
  case (definition_comes s n pid)
  then show ?case by (intro definition_answer_kept) (auto dest: asked_once_unique [OF reach_asked_once])
next
  case (definition_fails s n e)
  then show ?case by (intro definition_answer_kept) auto
qed

text \<open>At most one row is marked when ids are distinct, and a marked row is the one the drawer speaks of.\<close>

lemma marked_row_has_drawer:
  assumes "distinct (map ps_id (drawn_rows st))" and "p \<in> set (drawn_rows st)" and "q \<in> set (drawn_rows st)"
    and "fst (list_row now st p)" and "fst (list_row now st q)"
  shows "p = q \<and> map_option ps_id (lp_drawer (list_screen now st)) = Some (ps_id p)"
  using assms by (auto simp: list_row_def list_screen_def distinct_map dest: inj_onD)

text \<open>Hiding a row does not close its drawer: with the switch for failures on, the drawer may speak of a pipeline that no row shows.\<close>

lemma hidden_row_keeps_drawer:
  assumes "pl_selected st = Some p" and "ps_last_run_phase p \<noteq> Some ''failed''" and "\<not> pl_failedOnly st"
    and "distinct (map ps_id (pl_rows st))" and "p \<in> set (pl_rows st)"
  shows "lp_drawer (list_screen now (toggleFailedOnly st)) = Some p \<and> (\<forall>r\<in>set (lp_rows (list_screen now (toggleFailedOnly st))). \<not> fst r)"
proof -
  have "ps_id q \<noteq> ps_id p" if "q \<in> set (pl_rows st)" "ps_last_run_phase q = Some ''failed''" for q
    using that assms(2,4,5) by (auto simp: distinct_map dest: inj_onD)
  then have "ps_id p \<noteq> ps_id q" if "q \<in> set (pl_rows st)" "ps_last_run_phase q = Some ''failed''" for q
    using that by metis
  then show ?thesis using assms(1,3)
    by (auto simp: list_screen_def toggleFailedOnly_def list_row_def drawn_rows_def visible_def)
qed

section \<open>What the list promises\<close>

type_synonym list_server = "pipeline_query \<Rightarrow> string option \<Rightarrow> pipeline_summary list \<times> string option"

text \<open>
  The specification: a list holds the first pages of one query, and no other rows. It waits for the answer to the query
  that the filters show and holds meanwhile what it held before, it failed to get that answer, or it shows the first
  pages of that query, one page more after each growth, with \<open>True\<close> for a failed growth that is on display.
\<close>

datatype spec_view = Waiting "pipeline_query \<times> nat" | Failed "pipeline_query \<times> nat" | Showing nat bool

text \<open>The query and the number of the pages that are held.\<close>

fun held :: "pipeline_query \<Rightarrow> spec_view \<Rightarrow> pipeline_query \<times> nat" where
  "held q (Waiting h) = h"
| "held q (Failed h) = h"
| "held q (Showing n e) = (q, n)"

definition held_pages :: "list_server \<Rightarrow> pipeline_query \<times> nat \<Rightarrow> pipeline_summary list" where
  "held_pages server h = fst (first_pages server (fst h) (snd h))"

inductive spec_step :: "list_server \<Rightarrow> pipeline_query \<times> spec_view \<Rightarrow> pipeline_query \<times> spec_view \<Rightarrow> bool" for server where
  Asked: "spec_step server (q, v) (q', Waiting (held q v))"
| Arrived: "spec_step server (q, Waiting h) (q, Showing 1 False)"
| NotArrived: "spec_step server (q, Waiting h) (q, Failed h)"
| Grown: "0 < n \<Longrightarrow> truthy (snd (first_pages server q n)) \<noteq> None \<Longrightarrow> spec_step server (q, Showing n e) (q, Showing (Suc n) e)"
| NotGrown: "0 < n \<Longrightarrow> spec_step server (q, Showing n e) (q, Showing n True)"

inductive list_step :: "list_server \<Rightarrow> pipelines_page \<Rightarrow> pipelines_page \<Rightarrow> bool" for server where
  Filtered: "list_step server st (setFilter f st)"
| Triggered: "list_step server st (setTriggerFilter t st)"
| Typed: "list_step server st (setSearch s st)"
| Fired: "list_step server st (timer_fired st)"
| Cleared: "list_step server st (clearFilters st)"
| Refreshed: "list_step server st (load st)"
| AskedMore: "list_step server st (loadMore st)"
| FailedOnly: "list_step server st (toggleFailedOnly st)"
| Selected: "list_step server st (toggleSelected p st)"
| Closed: "list_step server st (closeDrawer st)"
| Answered: "r \<in> set (pl_sent st) \<Longrightarrow> list_step server st (list_answer r (Inr (server (lr_query r) (lr_cursor r))) st)"
| Refused: "r \<in> set (pl_sent st) \<Longrightarrow> e \<noteq> [] \<Longrightarrow> list_step server st (list_answer r (Inl e) st)"

inductive list_reachable :: "list_server \<Rightarrow> pipelines_page \<Rightarrow> bool" for server where
  Mounted: "list_reachable server (load initial_list)"
| Stepped: "list_reachable server st \<Longrightarrow> list_step server st st' \<Longrightarrow> list_reachable server st'"

text \<open>How a state of the page stands for a state of the specification.\<close>

definition stands :: "list_server \<Rightarrow> pipelines_page \<Rightarrow> spec_view \<Rightarrow> bool" where
  "stands server st v \<longleftrightarrow>
     pl_rows st = held_pages server (held (queryParams st) v)
     \<and> (case v of
          Waiting h \<Rightarrow> pl_loading st \<and> pl_error st = None \<and> pl_nextCursor st = None
        | Failed h \<Rightarrow> \<not> pl_loading st \<and> truthy (pl_error st) \<noteq> None \<and> pl_nextCursor st = None
        | Showing n e \<Rightarrow> 0 < n \<and> \<not> pl_loading st \<and> (truthy (pl_error st) \<noteq> None) = e
            \<and> pl_nextCursor st = snd (first_pages server (queryParams st) n))"

text \<open>The requests under way: at most one counts, and it is the one the page waits for.\<close>

definition sent_inv :: "pipelines_page \<Rightarrow> bool" where
  "sent_inv st \<longleftrightarrow> distinct (map lr_generation (pl_sent st))
     \<and> (\<forall>r \<in> set (pl_sent st). lr_generation r \<le> pl_generation st)
     \<and> (\<forall>r \<in> set (pl_sent st). lr_generation r = pl_generation st \<longrightarrow>
          lr_query r = queryParams st \<and> lr_signature r = querySignature st
          \<and> (case lr_cursor r of None \<Rightarrow> pl_loading st | Some c \<Rightarrow> \<not> pl_loading st \<and> truthy (pl_nextCursor st) = Some c))
     \<and> (pl_loading st \<longrightarrow> (\<exists>r \<in> set (pl_sent st). lr_generation r = pl_generation st \<and> lr_cursor r = None))"

text \<open>The parts of the state that the two relations look at.\<close>

definition same_list :: "pipelines_page \<Rightarrow> pipelines_page \<Rightarrow> bool" where
  "same_list a b \<longleftrightarrow> pl_rows a = pl_rows b \<and> pl_nextCursor a = pl_nextCursor b \<and> pl_loading a = pl_loading b
     \<and> pl_error a = pl_error b \<and> pl_filter a = pl_filter b \<and> pl_triggerFilter a = pl_triggerFilter b
     \<and> pl_debouncedSearch a = pl_debouncedSearch b \<and> pl_generation a = pl_generation b \<and> pl_sent a = pl_sent b"

lemma same_list_query: "same_list a b \<Longrightarrow> queryParams a = queryParams b \<and> querySignature a = querySignature b"
  by (simp add: same_list_def queryParams_def querySignature_def)

lemma same_list_stands: "same_list a b \<Longrightarrow> stands server a v = stands server b v"
  using same_list_query[of a b] by (simp add: same_list_def stands_def split: spec_view.split)

lemma same_list_inv: "same_list a b \<Longrightarrow> sent_inv a = sent_inv b"
  using same_list_query[of a b] by (simp add: same_list_def sent_inv_def cong: option.case_cong)

lemma sent_inv_sent:
  "sent_inv st \<Longrightarrow> r \<in> set (pl_sent st) \<Longrightarrow> lr_generation r = pl_generation st \<Longrightarrow>
   current_request r st \<and> lr_query r = queryParams st
   \<and> (case lr_cursor r of None \<Rightarrow> pl_loading st | Some c \<Rightarrow> \<not> pl_loading st \<and> truthy (pl_nextCursor st) = Some c)"
  by (simp add: sent_inv_def current_request_def)

text \<open>A \<open>load\<close> from any state whose requests are numbered.\<close>

definition numbered_requests :: "pipelines_page \<Rightarrow> bool" where
  "numbered_requests st \<longleftrightarrow> distinct (map lr_generation (pl_sent st)) \<and> (\<forall>r \<in> set (pl_sent st). lr_generation r \<le> pl_generation st)"

lemma sent_inv_numbered: "sent_inv st \<Longrightarrow> numbered_requests st"
  by (simp add: sent_inv_def numbered_requests_def)

lemma sent_inv_snoc:
  assumes "numbered_requests st" and "pl_generation st' = Suc (pl_generation st)" and "pl_sent st' = pl_sent st @ [r]"
    and "lr_generation r = Suc (pl_generation st)" and "lr_query r = queryParams st'" and "lr_signature r = querySignature st'"
    and "case lr_cursor r of None \<Rightarrow> pl_loading st' | Some c \<Rightarrow> \<not> pl_loading st' \<and> truthy (pl_nextCursor st') = Some c"
  shows "sent_inv st'"
proof -
  have old: "lr_generation x \<le> pl_generation st" if "x \<in> set (pl_sent st)" for x
    using assms(1) that by (simp add: numbered_requests_def)
  have "distinct (map lr_generation (pl_sent st'))"
    using assms(1,3,4) old by (fastforce simp: numbered_requests_def)
  moreover have "lr_generation x \<le> pl_generation st'" if "x \<in> set (pl_sent st')" for x
    using old[of x] that assms(2-4) by auto
  moreover have is_r: "x = r" if "x \<in> set (pl_sent st')" and "lr_generation x = pl_generation st'" for x
    using old[of x] that assms(2,3) by auto
  moreover have "lr_cursor r = None" if "pl_loading st'"
    using assms(7) that by (simp split: option.splits)
  moreover have "lr_query x = queryParams st' \<and> lr_signature x = querySignature st'
      \<and> (case lr_cursor x of None \<Rightarrow> pl_loading st' | Some c \<Rightarrow> \<not> pl_loading st' \<and> truthy (pl_nextCursor st') = Some c)"
    if "x \<in> set (pl_sent st')" and "lr_generation x = pl_generation st'" for x
    unfolding is_r[OF that] using assms(5-7) by blast
  moreover have "r \<in> set (pl_sent st')" "lr_generation r = pl_generation st'" using assms(2-4) by simp_all
  ultimately show ?thesis unfolding sent_inv_def by blast
qed

lemma load_keeps:
  assumes "numbered_requests st"
  shows "sent_inv (load st)" and "pl_rows st = held_pages server h \<Longrightarrow> stands server (load st) (Waiting h)"
    and "queryParams (load st) = queryParams st"
proof -
  have q: "queryParams (load st) = queryParams st" "querySignature (load st) = querySignature st" "pl_rows (load st) = pl_rows st"
    "pl_generation (load st) = Suc (pl_generation st)" "pl_loading (load st)" "pl_error (load st) = None" "pl_nextCursor (load st) = None"
    "pl_sent (load st) = pl_sent st @ [\<lparr>lr_generation = Suc (pl_generation st), lr_signature = querySignature st,
       lr_query = queryParams st, lr_cursor = None\<rparr>]"
    by (simp_all add: load_def queryParams_def querySignature_def request_for_def Let_def)
  show "sent_inv (load st)" by (rule sent_inv_snoc[OF assms q(4) q(8)]) (simp_all add: q)
  show "stands server (load st) (Waiting h)" if "pl_rows st = held_pages server h" using that by (simp add: stands_def q)
  show "queryParams (load st) = queryParams st" by (rule q)
qed

lemma reload_keeps:
  assumes "numbered_requests st"
  shows "sent_inv (reload st)" and "pl_rows st = held_pages server h \<Longrightarrow> stands server (reload st) (Waiting h)"
    and "queryParams (reload st) = queryParams st"
proof -
  have n: "numbered_requests (st\<lparr>pl_generation := Suc (pl_generation st)\<rparr>)"
    using assms by (auto simp: numbered_requests_def le_Suc_eq)
  show "sent_inv (reload st)" "queryParams (reload st) = queryParams st"
    using load_keeps(1,3)[OF n] by (simp_all add: reload_def queryParams_def)
  show "stands server (reload st) (Waiting h)" if "pl_rows st = held_pages server h"
    using load_keeps(2)[OF n] that by (simp add: reload_def)
qed

text \<open>A change of the page is a stutter, or it asks for the list of the new query.\<close>

definition follows :: "list_server \<Rightarrow> pipelines_page \<Rightarrow> spec_view \<Rightarrow> pipelines_page \<Rightarrow> bool" where
  "follows server st v st' \<longleftrightarrow> sent_inv st'
     \<and> (\<exists>v'. (spec_step server)\<^sup>=\<^sup>= (queryParams st, v) (queryParams st', v') \<and> stands server st' v')"

lemma follows_same: "sent_inv st \<Longrightarrow> stands server st v \<Longrightarrow> same_list st' st \<Longrightarrow> follows server st v st'"
  using same_list_query[of st' st] same_list_inv[of st' st] same_list_stands[of st' st server v] by (auto simp: follows_def)

lemma stands_rows: "stands server st v \<Longrightarrow> pl_rows st = held_pages server (held (queryParams st) v)"
  by (simp add: stands_def)

lemma follows_asked: "sent_inv st' \<Longrightarrow> stands server st' (Waiting (held (queryParams st) v)) \<Longrightarrow> follows server st v st'"
  using Asked by (fastforce simp: follows_def)

lemma follows_to:
  "spec_step server (queryParams st, v) (queryParams st, v') \<Longrightarrow> sent_inv st' \<Longrightarrow> queryParams st' = queryParams st \<Longrightarrow>
   stands server st' v' \<Longrightarrow> follows server st v st'"
  by (auto simp: follows_def)

lemma follows_then_same:
  assumes "follows server st v st1" and "same_list st2 st1"
  shows "follows server st v st2"
  using assms(1) same_list_query[OF assms(2)] same_list_inv[OF assms(2)] same_list_stands[OF assms(2)]
  by (simp add: follows_def)

lemma follows_effect:
  assumes "sent_inv st" and "stands server st v" and "numbered_requests st'" and "pl_rows st' = pl_rows st"
    and "pl_filter st' = pl_filter st \<and> pl_triggerFilter st' = pl_triggerFilter st
      \<and> pl_debouncedSearch st' = pl_debouncedSearch st \<Longrightarrow> same_list st' st"
  shows "follows server st v (with_effect st st')"
proof (cases "pl_filter st' = pl_filter st \<and> pl_triggerFilter st' = pl_triggerFilter st \<and> pl_debouncedSearch st' = pl_debouncedSearch st")
  case True
  with assms show ?thesis by (simp add: with_effect_def follows_same)
next
  case False
  then have "with_effect st st' = reload st'" unfolding with_effect_def by (rule if_not_P)
  moreover have "sent_inv (reload st')" "stands server (reload st') (Waiting (held (queryParams st) v))"
    using reload_keeps(1,2)[OF assms(3)] stands_rows[OF assms(2)] assms(4) by simp_all
  ultimately show ?thesis by (simp add: follows_asked)
qed

lemma follows_more:
  assumes "sent_inv st" and "stands server st v"
  shows "follows server st v (loadMore st)"
proof (cases "truthy (pl_nextCursor st)")
  case None
  then show ?thesis using assms by (simp add: loadMore_def follows_same same_list_def)
next
  case (Some c)
  have q: "queryParams (loadMore st) = queryParams st" "querySignature (loadMore st) = querySignature st"
    "pl_generation (loadMore st) = Suc (pl_generation st)" "pl_loading (loadMore st) = pl_loading st"
    "pl_nextCursor (loadMore st) = pl_nextCursor st" "pl_error (loadMore st) = pl_error st" "pl_rows (loadMore st) = pl_rows st"
    "pl_sent (loadMore st) = pl_sent st @ [\<lparr>lr_generation = Suc (pl_generation st), lr_signature = querySignature st,
       lr_query = queryParams st, lr_cursor = Some c\<rparr>]"
    by (simp_all add: loadMore_def Some queryParams_def querySignature_def request_for_def Let_def)
  have idle: "\<not> pl_loading st" using assms(2) Some by (auto simp: stands_def truthy_def split: spec_view.splits)
  have "sent_inv (loadMore st)"
    by (rule sent_inv_snoc[OF sent_inv_numbered[OF assms(1)] q(3) q(8)]) (simp_all add: q idle Some)
  moreover have "stands server (loadMore st) v" using assms(2) by (cases v) (simp_all add: stands_def q)
  ultimately show ?thesis by (auto simp: follows_def q)
qed

lemma answered_stale:
  assumes "sent_inv st" and "r \<in> set (pl_sent st)" and "\<not> current_request r st"
  shows "sent_inv (list_answer r out st)" and "stands server (list_answer r out st) v = stands server st v"
    and "queryParams (list_answer r out st) = queryParams st"
proof -
  have a: "list_answer r out st = st\<lparr>pl_sent := remove1 r (pl_sent st)\<rparr>" using assms(3) by (simp add: list_answer_def)
  have g: "lr_generation r \<noteq> pl_generation st" using sent_inv_sent[OF assms(1,2)] assms(3) by blast
  have d: "distinct (pl_sent st)" using assms(1) by (simp add: sent_inv_def distinct_map)
  have q: "queryParams (st\<lparr>pl_sent := x\<rparr>) = queryParams st" "querySignature (st\<lparr>pl_sent := x\<rparr>) = querySignature st" for x
    by (simp_all add: queryParams_def querySignature_def)
  have "distinct (map lr_generation (remove1 r (pl_sent st)))"
    using assms(1) d by (auto simp: sent_inv_def distinct_map intro: inj_on_subset)
  moreover have "x \<in> set (remove1 r (pl_sent st)) \<longleftrightarrow> x \<in> set (pl_sent st) \<and> x \<noteq> r" for x using d by simp
  ultimately show "sent_inv (list_answer r out st)" using assms(1) g unfolding a by (auto simp: sent_inv_def q cong: option.case_cong)
  show "stands server (list_answer r out st) v = stands server st v" unfolding a by (cases v) (simp_all add: stands_def q)
  show "queryParams (list_answer r out st) = queryParams st" unfolding a by (rule q)
qed

text \<open>After the answer to the request that counts, none is left that does.\<close>

lemma answered_current_inv:
  assumes "sent_inv st" and "r \<in> set (pl_sent st)" and "current_request r st"
    and "pl_sent st' = remove1 r (pl_sent st)" and "pl_generation st' = pl_generation st" and "\<not> pl_loading st'"
  shows "sent_inv st'"
proof -
  have d: "distinct (map lr_generation (pl_sent st))" and ds: "distinct (pl_sent st)"
    using assms(1) by (simp_all add: sent_inv_def distinct_map)
  have x: "x \<in> set (pl_sent st') \<longleftrightarrow> x \<in> set (pl_sent st) \<and> x \<noteq> r" for x using ds assms(4) by simp
  have inj: "inj_on lr_generation (set (pl_sent st))" using d by (simp add: distinct_map)
  have "lr_generation x \<noteq> pl_generation st'" if "x \<in> set (pl_sent st')" for x
  proof
    assume "lr_generation x = pl_generation st'"
    then have "lr_generation x = lr_generation r" using assms(3,5) by (simp add: current_request_def)
    then have "x = r" using inj_onD[OF inj] that x assms(2) by blast
    then show False using that x by simp
  qed
  moreover have "distinct (map lr_generation (pl_sent st'))"
    using d ds by (auto simp: assms(4) distinct_map intro: inj_on_subset)
  moreover have "lr_generation x \<le> pl_generation st'" if "x \<in> set (pl_sent st')" for x
    using assms(1,5) that x by (simp add: sent_inv_def)
  ultimately show ?thesis using assms(6) unfolding sent_inv_def by blast
qed

lemma answer_fields:
  assumes "current_request r st"
  shows "pl_sent (list_answer r out st) = remove1 r (pl_sent st)" "pl_generation (list_answer r out st) = pl_generation st"
    "queryParams (list_answer r out st) = queryParams st"
    "pl_loading (list_answer r out st) = (pl_loading st \<and> lr_cursor r \<noteq> None)"
    "pl_error (list_answer r out st) = (case out of Inl e \<Rightarrow> Some e | Inr _ \<Rightarrow> pl_error st)"
    "pl_nextCursor (list_answer r out st) = (case out of Inl _ \<Rightarrow> pl_nextCursor st | Inr p \<Rightarrow> snd p)"
    "pl_rows (list_answer r out st) = (case out of Inl _ \<Rightarrow> pl_rows st
       | Inr p \<Rightarrow> (case lr_cursor r of None \<Rightarrow> fst p | Some _ \<Rightarrow> pl_rows st @ fst p))"
  using assms by (simp_all add: list_answer_def Let_def queryParams_def split: option.split sum.split prod.split)

lemma follows_answer:
  assumes "sent_inv st" and "stands server st v" and r: "r \<in> set (pl_sent st)"
    and out: "out = Inr (server (lr_query r) (lr_cursor r)) \<or> (\<exists>e. out = Inl e \<and> e \<noteq> [])"
  shows "follows server st v (list_answer r out st)"
proof (cases "current_request r st")
  case False
  from answered_stale[OF assms(1) r False] assms(2) show ?thesis by (auto simp: follows_def)
next
  case True
  note f = answer_fields[OF True]
  have c: "lr_query r = queryParams st"
    "case lr_cursor r of None \<Rightarrow> pl_loading st | Some c \<Rightarrow> \<not> pl_loading st \<and> truthy (pl_nextCursor st) = Some c"
    using sent_inv_sent[OF assms(1) r] True by (simp_all add: current_request_def)
  have inv: "sent_inv (list_answer r out st)"
    using answered_current_inv[OF assms(1) r True] f(1,2,4) c(2) by (cases "lr_cursor r") auto
  show ?thesis
  proof (cases "lr_cursor r")
    case None
    then obtain h where v: "v = Waiting h" using c(2) assms(2) by (cases v) (auto simp: stands_def)
    have w: "pl_error st = None" "pl_nextCursor st = None" "pl_rows st = held_pages server h"
      using assms(2) v by (simp_all add: stands_def)
    from out show ?thesis
    proof
      assume "out = Inr (server (lr_query r) (lr_cursor r))"
      then have "stands server (list_answer r out st) (Showing 1 False)"
        using None c(1) w by (simp add: stands_def held_pages_def f truthy_def)
      then show ?thesis using follows_to[OF Arrived inv f(3)] v by simp
    next
      assume "\<exists>e. out = Inl e \<and> e \<noteq> []"
      then have "stands server (list_answer r out st) (Failed h)"
        using None w by (auto simp: stands_def f truthy_def)
      then show ?thesis using follows_to[OF NotArrived inv f(3)] v by simp
    qed
  next
    case (Some k)
    then obtain n e where v: "v = Showing n e" using c(2) assms(2) by (cases v) (auto simp: stands_def truthy_def)
    have w: "pl_nextCursor st = snd (first_pages server (queryParams st) n)" "0 < n"
      "pl_rows st = fst (first_pages server (queryParams st) n)" "(truthy (pl_error st) \<noteq> None) = e" "\<not> pl_loading st"
      using assms(2) v Some c(2) by (auto simp: stands_def held_pages_def)
    have k: "truthy (snd (first_pages server (queryParams st) n)) = Some k" using c(2) Some w(1) by simp
    from out show ?thesis
    proof
      assume "out = Inr (server (lr_query r) (lr_cursor r))"
      then have "stands server (list_answer r out st) (Showing (Suc n) e)"
        using Some c(1) w first_pages_Suc[OF w(2) k] by (simp add: stands_def held_pages_def f)
      then show ?thesis using follows_to[OF Grown inv f(3)] w(2) k v by simp
    next
      assume "\<exists>e. out = Inl e \<and> e \<noteq> []"
      then have "stands server (list_answer r out st) (Showing n True)"
        using w by (auto simp: stands_def held_pages_def f truthy_def)
      then show ?thesis using follows_to[OF NotGrown inv f(3)] w(2) v by simp
    qed
  qed
qed

lemma list_step_follows:
  assumes "list_step server st st'" and "sent_inv st" and "stands server st v"
  shows "follows server st v st'"
  using assms
proof (induction rule: list_step.induct)
  case (Filtered st f)
  then show ?case unfolding setFilter_def
    by (intro follows_effect) (auto simp: numbered_requests_def same_list_def sent_inv_def)
next
  case (Triggered st t)
  then show ?case unfolding setTriggerFilter_def
    by (intro follows_effect) (auto simp: numbered_requests_def same_list_def sent_inv_def)
next
  case (Typed st s)
  then show ?case by (intro follows_same) (simp_all add: setSearch_def same_list_def)
next
  case (Fired st)
  then show ?case
  proof (cases "pl_timer st")
    case None
    then show ?thesis using Fired by (intro follows_same) (simp_all add: timer_fired_def same_list_def)
  next
    case (Some s)
    show ?thesis using Fired unfolding timer_fired_def Some option.case
      by (intro follows_effect) (auto simp: numbered_requests_def same_list_def sent_inv_def)
  qed
next
  case (Cleared st)
  let ?e = "with_effect st (st\<lparr>pl_filter := AllStages, pl_triggerFilter := AllTriggers, pl_failedOnly := False\<rparr>)"
  have "follows server st v ?e" using Cleared
    by (intro follows_effect) (auto simp: numbered_requests_def same_list_def sent_inv_def)
  moreover have "same_list (setSearch '''' ?e) ?e" by (simp add: setSearch_def same_list_def)
  ultimately show ?case unfolding clearFilters_def by (rule follows_then_same)
next
  case (Refreshed st)
  then show ?case using load_keeps(1,2)[OF sent_inv_numbered] stands_rows by (simp add: follows_asked)
next
  case (AskedMore st)
  then show ?case by (rule follows_more)
next
  case (Answered r st)
  then show ?case by (intro follows_answer) auto
next
  case (Refused r st e)
  then show ?case by (intro follows_answer) auto
qed (auto intro!: follows_same simp: toggleFailedOnly_def toggleSelected_def closeDrawer_def same_list_def)

section \<open>Properties\<close>

lemma list_reachable_stands:
  "list_reachable server st \<Longrightarrow>
   sent_inv st \<and> (\<exists>v. (spec_step server)\<^sup>*\<^sup>* (queryParams initial_list, Waiting (queryParams initial_list, 0)) (queryParams st, v)
     \<and> stands server st v)"
proof (induction rule: list_reachable.induct)
  case Mounted
  have "numbered_requests initial_list" by (simp add: numbered_requests_def initial_list_def)
  from load_keeps(1)[OF this] load_keeps(2)[OF this, of server "(queryParams initial_list, 0)"] load_keeps(3)[OF this]
  show ?case by (intro conjI exI[of _ "Waiting (queryParams initial_list, 0)"]) (simp_all add: held_pages_def initial_list_def)
next
  case (Stepped st st')
  then obtain v where v: "(spec_step server)\<^sup>*\<^sup>* (queryParams initial_list, Waiting (queryParams initial_list, 0)) (queryParams st, v)"
    "stands server st v" by blast
  with list_step_follows[OF Stepped(2)] Stepped(3) obtain v' where
    "sent_inv st'" "(spec_step server)\<^sup>=\<^sup>= (queryParams st, v) (queryParams st', v')" "stands server st' v'"
    by (auto simp: follows_def)
  with v(1) show ?case by (auto intro: rtranclp.rtrancl_into_rtrancl)
qed

text \<open>C10: the list refines its specification: whatever is typed, filtered, refreshed and asked for, and in whatever
  order the answers and refusals of the server arrive, the page stands for a run of the abstract list. In every state the
  rows it holds are the first pages of one query, none twice, none missing and none of another query. Which query that is,
  the state tells: once nothing is loading and no error is shown, it is the query the filters show, with the cursor that follows
  its pages; while the answer to that query is awaited, the page still draws the rows it held before, those of a former query,
  under the notice that it loads; with an error on display it draws no row. A refusal carries a message.\<close>

theorem list_refines:
  assumes "list_reachable server st"
  shows "\<exists>v. (spec_step server)\<^sup>*\<^sup>* (queryParams initial_list, Waiting (queryParams initial_list, 0)) (queryParams st, v)
    \<and> stands server st v
    \<and> pl_rows st = held_pages server (held (queryParams st) v)
    \<and> (case v of
        Waiting h \<Rightarrow> list_notice st = LoadingView \<and> (pl_failedOnly st \<or> drawn_rows st = held_pages server h) \<and> more_button st = None
      | Failed h \<Rightarrow> (\<exists>e. list_notice st = ErrorView e) \<and> drawn_rows st = [] \<and> more_button st = None
      | Showing n e \<Rightarrow> 0 < n \<and> (pl_rows st, pl_nextCursor st) = first_pages server (queryParams st) n
          \<and> (if e then drawn_rows st = [] else pl_failedOnly st \<or> drawn_rows st = fst (first_pages server (queryParams st) n)))"
proof -
  obtain v where v: "(spec_step server)\<^sup>*\<^sup>* (queryParams initial_list, Waiting (queryParams initial_list, 0)) (queryParams st, v)"
    "stands server st v"
    using list_reachable_stands[OF assms] by blast
  moreover have "case v of
        Waiting h \<Rightarrow> list_notice st = LoadingView \<and> (pl_failedOnly st \<or> drawn_rows st = held_pages server h) \<and> more_button st = None
      | Failed h \<Rightarrow> (\<exists>e. list_notice st = ErrorView e) \<and> drawn_rows st = [] \<and> more_button st = None
      | Showing n e \<Rightarrow> 0 < n \<and> (pl_rows st, pl_nextCursor st) = first_pages server (queryParams st) n
          \<and> (if e then drawn_rows st = [] else pl_failedOnly st \<or> drawn_rows st = fst (first_pages server (queryParams st) n))"
    using v(2)
    by (cases v) (auto simp: stands_def list_notice_def drawn_rows_def visible_def more_button_def held_pages_def truthy_def split: option.splits)
  ultimately show ?thesis using stands_rows by blast
qed

text \<open>A filter is changed: until the answer comes, the rows of the former query are drawn under the new filter.\<close>

lemma old_rows_under_new_filter:
  assumes "pl_rows st \<noteq> []" and "\<not> pl_failedOnly st" and "pl_filter st \<noteq> f"
  shows "queryParams (setFilter f st) \<noteq> queryParams st \<and> drawn_rows (setFilter f st) = pl_rows st
    \<and> list_notice (setFilter f st) = LoadingView"
  using assms
  by (cases f; cases "pl_filter st")
    (simp_all add: setFilter_def with_effect_def reload_def load_def queryParams_def STAGE_PARAM_def drawn_rows_def visible_def
      list_notice_def truthy_def Let_def)

text \<open>The list cannot hang: while it is marked as loading, exactly one request counts, it asks the query
  the filters show, and any answer to it ends the loading; the answers to all other requests change nothing that
  is on display.\<close>

theorem spinner_pending:
  assumes "list_reachable server st" and "pl_loading st"
  shows "\<exists>r \<in> set (pl_sent st). lr_query r = queryParams st \<and> lr_cursor r = None
    \<and> (\<forall>out. \<not> pl_loading (list_answer r out st))
    \<and> (\<forall>r' \<in> set (pl_sent st). \<forall>out. r' = r \<or> drawn_rows (list_answer r' out st) = drawn_rows st
         \<and> list_notice (list_answer r' out st) = list_notice st)"
proof -
  have inv: "sent_inv st" using list_reachable_stands[OF assms(1)] by blast
  then obtain r where r: "r \<in> set (pl_sent st)" "lr_generation r = pl_generation st" "lr_cursor r = None"
    using assms(2) by (auto simp: sent_inv_def)
  note c = sent_inv_sent[OF inv r(1,2)]
  have "\<not> pl_loading (list_answer r out st)" for out
    using answer_fields(4) c r(3) by simp
  moreover have "drawn_rows (list_answer r' out st) = drawn_rows st \<and> list_notice (list_answer r' out st) = list_notice st"
    if "r' \<in> set (pl_sent st)" and "r' \<noteq> r" for r' out
  proof -
    have "lr_generation r' \<noteq> pl_generation st"
      using inv that r by (auto simp: sent_inv_def distinct_map inj_on_def)
    then have "list_answer r' out st = st\<lparr>pl_sent := remove1 r' (pl_sent st)\<rparr>"
      by (simp add: list_answer_def current_request_def)
    then show ?thesis using assms(2) by (simp add: drawn_rows_def list_notice_def visible_def)
  qed
  ultimately show ?thesis using r c by blast
qed

text \<open>The success rate of the drawer is a percentage, and it is a hundred when every listed run has
  completed and zero when none has.\<close>

theorem success_rate_bounds:
  "case successRate st of
     None \<Rightarrow> dr_runs st = []
   | Some r \<Rightarrow> 0 \<le> r \<and> r \<le> 100 \<and> (dr_runs st \<noteq> [] \<and> list_all (\<lambda>x. px_phase x = ''completed'') (dr_runs st) \<longrightarrow> r = 100)
       \<and> (list_all (\<lambda>x. px_phase x \<noteq> ''completed'') (dr_runs st) \<longrightarrow> r = 0)"
proof (cases "dr_runs st")
  case Nil
  then show ?thesis by (simp add: successRate_def)
next
  case (Cons x xs)
  let ?n = "length (dr_runs st)" and ?k = "length (filter (\<lambda>r. px_phase r = ''completed'') (dr_runs st))"
  have n: "?n > 0" and k: "?k \<le> ?n" using Cons length_filter_le by (simp, blast)
  have "successRate st = Some (percent_of ?k ?n)" using Cons by (simp add: successRate_def)
  moreover have "?k = ?n" if "list_all (\<lambda>x. px_phase x = ''completed'') (dr_runs st)"
    using that by (simp add: list_all_iff filter_id_conv)
  moreover have "?k = 0" if "list_all (\<lambda>x. px_phase x \<noteq> ''completed'') (dr_runs st)"
    using that by (simp add: list_all_iff filter_empty_conv)
  ultimately show ?thesis using percent_of_bounds[OF k n] by simp
qed

text \<open>One button of each row of filters is marked, the one of the query that is on display.\<close>

lemma marked_button:
  "filter snd (stage_buttons st) = [(the (map_of FILTERS (pl_filter st)), True)]"
  "filter snd (trigger_buttons st) = [(the (map_of TRIGGER_FILTERS (pl_triggerFilter st)), True)]"
  by (cases "pl_filter st"; simp add: stage_buttons_def FILTERS_def)
    (cases "pl_triggerFilter st"; simp add: trigger_buttons_def TRIGGER_FILTERS_def)

text \<open>The drawer draws at most four nodes, in the order of the definition, with an arrow between neighbours and none at the end.\<close>

lemma topology_row_shape:
  "length (topology_row byType st) \<le> 4"
  "topology_row byType st \<noteq> [] \<Longrightarrow> \<not> snd (last (topology_row byType st)) \<and> list_all snd (butlast (topology_row byType st))"
proof -
  show "length (topology_row byType st) \<le> 4" by (simp add: topology_row_def pipelineNodes_def Let_def split: option.split)
  show "\<not> snd (last (topology_row byType st)) \<and> list_all snd (butlast (topology_row byType st))" if "topology_row byType st \<noteq> []"
    using that
    by (cases "length (pipelineNodes (Option.bind (dr_definition st) snd))") (simp_all add: topology_row_def Let_def list_all_iff)
qed

section \<open>Instances\<close>

definition one_pipeline :: pipeline_summary where
  "one_pipeline = \<lparr>ps_id = ''1'', ps_pipeline_key = ''orders'', ps_version = 1, ps_name = None, ps_status = None, ps_environment = None,
     ps_created_at = '''', ps_trigger_type = None, ps_last_run_phase = None, ps_last_run_at = None, ps_last_run_id = None\<rparr>"

definition small_server :: list_server where
  "small_server q cursor = ([one_pipeline], if cursor = None then Some ''c'' else None)"

definition first_answer :: pipelines_page where
  "first_answer = (let st = load initial_list; r = hd (pl_sent st) in list_answer r (Inr (small_server (lr_query r) (lr_cursor r))) st)"

lemma first_answer_reachable: "list_reachable small_server first_answer"
  unfolding first_answer_def Let_def
  by (rule list_reachable.Stepped[OF list_reachable.Mounted Answered]) (simp add: load_def Let_def initial_list_def)

lemmas list_eval = first_answer_def load_def initial_list_def list_answer_def current_request_def request_for_def querySignature_def
  small_server_def queryParams_def truthy_def

theorem list_refines_witness:
  "list_notice first_answer = RowsOnly \<and> pl_rows first_answer = [one_pipeline]
    \<and> (\<exists>v. (spec_step small_server)\<^sup>*\<^sup>* (queryParams initial_list, Waiting (queryParams initial_list, 0)) (queryParams first_answer, v)
        \<and> stands small_server first_answer v)"
proof -
  have "list_notice first_answer = RowsOnly" "pl_rows first_answer = [one_pipeline]"
    by (simp_all add: list_eval list_notice_def visible_def)
  then show ?thesis using list_refines[OF first_answer_reachable] by blast
qed

theorem spinner_pending_witness:
  "pl_loading (load initial_list) \<and> (\<exists>r \<in> set (pl_sent (load initial_list)). lr_query r = queryParams (load initial_list))"
proof -
  have l: "pl_loading (load initial_list)" by (simp add: load_def Let_def)
  then show ?thesis using spinner_pending[OF list_reachable.Mounted[of small_server] l] by blast
qed

theorem success_rate_bounds_witness:
  "successRate (drawer_opened\<lparr>dr_runs := [\<lparr>px_id = ''1'', px_phase = ''completed'', px_started_at = '''', px_completed_at = None,
     px_error = None, px_record_count = None\<rparr>]\<rparr>) = Some 100"
  using success_rate_bounds[of "drawer_opened\<lparr>dr_runs := [\<lparr>px_id = ''1'', px_phase = ''completed'', px_started_at = '''',
     px_completed_at = None, px_error = None, px_record_count = None\<rparr>]\<rparr>"]
  by (simp add: successRate_def)

text \<open>Once a page has failed to load, a later page that does load stays hidden behind the old error.\<close>

lemma error_outlives_success:
  assumes "pl_sent st = []" and "pl_nextCursor st = Some ''c''" and "pl_error st = Some ''offline''" and "\<not> pl_loading st"
  shows "let st1 = loadMore st; st2 = list_answer (hd (pl_sent st1)) (Inr ([p], None)) st1
    in pl_rows st2 = pl_rows st @ [p] \<and> list_notice st2 = ErrorView ''offline'' \<and> drawn_rows st2 = []"
  using assms by (simp add: loadMore_def list_answer_def current_request_def request_for_def querySignature_def Let_def truthy_def
      list_notice_def drawn_rows_def)

text \<open>The filter on \<open>nodeType\<close> keeps the forks and merges of a saved definition.\<close>

lemma forks_are_drawn:
  "sn_activityType n \<noteq> [] \<Longrightarrow> pipelineNodes (Some (map topology_of [n])) = [topology_of n]"
  by (simp add: pipelineNodes_def topology_of_def)

lemma reltime_sixty: "reltime 59600 (Some ''1970-01-01T00:00:00.000Z'') = ''60s ago''"
  by code_simp

text \<open>A drawer that got its runs.\<close>

lemma drawer_never_stale_witness:
  "drawer_of_selected (\<lambda>_. []) (\<lambda>_. None)
     (ds_runs 0 (Inr []) (ds_render (toggleSelected one_pipeline initial_list) ds_initial))"
proof (rule drawer_never_stale)
  have "(0, ps_id one_pipeline) \<in> set (ds_asked (ds_render (toggleSelected one_pipeline initial_list) ds_initial))"
    by (simp add: ds_render_def toggleSelected_def initial_list_def ds_initial_def)
  from drawer_reach.runs_come [OF drawer_reach.rendered [OF drawer_reach.at_start] this, where runs = "\<lambda>_. []" and defs = "\<lambda>_. None"]
  show "drawer_reach (\<lambda>_. []) (\<lambda>_. None)
      (ds_runs 0 (Inr []) (ds_render (toggleSelected one_pipeline initial_list) ds_initial))"
    by simp
qed

end
