(* ===== verification/RunsPage.thy ===== *)
theory RunsPage
  imports PageText ApiClient
begin

text \<open>
  The list of runs, \<open>apps/web/src/pages/RunsPage.tsx\<close>: its filters and the copy of them in the
  address, the time window, and the loading of pages.

  Parameters: the present time and the offset of the time zone, the server, and the locale's format
  of a time stamp.
\<close>

section \<open>Rows\<close>

record run_row =
  rn_id :: string
  rn_name :: string
  rn_pipeline_id :: string
  rn_environment :: "string option"
  rn_phase :: "string option"
  rn_started_at :: "string option"
  rn_finished_at :: "string option"
  rn_error :: "string option"

definition fmtDt :: "(string \<Rightarrow> string) \<Rightarrow> string option \<Rightarrow> string" where
  "fmtDt locale_format stamp = (case truthy stamp of None \<Rightarrow> u_emdash | Some t \<Rightarrow> locale_format t)"

definition durMs :: "string option \<Rightarrow> string option \<Rightarrow> string" where
  "durMs started finished =
     (case (truthy started, truthy finished) of
        (Some a, Some b) \<Rightarrow> elapsed_text (ms_between a b)
      | _ \<Rightarrow> u_emdash)"

definition run_line :: "(string \<Rightarrow> string) \<Rightarrow> run_row \<Rightarrow> string list" where
  "run_line locale_format r =
     [rn_name r, displayEnvironment (rn_environment r) @ '' '' @ u_middot @ '' '' @ fmtDt locale_format (rn_started_at r),
      nullish (rn_phase r) ''unknown'', durMs (rn_started_at r) (rn_finished_at r)]"

definition run_drawer :: "(string \<Rightarrow> string) \<Rightarrow> run_row \<Rightarrow> string list" where
  "run_drawer locale_format r =
     [nullish (rn_phase r) ''unknown'', rn_name r, displayEnvironment (rn_environment r),
      ''Started'', fmtDt locale_format (rn_started_at r), ''Finished'', fmtDt locale_format (rn_finished_at r),
      ''Duration'', durMs (rn_started_at r) (rn_finished_at r)]
     @ (case truthy (rn_error r) of Some e \<Rightarrow> [''Error'', e] | None \<Rightarrow> [])"

section \<open>Filters\<close>

definition STATUS_PILLS :: "(string \<times> string) list" where
  "STATUS_PILLS = [('''', ''All''), (''running'', ''Running''), (''completed'', ''Completed''), (''failed'', ''Failed''),
     (''cancelled'', ''Cancelled'')]"

definition ENV_PILLS :: "(string \<times> string) list" where
  "ENV_PILLS = [('''', ''All envs''), (''test'', ''Integration''), (''prod'', ''Production'')]"

definition RANGES :: "(string \<times> int) list" where
  "RANGES = [(''15m'', 15), (''1h'', 60), (''6h'', 360), (''24h'', 1440), (''7d'', 10080)]"

record run_filters =
  rf_pipeline :: string
  rf_env :: string
  rf_status :: string
  rf_from :: string
  rf_to :: string

definition filter_entries :: "run_filters \<Rightarrow> (string \<times> string) list" where
  "filter_entries f =
     [(''pipeline'', rf_pipeline f), (''env'', rf_env f), (''status'', rf_status f), (''from'', rf_from f), (''to'', rf_to f)]"

text \<open>A request: the filters of the closure that sent it, and the cursor of a \<open>loadMore\<close>.\<close>

type_synonym run_request = "run_filters \<times> string option"

record runs_page =
  rp_rows :: "run_row list"
  rp_loading :: bool
  rp_error :: "string option"
  rp_nextCursor :: "string option"
  rp_selected :: "run_row option"
  rp_search :: string
  rp_range :: string
  rp_customOpen :: bool
  rp_filters :: run_filters
  rp_pipelines :: "(string \<times> string) list"
  rp_sent :: "run_request list"

text \<open>The first state, read from the parameters of the address.\<close>

definition opened_at :: "(string \<Rightarrow> string option) \<Rightarrow> runs_page" where
  "opened_at params =
     \<lparr>rp_rows = [], rp_loading = True, rp_error = None, rp_nextCursor = None, rp_selected = None,
      rp_search = nullish (params ''q'') '''', rp_range = nullish (params ''range'') ''24h'', rp_customOpen = False,
      rp_filters = \<lparr>rf_pipeline = nullish (params ''pipeline'') '''', rf_env = nullish (params ''env'') '''',
        rf_status = nullish (params ''status'') '''', rf_from = nullish (params ''from'') '''', rf_to = nullish (params ''to'') ''''\<rparr>,
      rp_pipelines = [], rp_sent = []\<rparr>"

text \<open>The effect that writes the address.\<close>

definition address_params :: "runs_page \<Rightarrow> (string \<times> string) list" where
  "address_params st =
     (let next = filter (\<lambda>(k, v). v \<noteq> []) (filter_entries (rp_filters st));
          next = (if rp_search st \<noteq> [] then AList.update ''q'' (rp_search st) next else next)
      in AList.update ''range'' (rp_range st) next)"

text \<open>\<open>toISOString().slice(0, 19)\<close> of a time in milliseconds; \<open>civil\<close> is the inverse of
  \<open>days_from_civil\<close>.\<close>

definition civil :: "int \<Rightarrow> int \<times> int \<times> int" where
  "civil days =
     (let z = days + 719468; era = z div 146097; doe = z mod 146097;
          yoe = (doe - doe div 1460 + doe div 36524 - doe div 146096) div 365;
          doy = doe - (365 * yoe + yoe div 4 - yoe div 100);
          mp = (5 * doy + 2) div 153;
          m = (if mp < 10 then mp + 3 else mp - 9)
      in (yoe + era * 400 + (if m \<le> 2 then 1 else 0), m, doy - (153 * mp + 2) div 5 + 1))"

definition pad2 :: "int \<Rightarrow> string" where
  "pad2 n = (if n < 10 then ''0'' @ int_str n else int_str n)"

definition stamp19 :: "int \<Rightarrow> string" where
  "stamp19 ms =
     (let (y, m, d) = civil (ms div 86400000); s = (ms mod 86400000) div 1000
      in int_str y @ ''-'' @ pad2 m @ ''-'' @ pad2 d @ ''T'' @ pad2 (s div 3600) @ '':'' @ pad2 (s div 60 mod 60) @ '':'' @ pad2 (s mod 60))"

text \<open>\<open>offset\<close> gives the distance of the time zone from UTC, in minutes, at a time.\<close>

definition localDateTime :: "(int \<Rightarrow> int) \<Rightarrow> int \<Rightarrow> string" where
  "localDateTime offset ms = stamp19 (ms - offset ms * 60000)"

definition range_effect :: "(int \<Rightarrow> int) \<Rightarrow> int \<Rightarrow> runs_page \<Rightarrow> runs_page" where
  "range_effect offset now st =
     (if rp_range st = ''custom'' then st
      else let minutes = nullish (map_of RANGES (rp_range st)) 1440
           in st\<lparr>rp_filters := (rp_filters st)\<lparr>rf_from := localDateTime offset (now - minutes * 60000),
                                              rf_to := localDateTime offset now\<rparr>\<rparr>)"

section \<open>Loading\<close>

definition run_query :: "run_request \<Rightarrow> (string \<times> string) list" where
  "run_query r =
     filter_entries (fst r) @ [(''limit'', ''50'')] @ (case snd r of Some c \<Rightarrow> [(''cursor'', c)] | None \<Rightarrow> [])"

definition refresh :: "runs_page \<Rightarrow> runs_page" where
  "refresh st = st\<lparr>rp_loading := True, rp_error := None, rp_sent := rp_sent st @ [(rp_filters st, None)]\<rparr>"

text \<open>The answers; an answer without \<open>items\<close> or a cursor is \<open>None\<close> there.\<close>

definition refresh_answer :: "run_request \<Rightarrow> string option + (run_row list option \<times> string option) \<Rightarrow> runs_page \<Rightarrow> runs_page" where
  "refresh_answer r out st =
     (let st = st\<lparr>rp_sent := remove1 r (rp_sent st)\<rparr> in
      case out of
        Inr (items, next) \<Rightarrow> st\<lparr>rp_rows := nullish items [], rp_nextCursor := next, rp_loading := False\<rparr>
      | Inl e \<Rightarrow> st\<lparr>rp_error := Some (nullish e ''Failed to load runs''), rp_nextCursor := None, rp_loading := False\<rparr>)"

definition loadMore :: "runs_page \<Rightarrow> runs_page" where
  "loadMore st =
     (case truthy (rp_nextCursor st) of
        None \<Rightarrow> st
      | Some c \<Rightarrow> st\<lparr>rp_loading := True, rp_sent := rp_sent st @ [(rp_filters st, Some c)]\<rparr>)"

definition more_answer :: "run_request \<Rightarrow> string option + (run_row list \<times> string option) \<Rightarrow> runs_page \<Rightarrow> runs_page" where
  "more_answer r out st =
     (let st = st\<lparr>rp_sent := remove1 r (rp_sent st)\<rparr> in
      case out of
        Inr (items, next) \<Rightarrow> st\<lparr>rp_rows := rp_rows st @ items, rp_nextCursor := next, rp_loading := False\<rparr>
      | Inl e \<Rightarrow> st\<lparr>rp_error := Some (nullish e ''Failed to load more runs''), rp_loading := False\<rparr>)"

text \<open>The pipelines of the filter, asked for once: a failure is not reported and leaves the list empty.\<close>

definition pipelines_answer :: "string option + (string \<times> string) list \<Rightarrow> runs_page \<Rightarrow> runs_page" where
  "pipelines_answer out st = (case out of Inr ps \<Rightarrow> st\<lparr>rp_pipelines := ps\<rparr> | Inl _ \<Rightarrow> st)"

text \<open>A change of the filters makes a new \<open>refresh\<close>, and the effect calls it.\<close>

definition setFilters :: "run_filters \<Rightarrow> runs_page \<Rightarrow> runs_page" where
  "setFilters f st = refresh (st\<lparr>rp_filters := f\<rparr>)"

definition setRange :: "(int \<Rightarrow> int) \<Rightarrow> int \<Rightarrow> string \<Rightarrow> runs_page \<Rightarrow> runs_page" where
  "setRange offset now window st =
     (let st1 = st\<lparr>rp_range := window, rp_customOpen := (window = ''custom'')\<rparr>
      in if window = rp_range st \<or> window = ''custom'' then st1 else refresh (range_effect offset now st1))"

definition visible :: "runs_page \<Rightarrow> run_row list" where
  "visible st =
     (if rp_search st = [] then rp_rows st
      else filter (\<lambda>r. str_includes (to_lower (rn_name r)) (to_lower (rp_search st))) (rp_rows st))"

definition toggleSelected :: "run_row \<Rightarrow> runs_page \<Rightarrow> runs_page" where
  "toggleSelected r st =
     st\<lparr>rp_selected := (if map_option rn_id (rp_selected st) = Some (rn_id r) then None else Some r)\<rparr>"

text \<open>The buttons that are locked, and the notices.\<close>

definition more_disabled :: "runs_page \<Rightarrow> bool" where
  "more_disabled st \<longleftrightarrow> rp_loading st"

definition runs_notices :: "runs_page \<Rightarrow> string list" where
  "runs_notices st =
     (case truthy (rp_error st) of Some e \<Rightarrow> [e] | None \<Rightarrow> [])
     @ (if rp_loading st then [''Loading'' @ u_ellipsis] else [])
     @ (if \<not> rp_loading st \<and> truthy (rp_error st) = None \<and> visible st = [] then [''No runs match''] else [])"

definition runs_footer :: "runs_page \<Rightarrow> string" where
  "runs_footer st = plural (length (visible st)) ''run''"

section \<open>Marks and controls\<close>

text \<open>The bar and the badge of a phase; a run of another phase gets the plain ones.\<close>

definition PHASE_STYLE :: "(string \<times> string \<times> string) list" where
  "PHASE_STYLE =
     [(''completed'', ''bg-emerald-400/70'',
       ''bg-emerald-50 border-emerald-200 text-emerald-700 dark:bg-emerald-500/15 dark:border-emerald-500/25 dark:text-emerald-400''),
      (''failed'', ''bg-red-400/70'',
       ''bg-red-50 border-red-200 text-red-700 dark:bg-red-500/15 dark:border-red-500/25 dark:text-red-400''),
      (''running'', ''bg-cyan-400/70'',
       ''bg-cyan-50 border-cyan-200 text-cyan-700 dark:bg-cyan-500/15 dark:border-cyan-500/25 dark:text-cyan-400 animate-pulse''),
      (''cancelled'', ''bg-gray-300/60'',
       ''bg-gray-50 border-gray-200 text-gray-500 dark:bg-white/5 dark:border-white/10 dark:text-white/35'')]"

definition phase_marks :: "run_row \<Rightarrow> string \<times> string" where
  "phase_marks r = nullish (map_of PHASE_STYLE (nullish (rn_phase r) '''')) (''bg-gray-300/60'', ''bg-gray-50 border-gray-200 text-gray-500'')"

definition pill_dot :: "string \<Rightarrow> string option" where
  "pill_dot key = map_of [(''running'', ''bg-cyan-400 animate-pulse''), (''completed'', ''bg-emerald-400''), (''failed'', ''bg-red-400''),
     (''cancelled'', ''bg-gray-400'')] key"

text \<open>The pills: dot, label, and whether it is the active one.\<close>

definition status_pills :: "runs_page \<Rightarrow> (string option \<times> string \<times> bool) list" where
  "status_pills st = map (\<lambda>(key, label). (pill_dot key, label, rf_status (rp_filters st) = key)) STATUS_PILLS"

definition env_pills :: "runs_page \<Rightarrow> (string \<times> bool) list" where
  "env_pills st = map (\<lambda>(key, label). (label, rf_env (rp_filters st) = key)) ENV_PILLS"

definition pipeline_select :: "runs_page \<Rightarrow> string \<times> (string \<times> string) list" where
  "pipeline_select st = (rf_pipeline (rp_filters st), ('''', ''All pipelines'') # rp_pipelines st)"

definition range_select :: "runs_page \<Rightarrow> string \<times> (string \<times> string) list" where
  "range_select st = (rp_range st, map (\<lambda>(key, _). (key, key)) RANGES @ [(''custom'', ''Custom'')])"

text \<open>The button that opens the two times, and what it opens.\<close>

definition from_to_button :: "runs_page \<Rightarrow> string option" where
  "from_to_button st = (if rp_range st = ''custom'' then Some ''From / To'' else None)"

definition toggleCustom :: "runs_page \<Rightarrow> runs_page" where
  "toggleCustom st = st\<lparr>rp_customOpen := \<not> rp_customOpen st\<rparr>"

definition custom_panel :: "string \<Rightarrow> runs_page \<Rightarrow> (string \<times> string) list option" where
  "custom_panel zone st =
     (if rp_customOpen st then Some [(''From'', rf_from (rp_filters st)), (''To'', rf_to (rp_filters st)), (''Timezone: '', zone)]
      else None)"

text \<open>A row: its bar, its badge, whether it is the selected one, and its texts.\<close>

definition list_rows :: "(string \<Rightarrow> string) \<Rightarrow> runs_page \<Rightarrow> (string \<times> string \<times> bool \<times> string list) list" where
  "list_rows locale_format st =
     map (\<lambda>r. (fst (phase_marks r), snd (phase_marks r), map_option rn_id (rp_selected st) = Some (rn_id r), run_line locale_format r))
       (visible st)"

definition more_runs :: "runs_page \<Rightarrow> (string \<times> bool) option" where
  "more_runs st =
     (if truthy (rp_nextCursor st) = None then None
      else Some (if rp_loading st then ''Loading'' @ u_ellipsis else ''Load more'', more_disabled st))"

text \<open>The drawer of the selected run: badge, texts, and the link to its page.\<close>

definition RunDrawer :: "(string \<Rightarrow> string) \<Rightarrow> runs_page \<Rightarrow> (string \<times> string list \<times> string) option" where
  "RunDrawer locale_format st =
     map_option (\<lambda>r. (snd (phase_marks r), run_drawer locale_format r, ''/runs/'' @ rn_id r)) (rp_selected st)"

lemma one_pill_active:
  "rf_status (rp_filters st) \<in> fst ` set STATUS_PILLS \<Longrightarrow> length (filter (snd \<circ> snd) (status_pills st)) = 1"
  by (auto simp: status_pills_def STATUS_PILLS_def)

text \<open>The drawer keeps the row that was clicked: when a refresh brings news of the run, the list shows them and the drawer does
  not, and a run that the new list does not hold stays open.\<close>

lemma drawer_keeps_old_row:
  "RunDrawer locale_format (refresh_answer req out st) = RunDrawer locale_format st"
  "RunDrawer locale_format (setFilters f st) = RunDrawer locale_format st"
  by (simp_all add: RunDrawer_def refresh_answer_def setFilters_def refresh_def Let_def split: sum.split prod.split)

section \<open>The address keeps the view\<close>

lemma map_of_nonempty:
  "map_of (filter (\<lambda>(k, v). v \<noteq> []) ((k', v') # es)) k
     = (if k' = k \<and> v' \<noteq> [] then Some v' else map_of (filter (\<lambda>(k, v). v \<noteq> []) es) k)"
  by simp

lemma address_lookup:
  "map_of (address_params st) ''pipeline'' = truthy (Some (rf_pipeline (rp_filters st)))"
  "map_of (address_params st) ''env'' = truthy (Some (rf_env (rp_filters st)))"
  "map_of (address_params st) ''status'' = truthy (Some (rf_status (rp_filters st)))"
  "map_of (address_params st) ''from'' = truthy (Some (rf_from (rp_filters st)))"
  "map_of (address_params st) ''to'' = truthy (Some (rf_to (rp_filters st)))"
  "map_of (address_params st) ''q'' = truthy (Some (rp_search st))"
  "map_of (address_params st) ''range'' = Some (rp_range st)"
  by (simp_all add: address_params_def filter_entries_def Let_def update_conv map_of_nonempty del: filter.simps(2)) (simp_all add: truthy_def)

lemma truthy_default [simp]: "nullish (truthy (Some s)) [] = s"
  by (simp add: truthy_def)

text \<open>The address bar is enough to come back to a view of the runs: opening the page at the query string
  it has written restores the filters, the search and the time range, whatever characters they hold.\<close>

theorem address_roundtrip:
  "let again = opened_at (map_of (decode_query (search_params (address_params st))))
   in rp_filters again = rp_filters st \<and> rp_search again = rp_search st \<and> rp_range again = rp_range st"
proof -
  have "address_params st \<noteq> []" using address_lookup(7)[of st] by (cases "address_params st") auto
  then have "decode_query (search_params (address_params st)) = address_params st" by (rule decode_search_params)
  then show ?thesis by (simp add: opened_at_def address_lookup)
qed

section \<open>One request at a time\<close>

type_synonym run_server = "run_filters \<Rightarrow> string option \<Rightarrow> run_row list \<times> string option"

text \<open>The page in the hands of a user who waits: no request is sent while another is under way.\<close>

inductive patient_step :: "run_server \<Rightarrow> runs_page \<Rightarrow> runs_page \<Rightarrow> bool" for server where
  Filtered: "\<not> rp_loading st \<Longrightarrow> patient_step server st (setFilters f st)"
| Ranged: "\<not> rp_loading st \<Longrightarrow> patient_step server st (setRange offset now window st)"
| Refreshed: "\<not> rp_loading st \<Longrightarrow> patient_step server st (refresh st)"
| AskedMore: "\<not> rp_loading st \<Longrightarrow> patient_step server st (loadMore st)"
| Searched: "patient_step server st (st\<lparr>rp_search := s\<rparr>)"
| Selected: "patient_step server st (toggleSelected r st)"
| PipelinesListed: "patient_step server st (pipelines_answer out st)"
| CustomToggled: "patient_step server st (toggleCustom st)"
| Answered: "(f, None) \<in> set (rp_sent st) \<Longrightarrow> server f None = (items, next) \<Longrightarrow>
    patient_step server st (refresh_answer (f, None) (Inr (Some items, next)) st)"
| AnsweredMore: "(f, Some c) \<in> set (rp_sent st) \<Longrightarrow> server f (Some c) = (items, next) \<Longrightarrow>
    patient_step server st (more_answer (f, Some c) (Inr (items, next)) st)"
| Refused: "(f, None) \<in> set (rp_sent st) \<Longrightarrow> patient_step server st (refresh_answer (f, None) (Inl e) st)"
| RefusedMore: "(f, Some c) \<in> set (rp_sent st) \<Longrightarrow> patient_step server st (more_answer (f, Some c) (Inl e) st)"

inductive patient_reachable :: "run_server \<Rightarrow> runs_page \<Rightarrow> bool" for server where
  Opened: "patient_reachable server (refresh (opened_at params))"
| Stepped: "patient_reachable server st \<Longrightarrow> patient_step server st st' \<Longrightarrow> patient_reachable server st'"

definition paged :: "run_server \<Rightarrow> runs_page \<Rightarrow> bool" where
  "paged server st \<longleftrightarrow> (\<exists>n > 0. (rp_rows st, rp_nextCursor st) = first_pages server (rp_filters st) n)"

definition patient_inv :: "run_server \<Rightarrow> runs_page \<Rightarrow> bool" where
  "patient_inv server st \<longleftrightarrow>
     (if rp_loading st
      then rp_sent st = [(rp_filters st, None)]
        \<or> (\<exists>c. rp_sent st = [(rp_filters st, Some c)] \<and> truthy (rp_nextCursor st) = Some c \<and> paged server st)
      else rp_sent st = [] \<and> (paged server st \<or> rp_nextCursor st = None \<and> rp_error st \<noteq> None))"

lemma patient_inv_same:
  "patient_inv server st \<Longrightarrow> rp_loading st' = rp_loading st \<Longrightarrow> rp_sent st' = rp_sent st \<Longrightarrow> rp_filters st' = rp_filters st \<Longrightarrow>
   rp_nextCursor st' = rp_nextCursor st \<Longrightarrow> rp_rows st' = rp_rows st \<Longrightarrow> rp_error st' = rp_error st \<Longrightarrow> patient_inv server st'"
proof -
  assume "patient_inv server st" "rp_loading st' = rp_loading st" "rp_sent st' = rp_sent st" "rp_filters st' = rp_filters st"
    "rp_nextCursor st' = rp_nextCursor st" "rp_rows st' = rp_rows st" "rp_error st' = rp_error st"
  moreover from this have "paged server st' = paged server st" by (simp add: paged_def)
  ultimately show "patient_inv server st'" by (auto simp: patient_inv_def split: if_splits)
qed

lemma paged_more:
  assumes "paged server st" and "truthy (rp_nextCursor st) = Some c" and "server (rp_filters st) (Some c) = (items, next)"
  shows "\<exists>n > 0. (rp_rows st @ items, next) = first_pages server (rp_filters st) n"
proof -
  obtain n where n: "0 < n" "(rp_rows st, rp_nextCursor st) = first_pages server (rp_filters st) n"
    using assms(1) by (auto simp: paged_def)
  from n(2)[symmetric] have "first_pages server (rp_filters st) (Suc n) = (rp_rows st @ items, next)"
    using first_pages_Suc[OF n(1), of server "rp_filters st" c] assms(2,3) by simp
  then show ?thesis by (intro exI[of _ "Suc n"]) simp
qed

lemma patient_step_inv:
  assumes "patient_step server st st'" and "patient_inv server st"
  shows "patient_inv server st'"
  using assms
proof (induction rule: patient_step.induct)
  case (AskedMore st)
  then show ?case
    by (cases "truthy (rp_nextCursor st)") (auto simp: loadMore_def patient_inv_def paged_def truthy_def split: if_splits)
next
  case (Answered f st items nxt)
  have "first_pages server f (Suc 0) = (items, nxt)" using Answered(2) by simp
  then show ?case using Answered by (auto simp: refresh_answer_def patient_inv_def paged_def split: if_splits intro: exI[of _ "Suc 0"])
next
  case (AnsweredMore f c st items nxt)
  then have s: "rp_sent st = [(f, Some c)]" "f = rp_filters st" "truthy (rp_nextCursor st) = Some c" "paged server st"
    by (auto simp: patient_inv_def split: if_splits)
  from paged_more[OF s(4,3)] AnsweredMore(2) s(2) have "paged server (more_answer (f, Some c) (Inr (items, nxt)) st)"
    by (simp add: paged_def more_answer_def)
  then show ?case using s by (simp add: patient_inv_def more_answer_def)
next
  case (RefusedMore f c st e)
  then show ?case by (auto simp: more_answer_def patient_inv_def paged_def split: if_splits)
next
  case (Refused f st e)
  then show ?case by (auto simp: refresh_answer_def patient_inv_def split: if_splits)
next
  case (Searched st s)
  then show ?case by (rule patient_inv_same) simp_all
next
  case (Selected st r)
  then show ?case by (rule patient_inv_same) (simp_all add: toggleSelected_def)
next
  case (PipelinesListed st out)
  then show ?case by (rule patient_inv_same) (simp_all add: pipelines_answer_def split: sum.split)
next
  case (CustomToggled st)
  then show ?case by (rule patient_inv_same) (simp_all add: toggleCustom_def)
qed (auto simp: setFilters_def setRange_def range_effect_def refresh_def patient_inv_def paged_def Let_def)

lemma patient_reachable_inv: "patient_reachable server st \<Longrightarrow> patient_inv server st"
proof (induction rule: patient_reachable.induct)
  case (Opened params)
  show ?case by (simp add: patient_inv_def refresh_def opened_at_def)
qed (rule patient_step_inv)

text \<open>When no filter is changed while an answer is outstanding, the list is right: once nothing is loading and no
  error is shown, the rows are the first pages of the answer to the filters on display, in order and without gaps,
  and the search only narrows what is drawn of them.\<close>

theorem patient_list_right:
  assumes "patient_reachable server st" and "\<not> rp_loading st" and "rp_error st = None"
  shows "\<exists>n > 0. (rp_rows st, rp_nextCursor st) = first_pages server (rp_filters st) n
    \<and> set (visible st) \<subseteq> set (fst (first_pages server (rp_filters st) n))"
proof -
  have "paged server st" using patient_reachable_inv[OF assms(1)] assms(2,3) by (simp add: patient_inv_def)
  then obtain n where n: "0 < n" "(rp_rows st, rp_nextCursor st) = first_pages server (rp_filters st) n"
    by (auto simp: paged_def)
  then have "rp_rows st = fst (first_pages server (rp_filters st) n)" by (metis fst_conv)
  then have "set (visible st) \<subseteq> set (fst (first_pages server (rp_filters st) n))" by (auto simp: visible_def)
  with n show ?thesis by blast
qed

section \<open>Instances\<close>

definition named_run :: "string \<Rightarrow> run_row" where
  "named_run s = \<lparr>rn_id = s, rn_name = s, rn_pipeline_id = '''', rn_environment = None, rn_phase = None, rn_started_at = None,
     rn_finished_at = None, rn_error = None\<rparr>"

text \<open>A server with two pages of runs for every status.\<close>

definition two_pages :: run_server where
  "two_pages f cursor =
     (case cursor of
        None \<Rightarrow> ([named_run (rf_status f @ ''1'')], Some (rf_status f @ ''-2''))
      | Some _ \<Rightarrow> ([named_run (rf_status f @ ''2'')], None))"

definition opened_runs :: runs_page where
  "opened_runs = refresh (opened_at (\<lambda>k. None))"

definition first_runs :: runs_page where
  "first_runs = refresh_answer (rp_filters opened_runs, None) (Inr (Some [named_run ''1''], Some ''-2'')) opened_runs"

lemmas runs_eval = first_runs_def opened_runs_def refresh_def opened_at_def refresh_answer_def more_answer_def loadMore_def
  setFilters_def two_pages_def truthy_def

lemma first_runs_reachable: "patient_reachable two_pages first_runs"
  unfolding first_runs_def
proof (rule patient_reachable.Stepped)
  show "patient_reachable two_pages opened_runs" unfolding opened_runs_def by (rule patient_reachable.Opened)
  show "patient_step two_pages opened_runs (refresh_answer (rp_filters opened_runs, None) (Inr (Some [named_run ''1''], Some ''-2'')) opened_runs)"
    by (rule Answered) (simp_all add: runs_eval)
qed

theorem patient_list_right_witness:
  "\<not> rp_loading first_runs \<and> rp_error first_runs = None
    \<and> (\<exists>n > 0. (rp_rows first_runs, rp_nextCursor first_runs) = first_pages two_pages (rp_filters first_runs) n)"
proof -
  have "\<not> rp_loading first_runs" "rp_error first_runs = None" by (simp_all add: runs_eval)
  with patient_list_right[OF first_runs_reachable] show ?thesis by blast
qed

text \<open>Without that patience the list is wrong: with \<open>Load more\<close> under way the user picks another status; the
  answer to the old filters comes last, and its rows and cursor are appended to the new list.\<close>

lemma late_page_mixes:
  defines "f0 \<equiv> rp_filters first_runs"
  defines "f1 \<equiv> f0\<lparr>rf_status := ''failed''\<rparr>"
  defines "st \<equiv> setFilters f1 (loadMore first_runs)"
  shows "let end = more_answer (f0, Some ''-2'') (Inr (two_pages f0 (Some ''-2'')))
      (refresh_answer (f1, None) (Inr (Some (fst (two_pages f1 None)), snd (two_pages f1 None))) st)
    in \<not> rp_loading end \<and> rp_error end = None \<and> rf_status (rp_filters end) = ''failed''
      \<and> map rn_name (rp_rows end) = [''failed1'', ''2''] \<and> rp_nextCursor end = None"
  by (simp add: st_def f1_def f0_def runs_eval named_run_def)

lemma stamp19_examples: "stamp19 0 = ''1970-01-01T00:00:00''" "stamp19 1709210096250 = ''2024-02-29T12:34:56''"
  by code_simp+

end
