(* ===== verification/RunDetail.thy ===== *)
theory RunDetail
  imports PageText
begin

text \<open>
  One run: \<open>apps/web/src/pages/RunDetailPage.tsx\<close>, which polls until the run has ended, and the
  monitor on the canvas, \<open>components/canvas/ExecutionMonitor.tsx\<close>, which polls at an interval.

  The chain of polls is a list of what is under way: a request for the run, a request for its status, a timer.
  Each carries the number of the effect that started it, since a clean-up makes the old ones
  inert. What the server sends about a run is a type of the model's user; the page reads the
  phase of it.
\<close>

section \<open>The page of a run\<close>

definition TERMINAL :: "string list" where
  "TERMINAL = [''completed'', ''failed'', ''cancelled'']"

text \<open>The data of a run: its phase, and the rest. The live status: its phase, the figures of a stream, and what
  steers it. The throughput is kept as the text of the number. An event of the history has its number, type and attributes.\<close>

record stream_figures =
  sf_batches :: int
  sf_records :: int
  sf_errors :: int
  sf_lagRecords :: int
  sf_throughputPerSec :: string

record trace_event =
  te_eventId :: string
  te_eventType :: string
  te_attributes :: json

record 'd run_data =
  rd_phase :: "string option"
  rd_rest :: 'd

record live_status =
  ls_phase :: "string option"
  ls_stream :: "stream_figures option"
  ls_cohestraId :: "string option"

datatype 'd poll = FetchRun | FetchStatus "'d run_data" | Timer

record 'd detail_page =
  dp_data :: "'d run_data option"
  dp_error :: "string option"
  dp_retrying :: bool
  dp_trace :: "trace_event list option"
  dp_live :: "live_status option"
  dp_effect :: nat
  dp_polls :: "(nat \<times> 'd poll) list"

text \<open>The first render and its effect.\<close>

definition detail_opened :: "'d detail_page" where
  "detail_opened = \<lparr>dp_data = None, dp_error = None, dp_retrying = False, dp_trace = None, dp_live = None,
     dp_effect = 0, dp_polls = [(0, FetchRun)]\<rparr>"

text \<open>The clean-up stops the timer and leaves the requests of the old effect; then the effect starts
  over, for another run or after \<open>setReloadKey\<close>.\<close>

definition restart :: "'d detail_page \<Rightarrow> 'd detail_page" where
  "restart st =
     st\<lparr>dp_effect := Suc (dp_effect st),
        dp_polls := filter (\<lambda>p. snd p \<noteq> Timer) (dp_polls st) @ [(Suc (dp_effect st), FetchRun)]\<rparr>"

definition onRetry :: "'d detail_page \<Rightarrow> 'd detail_page" where
  "onRetry st = restart (st\<lparr>dp_error := None, dp_data := None\<rparr>)"

text \<open>\<open>poll\<close>, cut at its two calls: the answer to \<open>getExecution\<close>, and the one to
  \<open>executionStatus\<close>, where a failure is \<open>null\<close>.\<close>

definition run_answer :: "nat \<Rightarrow> string option + 'd run_data \<Rightarrow> 'd detail_page \<Rightarrow> 'd detail_page" where
  "run_answer e out st =
     (let st = st\<lparr>dp_polls := remove1 (e, FetchRun) (dp_polls st)\<rparr> in
      case out of
        Inr d \<Rightarrow> st\<lparr>dp_polls := dp_polls st @ [(e, FetchStatus d)]\<rparr>
      | Inl m \<Rightarrow> if e = dp_effect st then st\<lparr>dp_error := Some (nullish m ''Failed to load run'')\<rparr> else st)"

definition is_terminal :: "string option \<Rightarrow> bool" where
  "is_terminal phase \<longleftrightarrow> (case phase of Some p \<Rightarrow> p \<in> set TERMINAL | None \<Rightarrow> False)"

definition status_answer :: "nat \<Rightarrow> 'd run_data \<Rightarrow> live_status option \<Rightarrow> 'd detail_page \<Rightarrow> 'd detail_page" where
  "status_answer e d status st =
     (let st = st\<lparr>dp_polls := remove1 (e, FetchStatus d) (dp_polls st)\<rparr> in
      if e \<noteq> dp_effect st then st
      else st\<lparr>dp_data := Some d, dp_live := status,
              dp_polls := dp_polls st @ (if is_terminal (rd_phase d) then [] else [(e, Timer)])\<rparr>)"

definition timer_fired :: "nat \<Rightarrow> 'd detail_page \<Rightarrow> 'd detail_page" where
  "timer_fired e st = st\<lparr>dp_polls := remove1 (e, Timer) (dp_polls st) @ [(e, FetchRun)]\<rparr>"

text \<open>\<open>retry\<close>: a run that could be started again is navigated to, which restarts the effect.\<close>

definition retry_start :: "'d detail_page \<Rightarrow> 'd detail_page" where
  "retry_start st = st\<lparr>dp_retrying := True, dp_error := None\<rparr>"

definition retry_answer :: "string option + string \<Rightarrow> 'd detail_page \<Rightarrow> 'd detail_page" where
  "retry_answer out st =
     (case out of
        Inr _ \<Rightarrow> restart st
      | Inl m \<Rightarrow> st\<lparr>dp_error := Some (nullish m ''Retry failed''), dp_retrying := False\<rparr>)"

definition trace_answer :: "string option + trace_event list option \<Rightarrow> 'd detail_page \<Rightarrow> 'd detail_page" where
  "trace_answer out st =
     (case out of
        Inr events \<Rightarrow> st\<lparr>dp_trace := Some (nullish events [])\<rparr>
      | Inl m \<Rightarrow> st\<lparr>dp_error := Some (nullish m ''Trace failed'')\<rparr>)"

definition closeTrace :: "'d detail_page \<Rightarrow> 'd detail_page" where
  "closeTrace st = st\<lparr>dp_trace := None\<rparr>"

datatype signal = Pause | Resume | Cancel

fun signal_phase :: "signal \<Rightarrow> string" where
  "signal_phase Resume = ''running''"
| "signal_phase Pause = ''paused''"
| "signal_phase Cancel = ''cancelled''"

text \<open>After the call; without a status, \<open>{ ...value, phase }\<close> has the phase alone.\<close>

definition signal_answer :: "signal \<Rightarrow> 'd detail_page \<Rightarrow> 'd detail_page" where
  "signal_answer action st =
     st\<lparr>dp_live := Some ((nullish (dp_live st) \<lparr>ls_phase = None, ls_stream = None, ls_cohestraId = None\<rparr>)
          \<lparr>ls_phase := Some (signal_phase action)\<rparr>)\<rparr>"

section \<open>What the page offers\<close>

definition can_retry :: "'d detail_page \<Rightarrow> bool" where
  "can_retry st \<longleftrightarrow> Option.bind (dp_data st) rd_phase = Some ''failed''"

definition steering :: "'d detail_page \<Rightarrow> string list" where
  "steering st =
     (case dp_live st of
        None \<Rightarrow> []
      | Some l \<Rightarrow>
          if ls_stream l \<noteq> None \<or> truthy (ls_cohestraId l) \<noteq> None
          then [if ls_phase l = Some ''paused'' then ''Resume'' else ''Pause'', ''Cancel'']
            @ (if truthy (ls_cohestraId l) \<noteq> None then [''Rollback''] else [])
          else [])"

definition detail_title :: "('d run_data \<Rightarrow> string option \<times> string option) \<Rightarrow> 'd detail_page \<Rightarrow> string \<times> string" where
  "detail_title name_environment st =
     (let (name, environment) = (case dp_data st of Some d \<Rightarrow> name_environment d | None \<Rightarrow> (None, None)) in
      (nullish name ''Run'',
       displayEnvironment environment @ '' '' @ u_middot @ '' '' @ nullish (Option.bind (dp_data st) rd_phase) u_ellipsis))"

definition detail_loading :: "'d detail_page \<Rightarrow> bool" where
  "detail_loading st \<longleftrightarrow> dp_data st = None \<and> truthy (dp_error st) = None"

text \<open>The lines of a node: status, records and time.\<close>

definition node_line :: "(int \<Rightarrow> string) \<Rightarrow> string option \<Rightarrow> int option \<Rightarrow> int option \<Rightarrow> string" where
  "node_line locale_number status records ms =
     nullish status ''pending''
       @ (case records of Some c \<Rightarrow> '' '' @ u_middot @ '' '' @ locale_number c @ '' rec'' | None \<Rightarrow> '''')
       @ (case ms of Some n \<Rightarrow> '' '' @ u_middot @ '' '' @ int_str n @ ''ms'' | None \<Rightarrow> '''')"

text \<open>The card of a node in the graph: its frame, the colour and the name of its activity, its line and its error.\<close>

definition STATUS_RING :: "(string \<times> string) list" where
  "STATUS_RING = [(''success'', ''border-emerald-400/60''), (''completed'', ''border-emerald-400/60''), (''failed'', ''border-red-400/70''),
     (''running'', ''border-amber-400/60'')]"

definition RunFlowNode :: "(string \<Rightarrow> catalog_entry option) \<Rightarrow> (int \<Rightarrow> string) \<Rightarrow> run_node \<Rightarrow> string list" where
  "RunFlowNode byType locale_number n =
     (let entry = byType (rn_activityType n) in
      [nullish (Option.bind (rn_status n) (map_of STATUS_RING)) ''border-gray-200 dark:border-white/10'',
       nullish (map_option ce_color entry) ''#7F77DD'',
       nullish (rn_label n) (nullish (map_option ce_label entry) (rn_activityType n)),
       node_line locale_number (rn_status n) (rn_recordCount n) (rn_durationMs n)]
      @ (case truthy (rn_error n) of Some e \<Rightarrow> [take 120 e] | None \<Rightarrow> []))"

text \<open>The figures of a stream; \<open>fixed1\<close> is \<open>Number(v).toFixed(1)\<close>.\<close>

definition stream_tiles :: "(string \<Rightarrow> string) \<Rightarrow> 'd detail_page \<Rightarrow> (string \<times> string) list" where
  "stream_tiles fixed1 st =
     (case Option.bind (dp_live st) ls_stream of
        None \<Rightarrow> []
      | Some s \<Rightarrow> [(''Records'', int_str (sf_records s)), (''Batches'', int_str (sf_batches s)), (''Lag'', int_str (sf_lagRecords s)),
          (''Throughput/s'', fixed1 (sf_throughputPerSec s)), (''Errors'', int_str (sf_errors s))])"

text \<open>The result of a quality check; the sample is the first rejected row with its errors.\<close>

record quality_outcome =
  qo_node_id :: string
  qo_status :: string
  qo_passed_count :: int
  qo_failed_count :: int
  qo_quarantine_available :: bool
  qo_sample :: "(int \<times> string list) option"

definition outcome_tone :: "quality_outcome \<Rightarrow> string" where
  "outcome_tone q =
     (if qo_status q = ''passed'' then ''border-emerald-300 bg-emerald-50 dark:bg-emerald-500/10''
      else if qo_status q = ''failed'' then ''border-red-300 bg-red-50 dark:bg-red-500/10''
      else ''border-amber-300 bg-amber-50 dark:bg-amber-500/10'')"

definition outcome_lines :: "(int \<Rightarrow> string) \<Rightarrow> quality_outcome \<Rightarrow> string list" where
  "outcome_lines locale_number q =
     [qo_node_id q @ '' '' @ u_middot @ '' quality '' @ qo_status q,
      locale_number (qo_passed_count q) @ '' passed '' @ u_middot @ '' '' @ locale_number (qo_failed_count q) @ '' rejected''
        @ (if qo_quarantine_available q then '' '' @ u_middot @ '' quarantined'' else '''')]
     @ (case qo_sample q of Some (i, errors) \<Rightarrow> [''Row '' @ int_str (i + 1) @ '': '' @ join ''; '' errors] | None \<Rightarrow> [])"

text \<open>The history: a heading and a text for each event, or the remark that there is none.\<close>

definition trace_panel :: "'d detail_page \<Rightarrow> (string \<times> string) list option" where
  "trace_panel st =
     map_option (\<lambda>events. if events = [] then [(''No history events.'', '''')]
        else map (\<lambda>e. (''#'' @ te_eventId e @ '' '' @ u_middot @ '' event '' @ te_eventType e, indented 0 (te_attributes e))) events)
       (dp_trace st)"

definition trace_offered :: "(paid_feature \<Rightarrow> bool) \<Rightarrow> bool" where
  "trace_offered features \<longleftrightarrow> features DeepObservability"

section \<open>The monitor on the canvas\<close>

text \<open>What \<open>onNodeStatus\<close> is given: a node, its status and its record count.\<close>

type_synonym node_result = "string \<times> string \<times> int option"

record monitor_status =
  ms_phase :: "string option"
  ms_nodeResults :: "node_result list option"
  ms_nodeRuns :: "node_result list option"

record monitor =
  mo_execution :: "string option"
  mo_status :: "monitor_status option"
  mo_interval :: bool
  mo_sent :: "string list"
  mo_reported :: "node_result list list"

text \<open>The effect of a new \<open>executionId\<close>: the old interval is cleared, the status is not.\<close>

definition monitor_effect :: "string option \<Rightarrow> monitor \<Rightarrow> monitor" where
  "monitor_effect executionId st =
     (if executionId = mo_execution st then st
      else st\<lparr>mo_execution := executionId, mo_interval := (truthy executionId \<noteq> None)\<rparr>)"

definition monitor_tick :: "monitor \<Rightarrow> monitor" where
  "monitor_tick st =
     (if mo_interval st then st\<lparr>mo_sent := mo_sent st @ [nullish (mo_execution st) '''']\<rparr> else st)"

text \<open>The answer about the run \<open>i\<close>; \<open>clearInterval\<close> stops the interval that asked, and no other.\<close>

definition monitor_answer :: "string \<Rightarrow> monitor_status option \<Rightarrow> monitor \<Rightarrow> monitor" where
  "monitor_answer i out st =
     (let st = st\<lparr>mo_sent := remove1 i (mo_sent st)\<rparr> in
      case out of
        None \<Rightarrow> st
      | Some s \<Rightarrow>
          st\<lparr>mo_status := Some s,
             mo_reported := mo_reported st
               @ (case ms_nodeResults s of Some r \<Rightarrow> [r] | None \<Rightarrow> [])
               @ (case ms_nodeRuns s of Some r \<Rightarrow> [map_from r] | None \<Rightarrow> []),
             mo_interval := (mo_interval st \<and> \<not> (is_terminal (ms_phase s) \<and> mo_execution st = Some i))\<rparr>)"

definition monitor_view :: "monitor \<Rightarrow> (string \<times> string) option" where
  "monitor_view st =
     (case truthy (mo_execution st) of
        None \<Rightarrow> None
      | Some i \<Rightarrow> Some (nullish (Option.bind (mo_status st) ms_phase) ''starting'', i))"

section \<open>Polling\<close>

inductive detail_step :: "'d detail_page \<Rightarrow> 'd detail_page \<Rightarrow> bool" where
  RunAnswered: "(e, FetchRun) \<in> set (dp_polls st) \<Longrightarrow> detail_step st (run_answer e out st)"
| StatusAnswered: "(e, FetchStatus d) \<in> set (dp_polls st) \<Longrightarrow> detail_step st (status_answer e d status st)"
| TimerFired: "(e, Timer) \<in> set (dp_polls st) \<Longrightarrow> detail_step st (timer_fired e st)"
| OtherRun: "detail_step st (restart st)"
| Reloaded: "detail_step st (onRetry st)"
| RetryStarted: "can_retry st \<Longrightarrow> detail_step st (retry_start st)"
| RetryAnswered: "detail_step st (retry_answer r st)"
| TraceAnswered: "detail_step st (trace_answer t st)"
| TraceClosed: "detail_step st (closeTrace st)"
| Signalled: "detail_step st (signal_answer a st)"

inductive detail_reachable :: "'d detail_page \<Rightarrow> bool" where
  Opened: "detail_reachable detail_opened"
| Stepped: "detail_reachable st \<Longrightarrow> detail_step st st' \<Longrightarrow> detail_reachable st'"

text \<open>What is under way for the present effect.\<close>

definition live_polls :: "'d detail_page \<Rightarrow> (nat \<times> 'd poll) list" where
  "live_polls st = filter (\<lambda>p. fst p = dp_effect st) (dp_polls st)"

definition ended :: "'d detail_page \<Rightarrow> bool" where
  "ended st \<longleftrightarrow> is_terminal (Option.bind (dp_data st) rd_phase) \<or> dp_error st \<noteq> None"

definition polls_inv :: "'d detail_page \<Rightarrow> bool" where
  "polls_inv st \<longleftrightarrow> length (live_polls st) \<le> 1 \<and> (live_polls st = [] \<longrightarrow> ended st)
     \<and> (\<forall>p \<in> set (dp_polls st). fst p \<le> dp_effect st \<and> (snd p = Timer \<longrightarrow> fst p = dp_effect st))"

lemma live_single:
  "polls_inv st \<Longrightarrow> p \<in> set (dp_polls st) \<Longrightarrow> fst p = dp_effect st \<Longrightarrow> live_polls st = [p]"
proof -
  assume "polls_inv st" "p \<in> set (dp_polls st)" "fst p = dp_effect st"
  then have "length (live_polls st) \<le> 1" "p \<in> set (live_polls st)" by (simp_all add: polls_inv_def live_polls_def)
  then show "live_polls st = [p]" by (cases "live_polls st") auto
qed

lemma restart_inv: "polls_inv st \<Longrightarrow> polls_inv (restart st)"
  by (fastforce simp: polls_inv_def restart_def live_polls_def filter_empty_conv)

lemma polls_same:
  "polls_inv st \<Longrightarrow> dp_polls st' = dp_polls st \<Longrightarrow> dp_effect st' = dp_effect st \<Longrightarrow> (ended st \<Longrightarrow> ended st') \<Longrightarrow> polls_inv st'"
  by (simp add: polls_inv_def live_polls_def)

text \<open>A poll that goes on or ends.\<close>

lemma polls_moved:
  assumes "polls_inv st" and "p \<in> set (dp_polls st)" and "dp_polls st' = remove1 p (dp_polls st) @ next"
    and "dp_effect st' = dp_effect st" and "length next \<le> 1" and "\<forall>q \<in> set next. fst q = fst p \<and> (snd q = Timer \<longrightarrow> fst q = dp_effect st)"
    and "fst p = dp_effect st \<Longrightarrow> next = [] \<Longrightarrow> ended st'" and "fst p \<noteq> dp_effect st \<Longrightarrow> ended st \<Longrightarrow> ended st'"
  shows "polls_inv st'"
proof -
  have l: "live_polls st' = remove1 p (live_polls st) @ filter (\<lambda>q. fst q = dp_effect st) next"
    by (simp add: live_polls_def assms(3,4) filter_remove1)
  have "length (live_polls st') \<le> 1 \<and> (live_polls st' = [] \<longrightarrow> ended st')"
  proof (cases "fst p = dp_effect st")
    case True
    then have "live_polls st' = next" using live_single[OF assms(1,2) True] assms(6) by (simp add: l filter_id_conv)
    then show ?thesis using assms(5,7) True by simp
  next
    case False
    then have "p \<notin> set (live_polls st)" by (simp add: live_polls_def)
    moreover have "filter (\<lambda>q. fst q = dp_effect st) next = []" using assms(6) False by (simp add: filter_empty_conv)
    ultimately have "live_polls st' = live_polls st" by (simp add: l remove1_idem)
    then show ?thesis using assms(1,8) False by (auto simp: polls_inv_def)
  qed
  moreover have "fst q \<le> dp_effect st' \<and> (snd q = Timer \<longrightarrow> fst q = dp_effect st')" if "q \<in> set (dp_polls st')" for q
  proof -
    have "q \<in> set (dp_polls st) \<or> q \<in> set next" using that set_remove1_subset[of p "dp_polls st"] by (auto simp: assms(3))
    then show ?thesis using assms(1,2,4,6) by (auto simp: polls_inv_def)
  qed
  ultimately show ?thesis by (simp add: polls_inv_def)
qed

lemma detail_step_inv: "detail_step st st' \<Longrightarrow> polls_inv st \<Longrightarrow> polls_inv st'"
proof (induction rule: detail_step.induct)
  case (RunAnswered e st out)
  show ?case
  proof (cases out)
    case (Inl m)
    show ?thesis
      by (rule polls_moved[OF RunAnswered(2,1), of _ "[]"]) (auto simp: Inl run_answer_def ended_def Let_def)
  next
    case (Inr d)
    show ?thesis
      by (rule polls_moved[OF RunAnswered(2,1), of _ "[(e, FetchStatus d)]"]) (auto simp: Inr run_answer_def ended_def Let_def)
  qed
next
  case (StatusAnswered e d st status)
  show ?case
    by (rule polls_moved[OF StatusAnswered(2,1), of _ "if e = dp_effect st \<and> \<not> is_terminal (rd_phase d) then [(e, Timer)] else []"])
      (auto simp: status_answer_def ended_def Let_def)
next
  case (TimerFired e st)
  then have "e = dp_effect st" by (auto simp: polls_inv_def)
  then show ?case
    by (intro polls_moved[OF TimerFired(2,1), of _ "[(e, FetchRun)]"]) (auto simp: timer_fired_def ended_def)
next
  case (OtherRun st)
  then show ?case by (rule restart_inv)
next
  case (Reloaded st)
  have "polls_inv (restart st)" using Reloaded by (rule restart_inv)
  then show ?case by (auto simp: onRetry_def restart_def polls_inv_def live_polls_def)
next
  case (RetryStarted st)
  then have "is_terminal (Option.bind (dp_data st) rd_phase)" by (auto simp: can_retry_def is_terminal_def TERMINAL_def)
  then show ?case using RetryStarted(2) by (elim polls_same) (simp_all add: retry_start_def ended_def)
next
  case (RetryAnswered st r)
  then show ?case
    by (cases r) (auto simp: retry_answer_def ended_def intro: restart_inv polls_same)
next
  case (TraceAnswered st t)
  then show ?case by (elim polls_same) (auto simp: trace_answer_def ended_def split: sum.split)
next
  case (TraceClosed st)
  then show ?case by (elim polls_same) (auto simp: closeTrace_def ended_def)
next
  case (Signalled st a)
  then show ?case by (elim polls_same) (auto simp: signal_answer_def ended_def)
qed

lemma detail_reachable_inv: "detail_reachable st \<Longrightarrow> polls_inv st"
proof (induction rule: detail_reachable.induct)
  case Opened
  show ?case by (simp add: detail_opened_def polls_inv_def live_polls_def)
qed (rule detail_step_inv)

text \<open>C24: the page of a run never stops watching too early and never watches twice: in every reachable state at
  most one poll is under way for the run on display, and none only if the run has ended or an error is shown;
  the status of an ended run schedules no further poll; what was started for an earlier run cannot change the page.\<close>

theorem polling_alive:
  assumes "detail_reachable st"
  shows "length (live_polls st) \<le> 1 \<and> (live_polls st = [] \<longrightarrow> ended st)
    \<and> (\<forall>e d status. (e, FetchStatus d) \<in> set (live_polls st) \<and> is_terminal (rd_phase d) \<longrightarrow> live_polls (status_answer e d status st) = [])
    \<and> (\<forall>e p. (e, p) \<in> set (dp_polls st) \<and> e \<noteq> dp_effect st \<longrightarrow> p \<noteq> Timer
        \<and> (\<forall>out. dp_data (run_answer e out st) = dp_data st \<and> dp_error (run_answer e out st) = dp_error st)
        \<and> (\<forall>d status. dp_data (status_answer e d status st) = dp_data st \<and> dp_live (status_answer e d status st) = dp_live st))"
proof -
  have inv: "polls_inv st" by (rule detail_reachable_inv[OF assms])
  have "live_polls (status_answer e d status st) = []"
    if "(e, FetchStatus d) \<in> set (live_polls st)" and t: "is_terminal (rd_phase d)" for e d status
  proof -
    have "e = dp_effect st" and "live_polls st = [(e, FetchStatus d)]"
      using that(1) live_single[OF inv] by (auto simp: live_polls_def)
    moreover from this have "live_polls (status_answer e d status st) = remove1 (e, FetchStatus d) (live_polls st)"
      using t by (simp add: status_answer_def live_polls_def filter_remove1)
    ultimately show ?thesis by simp
  qed
  moreover have "p \<noteq> Timer \<and> (\<forall>out. dp_data (run_answer e out st) = dp_data st \<and> dp_error (run_answer e out st) = dp_error st)
      \<and> (\<forall>d status. dp_data (status_answer e d status st) = dp_data st \<and> dp_live (status_answer e d status st) = dp_live st)"
    if "(e, p) \<in> set (dp_polls st)" and "e \<noteq> dp_effect st" for e p
    using that inv by (auto simp: polls_inv_def run_answer_def status_answer_def Let_def split: sum.split)
  ultimately show ?thesis using inv unfolding polls_inv_def by blast
qed

theorem polling_alive_witness:
  "live_polls (detail_opened :: unit detail_page) = [(0, FetchRun)] \<and> length (live_polls (detail_opened :: unit detail_page)) \<le> 1"
  using polling_alive[of "detail_opened :: unit detail_page", OF detail_reachable.Opened] by (simp add: live_polls_def detail_opened_def)

text \<open>A run that is retried with success leaves the page in \<open>Retrying\<close>: the new run's own button is locked.\<close>

lemma retry_stays_locked: "dp_retrying (retry_answer (Inr i) (retry_start st))"
  by (simp add: retry_answer_def retry_start_def restart_def)

text \<open>Going from one run to another keeps what was loaded for the first: until the first answer its name and graph are shown
  under the address of the second, its history stays open, and its error stays even after the second has been loaded.\<close>

lemma former_run_shown:
  "dp_data (restart st) = dp_data st \<and> dp_trace (restart st) = dp_trace st"
  "dp_error (status_answer e d live (run_answer e (Inr d) (restart st))) = dp_error st"
  "dp_trace (status_answer e d live (run_answer e (Inr d) (restart st))) = dp_trace st"
  by (simp_all add: restart_def status_answer_def run_answer_def Let_def)

text \<open>A signal to a run without a live status makes one up that offers no further steering.\<close>

lemma signal_without_status: "dp_live st = None \<Longrightarrow> steering (signal_answer a st) = []"
  by (simp add: signal_answer_def steering_def truthy_def)

text \<open>The monitor takes in the answer about an earlier run, and a late one about a run that has ended.\<close>

lemma monitor_shows_old_run:
  assumes "mo_execution st = Some ''new''"
  shows "monitor_view (monitor_answer ''old'' (Some \<lparr>ms_phase = Some ''failed'', ms_nodeResults = None, ms_nodeRuns = None\<rparr>) st)
    = Some (''failed'', ''new'')"
  using assms by (simp add: monitor_view_def monitor_answer_def truthy_def)

text \<open>The monitor asks until the run has ended and no longer: an answer with a terminal phase about
  the run on display stops the interval, after which ticks send nothing; every other answer leaves the interval as it was.\<close>

theorem monitor_stops:
  "mo_interval (monitor_answer i out st)
     = (mo_interval st \<and> \<not> (mo_execution st = Some i \<and> (\<exists>s. out = Some s \<and> is_terminal (ms_phase s))))
   \<and> (let st1 = monitor_answer i out st in \<not> mo_interval st1 \<longrightarrow> mo_sent (monitor_tick st1) = mo_sent st1)"
  by (auto simp: monitor_answer_def monitor_tick_def Let_def split: option.split)

theorem monitor_stops_witness:
  "\<not> mo_interval (monitor_answer ''r'' (Some \<lparr>ms_phase = Some ''completed'', ms_nodeResults = None, ms_nodeRuns = None\<rparr>)
     (monitor_effect (Some ''r'') \<lparr>mo_execution = None, mo_status = None, mo_interval = False, mo_sent = [], mo_reported = []\<rparr>))"
  using monitor_stops[of "''r''" "Some \<lparr>ms_phase = Some ''completed'', ms_nodeResults = None, ms_nodeRuns = None\<rparr>"
      "monitor_effect (Some ''r'') \<lparr>mo_execution = None, mo_status = None, mo_interval = False, mo_sent = [], mo_reported = []\<rparr>"]
  by (simp add: monitor_effect_def is_terminal_def TERMINAL_def)

end
