(* ===== verification/LifecyclePage.thy ===== *)
theory LifecyclePage
  imports PageText
begin

text \<open>
  Promotion and backfills, \<open>apps/web/src/pages/LifecyclePage.tsx\<close>: the list of pipelines with the
  transitions of their stage, and the panel that previews and starts a backfill.

  A handler is cut at its \<open>await\<close>s; what it sends is logged. \<open>to_iso\<close> is
  \<open>new Date(v).toISOString()\<close>, \<open>None\<close> where that throws.
\<close>

section \<open>Transitions\<close>

record stage_row =
  sr_id :: string
  sr_pipeline_key :: string
  sr_version :: int
  sr_name :: string
  sr_status :: "string option"
  sr_environment :: "string option"

datatype target = ToTesting | ToProduction

datatype stage_call = ListAll | SetStage string target bool

record lifecycle_page =
  lf_rows :: "stage_row list"
  lf_loading :: bool
  lf_error :: "string option"
  lf_busy :: "string option"
  lf_backfill :: "string option"
  lf_calls :: "stage_call list"

definition lf_opened :: "string option \<Rightarrow> lifecycle_page" where
  "lf_opened openBackfillId = \<lparr>lf_rows = [], lf_loading = True, lf_error = None, lf_busy = None,
     lf_backfill = openBackfillId, lf_calls = []\<rparr>"

definition lf_refresh :: "lifecycle_page \<Rightarrow> lifecycle_page" where
  "lf_refresh st = st\<lparr>lf_loading := True, lf_error := None, lf_calls := lf_calls st @ [ListAll]\<rparr>"

definition lf_refresh_answer :: "string option + stage_row list \<Rightarrow> lifecycle_page \<Rightarrow> lifecycle_page" where
  "lf_refresh_answer out st =
     (case out of
        Inr rows \<Rightarrow> st\<lparr>lf_rows := rows, lf_loading := False\<rparr>
      | Inl e \<Rightarrow> st\<lparr>lf_error := Some (nullish e ''Failed to load pipelines''), lf_loading := False\<rparr>)"

definition transition :: "stage_row \<Rightarrow> target \<Rightarrow> lifecycle_page \<Rightarrow> lifecycle_page" where
  "transition row to st =
     st\<lparr>lf_busy := Some (sr_id row), lf_error := None, lf_calls := lf_calls st @ [SetStage (sr_id row) to False]\<rparr>"

text \<open>\<open>finally\<close>.\<close>

definition transition_done :: "lifecycle_page \<Rightarrow> lifecycle_page" where
  "transition_done st = st\<lparr>lf_busy := None\<rparr>"

text \<open>The answer to the transition; after a success the page waits for the refresh before it is done.
  \<open>String(e.message)\<close> of a missing message is \<open>undefined\<close>.\<close>

definition transition_answer :: "stage_row \<Rightarrow> target \<Rightarrow> bool \<Rightarrow> string option + unit \<Rightarrow> lifecycle_page \<Rightarrow> lifecycle_page" where
  "transition_answer row to confirmed out st =
     (case out of
        Inr _ \<Rightarrow> lf_refresh st
      | Inl e \<Rightarrow>
          if to = ToProduction \<and> str_includes (nullish e ''undefined'') ''breaking data contract'' \<and> confirmed
          then st\<lparr>lf_calls := lf_calls st @ [SetStage (sr_id row) to True]\<rparr>
          else transition_done (st\<lparr>lf_error := Some (nullish e ''Transition failed'')\<rparr>))"

definition override_answer :: "string option + unit \<Rightarrow> lifecycle_page \<Rightarrow> lifecycle_page" where
  "override_answer out st =
     (case out of
        Inr _ \<Rightarrow> lf_refresh st
      | Inl e \<Rightarrow> transition_done (st\<lparr>lf_error := Some (nullish e ''Override failed'')\<rparr>))"

definition toggleBackfill :: "stage_row \<Rightarrow> lifecycle_page \<Rightarrow> lifecycle_page" where
  "toggleBackfill row st = st\<lparr>lf_backfill := (if lf_backfill st = Some (sr_id row) then None else Some (sr_id row))\<rparr>"

text \<open>The button of a row: its target, and whether it is locked.\<close>

definition row_stage :: "stage_row \<Rightarrow> stage" where
  "row_stage row = deriveStage (sr_status row) (sr_environment row)"

definition offered :: "stage_row \<Rightarrow> target option" where
  "offered row = (case row_stage row of Draft \<Rightarrow> Some ToTesting | Testing \<Rightarrow> Some ToProduction | _ \<Rightarrow> None)"

definition locked :: "stage_row \<Rightarrow> lifecycle_page \<Rightarrow> bool" where
  "locked row st \<longleftrightarrow> lf_busy st = Some (sr_id row)"

definition row_text :: "stage_row \<Rightarrow> string list" where
  "row_text row =
     [sr_name row, ''v'' @ int_str (sr_version row) @ '' '' @ u_middot @ '' '' @ displayEnvironment (sr_environment row),
      displayStage (row_stage row)]"

definition button_text :: "stage_row \<Rightarrow> lifecycle_page \<Rightarrow> string option" where
  "button_text row st =
     map_option (\<lambda>t. if locked row st then u_ellipsis
        else case t of ToTesting \<Rightarrow> ''Promote to Integration '' @ u_arrow | ToProduction \<Rightarrow> ''Promote to production '' @ u_arrow)
       (offered row)"

definition shows_empty :: "lifecycle_page \<Rightarrow> bool" where
  "shows_empty st \<longleftrightarrow> lf_rows st = [] \<and> \<not> lf_loading st \<and> truthy (lf_error st) = None"

section \<open>Backfills\<close>

record backfill_form =
  ff_from :: string
  ff_to :: string
  ff_partitionDays :: int
  ff_maxConcurrency :: int

record backfill_plan =
  bp_from :: string
  bp_to :: string
  bp_partitionDays :: int
  bp_maxConcurrency :: int
  bp_partitionCount :: int
  bp_estimatedExecutions :: int

record backfill_job =
  bj_id :: string
  bj_status :: string
  bj_from :: string
  bj_to :: string
  bj_partitionCount :: int
  bj_running :: int
  bj_completed :: int
  bj_failed :: int

datatype backfill_call = PlanBackfill backfill_form | StartBackfill backfill_form | ListBackfills

datatype busy_with = Planning | Starting

record backfill_panel =
  bf_form :: backfill_form
  bf_plan :: "backfill_plan option"
  bf_jobs :: "backfill_job list"
  bf_busy :: "busy_with option"
  bf_error :: "string option"
  bf_calls :: "backfill_call list"

definition bf_opened :: backfill_panel where
  "bf_opened = \<lparr>bf_form = \<lparr>ff_from = '''', ff_to = '''', ff_partitionDays = 1, ff_maxConcurrency = 2\<rparr>, bf_plan = None,
     bf_jobs = [], bf_busy = None, bf_error = None, bf_calls = []\<rparr>"

definition loadJobs :: "backfill_panel \<Rightarrow> backfill_panel" where
  "loadJobs st = st\<lparr>bf_calls := bf_calls st @ [ListBackfills]\<rparr>"

text \<open>The server sends a list, or an object with or without one.\<close>

definition jobs_answer :: "string option + (backfill_job list + backfill_job list option) \<Rightarrow> backfill_panel \<Rightarrow> backfill_panel" where
  "jobs_answer out st =
     (case out of
        Inr (Inl js) \<Rightarrow> st\<lparr>bf_jobs := js\<rparr>
      | Inr (Inr js) \<Rightarrow> st\<lparr>bf_jobs := nullish js []\<rparr>
      | Inl e \<Rightarrow> st\<lparr>bf_error := Some (nullish e ''Failed to load backfills'')\<rparr>)"

text \<open>\<open>body\<close>: the form with both times in UTC.\<close>

definition body :: "(string \<Rightarrow> string option) \<Rightarrow> backfill_form \<Rightarrow> backfill_form option" where
  "body to_iso f =
     (case (to_iso (ff_from f), to_iso (ff_to f)) of
        (Some a, Some b) \<Rightarrow> Some (f\<lparr>ff_from := a, ff_to := b\<rparr>)
      | _ \<Rightarrow> None)"

definition edit_form :: "(backfill_form \<Rightarrow> backfill_form) \<Rightarrow> backfill_panel \<Rightarrow> backfill_panel" where
  "edit_form change st = st\<lparr>bf_form := change (bf_form st), bf_plan := None\<rparr>"

definition submitPlan :: "(string \<Rightarrow> string option) \<Rightarrow> backfill_panel \<Rightarrow> backfill_panel" where
  "submitPlan to_iso st =
     (if ff_from (bf_form st) = [] \<or> ff_to (bf_form st) = [] then st\<lparr>bf_error := Some ''Please select both From and To dates.''\<rparr>
      else let st1 = st\<lparr>bf_busy := Some Planning, bf_error := None, bf_plan := None\<rparr> in
        case body to_iso (bf_form st) of
          None \<Rightarrow> st1\<lparr>bf_error := Some ''Invalid time value'', bf_busy := None\<rparr>
        | Some b \<Rightarrow> st1\<lparr>bf_calls := bf_calls st1 @ [PlanBackfill b]\<rparr>)"

definition plan_answer :: "string option + backfill_plan \<Rightarrow> backfill_panel \<Rightarrow> backfill_panel" where
  "plan_answer out st =
     (case out of
        Inr p \<Rightarrow> st\<lparr>bf_plan := Some p, bf_busy := None\<rparr>
      | Inl e \<Rightarrow> st\<lparr>bf_error := Some (nullish e ''Backfill plan failed''), bf_busy := None\<rparr>)"

definition start :: "(string \<Rightarrow> string option) \<Rightarrow> backfill_panel \<Rightarrow> backfill_panel" where
  "start to_iso st =
     (let st1 = st\<lparr>bf_busy := Some Starting, bf_error := None\<rparr> in
      case body to_iso (bf_form st) of
        None \<Rightarrow> st1\<lparr>bf_error := Some ''Invalid time value'', bf_busy := None\<rparr>
      | Some b \<Rightarrow> st1\<lparr>bf_calls := bf_calls st1 @ [StartBackfill b]\<rparr>)"

text \<open>The answer to the start; the panel stays busy until the jobs are loaded again.\<close>

definition start_answer :: "string option + unit \<Rightarrow> backfill_panel \<Rightarrow> backfill_panel" where
  "start_answer out st =
     (case out of
        Inr _ \<Rightarrow> loadJobs (st\<lparr>bf_plan := None\<rparr>)
      | Inl e \<Rightarrow> st\<lparr>bf_error := Some (nullish e ''Backfill start failed''), bf_busy := None\<rparr>)"

definition start_done :: "backfill_panel \<Rightarrow> backfill_panel" where
  "start_done st = st\<lparr>bf_busy := None\<rparr>"

definition plan_line :: "backfill_plan \<Rightarrow> string" where
  "plan_line p =
     int_str (bp_partitionCount p) @ '' partitions '' @ u_middot @ '' '' @ int_str (bp_estimatedExecutions p)
       @ '' estimated executions '' @ u_middot @ '' up to '' @ int_str (bp_maxConcurrency p) @ '' concurrent''"

definition job_lines :: "backfill_job \<Rightarrow> string \<times> string" where
  "job_lines job =
     (take 10 (bj_from job) @ '' '' @ u_arrow @ '' '' @ take 10 (bj_to job) @ '' '' @ u_middot @ '' ''
        @ int_str (bj_partitionCount job) @ '' partitions'',
      bj_status job @ '' '' @ u_middot @ '' '' @ int_str (bj_completed job) @ '' done '' @ u_middot @ '' ''
        @ int_str (bj_running job) @ '' running '' @ u_middot @ '' '' @ int_str (bj_failed job) @ '' failed'')"

text \<open>The buttons: both are locked while the panel is busy, and starting needs a plan.\<close>

definition can_submit :: "backfill_panel \<Rightarrow> bool" where
  "can_submit st \<longleftrightarrow> bf_busy st = None"

definition can_start :: "backfill_panel \<Rightarrow> bool" where
  "can_start st \<longleftrightarrow> bf_plan st \<noteq> None \<and> bf_busy st = None"

text \<open>The panel in the page: its interval asks for the jobs every five seconds until it is closed, when its state is gone.\<close>

record open_panel =
  op_panel :: backfill_panel
  op_mounted :: bool

definition op_mount :: open_panel where
  "op_mount = \<lparr>op_panel = loadJobs bf_opened, op_mounted = True\<rparr>"

definition op_tick :: "open_panel \<Rightarrow> open_panel" where
  "op_tick p = (if op_mounted p then p\<lparr>op_panel := loadJobs (op_panel p)\<rparr> else p)"

definition op_close :: "open_panel \<Rightarrow> open_panel" where
  "op_close p = p\<lparr>op_mounted := False\<rparr>"

lemma closed_panel_quiet: "op_tick (op_close p) = op_close p"
  by (simp add: op_tick_def op_close_def)

section \<open>What the page shows\<close>

fun STAGE_STYLE :: "stage \<Rightarrow> string" where
  "STAGE_STYLE Draft = ''bg-gray-100 text-gray-500 dark:bg-white/10 dark:text-white/60''"
| "STAGE_STYLE Testing = ''bg-amber-50 text-amber-700 dark:bg-amber-500/15 dark:text-amber-300''"
| "STAGE_STYLE Production = ''bg-emerald-50 text-emerald-700 dark:bg-emerald-500/15 dark:text-emerald-300''"
| "STAGE_STYLE Archived = ''bg-gray-50 text-gray-400 dark:bg-white/5 dark:text-white/35''"

definition StageBadge :: "stage \<Rightarrow> string \<times> string" where
  "StageBadge s = (STAGE_STYLE s, displayStage s)"

text \<open>The head of the panel, and its inputs: label, value, and for a number the least and the greatest that the form takes.\<close>

definition panel_head :: "stage_row \<Rightarrow> string list" where
  "panel_head row = [''Historical backfill '' @ u_middot @ '' '' @ sr_name row, ''Preview date partitions before consuming executions.'']"

definition form_inputs :: "backfill_panel \<Rightarrow> (string \<times> string \<times> (int \<times> int) option) list" where
  "form_inputs st =
     [(''From'', ff_from (bf_form st), None), (''To (exclusive)'', ff_to (bf_form st), None),
      (''Days / partition'', int_str (ff_partitionDays (bf_form st)), Some (1, 31)),
      (''Concurrency'', int_str (ff_maxConcurrency (bf_form st)), Some (1, 5))]"

definition preview_button :: "backfill_panel \<Rightarrow> string \<times> bool" where
  "preview_button st = (if bf_busy st = Some Planning then ''Planning'' @ u_ellipsis else ''Preview'', \<not> can_submit st)"

definition start_section :: "backfill_panel \<Rightarrow> (string \<times> string \<times> bool) option" where
  "start_section st =
     map_option (\<lambda>p. (plan_line p, if bf_busy st = Some Starting then ''Starting'' @ u_ellipsis else ''Start backfill'', \<not> can_start st))
       (bf_plan st)"

definition jobs_section :: "backfill_panel \<Rightarrow> (string \<times> string \<times> (string \<times> string) list) option" where
  "jobs_section st =
     (if bf_jobs st = [] then None else Some (''Recent jobs'', ''Refresh status'', map job_lines (bf_jobs st)))"

definition lf_notices :: "lifecycle_page \<Rightarrow> string list" where
  "lf_notices st =
     (case truthy (lf_error st) of Some e \<Rightarrow> [e] | None \<Rightarrow> [])
     @ (if shows_empty st then [''No pipelines yet.'', ''Create a pipeline''] else [])"

text \<open>A row: texts, badge, the button of its transition with its lock, and whether its panel is open.\<close>

definition lf_row :: "lifecycle_page \<Rightarrow> stage_row \<Rightarrow> string list \<times> (string \<times> string) \<times> (string \<times> bool) option \<times> bool" where
  "lf_row st row =
     (row_text row, StageBadge (row_stage row), map_option (\<lambda>t. (t, locked row st)) (button_text row st),
      lf_backfill st = Some (sr_id row))"

definition lf_refresh_button :: "lifecycle_page \<Rightarrow> string \<times> bool" where
  "lf_refresh_button st = (''Refresh'', lf_loading st)"

lemma one_panel_open:
  "distinct (map sr_id (lf_rows st)) \<Longrightarrow> length (filter (\<lambda>row. snd (snd (snd (lf_row st row)))) (lf_rows st)) \<le> 1"
proof -
  assume d: "distinct (map sr_id (lf_rows st))"
  have "length (filter (\<lambda>row. p = Some (sr_id row)) rows) \<le> 1" if "distinct (map sr_id rows)" for p rows
    using that
  proof (induction rows)
    case (Cons r rows)
    show ?case
    proof (cases "p = Some (sr_id r)")
      case True
      have "filter (\<lambda>row. sr_id r = sr_id row) rows = []" using Cons.prems by (auto simp: filter_empty_conv image_iff)
      with True show ?thesis by simp
    next
      case False
      then show ?thesis using Cons by simp
    qed
  qed simp
  with d show ?thesis by (simp add: lf_row_def)
qed

text \<open>A job list that could not be fetched leaves its message on the panel although the next fetch, five seconds later,
  succeeds.\<close>

lemma poll_message_stays: "bf_error (jobs_answer (Inr js) (jobs_answer (Inl (Some e)) st)) = Some e"
  by (simp add: jobs_answer_def split: sum.split)

section \<open>Overrides\<close>

inductive lifecycle_step :: "lifecycle_page \<Rightarrow> lifecycle_page \<Rightarrow> bool" where
  Refreshed: "lifecycle_step st (lf_refresh st)"
| Loaded: "lifecycle_step st (lf_refresh_answer out st)"
| Clicked: "row \<in> set (lf_rows st) \<Longrightarrow> offered row = Some to \<Longrightarrow> \<not> locked row st \<Longrightarrow> lifecycle_step st (transition row to st)"
| Moved: "SetStage (sr_id row) to False \<in> set (lf_calls st) \<Longrightarrow> lifecycle_step st (transition_answer row to confirmed out' st)"
| Overridden: "SetStage i to True \<in> set (lf_calls st) \<Longrightarrow> lifecycle_step st (override_answer out' st)"
| Done: "lifecycle_step st (transition_done st)"
| Opened: "lifecycle_step st (toggleBackfill row st)"

inductive lifecycle_reachable :: "lifecycle_page \<Rightarrow> bool" where
  Mounted: "lifecycle_reachable (lf_refresh (lf_opened i))"
| Stepped: "lifecycle_reachable st \<Longrightarrow> lifecycle_step st st' \<Longrightarrow> lifecycle_reachable st'"

text \<open>Every override in the log comes after a plain request for the same move, and moves to production.\<close>

definition overrides_asked :: "stage_call list \<Rightarrow> bool" where
  "overrides_asked calls \<longleftrightarrow>
     (\<forall>k i to. k < length calls \<and> calls ! k = SetStage i to True \<longrightarrow> to = ToProduction \<and> SetStage i to False \<in> set (take k calls))"

lemma overrides_snoc:
  "overrides_asked (calls @ [c]) \<longleftrightarrow> overrides_asked calls
     \<and> (\<forall>i to. c = SetStage i to True \<longrightarrow> to = ToProduction \<and> SetStage i to False \<in> set calls)"
proof -
  have "overrides_asked (calls @ [c]) \<longleftrightarrow> (\<forall>k < Suc (length calls). \<forall>i to. (calls @ [c]) ! k = SetStage i to True \<longrightarrow>
      to = ToProduction \<and> SetStage i to False \<in> set (take k (calls @ [c])))"
    by (auto simp: overrides_asked_def)
  then show ?thesis unfolding overrides_asked_def by (auto simp: All_less_Suc nth_append)
qed

lemma lifecycle_step_overrides: "lifecycle_step st st' \<Longrightarrow> overrides_asked (lf_calls st) \<Longrightarrow> overrides_asked (lf_calls st')"
proof (induction rule: lifecycle_step.induct)
  case (Moved row to st confirmed out')
  then show ?case
    by (auto simp: transition_answer_def lf_refresh_def transition_done_def overrides_snoc split: sum.split)
qed (auto simp: lf_refresh_def lf_refresh_answer_def transition_def override_answer_def transition_done_def toggleBackfill_def
    overrides_snoc split: sum.split)

text \<open>C31: a data contract is never overridden behind the user's back: in every reachable state each forced move in
  the log is a move to production that the server was first asked to make without force, and a refused move becomes a forced one
  only when the refusal names a breaking contract and the user has confirmed it.\<close>

theorem overrides_are_asked_for:
  assumes "lifecycle_reachable st"
  shows "overrides_asked (lf_calls st)
    \<and> (\<forall>row to confirmed e. SetStage i to' True \<in> set (lf_calls (transition_answer row to confirmed (Inl e) st)) \<longrightarrow>
        SetStage i to' True \<in> set (lf_calls st)
        \<or> i = sr_id row \<and> to' = ToProduction \<and> confirmed \<and> str_includes (nullish e ''undefined'') ''breaking data contract'')"
proof -
  have "overrides_asked (lf_calls st)" using assms
  proof (induction rule: lifecycle_reachable.induct)
    case (Mounted i)
    show ?case by (auto simp: overrides_asked_def lf_refresh_def lf_opened_def)
  qed (rule lifecycle_step_overrides)
  then show ?thesis by (auto simp: transition_answer_def transition_done_def split: if_splits)
qed

section \<open>Previews\<close>

text \<open>The panel in the hands of a user who does not edit the form while it is busy.\<close>

inductive panel_step :: "(backfill_form \<Rightarrow> backfill_plan) \<Rightarrow> (string \<Rightarrow> string option) \<Rightarrow> backfill_panel \<Rightarrow> backfill_panel \<Rightarrow> bool"
  for server to_iso where
  Edited: "bf_busy st = None \<Longrightarrow> panel_step server to_iso st (edit_form change st)"
| Submitted: "can_submit st \<Longrightarrow> panel_step server to_iso st (submitPlan to_iso st)"
| Planned: "bf_busy st = Some Planning \<Longrightarrow> PlanBackfill b = last (filter (\<lambda>c. c \<noteq> ListBackfills) (bf_calls st)) \<Longrightarrow>
    panel_step server to_iso st (plan_answer (Inr (server b)) st)"
| NotPlanned: "bf_busy st = Some Planning \<Longrightarrow> panel_step server to_iso st (plan_answer (Inl e) st)"
| Started: "can_start st \<Longrightarrow> panel_step server to_iso st (start to_iso st)"
| StartAnswered: "bf_busy st = Some Starting \<Longrightarrow> panel_step server to_iso st (start_answer out st)"
| StartDone: "bf_busy st = Some Starting \<Longrightarrow> panel_step server to_iso st (start_done st)"
| Polled: "panel_step server to_iso st (loadJobs st)"
| Listed: "panel_step server to_iso st (jobs_answer js st)"

inductive panel_reachable :: "(backfill_form \<Rightarrow> backfill_plan) \<Rightarrow> (string \<Rightarrow> string option) \<Rightarrow> backfill_panel \<Rightarrow> bool"
  for server to_iso where
  PanelOpened: "panel_reachable server to_iso bf_opened"
| PanelStepped: "panel_reachable server to_iso st \<Longrightarrow> panel_step server to_iso st st' \<Longrightarrow> panel_reachable server to_iso st'"

definition own_calls :: "backfill_panel \<Rightarrow> backfill_call list" where
  "own_calls st = filter (\<lambda>c. c \<noteq> ListBackfills) (bf_calls st)"

definition panel_inv :: "(backfill_form \<Rightarrow> backfill_plan) \<Rightarrow> (string \<Rightarrow> string option) \<Rightarrow> backfill_panel \<Rightarrow> bool" where
  "panel_inv server to_iso st \<longleftrightarrow>
     (bf_busy st = Some Planning \<longrightarrow> own_calls st \<noteq> [] \<and> (\<exists>b. body to_iso (bf_form st) = Some b \<and> last (own_calls st) = PlanBackfill b))
     \<and> (\<forall>p. bf_plan st = Some p \<longrightarrow> bf_busy st \<noteq> Some Planning
          \<and> (\<exists>b. body to_iso (bf_form st) = Some b \<and> p = server b \<and> PlanBackfill b \<in> set (bf_calls st)))"

lemma panel_step_inv: "panel_step server to_iso st st' \<Longrightarrow> panel_inv server to_iso st \<Longrightarrow> panel_inv server to_iso st'"
proof (induction rule: panel_step.induct)
  case (Planned st b)
  then obtain b' where b': "own_calls st \<noteq> []" "body to_iso (bf_form st) = Some b'" "last (own_calls st) = PlanBackfill b'"
    by (auto simp: panel_inv_def)
  then have "b' = b" using Planned(2) by (simp add: own_calls_def)
  moreover have "PlanBackfill b' \<in> set (bf_calls st)"
    using last_in_set[OF b'(1)] b'(3) by (simp add: own_calls_def)
  ultimately show ?case using b'(2) by (simp add: plan_answer_def panel_inv_def own_calls_def)
qed (auto simp: edit_form_def submitPlan_def plan_answer_def start_def start_answer_def start_done_def loadJobs_def jobs_answer_def
    panel_inv_def own_calls_def can_start_def can_submit_def Let_def split: option.splits sum.splits)

text \<open>What is started is what was previewed: as long as the form is left alone while the panel is busy, the
  button that starts a backfill sends exactly the request whose plan is on display.\<close>

theorem started_is_previewed:
  assumes "panel_reachable server to_iso st" and "can_start st"
  shows "\<exists>b. bf_plan st = Some (server b) \<and> bf_calls (start to_iso st) = bf_calls st @ [StartBackfill b] \<and> PlanBackfill b \<in> set (bf_calls st)"
proof -
  have "panel_inv server to_iso st" using assms(1)
  proof (induction rule: panel_reachable.induct)
    case PanelOpened
    show ?case by (simp add: panel_inv_def bf_opened_def)
  qed (rule panel_step_inv)
  then show ?thesis using assms(2) by (auto simp: panel_inv_def can_start_def start_def Let_def)
qed

section \<open>Instances\<close>

theorem overrides_are_asked_for_witness:
  "overrides_asked (lf_calls (lf_refresh (lf_opened None)))"
  using overrides_are_asked_for[OF lifecycle_reachable.Mounted[of None]] by blast

definition march :: "backfill_form \<Rightarrow> backfill_form" where
  "march f = f\<lparr>ff_from := ''2024-03-01T00:00:00'', ff_to := ''2024-03-08T00:00:00''\<rparr>"

definition week_server :: "backfill_form \<Rightarrow> backfill_plan" where
  "week_server b = \<lparr>bp_from = ff_from b, bp_to = ff_to b, bp_partitionDays = ff_partitionDays b,
     bp_maxConcurrency = ff_maxConcurrency b, bp_partitionCount = 7, bp_estimatedExecutions = 7\<rparr>"

definition submitted_panel :: backfill_panel where
  "submitted_panel = submitPlan Some (edit_form march bf_opened)"

definition planned_panel :: backfill_panel where
  "planned_panel = plan_answer (Inr (week_server (march (bf_form bf_opened)))) submitted_panel"

lemmas panel_eval = planned_panel_def submitted_panel_def plan_answer_def submitPlan_def edit_form_def march_def bf_opened_def body_def

lemma planned_panel_reachable: "panel_reachable week_server Some planned_panel"
proof -
  have "panel_reachable week_server Some (edit_form march bf_opened)"
    by (rule panel_reachable.PanelStepped[OF panel_reachable.PanelOpened Edited]) (simp add: bf_opened_def)
  then have "panel_reachable week_server Some submitted_panel" unfolding submitted_panel_def
    by (rule panel_reachable.PanelStepped) (rule Submitted, simp add: can_submit_def edit_form_def bf_opened_def)
  then show ?thesis unfolding planned_panel_def
    by (rule panel_reachable.PanelStepped) (rule Planned, simp_all add: panel_eval Let_def)
qed

theorem started_is_previewed_witness:
  "can_start planned_panel \<and> (\<exists>b. bf_plan planned_panel = Some (week_server b)
     \<and> bf_calls (start Some planned_panel) = bf_calls planned_panel @ [StartBackfill b])"
proof -
  have s: "can_start planned_panel" by (simp add: can_start_def panel_eval Let_def)
  then show ?thesis using started_is_previewed[OF planned_panel_reachable s] by blast
qed

text \<open>The form is not locked while a preview is under way: the plan of the old dates arrives after an edit, and
  the start sends dates that were never previewed.\<close>

lemma late_plan_shown:
  defines "longer \<equiv> (\<lambda>f. f\<lparr>ff_to := ''2030-01-01T00:00:00''\<rparr>)"
  defines "st \<equiv> plan_answer (Inr (week_server (march (bf_form bf_opened)))) (edit_form longer submitted_panel)"
  shows "can_start st \<and> map_option bp_to (bf_plan st) = Some ''2024-03-08T00:00:00''
    \<and> last (bf_calls (start Some st)) = StartBackfill (longer (march (bf_form bf_opened)))"
  by (simp add: st_def longer_def can_start_def start_def week_server_def panel_eval Let_def)

end
