(* ===== verification/MonitoringPage.thy ===== *)
theory MonitoringPage
  imports PageText Complex_Main
begin

text \<open>
  The monitoring page, \<open>apps/web/src/pages/MonitoringPage.tsx\<close>: the three requests of a refresh, the
  poll, the alerts and their actions, the figures, the bars of the trend, and the lists of activity,
  quality issues, incidents and failures with the table of pipelines.

  \<open>Promise.all\<close> over a required and two optional requests is one answer: the overview or an error,
  and the other two, \<open>None\<close> where they failed. Bar heights are rational percentages.
\<close>

section \<open>Data\<close>

record run_summary =
  su_runs :: int
  su_succeeded :: int
  su_failed :: int
  su_running :: int
  su_successRate :: "int option"
  su_avgDurationMs :: int

record trend_point =
  tp_day :: string
  tp_runs :: nat
  tp_succeeded :: nat
  tp_failed :: nat

datatype health = Healthy | Warning | Critical | Unmonitored

record breach =
  br_type :: string
  br_severity :: string
  br_message :: string

record pipeline_row =
  pr_id :: string
  pr_name :: string
  pr_version :: int
  pr_status :: string
  pr_environment :: "string option"
  pr_runs :: int
  pr_failed :: int
  pr_avg_duration_ms :: "int option"
  pr_last_execution_id :: "string option"
  pr_last_phase :: "string option"
  pr_last_started_at :: "string option"
  pr_health :: "health option"
  pr_owner :: "string option"
  pr_domain :: "string option"
  pr_tags :: "string list option"
  pr_breaches :: "breach list option"

record failure_row =
  fr_id :: string
  fr_name :: string
  fr_environment :: "string option"
  fr_started_at :: string
  fr_node_id :: "string option"
  fr_error :: "string option"

datatype issue_status = Issue_Warning | Issue_Failed

record error_sample =
  es_rowIndex :: nat
  es_errors :: "string list option"

record quality_issue =
  qi_execution_id :: string
  qi_node_id :: string
  qi_status :: issue_status
  qi_passed_count :: int
  qi_failed_count :: int
  qi_error_samples :: "error_sample list option"
  qi_evaluated_at :: string
  qi_name :: string
  qi_environment :: "string option"

record monitoring_data =
  md_days :: int
  md_summary :: run_summary
  md_trend :: "trend_point list"
  md_pipelines :: "pipeline_row list"
  md_recentFailures :: "failure_row list"
  md_checks :: int
  md_passedRows :: int
  md_failedRows :: int
  md_issues :: int
  md_recentQualityIssues :: "quality_issue list"

datatype alert_status = Open | Acknowledged | Resolved

datatype alert_severity = Severity_Warning | Severity_Critical

record pipeline_alert =
  al_id :: string
  al_pipeline_name :: string
  al_kind :: string
  al_severity :: alert_severity
  al_status :: alert_status
  al_message :: string
  al_last_seen_at :: string
  al_acknowledged_by_email :: "string option"
  al_notification_sent_at :: "string option"
  al_notification_attempts :: "int option"
  al_notification_error :: "string option"

datatype event_level = Event_Info | Event_Error

record node_event =
  ne_execution_id :: string
  ne_node_id :: string
  ne_status :: string
  ne_level :: event_level
  ne_message :: string
  ne_finished_at :: string
  ne_pipeline_id :: string
  ne_name :: string
  ne_environment :: "string option"

section \<open>State and requests\<close>

datatype monitor_call =
    Overview int
  | ActiveAlerts
  | ActivityLogs string string int int
  | Acknowledge string
  | Resolve string
  | RetryNotification string

record monitoring_page =
  mp_days :: int
  mp_data :: "monitoring_data option"
  mp_alerts :: "pipeline_alert list"
  mp_logs :: "node_event list"
  mp_logInput :: string
  mp_logQuery :: string
  mp_logLevel :: string
  mp_alertBusy :: "string option"
  mp_loading :: bool
  mp_error :: "string option"
  mp_calls :: "monitor_call list"

definition mp_initial :: monitoring_page where
  "mp_initial = \<lparr>mp_days = 7, mp_data = None, mp_alerts = [], mp_logs = [], mp_logInput = '''', mp_logQuery = '''',
     mp_logLevel = ''all'', mp_alertBusy = None, mp_loading = True, mp_error = None, mp_calls = []\<rparr>"

definition refresh :: "monitoring_page \<Rightarrow> monitoring_page" where
  "refresh st =
     st\<lparr>mp_loading := True, mp_error := None,
        mp_calls := mp_calls st @ [Overview (mp_days st), ActiveAlerts, ActivityLogs (mp_logQuery st) (mp_logLevel st) 100 (mp_days st)]\<rparr>"

definition refresh_answer :: "string option + (monitoring_data \<times> pipeline_alert list option \<times> node_event list option option)
    \<Rightarrow> monitoring_page \<Rightarrow> monitoring_page" where
  "refresh_answer out st =
     (case out of
        Inr (overview, incidents, activity) \<Rightarrow>
          st\<lparr>mp_data := Some overview, mp_alerts := nullish incidents [],
             mp_logs := nullish (nullish activity (Some [])) [], mp_loading := False\<rparr>
      | Inl e \<Rightarrow> st\<lparr>mp_error := Some (nullish e ''Failed to load monitoring''), mp_loading := False\<rparr>)"

text \<open>The effect, on a change of the days, the query or the level: it refreshes at once and every 15 s.\<close>

definition mp_effect :: "monitoring_page \<Rightarrow> monitoring_page \<Rightarrow> monitoring_page" where
  "mp_effect old new =
     (if mp_days new = mp_days old \<and> mp_logQuery new = mp_logQuery old \<and> mp_logLevel new = mp_logLevel old
      then new else refresh new)"

definition setDays :: "int \<Rightarrow> monitoring_page \<Rightarrow> monitoring_page" where
  "setDays d st = mp_effect st (st\<lparr>mp_days := d\<rparr>)"

definition submitSearch :: "monitoring_page \<Rightarrow> monitoring_page" where
  "submitSearch st = mp_effect st (st\<lparr>mp_logQuery := js_trim (mp_logInput st)\<rparr>)"

definition setLogLevel :: "string \<Rightarrow> monitoring_page \<Rightarrow> monitoring_page" where
  "setLogLevel l st = mp_effect st (st\<lparr>mp_logLevel := l\<rparr>)"

section \<open>Alerts\<close>

datatype alert_action = DoAcknowledge | DoResolve

definition updateAlert :: "string \<Rightarrow> alert_action \<Rightarrow> monitoring_page \<Rightarrow> monitoring_page" where
  "updateAlert i action st =
     st\<lparr>mp_alertBusy := Some i,
        mp_calls := mp_calls st @ [case action of DoAcknowledge \<Rightarrow> Acknowledge i | DoResolve \<Rightarrow> Resolve i]\<rparr>"

definition alert_answer :: "string \<Rightarrow> alert_action \<Rightarrow> string option + unit \<Rightarrow> monitoring_page \<Rightarrow> monitoring_page" where
  "alert_answer i action out st =
     (let st = st\<lparr>mp_alertBusy := None\<rparr> in
      case out of
        Inl e \<Rightarrow> st\<lparr>mp_error := Some (nullish e
            (''Failed to '' @ (case action of DoAcknowledge \<Rightarrow> ''acknowledge'' | DoResolve \<Rightarrow> ''resolve'') @ '' alert''))\<rparr>
      | Inr _ \<Rightarrow>
          st\<lparr>mp_alerts := (case action of
              DoResolve \<Rightarrow> filter (\<lambda>a. al_id a \<noteq> i) (mp_alerts st)
            | DoAcknowledge \<Rightarrow> map (\<lambda>a. if al_id a = i then a\<lparr>al_status := Acknowledged\<rparr> else a) (mp_alerts st))\<rparr>)"

definition retryNotification :: "string \<Rightarrow> monitoring_page \<Rightarrow> monitoring_page" where
  "retryNotification i st = st\<lparr>mp_alertBusy := Some i, mp_calls := mp_calls st @ [RetryNotification i]\<rparr>"

definition retry_answer :: "string \<Rightarrow> string option + unit \<Rightarrow> monitoring_page \<Rightarrow> monitoring_page" where
  "retry_answer i out st =
     (let st = st\<lparr>mp_alertBusy := None\<rparr> in
      case out of
        Inl e \<Rightarrow> st\<lparr>mp_error := Some (nullish e ''Failed to retry notification'')\<rparr>
      | Inr _ \<Rightarrow> st\<lparr>mp_alerts := map (\<lambda>a. if al_id a = i
            then a\<lparr>al_notification_error := None, al_notification_attempts := Some 0\<rparr> else a) (mp_alerts st)\<rparr>)"

text \<open>The buttons of an alert that are not locked.\<close>

definition alert_buttons :: "monitoring_page \<Rightarrow> pipeline_alert \<Rightarrow> string list" where
  "alert_buttons st a =
     (if mp_alertBusy st = Some (al_id a) then []
      else (if truthy (al_notification_error a) \<noteq> None then [''Retry webhook''] else [])
        @ (if al_status a = Open then [''Acknowledge''] else []) @ [''Resolve''])"

section \<open>Figures\<close>

text \<open>\<open>duration\<close> on whole milliseconds.\<close>

definition duration :: "int \<Rightarrow> string" where
  "duration ms =
     (if ms \<ge> 60000 then to_fixed1 ms 60000 @ ''m'' else if ms \<ge> 1000 then to_fixed1 ms 1000 @ ''s''
      else int_str ms @ ''ms'')"

definition cards :: "monitoring_data \<Rightarrow> (string \<times> string) list" where
  "cards d =
     [(''Runs'', int_str (su_runs (md_summary d))),
      (''Success rate'', case su_successRate (md_summary d) of None \<Rightarrow> u_emdash | Some r \<Rightarrow> int_str r @ ''%''),
      (''Failures'', int_str (su_failed (md_summary d))),
      (''Average duration'', duration (su_avgDurationMs (md_summary d))),
      (''SLO breaches'', nat_str (length (filter (\<lambda>p. pr_health p = Some Critical \<or> pr_health p = Some Warning) (md_pipelines d)))),
      (''Quality rejects'', int_str (md_failedRows d))]"

definition maxRuns :: "monitoring_data option \<Rightarrow> nat" where
  "maxRuns data = Max (set (1 # (case data of None \<Rightarrow> [1] | Some d \<Rightarrow> map tp_runs (md_trend d))))"

definition run_bar :: "nat \<Rightarrow> trend_point \<Rightarrow> rat" where
  "run_bar mx p = max (if tp_runs p \<noteq> 0 then 6 else 0) (of_nat (tp_runs p) / of_nat mx * 100)"

text \<open>The red part is drawn only when there are failures.\<close>

definition failed_bar :: "nat \<Rightarrow> trend_point \<Rightarrow> rat option" where
  "failed_bar mx p = (if tp_failed p > 0 then Some (max 5 (of_nat (tp_failed p) / of_nat mx * 100)) else None)"

definition bar_title :: "trend_point \<Rightarrow> string" where
  "bar_title p = tp_day p @ '': '' @ nat_str (tp_runs p) @ '' runs, '' @ nat_str (tp_failed p) @ '' failed''"

definition failure_text :: "failure_row \<Rightarrow> string" where
  "failure_text f = (case truthy (fr_node_id f) of Some n \<Rightarrow> n @ '': '' | None \<Rightarrow> '''') @ nullish (fr_error f) ''Pipeline failed''"

definition pipeline_subtitle :: "pipeline_row \<Rightarrow> string" where
  "pipeline_subtitle p =
     ''v'' @ int_str (pr_version p) @ '' '' @ u_middot @ '' '' @ displayEnvironment (pr_environment p) @ '' '' @ u_middot @ '' ''
       @ nullish (pr_owner p) ''unowned''"

fun health_word :: "health \<Rightarrow> string" where
  "health_word Healthy = ''healthy''"
| "health_word Warning = ''warning''"
| "health_word Critical = ''critical''"
| "health_word Unmonitored = ''unmonitored''"

definition health_text :: "pipeline_row \<Rightarrow> string" where
  "health_text p =
     (case pr_health p of Some h \<Rightarrow> health_word h | None \<Rightarrow> ''unknown'')
       @ (let n = length (nullish (pr_breaches p) []) in if n > 0 then '' '' @ u_middot @ '' '' @ nat_str n else '''')"

definition last_run_text :: "pipeline_row \<Rightarrow> string" where
  "last_run_text p = (if truthy (pr_last_execution_id p) \<noteq> None then nullish (pr_last_phase p) '''' else ''Never'')"

section \<open>Lists\<close>

text \<open>A list of the page: a sentence where it is empty, else its lines. A line links to a page; \<open>ln_alarm\<close> is its red form.\<close>

record page_line =
  ln_key :: string
  ln_to :: string
  ln_alarm :: bool
  ln_texts :: "string list"

definition listing :: "string \<Rightarrow> 'a list \<Rightarrow> string + 'a list" where
  "listing sentence xs = (if xs = [] then Inl sentence else Inr xs)"

fun level_word :: "event_level \<Rightarrow> string" where
  "level_word Event_Info = ''info''"
| "level_word Event_Error = ''error''"

definition log_line :: "(string \<Rightarrow> string) \<Rightarrow> node_event \<Rightarrow> page_line" where
  "log_line local_time item =
     \<lparr>ln_key = ne_execution_id item @ '':'' @ ne_node_id item, ln_to = ''/runs/'' @ ne_execution_id item,
      ln_alarm = (ne_level item = Event_Error),
      ln_texts = [level_word (ne_level item) @ '' '' @ u_middot @ '' '' @ ne_node_id item, ne_name item, ne_message item,
        displayEnvironment (ne_environment item) @ '' '' @ u_middot @ '' '' @ local_time (ne_finished_at item)]\<rparr>"

definition activity_list :: "(string \<Rightarrow> string) \<Rightarrow> monitoring_page \<Rightarrow> string + page_line list" where
  "activity_list local_time st = listing ''No matching activity.'' (map (log_line local_time) (mp_logs st))"

definition quality_header :: "(int \<Rightarrow> string) \<Rightarrow> monitoring_data option \<Rightarrow> string" where
  "quality_header to_locale data =
     int_str (case data of None \<Rightarrow> 0 | Some d \<Rightarrow> md_checks d) @ '' checks '' @ u_middot @ '' ''
       @ to_locale (case data of None \<Rightarrow> 0 | Some d \<Rightarrow> md_passedRows d) @ '' rows passed''"

text \<open>The badge beside it; amber when the number is not zero.\<close>

definition quality_badge :: "monitoring_data option \<Rightarrow> string \<times> bool" where
  "quality_badge data =
     (let n = (case data of None \<Rightarrow> 0 | Some d \<Rightarrow> md_issues d) in (int_str n @ '' issues'', n \<noteq> 0))"

fun issue_word :: "issue_status \<Rightarrow> string" where
  "issue_word Issue_Warning = ''warning''"
| "issue_word Issue_Failed = ''failed''"

text \<open>The errors of the first sample; an empty list of samples counts as none.\<close>

definition issue_reason :: "quality_issue \<Rightarrow> string" where
  "issue_reason issue =
     (case qi_error_samples issue of
        Some (s # _) \<Rightarrow> (case es_errors s of Some errors \<Rightarrow> join ''; '' errors | None \<Rightarrow> ''Contract violation'')
      | _ \<Rightarrow> ''Contract violation'')"

definition issue_line :: "(int \<Rightarrow> string) \<Rightarrow> quality_issue \<Rightarrow> page_line" where
  "issue_line to_locale issue =
     \<lparr>ln_key = qi_execution_id issue @ '':'' @ qi_node_id issue, ln_to = ''/runs/'' @ qi_execution_id issue,
      ln_alarm = (qi_status issue = Issue_Failed),
      ln_texts = [issue_word (qi_status issue), qi_name issue @ '' '' @ u_middot @ '' '' @ qi_node_id issue,
        to_locale (qi_failed_count issue) @ '' rejected '' @ u_middot @ '' '' @ issue_reason issue,
        displayEnvironment (qi_environment issue)]\<rparr>"

definition quality_list :: "(int \<Rightarrow> string) \<Rightarrow> monitoring_page \<Rightarrow> string + page_line list" where
  "quality_list to_locale st =
     listing ''No quality violations in this period.''
       (case mp_data st of None \<Rightarrow> [] | Some d \<Rightarrow> map (issue_line to_locale) (md_recentQualityIssues d))"

fun status_word :: "alert_status \<Rightarrow> string" where
  "status_word Open = ''open''"
| "status_word Acknowledged = ''acknowledged''"
| "status_word Resolved = ''resolved''"

fun severity_word :: "alert_severity \<Rightarrow> string" where
  "severity_word Severity_Warning = ''warning''"
| "severity_word Severity_Critical = ''critical''"

definition incident_texts :: "pipeline_alert \<Rightarrow> string list" where
  "incident_texts alert =
     [severity_word (al_severity alert), al_pipeline_name alert @ '' '' @ u_middot @ '' '' @ al_kind alert, al_message alert,
      status_word (al_status alert)]
     @ (if truthy (al_notification_sent_at alert) \<noteq> None then [''notified''] else [])"

text \<open>An incident: its texts and its buttons. The number of them stands beside the heading.\<close>

definition incident_list :: "monitoring_page \<Rightarrow> nat \<times> (string + (string list \<times> string list) list)" where
  "incident_list st =
     (length (mp_alerts st),
      listing ''No active incidents.'' (map (\<lambda>a. (incident_texts a, alert_buttons st a)) (mp_alerts st)))"

definition failure_line :: "failure_row \<Rightarrow> page_line" where
  "failure_line failure =
     \<lparr>ln_key = fr_id failure, ln_to = ''/runs/'' @ fr_id failure, ln_alarm = True,
      ln_texts = [fr_name failure, displayEnvironment (fr_environment failure), failure_text failure]\<rparr>"

definition failure_list :: "monitoring_page \<Rightarrow> string + page_line list" where
  "failure_list st =
     listing ''No failures in this period.'' (case mp_data st of None \<Rightarrow> [] | Some d \<Rightarrow> map failure_line (md_recentFailures d))"

text \<open>The colour of the last phase, as the class the page gives it.\<close>

definition phaseColor :: "(string \<times> string) list" where
  "phaseColor =
     [(''completed'', ''text-emerald-600 dark:text-emerald-300''), (''failed'', ''text-red-600 dark:text-danger''),
      (''running'', ''text-amber-600 dark:text-amber-300'')]"

definition phase_class :: "pipeline_row \<Rightarrow> string" where
  "phase_class p = nullish (map_of phaseColor (nullish (pr_last_phase p) '''')) ''text-gray-500''"

definition breach_title :: "pipeline_row \<Rightarrow> string option" where
  "breach_title p = map_option (\<lambda>bs. join [newline] (map br_message bs)) (pr_breaches p)"

text \<open>A row of the table: the name with its subtitle, the health, the last run with its link, runs, failures and the average.\<close>

definition health_row :: "pipeline_row \<Rightarrow> string list \<times> string option" where
  "health_row p =
     ([pr_name p, pipeline_subtitle p, health_text p, last_run_text p, int_str (pr_runs p), int_str (pr_failed p),
       duration (nullish (pr_avg_duration_ms p) 0)],
      map_option (\<lambda>i. ''/runs/'' @ i) (truthy (pr_last_execution_id p)))"

definition day_options :: "(int \<times> string) list" where
  "day_options = [(1, ''24 hours''), (7, ''7 days''), (30, ''30 days''), (90, ''90 days'')]"

definition level_options :: "(string \<times> string) list" where
  "level_options = [(''all'', ''All levels''), (''error'', ''Errors''), (''info'', ''Info'')]"

section \<open>The bars\<close>

text \<open>The trend is drawn to scale inside its frame: for every day of the data the bar of the runs lies between 0 and
  100 percent and is seen whenever there were runs, and the red part of the failures is never taller
  than the bar it lies on.\<close>

theorem bars_fit:
  assumes "p \<in> set (md_trend d)" and "tp_failed p \<le> tp_runs p"
  shows "0 \<le> run_bar (maxRuns (Some d)) p \<and> run_bar (maxRuns (Some d)) p \<le> 100
    \<and> (tp_runs p > 0 \<longrightarrow> run_bar (maxRuns (Some d)) p \<ge> 6)
    \<and> (case failed_bar (maxRuns (Some d)) p of None \<Rightarrow> tp_failed p = 0 | Some h \<Rightarrow> 5 \<le> h \<and> h \<le> run_bar (maxRuns (Some d)) p)"
proof -
  let ?mx = "maxRuns (Some d)"
  have le: "tp_runs p \<le> ?mx" and pos: "?mx > 0"
    unfolding maxRuns_def using assms(1) by (auto simp: Max_ge_iff intro: Max_ge intro!: less_le_trans[OF zero_less_one])
  have frac: "of_nat (tp_runs p) / of_nat ?mx * 100 \<le> (100 :: rat)"
    using le pos by (simp add: divide_le_eq)
  have sub: "of_nat (tp_failed p) / of_nat ?mx * 100 \<le> (of_nat (tp_runs p) / of_nat ?mx * 100 :: rat)"
    using assms(2) pos by (simp add: divide_right_mono)
  show ?thesis using frac sub assms(2) by (auto simp: run_bar_def failed_bar_def max_def)
qed

lemma others_kept:
  assumes "\<And>a. al_id a \<noteq> i \<Longrightarrow> g a = a" and "\<And>a. al_id (g a) = al_id a"
  shows "filter (\<lambda>a. al_id a \<noteq> i) (map g xs) = filter (\<lambda>a. al_id a \<noteq> i) xs"
  by (induction xs) (simp_all add: assms)

text \<open>An action on an alert does what it says to that alert and nothing to the others: acknowledging keeps the list
  and marks the alert, resolving removes it, a failure changes no alert and shows an error, and in each case
  the buttons are given back.\<close>

theorem alert_actions:
  "let ok = alert_answer i action (Inr ()) st; failed = alert_answer i action (Inl e) st in
     filter (\<lambda>a. al_id a \<noteq> i) (mp_alerts ok) = filter (\<lambda>a. al_id a \<noteq> i) (mp_alerts st)
   \<and> (case action of
        DoResolve \<Rightarrow> list_all (\<lambda>a. al_id a \<noteq> i) (mp_alerts ok)
      | DoAcknowledge \<Rightarrow> map al_id (mp_alerts ok) = map al_id (mp_alerts st)
          \<and> list_all (\<lambda>a. al_id a \<noteq> i \<or> al_status a = Acknowledged) (mp_alerts ok))
   \<and> mp_alerts failed = mp_alerts st \<and> mp_error failed \<noteq> None
   \<and> mp_alertBusy ok = None \<and> mp_alertBusy failed = None"
proof (cases action)
  case DoAcknowledge
  let ?g = "\<lambda>a. if al_id a = i then a\<lparr>al_status := Acknowledged\<rparr> else a"
  have "filter (\<lambda>a. al_id a \<noteq> i) (map ?g xs) = filter (\<lambda>a. al_id a \<noteq> i) xs" for xs :: "pipeline_alert list" by (rule others_kept) auto
  moreover have "map al_id (map ?g xs) = map al_id xs" for xs :: "pipeline_alert list" by simp
  moreover have "list_all (\<lambda>a. al_id a \<noteq> i \<or> al_status a = Acknowledged) (map ?g xs)" for xs :: "pipeline_alert list" by (induction xs) auto
  ultimately show ?thesis unfolding DoAcknowledge alert_answer_def Let_def by simp
next
  case DoResolve
  then show ?thesis by (simp add: alert_answer_def Let_def list_all_iff)
qed

section \<open>Instances\<close>

definition quiet_summary :: monitoring_data where
  "quiet_summary = \<lparr>md_days = 7, md_summary = \<lparr>su_runs = 3, su_succeeded = 2, su_failed = 1, su_running = 0, su_successRate = None, su_avgDurationMs = 59960\<rparr>,
     md_trend = [\<lparr>tp_day = ''2024-03-01'', tp_runs = 3, tp_succeeded = 2, tp_failed = 1\<rparr>], md_pipelines = [], md_recentFailures = [],
     md_checks = 0, md_passedRows = 0, md_failedRows = 0, md_issues = 0, md_recentQualityIssues = []\<rparr>"

theorem bars_fit_witness:
  "run_bar (maxRuns (Some quiet_summary)) \<lparr>tp_day = ''2024-03-01'', tp_runs = 3, tp_succeeded = 2, tp_failed = 1\<rparr> \<le> 100"
  using bars_fit[of "\<lparr>tp_day = ''2024-03-01'', tp_runs = 3, tp_succeeded = 2, tp_failed = 1\<rparr>" quiet_summary] by (simp add: quiet_summary_def)

lemma key_parts:
  "c \<notin> set xs \<Longrightarrow> c \<notin> set ys \<Longrightarrow> xs @ c # us = ys @ c # vs \<longleftrightarrow> xs = ys \<and> us = vs"
proof (induction xs arbitrary: ys)
  case Nil
  then show ?case by (cases ys) auto
next
  case (Cons x xs)
  then show ?case by (cases ys) auto
qed

text \<open>Lines are told apart by their keys: two outcomes of the activity have the same key only when they are
  outcomes of the same node of the same run, as run identifiers hold no colon.\<close>

lemma log_keys_distinct:
  assumes "distinct (map (\<lambda>e. (ne_execution_id e, ne_node_id e)) (mp_logs st))"
    and "\<forall>e\<in>set (mp_logs st). CHR '':'' \<notin> set (ne_execution_id e)"
  shows "distinct (map (\<lambda>e. ln_key (log_line local_time e)) (mp_logs st))"
proof -
  have key: "ne_execution_id a = ne_execution_id b \<and> ne_node_id a = ne_node_id b"
    if "ln_key (log_line local_time a) = ln_key (log_line local_time b)" "a \<in> set (mp_logs st)" "b \<in> set (mp_logs st)" for a b
  proof -
    have "ne_execution_id a @ CHR '':'' # ne_node_id a = ne_execution_id b @ CHR '':'' # ne_node_id b"
      using that(1) by (simp add: log_line_def)
    then show ?thesis using key_parts assms(2) that(2,3) by metis
  qed
  have "inj_on (\<lambda>e. ln_key (log_line local_time e)) (set (mp_logs st))" 
  proof (rule inj_onI)
    fix a b assume ab: "a \<in> set (mp_logs st)" "b \<in> set (mp_logs st)" "ln_key (log_line local_time a) = ln_key (log_line local_time b)"
    have "inj_on (\<lambda>e. (ne_execution_id e, ne_node_id e)) (set (mp_logs st))" using assms(1) by (simp add: distinct_map)
    then show "a = b" by (rule inj_onD) (simp_all add: key[OF ab(3,1,2)] ab(1,2))
  qed
  then show ?thesis using assms(1) by (simp add: distinct_map)
qed

text \<open>While nothing is known, and when the overview or the list of incidents could not be fetched, the page says that there is
  nothing to report.\<close>

lemma unknown_shown_as_fine:
  "quality_list to_locale mp_initial = Inl ''No quality violations in this period.''"
  "failure_list mp_initial = Inl ''No failures in this period.''"
  "failure_list (refresh_answer (Inl e) (refresh mp_initial)) = Inl ''No failures in this period.''"
  "incident_list (refresh_answer (Inr (d, None, None)) st) = (0, Inl ''No active incidents.'')"
  by (simp_all add: quality_list_def failure_list_def incident_list_def listing_def mp_initial_def refresh_answer_def refresh_def)

text \<open>Answers are taken in the order in which they come: the overview of the former period, when it is the slower one, is
  shown under the new one.\<close>

lemma former_period_shown:
  assumes "md_days d7 = 7" and "md_days d30 = 30"
  shows "let st = refresh_answer (Inr (d7, i, l)) (refresh_answer (Inr (d30, j, k)) (setDays 30 (refresh mp_initial))) in
    mp_days st = 30 \<and> map_option md_days (mp_data st) = Some 7 \<and> \<not> mp_loading st"
  using assms by (simp add: setDays_def mp_effect_def refresh_def refresh_answer_def mp_initial_def Let_def)

text \<open>An average just under a minute is shown as sixty seconds.\<close>

lemma average_sixty: "(''Average duration'', ''60.0s'') \<in> set (cards quiet_summary)"
  by (simp add: cards_def quiet_summary_def duration_def to_fixed1_ties)

text \<open>An answer of a refresh that left before the alert was resolved brings the alert back.\<close>

lemma resolved_comes_back:
  "al_id a = i \<Longrightarrow> a \<in> set (mp_alerts (refresh_answer (Inr (d, Some [a], None)) (alert_answer i DoResolve (Inr ()) st)))"
  by (simp add: refresh_answer_def)

end
