(* ===== verification/BillingPage.thy ===== *)
theory BillingPage
  imports PageText Session
begin

text \<open>
  Usage, add-ons and payments, \<open>apps/web/src/pages/BillingPage.tsx\<close>. The paid features are those of
  theory Session; numbers of executions are natural numbers, money is in paise, formatted by the locale.
\<close>

record usage =
  ug_used :: nat
  ug_limit :: nat
  ug_free_tier :: int
  ug_extra_quota :: int
  ug_daysUntilReset :: int

datatype payment_status = Created | Paid | Failed

record payment =
  py_id :: string
  py_payment_id :: "string option"
  py_amount_paise :: int
  py_quota_units :: int
  py_status :: payment_status
  py_created_at :: string

record add_on =
  ad_key :: paid_feature
  ad_label :: string
  ad_billing :: string
  ad_description :: string

definition ADD_ON_EXECUTIONS :: int where "ADD_ON_EXECUTIONS = 10000"

definition PLANS :: "(string \<times> string \<times> string) list" where
  "PLANS =
     [(''Free'', ''$0'', ''500 workflow runs / month''),
      (''Starter'', ''$10'', ''10,000 workflow runs / month''),
      (''Growth'', ''$20'', ''50,000 workflow runs / month''),
      (''Scale'', ''$200'', ''5,000,000 workflow runs / month'')]"

definition ADD_ONS :: "add_on list" where
  "ADD_ONS =
     [\<lparr>ad_key = Realtime, ad_label = ''Realtime'', ad_billing = ''Usage metered'',
       ad_description = ''CDC and Kafka streaming connectors.''\<rparr>,
      \<lparr>ad_key = SparkSql, ad_label = ''Spark SQL'', ad_billing = ''Paid add-on'',
       ad_description = ''Large batch and incremental lake processing.''\<rparr>,
      \<lparr>ad_key = FlinkSql, ad_label = ''Flink SQL'', ad_billing = ''Paid add-on'',
       ad_description = ''Stateful event-time stream processing.''\<rparr>,
      \<lparr>ad_key = StatefulProcessing, ad_label = ''Stateful processing'', ad_billing = ''Paid add-on'',
       ad_description = ''Cross-run deduplication and durable transform state.''\<rparr>,
      \<lparr>ad_key = AdvancedConnectors, ad_label = ''Advanced connectors'', ad_billing = ''Paid add-on'',
       ad_description = ''SFTP and warehouse connector pack.''\<rparr>,
      \<lparr>ad_key = DeepObservability, ad_label = ''Deep observability'', ad_billing = ''Paid add-on'',
       ad_description = ''Temporal traces and extended retention.''\<rparr>,
      \<lparr>ad_key = Governance, ad_label = ''Governance'', ad_billing = ''Enterprise'',
       ad_description = ''Audit export and advanced controls.''\<rparr>]"

record billing_page =
  bl_usage :: "usage option"
  bl_history :: "payment list"
  bl_error :: "string option"
  bl_featureBusy :: "paid_feature option"
  bl_calls :: "(paid_feature \<times> bool) list"
  bl_saved :: "string list"

definition bl_initial :: billing_page where
  "bl_initial = \<lparr>bl_usage = None, bl_history = [], bl_error = None, bl_featureBusy = None, bl_calls = [],
     bl_saved = []\<rparr>"

definition bl_refresh_answer :: "string + usage \<times> payment list \<Rightarrow> billing_page \<Rightarrow> billing_page" where
  "bl_refresh_answer out st =
     (case out of Inr (u, h) \<Rightarrow> st\<lparr>bl_usage := Some u, bl_history := h\<rparr> | Inl e \<Rightarrow> st\<lparr>bl_error := Some e\<rparr>)"

definition pct :: "billing_page \<Rightarrow> int" where
  "pct st =
     (let used = (case bl_usage st of Some u \<Rightarrow> ug_used u | None \<Rightarrow> 0);
          quota = (case bl_usage st of Some u \<Rightarrow> ug_limit u | None \<Rightarrow> 0)
      in if quota > 0 then min 100 (percent_of used quota) else 0)"

text \<open>\<open>toggleFeature\<close>, and the answer of \<open>setFeature\<close>, which changes the features of the session.\<close>

definition toggleFeature :: "paid_feature \<Rightarrow> bool \<Rightarrow> billing_page \<Rightarrow> billing_page" where
  "toggleFeature f enabled st = st\<lparr>bl_featureBusy := Some f, bl_error := None, bl_calls := bl_calls st @ [(f, enabled)]\<rparr>"

definition feature_answer :: "api_error + json \<Rightarrow> billing_page \<times> feature_state \<Rightarrow> billing_page \<times> feature_state" where
  "feature_answer r s =
     (case setFeature r (snd s) of
        (None, fs) \<Rightarrow> ((fst s)\<lparr>bl_featureBusy := None\<rparr>, fs)
      | (Some e, fs) \<Rightarrow> ((fst s)\<lparr>bl_error := Some (error_message e), bl_featureBusy := None\<rparr>, fs))"

text \<open>\<open>downloadAudit\<close>: the file that is saved, or the message of the refusal.\<close>

definition audit_answer :: "string + unit \<Rightarrow> billing_page \<Rightarrow> billing_page" where
  "audit_answer out st =
     (case out of Inr _ \<Rightarrow> st\<lparr>bl_saved := bl_saved st @ [''audit-log.csv'']\<rparr> | Inl e \<Rightarrow> st\<lparr>bl_error := Some e\<rparr>)"

text \<open>The check box of an add-on: label, checked, locked.\<close>

definition box_locked :: "string option \<Rightarrow> feature_state \<Rightarrow> billing_page \<Rightarrow> paid_feature \<Rightarrow> bool" where
  "box_locked role fs st f \<longleftrightarrow> ft_loading fs \<or> role \<noteq> Some ''owner'' \<or> \<not> ft_availability fs f \<or> bl_featureBusy st = Some f"

definition add_on_box :: "string option \<Rightarrow> feature_state \<Rightarrow> billing_page \<Rightarrow> add_on \<Rightarrow> string \<times> string \<times> bool \<times> bool" where
  "add_on_box role fs st a =
     (ad_label a, if ft_availability fs (ad_key a) then ad_billing a else ''Not installed'', ft_features fs (ad_key a),
      box_locked role fs st (ad_key a))"

definition audit_offered :: "string option \<Rightarrow> feature_state \<Rightarrow> bool" where
  "audit_offered role fs \<longleftrightarrow> role = Some ''owner'' \<and> ft_features fs Governance"

fun payment_word :: "payment_status \<Rightarrow> string" where
  "payment_word Paid = ''Captured''"
| "payment_word Failed = ''Failed''"
| "payment_word Created = ''Pending''"

definition usage_texts :: "billing_page \<Rightarrow> string list" where
  "usage_texts st =
     (case bl_usage st of
        Some u \<Rightarrow> [nat_str (ug_used u) @ '' / '' @ nat_str (ug_limit u) @ '' executions'', int_str (ug_free_tier u) @ '' / month'',
          int_str (ug_extra_quota u), int_str (ug_daysUntilReset u) @ '' days'']
      | None \<Rightarrow> [''0 / 0 executions'', u_emdash @ '' / month'', ''0'', u_emdash @ '' days''])"

definition u_times :: string where "u_times = [CHR 0xC3, CHR 0x97]"

definition u_rupee :: string where "u_rupee = [CHR 0xE2, CHR 0x82, CHR 0xB9]"

text \<open>\<open>locale_in\<close> prints the hundredth of a number of paise in the Indian format.\<close>

definition fmtINR :: "(int \<Rightarrow> string) \<Rightarrow> int \<Rightarrow> string" where
  "fmtINR locale_in paise = u_rupee @ locale_in paise"

fun payment_tone :: "payment_status \<Rightarrow> string" where
  "payment_tone Paid = ''text-emerald-300''"
| "payment_tone Failed = ''text-red-300''"
| "payment_tone Created = ''opacity-70''"

definition payment_line :: "(string \<Rightarrow> string) \<Rightarrow> (int \<Rightarrow> string) \<Rightarrow> payment \<Rightarrow> string list" where
  "payment_line locale_date locale_in p =
     [locale_date (py_created_at p), fmtINR locale_in (py_amount_paise p), int_str (py_quota_units p) @ '' '' @ u_times @ '' 5'',
      payment_word (py_status p)]
     @ (case truthy (py_payment_id p) of Some i \<Rightarrow> [take 14 i @ u_ellipsis] | None \<Rightarrow> [])"

text \<open>The table of payments, the cards of the plans, the offer of further runs, and the hint for who is not the owner.\<close>

definition payments_table :: "(string \<Rightarrow> string) \<Rightarrow> (int \<Rightarrow> string) \<Rightarrow> billing_page \<Rightarrow> string list \<times> (string \<times> string list) list" where
  "payments_table locale_date locale_in st =
     (if bl_history st = [] then ([''No payments yet.''], [])
      else ([''Date'', ''Amount'', ''Units'', ''Status'', ''''],
        map (\<lambda>p. (payment_tone (py_status p), payment_line locale_date locale_in p)) (bl_history st)))"

definition plan_cards :: "string list list" where
  "plan_cards = map (\<lambda>(name, price, runs). [name, price @ '' / mo'', runs]) PLANS"

definition ADD_ON_PRICE :: string where "ADD_ON_PRICE = ''$10''"

definition runs_offer :: "(int \<Rightarrow> string) \<Rightarrow> string list" where
  "runs_offer locale_number = [''Additional workflow runs'', locale_number ADD_ON_EXECUTIONS @ '' extra runs'', ADD_ON_PRICE, ''add-on'']"

definition owner_hint :: "string option \<Rightarrow> string option" where
  "owner_hint role = (if role \<noteq> Some ''owner'' then Some ''Only a workspace owner can change add-ons.'' else None)"

section \<open>Who may change what\<close>

text \<open>The page, its features and the user's role: check boxes that are not locked, and answers.\<close>

inductive billing_step :: "string option \<Rightarrow> billing_page \<times> feature_state \<Rightarrow> billing_page \<times> feature_state \<Rightarrow> bool" for role where
  Refreshed: "billing_step role (st, fs) (bl_refresh_answer out st, fs)"
| FeaturesLoaded: "billing_step role (st, fs) (st, load_features r fs)"
| Toggled: "\<not> box_locked role fs st f \<Longrightarrow> enabled \<noteq> ft_features fs f \<Longrightarrow> billing_step role (st, fs) (toggleFeature f enabled st, fs)"
| AuditAnswered: "audit_offered role fs \<Longrightarrow> billing_step role (st, fs) (audit_answer out st, fs)"
| FeatureAnswered: "bl_calls st \<noteq> [] \<Longrightarrow> billing_step role (st, fs) (feature_answer r (st, fs))"

inductive billing_reachable :: "string option \<Rightarrow> billing_page \<times> feature_state \<Rightarrow> bool" for role where
  Mounted: "billing_reachable role (bl_initial, features_initial)"
| Stepped: "billing_reachable role s \<Longrightarrow> billing_step role s s' \<Longrightarrow> billing_reachable role s'"

lemma feature_answer_calls [simp]: "bl_calls (fst (feature_answer r s)) = bl_calls (fst s)"
  by (simp add: feature_answer_def split: prod.split option.split)

text \<open>Only the owner of a workspace changes its add-ons: in a session of any other role no request to change a
  feature is ever sent, every check box is locked and the audit export is not offered.\<close>

theorem only_owner_toggles:
  assumes "billing_reachable role s" and "role \<noteq> Some ''owner''"
  shows "bl_calls (fst s) = [] \<and> \<not> audit_offered role (snd s) \<and> (\<forall>f. box_locked role (snd s) (fst s) f)"
proof -
  have "bl_calls (fst s) = []" using assms(1)
  proof (induction rule: billing_reachable.induct)
    case Mounted
    show ?case by (simp add: bl_initial_def)
  next
    case (Stepped s s')
    from Stepped(2,3) show ?case
      by (cases rule: billing_step.cases) (auto simp: bl_refresh_answer_def audit_answer_def box_locked_def assms(2) split: sum.split)
  qed
  then show ?thesis using assms(2) by (simp add: audit_offered_def box_locked_def)
qed

text \<open>The meter stays between 0 and 100 percent whatever the usage, and shows 100 exactly from the quota on, up to rounding.\<close>

theorem meter_bounds:
  "0 \<le> pct st \<and> pct st \<le> 100
   \<and> (case bl_usage st of None \<Rightarrow> pct st = 0 | Some u \<Rightarrow> ug_limit u \<le> ug_used u \<and> 0 < ug_limit u \<longrightarrow> pct st = 100)"
proof (cases "bl_usage st")
  case None
  then show ?thesis by (simp add: pct_def)
next
  case (Some u)
  have "percent_of (ug_used u) (ug_limit u) \<ge> 100" if "ug_limit u \<le> ug_used u" "0 < ug_limit u"
  proof -
    have "100 = percent_of (ug_limit u) (ug_limit u)" using percent_of_bounds(3)[of "ug_limit u" "ug_limit u"] that by simp
    also have "\<dots> \<le> percent_of (ug_used u) (ug_limit u)"
      unfolding percent_of_def round_div_def using that by (intro zdiv_mono1) auto
    finally show ?thesis .
  qed
  moreover have "0 \<le> percent_of (ug_used u) (ug_limit u)" if "0 < ug_limit u"
    using that by (simp add: percent_of_def round_div_def pos_imp_zdiv_nonneg_iff)
  ultimately show ?thesis using Some by (auto simp: pct_def Let_def)
qed

theorem only_owner_toggles_witness:
  "bl_calls bl_initial = [] \<and> (\<forall>f. box_locked (Some ''member'') features_initial bl_initial f)"
  using only_owner_toggles[OF billing_reachable.Mounted[of "Some ''member''"]] by simp

theorem meter_bounds_witness:
  "pct (bl_initial\<lparr>bl_usage := Some \<lparr>ug_used = 700, ug_limit = 500, ug_free_tier = 500, ug_extra_quota = 0, ug_daysUntilReset = 3\<rparr>\<rparr>) = 100"
  using meter_bounds[of "bl_initial\<lparr>bl_usage := Some \<lparr>ug_used = 700, ug_limit = 500, ug_free_tier = 500, ug_extra_quota = 0,
    ug_daysUntilReset = 3\<rparr>\<rparr>"] by simp

text \<open>One feature at a time is marked as busy: a second toggle unlocks the first while its request is under way.\<close>

lemma second_toggle_unlocks:
  "\<not> ft_loading fs \<Longrightarrow> ft_availability fs f \<Longrightarrow> f \<noteq> g \<Longrightarrow>
   \<not> box_locked (Some ''owner'') fs (toggleFeature g True (toggleFeature f True st)) f"
  by (simp add: box_locked_def toggleFeature_def)

text \<open>The message of a refused download stays when the next one succeeds.\<close>

lemma audit_message_stays: "bl_error (audit_answer (Inr ()) (audit_answer (Inl e) st)) = Some e"
  by (simp add: audit_answer_def)

end
