(* ===== verification/AnalyticsModel.thy ===== *)
theory AnalyticsModel
  imports Json JsNumber
begin

text \<open>
  The query model of the analytics page: \<open>components/analytics/types.ts\<close> and
  \<open>components/analytics/model.ts\<close>, the widget form of \<open>AddWidgetModal.tsx\<close>, what
  \<open>ChartRenderer.tsx\<close> draws, and the CSV export of \<open>pages/AnalyticsPage.tsx\<close>.

  A vertical position is an option: \<open>None\<close> is the \<open>Infinity\<close> that asks the grid for the first
  free row. Hours are counted in quarters, the smallest step that the page offers.
\<close>

section \<open>Types\<close>

datatype chart_type = Bar | Line | Area | Pie | Stat | TableChart

datatype bucket_interval = PerMinute | Per5Minutes | Per15Minutes | PerHour | PerDay | PerWeek

datatype agg_fn = Count | Sum | Avg | Min | Max

text \<open>The choice of the form: \<open>None\<close> is its entry \<open>'none'\<close>.\<close>

type_synonym agg_choice = "agg_fn option"

datatype filter_op = OpEq | OpNe | OpGt | OpLt | OpGe | OpLe | OpLike

text \<open>An operator of a clause: one of the editable ones or \<open>IN\<close>.\<close>

type_synonym where_op = "filter_op option"

record where_clause =
  wh_field :: string
  wh_op :: where_op
  wh_value :: json

record query_spec =
  q_select :: "string list option"
  q_where :: "where_clause list option"
  q_groupBy :: "string list option"
  q_aggregate :: "(string \<times> agg_fn) option"
  q_orderBy :: "(string \<times> bool) option"
  q_bucket :: "bucket_interval option"
  q_limit :: "nat option"

definition no_query :: query_spec where
  "no_query = \<lparr>q_select = None, q_where = None, q_groupBy = None, q_aggregate = None, q_orderBy = None,
     q_bucket = None, q_limit = None\<rparr>"

record schema_field =
  sf_name :: string
  sf_type :: string

record grid_box =
  gb_x :: int
  gb_y :: "int option"
  gb_w :: int
  gb_h :: int

text \<open>A row of a query result: its properties in order.\<close>

type_synonym data_row = "(string \<times> json) list"

record widget =
  w_id :: string
  w_layout :: grid_box
  w_type :: chart_type
  w_dataset :: string
  w_title :: string
  w_spec :: query_spec

record widget_def = widget +
  w_data :: "data_row list option"

record dashboard_definition =
  dd_widgets :: "widget list"
  dd_timeRangeHours :: "int option"

record dashboard =
  db_id :: string
  db_name :: string
  db_definition :: dashboard_definition

record dataset =
  ds_collection :: string
  ds_row_count :: int

text \<open>A time range as two instants in milliseconds; \<open>toISOString\<close> prints them.\<close>

record time_range =
  tr_from :: int
  tr_to :: int

definition timeRangeFor :: "int \<Rightarrow> int \<Rightarrow> time_range" where
  "timeRangeFor quarters now = \<lparr>tr_from = now - quarters * 900000, tr_to = now\<rparr>"

definition FILTER_OPS :: "filter_op list" where
  "FILTER_OPS = [OpEq, OpNe, OpGt, OpLt, OpGe, OpLe, OpLike]"

definition CHART_TYPES :: "chart_type list" where
  "CHART_TYPES = [Bar, Line, Area, Pie, Stat, TableChart]"

definition BUCKETS :: "bucket_interval list" where
  "BUCKETS = [PerMinute, Per5Minutes, Per15Minutes, PerHour, PerDay, PerWeek]"

definition AGG_OPTIONS :: "agg_choice list" where
  "AGG_OPTIONS = [Some Count, Some Sum, Some Avg, Some Min, Some Max, None]"

section \<open>Numbers from text\<close>

definition digits_in :: "nat \<Rightarrow> string \<Rightarrow> nat option" where
  "digits_in base s =
     fold (\<lambda>c acc. case (acc, hex_val c) of
         (Some n, Some d) \<Rightarrow> if d < base then Some (base * n + d) else None | _ \<Rightarrow> None) s (Some 0)"

definition radix_of :: "string \<Rightarrow> nat option" where
  "radix_of s =
     (if starts_with ''0x'' s \<or> starts_with ''0X'' s then Some 16
      else if starts_with ''0o'' s \<or> starts_with ''0O'' s then Some 8
      else if starts_with ''0b'' s \<or> starts_with ''0B'' s then Some 2 else None)"

text \<open>\<open>Number(s)\<close>; \<open>None\<close> is \<open>NaN\<close>. Integers are exact up to the 2^53 that binary64 holds.\<close>

definition to_number :: "string \<Rightarrow> json option" where
  "to_number s =
     (let t = js_trim s in
      if t = [] then Some (JNum 0)
      else case radix_of t of
        Some b \<Rightarrow> if length t > 2 then map_option (\<lambda>n. JNum (int n)) (digits_in b (drop 2 t)) else None
      | None \<Rightarrow>
          (let r = skip_sign t; neg = starts_with ''-'' t; ip = takeWhile is_digit r; r1 = dropWhile is_digit r;
               point = starts_with ''.'' r1; r2 = (if point then drop 1 r1 else r1);
               fp = (if point then takeWhile is_digit r2 else []); r3 = (if point then dropWhile is_digit r2 else r1)
           in if r = ''Infinity'' then Some (JReal t)
              else if ip = [] \<and> fp = [] then None
              else if skip_exponent r3 = Some []
              then Some (if r1 = [] then JNum ((if neg then -1 else 1) * int (digits_val 0 ip)) else JReal t)
              else None))"

section \<open>The model\<close>

text \<open>\<open>chartKeys\<close>: the x and the y key.\<close>

definition hd_opt :: "'a list \<Rightarrow> 'a option" where
  "hd_opt xs = (case xs of [] \<Rightarrow> None | x # _ \<Rightarrow> Some x)"

definition nth_opt :: "'a list option \<Rightarrow> nat \<Rightarrow> 'a option" where
  "nth_opt xs i = (case xs of None \<Rightarrow> None | Some ys \<Rightarrow> if i < length ys then Some (ys ! i) else None)"

definition chartKeys :: "query_spec \<Rightarrow> string \<times> string" where
  "chartKeys spec =
     (if q_bucket spec \<noteq> None then ''time_bucket''
      else nullish (nth_opt (q_groupBy spec) 0) (nullish (nth_opt (q_select spec) 0) ''''),
      if q_aggregate spec \<noteq> None then ''aggregate_value''
      else nullish (nth_opt (q_select spec) 1) (nullish (nth_opt (q_select spec) 0) ''''))"

record filter_row =
  fr_field :: string
  fr_op :: filter_op
  fr_value :: string

definition editableFilters :: "query_spec option \<Rightarrow> filter_row list" where
  "editableFilters spec =
     map (\<lambda>w. \<lparr>fr_field = wh_field w, fr_op = the (wh_op w), fr_value = to_string (wh_value w)\<rparr>)
       (filter (\<lambda>w. wh_op w \<noteq> None) (nullish (Option.bind spec q_where) []))"

record widget_input =
  wi_chartType :: chart_type
  wi_xCol :: string
  wi_yCol :: string
  wi_agg :: agg_choice
  wi_bucket :: "bucket_interval option"
  wi_fields :: "schema_field list"
  wi_filters :: "filter_row list"
  wi_editingSpec :: "query_spec option"

definition field_type :: "schema_field list \<Rightarrow> string \<Rightarrow> string option" where
  "field_type fs name = map_option sf_type (find (\<lambda>f. sf_name f = name) fs)"

definition filter_value :: "schema_field list \<Rightarrow> filter_row \<Rightarrow> json" where
  "filter_value fs f =
     (if field_type fs (fr_field f) = Some ''number'' then nullish (to_number (fr_value f)) (JStr (fr_value f))
      else JStr (fr_value f))"

definition where_of :: "widget_input \<Rightarrow> where_clause list" where
  "where_of i =
     filter (\<lambda>w. wh_op w = None) (nullish (Option.bind (wi_editingSpec i) q_where) [])
     @ map (\<lambda>f. \<lparr>wh_field = fr_field f, wh_op = Some (fr_op f), wh_value = filter_value (wi_fields i) f\<rparr>)
         (filter (\<lambda>f. fr_field f \<noteq> [] \<and> fr_value f \<noteq> []) (wi_filters i))"

definition base_spec :: "widget_input \<Rightarrow> query_spec" where
  "base_spec i =
     (let fn = nullish (wi_agg i) Count in
      if wi_chartType i = TableChart
      then no_query\<lparr>q_select := Some (wi_xCol i # (if wi_yCol i \<noteq> [] then [wi_yCol i] else [])), q_limit := Some 50\<rparr>
      else if wi_chartType i = Stat then no_query\<lparr>q_aggregate := Some (wi_yCol i, fn), q_limit := Some 1\<rparr>
      else if wi_agg i = None then no_query\<lparr>q_select := Some [wi_xCol i, wi_yCol i], q_limit := Some 50\<rparr>
      else if wi_bucket i \<noteq> None \<and> wi_chartType i \<noteq> Pie
      then no_query\<lparr>q_bucket := wi_bucket i, q_aggregate := Some (wi_yCol i, fn), q_limit := Some 500\<rparr>
      else no_query\<lparr>q_groupBy := Some [wi_xCol i], q_aggregate := Some (wi_yCol i, fn), q_limit := Some 50\<rparr>)"

definition buildWidgetSpec :: "widget_input \<Rightarrow> query_spec" where
  "buildWidgetSpec i =
     (let wh = where_of i in if wh = [] then base_spec i else (base_spec i)\<lparr>q_where := Some wh\<rparr>)"

definition dashboardDefinition :: "widget_def list \<Rightarrow> int \<Rightarrow> dashboard_definition" where
  "dashboardDefinition widgets hours = \<lparr>dd_widgets = map widget.truncate widgets, dd_timeRangeHours = Some hours\<rparr>"

type_synonym grid_layout = "(string \<times> grid_box) list"

definition layoutChanged :: "widget_def list \<Rightarrow> grid_layout \<Rightarrow> bool" where
  "layoutChanged widgets newLayout =
     list_ex (\<lambda>w. case map_of newLayout (w_id w) of Some l \<Rightarrow> l \<noteq> w_layout w | None \<Rightarrow> False) widgets"

section \<open>The widget form\<close>

record widget_form =
  wf_title :: string
  wf_dataset :: string
  wf_chartType :: chart_type
  wf_fields :: "schema_field list"
  wf_xCol :: string
  wf_yCol :: string
  wf_agg :: agg_choice
  wf_bucket :: "bucket_interval option"
  wf_filters :: "filter_row list"
  wf_loadingSchema :: bool
  wf_schemaErr :: "string option"

definition spec_xCol :: "query_spec option \<Rightarrow> string" where
  "spec_xCol spec = nullish (nth_opt (Option.bind spec q_groupBy) 0) (nullish (nth_opt (Option.bind spec q_select) 0) '''')"

definition spec_yCol :: "query_spec option \<Rightarrow> string" where
  "spec_yCol spec =
     nullish (map_option fst (Option.bind spec q_aggregate)) (nullish (nth_opt (Option.bind spec q_select) 1) '''')"

definition open_form :: "dataset list \<Rightarrow> string option \<Rightarrow> widget_def option \<Rightarrow> widget_form" where
  "open_form datasets initialDataset editing =
     (let spec = map_option w_spec editing in
      \<lparr>wf_title = nullish (map_option w_title editing) ''New Widget'',
       wf_dataset = nullish (map_option w_dataset editing)
         (nullish initialDataset (nullish (map_option ds_collection (hd_opt datasets)) '''')),
       wf_chartType = nullish (map_option w_type editing) Bar, wf_fields = [],
       wf_xCol = spec_xCol spec, wf_yCol = spec_yCol spec,
       wf_agg = (case editing of Some w \<Rightarrow> map_option snd (q_aggregate (w_spec w)) | None \<Rightarrow> Some Count),
       wf_bucket = Option.bind spec q_bucket, wf_filters = editableFilters spec,
       wf_loadingSchema = False, wf_schemaErr = None\<rparr>)"

text \<open>The effect on the data set: the start of a schema request and its answer.\<close>

definition schema_start :: "widget_form \<Rightarrow> widget_form" where
  "schema_start f = (if wf_dataset f = [] then f else f\<lparr>wf_loadingSchema := True, wf_schemaErr := None\<rparr>)"

definition schema_answer :: "string + schema_field list \<Rightarrow> widget_form \<Rightarrow> widget_form" where
  "schema_answer answer f =
     (case answer of
        Inr s \<Rightarrow>
          (let known = (\<lambda>c. c \<noteq> [] \<and> c \<in> set (map sf_name s));
               col = (\<lambda>i. map_option sf_name (nth_opt (Some s) i)) in
           f\<lparr>wf_fields := s,
             wf_xCol := (if known (wf_xCol f) then wf_xCol f else nullish (col 0) ''''),
             wf_yCol := (if known (wf_yCol f) then wf_yCol f else nullish (col 1) (nullish (col 0) '''')),
             wf_loadingSchema := False\<rparr>)
      | Inl e \<Rightarrow> f\<lparr>wf_schemaErr := Some e, wf_loadingSchema := False\<rparr>)"

definition form_input :: "widget_def option \<Rightarrow> widget_form \<Rightarrow> widget_input" where
  "form_input editing f =
     \<lparr>wi_chartType = wf_chartType f, wi_xCol = wf_xCol f, wi_yCol = wf_yCol f, wi_agg = wf_agg f,
      wi_bucket = wf_bucket f, wi_fields = wf_fields f, wi_filters = wf_filters f,
      wi_editingSpec = map_option w_spec editing\<rparr>"

text \<open>\<open>handleAdd\<close>; \<open>clock\<close> is \<open>Date.now()\<close>.\<close>

definition handleAdd :: "nat \<Rightarrow> widget_def option \<Rightarrow> widget_form \<Rightarrow> widget" where
  "handleAdd clock editing f =
     \<lparr>w_id = nullish (map_option w_id editing) (''w_'' @ nat_str clock),
      w_layout = nullish (map_option w_layout editing) \<lparr>gb_x = 0, gb_y = None, gb_w = 4, gb_h = 4\<rparr>,
      w_type = wf_chartType f, w_dataset = wf_dataset f, w_title = wf_title f,
      w_spec = buildWidgetSpec (form_input editing f)\<rparr>"

text \<open>Which selects the form offers, and when its button is off.\<close>

definition shows_xCol :: "widget_form \<Rightarrow> bool" where
  "shows_xCol f \<longleftrightarrow> wf_chartType f \<noteq> Stat
     \<and> \<not> (wf_bucket f \<noteq> None \<and> wf_agg f \<noteq> None \<and> wf_chartType f \<noteq> TableChart \<and> wf_chartType f \<noteq> Pie)"

definition shows_yCol :: "widget_form \<Rightarrow> bool" where
  "shows_yCol f \<longleftrightarrow> wf_chartType f \<noteq> TableChart"

definition shows_bucket :: "widget_form \<Rightarrow> bool" where
  "shows_bucket f \<longleftrightarrow> wf_chartType f \<noteq> TableChart \<and> wf_chartType f \<noteq> Stat \<and> wf_chartType f \<noteq> Pie \<and> wf_agg f \<noteq> None"

definition add_disabled :: "widget_form \<Rightarrow> bool" where
  "add_disabled f \<longleftrightarrow> wf_dataset f = [] \<or> wf_title f = [] \<or> (\<not> wf_loadingSchema f \<and> wf_fields f = [])"

definition add_filter :: "widget_form \<Rightarrow> widget_form" where
  "add_filter f = (case wf_fields f of
       [] \<Rightarrow> f
     | c # _ \<Rightarrow> f\<lparr>wf_filters := wf_filters f @ [\<lparr>fr_field = sf_name c, fr_op = OpEq, fr_value = ''''\<rparr>]\<rparr>)"

definition edit_filter :: "nat \<Rightarrow> (filter_row \<Rightarrow> filter_row) \<Rightarrow> widget_form \<Rightarrow> widget_form" where
  "edit_filter i g f = f\<lparr>wf_filters := (wf_filters f)[i := g (wf_filters f ! i)]\<rparr>"

definition remove_filter :: "nat \<Rightarrow> widget_form \<Rightarrow> widget_form" where
  "remove_filter i f = f\<lparr>wf_filters := take i (wf_filters f) @ drop (Suc i) (wf_filters f)\<rparr>"

section \<open>Charts\<close>

text \<open>What \<open>ChartRenderer\<close> draws: which chart over which two columns, or the texts.\<close>

datatype chart_view =
    NoData
  | DataTable "string list" "string list list"
  | StatText string
  | AreaChart string string
  | PieChart string string "string list"
  | LineChart string string
  | BarChart string string

definition COLORS :: "string list" where
  "COLORS = [''#818cf8'', ''#34d399'', ''#fbbf24'', ''#f87171'', ''#60a5fa'', ''#a78bfa'', ''#fb923c'', ''#4ade80'', ''#f472b6'', ''#38bdf8'']"

text \<open>\<open>v ?? ''\<close> as text.\<close>

definition cell_string :: "json option \<Rightarrow> string" where
  "cell_string v = (case v of None \<Rightarrow> '''' | Some JNull \<Rightarrow> '''' | Some j \<Rightarrow> to_string j)"

definition is_infinite :: "string \<Rightarrow> bool" where
  "is_infinite s \<longleftrightarrow> skip_sign s = ''Infinity''"

text \<open>\<open>Number(v)\<close>, where an array counts as its text; \<open>None\<close> when it is not finite.\<close>

definition finite_text :: "string \<Rightarrow> json option" where
  "finite_text s = (case to_number s of Some (JReal r) \<Rightarrow> if is_infinite r then None else Some (JReal r) | n \<Rightarrow> n)"

definition finite_number :: "json option \<Rightarrow> json option" where
  "finite_number v =
     (case v of
        Some (JNum i) \<Rightarrow> Some (JNum i)
      | Some (JReal s) \<Rightarrow> if is_infinite s then None else Some (JReal s)
      | Some (JStr s) \<Rightarrow> finite_text s
      | Some (JArr js) \<Rightarrow> finite_text (to_string (JArr js))
      | Some (JBool b) \<Rightarrow> Some (JNum (if b then 1 else 0))
      | Some JNull \<Rightarrow> Some (JNum 0)
      | _ \<Rightarrow> None)"

definition stat_text :: "(json \<Rightarrow> string) \<Rightarrow> json option \<Rightarrow> string" where
  "stat_text lc v =
     (case finite_number v of
        Some n \<Rightarrow> lc n
      | None \<Rightarrow> (case v of None \<Rightarrow> u_emdash | Some JNull \<Rightarrow> u_emdash | Some j \<Rightarrow> to_string j))"

definition ChartRenderer :: "(json \<Rightarrow> string) \<Rightarrow> widget_def \<Rightarrow> chart_view" where
  "ChartRenderer lc w =
     (let rows = nullish (w_data w) []; (xKey, yKey) = chartKeys (w_spec w) in
      case rows of
        [] \<Rightarrow> NoData
      | r # _ \<Rightarrow>
          (case w_type w of
             TableChart \<Rightarrow> DataTable (map fst r) (map (\<lambda>row. map (\<lambda>c. cell_string (map_of row c)) (map fst r)) rows)
           | Stat \<Rightarrow> StatText (stat_text lc (map_of r yKey))
           | Area \<Rightarrow> AreaChart xKey yKey
           | Pie \<Rightarrow> PieChart xKey yKey (map (\<lambda>i. COLORS ! (i mod length COLORS)) [0..<length rows])
           | Line \<Rightarrow> LineChart xKey yKey
           | Bar \<Rightarrow> BarChart xKey yKey))"

section \<open>CSV\<close>

definition csv_special :: "char \<Rightarrow> bool" where
  "csv_special c \<longleftrightarrow> c = CHR 0x22 \<or> c = CHR '','' \<or> c = newline"

definition csv_text :: "json option \<Rightarrow> string" where
  "csv_text v = (case v of
       Some (JArr js) \<Rightarrow> stringify (JArr js)
     | Some (JObj es) \<Rightarrow> stringify (JObj es)
     | _ \<Rightarrow> cell_string v)"

definition csv_escape :: "json option \<Rightarrow> string" where
  "csv_escape v =
     (let s = csv_text v in
      if list_ex csv_special s
      then CHR 0x22 # concat (map (\<lambda>c. if c = CHR 0x22 then [c, c] else [c]) s) @ [CHR 0x22] else s)"

text \<open>\<open>exportCsv\<close>: the text of the file, nothing without rows.\<close>

definition exportCsv :: "data_row list option \<Rightarrow> string option" where
  "exportCsv dat =
     (case nullish dat [] of
        [] \<Rightarrow> None
      | r # rows \<Rightarrow>
          (let cols = map fst r in
           Some (join [newline] (join '','' cols
             # map (\<lambda>row. join '','' (map (\<lambda>c. csv_escape (map_of row c)) cols)) (r # rows)))))"

text \<open>The name of the file: every run of characters other than letters, digits, underscore and hyphen
  becomes one underscore.\<close>

definition word_char :: "char \<Rightarrow> bool" where
  "word_char c \<longleftrightarrow> (let n = of_char c :: nat in (48 \<le> n \<and> n \<le> 57) \<or> (65 \<le> n \<and> n \<le> 90) \<or> (97 \<le> n \<and> n \<le> 122)) \<or> c = CHR ''_'' \<or> c = CHR ''-''"

fun squeeze :: "bool \<Rightarrow> string \<Rightarrow> string" where
  "squeeze inside [] = []"
| "squeeze inside (c # cs) =
     (if word_char c then c # squeeze False cs else if inside then squeeze True cs else CHR ''_'' # squeeze True cs)"

definition csv_name :: "string \<Rightarrow> string" where
  "csv_name title = squeeze False title @ ''.csv''"

section \<open>Numbers survive the form\<close>

lemma digit_in_nat_str: "c \<in> set (nat_str n) \<Longrightarrow> is_digit c"
proof (induction n rule: nat_str.induct)
  case (1 n)
  have d: "is_digit (digit_char d)" if "d < 10" for d
  proof -
    have "\<forall>d\<in>set [0..<10]. is_digit (digit_char d)" by code_simp
    then show ?thesis using that by simp
  qed
  show ?case
  proof (cases "n < 10")
    case True
    then show ?thesis using 1(2) d by (simp add: nat_str.simps[of n])
  next
    case False
    then show ?thesis using 1 d[of "n mod 10"] by (auto simp: nat_str.simps[of n])
  qed
qed

lemma digits_val_append: "digits_val a (s @ [c]) = 10 * digits_val a s + digit_val c"
  by (induction s arbitrary: a) auto

lemma digits_val_nat_str: "digits_val 0 (nat_str n) = n"
proof (induction n rule: nat_str.induct)
  case (1 n)
  have d: "digit_val (digit_char d) = d" if "d < 10" for d
  proof -
    have "\<forall>d\<in>set [0..<10]. digit_val (digit_char d) = d" by code_simp
    then show ?thesis using that by simp
  qed
  show ?case
  proof (cases "n < 10")
    case True
    then show ?thesis using d by (simp add: nat_str.simps[of n])
  next
    case False
    then show ?thesis using 1 d[of "n mod 10"] by (simp add: nat_str.simps[of n] digits_val_append)
  qed
qed

lemma digit_plain: "is_digit c \<Longrightarrow> \<not> is_space c \<and> c \<notin> set ''-+.xXoObBI''"
  by (auto simp: is_digit_def is_space_def)

lemma starts_with_two: "starts_with [a, b] s \<Longrightarrow> b \<in> set s"
  by (auto simp: starts_with_iff)

lemma radix_of_char: "\<forall>c\<in>set ''xXoObB''. c \<notin> set s \<Longrightarrow> radix_of s = None"
  unfolding radix_of_def using starts_with_two[of _ _ s] by (metis insertCI list.set(2))

lemma to_number_digits:
  assumes "\<forall>c\<in>set ds. is_digit c" and "ds \<noteq> []"
  shows "to_number ds = Some (JNum (int (digits_val 0 ds)))" and "to_number (CHR ''-'' # ds) = Some (JNum (- int (digits_val 0 ds)))"
proof -
  have l: "is_digit (last ds)" "is_digit (hd ds)" using assms by auto
  have t: "js_trim ds = ds" "js_trim (CHR ''-'' # ds) = CHR ''-'' # ds"
    using l assms(2) digit_plain by (auto intro!: js_trim_id simp: is_space_def)
  have x: "c \<notin> set ds" if "c \<in> set ''-+.xXoObBI''" for c using assms(1) digit_plain that by blast
  have xs: "\<forall>c\<in>set ''xXoObB''. c \<notin> set ds" by (intro ballI x) auto
  have r: "radix_of ds = None" "radix_of (CHR ''-'' # ds) = None"
    by (rule radix_of_char[OF xs], rule radix_of_char, use xs in simp)
  have w: "takeWhile is_digit ds = ds" "dropWhile is_digit ds = []" using assms(1) by auto
  obtain d ds' where d: "ds = d # ds'" using assms(2) by (cases ds) auto
  then have s: "skip_sign ds = ds" using x[of "CHR ''+''"] x[of "CHR ''-''"] by (auto simp: skip_sign_def)
  have i: "ds \<noteq> ''Infinity''" using x[of "CHR ''I''"] by auto
  have m: "\<not> starts_with ''-'' ds" using x[of "CHR ''-''"] d by (auto simp: starts_with_def)
  have e: "skip_exponent [] = Some []" and p: "\<not> starts_with ''.'' []" by (simp_all add: skip_exponent_def starts_with_def)
  show "to_number ds = Some (JNum (int (digits_val 0 ds)))"
    using assms(2) by (simp add: to_number_def Let_def t r s w i m e p)
  have sm: "skip_sign (CHR ''-'' # ds) = ds" by (simp add: skip_sign_def)
  show "to_number (CHR ''-'' # ds) = Some (JNum (- int (digits_val 0 ds)))"
    using assms(2) by (simp add: to_number_def Let_def t r sm w i e starts_with_def)
qed

lemma to_number_int_str: "to_number (int_str i) = Some (JNum i)"
  using to_number_digits[of "nat_str (nat (- i))"] to_number_digits[of "nat_str (nat i)"] digit_in_nat_str
  by (auto simp: int_str_def digits_val_nat_str)

lemma to_number_real:
  assumes "to_number s = Some (JReal t)"
  shows "to_number t = Some (JReal t) \<and> t \<noteq> []"
proof -
  have "t = js_trim s" "js_trim s \<noteq> []" using assms
    by (auto simp: to_number_def Let_def split: if_splits option.splits)
  then show ?thesis using assms by (simp add: to_number_def)
qed

lemma to_number_shape: "to_number s = Some j \<Longrightarrow> (\<exists>i. j = JNum i) \<or> (\<exists>t. j = JReal t)"
  by (auto simp: to_number_def Let_def split: if_splits option.splits)

lemma int_str_ne: "int_str i \<noteq> []"
  by (simp add: int_str_def)

text \<open>The value of a filter, printed into the form and read again, is the same value.\<close>

lemma filter_value_stable:
  fixes fs :: "schema_field list"
  assumes "fr_value f \<noteq> []"
  defines "v \<equiv> filter_value fs f"
  shows "to_string v \<noteq> []" and "filter_value fs \<lparr>fr_field = fr_field f, fr_op = fo, fr_value = to_string v\<rparr> = v"
proof -
  have "to_string v \<noteq> [] \<and> filter_value fs \<lparr>fr_field = fr_field f, fr_op = fo, fr_value = to_string v\<rparr> = v"
  proof (cases "field_type fs (fr_field f) = Some ''number'' \<and> to_number (fr_value f) \<noteq> None")
    case True
    then obtain j where j: "to_number (fr_value f) = Some j" by auto
    then have "v = j" using True by (simp add: v_def filter_value_def)
    then show ?thesis using to_number_shape[OF j] True j to_number_real to_number_int_str int_str_ne
      by (auto simp: filter_value_def)
  next
    case False
    then have "v = JStr (fr_value f)" by (auto simp: v_def filter_value_def)
    then show ?thesis using False assms(1) by (auto simp: filter_value_def)
  qed
  then show "to_string v \<noteq> []" and "filter_value fs \<lparr>fr_field = fr_field f, fr_op = fo, fr_value = to_string v\<rparr> = v"
    by simp_all
qed

section \<open>Editing a widget without a change\<close>

lemma base_spec_where [simp]: "q_where (base_spec i) = None"
  by (simp add: base_spec_def Let_def no_query_def)

lemma where_of_build: "nullish (q_where (buildWidgetSpec i)) [] = where_of i"
  by (simp add: buildWidgetSpec_def Let_def)

lemma where_of_again:
  assumes "wi_editingSpec i' = Some (buildWidgetSpec i)" and "wi_fields i' = wi_fields i"
    and "wi_filters i' = editableFilters (Some (buildWidgetSpec i))"
  shows "where_of i' = where_of i"
proof -
  let ?keep = "filter (\<lambda>f. fr_field f \<noteq> [] \<and> fr_value f \<noteq> []) (wi_filters i)"
  let ?clause = "\<lambda>f. \<lparr>wh_field = fr_field f, wh_op = Some (fr_op f), wh_value = filter_value (wi_fields i) f\<rparr>"
  let ?row = "\<lambda>w. \<lparr>fr_field = wh_field w, fr_op = the (wh_op w), fr_value = to_string (wh_value w)\<rparr>"
  have e: "editableFilters (Some (buildWidgetSpec i)) = map ?row (map ?clause ?keep)"
    by (simp add: editableFilters_def where_of_build) (auto simp: where_of_def filter_map comp_def filter_empty_conv)
  have k: "filter (\<lambda>f. fr_field f \<noteq> [] \<and> fr_value f \<noteq> []) (map ?row (map ?clause ?keep)) = map ?row (map ?clause ?keep)"
    using filter_value_stable(1) by (auto simp: filter_id_conv)
  have v: "map ?clause (map ?row (map ?clause ?keep)) = map ?clause ?keep"
    using filter_value_stable(2) by auto
  have n: "filter (\<lambda>w. wh_op w = None) (where_of i) = filter (\<lambda>w. wh_op w = None) (nullish (Option.bind (wi_editingSpec i) q_where) [])"
    by (simp add: where_of_def filter_map comp_def)
  show ?thesis
    unfolding where_of_def[of i'] assms e k by (simp only: bind.bind_lunit where_of_build n v) (simp add: where_of_def)
qed

definition column_names :: "schema_field list \<Rightarrow> string set" where
  "column_names fs = set (map sf_name fs) - {[]}"

text \<open>C28: opening the form on a widget that the form has built and saving it unchanged, once its columns
  are loaded, gives the same widget: the columns, the aggregate, the bucket and every filter survive.\<close>

theorem widget_edit_roundtrip:
  assumes "w_spec w = buildWidgetSpec i" and "w_type w = wi_chartType i"
    and "wi_xCol i \<in> column_names (wi_fields i)" and "wi_yCol i \<in> column_names (wi_fields i)"
  shows "handleAdd clock (Some w) (schema_answer (Inr (wi_fields i)) (schema_start (open_form datasets initial (Some w)))) = widget.truncate w"
proof -
  let ?f = "schema_answer (Inr (wi_fields i)) (schema_start (open_form datasets initial (Some w)))"
  let ?i = "form_input (Some w) ?f"
  have y: "spec_yCol (Some (buildWidgetSpec i)) = wi_yCol i"
    using assms(4) by (auto simp: spec_yCol_def buildWidgetSpec_def base_spec_def Let_def no_query_def nth_opt_def column_names_def)
  have x: "wi_chartType i \<noteq> Stat \<Longrightarrow> q_bucket (buildWidgetSpec i) = None \<Longrightarrow> spec_xCol (Some (buildWidgetSpec i)) = wi_xCol i"
    by (auto simp: spec_xCol_def buildWidgetSpec_def base_spec_def Let_def no_query_def nth_opt_def split: if_splits)
  have i: "wi_chartType ?i = wi_chartType i" "wi_fields ?i = wi_fields i" "wi_yCol ?i = wi_yCol i"
    "wi_chartType i \<noteq> Stat \<Longrightarrow> q_bucket (buildWidgetSpec i) = None \<Longrightarrow> wi_xCol ?i = wi_xCol i"
    "wi_agg ?i = map_option snd (q_aggregate (buildWidgetSpec i))" "wi_bucket ?i = q_bucket (buildWidgetSpec i)"
    "wi_filters ?i = editableFilters (Some (buildWidgetSpec i))" "wi_editingSpec ?i = Some (buildWidgetSpec i)"
    using assms x y by (simp_all add: form_input_def schema_answer_def schema_start_def open_form_def Let_def column_names_def)
  have b: "base_spec ?i = base_spec i"
    using i(4) unfolding base_spec_def[of ?i] i(1,3,5,6)
    by (auto simp: buildWidgetSpec_def base_spec_def Let_def no_query_def split: option.splits)
  have "buildWidgetSpec ?i = buildWidgetSpec i"
    using where_of_again[OF i(8,2,7)] b by (simp add: buildWidgetSpec_def Let_def)
  then show ?thesis using assms(1,2)
    by (simp add: handleAdd_def widget.truncate_def) (simp add: schema_answer_def schema_start_def open_form_def Let_def)
qed

section \<open>The exported file\<close>

text \<open>A reader of comma-separated values: quoted and plain cells, line feeds between records.\<close>

fun read_quoted :: "string \<Rightarrow> string \<times> string" where
  "read_quoted [] = ([], [])"
| "read_quoted (c # cs) =
     (if c = CHR 0x22
      then (case cs of
              d # ds \<Rightarrow> if d = CHR 0x22 then apfst (Cons c) (read_quoted ds) else ([], cs)
            | [] \<Rightarrow> ([], []))
      else apfst (Cons c) (read_quoted cs))"

definition read_cell :: "string \<Rightarrow> string \<times> string" where
  "read_cell s =
     (if s \<noteq> [] \<and> hd s = CHR 0x22 then read_quoted (tl s)
      else (takeWhile (\<lambda>c. \<not> csv_special c) s, dropWhile (\<lambda>c. \<not> csv_special c) s))"

lemma length_read_quoted: "length (snd (read_quoted s)) \<le> length s"
proof (induction s rule: read_quoted.induct)
  case (2 c cs)
  show ?case
  proof (cases cs)
    case Nil
    then show ?thesis by simp
  next
    case (Cons d ds)
    show ?thesis
    proof (cases "c = CHR 0x22")
      case True
      then have e: "read_quoted (c # cs) = (if d = CHR 0x22 then apfst (Cons c) (read_quoted ds) else ([], cs))"
        using Cons by simp
      show ?thesis unfolding e using 2(1)[OF True Cons] Cons
        by (simp split: if_split) (use le_SucI in blast)
    next
      case False
      then have "snd (read_quoted (c # cs)) = snd (read_quoted cs)" by simp
      with 2(2)[OF False] show ?thesis by (simp only: length_Cons)
    qed
  qed
qed simp

lemma length_read_cell: "length (snd (read_cell s)) \<le> length s"
proof (cases "s \<noteq> [] \<and> hd s = CHR 0x22")
  case True
  then show ?thesis using length_read_quoted[of "tl s"] by (simp add: read_cell_def)
qed (auto simp: read_cell_def length_dropWhile_le)

lemma read_cell_shorter: "(cell, rest) = read_cell s \<Longrightarrow> rest = d # r \<Longrightarrow> length r < length s"
  using length_read_cell[of s] by (metis Suc_le_eq length_Cons snd_conv)

function read_csv :: "string \<Rightarrow> string list list" where
  "read_csv s =
     (case read_cell s of
        (cell, []) \<Rightarrow> [[cell]]
      | (cell, d # r) \<Rightarrow>
          if d = CHR '','' then (case read_csv r of [] \<Rightarrow> [[cell]] | row # rows \<Rightarrow> (cell # row) # rows)
          else [cell] # read_csv r)"
  by pat_completeness auto
termination read_csv
  by (relation "measure length") (simp_all add: read_cell_shorter)

declare read_csv.simps [simp del]

abbreviation cell_end :: "string \<Rightarrow> bool" where
  "cell_end r \<equiv> r = [] \<or> hd r = CHR '','' \<or> hd r = newline"

lemma read_quoted_escape:
  "cell_end r \<Longrightarrow> read_quoted (concat (map (\<lambda>c. if c = CHR 0x22 then [c, c] else [c]) s) @ CHR 0x22 # r) = (s, r)"
  by (induction s) (auto simp: newline_def split: list.splits)

lemma cut_plain:
  assumes "\<not> list_ex csv_special s" and "cell_end r"
  shows "takeWhile (\<lambda>c. \<not> csv_special c) (s @ r) = s" and "dropWhile (\<lambda>c. \<not> csv_special c) (s @ r) = r"
proof -
  have r: "takeWhile (\<lambda>c. \<not> csv_special c) r = []" "dropWhile (\<lambda>c. \<not> csv_special c) r = r"
    using assms(2) by (cases r; auto simp: csv_special_def)+
  show "takeWhile (\<lambda>c. \<not> csv_special c) (s @ r) = s" and "dropWhile (\<lambda>c. \<not> csv_special c) (s @ r) = r"
    using assms(1) r by (induction s) auto
qed

lemma read_cell_plain: 
  assumes "\<not> list_ex csv_special s" and "cell_end r"
  shows "read_cell (s @ r) = (s, r)"
proof -
  have "\<not> (s @ r \<noteq> [] \<and> hd (s @ r) = CHR 0x22)"
    using assms by (cases s) (auto simp: csv_special_def newline_def)
  then show ?thesis using cut_plain[OF assms] by (simp only: read_cell_def if_False)
qed

lemma read_cell_escape:
  assumes "cell_end r"
  shows "read_cell (csv_escape v @ r) = (csv_text v, r)"
proof (cases "list_ex csv_special (csv_text v)")
  case True
  then have "csv_escape v @ r = CHR 0x22 # concat (map (\<lambda>c. if c = CHR 0x22 then [c, c] else [c]) (csv_text v)) @ CHR 0x22 # r"
    by (simp add: csv_escape_def Let_def)
  then show ?thesis using read_quoted_escape[OF assms] by (simp add: read_cell_def)
next
  case False
  then show ?thesis using read_cell_plain[OF False assms] by (simp add: csv_escape_def)
qed

text \<open>A record: cells that read back one by one.\<close>

lemma read_csv_row:
  assumes "cells \<noteq> []" and "\<forall>(t, v)\<in>set cells. \<forall>r. cell_end r \<longrightarrow> read_cell (t @ r) = (v, r)"
    and "r = [] \<or> hd r = newline"
  shows "read_csv (join '','' (map fst cells) @ r) = (if r = [] then [map snd cells] else map snd cells # read_csv (tl r))"
  using assms(1,2)
proof (induction cells)
  case (Cons c cells)
  obtain t v where c: "c = (t, v)" by fastforce
  have t: "read_cell (t @ q) = (v, q)" if "cell_end q" for q using Cons.prems(2) that c by auto
  show ?case
  proof (cases cells)
    case Nil
    with t[of r] assms(3) show ?thesis
      by (cases r) (auto simp: c newline_def read_csv.simps[of "t @ _"] read_csv.simps[of t])
  next
    case (Cons c' cs)
    have "join '','' (map fst (c # cells)) @ r = t @ CHR '','' # (join '','' (map fst cells) @ r)"
      by (simp add: c local.Cons)
    moreover have "read_cell (t @ CHR '','' # (join '','' (map fst cells) @ r)) = (v, CHR '','' # (join '','' (map fst cells) @ r))"
      by (rule t) simp
    ultimately show ?thesis using Cons.IH Cons.prems(2) local.Cons
      by (simp add: read_csv.simps[of "t @ _"] c)
  qed
qed simp

lemma read_csv_rows:
  assumes "rows \<noteq> []"
    and "\<forall>cells\<in>set rows. cells \<noteq> [] \<and> (\<forall>(t, v)\<in>set cells. \<forall>r. cell_end r \<longrightarrow> read_cell (t @ r) = (v, r))"
  shows "read_csv (join [newline] (map (\<lambda>cells. join '','' (map fst cells)) rows)) = map (map snd) rows"
  using assms
proof (induction rows)
  case (Cons row rows)
  show ?case
  proof (cases rows)
    case Nil
    then show ?thesis using read_csv_row[of row "[]"] Cons.prems by simp
  next
    case (Cons r rs)
    let ?rest = "newline # join [newline] (map (\<lambda>cells. join '','' (map fst cells)) rows)"
    have "join [newline] (map (\<lambda>cells. join '','' (map fst cells)) (row # rows)) = join '','' (map fst row) @ ?rest"
      by (simp add: local.Cons)
    then show ?thesis using read_csv_row[of row ?rest] Cons.IH Cons.prems local.Cons by simp
  qed
qed simp

text \<open>C38: an exported file reads back: as long as the column names hold no comma, quote or line feed, a CSV
  reader finds the header and, in every record, the text of every cell, whatever the cells hold.\<close>

theorem csv_roundtrip:
  assumes "dat = Some (r # rows)" and "r \<noteq> []" and "\<forall>c\<in>set (map fst r). \<not> list_ex csv_special c"
  shows "map_option read_csv (exportCsv dat)
    = Some (map fst r # map (\<lambda>row. map (\<lambda>c. csv_text (map_of row c)) (map fst r)) (r # rows))"
proof -
  let ?cols = "map fst r"
  let ?head = "map (\<lambda>c. (c, c)) ?cols"
  let ?row = "\<lambda>row. map (\<lambda>c. (csv_escape (map_of row c), csv_text (map_of row c))) ?cols"
  let ?rows = "?head # map ?row (r # rows)"
  have "exportCsv dat = Some (join [newline] (map (\<lambda>cells. join '','' (map fst cells)) ?rows))"
    using assms(1) by (simp add: exportCsv_def comp_def)
  moreover have "read_csv (join [newline] (map (\<lambda>cells. join '','' (map fst cells)) ?rows)) = map (map snd) ?rows"
  proof (rule read_csv_rows)
    show "\<forall>cells\<in>set ?rows. cells \<noteq> [] \<and> (\<forall>(t, v)\<in>set cells. \<forall>r. cell_end r \<longrightarrow> read_cell (t @ r) = (v, r))"
      using assms(2,3) read_cell_plain read_cell_plain[where r = "[]"] read_cell_escape read_cell_escape[where r = "[]"] by auto
  qed simp
  ultimately show ?thesis by (simp add: comp_def)
qed

section \<open>Samples\<close>

abbreviation revenue_input :: widget_input where
  "revenue_input \<equiv> \<lparr>wi_chartType = Bar, wi_xCol = ''country'', wi_yCol = ''total'', wi_agg = Some Sum, wi_bucket = None,
     wi_fields = [\<lparr>sf_name = ''country'', sf_type = ''string''\<rparr>, \<lparr>sf_name = ''total'', sf_type = ''number''\<rparr>],
     wi_filters = [\<lparr>fr_field = ''total'', fr_op = OpGt, fr_value = '' 10''\<rparr>, \<lparr>fr_field = ''total'', fr_op = OpLt, fr_value = ''''\<rparr>],
     wi_editingSpec = None\<rparr>"

abbreviation revenue_widget :: widget_def where
  "revenue_widget \<equiv> \<lparr>w_id = ''w_1'', w_layout = \<lparr>gb_x = 0, gb_y = Some 0, gb_w = 4, gb_h = 4\<rparr>, w_type = Bar, w_dataset = ''orders'',
     w_title = ''Revenue'', w_spec = buildWidgetSpec revenue_input, w_data = None\<rparr>"

theorem widget_edit_roundtrip_witness:
  "handleAdd 7 (Some revenue_widget) (schema_answer (Inr (wi_fields revenue_input)) (schema_start (open_form [] None (Some revenue_widget))))
     = widget.truncate revenue_widget"
  by (rule widget_edit_roundtrip) (simp_all add: column_names_def)

theorem csv_roundtrip_witness:
  "map_option read_csv (exportCsv (Some [[(''id'', JNum 1), (''note'', JStr ''a,b'')]])) = Some [[''id'', ''note''], [''1'', ''a,b'']]"
proof -
  have "\<not> list_ex csv_special ''id''" "\<not> list_ex csv_special ''note''" by code_simp+
  then show ?thesis
    using csv_roundtrip[of "Some [[(''id'', JNum 1), (''note'', JStr ''a,b'')]]" "[(''id'', JNum 1), (''note'', JStr ''a,b'')]" "[]"]
    by (simp add: csv_text_def cell_string_def int_str_def nat_str.simps digit_char_def)
qed

text \<open>The header is not escaped: a column whose name holds a comma becomes two, and every record is short.\<close>

lemma csv_header_splits:
  "map_option read_csv (exportCsv (Some [[(''a,b'', JNum 1)]])) = Some [[''a'', ''b''], [''1'']]"
  by code_simp

text \<open>While the columns are still loading the button is on, and the widget it adds selects a column without
  a name.\<close>

lemma add_before_schema:
  "let f = schema_start (open_form [\<lparr>ds_collection = ''orders'', ds_row_count = 1\<rparr>] None None)
   in \<not> add_disabled f \<and> q_groupBy (w_spec (handleAdd 0 None f)) = Some ['''']"
  by code_simp

end
