(* ===== verification/ConnectorsPage.thy ===== *)
theory ConnectorsPage
  imports PageText AnalyticsModel
begin

text \<open>
  Connected accounts and credentials, \<open>apps/web/src/pages/ConnectorsPage.tsx\<close>: the credential form
  and the request it builds, the Zendesk dialog, the cards, and the change-data-capture settings.

  The fields of the credential form are one map for all providers, as in the code: what is typed for one provider stays
  when another is chosen. A property that is \<open>undefined\<close> is left out of a request body.
\<close>

section \<open>Accounts\<close>

datatype oauth_provider = Google | Microsoft | Zendesk

fun oauth_key :: "oauth_provider \<Rightarrow> string" where
  "oauth_key Google = ''google''"
| "oauth_key Microsoft = ''microsoft''"
| "oauth_key Zendesk = ''zendesk''"

record cdc_status =
  cd_enabled :: "bool option"
  cd_resources :: "string list option"
  cd_state :: "string option"
  cd_error :: "string option"

record connection =
  cn_id :: string
  cn_kind :: "string option"
  cn_provider :: string
  cn_name :: "string option"
  cn_email :: "string option"
  cn_subdomain :: "string option"
  cn_host :: "string option"
  cn_brokers :: "string option"
  cn_baseUrl :: "string option"
  cn_cdc :: "cdc_status option"
  cn_connected_at :: "string option"

text \<open>\<open>timeAgo\<close> at the time \<open>now\<close>; \<open>div\<close> is \<open>Math.floor\<close> of the quotient.\<close>

definition timeAgo :: "int \<Rightarrow> string option \<Rightarrow> string" where
  "timeAgo now stamp =
     (case truthy stamp of
        None \<Rightarrow> ''''
      | Some t \<Rightarrow>
          (case date_parse t of
             None \<Rightarrow> ''NaNd ago''
           | Some at \<Rightarrow>
               let mins = (now - at) div 60000; hrs = mins div 60 in
               if mins < 1 then ''just now'' else if mins < 60 then int_str mins @ ''m ago''
               else if hrs < 24 then int_str hrs @ ''h ago'' else int_str (hrs div 24) @ ''d ago''))"

section \<open>The Zendesk dialog\<close>

text \<open>\<open>replace(/\.zendesk\.com\/?$/, '')\<close> on the trimmed text.\<close>

definition zendesk_slug :: "string \<Rightarrow> string" where
  "zendesk_slug s =
     (let t = js_trim s; a = ''.zendesk.com''; b = ''.zendesk.com/'' in
      if ends_with b t then take (length t - length b) t
      else if ends_with a t then take (length t - length a) t else t)"

record zendesk_dialog =
  zd_subdomain :: string
  zd_busy :: bool
  zd_err :: "string option"
  zd_sent :: "string list"

definition zd_submit :: "zendesk_dialog \<Rightarrow> zendesk_dialog" where
  "zd_submit st =
     (let slug = zendesk_slug (zd_subdomain st) in
      if slug = [] then st else st\<lparr>zd_busy := True, zd_err := None, zd_sent := zd_sent st @ [slug]\<rparr>)"

text \<open>A success leaves the page; only the failure changes the dialog.\<close>

definition zd_failed :: "string option \<Rightarrow> zendesk_dialog \<Rightarrow> zendesk_dialog" where
  "zd_failed e st = st\<lparr>zd_err := Some (nullish e ''Failed to initiate OAuth''), zd_busy := False\<rparr>"

definition zd_disabled :: "zendesk_dialog \<Rightarrow> bool" where
  "zd_disabled st \<longleftrightarrow> zd_busy st \<or> js_trim (zd_subdomain st) = []"

section \<open>Credentials\<close>

datatype credential_provider = Postgres | Mysql | Mongodb | Clickhouse | S3 | Sftp | Snowflake | Iceberg | Kafka | Http

fun provider_key :: "credential_provider \<Rightarrow> string" where
  "provider_key Postgres = ''postgres''"
| "provider_key Mysql = ''mysql''"
| "provider_key Mongodb = ''mongodb''"
| "provider_key Clickhouse = ''clickhouse''"
| "provider_key S3 = ''s3''"
| "provider_key Sftp = ''sftp''"
| "provider_key Snowflake = ''snowflake''"
| "provider_key Iceberg = ''iceberg''"
| "provider_key Kafka = ''kafka''"
| "provider_key Http = ''http''"

text \<open>Key, label, subtitle, and the feature that the card needs.\<close>

definition CREDENTIAL_CATALOG :: "(credential_provider \<times> string \<times> string \<times> paid_feature option) list" where
  "CREDENTIAL_CATALOG =
     [(Postgres, ''PostgreSQL'', ''Database '' @ u_middot @ '' CDC'', None),
      (Mysql, ''MySQL'', ''Database '' @ u_middot @ '' CDC'', None),
      (Mongodb, ''MongoDB'', ''Document DB '' @ u_middot @ '' CDC'', None),
      (S3, ''Amazon S3'', ''Object storage'', None),
      (Kafka, ''Kafka'', ''Event streaming'', Some Realtime),
      (Snowflake, ''Snowflake'', ''Cloud warehouse'', Some AdvancedConnectors),
      (Sftp, ''SFTP'', ''Secure file transfer'', Some AdvancedConnectors),
      (Iceberg, ''Apache Iceberg'', ''Lakehouse tables'', Some AdvancedConnectors),
      (Clickhouse, ''ClickHouse'', ''Analytics database'', None),
      (Http, ''HTTP API'', ''REST endpoint'', None)]"

text \<open>The choices of the form's type, and a click on a card: the form, or the plans.\<close>

definition type_options :: "paid_features \<Rightarrow> credential_provider list" where
  "type_options features =
     [Postgres, Mysql, Mongodb, Clickhouse, S3] @ (if features AdvancedConnectors then [Sftp, Snowflake, Iceberg] else [])
       @ (if features Realtime then [Kafka] else []) @ [Http]"

datatype card_click = OpenForm credential_provider | OpenPlans

definition click_card :: "paid_features \<Rightarrow> credential_provider \<times> string \<times> string \<times> paid_feature option \<Rightarrow> card_click" where
  "click_card features c =
     (case c of (key, _, _, feature) \<Rightarrow>
        if (case feature of None \<Rightarrow> True | Some f \<Rightarrow> features f) then OpenForm key else OpenPlans)"

type_synonym form = "string \<Rightarrow> string option"

definition field :: "form \<Rightarrow> string \<Rightarrow> (string \<times> json) list" where
  "field f k = (case f k of Some v \<Rightarrow> [(k, JStr v)] | None \<Rightarrow> [])"

definition field_or :: "form \<Rightarrow> string \<Rightarrow> string \<Rightarrow> (string \<times> json) list" where
  "field_or f k d = [(k, JStr (or_else (f k) d))]"

definition flag :: "form \<Rightarrow> string \<Rightarrow> (string \<times> json) list" where
  "flag f k = [(k, JBool (f k = Some ''true''))]"

text \<open>\<open>f.port ? +f.port : d\<close>; a number that is not finite is \<open>null\<close> in JSON.\<close>

definition port_field :: "form \<Rightarrow> int \<Rightarrow> (string \<times> json) list" where
  "port_field f d = [(''port'', case truthy (f ''port'') of Some s \<Rightarrow> nullish (finite_text s) JNull | None \<Rightarrow> JNum d)]"

fun credential_config :: "credential_provider \<Rightarrow> form \<Rightarrow> (string \<times> json) list" where
  "credential_config Postgres f = field f ''host'' @ port_field f 5432 @ field f ''database'' @ field f ''user''
     @ [(''sslMode'', JStr (nullish (f ''sslMode'') ''disable''))]"
| "credential_config Mysql f = field f ''host'' @ port_field f 3306 @ field f ''database'' @ field f ''user''
     @ [(''sslMode'', JStr (nullish (f ''sslMode'') ''disable''))]"
| "credential_config Mongodb f = (let srv = (f ''srv'' = Some ''true'') in
     field f ''host'' @ (if srv then [(''srv'', JBool True)] else port_field f 27017) @ field f ''database'' @ field f ''user''
       @ field_or f ''authSource'' ''admin'' @ [(''tls'', JBool (srv \<or> f ''tls'' = Some ''true''))])"
| "credential_config Clickhouse f = field f ''url'' @ field_or f ''database'' ''default'' @ field_or f ''username'' ''default''"
| "credential_config S3 f = field_or f ''region'' ''us-east-1'' @ field f ''endpoint'' @ flag f ''forcePathStyle''"
| "credential_config Sftp f = field f ''host'' @ port_field f 22 @ field f ''user'' @ field f ''hostKey'' @ field f ''testPath''"
| "credential_config Snowflake f = field f ''account'' @ field f ''user'' @ field f ''warehouse'' @ field f ''database'' @ field f ''schema''"
| "credential_config Iceberg f = field f ''url'' @ field f ''warehouse'' @ field f ''region'' @ field f ''endpoint'' @ flag f ''forcePathStyle''"
| "credential_config Kafka f = field f ''brokers'' @ field_or f ''clientId'' ''dataflow'' @ flag f ''tls'' @ field_or f ''saslMechanism'' ''none''"
| "credential_config Http f = field f ''baseUrl''"

fun credential_secret :: "credential_provider \<Rightarrow> form \<Rightarrow> (string \<times> json) list" where
  "credential_secret Postgres f = field f ''password''"
| "credential_secret Mysql f = field f ''password''"
| "credential_secret Mongodb f = field f ''password''"
| "credential_secret Clickhouse f = field f ''password''"
| "credential_secret S3 f = field f ''accessKeyId'' @ field f ''secretAccessKey''"
| "credential_secret Sftp f = field f ''password'' @ field f ''privateKey''"
| "credential_secret Snowflake f = field f ''password''"
| "credential_secret Iceberg f = field f ''token'' @ field f ''accessKeyId'' @ field f ''secretAccessKey''"
| "credential_secret Kafka f = field f ''username'' @ field f ''password''"
| "credential_secret Http f = field f ''apiKey'' @ field f ''hmacSecret''"

definition credential_body :: "credential_provider \<Rightarrow> string \<Rightarrow> form \<Rightarrow> json" where
  "credential_body p name f =
     JObj [(''provider'', JStr (provider_key p)), (''name'', JStr name), (''config'', JObj (credential_config p f)),
       (''secret'', JObj (credential_secret p f))]"

text \<open>The inputs that the form shows for a provider, with the ones of type \<open>password\<close>.\<close>

fun form_inputs :: "credential_provider \<Rightarrow> form \<Rightarrow> (string \<times> bool) list" where
  "form_inputs Postgres f = [(''host'', False), (''port'', False), (''database'', False), (''user'', False), (''password'', True),
     (''sslMode'', False)]"
| "form_inputs Mysql f = [(''host'', False), (''port'', False), (''database'', False), (''user'', False), (''password'', True),
     (''sslMode'', False)]"
| "form_inputs Mongodb f = [(''host'', False)] @ (if f ''srv'' \<noteq> Some ''true'' then [(''port'', False)] else [])
     @ [(''database'', False), (''user'', False), (''password'', True), (''authSource'', False), (''srv'', False)]
     @ (if f ''srv'' \<noteq> Some ''true'' then [(''tls'', False)] else [])"
| "form_inputs Clickhouse f = [(''url'', False), (''database'', False), (''username'', False), (''password'', True)]"
| "form_inputs S3 f = [(''region'', False), (''endpoint'', False), (''accessKeyId'', False), (''secretAccessKey'', True), (''forcePathStyle'', False)]"
| "form_inputs Kafka f = [(''brokers'', False), (''clientId'', False), (''saslMechanism'', False)]
     @ (if truthy (f ''saslMechanism'') \<noteq> None \<and> f ''saslMechanism'' \<noteq> Some ''none'' then [(''username'', False), (''password'', True)] else [])
     @ [(''tls'', False)]"
| "form_inputs Sftp f = [(''host'', False), (''port'', False), (''user'', False), (''hostKey'', False), (''password'', True), (''privateKey'', False)]"
| "form_inputs Snowflake f = [(''account'', False), (''user'', False), (''password'', True), (''warehouse'', False), (''database'', False),
     (''schema'', False)]"
| "form_inputs Iceberg f = [(''url'', False), (''warehouse'', False), (''token'', True), (''accessKeyId'', False), (''secretAccessKey'', True),
     (''region'', False)]"
| "form_inputs Http f = [(''baseUrl'', False), (''apiKey'', True), (''hmacSecret'', True)]"

record credential_dialog =
  cr_provider :: credential_provider
  cr_name :: string
  cr_fields :: form
  cr_busy :: bool
  cr_err :: "string option"
  cr_sent :: "json list"

definition cr_opened :: "credential_provider \<Rightarrow> credential_dialog" where
  "cr_opened p = \<lparr>cr_provider = p, cr_name = '''', cr_fields = (\<lambda>_. None), cr_busy = False, cr_err = None, cr_sent = []\<rparr>"

definition cr_set :: "string \<Rightarrow> string \<Rightarrow> credential_dialog \<Rightarrow> credential_dialog" where
  "cr_set k v st = st\<lparr>cr_fields := (cr_fields st)(k \<mapsto> v)\<rparr>"

definition cr_submit :: "credential_dialog \<Rightarrow> credential_dialog" where
  "cr_submit st =
     st\<lparr>cr_busy := True, cr_err := None, cr_sent := cr_sent st @ [credential_body (cr_provider st) (cr_name st) (cr_fields st)]\<rparr>"

definition cr_failed :: "string option \<Rightarrow> credential_dialog \<Rightarrow> credential_dialog" where
  "cr_failed e st = st\<lparr>cr_err := Some (nullish e ''Failed to save''), cr_busy := False\<rparr>"

definition cr_disabled :: "credential_dialog \<Rightarrow> bool" where
  "cr_disabled st \<longleftrightarrow> cr_busy st \<or> js_trim (cr_name st) = []"

section \<open>The page\<close>

datatype connector_call =
    ListConnectors
  | TestConnector string
  | DeleteConnector string
  | GetCdc string
  | PutCdc string "string list"
  | DeleteCdc string
  | StartOAuth oauth_provider

text \<open>The records \<open>testResult\<close>, \<open>cdcResources\<close> and \<open>cdcStatus\<close> are maps from the id of a connection; \<open>cp_calls\<close> is the log of
  requests.\<close>

record connectors_page =
  cp_connections :: "connection list"
  cp_loading :: bool
  cp_error :: "string option"
  cp_zendesk :: bool
  cp_credential :: "credential_provider option"
  cp_test :: "string \<Rightarrow> string option"
  cp_resources :: "string \<Rightarrow> string option"
  cp_status :: "string \<Rightarrow> cdc_status option"
  cp_cdcBusy :: "string option"
  cp_actionBusy :: "string option"
  cp_calls :: "connector_call list"

definition cp_initial :: connectors_page where
  "cp_initial = \<lparr>cp_connections = [], cp_loading = True, cp_error = None, cp_zendesk = False, cp_credential = None,
     cp_test = (\<lambda>_. None), cp_resources = (\<lambda>_. None), cp_status = (\<lambda>_. None), cp_cdcBusy = None, cp_actionBusy = None,
     cp_calls = []\<rparr>"

definition no_status :: cdc_status where
  "no_status = \<lparr>cd_enabled = None, cd_resources = None, cd_state = None, cd_error = None\<rparr>"

definition credentials :: "connectors_page \<Rightarrow> connection list" where
  "credentials st = filter (\<lambda>c. cn_kind c = Some ''credential'') (cp_connections st)"

definition byProvider :: "oauth_provider \<Rightarrow> connectors_page \<Rightarrow> connection list" where
  "byProvider p st = filter (\<lambda>c. cn_provider c = oauth_key p) (cp_connections st)"

definition cp_call :: "connector_call \<Rightarrow> connectors_page \<Rightarrow> connectors_page" where
  "cp_call c st = st\<lparr>cp_calls := cp_calls st @ [c]\<rparr>"

definition refresh_start :: "connectors_page \<Rightarrow> connectors_page" where
  "refresh_start st = cp_call ListConnectors (st\<lparr>cp_loading := True, cp_error := None\<rparr>)"

text \<open>The page asks for the list when it is opened.\<close>

definition cp_opened :: connectors_page where
  "cp_opened = refresh_start cp_initial"

text \<open>The list of the server: what the page already knows about a connection wins.\<close>

definition server_resources :: "connection \<Rightarrow> string" where
  "server_resources c = (case Option.bind (cn_cdc c) cd_resources of Some rs \<Rightarrow> join '', '' rs | None \<Rightarrow> '''')"

definition refresh_answer :: "string option + connection list \<Rightarrow> connectors_page \<Rightarrow> connectors_page" where
  "refresh_answer out st =
     (case out of
        Inr cs \<Rightarrow>
          st\<lparr>cp_connections := cs,
             cp_resources := map_of (map_from (map (\<lambda>c. (cn_id c, nullish (cp_resources st (cn_id c)) (server_resources c))) cs)),
             cp_status := map_of (map_from (map (\<lambda>c. (cn_id c,
               case cp_status st (cn_id c) of Some s \<Rightarrow> s | None \<Rightarrow> nullish (cn_cdc c) (no_status\<lparr>cd_enabled := Some False\<rparr>))) cs)),
             cp_loading := False\<rparr>
      | Inl e \<Rightarrow> st\<lparr>cp_error := Some (nullish e ''Failed to load connectors''), cp_loading := False\<rparr>)"

definition test_start :: "string \<Rightarrow> connectors_page \<Rightarrow> connectors_page" where
  "test_start i st = cp_call (TestConnector i) (st\<lparr>cp_test := (cp_test st)(i \<mapsto> ''testing'' @ u_ellipsis)\<rparr>)"

definition test_answer :: "string \<Rightarrow> string option + (bool \<times> string) \<Rightarrow> connectors_page \<Rightarrow> connectors_page" where
  "test_answer i out st =
     st\<lparr>cp_test := (cp_test st)(i \<mapsto>
          (case out of
             Inr (ok, message) \<Rightarrow> (if ok then ''Passed'' else ''Failed'') @ '': '' @ message
           | Inl e \<Rightarrow> ''Failed: '' @ nullish e ''failed''))\<rparr>"

text \<open>\<open>saveCdc\<close>: the resources it sends.\<close>

definition cdc_resources :: "string \<Rightarrow> connectors_page \<Rightarrow> string list" where
  "cdc_resources i st = filter (\<lambda>s. s \<noteq> []) (map js_trim (split_char (CHR '','') (nullish (cp_resources st i) '''')))"

datatype cdc_action = RefreshCdc | SaveCdc | DisableCdc

definition cdc_start :: "cdc_action \<Rightarrow> string \<Rightarrow> connectors_page \<Rightarrow> connectors_page" where
  "cdc_start action i st =
     cp_call (case action of RefreshCdc \<Rightarrow> GetCdc i | SaveCdc \<Rightarrow> PutCdc i (cdc_resources i st) | DisableCdc \<Rightarrow> DeleteCdc i)
       (st\<lparr>cp_cdcBusy := Some i\<rparr>)"

fun cdc_failure :: "cdc_action \<Rightarrow> string" where
  "cdc_failure RefreshCdc = ''status failed''"
| "cdc_failure SaveCdc = ''CDC setup failed''"
| "cdc_failure DisableCdc = ''CDC disable failed''"

text \<open>The answer; the one to \<open>DisableCdc\<close> is not looked at.\<close>

definition cdc_answer :: "cdc_action \<Rightarrow> string \<Rightarrow> string option + cdc_status \<Rightarrow> connectors_page \<Rightarrow> connectors_page" where
  "cdc_answer action i out st =
     st\<lparr>cp_cdcBusy := None,
        cp_status := (cp_status st)(i \<mapsto>
          (case out of
             Inl e \<Rightarrow> no_status\<lparr>cd_error := Some (nullish e (cdc_failure action))\<rparr>
           | Inr s \<Rightarrow> if action = DisableCdc then no_status\<lparr>cd_enabled := Some False\<rparr> else s))\<rparr>"

definition edit_resources :: "string \<Rightarrow> string \<Rightarrow> connectors_page \<Rightarrow> connectors_page" where
  "edit_resources i s st = st\<lparr>cp_resources := (cp_resources st)(i \<mapsto> s)\<rparr>"

definition disconnected :: "string \<Rightarrow> connectors_page \<Rightarrow> connectors_page" where
  "disconnected i st = st\<lparr>cp_connections := filter (\<lambda>c. cn_id c \<noteq> i) (cp_connections st)\<rparr>"

definition removeCred :: "string \<Rightarrow> connectors_page \<Rightarrow> connectors_page" where
  "removeCred i st = cp_call (DeleteConnector i) st"

text \<open>\<open>removeCred\<close>: a deletion that succeeds asks for the list again; one that fails is not caught and changes nothing.\<close>

definition removed :: "string option + unit \<Rightarrow> connectors_page \<Rightarrow> connectors_page" where
  "removed out st = (case out of Inr _ \<Rightarrow> refresh_start st | Inl _ \<Rightarrow> st)"

text \<open>The card's own state while it disconnects is the id of the account; only that account's button is locked.\<close>

definition disconnect_start :: "string \<Rightarrow> connectors_page \<Rightarrow> string option \<times> connectors_page" where
  "disconnect_start i st = (Some i, cp_call (DeleteConnector i) st)"

definition disconnect_answer :: "string \<Rightarrow> string option + unit \<Rightarrow> connectors_page \<Rightarrow> string option \<times> connectors_page" where
  "disconnect_answer i out st = (None, case out of Inr _ \<Rightarrow> disconnected i st | Inl _ \<Rightarrow> st)"

definition disconnect_button :: "string option \<Rightarrow> string \<Rightarrow> string \<times> bool" where
  "disconnect_button disconnecting i =
     (if disconnecting = Some i then (''Disconnecting'' @ u_ellipsis, True) else (''Disconnect'', False))"

text \<open>Google and Microsoft; while one is under way its card does nothing.\<close>

definition connect_start :: "oauth_provider \<Rightarrow> connectors_page \<Rightarrow> connectors_page" where
  "connect_start p st =
     (if p = Zendesk then st\<lparr>cp_zendesk := True\<rparr>
      else if cp_actionBusy st = Some (oauth_key p) then st
      else cp_call (StartOAuth p) (st\<lparr>cp_actionBusy := Some (oauth_key p)\<rparr>))"

definition connect_failed :: "string \<Rightarrow> connectors_page \<Rightarrow> connectors_page" where
  "connect_failed e st = st\<lparr>cp_error := Some e, cp_actionBusy := None\<rparr>"

section \<open>What a connection shows\<close>

definition supportsCdc :: "connection \<Rightarrow> bool" where
  "supportsCdc c \<longleftrightarrow> cn_provider c \<in> {''postgres'', ''mysql'', ''mongodb''}"

definition shown_status :: "connectors_page \<Rightarrow> connection \<Rightarrow> cdc_status" where
  "shown_status st c = (case cp_status st (cn_id c) of Some s \<Rightarrow> s | None \<Rightarrow> nullish (cn_cdc c) no_status)"

definition prerequisite :: "connection \<Rightarrow> string" where
  "prerequisite c =
     (if cn_provider c = ''postgres'' then ''Requires logical replication and pgoutput.''
      else if cn_provider c = ''mysql'' then ''Requires ROW binlog with a replication user.''
      else ''Requires a replica set with change streams enabled.'')"

definition cdc_shown :: "paid_features \<Rightarrow> connectors_page \<Rightarrow> connection \<Rightarrow> bool" where
  "cdc_shown features st c \<longleftrightarrow> supportsCdc c \<and> (features Realtime \<or> cd_enabled (shown_status st c) = Some True)"

definition cdc_save_disabled :: "connectors_page \<Rightarrow> connection \<Rightarrow> bool" where
  "cdc_save_disabled st c \<longleftrightarrow> cp_cdcBusy st = Some (cn_id c) \<or> js_trim (nullish (cp_resources st (cn_id c)) '''') = []"

definition cdc_status_text :: "connectors_page \<Rightarrow> connection \<Rightarrow> string" where
  "cdc_status_text st c =
     (let s = shown_status st c in
      if cp_cdcBusy st = Some (cn_id c) then ''Working'' @ u_ellipsis
      else case truthy (cd_error s) of
          Some e \<Rightarrow> ''Error: '' @ e
        | None \<Rightarrow> if cd_enabled s = Some True then nullish (cd_state s) ''Enabled'' else ''Disabled'')"

text \<open>A card: its badge and the label of an account.\<close>

definition card_badge :: "connection list \<Rightarrow> string" where
  "card_badge cs = (if cs \<noteq> [] then ''Active'' else ''Not connected'')"

definition account_label :: "connection \<Rightarrow> string" where
  "account_label c =
     (case cn_email c of Some e \<Rightarrow> e | None \<Rightarrow> nullish (cn_subdomain c) (cn_id c))
       @ (if truthy (cn_subdomain c) \<noteq> None then ''.zendesk.com'' else '''')"

text \<open>The card of a kind of credential: its badge.\<close>

definition catalog_badge :: "paid_features \<Rightarrow> connectors_page \<Rightarrow> credential_provider \<Rightarrow> paid_feature option \<Rightarrow> string" where
  "catalog_badge features st key feature =
     (let count = length (filter (\<lambda>c. cn_provider c = provider_key key) (credentials st)) in
      if count > 0 then nat_str count @ '' active''
      else if \<not> (case feature of None \<Rightarrow> True | Some f \<Rightarrow> features f) then ''Plan'' else '''')"

text \<open>The line of a configured credential, and the result of its last test.\<close>

definition credential_line :: "connectors_page \<Rightarrow> connection \<Rightarrow> string \<times> string option" where
  "credential_line st c =
     (nullish (cn_name c) (cn_id c) @ '' '' @ u_middot @ '' '' @ cn_provider c, truthy (cp_test st (cn_id c)))"

section \<open>The sections of the page\<close>

text \<open>The card of a provider: its name and the line below, the badge, the accounts (label, age, button and whether it is
  locked), and the buttons that connect.\<close>

record account_card =
  ac_label :: string
  ac_subtitle :: string
  ac_badge :: string
  ac_accounts :: "(string \<times> string option \<times> string \<times> bool) list"
  ac_connect :: "string list"

definition PROVIDERS :: "(oauth_provider \<times> string) list" where
  "PROVIDERS = [(Google, ''Google''), (Microsoft, ''Microsoft''), (Zendesk, ''Zendesk'')]"

definition account_row :: "int \<Rightarrow> string option \<Rightarrow> connection \<Rightarrow> string \<times> string option \<times> string \<times> bool" where
  "account_row now disconnecting c =
     (account_label c, map_option (\<lambda>t. ''Connected '' @ timeAgo now (Some t)) (truthy (cn_connected_at c)),
      disconnect_button disconnecting (cn_id c))"

definition account_card_of :: "int \<Rightarrow> string option \<Rightarrow> oauth_provider \<times> string \<Rightarrow> connection list \<Rightarrow> account_card" where
  "account_card_of now disconnecting pl cs =
     (case pl of (p, label) \<Rightarrow>
        \<lparr>ac_label = label, ac_subtitle = (if p = Zendesk then ''Per-subdomain OAuth'' else ''OAuth 2.0''),
         ac_badge = card_badge cs, ac_accounts = map (account_row now disconnecting) cs,
         ac_connect = (if cs = [] then [''Connect '' @ label @ '' '' @ u_arrow]
           else if p = Zendesk then [''Connect another Zendesk subdomain''] else [])\<rparr>)"

text \<open>Every card has its own \<open>disconnecting\<close>.\<close>

definition accounts_section :: "int \<Rightarrow> (oauth_provider \<Rightarrow> string option) \<Rightarrow> connectors_page \<Rightarrow> string + account_card list" where
  "accounts_section now disconnecting st =
     (if cp_loading st \<and> cp_connections st = [] then Inl (''Loading connectors'' @ u_ellipsis)
      else Inr (map (\<lambda>pl. account_card_of now (disconnecting (fst pl)) pl (byProvider (fst pl) st)) PROVIDERS))"

text \<open>The card of a kind of credential: name for a screen reader, title, line, badge, and the call to action.\<close>

definition catalog_card :: "paid_features \<Rightarrow> connectors_page \<Rightarrow> credential_provider \<times> string \<times> string \<times> paid_feature option
    \<Rightarrow> string list" where
  "catalog_card features st c =
     (case c of (key, label, subtitle, feature) \<Rightarrow>
        let available = (case feature of None \<Rightarrow> True | Some f \<Rightarrow> features f) in
        [(if available then ''Configure '' else ''View plans for '') @ label, label, subtitle, catalog_badge features st key feature,
         (if available then ''Configure '' else ''View plans '') @ u_arrow])"

text \<open>The panel of a connection with change data capture: placeholder, hint, buttons with their locks, status.\<close>

definition cdc_placeholder :: "connection \<Rightarrow> string" where
  "cdc_placeholder c = (if cn_provider c = ''mongodb'' then ''database.collection'' else ''schema.table'')"

definition cdc_buttons :: "connectors_page \<Rightarrow> connection \<Rightarrow> (string \<times> cdc_action \<times> bool) list" where
  "cdc_buttons st c =
     (let enabled = (cd_enabled (shown_status st c) = Some True); busy = (cp_cdcBusy st = Some (cn_id c)) in
      [(if enabled then ''Update CDC'' else ''Enable CDC'', SaveCdc, cdc_save_disabled st c), (''Refresh status'', RefreshCdc, busy)]
      @ (if enabled then [(''Disable'', DisableCdc, busy)] else []))"

record cdc_panel =
  cx_value :: string
  cx_placeholder :: string
  cx_hint :: string
  cx_buttons :: "(string \<times> cdc_action \<times> bool) list"
  cx_status :: string

definition cdc_panel_of :: "paid_features \<Rightarrow> connectors_page \<Rightarrow> connection \<Rightarrow> cdc_panel option" where
  "cdc_panel_of features st c =
     (if cdc_shown features st c
      then Some \<lparr>cx_value = nullish (cp_resources st (cn_id c)) '''', cx_placeholder = cdc_placeholder c,
        cx_hint = ''Comma-separated. '' @ prerequisite c, cx_buttons = cdc_buttons st c, cx_status = cdc_status_text st c\<rparr>
      else None)"

text \<open>A configured credential: its line, the name of its delete button, its panel. The section is hidden when there is none.\<close>

definition delete_name :: "connection \<Rightarrow> string" where
  "delete_name c = ''Delete '' @ nullish (cn_name c) (cn_provider c) @ '' credential''"

definition configured_section :: "paid_features \<Rightarrow> connectors_page
    \<Rightarrow> (nat \<times> ((string \<times> string option) \<times> string \<times> cdc_panel option) list) option" where
  "configured_section features st =
     (if credentials st = [] then None
      else Some (length (credentials st),
        map (\<lambda>c. (credential_line st c, delete_name c, cdc_panel_of features st c)) (credentials st)))"

text \<open>Keys and successes of the two dialogs: Escape closes either; a saved credential closes its dialog and asks for the list.\<close>

definition dialog_key :: "string \<Rightarrow> connectors_page \<Rightarrow> connectors_page" where
  "dialog_key key st = (if key = ''Escape'' then st\<lparr>cp_zendesk := False, cp_credential := None\<rparr> else st)"

definition open_card :: "card_click \<Rightarrow> connectors_page \<Rightarrow> connectors_page" where
  "open_card click st = (case click of OpenForm p \<Rightarrow> st\<lparr>cp_credential := Some p\<rparr> | OpenPlans \<Rightarrow> st)"

definition credential_saved :: "connectors_page \<Rightarrow> connectors_page" where
  "credential_saved st = (refresh_start st)\<lparr>cp_credential := None\<rparr>"

section \<open>Secrets\<close>

text \<open>The inputs that hold a secret, whatever the provider: passwords, keys with their ids, tokens. The list does not look at
  what the form does with them.\<close>

definition SECRET_NAMES :: "string list" where
  "SECRET_NAMES = [''password'', ''privateKey'', ''accessKeyId'', ''secretAccessKey'', ''token'', ''apiKey'', ''hmacSecret'']"

text \<open>The user name of Kafka is treated like a secret; that of the other providers is not.\<close>

definition secret_keys :: "credential_provider \<Rightarrow> string set" where
  "secret_keys p = set SECRET_NAMES \<union> (if p = Kafka then {''username''} else {})"

lemma field_other [simp]: "k \<noteq> k' \<Longrightarrow> field (f(k \<mapsto> v)) k' = field f k'"
  by (simp add: field_def)

lemma field_or_other [simp]: "k \<noteq> k' \<Longrightarrow> field_or (f(k \<mapsto> v)) k' d = field_or f k' d"
  by (simp add: field_or_def)

lemma flag_other [simp]: "k \<noteq> k' \<Longrightarrow> flag (f(k \<mapsto> v)) k' = flag f k'"
  by (simp add: flag_def)

lemma port_other [simp]: "k \<noteq> ''port'' \<Longrightarrow> port_field (f(k \<mapsto> v)) d = port_field f d"
  by (simp add: port_field_def)

lemmas secret_keys_eval = secret_keys_def SECRET_NAMES_def

lemma config_without_secrets: "list_all (\<lambda>k. credential_config p (f(k \<mapsto> v)) = credential_config p f) SECRET_NAMES"
  by (cases p) (simp_all add: SECRET_NAMES_def Let_def)

lemma shown_secrets:
  "list_all (\<lambda>(i, masked). (masked \<longrightarrow> i \<in> set SECRET_NAMES)
     \<and> (i \<in> set SECRET_NAMES \<longrightarrow> set (field f i) \<subseteq> set (credential_secret p f))) (form_inputs p f)"
  by (cases p) (simp_all add: SECRET_NAMES_def le_supI1 le_supI2)

lemma secrets_alone:
  "k \<notin> secret_keys p \<Longrightarrow> credential_secret p (f(k \<mapsto> v)) = credential_secret p f"
  by (cases p) (simp_all add: secret_keys_eval)

text \<open>C26: secrets stay out of the configuration. Passwords, private keys, access keys, tokens, API keys and HMAC secrets are secrets
  by their name, for every provider: the configuration that is sent does not depend on any of them; each that the form shows
  is sent among the secrets as it was typed; every input that the form masks is one; and what is sent among the secrets
  depends on nothing else, the user name of Kafka apart.\<close>

theorem secrets_apart:
  "(k \<in> set SECRET_NAMES \<longrightarrow> credential_config p (f(k \<mapsto> v)) = credential_config p f)
   \<and> ((k, masked) \<in> set (form_inputs p f) \<and> k \<in> set SECRET_NAMES \<and> f k = Some u \<longrightarrow> (k, JStr u) \<in> set (credential_secret p f))
   \<and> ((k, True) \<in> set (form_inputs p f) \<longrightarrow> k \<in> set SECRET_NAMES)
   \<and> (k \<notin> set SECRET_NAMES \<and> \<not> (p = Kafka \<and> k = ''username'') \<longrightarrow> credential_secret p (f(k \<mapsto> v)) = credential_secret p f)"
  using config_without_secrets[of p f v] shown_secrets[of f p] secrets_alone[of k p f v]
  by (force simp: list_all_iff field_def secret_keys_def split: if_splits)

lemma sent_key:
  "i \<in> fst ` set (field f k) \<longleftrightarrow> i = k \<and> f k \<noteq> None" "i \<in> fst ` set (field_or f k d) \<longleftrightarrow> i = k"
  "i \<in> fst ` set (flag f k) \<longleftrightarrow> i = k" "i \<in> fst ` set (port_field f n) \<longleftrightarrow> i = ''port''"
  by (cases "f k"; simp add: field_def) (auto simp: field_or_def flag_def port_field_def)

text \<open>Nothing that is typed is lost: every input that the form shows for a provider and that is not empty is a
  property of the configuration or of the secrets that are sent; the box that asks for a seed list
  is sent when it is ticked.\<close>

theorem inputs_sent:
  assumes "(i, masked) \<in> set (form_inputs p f)" and "f i = Some v"
  shows "i \<in> fst ` set (credential_config p f) \<or> i \<in> fst ` set (credential_secret p f) \<or> i = ''srv'' \<and> v \<noteq> ''true''"
  using assms
  by (cases p; cases "f ''srv'' = Some ''true''"; simp add: sent_key image_Un Let_def split: if_split_asm) (elim disjE conjE; simp)+

section \<open>Change data capture\<close>

lemma trim_items:
  assumes "list_all (\<lambda>s. s \<noteq> [] \<and> js_trim s = s \<and> CHR '','' \<notin> set s) rs" and "rs \<noteq> []"
  shows "filter (\<lambda>s. s \<noteq> []) (map js_trim (split_char (CHR '','') (join '', '' rs))) = rs"
proof -
  have sp: "js_trim (CHR '' '' # s) = js_trim s" for s
    by (simp add: js_trim_def trim_start_def is_space_def)
  have "split_char (CHR '','') (join '', '' rs) = hd rs # map ((#) (CHR '' '')) (tl rs)"
    using assms
  proof (induction rs)
    case (Cons r rs)
    show ?case
    proof (cases rs)
      case Nil
      then show ?thesis using Cons.prems by (simp add: split_char_no_sep)
    next
      case (Cons r' rs')
      have "CHR '','' \<notin> set r" using Cons.prems by simp
      then show ?thesis using Cons Cons.IH Cons.prems
        by (simp add: split_char_append)
    qed
  qed simp
  then have "map js_trim (split_char (CHR '','') (join '', '' rs)) = rs"
    using assms by (cases rs) (auto simp: sp comp_def list_all_iff intro!: map_idI)
  then show ?thesis using assms(1) by (simp add: list_all_iff filter_id_conv)
qed

text \<open>A change-data-capture setting survives the form: the list of tables that the server reports, shown as text and
  saved without an edit, is sent back as it was.\<close>

theorem cdc_roundtrip:
  assumes "c \<in> set cs" and "distinct (map cn_id cs)" and "cp_resources st (cn_id c) = None"
    and "Option.bind (cn_cdc c) cd_resources = Some rs"
    and "list_all (\<lambda>s. s \<noteq> [] \<and> js_trim s = s \<and> CHR '','' \<notin> set s) rs"
  shows "cdc_resources (cn_id c) (refresh_answer (Inr cs) st) = rs"
proof -
  let ?g = "\<lambda>c. (cn_id c, nullish (cp_resources st (cn_id c)) (server_resources c))"
  have "map_of (map_from (map ?g cs)) (cn_id c) = map_of (map ?g cs) (cn_id c)"
    using assms(2) by (simp add: map_from_distinct comp_def)
  also have "\<dots> = Some (nullish (cp_resources st (cn_id c)) (server_resources c))"
    using assms(1,2) by (intro map_of_is_SomeI) (auto simp: comp_def)
  finally have "cp_resources (refresh_answer (Inr cs) st) (cn_id c) = Some (join '', '' rs)"
    using assms(3,4) by (simp add: refresh_answer_def server_resources_def)
  then show ?thesis using trim_items[OF assms(5)] by (cases "rs = []") (simp_all add: cdc_resources_def js_trim_def trim_start_def trim_end_def)
qed

text \<open>Once the page has a status of a connection, a new list from the server no longer changes it.\<close>

lemma status_goes_stale:
  assumes "c \<in> set cs" and "distinct (map cn_id cs)" and "cp_status st (cn_id c) = Some old"
  shows "shown_status (refresh_answer (Inr cs) st) c = old"
proof -
  let ?g = "\<lambda>c. (cn_id c, case cp_status st (cn_id c) of Some s \<Rightarrow> s | None \<Rightarrow> nullish (cn_cdc c) (no_status\<lparr>cd_enabled := Some False\<rparr>))"
  have "map_of (map_from (map ?g cs)) (cn_id c) = map_of (map ?g cs) (cn_id c)"
    using assms(2) by (simp add: map_from_distinct comp_def)
  also have "\<dots> = Some old" using assms by (intro map_of_is_SomeI) (force simp: comp_def)+
  finally show ?thesis by (simp add: shown_status_def refresh_answer_def)
qed

text \<open>What was typed as the endpoint of an S3 store is sent for an Iceberg catalog, whose form does not show it.\<close>

lemma hidden_field_sent:
  "(''endpoint'', JStr e) \<in> set (credential_config Iceberg ((\<lambda>_. None)(''endpoint'' \<mapsto> e))) \<and> ''endpoint'' \<notin> fst ` set (form_inputs Iceberg f)"
  by (simp add: field_def)

text \<open>What a button offers is what the panel is for: a connection that captures changes can be stopped, one that does not
  cannot, and while an action on it is under way every button is locked.\<close>

lemma panel_buttons:
  assumes "cdc_panel_of features st c = Some p"
  shows "DisableCdc \<in> (fst \<circ> snd) ` set (cx_buttons p) \<longleftrightarrow> cd_enabled (shown_status st c) = Some True"
    and "cp_cdcBusy st = Some (cn_id c) \<Longrightarrow> list_all (\<lambda>(_, _, locked). locked) (cx_buttons p)"
  using assms
  by (auto simp: cdc_panel_of_def cdc_buttons_def cdc_save_disabled_def Let_def split: if_splits)

text \<open>There is one lock for all connections: the answer about one frees the buttons of another whose action still runs.\<close>

lemma lock_shared:
  assumes "cn_id c = j" and "i \<noteq> j"
  shows "(''Refresh status'', RefreshCdc, False) \<in> set (cdc_buttons (cdc_answer a i out (cdc_start b j (cdc_start a i st))) c)"
  using assms by (simp add: cdc_answer_def cdc_start_def cp_call_def cdc_buttons_def Let_def)

text \<open>A card reads the domain of Zendesk behind whatever names the account, an address too.\<close>

lemma address_in_domain:
  "account_label (c\<lparr>cn_email := Some ''ann@acme.com'', cn_subdomain := Some ''acme''\<rparr>) = ''ann@acme.com.zendesk.com''"
  by (simp add: account_label_def truthy_def)

text \<open>A refusal by the server of a disconnect or of a deletion leaves no trace: no list changes and no error is shown.\<close>

lemma refusals_unseen: "disconnect_answer i (Inl e) st = (None, st)" "removed (Inl e) st = st"
  by (simp_all add: disconnect_answer_def removed_def)

section \<open>Instances\<close>

theorem secrets_apart_witness:
  "credential_config Sftp ((\<lambda>_. Some ''a'')(''privateKey'' \<mapsto> ''key'')) = credential_config Sftp (\<lambda>_. Some ''a'')"
  using secrets_apart[of "''privateKey''" Sftp "\<lambda>_. Some ''a''" "''key''"] by (simp add: SECRET_NAMES_def)

theorem inputs_sent_witness:
  "''token'' \<in> fst ` set (credential_config Iceberg (\<lambda>_. Some ''a'')) \<union> fst ` set (credential_secret Iceberg (\<lambda>_. Some ''a''))"
  using inputs_sent[of "''token''" True Iceberg "\<lambda>_. Some ''a''" "''a''"] by (simp add: field_def)

definition orders_db :: connection where
  "orders_db = \<lparr>cn_id = ''c1'', cn_kind = Some ''credential'', cn_provider = ''postgres'', cn_name = None, cn_email = None,
     cn_subdomain = None, cn_host = Some ''db'', cn_brokers = None, cn_baseUrl = None, cn_cdc = Some (no_status\<lparr>cd_resources := Some [''a.t'', ''a.u'']\<rparr>), cn_connected_at = None\<rparr>"

theorem cdc_roundtrip_witness:
  "cdc_resources ''c1'' (refresh_answer (Inr [orders_db]) cp_initial) = [''a.t'', ''a.u'']"
  using cdc_roundtrip[of orders_db "[orders_db]" cp_initial "[''a.t'', ''a.u'']"]
  by (simp add: orders_db_def cp_initial_def no_status_def js_trim_def trim_start_def trim_end_def is_space_def)

lemma zendesk_slugs: "zendesk_slug '' acme.zendesk.com/ '' = ''acme''" "zendesk_slug ''acme'' = ''acme''"
  by code_simp+

end
