(* ===== verification/ConnectorDialogs.thy ===== *)
theory ConnectorDialogs
  imports ConnectorsPage
begin

text \<open>
  The dialogs of \<open>apps/web/src/pages/ConnectorsPage.tsx\<close> as they are drawn and in time, and the page as a whole: every input
  of the credential form with its hint, the dialogs with answers that come after they were closed, and the composition of the
  sections of the page.
\<close>

section \<open>The inputs of the credential form\<close>

datatype input_kind = TextInput | PasswordInput | UrlInput | TextArea | CheckBox | Choice "(string \<times> string) list"

record input_spec =
  is_key :: string
  is_kind :: input_kind
  is_placeholder :: string
  is_label :: string
  is_required :: bool

definition spec :: "string \<Rightarrow> input_kind \<Rightarrow> string \<Rightarrow> string \<Rightarrow> bool \<Rightarrow> input_spec" where
  "spec k kd ph lb r = \<lparr>is_key = k, is_kind = kd, is_placeholder = ph, is_label = lb, is_required = r\<rparr>"

definition SSL_MODES :: "(string \<times> string) list" where
  "SSL_MODES = [(''disable'', ''SSL disabled''), (''require'', ''SSL required''), (''verify-full'', ''SSL verify certificate'')]"

definition SASL_MECHANISMS :: "(string \<times> string) list" where
  "SASL_MECHANISMS = [(''none'', ''No SASL''), (''plain'', ''SASL/PLAIN''), (''scram-sha-256'', ''SCRAM-SHA-256''),
     (''scram-sha-512'', ''SCRAM-SHA-512'')]"

definition sql_specs :: "string \<Rightarrow> input_spec list" where
  "sql_specs port_hint =
     [spec ''host'' TextInput ''host'' ''Host'' False, spec ''port'' TextInput port_hint ''Port'' False,
      spec ''database'' TextInput ''database'' ''Database'' False, spec ''user'' TextInput ''user'' ''User'' False,
      spec ''password'' PasswordInput ''password'' ''Password'' False, spec ''sslMode'' (Choice SSL_MODES) '''' ''SSL mode'' False]"

fun form_specs :: "credential_provider \<Rightarrow> form \<Rightarrow> input_spec list" where
  "form_specs Postgres f = sql_specs ''port (5432)''"
| "form_specs Mysql f = sql_specs ''port (3306)''"
| "form_specs Mongodb f =
     [spec ''host'' TextInput ''host'' ''Host'' True]
     @ (if f ''srv'' \<noteq> Some ''true'' then [spec ''port'' TextInput ''port (27017)'' ''Port'' False] else [])
     @ [spec ''database'' TextInput ''database'' ''Database'' True, spec ''user'' TextInput ''user (optional)'' ''User'' False,
        spec ''password'' PasswordInput ''password'' ''Password'' False,
        spec ''authSource'' TextInput ''auth source (admin)'' ''Auth source'' False,
        spec ''srv'' CheckBox '''' (''SRV (Atlas / DNS seedlist '' @ u_emdash @ '' no port)'') False]
     @ (if f ''srv'' \<noteq> Some ''true'' then [spec ''tls'' CheckBox '''' ''TLS'' False] else [])"
| "form_specs Clickhouse f =
     [spec ''url'' UrlInput ''https://clickhouse.example.com:8443'' ''ClickHouse URL'' True,
      spec ''database'' TextInput ''database (default)'' ''Database'' False,
      spec ''username'' TextInput ''username (default)'' ''Username'' False,
      spec ''password'' PasswordInput ''password'' ''Password'' False]"
| "form_specs S3 f =
     [spec ''region'' TextInput ''region (us-east-1)'' ''Region'' False, spec ''endpoint'' TextInput ''endpoint (optional)'' ''Endpoint'' False,
      spec ''accessKeyId'' TextInput ''access key ID'' ''Access key ID'' True,
      spec ''secretAccessKey'' PasswordInput ''secret access key'' ''Secret access key'' True,
      spec ''forcePathStyle'' CheckBox '''' ''Path-style URLs (MinIO/S3-compatible)'' False]"
| "form_specs Kafka f =
     [spec ''brokers'' TextInput ''brokers (kafka-1:9092,kafka-2:9092)'' ''Brokers'' True,
      spec ''clientId'' TextInput ''client ID (dataflow)'' ''Client ID'' False,
      spec ''saslMechanism'' (Choice SASL_MECHANISMS) '''' ''SASL mechanism'' False]
     @ (if truthy (f ''saslMechanism'') \<noteq> None \<and> f ''saslMechanism'' \<noteq> Some ''none''
        then [spec ''username'' TextInput ''SASL username'' ''SASL username'' True,
          spec ''password'' PasswordInput ''SASL password'' ''SASL password'' True] else [])
     @ [spec ''tls'' CheckBox '''' ''TLS'' False]"
| "form_specs Sftp f =
     [spec ''host'' TextInput ''host'' ''Host'' True, spec ''port'' TextInput ''port (22)'' ''Port'' False,
      spec ''user'' TextInput ''username'' ''Username'' True,
      spec ''hostKey'' TextArea ''server host public key'' ''Server host public key'' True,
      spec ''password'' PasswordInput ''password'' ''Password'' False,
      spec ''privateKey'' TextArea ''private key (optional)'' ''Private key'' False]"
| "form_specs Snowflake f =
     [spec ''account'' TextInput ''account identifier'' ''Account identifier'' True, spec ''user'' TextInput ''username'' ''Username'' True,
      spec ''password'' PasswordInput ''password'' ''Password'' True, spec ''warehouse'' TextInput ''warehouse'' ''Warehouse'' True,
      spec ''database'' TextInput ''database'' ''Database'' True, spec ''schema'' TextInput ''schema (optional)'' ''Schema'' False]"
| "form_specs Iceberg f =
     [spec ''url'' UrlInput ''REST catalog URL'' ''REST catalog URL'' True,
      spec ''warehouse'' TextInput ''warehouse (optional)'' ''Warehouse'' False,
      spec ''token'' PasswordInput ''catalog bearer token (optional)'' ''Catalog bearer token'' False,
      spec ''accessKeyId'' TextInput ''S3 access key (optional)'' ''S3 access key'' False,
      spec ''secretAccessKey'' PasswordInput ''S3 secret key (optional)'' ''S3 secret key'' False,
      spec ''region'' TextInput ''S3 region (us-east-1)'' ''S3 region'' False]"
| "form_specs Http f =
     [spec ''baseUrl'' TextInput ''base URL'' ''Base URL'' False,
      spec ''apiKey'' PasswordInput ''Bearer API key (optional)'' ''Bearer API key'' False,
      spec ''hmacSecret'' PasswordInput ''Webhook HMAC secret (optional)'' ''Webhook HMAC secret'' False]"

text \<open>What an input shows: its text, the chosen option, or the tick.\<close>

definition input_value :: "form \<Rightarrow> input_spec \<Rightarrow> string" where
  "input_value f s =
     nullish (f (is_key s)) (case is_kind s of Choice os \<Rightarrow> fst (hd os) | _ \<Rightarrow> '''')"

definition input_ticked :: "form \<Rightarrow> input_spec \<Rightarrow> bool" where
  "input_ticked f s \<longleftrightarrow> is_kind s = CheckBox \<and> f (is_key s) = Some ''true''"

definition tick :: "string \<Rightarrow> bool \<Rightarrow> form \<Rightarrow> form" where
  "tick k b f = f(k \<mapsto> (if b then ''true'' else ''false''))"

text \<open>The browser submits the form only when every required input has a text.\<close>

definition browser_accepts :: "credential_provider \<Rightarrow> string \<Rightarrow> form \<Rightarrow> bool" where
  "browser_accepts p name f \<longleftrightarrow> name \<noteq> [] \<and> (\<forall>s\<in>set (form_specs p f). is_required s \<longrightarrow> truthy (f (is_key s)) \<noteq> None)"

lemmas form_eval = spec_def sql_specs_def SSL_MODES_def SASL_MECHANISMS_def

text \<open>The detailed inputs are those of \<open>ConnectorsPage.form_inputs\<close>: the same keys in the same order, masked alike.\<close>

theorem specs_refine_inputs:
  "map (\<lambda>s. (is_key s, is_kind s = PasswordInput)) (form_specs p f) = form_inputs p f"
  by (cases p) (simp_all add: form_eval)

theorem ticked_after: "is_kind s = CheckBox \<Longrightarrow> input_ticked (tick (is_key s) b f) s = b"
  by (auto simp: input_ticked_def tick_def)

lemma field_required: "truthy (f k) \<noteq> None \<Longrightarrow> \<exists>v. v \<noteq> [] \<and> (k, JStr v) \<in> set (field f k)"
  by (cases "f k") (auto simp: truthy_def field_def split: if_splits)

lemma required_fields_part:
  "list_all (\<lambda>s. is_required s \<longrightarrow> set (field f (is_key s))
     \<subseteq> set (if is_key s \<in> secret_keys p then credential_secret p f else credential_config p f)) (form_specs p f)"
  by (cases p) (simp_all add: form_eval secret_keys_eval Let_def le_supI1 le_supI2 subset_insertI2)

text \<open>What the form demands reaches the server: when the browser lets the form go, every input marked as required is in the
  request with a text that is not empty, among the secrets if it is one and in the configuration otherwise.\<close>

theorem required_inputs_sent:
  assumes "browser_accepts p name f" and "s \<in> set (form_specs p f)" and "is_required s"
  shows "\<exists>v. v \<noteq> [] \<and> (is_key s, JStr v)
    \<in> set (if is_key s \<in> secret_keys p then credential_secret p f else credential_config p f)"
proof -
  from assms have "truthy (f (is_key s)) \<noteq> None" by (simp add: browser_accepts_def)
  then obtain v where v: "v \<noteq> []" "(is_key s, JStr v) \<in> set (field f (is_key s))"
    using field_required by blast
  have "set (field f (is_key s)) \<subseteq> set (if is_key s \<in> secret_keys p then credential_secret p f else credential_config p f)"
    using required_fields_part [of f p] assms(2,3) by (auto simp: list_all_iff)
  with v show ?thesis by blast
qed

text \<open>The text in parentheses at the end of a hint.\<close>

definition hint_of :: "string \<Rightarrow> string option" where
  "hint_of ph =
     (if CHR ''('' \<in> set ph then Some (takeWhile (\<lambda>c. c \<noteq> CHR '')'') (tl (dropWhile (\<lambda>c. c \<noteq> CHR ''('') ph))) else None)"

definition sent_text :: "json \<Rightarrow> string option" where
  "sent_text j = (case j of JStr s \<Rightarrow> Some s | JNum n \<Rightarrow> Some (int_str n) | _ \<Rightarrow> None)"

lemma port_texts: "int_str 5432 = ''5432''" "int_str 3306 = ''3306''" "int_str 27017 = ''27017''" "int_str 22 = ''22''"
  by (simp_all add: int_str_def nat_str.simps digit_char_def)

lemma default_sent:
  "truthy (f k) = None \<Longrightarrow> (k, JStr d) \<in> set (field_or f k d)"
  "truthy (f ''port'') = None \<Longrightarrow> (''port'', JNum n) \<in> set (port_field f n)"
  by (auto simp: field_or_def or_else_def port_field_def truthy_def split: option.splits if_splits)

definition promises :: "credential_provider \<Rightarrow> form \<Rightarrow> (string \<times> string option) list" where
  "promises p f =
     map (\<lambda>s. (is_key s, hint_of (is_placeholder s)))
       (filter (\<lambda>s. \<not> is_required s \<and> hint_of (is_placeholder s) \<notin> {None, Some ''optional''}) (form_specs p f))"

lemma promises_eval:
  "promises Postgres f = [(''port'', Some ''5432'')]" "promises Mysql f = [(''port'', Some ''3306'')]"
  "promises Mongodb f = (if f ''srv'' \<noteq> Some ''true'' then [(''port'', Some ''27017'')] else []) @ [(''authSource'', Some ''admin'')]"
  "promises Clickhouse f = [(''database'', Some ''default''), (''username'', Some ''default'')]"
  "promises S3 f = [(''region'', Some ''us-east-1'')]" "promises Kafka f = [(''clientId'', Some ''dataflow'')]"
  "promises Sftp f = [(''port'', Some ''22'')]" "promises Snowflake f = []"
  "promises Iceberg f = [(''region'', Some ''us-east-1'')]" "promises Http f = []"
  by (simp_all add: promises_def form_eval hint_of_def)

lemma port_kept:
  assumes "(''port'', Some d) \<in> set (promises p f)"
  shows "\<exists>n. d = int_str n \<and> set (port_field f n) \<subseteq> set (credential_config p f)"
proof -
  let ?n = "case p of Postgres \<Rightarrow> 5432 | Mysql \<Rightarrow> 3306 | Mongodb \<Rightarrow> 27017 | _ \<Rightarrow> 22"
  have "d = int_str ?n \<and> set (port_field f ?n) \<subseteq> set (credential_config p f)"
    using assms by (cases p) (simp_all add: promises_eval port_texts Let_def le_supI1 le_supI2 subset_insertI2 split: if_splits)
  then show ?thesis by (rule exI)
qed

lemma default_kept:
  "(k, Some d) \<in> set (promises p f) \<Longrightarrow> k \<noteq> ''port'' \<Longrightarrow> p \<noteq> Iceberg \<Longrightarrow> set (field_or f k d) \<subseteq> set (credential_config p f)"
  by (cases p) (auto simp: promises_eval Let_def split: if_split_asm)

text \<open>The default that an input promises in parentheses is the value that is sent when it is left empty; the region of an
  Iceberg catalog is the exception.\<close>

theorem promised_default_sent:
  assumes "(k, Some d) \<in> set (promises p f)" and "truthy (f k) = None" and "p \<noteq> Iceberg"
  shows "\<exists>j. (k, j) \<in> set (credential_config p f) \<and> sent_text j = Some d"
proof (cases "k = ''port''")
  case True
  with assms(1) obtain n where "d = int_str n" "set (port_field f n) \<subseteq> set (credential_config p f)"
    using port_kept by meson
  with True assms(2) default_sent(2) show ?thesis by (intro exI[of _ "JNum n"]) (auto simp: sent_text_def)
next
  case False
  then show ?thesis using default_kept [OF assms(1)] default_sent(1) [of f k d] assms(2,3)
    by (intro exI[of _ "JStr d"]) (auto simp: sent_text_def)
qed

lemma iceberg_region_missing:
  "(''region'', Some ''us-east-1'') \<in> set (promises Iceberg (\<lambda>_. None))" "credential_config Iceberg (\<lambda>_. None) = flag (\<lambda>_. None) ''forcePathStyle''"
  by (simp_all add: promises_eval field_def)

section \<open>The credential dialog in time\<close>

text \<open>
  The dialog is mounted when a card is clicked and unmounted when it is closed; \<open>dl_opens\<close> numbers the mounts. The answer to
  a save finds the dialog that sent it by its number, but the two callbacks of a success, \<open>onSaved\<close> and \<open>onClose\<close>, are those of
  the page.
\<close>

record dialogs =
  dl_page :: connectors_page
  dl_form :: "(nat \<times> credential_dialog) option"
  dl_opens :: nat
  dl_pending :: "nat list"

definition dl_initial :: dialogs where
  "dl_initial = \<lparr>dl_page = cp_opened, dl_form = None, dl_opens = 0, dl_pending = []\<rparr>"

definition dl_click :: "card_click \<Rightarrow> dialogs \<Rightarrow> dialogs" where
  "dl_click click s =
     (case click of
        OpenForm p \<Rightarrow> s\<lparr>dl_page := open_card click (dl_page s), dl_form := Some (dl_opens s, cr_opened p), dl_opens := Suc (dl_opens s)\<rparr>
      | OpenPlans \<Rightarrow> s)"

definition dl_close :: "dialogs \<Rightarrow> dialogs" where
  "dl_close s = s\<lparr>dl_page := (dl_page s)\<lparr>cp_credential := None\<rparr>, dl_form := None\<rparr>"

definition dl_edit :: "(credential_dialog \<Rightarrow> credential_dialog) \<Rightarrow> dialogs \<Rightarrow> dialogs" where
  "dl_edit g s = s\<lparr>dl_form := map_option (\<lambda>(n, d). (n, g d)) (dl_form s)\<rparr>"

definition setProvider :: "credential_provider \<Rightarrow> credential_dialog \<Rightarrow> credential_dialog" where
  "setProvider p d = d\<lparr>cr_provider := p\<rparr>"

definition setName :: "string \<Rightarrow> credential_dialog \<Rightarrow> credential_dialog" where
  "setName v d = d\<lparr>cr_name := v\<rparr>"

text \<open>A locked button, or an input the browser refuses, keeps the form.\<close>

definition dl_submit :: "dialogs \<Rightarrow> dialogs" where
  "dl_submit s =
     (case dl_form s of
        Some (n, d) \<Rightarrow>
          if cr_disabled d \<or> \<not> browser_accepts (cr_provider d) (cr_name d) (cr_fields d) then s
          else s\<lparr>dl_form := Some (n, cr_submit d), dl_pending := n # dl_pending s\<rparr>
      | None \<Rightarrow> s)"

definition dl_saved :: "nat \<Rightarrow> dialogs \<Rightarrow> dialogs" where
  "dl_saved n s = s\<lparr>dl_page := credential_saved (dl_page s), dl_form := None, dl_pending := remove1 n (dl_pending s)\<rparr>"

definition dl_failed :: "nat \<Rightarrow> string option \<Rightarrow> dialogs \<Rightarrow> dialogs" where
  "dl_failed n e s =
     s\<lparr>dl_form := map_option (\<lambda>(m, d). (m, if m = n then cr_failed e d else d)) (dl_form s), dl_pending := remove1 n (dl_pending s)\<rparr>"

text \<open>What is drawn of the dialog: options of the type with the chosen one, inputs with their values, error, button and lock.\<close>

record dialog_parts =
  dt_types :: "(string \<times> bool) list"
  dt_inputs :: "(input_spec \<times> string \<times> bool) list"
  dt_error :: "string option"
  dt_save :: "string \<times> bool"

definition CredentialModal :: "paid_features \<Rightarrow> credential_dialog \<Rightarrow> dialog_parts" where
  "CredentialModal features d =
     \<lparr>dt_types = map (\<lambda>p. (provider_key p, p = cr_provider d)) (type_options features),
      dt_inputs = map (\<lambda>s. (s, input_value (cr_fields d) s, input_ticked (cr_fields d) s)) (form_specs (cr_provider d) (cr_fields d)),
      dt_error = truthy (cr_err d),
      dt_save = (if cr_busy d then ''Saving'' @ u_ellipsis else ''Save'', cr_disabled d)\<rparr>"

text \<open>The backdrop of an open dialog covers the cards.\<close>

inductive dialog_reach :: "paid_features \<Rightarrow> dialogs \<Rightarrow> bool" for features where
  starts: "dialog_reach features dl_initial"
| clicks: "dialog_reach features s \<Longrightarrow> dl_form s = None \<Longrightarrow> c \<in> set CREDENTIAL_CATALOG
    \<Longrightarrow> dialog_reach features (dl_click (click_card features c) s)"
| closes: "dialog_reach features s \<Longrightarrow> dialog_reach features (dl_close s)"
| types: "dialog_reach features s \<Longrightarrow> p \<in> set (type_options features) \<Longrightarrow> dialog_reach features (dl_edit (setProvider p) s)"
| names: "dialog_reach features s \<Longrightarrow> dialog_reach features (dl_edit (setName v) s)"
| fills: "dialog_reach features s \<Longrightarrow> dialog_reach features (dl_edit (cr_set k v) s)"
| submits: "dialog_reach features s \<Longrightarrow> dialog_reach features (dl_submit s)"
| saves: "dialog_reach features s \<Longrightarrow> n \<in> set (dl_pending s) \<Longrightarrow> dialog_reach features (dl_saved n s)"
| fails: "dialog_reach features s \<Longrightarrow> n \<in> set (dl_pending s) \<Longrightarrow> dialog_reach features (dl_failed n e s)"

definition dialog_ok :: "paid_features \<Rightarrow> dialogs \<Rightarrow> bool" where
  "dialog_ok features s \<longleftrightarrow>
     distinct (dl_pending s) \<and> (\<forall>n\<in>set (dl_pending s). n < dl_opens s)
     \<and> (cp_credential (dl_page s) = None \<longleftrightarrow> dl_form s = None)
     \<and> (\<forall>n d. dl_form s = Some (n, d) \<longrightarrow>
          n < dl_opens s \<and> (cr_busy d \<longleftrightarrow> n \<in> set (dl_pending s)) \<and> cr_provider d \<in> set (type_options features))"

lemma card_listed:
  "c \<in> set CREDENTIAL_CATALOG \<Longrightarrow> click_card features c = OpenForm p \<Longrightarrow> p \<in> set (type_options features)"
  by (auto simp: CREDENTIAL_CATALOG_def click_card_def type_options_def split: if_splits)

lemma edit_ok:
  assumes "dialog_ok features s" and "\<And>d. cr_busy (g d) = cr_busy d"
    and "\<And>d. cr_provider d \<in> set (type_options features) \<Longrightarrow> cr_provider (g d) \<in> set (type_options features)"
  shows "dialog_ok features (dl_edit g s)"
  using assms by (cases "dl_form s") (auto simp: dialog_ok_def dl_edit_def)

text \<open>However a user opens, fills, sends and closes the credential dialog, and whenever the answers come: the dialog is on the
  screen exactly when the page holds a provider for it, its button reads Saving exactly while its own request is under way, no
  dialog has two requests under way, and the type it sends is always one of the options that the plan of the tenant allows.\<close>

theorem credential_dialog_sound:
  assumes "dialog_reach features s"
  shows "distinct (dl_pending s) \<and> (cp_credential (dl_page s) = None \<longleftrightarrow> dl_form s = None)
    \<and> (\<forall>n d. dl_form s = Some (n, d) \<longrightarrow>
        (fst (dt_save (CredentialModal features d)) = ''Saving'' @ u_ellipsis \<longleftrightarrow> n \<in> set (dl_pending s))
        \<and> (provider_key (cr_provider d), True) \<in> set (dt_types (CredentialModal features d)))"
proof -
  from assms have "dialog_ok features s"
  proof (induction rule: dialog_reach.induct)
    case starts
    then show ?case
      by (simp add: dialog_ok_def dl_initial_def cp_opened_def refresh_start_def cp_call_def cp_initial_def)
  next
    case (clicks s c)
    then show ?case using card_listed [OF clicks.hyps(3)]
      by (cases "click_card features c") (auto simp: dialog_ok_def dl_click_def open_card_def cr_opened_def less_Suc_eq)
  next
    case (submits s)
    then show ?case by (cases "dl_form s") (auto simp: dialog_ok_def dl_submit_def cr_submit_def cr_disabled_def split: if_splits)
  next
    case (saves s n)
    then show ?case
      by (auto simp: dialog_ok_def dl_saved_def credential_saved_def refresh_start_def cp_call_def dest: notin_set_remove1)
  next
    case (fails s n e)
    then show ?case by (cases "dl_form s") (auto simp: dialog_ok_def dl_failed_def cr_failed_def split: if_splits)
  next
    case (closes s)
    then show ?case by (simp add: dialog_ok_def dl_close_def)
  qed (rule edit_ok; simp add: setProvider_def setName_def cr_set_def)+
  then show ?thesis by (auto simp: dialog_ok_def CredentialModal_def)
qed

text \<open>A save that is answered after its dialog was closed closes the dialog that is open by then, with what was typed in it.\<close>

definition postgres_form :: dialogs where
  "postgres_form = dl_edit (setName ''orders'') (dl_click (OpenForm Postgres) dl_initial)"

definition second_form :: dialogs where
  "second_form = dl_edit (setName ''billing'') (dl_click (OpenForm Mysql) (dl_close (dl_submit postgres_form)))"

lemma late_save_closes_other:
  "dialog_reach features second_form" "dl_pending second_form = [0]"
  "map_option (\<lambda>(n, d). (n, cr_name d)) (dl_form second_form) = Some (1, ''billing'')"
  "dl_form (dl_saved 0 second_form) = None"
proof -
  have c: "click_card features (hd CREDENTIAL_CATALOG) = OpenForm Postgres" "click_card features (CREDENTIAL_CATALOG ! 1) = OpenForm Mysql"
    "hd CREDENTIAL_CATALOG \<in> set CREDENTIAL_CATALOG" "CREDENTIAL_CATALOG ! 1 \<in> set CREDENTIAL_CATALOG"
    by (simp_all add: click_card_def CREDENTIAL_CATALOG_def)
  have "dialog_reach features (dl_close (dl_submit postgres_form))"
    using dialog_reach.closes [OF dialog_reach.submits [OF dialog_reach.names [OF dialog_reach.clicks
      [OF dialog_reach.starts _ c(3), of features, unfolded c]]]]
    by (simp add: postgres_form_def dl_initial_def)
  from dialog_reach.names [OF dialog_reach.clicks [OF this _ c(4), unfolded c]]
  show "dialog_reach features second_form" by (simp add: second_form_def dl_close_def)
qed (simp_all add: second_form_def postgres_form_def dl_edit_def dl_click_def dl_close_def dl_submit_def dl_initial_def cr_opened_def
  setName_def cr_disabled_def browser_accepts_def form_eval js_trim_def trim_start_def trim_end_def is_space_def dl_saved_def)

section \<open>The Zendesk dialog as it is drawn\<close>

definition zd_opened :: zendesk_dialog where
  "zd_opened = \<lparr>zd_subdomain = '''', zd_busy = False, zd_err = None, zd_sent = []\<rparr>"

definition zd_edit :: "string \<Rightarrow> zendesk_dialog \<Rightarrow> zendesk_dialog" where
  "zd_edit v st = st\<lparr>zd_subdomain := v\<rparr>"

text \<open>Value, text after the input, error, button and its lock.\<close>

definition ZendeskModal :: "zendesk_dialog \<Rightarrow> string \<times> string \<times> string option \<times> string \<times> bool" where
  "ZendeskModal st =
     (zd_subdomain st, ''.zendesk.com'', truthy (zd_err st),
      if zd_busy st then ''Redirecting'' @ u_ellipsis else ''Connect '' @ u_arrow, zd_disabled st)"

text \<open>A domain without a name unlocks the button, and the click does nothing.\<close>

lemma bare_domain_ignored:
  "\<not> zd_disabled (zd_edit ''.zendesk.com'' zd_opened)" "zd_submit (zd_edit ''.zendesk.com'' st) = zd_edit ''.zendesk.com'' st"
  by (simp_all add: zd_disabled_def zd_edit_def zd_opened_def zd_submit_def zendesk_slug_def js_trim_def trim_start_def trim_end_def
    is_space_def ends_with_def starts_with_def Let_def)

section \<open>The page\<close>

text \<open>The class of the gradient behind the icon of a provider.\<close>

fun ProviderIcon :: "oauth_provider \<Rightarrow> string" where
  "ProviderIcon Google = ''from-emerald-500/80 to-green-600/80''"
| "ProviderIcon Microsoft = ''from-blue-500/80 to-cyan-500/80''"
| "ProviderIcon Zendesk = ''from-slate-700 to-emerald-700''"

record connectors_parts =
  ct_error :: "string option"
  ct_accounts :: "string + (string \<times> account_card) list"
  ct_catalog :: "(string list \<times> card_click) list"
  ct_configured :: "(nat \<times> ((string \<times> string option) \<times> string \<times> cdc_panel option) list) option"
  ct_zendesk :: "(string \<times> string \<times> string option \<times> string \<times> bool) option"
  ct_credential :: "dialog_parts option"

definition connectors_screen ::
  "paid_features \<Rightarrow> int \<Rightarrow> (oauth_provider \<Rightarrow> string option) \<Rightarrow> zendesk_dialog \<Rightarrow> dialogs \<Rightarrow> connectors_parts" where
  "connectors_screen features now disconnecting zd s =
     (let st = dl_page s in
      \<lparr>ct_error = truthy (cp_error st),
       ct_accounts = (case accounts_section now disconnecting st of
          Inl e \<Rightarrow> Inl e
        | Inr cards \<Rightarrow> Inr (zip (map (ProviderIcon \<circ> fst) PROVIDERS) cards)),
       ct_catalog = map (\<lambda>c. (catalog_card features st c, click_card features c)) CREDENTIAL_CATALOG,
       ct_configured = configured_section features st,
       ct_zendesk = (if cp_zendesk st then Some (ZendeskModal zd) else None),
       ct_credential = map_option (CredentialModal features \<circ> snd) (dl_form s)\<rparr>)"

text \<open>A card calls its click by its name: Configure opens the form, View plans the plans.\<close>

lemma card_names_click:
  "(lines, click) \<in> set (ct_catalog (connectors_screen features now disconnecting zd s)) \<Longrightarrow>
     last lines = (case click of OpenForm _ \<Rightarrow> ''Configure '' | OpenPlans \<Rightarrow> ''View plans '') @ u_arrow"
  by (auto simp: connectors_screen_def Let_def catalog_card_def click_card_def split: option.splits)

section \<open>Inputs at which the properties apply\<close>

lemma required_inputs_sent_witness:
  "\<exists>v. v \<noteq> [] \<and> (''secretAccessKey'', JStr v) \<in> set (credential_secret S3 (\<lambda>_. Some ''k''))"
  using required_inputs_sent [of S3 "''lake''" "\<lambda>_. Some ''k''" "spec ''secretAccessKey'' PasswordInput ''secret access key'' ''Secret access key'' True"]
  by (simp add: browser_accepts_def truthy_def form_eval secret_keys_eval)

lemma credential_dialog_sound_witness: "distinct (dl_pending second_form)"
  using credential_dialog_sound [OF late_save_closes_other(1)] by simp

end
