(* ===== verification/RuntimeSteps.thy ===== *)
theory RuntimeSteps
  imports Complex_Main LineageFlow PipelineTypes RunsPage
begin

text \<open>
  The drawer of one execution, \<open>ExecutionDrawer\<close> in \<open>apps/web/src/pages/RuntimeLineage.tsx\<close>: the order
  of the steps along the graph (\<open>orderSteps\<close>), the waterfall and the texts.

  The pipeline's definition is the one of theory PipelineTypes. A JavaScript map is an association list, the queue its unread rest. A
  time that does not parse is \<open>NaN\<close>, here \<open>None\<close>; the offsets and widths of the bars are exact quotients.
\<close>

section \<open>The order of the steps\<close>

definition add_edge :: "pipeline_edge \<Rightarrow> (string \<times> int) list \<times> (string \<times> string list) list
    \<Rightarrow> (string \<times> int) list \<times> (string \<times> string list) list" where
  "add_edge e st =
     (case st of (indegree, outgoing) \<Rightarrow>
        if map_of indegree (e_target e) = None \<or> map_of indegree (e_source e) = None then st
        else (AList.update (e_target e) (nullish (map_of indegree (e_target e)) 0 + 1) indegree,
              multi_add (e_source e) (e_target e) outgoing))"

text \<open>The body of the inner loop.\<close>

definition release :: "string \<Rightarrow> (string \<times> int) list \<times> string list \<Rightarrow> (string \<times> int) list \<times> string list" where
  "release next st =
     (case st of (indegree, queue) \<Rightarrow>
        let indegree = AList.update next (nullish (map_of indegree next) 1 - 1) indegree in
        (indegree, if nullish (map_of indegree next) 0 \<le> 0 then queue @ [next] else queue))"

lemma release_queue: "set (snd (fold release ts st)) \<subseteq> set (snd st) \<union> set ts"
proof (induction ts arbitrary: st)
  case (Cons t ts)
  have "set (snd (release t st)) \<subseteq> insert t (set (snd st))" by (auto simp: release_def Let_def split: prod.splits)
  then show ?case using Cons.IH[of "release t st"] by auto
qed simp

text \<open>\<open>byId.get\<close> may be \<open>undefined\<close>, which \<open>push\<close> keeps.\<close>

function order_loop :: "(string \<times> string list) list \<Rightarrow> (string \<times> pipeline_node) list \<Rightarrow> string list \<Rightarrow> (string \<times> int) list
    \<Rightarrow> pipeline_node option list \<Rightarrow> string list \<Rightarrow> pipeline_node option list \<times> string list" where
  "order_loop outgoing byId [] indegree ordered seen = (ordered, seen)"
| "order_loop outgoing byId (i # queue) indegree ordered seen =
     (if i \<in> set seen then order_loop outgoing byId queue indegree ordered seen
      else
        let st = fold release (multi_get outgoing i) (indegree, queue) in
        order_loop outgoing byId (snd st) (fst st) (ordered @ [map_of byId i]) (seen @ [i]))"
  by pat_completeness auto

termination
proof (relation "measures [\<lambda>(outgoing, _, queue, _, _, seen). card ((set queue \<union> \<Union> (set ` snd ` set outgoing)) - set seen),
    \<lambda>(_, _, queue, _). length queue]", goal_cases)
  case (2 outgoing byId i queue indegree ordered seen)
  have "card ((set queue \<union> \<Union> (set ` snd ` set outgoing)) - set seen)
      \<le> card ((set (i # queue) \<union> \<Union> (set ` snd ` set outgoing)) - set seen)"
    by (rule card_mono) auto
  then show ?case by auto
next
  case (3 outgoing byId i queue indegree ordered seen st)
  have "set (snd st) \<subseteq> set queue \<union> \<Union> (set ` snd ` set outgoing)"
    using release_queue[of "multi_get outgoing i" "(indegree, queue)"] multi_get_values[of outgoing i] 3(2) by auto
  then have "(set (snd st) \<union> \<Union> (set ` snd ` set outgoing)) - set (seen @ [i])
      \<subset> (set (i # queue) \<union> \<Union> (set ` snd ` set outgoing)) - set seen"
    using 3(1) by auto
  then have "card ((set (snd st) \<union> \<Union> (set ` snd ` set outgoing)) - set (seen @ [i]))
      < card ((set (i # queue) \<union> \<Union> (set ` snd ` set outgoing)) - set seen)"
    by (intro psubset_card_mono) auto
  then show ?case by simp
qed simp

definition orderSteps :: "pipeline_node list \<Rightarrow> pipeline_edge list \<Rightarrow> pipeline_node option list" where
  "orderSteps nodes edges =
     (let (indegree, outgoing) = fold add_edge edges (map_from (map (\<lambda>n. (n_id n, 0)) nodes), []);
          byId = map_from (map (\<lambda>n. (n_id n, n)) nodes);
          queue = map n_id (filter (\<lambda>n. nullish (map_of indegree (n_id n)) 0 = 0) nodes);
          (ordered, seen) = order_loop outgoing byId queue indegree [] []
      in ordered @ map Some (filter (\<lambda>n. n_id n \<notin> set seen) nodes))"

section \<open>The order follows the graph\<close>

text \<open>The edges between two nodes of the definition, and how many of those into a node have a source outside \<open>P\<close>.\<close>

definition known_edges :: "pipeline_node list \<Rightarrow> pipeline_edge list \<Rightarrow> pipeline_edge list" where
  "known_edges nodes edges = filter (\<lambda>e. e_source e \<in> n_id ` set nodes \<and> e_target e \<in> n_id ` set nodes) edges"

definition unmet :: "pipeline_edge list \<Rightarrow> string set \<Rightarrow> string \<Rightarrow> nat" where
  "unmet es P n = length (filter (\<lambda>e. e_target e = n \<and> e_source e \<notin> P) es)"

definition targets :: "pipeline_edge list \<Rightarrow> string \<Rightarrow> string list" where
  "targets es s = map e_target (filter (\<lambda>e. e_source e = s) es)"

lemma unmet_step: "s \<notin> P \<Longrightarrow> unmet es (insert s P) n + count_list (targets es s) n = unmet es P n"
  by (induction es) (auto simp: unmet_def targets_def)

lemma unmet_zero: "unmet es P n = 0 \<longleftrightarrow> (\<forall>e\<in>set es. e_target e = n \<longrightarrow> e_source e \<in> P)"
  by (auto simp: unmet_def filter_empty_conv)

lemma add_edges:
  assumes "\<forall>k. map_of ind k = (if k \<in> A then Some (int (unmet es {} k)) else None)" and "\<forall>s. multi_get out s = targets es s"
    and "fold add_edge edges (ind, out) = (ind', out')"
    and "es' = es @ filter (\<lambda>e. e_source e \<in> A \<and> e_target e \<in> A) edges"
  shows "(\<forall>k. map_of ind' k = (if k \<in> A then Some (int (unmet es' {} k)) else None)) \<and> (\<forall>s. multi_get out' s = targets es' s)"
  using assms
proof (induction edges arbitrary: ind out es)
  case (Cons e edges)
  show ?case
  proof (cases "e_source e \<in> A \<and> e_target e \<in> A")
    case True
    have "add_edge e (ind, out)
        = (AList.update (e_target e) (int (unmet es {} (e_target e)) + 1) ind, multi_add (e_source e) (e_target e) out)"
      using True Cons.prems(1) by (simp add: add_edge_def)
    then have "fold add_edge edges (AList.update (e_target e) (int (unmet es {} (e_target e)) + 1) ind,
        multi_add (e_source e) (e_target e) out) = (ind', out')" using Cons.prems(3) by simp
    from Cons.IH[OF _ _ this, of "es @ [e]"] show ?thesis
      using True Cons.prems by (simp add: multi_get_add targets_def unmet_def update_conv' if_distrib)
  next
    case False
    then have "add_edge e (ind, out) = (ind, out)" using Cons.prems(1) by (auto simp: add_edge_def)
    then show ?thesis using Cons False by auto
  qed
qed simp

lemma release_all:
  assumes "\<forall>t\<in>set ts. map_of ind t = Some (f t)" and "fold release ts (ind, q) = (ind', q')"
  shows "(\<forall>n. map_of ind' n = map_option (\<lambda>v. v - int (count_list ts n)) (map_of ind n))
    \<and> set q' = set q \<union> {n \<in> set ts. f n \<le> int (count_list ts n)}"
  using assms
proof (induction ts arbitrary: ind q f)
  case (Cons t ts)
  let ?ind = "AList.update t (f t - 1) ind" and ?q = "if f t - 1 \<le> 0 then q @ [t] else q"
  have "release t (ind, q) = (?ind, ?q)" using Cons.prems(1) by (simp add: release_def update_conv')
  then have *: "fold release ts (?ind, ?q) = (ind', q')" using Cons.prems(2) by simp
  have "(\<forall>n. map_of ind' n = map_option (\<lambda>v. v - int (count_list ts n)) (map_of ?ind n))
    \<and> set q' = set ?q \<union> {n \<in> set ts. (f(t := f t - 1)) n \<le> int (count_list ts n)}"
    by (rule Cons.IH[OF _ *]) (use Cons.prems(1) in \<open>auto simp: update_conv'\<close>)
  moreover have "count_list ts t = 0" if "t \<notin> set ts" using that by simp
  ultimately show ?case using Cons.prems(1) by (auto simp: update_conv' split: if_splits)
qed (simp add: option.map_ident)

definition kahn_inv :: "string set \<Rightarrow> pipeline_edge list \<Rightarrow> string list \<Rightarrow> (string \<times> int) list \<Rightarrow> string list \<Rightarrow> bool" where
  "kahn_inv A es q ind seen \<longleftrightarrow>
     distinct seen \<and> set seen \<subseteq> A \<and> set q \<subseteq> A
     \<and> (\<forall>n\<in>A. map_of ind n = Some (int (unmet es (set seen) n)))
     \<and> (\<forall>n\<in>A. unmet es (set seen) n = 0 \<longleftrightarrow> n \<in> set seen \<union> set q)
     \<and> (\<forall>us n vs. seen = us @ n # vs \<longrightarrow> unmet es (set us) n = 0)"

lemma kahn_skip: "kahn_inv A es (i # q) ind seen \<Longrightarrow> i \<in> set seen \<Longrightarrow> kahn_inv A es q ind seen"
  unfolding kahn_inv_def by auto

lemma kahn_take:
  assumes inv: "kahn_inv A es (i # q) ind seen" and new: "i \<notin> set seen" and es: "e_target ` set es \<subseteq> A"
    and st: "fold release (targets es i) (ind, q) = (ind', q')"
  shows "kahn_inv A es q' ind' (seen @ [i])"
proof -
  let ?u = "unmet es (set seen)" and ?u' = "unmet es (set (seen @ [i]))" and ?ts = "targets es i"
  have iA: "i \<in> A" and ui: "?u i = 0" using inv unfolding kahn_inv_def by auto
  have step: "?u' n + count_list ?ts n = ?u n" for n using unmet_step[OF new] by simp
  have ts: "set ?ts \<subseteq> A" using es by (auto simp: targets_def)
  have ind: "\<forall>n\<in>A. map_of ind n = Some (int (?u n))" using inv by (simp add: kahn_inv_def)
  have rel: "(\<forall>n. map_of ind' n = map_option (\<lambda>v. v - int (count_list ?ts n)) (map_of ind n))
      \<and> set q' = set q \<union> {n \<in> set ?ts. int (?u n) \<le> int (count_list ?ts n)}"
    by (rule release_all[OF _ st]) (use ind ts in auto)
  have "map_of ind' n = Some (int (?u' n))" if "n \<in> A" for n
    using rel ind that step[of n] by simp
  moreover have "?u' n = 0 \<longleftrightarrow> n \<in> set (seen @ [i]) \<union> set q'" if n: "n \<in> A" for n
  proof -
    have "?u n = 0 \<longleftrightarrow> n \<in> set seen \<union> set (i # q)" using inv n unfolding kahn_inv_def by blast
    moreover have "n \<notin> set ?ts \<Longrightarrow> count_list ?ts n = 0" by simp
    ultimately show ?thesis using rel step[of n] by auto
  qed
  moreover have "unmet es (set us) n = 0" if "seen @ [i] = us @ n # vs" for us n vs
    using that inv ui by (cases vs rule: rev_cases) (auto simp: kahn_inv_def)
  moreover have "set q' \<subseteq> A" using rel inv ts unfolding kahn_inv_def by auto
  ultimately show ?thesis using inv new iA unfolding kahn_inv_def by auto
qed

lemma order_loop_inv:
  assumes "kahn_inv A es q ind seen" and "e_target ` set es \<subseteq> A" and "\<forall>s. multi_get out s = targets es s"
    and "ordered = map (map_of byId) seen"
  shows "\<exists>ind' seen'. order_loop out byId q ind ordered seen = (map (map_of byId) seen', seen') \<and> kahn_inv A es [] ind' seen'"
  using assms
proof (induction out byId q ind ordered seen rule: order_loop.induct)
  case (2 out byId i q ind ordered seen)
  show ?case
  proof (cases "i \<in> set seen")
    case True
    then show ?thesis using 2(1)[OF True kahn_skip[OF 2(3) True] 2(4-6)] by simp
  next
    case False
    obtain ind' q' where st: "fold release (targets es i) (ind, q) = (ind', q')" by fastforce
    have out: "fold release (multi_get out i) (ind, q) = (ind', q')" using st 2(5) by simp
    have "kahn_inv A es q' ind' (seen @ [i])" by (rule kahn_take[OF 2(3) False 2(4) st])
    from 2(2)[OF False refl, unfolded out fst_conv snd_conv, OF this 2(4-5)] show ?thesis
      using False out 2(6) by simp
  qed
qed auto

text \<open>A node on a cycle, or behind one.\<close>

definition flow_edges :: "pipeline_edge list \<Rightarrow> (string \<times> string) set" where
  "flow_edges es = (\<lambda>e. (e_source e, e_target e)) ` set es"

definition behind_cycle :: "pipeline_edge list \<Rightarrow> string \<Rightarrow> bool" where
  "behind_cycle es n \<longleftrightarrow> (\<exists>c. (c, c) \<in> (flow_edges es)\<^sup>+ \<and> (c, n) \<in> (flow_edges es)\<^sup>*)"

lemma reached_off_cycles:
  assumes zero: "\<forall>n\<in>A. unmet es S n = 0 \<longrightarrow> n \<in> S" and A: "n \<in> A" and src: "e_source ` set es \<subseteq> A"
    and off: "\<not> behind_cycle es n"
  shows "n \<in> S"
proof -
  let ?R = "flow_edges es \<inter> {(a, b). \<not> behind_cycle es b}"
  have "acyclic ?R"
  proof (rule acyclicI, intro allI notI)
    fix x assume c: "(x, x) \<in> ?R\<^sup>+"
    then have "(x, x) \<in> (flow_edges es)\<^sup>+" by (rule trancl_mono) auto
    then have "behind_cycle es x" by (auto simp: behind_cycle_def)
    moreover have "\<not> behind_cycle es x" using c by (cases rule: tranclE) auto
    ultimately show False by simp
  qed
  then have "wf ?R" by (intro finite_acyclic_wf) (auto simp: flow_edges_def)
  then show ?thesis using A off
  proof (induction n rule: wf_induct_rule)
    case (less n)
    have "e_source e \<in> S" if e: "e \<in> set es" "e_target e = n" for e
    proof -
      have edge: "(e_source e, n) \<in> flow_edges es" using e by (auto simp: flow_edges_def)
      moreover have "\<not> behind_cycle es (e_source e)"
        using less.prems(2) edge unfolding behind_cycle_def by (meson rtrancl.rtrancl_into_rtrancl)
      moreover have "e_source e \<in> A" using src e by auto
      ultimately show ?thesis using less.IH[of "e_source e"] less.prems(2) by blast
    qed
    then show ?case using zero less.prems(1) by (auto simp: unmet_zero)
  qed
qed


definition comes_before :: "'a list \<Rightarrow> 'a \<Rightarrow> 'a \<Rightarrow> bool" where
  "comes_before xs a b \<longleftrightarrow> a \<in> set (takeWhile (\<lambda>x. x \<noteq> b) xs)"

lemma map_from_const: "map_of (map_from (map (\<lambda>x. (f x, c)) xs)) k = (if k \<in> f ` set xs then Some c else None)"
proof -
  have "map_of (map (\<lambda>x. (f x, c)) ys) k = (if k \<in> f ` set ys then Some c else None)" for ys
    by (induction ys) auto
  from this[of "rev xs"] show ?thesis by (simp add: map_of_map_from rev_map)
qed

lemma orderSteps_seen:
  fixes nodes edges
  defines "es \<equiv> known_edges nodes edges" and "A \<equiv> n_id ` set nodes"
  shows "\<exists>seen ind. orderSteps nodes edges = map (map_of (map_from (map (\<lambda>n. (n_id n, n)) nodes))) seen
      @ map Some (filter (\<lambda>n. n_id n \<notin> set seen) nodes)
    \<and> kahn_inv A es [] ind seen"
proof -
  let ?zero = "map_from (map (\<lambda>n. (n_id n, 0 :: int)) nodes)" and ?byId = "map_from (map (\<lambda>n. (n_id n, n)) nodes)"
  obtain ind out where f: "fold add_edge edges (?zero, []) = (ind, out)" by fastforce
  have init: "(\<forall>k. map_of ind k = (if k \<in> A then Some (int (unmet es {} k)) else None)) \<and> (\<forall>s. multi_get out s = targets es s)"
    by (rule add_edges[OF _ _ f, where es = "[]"]) (auto simp: map_from_const A_def es_def known_edges_def unmet_def targets_def multi_get_def)
  let ?q = "map n_id (filter (\<lambda>n. nullish (map_of ind (n_id n)) 0 = 0) nodes)"
  have "kahn_inv A es ?q ind []"
    using init by (auto simp: kahn_inv_def A_def)
  moreover have "e_target ` set es \<subseteq> A" by (auto simp: es_def A_def known_edges_def)
  ultimately obtain ind' seen where "order_loop out ?byId ?q ind [] [] = (map (map_of ?byId) seen, seen)" "kahn_inv A es [] ind' seen"
    using order_loop_inv[of A es ?q ind "[]" out "[]" ?byId] init by auto
  then show ?thesis using f by (auto simp: orderSteps_def)
qed

lemma listed_nodes:
  assumes d: "distinct (map n_id nodes)" and "distinct seen" and sub: "set seen \<subseteq> n_id ` set nodes"
  obtains ns where "map (map_of (map_from (map (\<lambda>n. (n_id n, n)) nodes))) seen @ map Some (filter (\<lambda>n. n_id n \<notin> set seen) nodes) = map Some ns"
    and "map n_id ns = seen @ map n_id (filter (\<lambda>n. n_id n \<notin> set seen) nodes)" and "mset ns = mset nodes"
proof -
  define get where "get = map_of (map_from (map (\<lambda>n. (n_id n, n)) nodes))"
  have node: "get (n_id n) = Some n" if "n \<in> set nodes" for n
    using d that unfolding get_def by (subst map_from_distinct) (auto simp: comp_def intro!: map_of_is_SomeI)
  have get: "\<exists>n\<in>set nodes. get i = Some n \<and> n_id n = i" if "i \<in> set seen" for i
    using subsetD[OF sub that] node by auto
  let ?ns = "map (the \<circ> get) seen @ filter (\<lambda>n. n_id n \<notin> set seen) nodes"
  have ids: "map n_id ?ns = seen @ map n_id (filter (\<lambda>n. n_id n \<notin> set seen) nodes)"
    by (auto intro!: map_idI dest!: get)
  have "distinct (map n_id ?ns)" unfolding ids using assms by (auto simp: distinct_map_filter)
  then have "distinct ?ns" by (simp only: distinct_map)
  moreover have "n \<in> set nodes" if "n \<in> set ?ns" for n using that by (auto dest!: get)
  moreover have "n \<in> set ?ns" if n: "n \<in> set nodes" for n
    using node[OF n] n by (cases "n_id n \<in> set seen") force+
  ultimately have "mset ?ns = mset nodes"
    using d by (subst set_eq_iff_mset_eq_distinct[symmetric]) (simp_all only: distinct_map, blast)
  moreover have "map get seen @ map Some (filter (\<lambda>n. n_id n \<notin> set seen) nodes) = map Some ?ns" by (auto dest!: get)
  ultimately show ?thesis using that ids unfolding get_def by blast
qed

text \<open>C14: the steps of the drawer follow the graph of the pipeline: whatever the definition, the ordering ends; when the ids
  are distinct every node is listed exactly once, and an edge between two nodes of the definition
  leads from an earlier step to a later one, unless its target lies on a cycle or behind one.\<close>

theorem steps_follow_graph:
  assumes "distinct (map n_id nodes)"
  shows "\<exists>ns. orderSteps nodes edges = map Some ns \<and> mset ns = mset nodes
    \<and> (\<forall>e\<in>set (known_edges nodes edges). \<not> behind_cycle (known_edges nodes edges) (e_target e)
        \<longrightarrow> comes_before (map n_id ns) (e_source e) (e_target e))"
proof -
  let ?es = "known_edges nodes edges" and ?A = "n_id ` set nodes"
  obtain seen ind where o: "orderSteps nodes edges = map (map_of (map_from (map (\<lambda>n. (n_id n, n)) nodes))) seen
      @ map Some (filter (\<lambda>n. n_id n \<notin> set seen) nodes)" and inv: "kahn_inv ?A ?es [] ind seen"
    using orderSteps_seen by blast
  then have "distinct seen" "set seen \<subseteq> ?A" by (simp_all add: kahn_inv_def)
  then obtain ns where ns: "orderSteps nodes edges = map Some ns" "mset ns = mset nodes"
    and ids: "map n_id ns = seen @ map n_id (filter (\<lambda>n. n_id n \<notin> set seen) nodes)"
    using listed_nodes[OF assms, of seen thesis] o by simp
  have "comes_before (map n_id ns) (e_source e) (e_target e)"
    if e: "e \<in> set ?es" and off: "\<not> behind_cycle ?es (e_target e)" for e
  proof -
    have A: "e_target e \<in> ?A" "e_source ` set ?es \<subseteq> ?A" using e by (auto simp: known_edges_def)
    have z: "\<forall>n\<in>?A. unmet ?es (set seen) n = 0 \<longrightarrow> n \<in> set seen" using inv by (simp add: kahn_inv_def)
    have "e_target e \<in> set seen" by (rule reached_off_cycles[OF z A off])
    then obtain us vs where s: "seen = us @ e_target e # vs" "e_target e \<notin> set us" by (meson split_list_first)
    have "unmet ?es (set us) (e_target e) = 0" using inv s(1) by (auto simp: kahn_inv_def)
    then have "e_source e \<in> set us" using e by (auto simp: unmet_zero)
    moreover have "takeWhile (\<lambda>x. x \<noteq> e_target e) (us @ e_target e # ys) = us" for ys
      using s(2) by (subst takeWhile_append2) auto
    moreover have "seen @ ys = us @ e_target e # (vs @ ys)" for ys using s(1) by simp
    ultimately show ?thesis unfolding ids comes_before_def by simp
  qed
  with ns show ?thesis by blast
qed

section \<open>The drawer\<close>

record node_run =
  nr_node_id :: string
  nr_status :: string
  nr_started_at :: "string option"
  nr_finished_at :: "string option"
  nr_duration_ms :: "int option"
  nr_attempt :: "int option"
  nr_record_count :: "int option"
  nr_error :: "string option"

record quality_result =
  qr_node_id :: string
  qr_status :: string
  qr_passed_count :: "int option"
  qr_failed_count :: "int option"

record run_execution =
  re_id :: string
  re_name :: "string option"
  re_phase :: string
  re_environment :: string
  re_started_at :: string
  re_completed_at :: "string option"
  re_retry_of :: "string option"
  re_run_id :: "string option"
  re_trace_id :: "string option"
  re_trigger_type :: "string option"

record run_detail =
  dt_execution :: run_execution
  dt_nodes :: "pipeline_node list"
  dt_edges :: "pipeline_edge list"
  dt_nodeRuns :: "node_run list"
  dt_qualityResults :: "quality_result list"

record drawer_step =
  ds_node :: pipeline_node
  ds_run :: "node_run option"
  ds_quality :: "quality_result option"
  ds_layer :: "string option"

text \<open>\<open>None\<close>: a step of \<open>orderSteps\<close> is \<open>undefined\<close> and the reading of its id fails.\<close>

definition drawer_steps :: "run_detail \<Rightarrow> drawer_step list option" where
  "drawer_steps detail =
     (let runsByNode = map_from (map (\<lambda>r. (nr_node_id r, r)) (dt_nodeRuns detail));
          qualityByNode = map_from (map (\<lambda>q. (qr_node_id q, q)) (dt_qualityResults detail))
      in map_option (map (\<lambda>n. \<lparr>ds_node = n, ds_run = map_of runsByNode (n_id n), ds_quality = map_of qualityByNode (n_id n),
             ds_layer = (if n_type n = Source \<or> n_type n = Sink then Some (normalizeLayer (map_of (n_config n) ''layer'')) else None)\<rparr>))
           (those (orderSteps (dt_nodes detail) (dt_edges detail))))"

text \<open>Arithmetic on numbers that may be \<open>NaN\<close>; the outer option of a time is \<open>null\<close>.\<close>

fun nan2 :: "('a \<Rightarrow> 'a \<Rightarrow> 'a) \<Rightarrow> 'a option \<Rightarrow> 'a option \<Rightarrow> 'a option" where
  "nan2 f (Some a) (Some b) = Some (f a b)"
| "nan2 f _ _ = None"

definition started_of :: "node_run \<Rightarrow> int option option" where
  "started_of r =
     (case truthy (nr_started_at r) of
        Some t \<Rightarrow> Some (date_parse t)
      | None \<Rightarrow> map_option (\<lambda>t. nan2 (-) (date_parse t) (Some (nullish (nr_duration_ms r) 0))) (truthy (nr_finished_at r)))"

definition finished_of :: "node_run \<Rightarrow> int option option" where
  "finished_of r = map_option date_parse (truthy (nr_finished_at r))"

definition widen :: "drawer_step \<Rightarrow> int option \<times> int option \<Rightarrow> int option \<times> int option" where
  "widen s sp =
     (case ds_run s of
        None \<Rightarrow> sp
      | Some r \<Rightarrow>
          ((case started_of r of Some x \<Rightarrow> nan2 min (fst sp) x | None \<Rightarrow> fst sp),
           (case finished_of r of Some x \<Rightarrow> nan2 max (snd sp) x | None \<Rightarrow> snd sp)))"

definition waterfall :: "run_execution \<Rightarrow> drawer_step list \<Rightarrow> int option \<times> int option" where
  "waterfall x steps =
     (let executionStart = date_parse (re_started_at x);
          (t0, fin) = fold widen steps (executionStart, executionStart);
          fin = (case truthy (re_completed_at x) of Some c \<Rightarrow> nan2 max fin (date_parse c) | None \<Rightarrow> fin)
      in (t0, nan2 max (nan2 (-) fin t0) (Some 1)))"

text \<open>The bar of a step: \<open>marginLeft\<close> and \<open>width\<close> in percent.\<close>

definition bar_offset :: "int option \<times> int option \<Rightarrow> node_run option \<Rightarrow> rat option" where
  "bar_offset fall r =
     (case Option.bind r started_of of
        None \<Rightarrow> Some 0
      | Some s \<Rightarrow>
          (case (s, fst fall, snd fall) of
             (Some s, Some t0, Some whole) \<Rightarrow> Some (max 0 (min 100 (of_int (s - t0) / of_int whole * 100)))
           | _ \<Rightarrow> None))"

definition bar_width :: "int option \<times> int option \<Rightarrow> node_run option \<Rightarrow> rat option" where
  "bar_width fall r =
     (case Option.bind r nr_duration_ms of
        None \<Rightarrow> Some 0
      | Some d \<Rightarrow>
          (case (bar_offset fall r, snd fall) of
             (Some left, Some whole) \<Rightarrow> Some (max 2 (min (100 - left) (of_int d / of_int whole * 100)))
           | _ \<Rightarrow> None))"

definition bar_color :: "node_run option \<Rightarrow> string" where
  "bar_color r = (case r of None \<Rightarrow> ''#cbd5e1'' | Some r \<Rightarrow> if nr_status r = ''failed'' then ''#ef4444'' else ''#10b981'')"

definition layerPath :: "drawer_step list \<Rightarrow> string list" where
  "layerPath steps = filter (\<lambda>l. Some l \<in> ds_layer ` set steps) [''external'', ''bronze'', ''silver'', ''gold'']"

section \<open>Texts\<close>

definition Identifier :: "string option \<Rightarrow> string" where
  "Identifier v =
     (case truthy v of
        None \<Rightarrow> u_emdash
      | Some s \<Rightarrow> if length s > 18 then take 8 s @ u_ellipsis @ drop (length s - 6) s else s)"

definition durationMs :: "int \<Rightarrow> run_execution \<Rightarrow> int option" where
  "durationMs now x =
     (case truthy (re_completed_at x) of
        Some c \<Rightarrow> nan2 (-) (date_parse c) (date_parse (re_started_at x))
      | None \<Rightarrow> nan2 (-) (Some now) (date_parse (re_started_at x)))"

definition drawer_heading :: "locale_formats \<Rightarrow> int \<Rightarrow> string \<Rightarrow> run_execution option \<Rightarrow> string list" where
  "drawer_heading lc now executionId x =
     (case x of
        None \<Rightarrow> [executionId]
      | Some x \<Rightarrow>
          [nullish (re_name x) executionId, re_phase x, (if re_environment x = ''prod'' then ''Production'' else ''Integration''),
           lc_dateTime lc (re_started_at x),
           (case durationMs now x of None \<Rightarrow> ''NaNh NaNm'' | d \<Rightarrow> formatDuration d)]
          @ (case truthy (re_retry_of x) of Some r \<Rightarrow> [''retry of '' @ take 13 r @ u_ellipsis] | None \<Rightarrow> []))"

definition drawer_ids :: "run_execution \<Rightarrow> (string \<times> string) list" where
  "drawer_ids x = [(''Execution ID'', re_id x), (''Temporal run ID'', nullish (re_run_id x) u_emdash),
     (''Trace ID'', nullish (re_trace_id x) u_emdash), (''Trigger'', nullish (re_trigger_type x) u_emdash)]"

definition step_lines :: "locale_formats \<Rightarrow> drawer_step \<Rightarrow> string list" where
  "step_lines lc s =
     [n_id (ds_node s), n_activityType (ds_node s)]
     @ (case Option.bind (ds_run s) nr_attempt of Some a \<Rightarrow> if a > 1 then [''attempt '' @ int_str a] else [] | None \<Rightarrow> [])
     @ (case Option.bind (ds_run s) nr_record_count of Some c \<Rightarrow> [formatCount lc (Some c) @ '' rec''] | None \<Rightarrow> [])
     @ [formatDuration (Option.bind (ds_run s) nr_duration_ms)]
     @ [case ds_run s of Some r \<Rightarrow> if nr_status r = ''success'' then ''completed'' else nr_status r | None \<Rightarrow> ''not run'']
     @ (case ds_quality s of
          Some q \<Rightarrow> [''Quality '' @ qr_status q @ u_dot @ formatCount lc (qr_passed_count q) @ '' passed'' @ u_dot
                      @ formatCount lc (qr_failed_count q) @ '' rejected'']
        | None \<Rightarrow> [])
     @ (case truthy (Option.bind (ds_run s) nr_error) of Some e \<Rightarrow> [e] | None \<Rightarrow> [])"

section \<open>The bars are true to the times\<close>

lemma nan2_Some: "nan2 f a b = Some c \<longleftrightarrow> (\<exists>x y. a = Some x \<and> b = Some y \<and> c = f x y)"
  by (cases "(f, a, b)" rule: nan2.cases) auto

text \<open>The times of a run are numbers within \<open>[t0, fin]\<close>.\<close>

definition spans :: "int \<Rightarrow> int \<Rightarrow> drawer_step \<Rightarrow> bool" where
  "spans t0 fin s \<longleftrightarrow> (\<forall>r. ds_run s = Some r \<longrightarrow>
     (\<forall>v. started_of r = Some v \<longrightarrow> (\<exists>z. v = Some z \<and> t0 \<le> z)) \<and> (\<forall>v. finished_of r = Some v \<longrightarrow> (\<exists>z. v = Some z \<and> z \<le> fin)))"

lemma widen_once:
  assumes "widen s (a, b) = (Some x', Some y')"
  shows "\<exists>x y. a = Some x \<and> b = Some y \<and> x' \<le> x \<and> y \<le> y' \<and> spans x' y' s"
proof (cases "ds_run s")
  case (Some r)
  then show ?thesis using assms
    by (cases "started_of r"; cases "finished_of r") (auto simp: widen_def spans_def nan2_Some)
qed (use assms in \<open>auto simp: widen_def spans_def\<close>)

lemma spans_mono: "spans x y s \<Longrightarrow> x' \<le> x \<Longrightarrow> y \<le> y' \<Longrightarrow> spans x' y' s"
  unfolding spans_def by force

lemma widen_all:
  assumes "fold widen steps (a, b) = (Some t0, Some fin)"
  shows "\<exists>x y. a = Some x \<and> b = Some y \<and> t0 \<le> x \<and> y \<le> fin \<and> (\<forall>s\<in>set steps. spans t0 fin s)"
  using assms
proof (induction steps arbitrary: a b)
  case (Cons s steps)
  obtain a' b' where w: "widen s (a, b) = (a', b')" by fastforce
  then obtain x' y' where t: "a' = Some x'" "b' = Some y'" "t0 \<le> x'" "y' \<le> fin" "\<forall>s\<in>set steps. spans t0 fin s"
    using Cons.IH[of a' b'] Cons.prems by auto
  then show ?case using widen_once[of s a b x' y'] w spans_mono[of x' y' s t0 fin] by fastforce
qed simp

lemma waterfall_spans:
  assumes "waterfall x steps = (Some t0, Some whole)"
  shows "\<exists>fin. (\<forall>s\<in>set steps. spans t0 fin s) \<and> whole = max (fin - t0) 1"
proof -
  let ?s = "date_parse (re_started_at x)"
  obtain a b where f: "fold widen steps (?s, ?s) = (a, b)" by fastforce
  let ?e = "case truthy (re_completed_at x) of Some c \<Rightarrow> nan2 max b (date_parse c) | None \<Rightarrow> b"
  have "a = Some t0" "\<exists>fin. ?e = Some fin \<and> whole = max (fin - t0) 1"
    using assms f by (auto simp: waterfall_def Let_def nan2_Some)
  moreover have "\<exists>y. b = Some y \<and> y \<le> fin" if "?e = Some fin" for fin
    using that by (auto simp: nan2_Some split: option.splits)
  ultimately obtain y fin where "a = Some t0" "b = Some y" "y \<le> fin" "whole = max (fin - t0) 1" by blast
  then show ?thesis using widen_all[of steps ?s ?s t0 y] f spans_mono[of t0 y _ t0 fin] by auto
qed

text \<open>The end of a bar, in percent, when it is wide enough and inside.\<close>

lemma bar_end:
  fixes whole d a t0 :: int
  assumes "0 < whole" and "left = 100 * of_int (a - t0) / (of_int whole :: rat)" and "a + d - t0 \<le> whole"
  shows "of_int d / of_int whole * 100 \<le> 100 - left"
    and "2 * whole \<le> 100 * d \<longleftrightarrow> 2 \<le> (of_int d / of_int whole * 100 :: rat)"
    and "left + of_int d / of_int whole * 100 = 100 * of_int (a + d - t0) / of_int whole"
proof -
  have pos: "(0::rat) < of_int whole" using assms(1) by simp
  show e: "left + of_int d / of_int whole * 100 = 100 * of_int (a + d - t0) / of_int whole"
    using pos by (simp add: assms(2) field_simps)
  have "100 * of_int (a + d - t0) / of_int whole \<le> (100 :: rat)"
    using assms(3) pos by (simp add: field_simps)
  with e show "of_int d / of_int whole * 100 \<le> 100 - left" by linarith
  have "(2 \<le> (of_int d / of_int whole * 100 :: rat)) \<longleftrightarrow> (of_int (2 * whole) :: rat) \<le> of_int (100 * d)"
    using pos by (simp add: field_simps)
  then show "2 * whole \<le> 100 * d \<longleftrightarrow> 2 \<le> (of_int d / of_int whole * 100 :: rat)" by (simp only: of_int_le_iff)
qed

text \<open>C37: the waterfall shows the times as they are: every bar starts inside its frame, and exactly where its start lies
  between the first start and the last end of the run, or at the edge if it started later. A bar is
  not there, or at least 2 percent wide; one that is wider than that ends inside the frame, and one
  of the least width overhangs it by at most 2 percent. When a run started at \<open>a\<close> and its recorded
  duration fits into the span of the waterfall, its bar ends exactly where \<open>a\<close> and the duration
  lie if that makes it at least 2 percent wide, and has the least width otherwise; a recorded end is never
  beyond the span.\<close>

theorem waterfall_true:
  assumes "waterfall x steps = (Some t0, Some whole)" and "s \<in> set steps" and "ds_run s = Some r"
  shows "\<exists>left w. bar_offset (waterfall x steps) (Some r) = Some left \<and> bar_width (waterfall x steps) (Some r) = Some w
    \<and> 0 \<le> left \<and> left \<le> 100 \<and> (w = 0 \<or> 2 \<le> w) \<and> (w \<le> 2 \<or> left + w \<le> 100)
    \<and> (\<forall>a. started_of r = Some (Some a) \<longrightarrow> left = min 100 (100 * of_int (a - t0) / of_int whole))
    \<and> (\<forall>a d. started_of r = Some (Some a) \<and> nr_duration_ms r = Some d \<and> 0 \<le> d \<and> a + d - t0 \<le> whole \<longrightarrow>
         (if 2 * whole \<le> 100 * d then left + w = 100 * of_int (a + d - t0) / of_int whole else w = 2))
    \<and> (\<forall>b. finished_of r = Some (Some b) \<longrightarrow> b - t0 \<le> whole)"
proof -
  obtain fin where sp: "spans t0 fin s" and whole: "whole = max (fin - t0) 1" using waterfall_spans assms(1,2) by blast
  have pos: "(0::rat) < of_int whole" using whole by simp
  obtain left where left: "bar_offset (waterfall x steps) (Some r) = Some left" "0 \<le> left" "left \<le> 100"
    using assms sp by (cases "started_of r") (auto simp: bar_offset_def spans_def)
  moreover obtain w where w: "bar_width (waterfall x steps) (Some r) = Some w" "w = 0 \<or> 2 \<le> w" "w \<le> 2 \<or> left + w \<le> 100"
    using left assms by (cases "nr_duration_ms r") (auto simp: bar_width_def max_def min_def)
  moreover have start: "left = min 100 (100 * of_int (a - t0) / of_int whole)" if "started_of r = Some (Some a)" for a
  proof -
    have "t0 \<le> a" using sp that assms(3) by (auto simp: spans_def)
    then have "(0 :: rat) \<le> of_int (a - t0)" by simp
    then have "(0 :: rat) \<le> of_int (a - t0) / of_int whole * 100" using pos by simp
    then have "max 0 (min 100 (of_int (a - t0) / of_int whole * 100)) = min 100 (of_int (a - t0) / of_int whole * (100 :: rat))"
      by (simp only: max_def min_def split: if_split) simp
    then show ?thesis using left(1) assms(1) that by (simp add: bar_offset_def mult.commute)
  qed
  moreover have "if 2 * whole \<le> 100 * d then left + w = 100 * of_int (a + d - t0) / of_int whole else w = 2"
    if t: "started_of r = Some (Some a)" "nr_duration_ms r = Some d" "0 \<le> d" "a + d - t0 \<le> whole" for a d
  proof -
    have "100 * of_int (a - t0) / of_int whole \<le> (100 :: rat)"
      using t(3,4) pos by (simp add: field_simps)
    then have l: "left = 100 * of_int (a - t0) / of_int whole" using start[OF t(1)] by simp
    note e = bar_end[OF _ l t(4)]
    have "w = max 2 (of_int d / of_int whole * 100)"
      using w(1) left(1) assms(1) t(2) e(1) whole by (simp add: bar_width_def min_absorb2)
    then show ?thesis using e(2,3) whole by (auto simp: max_def)
  qed
  moreover have "b - t0 \<le> whole" if "finished_of r = Some (Some b)" for b
    using sp that assms(3) whole by (auto simp: spans_def)
  ultimately show ?thesis by blast
qed

section \<open>Instances\<close>

definition demo_node :: "string \<Rightarrow> node_type \<Rightarrow> pipeline_node" where
  "demo_node i k = \<lparr>n_id = i, n_type = k, n_activityType = ''http'', n_label = None, n_config = [], n_ingestion = None,
     n_timeoutSec = None, n_retry = None, n_mergeStrategy = None, n_joinKey = None, n_inputAssets = None, n_outputAssets = None\<rparr>"

definition demo_edge :: "string \<Rightarrow> string \<Rightarrow> pipeline_edge" where
  "demo_edge a b = \<lparr>e_id = a @ b, e_source = a, e_target = b, e_condition = None\<rparr>"

text \<open>The nodes are declared from the sink to the source; \<open>x\<close> and \<open>y\<close> form a cycle, \<open>q\<close> is not declared.\<close>

lemma orderSteps_example:
  "map_option (map n_id) (those (orderSteps
      [demo_node ''x'' Transform, demo_node ''b'' Sink, demo_node ''y'' Transform, demo_node ''a'' Source]
      [demo_edge ''a'' ''b'', demo_edge ''x'' ''y'', demo_edge ''y'' ''x'', demo_edge ''q'' ''a'']))
    = Some [''a'', ''b'', ''x'', ''y'']"
  by code_simp

theorem steps_follow_graph_witness:
  "\<exists>ns. orderSteps [demo_node ''b'' Sink, demo_node ''a'' Source] [demo_edge ''a'' ''b''] = map Some ns
    \<and> comes_before (map n_id ns) ''a'' ''b''"
proof -
  have "known_edges [demo_node ''b'' Sink, demo_node ''a'' Source] [demo_edge ''a'' ''b''] = [demo_edge ''a'' ''b'']"
    by (simp add: known_edges_def demo_node_def demo_edge_def)
  moreover have "\<not> behind_cycle [demo_edge ''a'' ''b''] ''b''"
    by (simp add: behind_cycle_def flow_edges_def demo_edge_def trancl_insert)
  ultimately show ?thesis
    using steps_follow_graph[of "[demo_node ''b'' Sink, demo_node ''a'' Source]" "[demo_edge ''a'' ''b'']"]
    by (auto simp: demo_node_def demo_edge_def)
qed

definition demo_execution :: run_execution where
  "demo_execution = \<lparr>re_id = ''e'', re_name = None, re_phase = ''completed'', re_environment = ''prod'',
     re_started_at = ''2024-05-01T00:00:00Z'', re_completed_at = Some ''2024-05-01T00:00:10Z'', re_retry_of = None,
     re_run_id = None, re_trace_id = None, re_trigger_type = None\<rparr>"

definition demo_run :: node_run where
  "demo_run = \<lparr>nr_node_id = ''a'', nr_status = ''success'', nr_started_at = Some ''2024-05-01T00:00:02Z'',
     nr_finished_at = Some ''2024-05-01T00:00:07Z'', nr_duration_ms = Some 5000, nr_attempt = None, nr_record_count = None, nr_error = None\<rparr>"

definition demo_step :: drawer_step where
  "demo_step = \<lparr>ds_node = demo_node ''a'' Source, ds_run = Some demo_run, ds_quality = None, ds_layer = None\<rparr>"

lemma demo_waterfall: "waterfall demo_execution [demo_step] = (Some 1714521600000, Some 10000)"
  "started_of demo_run = Some (Some 1714521602000)" "finished_of demo_run = Some (Some 1714521607000)"
  by code_simp+

theorem waterfall_true_witness:
  "bar_offset (waterfall demo_execution [demo_step]) (Some demo_run) = Some 20
    \<and> bar_width (waterfall demo_execution [demo_step]) (Some demo_run) = Some 50"
proof -
  have d: "demo_step \<in> set [demo_step]" "ds_run demo_step = Some demo_run" "nr_duration_ms demo_run = Some 5000"
    by (simp_all add: demo_step_def demo_run_def)
  from waterfall_true[OF demo_waterfall(1) d(1,2)] obtain left w where
    "bar_offset (waterfall demo_execution [demo_step]) (Some demo_run) = Some left"
    "bar_width (waterfall demo_execution [demo_step]) (Some demo_run) = Some w" "left = 20" "left + w = 70"
    by (auto simp: demo_waterfall d(3))
  then show ?thesis by simp
qed

text \<open>A step that starts at the very end and takes no time has its whole bar outside the frame, which cuts it off.\<close>

lemma last_bar_outside:
  "let r = demo_run\<lparr>nr_started_at := Some ''2024-05-01T00:00:10Z'', nr_finished_at := Some ''2024-05-01T00:00:10Z'', nr_duration_ms := Some 0\<rparr>
   in bar_offset (Some 1714521600000, Some 10000) (Some r) = Some 100 \<and> bar_width (Some 1714521600000, Some 10000) (Some r) = Some 2"
  by code_simp

end
