(* ===== verification/RuntimeLineage.thy ===== *)
theory RuntimeLineage
  imports RuntimeSteps
begin

text \<open>
  The explorer of runs, \<open>apps/web/src/pages/RuntimeLineage.tsx\<close>: the time window, the filters, the two
  requests of a refresh with their sequence number, further pages of runs, and the graph that is
  drawn. The drawer of one execution is theory RuntimeSteps.

  Parameters: the present time, the reading of a local date and time (\<open>None\<close> when it is not one), the
  server, and the locale's order of texts.
\<close>

section \<open>The time window\<close>

definition PRESETS :: "(string \<times> string \<times> int) list" where
  "PRESETS = [(''15m'', ''Last 15 min'', 15 * 60000), (''1h'', ''Last 1 hour'', 60 * 60000), (''6h'', ''Last 6 hours'', 6 * 60 * 60000),
     (''24h'', ''Last 24 hours'', 24 * 60 * 60000), (''3d'', ''Last 3 days'', 3 * 24 * 60 * 60000),
     (''7d'', ''Last 7 days'', 7 * 24 * 60 * 60000)]"

definition MAX_WINDOW_MS :: int where
  "MAX_WINDOW_MS = 7 * 24 * 60 * 60000"

text \<open>A window \<open>{ from, to }\<close> in milliseconds; \<open>None\<close> is \<open>{}\<close>, the last hour of the back end.\<close>

type_synonym window = "(int \<times> int) option"

record runtime_node =
  rt_node :: lineage_node
  rt_metrics :: "node_metrics option"

record runtime_stats =
  rs_runs :: nat
  rs_failed :: nat
  rs_running :: nat
  rs_activePipelines :: nat
  rs_pipelines :: nat

record runtime_overview =
  ov_nodes :: "runtime_node list"
  ov_edges :: "lineage_edge list"
  ov_stats :: runtime_stats

record runtime_run =
  rr_id :: string
  rr_name :: string
  rr_environment :: string
  rr_phase :: string
  rr_started_at :: string
  rr_duration_ms :: "int option"
  rr_run_id :: "string option"
  rr_trace_id :: "string option"
  rr_records :: "int option"
  rr_failed_nodes :: "int option"

text \<open>The parameters of a request: the window and the four filters; the runs take the searched id too.\<close>

record runtime_params =
  pm_window :: window
  pm_environment :: string
  pm_status :: string
  pm_pipeline :: string
  pm_layer :: string

record runtime_page =
  rl_preset :: string
  rl_customFrom :: string
  rl_customTo :: string
  rl_windowError :: "string option"
  rl_appliedWindow :: window
  rl_environment :: string
  rl_status :: string
  rl_pipeline :: string
  rl_layerFilter :: string
  rl_activeOnly :: bool
  rl_search :: string
  rl_debouncedSearch :: string
  rl_overview :: "runtime_overview option"
  rl_runs :: "runtime_run list"
  rl_nextCursor :: "string option"
  rl_loading :: bool
  rl_loadingRuns :: bool
  rl_error :: "string option"
  rl_selectedRunId :: "string option"
  rl_requestSeq :: nat
  rl_sent :: "(runtime_params \<times> string) list"
  rl_sentMore :: "(runtime_params \<times> string \<times> string) list"

definition rl_initial :: runtime_page where
  "rl_initial = \<lparr>rl_preset = ''1h'', rl_customFrom = '''', rl_customTo = '''', rl_windowError = None, rl_appliedWindow = None,
     rl_environment = '''', rl_status = '''', rl_pipeline = '''', rl_layerFilter = '''', rl_activeOnly = True, rl_search = '''',
     rl_debouncedSearch = '''', rl_overview = None, rl_runs = [], rl_nextCursor = None, rl_loading = True, rl_loadingRuns = False,
     rl_error = None, rl_selectedRunId = None, rl_requestSeq = 0, rl_sent = [], rl_sentMore = []\<rparr>"

text \<open>The window to ask for, if there is one, with what the call writes to \<open>windowError\<close>.\<close>

definition windowParams :: "int \<Rightarrow> (string \<Rightarrow> int option) \<Rightarrow> runtime_page \<Rightarrow> window option \<times> runtime_page" where
  "windowParams now local st =
     (if rl_preset st \<noteq> ''custom'' then
        (case nullish (find (\<lambda>p. fst p = rl_preset st) PRESETS) (PRESETS ! 1) of (key, _, ms) \<Rightarrow>
           (Some (if key = ''1h'' then None else Some (now - ms, now)), st))
      else if rl_customFrom st = [] \<or> rl_customTo st = [] then (None, st\<lparr>rl_windowError := Some ''Set both start and end''\<rparr>)
      else case (local (rl_customFrom st), local (rl_customTo st)) of
          (Some a, Some b) \<Rightarrow>
            if \<not> a < b then (None, st\<lparr>rl_windowError := Some ''Start must be before end''\<rparr>)
            else if b - a > MAX_WINDOW_MS then (None, st\<lparr>rl_windowError := Some ''Range cannot exceed 7 days''\<rparr>)
            else (Some (Some (a, b)), st\<lparr>rl_windowError := None\<rparr>)
        | _ \<Rightarrow> (None, st\<lparr>rl_windowError := Some ''Start must be before end''\<rparr>))"

definition baseParams :: "window \<Rightarrow> runtime_page \<Rightarrow> runtime_params" where
  "baseParams w st = \<lparr>pm_window = w, pm_environment = rl_environment st, pm_status = rl_status st, pm_pipeline = rl_pipeline st,
     pm_layer = rl_layerFilter st\<rparr>"

text \<open>\<open>toISOString\<close>, and the query of a request: empty filters are left out.\<close>

definition iso_stamp :: "int \<Rightarrow> string" where
  "iso_stamp ms = stamp19 ms @ ''.'' @ (let m = ms mod 1000 in (if m < 100 then ''0'' else '''') @ pad2 m) @ ''Z''"

definition params_query :: "runtime_params \<Rightarrow> (string \<times> string) list" where
  "params_query p =
     (case pm_window p of Some (a, b) \<Rightarrow> [(''from'', iso_stamp a), (''to'', iso_stamp b)] | None \<Rightarrow> [])
     @ filter (\<lambda>(k, v). v \<noteq> []) [(''environment'', pm_environment p), (''status'', pm_status p), (''pipeline'', pm_pipeline p),
         (''layer'', pm_layer p)]"

definition runs_query :: "runtime_params \<Rightarrow> string \<Rightarrow> string option \<Rightarrow> (string \<times> string) list" where
  "runs_query p query cursor =
     params_query p @ (if query \<noteq> [] then [(''query'', query)] else []) @ [(''limit'', ''50'')]
     @ (case cursor of Some c \<Rightarrow> [(''cursor'', c)] | None \<Rightarrow> [])"

section \<open>Loading\<close>

definition refresh :: "int \<Rightarrow> (string \<Rightarrow> int option) \<Rightarrow> runtime_page \<Rightarrow> runtime_page" where
  "refresh now local st =
     (case windowParams now local st of
        (None, st) \<Rightarrow> st
      | (Some w, st) \<Rightarrow>
          st\<lparr>rl_appliedWindow := w, rl_requestSeq := Suc (rl_requestSeq st), rl_loading := True, rl_error := None,
             rl_sent := rl_sent st @ [(baseParams w st, rl_debouncedSearch st)]\<rparr>)"

text \<open>The answer to the refresh with the number \<open>seq\<close>: both results, or the message of the first failure.\<close>

type_synonym refresh_result = "string option + (runtime_overview \<times> runtime_run list \<times> string option)"

definition refresh_answer :: "nat \<Rightarrow> refresh_result \<Rightarrow> runtime_page \<Rightarrow> runtime_page" where
  "refresh_answer seq out st =
     (if seq \<noteq> rl_requestSeq st then st
      else
        (case out of
           Inr (overview, items, cursor) \<Rightarrow>
             st\<lparr>rl_overview := Some overview, rl_runs := items, rl_nextCursor := cursor, rl_loading := False\<rparr>
         | Inl e \<Rightarrow> st\<lparr>rl_error := Some (nullish e ''Failed to load runtime lineage''), rl_loading := False\<rparr>))"

definition loadMore :: "runtime_page \<Rightarrow> runtime_page" where
  "loadMore st =
     (case truthy (rl_nextCursor st) of
        None \<Rightarrow> st
      | Some c \<Rightarrow>
          st\<lparr>rl_loadingRuns := True,
             rl_sentMore := rl_sentMore st @ [(baseParams (rl_appliedWindow st) st, rl_debouncedSearch st, c)]\<rparr>)"

definition more_answer :: "string option + (runtime_run list \<times> string option) \<Rightarrow> runtime_page \<Rightarrow> runtime_page" where
  "more_answer out st =
     (case out of
        Inr (items, cursor) \<Rightarrow> st\<lparr>rl_runs := rl_runs st @ items, rl_nextCursor := cursor, rl_loadingRuns := False\<rparr>
      | Inl e \<Rightarrow> st\<lparr>rl_error := Some (nullish e ''Failed to load more runs''), rl_loadingRuns := False\<rparr>)"

text \<open>The effect after a change: it runs when one of its dependencies differs.\<close>

definition deps :: "runtime_page \<Rightarrow> string list" where
  "deps st = [rl_preset st, rl_environment st, rl_status st, rl_pipeline st, rl_layerFilter st, rl_debouncedSearch st]"

definition with_effect :: "int \<Rightarrow> (string \<Rightarrow> int option) \<Rightarrow> (runtime_page \<Rightarrow> runtime_page) \<Rightarrow> runtime_page \<Rightarrow> runtime_page" where
  "with_effect now local change st =
     (let st' = change st in if deps st' \<noteq> deps st then refresh now local st' else st')"

text \<open>The controls; \<open>click_card\<close> is a click on a pipeline of the graph.\<close>

datatype control =
    Preset string
  | CustomFrom string
  | CustomTo string
  | Environment string
  | Status string
  | PipelineKey string
  | Layer string
  | ActiveOnly bool
  | Search string
  | SelectRun "string option"

fun set_control :: "control \<Rightarrow> runtime_page \<Rightarrow> runtime_page" where
  "set_control (Preset s) st = st\<lparr>rl_preset := s\<rparr>"
| "set_control (CustomFrom s) st = st\<lparr>rl_customFrom := s\<rparr>"
| "set_control (CustomTo s) st = st\<lparr>rl_customTo := s\<rparr>"
| "set_control (Environment s) st = st\<lparr>rl_environment := s\<rparr>"
| "set_control (Status s) st = st\<lparr>rl_status := s\<rparr>"
| "set_control (PipelineKey s) st = st\<lparr>rl_pipeline := s\<rparr>"
| "set_control (Layer s) st = st\<lparr>rl_layerFilter := s\<rparr>"
| "set_control (ActiveOnly b) st = st\<lparr>rl_activeOnly := b\<rparr>"
| "set_control (Search s) st = st\<lparr>rl_search := s\<rparr>"
| "set_control (SelectRun i) st = st\<lparr>rl_selectedRunId := i\<rparr>"

definition timer_fired :: "string \<Rightarrow> runtime_page \<Rightarrow> runtime_page" where
  "timer_fired s st = st\<lparr>rl_debouncedSearch := js_trim s\<rparr>"

fun click_card :: "card \<Rightarrow> runtime_page \<Rightarrow> runtime_page" where
  "click_card (PipelineCard p h m) st =
     (if v_pipelineKey p = [] then st
      else st\<lparr>rl_pipeline := (if rl_pipeline st = v_pipelineKey p then '''' else v_pipelineKey p)\<rparr>)"
| "click_card _ st = st"

section \<open>The graph\<close>

text \<open>\<open>node.metrics?.runs ?? 0\<close>.\<close>

definition runs_of :: "runtime_node \<Rightarrow> int" where
  "runs_of n = (case rt_metrics n of Some m \<Rightarrow> nm_runs m | None \<Rightarrow> 0)"

definition failed_of :: "runtime_node \<Rightarrow> int" where
  "failed_of n = (case rt_metrics n of Some m \<Rightarrow> nm_failed m | None \<Rightarrow> 0)"

definition active_part :: "runtime_node list \<Rightarrow> lineage_edge list \<Rightarrow> runtime_node list \<times> lineage_edge list" where
  "active_part nodes edges =
     (let activePipelines = set_from (map (\<lambda>n. ln_id (rt_node n)) (filter (\<lambda>n. is_pipeline (rt_node n) \<and> runs_of n > 0) nodes));
          activeAssets = set_from (concat (map (\<lambda>e. [le_source e, le_target e])
            (filter (\<lambda>e. le_source e \<in> set activePipelines \<or> le_target e \<in> set activePipelines) edges)));
          nodes = filter (\<lambda>n. ln_id (rt_node n) \<in> set activePipelines \<or> (is_asset (rt_node n) \<and> ln_id (rt_node n) \<in> set activeAssets)) nodes;
          kept = set_from (map (\<lambda>n. ln_id (rt_node n)) nodes)
      in (nodes, filter (\<lambda>e. le_source e \<in> set kept \<and> le_target e \<in> set kept) edges))"

text \<open>The layer that is chosen, as the shared filter takes it; \<open>None\<close> is \<open>external\<close>.\<close>

definition layer_choice :: "string \<Rightarrow> layer option" where
  "layer_choice s = (if s = ''bronze'' then Some Bronze else if s = ''silver'' then Some Silver else if s = ''gold'' then Some Gold else None)"

text \<open>The counts of the graph, which the drawing does not read, are zero here.\<close>

definition no_counts :: lineage_stats where
  "no_counts = \<lparr>st_pipelines = 0, st_assets = 0, st_links = 0, st_sharedAssets = 0, st_columnLinks = 0, st_externalJobs = 0\<rparr>"

definition as_graph :: "runtime_node list \<times> lineage_edge list \<Rightarrow> workspace_lineage" where
  "as_graph part = \<lparr>wl_nodes = map rt_node (fst part), wl_edges = snd part, wl_columnEdges = [], wl_stats = no_counts\<rparr>"

definition filteredGraph :: "runtime_page \<Rightarrow> workspace_lineage option" where
  "filteredGraph st =
     (case rl_overview st of
        None \<Rightarrow> None
      | Some ov \<Rightarrow>
          let graph = as_graph (if rl_activeOnly st then active_part (ov_nodes ov) (ov_edges ov) else (ov_nodes ov, ov_edges ov)) in
          Some (if rl_layerFilter st \<noteq> [] then
              filterWorkspaceLineage graph \<lparr>lf_query = None, lf_domains = None, lf_layers = Some [layer_choice (rl_layerFilter st)],
                lf_focusId = None, lf_depth = None\<rparr>
            else graph))"

definition pipeline_nodes :: "runtime_overview option \<Rightarrow> runtime_node list" where
  "pipeline_nodes ov = (case ov of Some ov \<Rightarrow> filter (\<lambda>n. is_pipeline (rt_node n)) (ov_nodes ov) | None \<Rightarrow> [])"

definition pipelineOptions :: "(string \<Rightarrow> string \<Rightarrow> bool) \<Rightarrow> runtime_overview option \<Rightarrow> (string \<times> string) list" where
  "pipelineOptions locale_less ov =
     sort_with (\<lambda>a b. locale_less (snd a) (snd b))
       (map_from (map (\<lambda>n. (v_pipelineKey (ln_pipeline (rt_node n)), v_name (ln_pipeline (rt_node n)))) (pipeline_nodes ov)))"

definition health_of :: "runtime_node \<Rightarrow> pipeline_health" where
  "health_of n = \<lparr>ph_id = Some (v_rowId (ln_pipeline (rt_node n))),
     ph_health = (if failed_of n > 0 then ''critical'' else if runs_of n > 0 then ''healthy'' else ''unmonitored''),
     ph_last_execution_id = None, ph_last_phase = None, ph_breaches = None\<rparr>"

definition healthById :: "runtime_overview option \<Rightarrow> (string \<times> pipeline_health) list" where
  "healthById ov = map_from (map (\<lambda>n. (v_rowId (ln_pipeline (rt_node n)), health_of n)) (pipeline_nodes ov))"

definition flow :: "runtime_page \<Rightarrow> (flow_card list \<times> flow_line list) option" where
  "flow st =
     (case filteredGraph st of
        None \<Rightarrow> Some ([], [])
      | Some graph \<Rightarrow>
          buildFlow graph (healthById (rl_overview st))
            (\<lambda>i. Option.bind (rl_overview st) (\<lambda>ov. Option.bind (find (\<lambda>n. ln_id (rt_node n) = i) (ov_nodes ov)) rt_metrics)))"

section \<open>Texts\<close>

text \<open>\<open>Math.round(x * 1000) / 10\<close> of the quotient, printed: tenths of a percent without a closing zero.\<close>

definition tenths_text :: "int \<Rightarrow> string" where
  "tenths_text n = int_str (n div 10) @ (if n mod 10 = 0 then '''' else ''.'' @ int_str (n mod 10))"

definition stat_tiles :: "runtime_stats \<Rightarrow> (string \<times> string) list" where
  "stat_tiles s =
     [(''Runs'', nat_str (rs_runs s)),
      (''Error rate'', if rs_runs s > 0 then tenths_text (round_div (1000 * int (rs_failed s)) (int (rs_runs s))) @ ''%'' else u_emdash),
      (''Failed'', nat_str (rs_failed s)), (''Running'', nat_str (rs_running s)),
      (''Active pipelines'', nat_str (rs_activePipelines s) @ ''/'' @ nat_str (rs_pipelines s))]"

definition run_cells :: "locale_formats \<Rightarrow> runtime_run \<Rightarrow> string list" where
  "run_cells lc r =
     [lc_dateTime lc (rr_started_at r), rr_name r, (if rr_environment r = ''prod'' then ''Prod'' else ''Test''), rr_phase r,
      formatDuration (rr_duration_ms r), Identifier (Some (rr_id r)), Identifier (rr_run_id r), Identifier (rr_trace_id r),
      formatCount lc (rr_records r)
        @ (case rr_failed_nodes r of Some k \<Rightarrow> if k > 0 then int_str k @ '' failed'' else '''' | None \<Rightarrow> '''')]"

definition runtime_notices :: "runtime_page \<Rightarrow> string list" where
  "runtime_notices st =
     (case truthy (rl_windowError st) of Some e \<Rightarrow> [e] | None \<Rightarrow> [])
     @ (case truthy (rl_error st) of Some e \<Rightarrow> [e] | None \<Rightarrow> [])
     @ (if rl_loading st then [(if rl_overview st \<noteq> None then ''Refreshing'' else ''Loading runtime lineage'') @ u_ellipsis]
        else case rl_overview st of
            Some ov \<Rightarrow> if ov_nodes ov = [] then [''No pipelines found for this window and filters.''] else []
          | None \<Rightarrow> [])
     @ (if \<not> rl_loading st \<and> rl_runs st = [] then
          [if rl_debouncedSearch st \<noteq> [] then ''No execution matches that ID inside the selected window.'' else ''No runs in the selected window.'']
        else [])
     @ (if truthy (rl_nextCursor st) \<noteq> None then [if rl_loadingRuns st then ''Loading'' @ u_ellipsis else ''Load more runs''] else [])"

section \<open>The window is bounded\<close>

definition window_ok :: "window \<Rightarrow> bool" where
  "window_ok w = (case w of Some (a, b) \<Rightarrow> a < b \<and> b - a \<le> MAX_WINDOW_MS | None \<Rightarrow> True)"

lemma find_preset: "\<exists>key label ms. nullish (find P PRESETS) (PRESETS ! 1) = (key, label, ms) \<and> 0 < ms \<and> ms \<le> MAX_WINDOW_MS"
  by (simp add: PRESETS_def MAX_WINDOW_MS_def)

lemma windowParams_ok: "fst (windowParams now local st) = Some w \<Longrightarrow> window_ok w"
  using find_preset[of "\<lambda>p. fst p = rl_preset st"]
  by (auto simp: windowParams_def window_ok_def split: if_splits option.splits)

lemma windowParams_state: "\<exists>e. snd (windowParams now local st) = st\<lparr>rl_windowError := e\<rparr>"
  by (auto simp: windowParams_def split: prod.split option.split intro: exI[of _ "rl_windowError st"])

lemma preset_window: "rl_preset st \<noteq> ''custom'' \<Longrightarrow> fst (windowParams now local st) \<noteq> None"
  by (simp add: windowParams_def split: prod.split)

text \<open>
  What the choice of a range means, apart from the code: a number of milliseconds before the present
  time; the back end's last hour; or the two times that were typed, in order and at most a week apart.
\<close>

definition SPANS :: "(string \<times> int) list" where
  "SPANS = [(''15m'', 900000), (''6h'', 21600000), (''24h'', 86400000), (''3d'', 259200000), (''7d'', 604800000)]"

definition window_meant :: "(string \<Rightarrow> int option) \<Rightarrow> int \<Rightarrow> string \<Rightarrow> string \<Rightarrow> string \<Rightarrow> window \<Rightarrow> bool" where
  "window_meant local now range_key start_text end_text w \<longleftrightarrow>
     (if range_key = ''custom''
      then \<exists>a b. local start_text = Some a \<and> local end_text = Some b \<and> a < b \<and> b - a \<le> 604800000 \<and> w = Some (a, b)
      else w = map_option (\<lambda>ms. (now - ms, now)) (map_of SPANS range_key))"

lemma windowParams_meant:
  "fst (windowParams now local st) = Some w \<Longrightarrow> window_meant local now (rl_preset st) (rl_customFrom st) (rl_customTo st) w"
  by (auto simp: windowParams_def window_meant_def SPANS_def PRESETS_def MAX_WINDOW_MS_def split: if_splits option.splits)

lemma windowParams_message:
  "rl_preset st = ''custom'' \<Longrightarrow> fst (windowParams now local st) = None \<longleftrightarrow> rl_windowError (snd (windowParams now local st)) \<noteq> None"
  by (auto simp: windowParams_def split: option.splits)

text \<open>A refresh either sends nothing and leaves a message, or sends one request for the window that is chosen.\<close>

lemma refresh_cases:
  obtains e where "refresh now local st = st\<lparr>rl_windowError := Some e\<rparr>" and "rl_preset st = ''custom''"
  | e w where "window_ok w" and "window_meant local now (rl_preset st) (rl_customFrom st) (rl_customTo st) w"
      and "refresh now local st =
      st\<lparr>rl_windowError := e, rl_appliedWindow := w, rl_requestSeq := Suc (rl_requestSeq st), rl_loading := True, rl_error := None,
         rl_sent := rl_sent st @ [(baseParams w st, rl_debouncedSearch st)]\<rparr>"
proof -
  obtain w e where p: "windowParams now local st = (w, st\<lparr>rl_windowError := e\<rparr>)"
    using windowParams_state[of now local st] by (metis prod.collapse)
  show ?thesis
  proof (cases w)
    case None
    then have c: "rl_preset st = ''custom''" using p preset_window[of st now local] by auto
    with None obtain m where "e = Some m" using p windowParams_message[of st now local] by auto
    then show ?thesis using that(1)[of m] c p None by (simp add: refresh_def)
  next
    case (Some w)
    then show ?thesis
      using that(2)[of w e] p windowParams_ok[of now local st w] windowParams_meant[of now local st w]
      by (simp add: refresh_def baseParams_def)
  qed
qed

section \<open>The map shows what the filters ask for\<close>

text \<open>The server: the overview for the parameters, and the page of runs for the parameters, a searched id and a
  cursor.\<close>

type_synonym runs_server = "runtime_params \<Rightarrow> string \<Rightarrow> string option \<Rightarrow> runtime_run list \<times> string option"

text \<open>What is known of the last request: the time at which it was sent, the chosen range, the typed times.\<close>

type_synonym asked = "int \<times> string \<times> string \<times> string"

definition asked_after :: "int \<Rightarrow> runtime_page \<Rightarrow> runtime_page \<Rightarrow> asked \<Rightarrow> asked" where
  "asked_after now st st' asked =
     (if length (rl_sent st') > length (rl_sent st) then (now, rl_preset st', rl_customFrom st', rl_customTo st') else asked)"

inductive explorer :: "(string \<Rightarrow> int option) \<Rightarrow> (runtime_params \<Rightarrow> runtime_overview) \<Rightarrow> runs_server \<Rightarrow> runtime_page \<Rightarrow> asked \<Rightarrow> bool"
  for local overview_of listing where
  opened: "st' = refresh now local rl_initial \<Longrightarrow> explorer local overview_of listing st' (now, rl_preset st', rl_customFrom st', rl_customTo st')"
| control: "explorer local overview_of listing st asked \<Longrightarrow> st' = with_effect now local (set_control c) st \<Longrightarrow>
    explorer local overview_of listing st' (asked_after now st st' asked)"
| card: "explorer local overview_of listing st asked \<Longrightarrow> st' = with_effect now local (click_card d) st \<Longrightarrow>
    explorer local overview_of listing st' (asked_after now st st' asked)"
| timer: "explorer local overview_of listing st asked \<Longrightarrow> st' = with_effect now local (timer_fired (rl_search st)) st \<Longrightarrow>
    explorer local overview_of listing st' (asked_after now st st' asked)"
| button: "explorer local overview_of listing st asked \<Longrightarrow> st' = refresh now local st \<Longrightarrow>
    explorer local overview_of listing st' (asked_after now st st' asked)"
| answer: "explorer local overview_of listing st asked \<Longrightarrow> (p, query) = rl_sent st ! seq \<Longrightarrow> seq < length (rl_sent st) \<Longrightarrow>
    explorer local overview_of listing (refresh_answer (Suc seq) (Inr (overview_of p, listing p query None)) st) asked"
| failure: "explorer local overview_of listing st asked \<Longrightarrow> explorer local overview_of listing (refresh_answer seq (Inl e) st) asked"
| more: "explorer local overview_of listing st asked \<Longrightarrow> explorer local overview_of listing (loadMore st) asked"
| more_answered: "explorer local overview_of listing st asked \<Longrightarrow> (p, query, c) \<in> set (rl_sentMore st) \<Longrightarrow>
    explorer local overview_of listing (more_answer (Inr (listing p query (Some c))) st) asked"
| more_failed: "explorer local overview_of listing st asked \<Longrightarrow> explorer local overview_of listing (more_answer (Inl e) st) asked"

text \<open>The page says no reproach about the range: a preset is chosen, or the custom range had no message.\<close>

definition range_fine :: "runtime_page \<Rightarrow> bool" where
  "range_fine st \<longleftrightarrow> rl_preset st \<noteq> ''custom'' \<or> rl_windowError st = None"

text \<open>The last request asked for what is on display.\<close>

definition asked_shown :: "(string \<Rightarrow> int option) \<Rightarrow> asked \<Rightarrow> runtime_params \<times> string \<Rightarrow> runtime_page \<Rightarrow> bool" where
  "asked_shown local asked pq st \<longleftrightarrow>
     (case asked of (now, range_key, start_text, end_text) \<Rightarrow>
        window_meant local now range_key start_text end_text (pm_window (fst pq))
      \<and> (range_fine st \<longrightarrow> range_key = rl_preset st \<and> pq = (baseParams (pm_window (fst pq)) st, rl_debouncedSearch st)))"

definition settled_ok :: "(runtime_params \<Rightarrow> runtime_overview) \<Rightarrow> runs_server \<Rightarrow> runtime_params \<times> string \<Rightarrow> runtime_page \<Rightarrow> bool" where
  "settled_ok overview_of listing pq st \<longleftrightarrow>
     (\<not> rl_loading st \<and> rl_error st = None \<longrightarrow>
        rl_overview st = Some (overview_of (fst pq)) \<and> (\<exists>rest. rl_runs st = fst (listing (fst pq) (snd pq) None) @ rest))"

definition explorer_inv :: "(string \<Rightarrow> int option) \<Rightarrow> (runtime_params \<Rightarrow> runtime_overview) \<Rightarrow> runs_server \<Rightarrow> runtime_page \<Rightarrow> asked \<Rightarrow> bool" where
  "explorer_inv local overview_of listing st asked \<longleftrightarrow>
     rl_requestSeq st = length (rl_sent st) \<and> rl_sent st \<noteq> []
     \<and> (\<forall>(p, q)\<in>set (rl_sent st). window_ok (pm_window p))
     \<and> asked_shown local asked (last (rl_sent st)) st
     \<and> settled_ok overview_of listing (last (rl_sent st)) st"

lemmas explorer_defs = explorer_inv_def settled_ok_def asked_shown_def range_fine_def baseParams_def

text \<open>A change of the controls leaves alone what was asked and answered.\<close>

definition untouched :: "runtime_page \<Rightarrow> runtime_page \<Rightarrow> bool" where
  "untouched st st' \<longleftrightarrow> rl_requestSeq st' = rl_requestSeq st \<and> rl_sent st' = rl_sent st \<and> rl_loading st' = rl_loading st
     \<and> rl_error st' = rl_error st \<and> rl_overview st' = rl_overview st \<and> rl_runs st' = rl_runs st \<and> rl_windowError st' = rl_windowError st"

lemma untouched_changes: "untouched st (set_control c st)" "untouched st (click_card d st)" "untouched st (timer_fired s st)"
  by ((cases c; simp add: untouched_def), (cases d; simp add: untouched_def), simp add: untouched_def timer_fired_def)

text \<open>A refresh after a change of what is shown.\<close>

lemma explorer_inv_refresh:
  assumes inv: "explorer_inv local overview_of listing st asked" and same: "untouched st st1"
  shows "explorer_inv local overview_of listing (refresh now local st1) (asked_after now st (refresh now local st1) asked)"
proof (cases rule: refresh_cases[of now local st1])
  case (1 e)
  then show ?thesis using assms by (auto simp: explorer_defs untouched_def asked_after_def)
next
  case (2 e w)
  then show ?thesis using assms by (auto simp: explorer_defs untouched_def asked_after_def)
qed

lemma explorer_inv_effect:
  assumes inv: "explorer_inv local overview_of listing st asked" and same: "untouched st (change st)"
  shows "explorer_inv local overview_of listing (with_effect now local change st)
    (asked_after now st (with_effect now local change st) asked)"
proof (cases "deps (change st) = deps st")
  case True
  then show ?thesis using assms by (auto simp: with_effect_def Let_def explorer_defs untouched_def deps_def asked_after_def)
next
  case False
  then show ?thesis using explorer_inv_refresh[OF assms] by (simp add: with_effect_def Let_def)
qed

lemma explorer_inv_opened:
  "explorer_inv local overview_of listing (refresh now local rl_initial)
     (now, rl_preset (refresh now local rl_initial), rl_customFrom (refresh now local rl_initial), rl_customTo (refresh now local rl_initial))"
  by (rule refresh_cases[of now local rl_initial]) (auto simp: explorer_defs rl_initial_def)

lemma explorer_keeps: "explorer local overview_of listing st asked \<Longrightarrow> explorer_inv local overview_of listing st asked"
proof (induction rule: explorer.induct)
  case (opened st' now)
  then show ?case by (simp only: explorer_inv_opened)
next
  case (button st asked st' now)
  moreover have "untouched st st" by (simp add: untouched_def)
  ultimately show ?case using explorer_inv_refresh by blast
next
  case (answer st asked p query seq)
  show ?case
  proof (cases "Suc seq = length (rl_sent st)")
    case True
    then have "last (rl_sent st) = (p, query)" using answer by (metis diff_Suc_1 last_conv_nth list.size(3) nat.distinct(1))
    then show ?thesis using answer.IH True
      by (cases "listing p query None") (simp add: explorer_defs refresh_answer_def)
  next
    case False
    then show ?thesis using answer by (simp add: explorer_inv_def refresh_answer_def)
  qed
next
  case (failure st asked seq e)
  then show ?case by (simp add: explorer_defs refresh_answer_def)
next
  case (more st asked)
  then show ?case by (simp add: explorer_defs loadMore_def split: option.split)
next
  case (more_answered st asked p query c)
  then show ?case by (cases "listing p query (Some c)") (auto simp: explorer_defs more_answer_def)
next
  case (more_failed st asked e)
  then show ?case by (simp add: explorer_defs more_answer_def)
next
  case (control st asked st' now c)
  show ?case unfolding control(2) by (intro explorer_inv_effect untouched_changes control.IH)
next
  case (card st asked st' now d)
  show ?case unfolding card(2) by (intro explorer_inv_effect untouched_changes card.IH)
next
  case (timer st asked st' now)
  show ?case unfolding timer(2) by (intro explorer_inv_effect untouched_changes timer.IH)
qed

text \<open>C21: the map matches the filters: under any order of clicks and answers, once nothing is loading, no error is
  shown and, for a custom range, no message about the range, the overview on display is the server's answer
  to the filters on display and to the window that the range on display stood for when it was last
  asked for: the span of the preset before that time, the back end's last hour, or the two times
  that were typed then, in order and at most a week apart. The list of runs begins with the first
  page for the same filters, window and searched id.\<close>

theorem map_matches_filters:
  assumes "explorer local overview_of listing st (now, range_key, start_text, end_text)"
    and "\<not> rl_loading st" and "rl_error st = None" and "rl_preset st = ''custom'' \<longrightarrow> rl_windowError st = None"
  shows "\<exists>w. window_meant local now (rl_preset st) start_text end_text w
    \<and> rl_overview st = Some (overview_of (baseParams w st))
    \<and> (\<exists>rest. rl_runs st = fst (listing (baseParams w st) (rl_debouncedSearch st) None) @ rest)"
proof -
  obtain p q where l: "last (rl_sent st) = (p, q)" by fastforce
  have "range_fine st" using assms(4) by (auto simp: range_fine_def)
  with explorer_keeps[OF assms(1), unfolded explorer_inv_def l asked_shown_def prod.case fst_conv]
  have "window_meant local now range_key start_text end_text (pm_window p)" and key: "range_key = rl_preset st"
    and p: "p = baseParams (pm_window p) st" and q: "q = rl_debouncedSearch st" and "settled_ok overview_of listing (p, q) st"
    by blast+
  then have "window_meant local now (rl_preset st) start_text end_text (pm_window p)" "rl_overview st = Some (overview_of p)"
    "\<exists>rest. rl_runs st = fst (listing p (rl_debouncedSearch st) None) @ rest"
    using assms(2,3) by (simp_all only: settled_ok_def fst_conv snd_conv simp_thms)
  then show ?thesis using p by metis
qed

text \<open>No request asks for more than seven days: whatever is chosen or typed, every window that is sent is the back end's default,
  or starts before it ends and spans at most seven days.\<close>

theorem windows_bounded:
  assumes "explorer local overview_of listing st asked" and "(p, query) \<in> set (rl_sent st)" and "pm_window p = Some (a, b)"
  shows "a < b \<and> b - a \<le> 604800000"
  using explorer_keeps[OF assms(1)] assms(2,3) by (force simp: explorer_inv_def window_ok_def MAX_WINDOW_MS_def)

section \<open>The map can always be drawn\<close>

lemma filter_closed: "closed_graph g \<Longrightarrow> closed_graph (filterWorkspaceLineage g flt)"
  using allowed_ids_subset[of g flt]
  by (auto simp: filterWorkspaceLineage_def Let_def closed_graph_def edge_rel_def node_ids_def distinct_map_filter)

lemma filter_nodes: "set (wl_nodes (filterWorkspaceLineage g flt)) \<subseteq> set (wl_nodes g)"
  by (auto simp: filterWorkspaceLineage_def Let_def)

lemma active_part_closed:
  assumes "distinct (map (\<lambda>n. ln_id (rt_node n)) nodes)"
  shows "closed_graph (as_graph (active_part nodes edges))"
proof -
  let ?ids = "\<lambda>ns. (\<lambda>n. ln_id (rt_node n)) ` set ns"
  have "\<exists>P. active_part nodes edges
      = (filter P nodes, filter (\<lambda>e. le_source e \<in> ?ids (filter P nodes) \<and> le_target e \<in> ?ids (filter P nodes)) edges)"
    unfolding active_part_def Let_def set_set_from set_map by (rule exI) (rule refl)
  then obtain P where "active_part nodes edges
      = (filter P nodes, filter (\<lambda>e. le_source e \<in> ?ids (filter P nodes) \<and> le_target e \<in> ?ids (filter P nodes)) edges)" by blast
  moreover have "distinct (map (\<lambda>n. ln_id (rt_node n)) (filter P nodes))" using assms by (rule distinct_map_filter)
  ultimately show ?thesis by (auto simp: closed_graph_def as_graph_def edge_rel_def node_ids_def comp_def image_image)
qed

lemma active_part_pipelines:
  assumes "distinct (map (\<lambda>n. ln_id (rt_node n)) nodes)" and "n \<in> set (fst (active_part nodes edges))" and "is_pipeline (rt_node n)"
  shows "n \<in> set nodes \<and> runs_of n > 0"
proof -
  have "\<not> is_asset (rt_node n)" using assms(3) by (cases "rt_node n") auto
  then obtain m where m: "m \<in> set nodes" "runs_of m > 0" "ln_id (rt_node m) = ln_id (rt_node n)" and n: "n \<in> set nodes"
    using assms(2) by (auto simp: active_part_def Let_def)
  then have "m = n" using assms(1) by (auto simp: distinct_map dest: inj_onD)
  with m n show ?thesis by simp
qed

text \<open>The map can always be drawn: with one node per id in the overview, and either only the active part
  or no edge that leaves the overview, the layout returns with one card for each node that the filters leave, every
  line joins two of these cards, and \<open>Active only\<close> leaves no pipeline without a run in the window.\<close>

theorem map_drawn:
  assumes "rl_overview st = Some ov" and "distinct (map (\<lambda>n. ln_id (rt_node n)) (ov_nodes ov))"
    and "rl_activeOnly st \<or> edge_rel (ov_edges ov) \<subseteq> (\<lambda>n. ln_id (rt_node n)) ` set (ov_nodes ov) \<times> (\<lambda>n. ln_id (rt_node n)) ` set (ov_nodes ov)"
  shows "\<exists>g cards lines. filteredGraph st = Some g \<and> flow st = Some (cards, lines) \<and> map fc_id cards = map ln_id (wl_nodes g)
    \<and> (\<forall>l\<in>set lines. fl_source l \<in> fc_id ` set cards \<and> fl_target l \<in> fc_id ` set cards)
    \<and> (\<forall>n\<in>set (wl_nodes g). rl_activeOnly st \<and> is_pipeline n \<longrightarrow> (\<exists>r\<in>set (ov_nodes ov). rt_node r = n \<and> runs_of r > 0))"
proof -
  let ?g = "as_graph (if rl_activeOnly st then active_part (ov_nodes ov) (ov_edges ov) else (ov_nodes ov, ov_edges ov))"
  have closed: "closed_graph ?g"
    using active_part_closed[OF assms(2)] assms(2,3) by (auto simp: closed_graph_def as_graph_def node_ids_def comp_def image_image)
  obtain g where g: "filteredGraph st = Some g" "closed_graph g" "set (wl_nodes g) \<subseteq> set (wl_nodes ?g)"
    using assms(1) filter_closed[OF closed] filter_nodes closed by (auto simp: filteredGraph_def Let_def)
  define health metrics where "health = healthById (rl_overview st)"
    and "metrics = (\<lambda>i. Option.bind (rl_overview st) (\<lambda>ov. Option.bind (find (\<lambda>n. ln_id (rt_node n) = i) (ov_nodes ov)) rt_metrics))"
  obtain rank cards lines where b: "buildFlow g health metrics = Some (cards, lines)" "map fc_id cards = map ln_id (wl_nodes g)"
    "lines = map (line_of health) (wl_edges g)"
    by (rule buildFlow_cards[OF g(2), of health metrics])
  have "fc_id ` set cards = node_ids g" using arg_cong[OF b(2), of set] by (simp add: node_ids_def)
  then have "\<forall>l\<in>set lines. fl_source l \<in> fc_id ` set cards \<and> fl_target l \<in> fc_id ` set cards"
    using g(2) b(3) by (auto simp: closed_graph_def edge_rel_def line_of_def)
  moreover have "\<exists>r\<in>set (ov_nodes ov). rt_node r = n \<and> runs_of r > 0" if n: "n \<in> set (wl_nodes g)" "rl_activeOnly st" "is_pipeline n" for n
  proof -
    obtain r where r: "r \<in> set (fst (active_part (ov_nodes ov) (ov_edges ov)))" "rt_node r = n"
      using g(3) n by (auto simp: as_graph_def)
    then show ?thesis using active_part_pipelines[OF assms(2) r(1)] n(3) by auto
  qed
  moreover have "flow st = Some (cards, lines)" using g(1) b(1) by (simp add: flow_def health_def metrics_def)
  ultimately show ?thesis using g(1) b(2) by blast
qed

section \<open>What the page gets wrong\<close>

text \<open>Load more under way, another status, its list, then the late page of the old status: the lists are mixed.\<close>

lemma late_runs_mix:
  fixes st now local s
  defines "st1 \<equiv> with_effect now local (set_control (Status s)) (loadMore st)"
  assumes "rl_nextCursor st = Some c" and "c \<noteq> []" and "s \<noteq> rl_status st" and "rl_preset st \<noteq> ''custom''"
  shows "rl_runs (more_answer (Inr (late, c')) (refresh_answer (rl_requestSeq st1) (Inr (ov, rows, c'')) st1)) = rows @ late
    \<and> pm_status (fst (last (rl_sentMore st1))) = rl_status st \<and> pm_status (fst (last (rl_sent st1))) = s"
proof -
  have "deps (set_control (Status s) (loadMore st)) \<noteq> deps (loadMore st)"
    using assms(2-4) by (simp add: deps_def loadMore_def truthy_def)
  then have r: "st1 = refresh now local (set_control (Status s) (loadMore st))" by (simp add: st1_def with_effect_def Let_def)
  show ?thesis
  proof (cases rule: refresh_cases[of now local "set_control (Status s) (loadMore st)"])
    case (1 e)
    then show ?thesis using assms(2,3,5) by (simp add: loadMore_def truthy_def)
  next
    case (2 e w)
    then show ?thesis using r assms(2,3) by (simp add: more_answer_def refresh_answer_def loadMore_def truthy_def baseParams_def)
  qed
qed

text \<open>The message about a wrong custom range stays when a preset is chosen instead.\<close>

lemma stale_window_error:
  "p \<noteq> ''custom'' \<Longrightarrow> rl_windowError (with_effect now local (set_control (Preset p)) st) = rl_windowError st"
  by (simp add: with_effect_def refresh_def windowParams_def baseParams_def Let_def split: prod.split)

text \<open>While the custom range is incomplete, a filter is shown as chosen but nothing is asked for: with the message about
  the range the page shows the former map and list, and neither a loading mark nor an error.\<close>

lemma filter_without_request:
  fixes st now local s
  defines "st' \<equiv> with_effect now local (set_control (Environment s)) st"
  assumes "rl_preset st = ''custom''" and "rl_customFrom st = []"
  shows "rl_environment st' = s \<and> rl_sent st' = rl_sent st \<and> rl_overview st' = rl_overview st \<and> rl_runs st' = rl_runs st
    \<and> rl_loading st' = rl_loading st \<and> rl_error st' = rl_error st"
  using assms by (simp add: with_effect_def refresh_def windowParams_def Let_def)

section \<open>Instances\<close>

definition no_overview :: runtime_overview where
  "no_overview = \<lparr>ov_nodes = [], ov_edges = [],
     ov_stats = \<lparr>rs_runs = 0, rs_failed = 0, rs_running = 0, rs_activePipelines = 0, rs_pipelines = 0\<rparr>\<rparr>"

definition first_answer :: runtime_page where
  "first_answer = refresh_answer 1 (Inr (no_overview, [], None)) (refresh 0 (\<lambda>_. None) rl_initial)"

lemma first_request:
  "rl_sent (refresh 0 (\<lambda>_. None) rl_initial) = [(\<lparr>pm_window = None, pm_environment = '''', pm_status = '''', pm_pipeline = '''',
     pm_layer = ''''\<rparr>, '''')]"
  by (simp add: refresh_def windowParams_def rl_initial_def PRESETS_def baseParams_def)

lemma first_answer_reached: "explorer (\<lambda>_. None) (\<lambda>_. no_overview) (\<lambda>_ _ _. ([], None)) first_answer (0, ''1h'', '''', '''')"
proof -
  let ?st = "refresh 0 (\<lambda>_. None) rl_initial"
  have "explorer (\<lambda>_. None) (\<lambda>_. no_overview) (\<lambda>_ _ _. ([], None)) (refresh_answer (Suc 0) (Inr (no_overview, [], None)) ?st)
      (0, rl_preset ?st, rl_customFrom ?st, rl_customTo ?st)"
    by (rule explorer.answer[OF explorer.opened[OF refl], of "fst (rl_sent ?st ! 0)" "snd (rl_sent ?st ! 0)"]) (simp_all add: first_request)
  moreover have "rl_preset ?st = ''1h'' \<and> rl_customFrom ?st = '''' \<and> rl_customTo ?st = ''''"
    by (simp add: refresh_def windowParams_def rl_initial_def PRESETS_def)
  ultimately show ?thesis by (simp add: first_answer_def)
qed

lemma first_answer_state: "\<not> rl_loading first_answer" "rl_error first_answer = None" "rl_preset first_answer = ''1h''"
  "rl_overview first_answer = Some no_overview" "rl_activeOnly first_answer"
  "rl_sent first_answer = rl_sent (refresh 0 (\<lambda>_. None) rl_initial)"
  by (simp_all add: first_answer_def refresh_answer_def refresh_def windowParams_def rl_initial_def PRESETS_def baseParams_def)

definition last_week :: runtime_page where
  "last_week = with_effect 1714521600000 (\<lambda>_. None) (set_control (Preset ''7d'')) first_answer"

lemma last_week_sent: "map (pm_window \<circ> fst) (rl_sent last_week) = [None, Some (1713916800000, 1714521600000)]"
  by (simp add: last_week_def with_effect_def Let_def deps_def first_answer_def refresh_answer_def rl_initial_def refresh_def windowParams_def PRESETS_def baseParams_def)

lemma second_of_two: "map (f \<circ> fst) xs = [a, b] \<Longrightarrow> \<exists>p q. (p, q) \<in> set xs \<and> f p = b"
  by force

lemma last_week_reached: "explorer (\<lambda>_. None) (\<lambda>_. no_overview) (\<lambda>_ _ _. ([], None)) last_week (1714521600000, ''7d'', '''', '''')"
proof -
  have "explorer (\<lambda>_. None) (\<lambda>_. no_overview) (\<lambda>_ _ _. ([], None)) last_week
      (asked_after 1714521600000 first_answer last_week (0, ''1h'', '''', ''''))"
    using explorer.control[OF first_answer_reached refl, of 1714521600000 "Preset ''7d''"] by (simp only: last_week_def)
  moreover have "asked_after 1714521600000 first_answer last_week (0, ''1h'', '''', '''') = (1714521600000, ''7d'', '''', '''')"
    by (simp add: asked_after_def last_week_def with_effect_def Let_def deps_def first_answer_def refresh_answer_def rl_initial_def refresh_def
        windowParams_def PRESETS_def baseParams_def)
  ultimately show ?thesis by simp
qed

text \<open>The last week is chosen and answered: the window of the map is the week before the request.\<close>

theorem map_matches_filters_witness:
  "\<exists>w. window_meant (\<lambda>_. None) 1714521600000 ''7d'' '''' '''' w
    \<and> rl_overview (refresh_answer (Suc 1) (Inr (no_overview, [], None)) last_week) = Some no_overview
    \<and> w = Some (1713916800000, 1714521600000)"
proof -
  let ?st = "refresh_answer (Suc 1) (Inr (no_overview, [], None)) last_week"
  have len: "length (rl_sent last_week) = 2" using arg_cong[OF last_week_sent, of length] by simp
  have "explorer (\<lambda>_. None) (\<lambda>_. no_overview) (\<lambda>_ _ _. ([], None)) ?st (1714521600000, ''7d'', '''', '''')"
    by (rule explorer.answer[OF last_week_reached, of "fst (rl_sent last_week ! 1)" "snd (rl_sent last_week ! 1)"]) (simp_all add: len)
  moreover have "\<not> rl_loading ?st" "rl_error ?st = None" "rl_preset ?st = ''7d''"
    by (simp_all add: last_week_def with_effect_def Let_def deps_def first_answer_def refresh_answer_def rl_initial_def refresh_def
        windowParams_def PRESETS_def baseParams_def)
  ultimately show ?thesis
    using map_matches_filters[of "\<lambda>_. None" "\<lambda>_. no_overview" "\<lambda>_ _ _. ([], None)" ?st 1714521600000 "''7d''" "''''" "''''"]
    by (simp add: window_meant_def SPANS_def)
qed

theorem windows_bounded_witness: "(1713916800000 :: int) < 1714521600000 \<and> 1714521600000 - 1713916800000 \<le> (604800000 :: int)"
proof -
  obtain p q where "(p, q) \<in> set (rl_sent last_week)" "pm_window p = Some (1713916800000, 1714521600000)"
    using second_of_two[OF last_week_sent] by (elim exE conjE) simp
  moreover note last_week_reached
  ultimately show ?thesis using windows_bounded by blast
qed

theorem map_drawn_witness: "\<exists>cards lines. flow first_answer = Some (cards, lines)"
  using map_drawn[of first_answer no_overview] by (auto simp: first_answer_state no_overview_def)

end
