(* ===== verification/ArchitectureLineage.thy ===== *)
theory ArchitectureLineage
  imports LineageFlow LineageDiff PageText FlowConvert
begin

text \<open>
  The saved graph of the workspace, \<open>apps/web/src/pages/ArchitectureLineage.tsx\<close>: its filters, the
  impact analysis around the selected node, and the loading; and the history of changes of
  \<open>apps/web/src/pages/LineagePage.tsx\<close>.

  The cards and lines are those of theory LineageFlow. The queue of a walk is its unread rest. The order
  of texts is that of their characters.
\<close>

section \<open>State\<close>

datatype health_answer = Monitored "(string \<times> pipeline_health) list" | NotMonitored

record architecture_page =
  ar_graph :: "workspace_lineage option"
  ar_healthById :: "(string \<times> pipeline_health) list"
  ar_environment :: string
  ar_healthFilter :: string
  ar_domainFilter :: string
  ar_search :: string
  ar_debouncedSearch :: string
  ar_selectedId :: "string option"
  ar_focusDepth :: int
  ar_loading :: bool
  ar_error :: "string option"
  ar_sent :: "string option list"

definition ar_initial :: architecture_page where
  "ar_initial = \<lparr>ar_graph = None, ar_healthById = [], ar_environment = '''', ar_healthFilter = '''', ar_domainFilter = '''',
     ar_search = '''', ar_debouncedSearch = '''', ar_selectedId = None, ar_focusDepth = 0, ar_loading = True, ar_error = None,
     ar_sent = []\<rparr>"

text \<open>A refresh asks for the lineage of the environment and for the monitoring of a week; a failure of
  the second counts as no pipelines.\<close>

definition refresh :: "architecture_page \<Rightarrow> architecture_page" where
  "refresh st = st\<lparr>ar_loading := True, ar_error := None, ar_sent := ar_sent st @ [truthy (Some (ar_environment st))]\<rparr>"

definition refresh_answer :: "string option + (workspace_lineage \<times> health_answer) \<Rightarrow> architecture_page \<Rightarrow> architecture_page" where
  "refresh_answer out st =
     (case out of
        Inr (lineage, monitoring) \<Rightarrow>
          st\<lparr>ar_graph := Some lineage,
             ar_healthById := map_from (case monitoring of Monitored ps \<Rightarrow> ps | NotMonitored \<Rightarrow> []), ar_loading := False\<rparr>
      | Inl e \<Rightarrow> st\<lparr>ar_error := Some (nullish e ''Failed to load lineage''), ar_loading := False\<rparr>)"

definition setEnvironment :: "string \<Rightarrow> architecture_page \<Rightarrow> architecture_page" where
  "setEnvironment s st =
     (let st' = st\<lparr>ar_environment := s\<rparr> in if s \<noteq> ar_environment st then refresh st' else st')"

definition setHealthFilter :: "string \<Rightarrow> architecture_page \<Rightarrow> architecture_page" where
  "setHealthFilter s st = st\<lparr>ar_healthFilter := s, ar_selectedId := None\<rparr>"

definition setDomainFilter :: "string \<Rightarrow> architecture_page \<Rightarrow> architecture_page" where
  "setDomainFilter s st = st\<lparr>ar_domainFilter := s, ar_selectedId := None\<rparr>"

definition setSearch :: "string \<Rightarrow> architecture_page \<Rightarrow> architecture_page" where
  "setSearch s st = st\<lparr>ar_search := s, ar_selectedId := None\<rparr>"

definition timer_fired :: "architecture_page \<Rightarrow> architecture_page" where
  "timer_fired st = st\<lparr>ar_debouncedSearch := js_trim (ar_search st)\<rparr>"

definition setFocusDepth :: "int \<Rightarrow> architecture_page \<Rightarrow> architecture_page" where
  "setFocusDepth d st = st\<lparr>ar_focusDepth := d\<rparr>"

definition select :: "string option \<Rightarrow> architecture_page \<Rightarrow> architecture_page" where
  "select i st = st\<lparr>ar_selectedId := i\<rparr>"

definition clearFilters :: "architecture_page \<Rightarrow> architecture_page" where
  "clearFilters st =
     (setEnvironment '''' st)\<lparr>ar_healthFilter := '''', ar_domainFilter := '''', ar_search := '''', ar_debouncedSearch := '''',
        ar_focusDepth := 0, ar_selectedId := None\<rparr>"

definition activeFilterCount :: "architecture_page \<Rightarrow> nat" where
  "activeFilterCount st =
     length (filter id [ar_environment st \<noteq> [], ar_healthFilter st \<noteq> [], ar_domainFilter st \<noteq> [], js_trim (ar_search st) \<noteq> [],
       ar_focusDepth st \<noteq> 0 \<and> truthy (ar_selectedId st) \<noteq> None])"

section \<open>What is drawn\<close>

fun text_less :: "string \<Rightarrow> string \<Rightarrow> bool" where
  "text_less _ [] = False"
| "text_less [] (_ # _) = True"
| "text_less (a # as) (b # bs) =
     ((of_char a :: nat) < of_char b \<or> (a = b \<and> text_less as bs))"

definition domains :: "architecture_page \<Rightarrow> string list" where
  "domains st =
     sort_with text_less (set_from (map (\<lambda>n. nullish (Option.bind (v_metadata (ln_pipeline n)) md_domain) ''Unassigned'')
       (filter is_pipeline (case ar_graph st of Some g \<Rightarrow> wl_nodes g | None \<Rightarrow> []))))"

definition page_filter :: "architecture_page \<Rightarrow> lineage_filter" where
  "page_filter st =
     \<lparr>lf_query = Some (ar_debouncedSearch st), lf_domains = (if ar_domainFilter st \<noteq> [] then Some [ar_domainFilter st] else None),
      lf_layers = None, lf_focusId = (if ar_focusDepth st \<noteq> 0 then truthy (ar_selectedId st) else None),
      lf_depth = Some (ar_focusDepth st)\<rparr>"

definition filteredGraph :: "architecture_page \<Rightarrow> workspace_lineage option" where
  "filteredGraph st = map_option (\<lambda>g. filterWorkspaceLineage g (page_filter st)) (ar_graph st)"

type_synonym drawing = "flow_card list \<times> flow_line list"

definition flow :: "architecture_page \<Rightarrow> drawing option" where
  "flow st =
     (case filteredGraph st of
        None \<Rightarrow> Some ([], [])
      | Some g \<Rightarrow> buildFlow g (ar_healthById st) (\<lambda>_. None))"

text \<open>\<open>node.data.health\<close>: an asset has none, an external job is unmonitored.\<close>

fun card_health :: "card \<Rightarrow> string option" where
  "card_health (PipelineCard p h m) = Some (ph_health h)"
| "card_health (JobCard j m) = Some ''unmonitored''"
| "card_health (AssetCard a l mt q m) = None"

text \<open>The loop over the lines reads the set that it extends.\<close>

definition spread :: "flow_line \<Rightarrow> string list \<Rightarrow> string list" where
  "spread l matched =
     (if fl_source l \<in> set matched \<or> fl_target l \<in> set matched then set_add (fl_target l) (set_add (fl_source l) matched) else matched)"

definition health_matches :: "string \<Rightarrow> drawing \<Rightarrow> string list" where
  "health_matches health d =
     fold spread (snd d) (set_from (map fc_id (filter (\<lambda>c. card_health (fc_data c) = Some health) (fst d))))"

definition visible :: "string \<Rightarrow> drawing \<Rightarrow> drawing" where
  "visible health d =
     (if health = [] then d
      else let matched = health_matches health d in
        (filter (\<lambda>c. fc_id c \<in> set matched) (fst d),
         filter (\<lambda>l. fl_source l \<in> set matched \<and> fl_target l \<in> set matched) (snd d)))"

section \<open>Impact\<close>

definition discover :: "string \<Rightarrow> string list \<times> string list \<Rightarrow> string list \<times> string list" where
  "discover next st = (case st of (found, queue) \<Rightarrow> if next \<in> set found then st else (found @ [next], queue @ [next]))"

lemma discover_all:
  "\<exists>new. fold discover ts (found, queue) = (found @ new, queue @ new) \<and> set new = set ts - set found"
proof (induction ts arbitrary: found queue)
  case (Cons t ts)
  show ?case
  proof (cases "t \<in> set found")
    case True
    then show ?thesis using Cons.IH[of found queue] by (auto simp: discover_def)
  next
    case False
    from Cons.IH[of "found @ [t]" "queue @ [t]"] False show ?thesis by (auto simp: discover_def)
  qed
qed simp

function walk_loop :: "(string \<times> string list) list \<Rightarrow> string list \<Rightarrow> string list \<Rightarrow> string list" where
  "walk_loop adj [] found = found"
| "walk_loop adj (i # queue) found =
     (let st = fold discover (multi_get adj i) (found, queue) in walk_loop adj (snd st) (fst st))"
  by pat_completeness auto

termination walk_loop
proof (relation "measures [\<lambda>(adj, _, found). card (\<Union> (set ` snd ` set adj) - set found), \<lambda>(_, queue, _). length queue]", goal_cases)
  case (2 adj i queue found st)
  let ?U = "\<Union> (set ` snd ` set adj)"
  obtain new where new: "st = (found @ new, queue @ new)" "set new = set (multi_get adj i) - set found"
    using discover_all[of "multi_get adj i" found queue] 2 by metis
  show ?case
  proof (cases new)
    case Nil
    then show ?thesis using new by simp
  next
    case (Cons n ns)
    then have "n \<in> ?U - set found" using new(2) multi_get_values[of adj i] by auto
    then have "card (?U - set (found @ new)) < card (?U - set found)"
      using Cons by (intro psubset_card_mono) auto
    then show ?thesis using new(1) by simp
  qed
qed simp

text \<open>\<open>walk(reverse)\<close> over the lines, without the root.\<close>

definition walk :: "(string \<times> string list) list \<Rightarrow> string \<Rightarrow> string list" where
  "walk adj root = filter (\<lambda>i. i \<noteq> root) (walk_loop adj [root] [root])"

definition line_sources :: "flow_line list \<Rightarrow> (string \<times> string list) list" where
  "line_sources ls = fold (\<lambda>l. multi_add (fl_target l) (fl_source l)) ls []"

definition line_targets :: "flow_line list \<Rightarrow> (string \<times> string list) list" where
  "line_targets ls = fold (\<lambda>l. multi_add (fl_source l) (fl_target l)) ls []"

text \<open>The cards and lines with what the analysis sets: opacities in hundredths, the width of a line in quarters.\<close>

record impact =
  im_cards :: "(flow_card \<times> nat option) list"
  im_lines :: "(flow_line \<times> (nat \<times> nat) option) list"
  im_upstream :: "string list"
  im_downstream :: "string list"

definition impact_of :: "string option \<Rightarrow> drawing \<Rightarrow> impact" where
  "impact_of selected d =
     (case truthy selected of
        Some root \<Rightarrow>
          if root \<in> fc_id ` set (fst d) then
            let upstream = walk (line_sources (snd d)) root; downstream = walk (line_targets (snd d)) root;
                active = set_from (root # upstream @ downstream)
            in \<lparr>im_cards = map (\<lambda>c. (c, Some (if fc_id c \<in> set active then 100 else 18))) (fst d),
                im_lines = map (\<lambda>l. (l, Some (if fl_source l \<in> set active \<and> fl_target l \<in> set active then (100, 9) else (12, 4)))) (snd d),
                im_upstream = upstream, im_downstream = downstream\<rparr>
          else \<lparr>im_cards = map (\<lambda>c. (c, None)) (fst d), im_lines = map (\<lambda>l. (l, None)) (snd d), im_upstream = [], im_downstream = []\<rparr>
      | None \<Rightarrow> \<lparr>im_cards = map (\<lambda>c. (c, None)) (fst d), im_lines = map (\<lambda>l. (l, None)) (snd d), im_upstream = [], im_downstream = []\<rparr>)"

definition atRisk :: "drawing \<Rightarrow> impact \<Rightarrow> nat" where
  "atRisk d im =
     length (filter (\<lambda>i. Option.bind (map_of (map_from (map (\<lambda>c. (fc_id c, c)) (fst d))) i) (\<lambda>c. card_health (fc_data c)) = Some ''critical'')
       (im_downstream im))"

definition selected_card :: "string option \<Rightarrow> drawing \<Rightarrow> flow_card option" where
  "selected_card selected d = find (\<lambda>c. Some (fc_id c) = selected) (fst d)"

definition selectedColumns :: "architecture_page \<Rightarrow> flow_card option \<Rightarrow> column_edge list" where
  "selectedColumns st selected =
     (case map_option fc_data selected of
        Some (AssetCard a l mt q m) \<Rightarrow>
          filter (\<lambda>e. co_sourceAssetUrn e = a_urn a \<or> co_targetAssetUrn e = a_urn a)
            (case filteredGraph st of Some g \<Rightarrow> wl_columnEdges g | None \<Rightarrow> [])
      | _ \<Rightarrow> [])"

section \<open>Texts of the panel\<close>

text \<open>A subtitle, the three counts, and the lines below them.\<close>

fun card_subtitle :: "card \<Rightarrow> string" where
  "card_subtitle (PipelineCard p h m) = ''Pipeline'' @ u_dot @ v_environment p"
| "card_subtitle (JobCard j m) = ''External job'' @ u_dot @ x_environment j"
| "card_subtitle (AssetCard a l mt q m) = a_platform a @ u_dot @ a_namespace a"

fun card_title :: "card \<Rightarrow> string" where
  "card_title (PipelineCard p h m) = v_name p"
| "card_title (JobCard j m) = x_name j"
| "card_title (AssetCard a l mt q m) = a_name a"

fun card_details :: "locale_formats \<Rightarrow> card \<Rightarrow> string list" where
  "card_details lc (PipelineCard p h m) =
     (case truthy (Option.bind (v_metadata p) md_owner) of Some w \<Rightarrow> [''Owner'' @ u_dot @ w] | None \<Rightarrow> [])
     @ [ph_health h] @ map br_message (nullish (ph_breaches h) [])
     @ (case truthy (ph_last_execution_id h) of
          Some _ \<Rightarrow> [''Open latest run'' @ u_dot @ nullish (ph_last_phase h) ''''] | None \<Rightarrow> [])"
| "card_details lc (JobCard j m) = [''Last observed '' @ lc_dateTime lc (x_eventTime j)]"
| "card_details lc (AssetCard a l mt q m) =
     (case mt of
        Some x \<Rightarrow> [''Last materialization'', lc_dateTime lc (m_materializedAt x)
          @ (case m_recordCount x of Some c \<Rightarrow> u_dot @ lc_number lc c @ '' rows'' | None \<Rightarrow> ''''), ''Open producing run'']
      | None \<Rightarrow> [])
     @ (case q of
          Some r \<Rightarrow> [''Data quality'' @ u_dot @ q_status r,
            lc_number lc (q_passedCount r) @ '' passed'' @ u_dot @ lc_number lc (q_failedCount r) @ '' rejected''
              @ (if q_quarantineAvailable r = Some True then u_dot @ ''quarantined'' else ''''), ''Open quality run'']
        | None \<Rightarrow> [])
     @ (case nullish (a_schema a) [] of
          [] \<Rightarrow> []
        | fs \<Rightarrow> [''Contract fields'', join u_dot (map (\<lambda>f. cf_name f @ '': '' @ cf_type f @ (if cf_nullable f = Some True then ''?'' else '''')) (take 8 fs))])"

definition panel_lines :: "locale_formats \<Rightarrow> drawing \<Rightarrow> impact \<Rightarrow> flow_card \<Rightarrow> column_edge list \<Rightarrow> string list" where
  "panel_lines lc d im c columns =
     [card_title (fc_data c), card_subtitle (fc_data c), nat_str (length (im_upstream im)), ''Upstream'',
      nat_str (length (im_downstream im)), ''Downstream'', nat_str (atRisk d im), ''At risk'']
     @ card_details lc (fc_data c)
     @ (if columns \<noteq> [] then ''Column lineage'' # map (\<lambda>e. co_sourceField e @ '' '' @ u_arrow @ '' '' @ co_targetField e) (take 20 columns) else [])"

definition count_line :: "workspace_lineage \<Rightarrow> drawing \<Rightarrow> string" where
  "count_line g d = nat_str (length (fst d)) @ ''/'' @ nat_str (length (wl_nodes g)) @ '' nodes'' @ u_dot @ nat_str (length (snd d)) @ '' links''"

section \<open>The history of changes\<close>

record history_item =
  hi_rowId :: string
  hi_name :: string
  hi_environment :: string
  hi_fromVersion :: "int option"
  hi_toVersion :: int
  hi_createdAt :: string
  hi_breaking :: int
  hi_warning :: int
  hi_info :: int
  hi_changes :: "lineage_change list"

record changes_tab =
  ch_environment :: string
  ch_items :: "history_item list"
  ch_loading :: bool
  ch_error :: "string option"
  ch_sent :: "string option list"

definition ch_refresh :: "string \<Rightarrow> changes_tab \<Rightarrow> changes_tab" where
  "ch_refresh env st = st\<lparr>ch_loading := True, ch_error := None, ch_sent := ch_sent st @ [truthy (Some env)]\<rparr>"

definition ch_answer :: "string option + history_item list \<Rightarrow> changes_tab \<Rightarrow> changes_tab" where
  "ch_answer out st =
     (case out of
        Inr items \<Rightarrow> st\<lparr>ch_items := items, ch_loading := False\<rparr>
      | Inl e \<Rightarrow> st\<lparr>ch_error := Some (nullish e ''Failed to load lineage changes''), ch_loading := False\<rparr>)"

definition ch_setEnvironment :: "string \<Rightarrow> changes_tab \<Rightarrow> changes_tab" where
  "ch_setEnvironment s st = (let st' = st\<lparr>ch_environment := s\<rparr> in if s \<noteq> ch_environment st then ch_refresh s st' else st')"

definition history_lines :: "(string \<Rightarrow> string) \<Rightarrow> history_item \<Rightarrow> string list" where
  "history_lines locale_date i =
     [hi_name i,
      (if hi_environment i = ''prod'' then ''Production'' else ''Integration'') @ '' '' @ u_middot @ '' ''
        @ (case hi_fromVersion i of None \<Rightarrow> ''Created'' | Some v \<Rightarrow> ''v'' @ int_str v @ '' '' @ u_arrow @ '' v'' @ int_str (hi_toVersion i)),
      locale_date (hi_createdAt i)]
     @ concat (map (\<lambda>(n, w). if n > 0 then [int_str n @ '' '' @ w] else [])
         [(hi_breaking i, ''breaking''), (hi_warning i, ''warning''), (hi_info i, ''info'')])
     @ map lc_message (take 4 (hi_changes i))
     @ (if length (hi_changes i) > 4 then [''+'' @ nat_str (length (hi_changes i) - 4) @ '' more''] else [])"

section \<open>The impact analysis is exact\<close>

lemma walk_loop_contains: "set found \<subseteq> set (walk_loop adj queue found)"
proof (induction adj queue found rule: walk_loop.induct)
  case (2 adj i queue found)
  then show ?case using discover_all[of "multi_get adj i" found queue] by (auto simp: Let_def)
qed simp

lemma walk_loop_closed:
  "set queue \<subseteq> set found \<Longrightarrow> \<forall>x\<in>set found. x \<in> set queue \<or> set (multi_get adj x) \<subseteq> set found \<Longrightarrow>
   \<forall>x\<in>set (walk_loop adj queue found). set (multi_get adj x) \<subseteq> set (walk_loop adj queue found)"
proof (induction adj queue found rule: walk_loop.induct)
  case (2 adj i queue found)
  obtain new where new: "fold discover (multi_get adj i) (found, queue) = (found @ new, queue @ new)" "set new = set (multi_get adj i) - set found"
    using discover_all by blast
  have "\<forall>x\<in>set (found @ new). x \<in> set (queue @ new) \<or> set (multi_get adj x) \<subseteq> set (found @ new)"
    using 2(3) new(2) by auto
  moreover have "set (queue @ new) \<subseteq> set (found @ new)" using 2(2) by auto
  ultimately show ?case using 2(1)[OF refl] new(1) by (simp del: set_append)
qed simp

lemma walk_loop_sound:
  "y \<in> set (walk_loop adj queue found) \<Longrightarrow> y \<in> set found \<or> (\<exists>x\<in>set queue. (x, y) \<in> (succ_rel (multi_get adj))\<^sup>*)"
proof (induction adj queue found rule: walk_loop.induct)
  case (2 adj i queue found)
  obtain new where new: "fold discover (multi_get adj i) (found, queue) = (found @ new, queue @ new)" "set new = set (multi_get adj i) - set found"
    using discover_all by blast
  have step: "(i, x) \<in> succ_rel (multi_get adj)" if "x \<in> set new" for x using that new(2) by (simp add: succ_rel_def)
  have "y \<in> set (found @ new) \<or> (\<exists>x\<in>set (queue @ new). (x, y) \<in> (succ_rel (multi_get adj))\<^sup>*)"
    using 2 new by simp
  then show ?case using step by (auto intro: converse_rtrancl_into_rtrancl)
qed simp

interpretation walks: closure_search "multi_get adj" "\<lambda>xs. set (walk_loop adj xs xs)"
proof (unfold_locales, goal_cases)
  case (1 xs)
  show ?case by (rule walk_loop_contains)
next
  case (2 x xs)
  then show ?case using walk_loop_closed[of xs xs adj] by blast
next
  case (3 y xs)
  then show ?case using walk_loop_sound[of y adj xs xs] by blast
qed

definition line_rel :: "flow_line list \<Rightarrow> (string \<times> string) set" where
  "line_rel ls = (\<lambda>l. (fl_source l, fl_target l)) ` set ls"

lemma succ_rel_lines: "succ_rel (multi_get (line_targets ls)) = line_rel ls" "succ_rel (multi_get (line_sources ls)) = (line_rel ls)\<inverse>"
  by (auto simp: succ_rel_def line_targets_def line_sources_def line_rel_def multi_get_fold)

lemma set_walk: "set (walk adj root) = {i. i \<noteq> root \<and> (root, i) \<in> (succ_rel (multi_get adj))\<^sup>+}"
  by (auto simp: walk_def walks.search_eq[of _ "[root]", simplified] rtrancl_eq_or_trancl)

text \<open>No node is found twice, so the lengths that the panel shows are the sizes of the sets.\<close>

lemma distinct_walk_loop: "distinct found \<Longrightarrow> distinct (walk_loop adj queue found)"
proof (induction adj queue found rule: walk_loop.induct)
  case (2 adj i queue found)
  have "distinct (fst (fold discover ts (found, queue)))" if "distinct found" for ts found and queue :: "string list"
    using that by (induction ts arbitrary: found queue) (auto simp: discover_def)
  then show ?case using 2 by (simp add: Let_def)
qed simp

text \<open>C15: the impact analysis is exact: with a node of the drawing selected, the upstream set is every other node
  from which a path of lines leads to it, the downstream set every other node that a path leads to from it,
  each node is listed once, and exactly the cards of these nodes and of the selected one are drawn in full.\<close>

theorem impact_exact:
  assumes "root \<in> fc_id ` set (fst d)" and "root \<noteq> []"
  shows "set (im_upstream (impact_of (Some root) d)) = {i. i \<noteq> root \<and> (i, root) \<in> (line_rel (snd d))\<^sup>+}
    \<and> set (im_downstream (impact_of (Some root) d)) = {i. i \<noteq> root \<and> (root, i) \<in> (line_rel (snd d))\<^sup>+}
    \<and> distinct (im_upstream (impact_of (Some root) d)) \<and> distinct (im_downstream (impact_of (Some root) d))
    \<and> map fst (im_cards (impact_of (Some root) d)) = fst d
    \<and> (\<forall>(c, opacity)\<in>set (im_cards (impact_of (Some root) d)).
         opacity = Some (if fc_id c = root \<or> (fc_id c, root) \<in> (line_rel (snd d))\<^sup>+ \<or> (root, fc_id c) \<in> (line_rel (snd d))\<^sup>+ then 100 else 18))"
proof -
  have up: "set (walk (line_sources (snd d)) root) = {i. i \<noteq> root \<and> (i, root) \<in> (line_rel (snd d))\<^sup>+}"
    by (simp add: set_walk succ_rel_lines trancl_converse)
  have down: "set (walk (line_targets (snd d)) root) = {i. i \<noteq> root \<and> (root, i) \<in> (line_rel (snd d))\<^sup>+}"
    by (simp add: set_walk succ_rel_lines)
  have "distinct (walk adj root)" for adj unfolding walk_def by (intro distinct_filter distinct_walk_loop) simp
  then show ?thesis using assms up down by (auto simp: impact_of_def Let_def truthy_def comp_def)
qed

section \<open>The filters\<close>

definition touching :: "flow_line list \<Rightarrow> (string \<times> string) set" where
  "touching ls = line_rel ls \<union> (line_rel ls)\<inverse>"

lemma spread_mono: "set M \<subseteq> set (spread l M)"
  by (auto simp: spread_def)

lemma fold_spread_mono: "set M \<subseteq> set (fold spread ls M)"
  by (induction ls arbitrary: M) (auto dest: subsetD[OF spread_mono])

lemma fold_spread_touched:
  "l \<in> set ls \<Longrightarrow> fl_source l \<in> set M \<or> fl_target l \<in> set M \<Longrightarrow> {fl_source l, fl_target l} \<subseteq> set (fold spread ls M)"
proof (induction ls arbitrary: M)
  case (Cons k ls)
  show ?case
  proof (cases "l = k")
    case True
    then have "{fl_source l, fl_target l} \<subseteq> set (spread k M)" using Cons.prems by (auto simp: spread_def)
    then show ?thesis using fold_spread_mono[of "spread k M" ls] by auto
  next
    case False
    then show ?thesis using Cons spread_mono[of M k] by auto
  qed
qed simp

lemma fold_spread_connected: "x \<in> set (fold spread ls M) \<Longrightarrow> set ls \<subseteq> set all \<Longrightarrow> \<exists>m\<in>set M. (m, x) \<in> (touching all)\<^sup>*"
proof (induction ls arbitrary: M)
  case (Cons l ls)
  then obtain m where m: "m \<in> set (spread l M)" "(m, x) \<in> (touching all)\<^sup>*" by auto
  have "(fl_source l, fl_target l) \<in> touching all" "(fl_target l, fl_source l) \<in> touching all"
    using Cons.prems(2) by (auto simp: touching_def line_rel_def)
  then have "\<exists>m'\<in>set M. (m', m) \<in> (touching all)\<^sup>*"
    using m(1) by (auto simp: spread_def split: if_splits)
  then show ?case using m(2) by (meson rtrancl_trans)
qed auto

definition neighbours :: "string \<Rightarrow> drawing \<Rightarrow> flow_card \<Rightarrow> bool" where
  "neighbours health d c \<longleftrightarrow>
     (\<exists>m\<in>set (fst d). card_health (fc_data m) = Some health \<and> (fc_id m = fc_id c \<or> (fc_id m, fc_id c) \<in> touching (snd d)))"

text \<open>The health filter keeps at least every card of the chosen health and its direct neighbours, at most what
  hangs together with one of them, and draws no line without its two cards.\<close>

theorem health_filter_bounds:
  assumes "health \<noteq> []" and "\<forall>l\<in>set (snd d). fl_source l \<in> fc_id ` set (fst d) \<and> fl_target l \<in> fc_id ` set (fst d)"
  shows "(\<forall>c\<in>set (fst d). neighbours health d c \<longrightarrow> c \<in> set (fst (visible health d)))
    \<and> (\<forall>c\<in>set (fst (visible health d)). \<exists>m\<in>set (fst d). card_health (fc_data m) = Some health \<and> (fc_id m, fc_id c) \<in> (touching (snd d))\<^sup>*)
    \<and> (\<forall>l\<in>set (snd (visible health d)). fl_source l \<in> fc_id ` set (fst (visible health d)) \<and> fl_target l \<in> fc_id ` set (fst (visible health d)))"
proof -
  let ?M0 = "set_from (map fc_id (filter (\<lambda>c. card_health (fc_data c) = Some health) (fst d)))"
  have v: "visible health d = (filter (\<lambda>c. fc_id c \<in> set (health_matches health d)) (fst d),
      filter (\<lambda>l. fl_source l \<in> set (health_matches health d) \<and> fl_target l \<in> set (health_matches health d)) (snd d))"
    using assms(1) by (simp add: visible_def Let_def)
  have "fc_id c \<in> set (health_matches health d)" if n: "neighbours health d c" for c
  proof -
    obtain m where "m \<in> set (fst d)" "card_health (fc_data m) = Some health"
      and t: "fc_id m = fc_id c \<or> (fc_id m, fc_id c) \<in> touching (snd d)"
      using n unfolding neighbours_def by blast
    then have m: "fc_id m \<in> set ?M0" by auto
    with t show ?thesis
      using fold_spread_touched[of _ "snd d" ?M0] fold_spread_mono[of ?M0 "snd d"]
      by (auto simp: health_matches_def touching_def line_rel_def simp del: set_set_from)
  qed
  moreover have "\<exists>m\<in>set (fst d). card_health (fc_data m) = Some health \<and> (fc_id m, i) \<in> (touching (snd d))\<^sup>*"
    if "i \<in> set (health_matches health d)" for i
    using fold_spread_connected[of i "snd d" ?M0 "snd d"] that by (auto simp: health_matches_def)
  ultimately show ?thesis using assms(2) by (auto simp: v)
qed

text \<open>Clearing the filters shows everything: the drawing is the layout of the whole graph, no card is hidden by a health and
  none is dimmed, and no filter is counted.\<close>

theorem clear_shows_everything:
  assumes "ar_graph st = Some g"
  shows "flow (clearFilters st) = buildFlow g (ar_healthById st) (\<lambda>_. None) \<and> activeFilterCount (clearFilters st) = 0
    \<and> visible (ar_healthFilter (clearFilters st)) d = d
    \<and> im_cards (impact_of (ar_selectedId (clearFilters st)) d) = map (\<lambda>c. (c, None)) (fst d)"
proof -
  have "no_filter (page_filter (clearFilters st))"
    by (simp add: no_filter_def page_filter_def clearFilters_def to_lower_def truthy_def js_trim_def trim_start_def trim_end_def)
  then have "filteredGraph (clearFilters st) = Some g"
    using assms by (simp add: filteredGraph_def filterWorkspaceLineage_def) (simp add: clearFilters_def setEnvironment_def refresh_def Let_def)
  then show ?thesis
    by (simp add: flow_def) (simp add: clearFilters_def setEnvironment_def refresh_def Let_def activeFilterCount_def visible_def
        impact_of_def truthy_def js_trim_def trim_start_def trim_end_def)
qed

section \<open>What the page gets wrong\<close>

text \<open>A line for examples.\<close>

definition demo_line :: "string \<Rightarrow> string \<Rightarrow> flow_line" where
  "demo_line a b = \<lparr>fl_id = a @ b, fl_source = a, fl_target = b, fl_stroke = ''''\<rparr>"

text \<open>The health filter depends on the order of the lines: \<open>q\<close>, two lines away from the matching \<open>p\<close>, is kept when the line
  from \<open>p\<close> comes first, and left out when it comes second.\<close>

lemma filter_spreads: "fold spread [demo_line ''p'' ''a'', demo_line ''a'' ''q''] [''p''] = [''p'', ''a'', ''q'']"
  "fold spread [demo_line ''a'' ''q'', demo_line ''p'' ''a''] [''p''] = [''p'', ''a'']"
  by code_simp+

text \<open>Answers are not matched to the environment: a late one for the old environment is shown under the new one,
  in the graph and in the history.\<close>

lemma late_environment_wins:
  "s \<noteq> ar_environment st \<Longrightarrow>
     let st1 = refresh_answer (Inr (late, m)) (refresh_answer (Inr (new, m')) (setEnvironment s st)) in
     ar_graph st1 = Some late \<and> ar_environment st1 = s \<and> \<not> ar_loading st1"
  "s \<noteq> ch_environment ch \<Longrightarrow>
     let ch1 = ch_answer (Inr old) (ch_answer (Inr items) (ch_setEnvironment s ch)) in
     ch_items ch1 = old \<and> ch_environment ch1 = s \<and> \<not> ch_loading ch1"
  by (simp_all add: refresh_answer_def setEnvironment_def refresh_def ch_answer_def ch_setEnvironment_def ch_refresh_def Let_def)

section \<open>Instances\<close>

definition demo_card :: "string \<Rightarrow> string \<Rightarrow> flow_card" where
  "demo_card i health = \<lparr>fc_id = i, fc_position = None, fc_size = (0, 0),
     fc_data = PipelineCard \<lparr>v_rowId = i, v_pipelineKey = i, v_name = i, v_version = 1, v_status = '''', v_environment = '''',
         v_metadata = None, v_slo = None\<rparr>
       \<lparr>ph_id = None, ph_health = health, ph_last_execution_id = None, ph_last_phase = None, ph_breaches = None\<rparr> None\<rparr>"

definition demo_drawing :: drawing where
  "demo_drawing = ([demo_card ''p'' ''critical'', demo_card ''a'' ''healthy'', demo_card ''z'' ''healthy''], [demo_line ''p'' ''a''])"

theorem impact_exact_witness: "set (im_downstream (impact_of (Some ''p'') demo_drawing)) = {''a''}"
proof -
  have "line_rel (snd demo_drawing) = {(''p'', ''a'')}" by (simp add: demo_drawing_def demo_line_def line_rel_def)
  then show ?thesis
    using impact_exact[of "''p''" demo_drawing] by (auto simp: demo_drawing_def demo_card_def trancl_insert)
qed

theorem health_filter_bounds_witness: "demo_card ''a'' ''healthy'' \<in> set (fst (visible ''critical'' demo_drawing))"
proof -
  have "neighbours ''critical'' demo_drawing (demo_card ''a'' ''healthy'')"
    by (simp add: neighbours_def demo_drawing_def demo_card_def demo_line_def touching_def line_rel_def)
  then show ?thesis
    using health_filter_bounds[of "''critical''" demo_drawing]
    by (simp add: demo_drawing_def) (simp add: demo_card_def demo_line_def)
qed

theorem clear_shows_everything_witness:
  "activeFilterCount (clearFilters (ar_initial\<lparr>ar_graph := Some \<lparr>wl_nodes = [], wl_edges = [], wl_columnEdges = [],
     wl_stats = \<lparr>st_pipelines = 0, st_assets = 0, st_links = 0, st_sharedAssets = 0, st_columnLinks = 0, st_externalJobs = 0\<rparr>\<rparr>,
     ar_environment := ''prod''\<rparr>)) = 0"
  using clear_shows_everything by simp

end
