(* ===== verification/LineageView.thy ===== *)
theory LineageView
  imports RuntimeLineage ArchitectureLineage
begin

text \<open>
  What the lineage page shows around its two maps: the frame with the tabs (\<open>pages/LineagePage.tsx\<close>), the controls and marks
  of both maps and the fitting of their view (\<open>pages/RuntimeLineage.tsx\<close>, \<open>pages/ArchitectureLineage.tsx\<close>), and the drawer of
  one execution as a component in time.

  The graph library's instance is ready or not; \<open>fitView\<close> is logged with the ids it is called for. A frame of the browser
  is a step of its own. A \<open>select\<close> is its label, its value and its options as pairs of a value and a text.
\<close>

section \<open>The drawer in time\<close>

record execution_drawer =
  dr_executionId :: string
  dr_detail :: "run_detail option"
  dr_error :: "string option"
  dr_asked :: "string list"

definition dr_effect :: "string \<Rightarrow> execution_drawer \<Rightarrow> execution_drawer" where
  "dr_effect i d = d\<lparr>dr_executionId := i, dr_detail := None, dr_error := None, dr_asked := dr_asked d @ [i]\<rparr>"

definition dr_mount :: "string \<Rightarrow> execution_drawer" where
  "dr_mount i = dr_effect i \<lparr>dr_executionId = i, dr_detail = None, dr_error = None, dr_asked = []\<rparr>"

definition dr_rerender :: "string \<Rightarrow> execution_drawer \<Rightarrow> execution_drawer" where
  "dr_rerender i d = (if i = dr_executionId d then d else dr_effect i d)"

definition dr_answer :: "string option + run_detail \<Rightarrow> execution_drawer \<Rightarrow> execution_drawer" where
  "dr_answer out d =
     (case out of Inr x \<Rightarrow> d\<lparr>dr_detail := Some x\<rparr> | Inl e \<Rightarrow> d\<lparr>dr_error := Some (nullish e ''Failed to load execution'')\<rparr>)"

text \<open>The page renders the drawer when a run is selected; without one it unmounts and its state is gone.\<close>

definition drawer_for :: "string option \<Rightarrow> execution_drawer option \<Rightarrow> execution_drawer option" where
  "drawer_for sel d =
     (case truthy sel of
        None \<Rightarrow> None
      | Some i \<Rightarrow> Some (case d of None \<Rightarrow> dr_mount i | Some d \<Rightarrow> dr_rerender i d))"

definition drawer_notices :: "execution_drawer \<Rightarrow> string list" where
  "drawer_notices d =
     (case truthy (dr_error d) of
        Some e \<Rightarrow> [e]
      | None \<Rightarrow> if dr_detail d = None then [''Loading execution'' @ u_ellipsis] else [])"

definition drawer_title :: "locale_formats \<Rightarrow> int \<Rightarrow> execution_drawer \<Rightarrow> string list" where
  "drawer_title lc now d = drawer_heading lc now (dr_executionId d) (map_option dt_execution (dr_detail d))"

definition full_page_link :: "execution_drawer \<Rightarrow> string" where
  "full_page_link d = ''/runs/'' @ dr_executionId d"

inductive drawer_run :: "(string \<Rightarrow> run_detail) \<Rightarrow> execution_drawer option \<Rightarrow> bool" for detail where
  closed: "drawer_run detail None"
| select: "drawer_run detail d \<Longrightarrow> drawer_run detail (drawer_for sel d)"
| found: "drawer_run detail (Some d) \<Longrightarrow> i \<in> set (dr_asked d) \<Longrightarrow> drawer_run detail (Some (dr_answer (Inr (detail i)) d))"
| failed: "drawer_run detail (Some d) \<Longrightarrow> drawer_run detail (Some (dr_answer (Inl e) d))"

definition drawer_inv :: "(string \<Rightarrow> run_detail) \<Rightarrow> execution_drawer \<Rightarrow> bool" where
  "drawer_inv detail d \<longleftrightarrow> dr_executionId d \<in> set (dr_asked d)
     \<and> (\<forall>x. dr_detail d = Some x \<longrightarrow> (\<exists>i\<in>set (dr_asked d). x = detail i))"

lemma drawer_inv_step:
  "drawer_inv detail (dr_mount i)" "drawer_inv detail d \<Longrightarrow> drawer_inv detail (dr_rerender i d)"
  "drawer_inv detail d \<Longrightarrow> drawer_inv detail (dr_answer (Inl e) d)"
  "drawer_inv detail d \<Longrightarrow> i \<in> set (dr_asked d) \<Longrightarrow> drawer_inv detail (dr_answer (Inr (detail i)) d)"
  by (auto simp: drawer_inv_def dr_mount_def dr_rerender_def dr_effect_def dr_answer_def)

lemma drawer_inv_for:
  "(\<And>d'. d = Some d' \<Longrightarrow> drawer_inv detail d') \<Longrightarrow> drawer_for sel d = Some d'' \<Longrightarrow> drawer_inv detail d''"
  by (auto simp: drawer_for_def drawer_inv_step split: option.splits)

lemma drawer_run_inv: "drawer_run detail s \<Longrightarrow> s = Some d \<Longrightarrow> drawer_inv detail d"
proof (induction arbitrary: d rule: drawer_run.induct)
  case (select s sel)
  then show ?case using drawer_inv_for by blast
qed (auto intro: drawer_inv_step)

text \<open>A drawer that was opened for one run and not switched since shows that run: whatever detail has arrived is the detail of
  the run that its title and its link name.\<close>

theorem drawer_shows_its_run:
  assumes "drawer_run detail (Some d)" and "set (dr_asked d) = {i}" and "dr_detail d = Some x"
  shows "x = detail i \<and> full_page_link d = ''/runs/'' @ i"
  using drawer_run_inv[OF assms(1) refl] assms(2,3) by (auto simp: drawer_inv_def full_page_link_def)

text \<open>Switched from one run to another while the first is loading, the drawer shows the first below the link to the
  second when the first answer comes last. Closing the drawer in between protects from it: the new drawer has not asked for the first.\<close>

lemma late_execution_shown:
  assumes "a \<noteq> b" and "a \<noteq> []" and "b \<noteq> []"
  shows "\<exists>d. drawer_run detail (Some d) \<and> dr_detail d = Some (detail a) \<and> full_page_link d = ''/runs/'' @ b \<and> drawer_notices d = []"
proof -
  define d0 where "d0 = dr_rerender b (dr_mount a)"
  have d0: "d0 = \<lparr>dr_executionId = b, dr_detail = None, dr_error = None, dr_asked = [a, b]\<rparr>"
    using assms(1) by (simp add: d0_def dr_rerender_def dr_mount_def dr_effect_def)
  have "drawer_run detail (drawer_for (Some b) (drawer_for (Some a) None))" by (intro drawer_run.intros)
  then have "drawer_run detail (Some d0)" using assms(2,3) by (simp add: drawer_for_def truthy_def d0_def)
  then have "drawer_run detail (Some (dr_answer (Inr (detail b)) d0))" by (rule drawer_run.found) (simp add: d0)
  then have "drawer_run detail (Some (dr_answer (Inr (detail a)) (dr_answer (Inr (detail b)) d0)))"
    by (rule drawer_run.found) (simp add: d0 dr_answer_def)
  moreover have "dr_answer (Inr (detail a)) (dr_answer (Inr (detail b)) d0) = d0\<lparr>dr_detail := Some (detail a)\<rparr>"
    by (simp add: dr_answer_def)
  ultimately show ?thesis by (intro exI[of _ "d0\<lparr>dr_detail := Some (detail a)\<rparr>"]) (simp add: d0 full_page_link_def drawer_notices_def truthy_def)
qed

lemma closing_protects: "b \<noteq> [] \<Longrightarrow> drawer_for (Some b) (drawer_for None d) = Some (dr_mount b) \<and> dr_asked (dr_mount b) = [b]"
  by (simp add: drawer_for_def truthy_def dr_mount_def dr_effect_def)

section \<open>The marks of the drawer\<close>

text \<open>A pill: its style, whether it pulses, and its text.\<close>

definition PHASE_STYLE :: "(string \<times> string) list" where
  "PHASE_STYLE = [(''completed'', ''text-emerald-700 bg-emerald-50 dark:text-emerald-300 dark:bg-emerald-500/10''),
     (''failed'', ''text-red-700 bg-red-50 dark:text-red-300 dark:bg-red-500/10''),
     (''running'', ''text-blue-700 bg-blue-50 dark:text-blue-300 dark:bg-blue-500/10''),
     (''cancelled'', ''text-gray-600 bg-gray-100 dark:text-white/50 dark:bg-white/[0.06]'')]"

definition PhasePill :: "string \<Rightarrow> string \<times> bool \<times> string" where
  "PhasePill phase =
     (nullish (map_of PHASE_STYLE phase) ''text-gray-600 bg-gray-100 dark:text-white/50 dark:bg-white/[0.06]'', phase = ''running'', phase)"

text \<open>A chip of the layer path: whether an arrow precedes it, its text and its colour.\<close>

definition layer_chips :: "drawer_step list \<Rightarrow> (bool \<times> string \<times> string option) list" where
  "layer_chips steps =
     map (\<lambda>(k, l). (k > 0, if l = ''external'' then ''source'' else l, map_of LAYER_COLOR l)) (List.enumerate 0 (layerPath steps))"

definition step_dot :: "drawer_step \<Rightarrow> string option" where
  "step_dot s = Option.bind (ds_layer s) (map_of LAYER_COLOR)"

definition step_pill :: "drawer_step \<Rightarrow> (string \<times> bool \<times> string) option" where
  "step_pill s = map_option (\<lambda>r. PhasePill (if nr_status r = ''success'' then ''completed'' else nr_status r)) (ds_run s)"

definition step_bar :: "int option \<times> int option \<Rightarrow> drawer_step \<Rightarrow> (rat option \<times> rat option \<times> string) option" where
  "step_bar fall s = map_option (\<lambda>r. (bar_offset fall (Some r), bar_width fall (Some r), bar_color (Some r))) (ds_run s)"

definition quality_tone :: "quality_result \<Rightarrow> string" where
  "quality_tone q =
     (if qr_status q = ''passed'' then ''text-emerald-600 dark:text-emerald-400''
      else if qr_status q = ''failed'' then ''text-red-500'' else ''text-amber-600 dark:text-amber-400'')"

definition json_or_null :: "('a \<Rightarrow> json) \<Rightarrow> 'a option \<Rightarrow> json" where
  "json_or_null f v = (case v of Some x \<Rightarrow> f x | None \<Rightarrow> JNull)"

definition step_attributes :: "drawer_step \<Rightarrow> json" where
  "step_attributes s =
     JObj [(''type'', JStr (node_type_str (n_type (ds_node s)))), (''activityType'', JStr (n_activityType (ds_node s))),
       (''config'', JObj (n_config (ds_node s))),
       (''startedAt'', json_or_null JStr (Option.bind (ds_run s) nr_started_at)),
       (''finishedAt'', json_or_null JStr (Option.bind (ds_run s) nr_finished_at)),
       (''durationMs'', json_or_null JNum (Option.bind (ds_run s) nr_duration_ms)),
       (''records'', json_or_null JNum (Option.bind (ds_run s) nr_record_count)),
       (''attempt'', json_or_null JNum (Option.bind (ds_run s) nr_attempt)),
       (''error'', json_or_null JStr (Option.bind (ds_run s) nr_error))]"

text \<open>A skipped step and a running one get the bar of a success, beside a pill that says otherwise.\<close>

lemma skipped_bar_green:
  "st \<noteq> ''failed'' \<Longrightarrow> bar_color (Some (r\<lparr>nr_status := st\<rparr>)) = bar_color (Some (r\<lparr>nr_status := ''success''\<rparr>))"
  by (simp add: bar_color_def)

lemma skipped_pill_grey:
  "step_pill (s\<lparr>ds_run := Some (r\<lparr>nr_status := ''skipped''\<rparr>)\<rparr>) = Some (fst (PhasePill ''cancelled''), False, ''skipped'')"
  by (simp add: step_pill_def PhasePill_def PHASE_STYLE_def)

section \<open>Fitting the view\<close>

text \<open>Both maps join the sorted ids of what they draw to a key, and fit the view to the ids of the key in the next frame
  of the browser whenever the key or the instance of the graph library changes.\<close>

definition id_mark :: char where "id_mark = CHR 0x00"

definition node_key :: "string list \<Rightarrow> string" where
  "node_key ids = join [id_mark] (sort_with text_less ids)"

definition fit_ids :: "string \<Rightarrow> string list" where
  "fit_ids key = split_char id_mark key"

record map_view =
  mv_instance :: bool
  mv_key :: string
  mv_frame :: "string list option"
  mv_fitted :: "string list list"

definition mv_initial :: map_view where
  "mv_initial = \<lparr>mv_instance = False, mv_key = '''', mv_frame = None, mv_fitted = []\<rparr>"

definition mv_render :: "bool \<Rightarrow> string list \<Rightarrow> map_view \<Rightarrow> map_view" where
  "mv_render ready ids v =
     (let key = node_key ids in
      if ready = mv_instance v \<and> key = mv_key v then v
      else v\<lparr>mv_instance := ready, mv_key := key, mv_frame := (if ready \<and> key \<noteq> [] then Some (fit_ids key) else None)\<rparr>)"

definition mv_tick :: "map_view \<Rightarrow> map_view" where
  "mv_tick v = (case mv_frame v of Some ids \<Rightarrow> v\<lparr>mv_frame := None, mv_fitted := mv_fitted v @ [ids]\<rparr> | None \<Rightarrow> v)"

inductive map_shown :: "map_view \<Rightarrow> bool" where
  mounted: "map_shown mv_initial"
| rendered: "map_shown v \<Longrightarrow> map_shown (mv_render ready ids v)"
| ticked: "map_shown v \<Longrightarrow> map_shown (mv_tick v)"

definition fitted_inv :: "map_view \<Rightarrow> bool" where
  "fitted_inv v \<longleftrightarrow> (mv_instance v \<and> mv_key v \<noteq> [] \<longrightarrow>
     (case mv_frame v of Some ids \<Rightarrow> ids = fit_ids (mv_key v) | None \<Rightarrow> mv_fitted v \<noteq> [] \<and> last (mv_fitted v) = fit_ids (mv_key v)))"

lemma map_shown_inv: "map_shown v \<Longrightarrow> fitted_inv v"
  by (induction rule: map_shown.induct)
    (auto simp: fitted_inv_def mv_initial_def mv_render_def mv_tick_def Let_def split: option.splits)

lemma text_less_trans: "text_less a b \<Longrightarrow> text_less b c \<Longrightarrow> text_less a c"
proof (induction a b arbitrary: c rule: text_less.induct)
  case (2 b bs)
  then show ?case by (cases c) auto
next
  case (3 a as b bs)
  then show ?case by (cases c) (auto intro: less_trans)
qed simp

lemma text_less_antisym: "\<not> text_less a b \<Longrightarrow> \<not> text_less b a \<Longrightarrow> a = b"
proof (induction a b rule: text_less.induct)
  case (1 a)
  then show ?case by (cases a) auto
next
  case (3 a as b bs)
  have "a = b"
  proof (rule ccontr)
    assume "a \<noteq> b"
    then have "(of_char a :: nat) \<noteq> of_char b" by simp
    then show False using "3.prems" by (auto simp: neq_iff)
  qed
  then show ?case using 3 by simp
qed simp

lemma text_less_irrefl [simp]: "\<not> text_less a a"
  by (induction a) auto

lemma set_sort_with: "set (sort_with lt xs) = set xs"
  by (metis mset_sort_with set_mset_mset)

lemma set_insert_before: "set (insert_before lt x ys) = insert x (set ys)"
  by (induction ys) auto

lemma sorted_insert_before:
  "sorted_wrt (\<lambda>a b. \<not> text_less b a) ys \<Longrightarrow> sorted_wrt (\<lambda>a b. \<not> text_less b a) (insert_before text_less x ys)"
proof (induction ys)
  case (Cons y ys)
  then show ?case using text_less_trans[of x y x] text_less_trans[of _ x y] by (auto simp: set_insert_before)
qed simp

lemma sorted_sort_with: "sorted_wrt (\<lambda>a b. \<not> text_less b a) (sort_with text_less xs)"
proof -
  have "sorted_wrt (\<lambda>a b. \<not> text_less b a) (fold (insert_before text_less) xs ys)"
    if "sorted_wrt (\<lambda>a b. \<not> text_less b a) ys" for ys
    using that by (induction xs arbitrary: ys) (simp_all add: sorted_insert_before)
  then show ?thesis by (simp add: sort_with_def)
qed

lemma sorted_unique:
  "sorted_wrt (\<lambda>a b. \<not> text_less b a) xs \<Longrightarrow> sorted_wrt (\<lambda>a b. \<not> text_less b a) ys \<Longrightarrow> mset xs = mset ys \<Longrightarrow> xs = ys"
proof (induction xs arbitrary: ys)
  case (Cons x xs)
  then obtain y ys' where ys: "ys = y # ys'" by (cases ys) auto
  have "x \<in> set ys" "y \<in> set (x # xs)"
    using arg_cong[OF Cons.prems(3), of set_mset] by (auto simp: ys)
  then have "x = y" using Cons.prems(1,2) text_less_antisym by (auto simp: ys)
  then show ?case using Cons.IH[of ys'] Cons.prems by (simp add: ys)
qed simp

text \<open>The view follows what is drawn: once no frame is waiting and something is drawn, the last call of \<open>fitView\<close> was
  for exactly the nodes on the screen, and drawing the same nodes again, in whatever order they arrive, asks for no further fit.
  The ids are not empty and hold no NUL character.\<close>

theorem view_fits_drawn:
  assumes "map_shown v" and "mv_instance v" and "mv_frame v = None" and "mv_key v = node_key ids" and "ids \<noteq> []"
    and "\<forall>i\<in>set ids. id_mark \<notin> set i \<and> i \<noteq> []" and "mset ids' = mset ids"
  shows "mset (last (mv_fitted v)) = mset ids \<and> mv_render True ids' v = v"
proof -
  note s = set_sort_with[of text_less ids]
  then have ne: "sort_with text_less ids \<noteq> []" using assms(5) by auto
  have f: "fit_ids (node_key ids) = sort_with text_less ids"
    using split_join[OF ne, of id_mark] assms(6) s by (simp add: fit_ids_def node_key_def)
  have "node_key ids \<noteq> []"
  proof
    assume "node_key ids = []"
    then have "sort_with text_less ids = [[]]" using f by (simp add: fit_ids_def)
    then show False using assms(6) s by auto
  qed
  then have "last (mv_fitted v) = sort_with text_less ids"
    using map_shown_inv[OF assms(1)] assms(2-4) by (simp add: fitted_inv_def f)
  moreover have "node_key ids' = node_key ids"
    using sorted_unique[OF sorted_sort_with sorted_sort_with, of ids' ids] assms(7) by (simp add: node_key_def)
  ultimately show ?thesis using assms(2,4) by (simp add: mv_render_def)
qed

section \<open>The controls of the runtime map\<close>

definition environment_options :: "(string \<times> string) list" where
  "environment_options = [('''', ''All''), (''test'', ''Integration''), (''prod'', ''Production'')]"

type_synonym select_box = "string \<times> string \<times> (string \<times> string) list"

definition runtime_selects :: "(string \<Rightarrow> string \<Rightarrow> bool) \<Rightarrow> runtime_page \<Rightarrow> select_box list" where
  "runtime_selects locale_less st =
     [(''Time'', rl_preset st, map (\<lambda>(key, label, _). (key, label)) PRESETS @ [(''custom'', ''Custom'')]),
      (''Environment'', rl_environment st, environment_options),
      (''Status'', rl_status st, [('''', ''All''), (''running'', ''Running''), (''completed'', ''Completed''), (''failed'', ''Failed''),
         (''cancelled'', ''Cancelled'')]),
      (''Pipeline'', rl_pipeline st, ('''', ''All'') # pipelineOptions locale_less (rl_overview st)),
      (''Layer'', rl_layerFilter st, [('''', ''All''), (''external'', ''Sources''), (''bronze'', ''Bronze''), (''silver'', ''Silver''),
         (''gold'', ''Gold'')])]"

text \<open>The two inputs of a custom range, which come with the button \<open>Apply\<close>; then the search, the box and the button.\<close>

definition custom_inputs :: "runtime_page \<Rightarrow> (string \<times> string) list" where
  "custom_inputs st =
     (if rl_preset st = ''custom'' then [(''Custom range start'', rl_customFrom st), (''Custom range end'', rl_customTo st)] else [])"

definition search_input :: "runtime_page \<Rightarrow> string \<times> string" where
  "search_input st = (''Execution, run, or trace ID'', rl_search st)"

definition active_box :: "runtime_page \<Rightarrow> string \<times> bool" where
  "active_box st = (''Active only'', rl_activeOnly st)"

text \<open>A button is its label and whether it is disabled.\<close>

definition refresh_button :: "runtime_page \<Rightarrow> string \<times> bool" where
  "refresh_button st = (''Refresh'', rl_loading st)"

definition more_runs_button :: "runtime_page \<Rightarrow> (string \<times> bool) option" where
  "more_runs_button st =
     (if truthy (rl_nextCursor st) = None then None
      else Some (if rl_loadingRuns st then ''Loading'' @ u_ellipsis else ''Load more runs'', rl_loadingRuns st))"

definition tile_tones :: "runtime_stats \<Rightarrow> string list" where
  "tile_tones s =
     ['''', (if rs_failed s > 0 then ''text-red-500'' else ''text-emerald-600 dark:text-emerald-400''),
      (if rs_failed s > 0 then ''text-red-500'' else ''''), (if rs_running s > 0 then ''text-blue-500'' else ''''), '''']"

definition run_headers :: "string list" where
  "run_headers = [''Started'', ''Pipeline'', ''Env'', ''Status'', ''Duration'', ''Execution ID'', ''Run ID'', ''Trace ID'', ''Records / errors'']"

text \<open>The table: the header, then each run with the mark of the selected one.\<close>

definition runs_table :: "locale_formats \<Rightarrow> runtime_page \<Rightarrow> string list \<times> (bool \<times> string list) list" where
  "runs_table lc st = (run_headers, map (\<lambda>r. (rl_selectedRunId st = Some (rr_id r), run_cells lc r)) (rl_runs st))"

definition runtime_drawer :: "runtime_page \<Rightarrow> execution_drawer option \<Rightarrow> execution_drawer option" where
  "runtime_drawer st = drawer_for (rl_selectedRunId st)"

text \<open>What the controls offer is what the page understands: every range of the list is a window of that length ending now, or
  the default one of the server, and every cell of the table has its heading.\<close>

lemma find_first: "distinct (map fst xs) \<Longrightarrow> (k, v) \<in> set xs \<Longrightarrow> find (\<lambda>p. fst p = k) xs = Some (k, v)"
  by (induction xs) (auto simp: image_iff)

lemma offered_ranges:
  assumes "(key, label, ms) \<in> set PRESETS" and "rl_preset st = key"
  shows "fst (windowParams now local st) = Some (if key = ''1h'' then None else Some (now - ms, now))"
proof -
  have "distinct (map fst PRESETS)" "''custom'' \<notin> fst ` set PRESETS" by (simp_all add: PRESETS_def)
  then have "find (\<lambda>p. fst p = key) PRESETS = Some (key, label, ms)" "key \<noteq> ''custom''"
    using assms(1) by (auto simp: find_first image_iff)
  then show ?thesis using assms(2) by (simp add: windowParams_def)
qed

lemma table_shape: "row \<in> set (snd (runs_table lc st)) \<Longrightarrow> length (snd row) = length (fst (runs_table lc st))"
  by (auto simp: runs_table_def run_headers_def run_cells_def)

lemma tiles_toned: "length (tile_tones s) = length (stat_tiles s)"
  by (simp add: tile_tones_def stat_tiles_def)

text \<open>A chosen pipeline that the latest overview does not hold is no option of its list, while the filter stays in force.\<close>

lemma chosen_pipeline_unlisted:
  assumes "k \<noteq> []" and "\<forall>n\<in>set (pipeline_nodes (Some ov)). v_pipelineKey (ln_pipeline (rt_node n)) \<noteq> k"
    and "seq = rl_requestSeq st" and "rl_pipeline st = k"
  shows "let st1 = RuntimeLineage.refresh_answer seq (Inr (ov, rows, c)) st in
    rl_pipeline st1 = k \<and> k \<notin> fst ` set (('''', ''All'') # pipelineOptions locale_less (rl_overview st1))"
proof -
  have "k \<notin> fst ` set (pipelineOptions locale_less (Some ov))"
    unfolding pipelineOptions_def set_sort_with keys_map_from using assms(2) by auto
  then show ?thesis using assms(1,3,4) by (simp add: RuntimeLineage.refresh_answer_def Let_def)
qed

section \<open>The controls of the architecture map\<close>

definition health_options :: "(string \<times> string) list" where
  "health_options = [('''', ''All''), (''critical'', ''Critical''), (''warning'', ''Warning''), (''healthy'', ''Healthy''),
     (''unmonitored'', ''Unmonitored'')]"

definition focus_options :: "(int \<times> string) list" where
  "focus_options = [(0, ''Full graph''), (1, ''Selected + 1 hop''), (2, ''Selected + 2 hops'')]"

definition architecture_selects :: "architecture_page \<Rightarrow> select_box list" where
  "architecture_selects st =
     [(''Environment'', ar_environment st, environment_options),
      (''Health'', ar_healthFilter st, health_options),
      (''Domain'', ar_domainFilter st, ('''', ''All'') # map (\<lambda>d. (d, d)) (domains st))]"

text \<open>The focus: its depth, its options, and whether it is disabled, which it is while no drawn node is selected.\<close>

definition focus_select :: "architecture_page \<Rightarrow> drawing \<Rightarrow> int \<times> (int \<times> string) list \<times> bool" where
  "focus_select st d = (ar_focusDepth st, focus_options, selected_card (ar_selectedId st) d = None)"

definition lineage_search :: "architecture_page \<Rightarrow> string \<times> string" where
  "lineage_search st = (''Pipeline or asset'', ar_search st)"

definition clear_button :: "architecture_page \<Rightarrow> string option" where
  "clear_button st = (if activeFilterCount st > 0 then Some (''Clear '' @ nat_str (activeFilterCount st)) else None)"

definition lineage_refresh_button :: "architecture_page \<Rightarrow> string \<times> bool" where
  "lineage_refresh_button st = (''Refresh'', ar_loading st)"

definition lineage_notices :: "architecture_page \<Rightarrow> string list" where
  "lineage_notices st =
     (case truthy (ar_error st) of Some e \<Rightarrow> [e] | None \<Rightarrow> [])
     @ (if ar_loading st then [(if ar_graph st \<noteq> None then ''Refreshing lineage'' else ''Loading lineage'') @ u_ellipsis]
        else case ar_graph st of
            Some g \<Rightarrow> if wl_nodes g = []
              then [''No pipeline assets found. Configure source and sink assets, then save a pipeline.''] else []
          | None \<Rightarrow> [])"

text \<open>The colour of a node on the small map: an external job has no layer.\<close>

fun minimap_color :: "card \<Rightarrow> string option" where
  "minimap_color (PipelineCard p h m) = Some ''#7c6cf2''"
| "minimap_color (JobCard x m) = Some ''#7c6cf2''"
| "minimap_color (AssetCard a l mt q m) = map_of LAYER_COLOR l"

lemma focus_needs_selection: "snd (snd (focus_select (select None st) d))"
  by (simp add: focus_select_def selected_card_def select_def find_None_iff)

lemma clear_hides: "clear_button (clearFilters st) = None"
  by (simp add: clear_button_def activeFilterCount_def clearFilters_def setEnvironment_def ArchitectureLineage.refresh_def Let_def js_trim_def trim_end_def trim_start_def truthy_def)

text \<open>A depth outlives the selection it was chosen for: after another filter has taken the selection away nothing is focused,
  and the next node that is clicked is focused at once.\<close>

lemma depth_outlives_selection:
  assumes "ar_focusDepth st \<noteq> 0" and "i \<noteq> []"
  shows "lf_focusId (page_filter (setHealthFilter h st)) = None
    \<and> lf_focusId (page_filter (select (Some i) (setHealthFilter h st))) = Some i"
  using assms by (simp add: page_filter_def setHealthFilter_def select_def truthy_def)

section \<open>The frame\<close>

datatype lineage_tab = RuntimeTab | ArchitectureTab | ChangesTab

definition TABS :: "(lineage_tab \<times> string) list" where
  "TABS = [(RuntimeTab, ''Runtime lineage''), (ArchitectureTab, ''Architecture lineage''), (ChangesTab, ''Changes'')]"

definition ch_initial :: changes_tab where
  "ch_initial = \<lparr>ch_environment = '''', ch_items = [], ch_loading = True, ch_error = None, ch_sent = []\<rparr>"

definition changes_notices :: "changes_tab \<Rightarrow> string list" where
  "changes_notices st =
     (case truthy (ch_error st) of Some e \<Rightarrow> [e] | None \<Rightarrow> [])
     @ (if ch_loading st then [''Loading changes'' @ u_ellipsis] else [])
     @ (if \<not> ch_loading st \<and> truthy (ch_error st) = None \<and> ch_items st = [] then [''No lineage changes found.''] else [])"

definition changes_select :: "changes_tab \<Rightarrow> select_box" where
  "changes_select st = (''Environment'', ch_environment st, environment_options)"

text \<open>The one tab that is rendered, with its state; a tab that is opened is mounted, and its effects ask for its data.\<close>

datatype lineage_view = RuntimeView runtime_page | ArchitectureView architecture_page | ChangesView changes_tab

fun tab_of :: "lineage_view \<Rightarrow> lineage_tab" where
  "tab_of (RuntimeView _) = RuntimeTab"
| "tab_of (ArchitectureView _) = ArchitectureTab"
| "tab_of (ChangesView _) = ChangesTab"

fun mount_tab :: "int \<Rightarrow> (string \<Rightarrow> int option) \<Rightarrow> lineage_tab \<Rightarrow> lineage_view" where
  "mount_tab now local RuntimeTab = RuntimeView (RuntimeLineage.refresh now local rl_initial)"
| "mount_tab now local ArchitectureTab = ArchitectureView (ArchitectureLineage.refresh ar_initial)"
| "mount_tab now local ChangesTab = ChangesView (ch_refresh (ch_environment ch_initial) ch_initial)"

definition setTab :: "int \<Rightarrow> (string \<Rightarrow> int option) \<Rightarrow> lineage_tab \<Rightarrow> lineage_view \<Rightarrow> lineage_view" where
  "setTab now local t v = (if t = tab_of v then v else mount_tab now local t)"

definition open_lineage :: "int \<Rightarrow> (string \<Rightarrow> int option) \<Rightarrow> lineage_view" where
  "open_lineage now local = mount_tab now local RuntimeTab"

definition tab_buttons :: "lineage_view \<Rightarrow> (string \<times> bool) list" where
  "tab_buttons v = map (\<lambda>(t, label). (label, t = tab_of v)) TABS"

lemma tab_of_mount [simp]: "tab_of (mount_tab now local t) = t"
  by (cases t) simp_all

lemma one_tab_marked: "length (filter snd (tab_buttons v)) = 1"
  by (cases v) (simp_all add: tab_buttons_def TABS_def)

lemma tab_shown: "tab_of (setTab now local t v) = t"
  by (simp add: setTab_def)

text \<open>A visit to another tab discards what was set up on the first one: its filters, its selection and its data.\<close>

lemma tab_forgets: "t \<noteq> tab_of v \<Longrightarrow> setTab now local (tab_of v) (setTab now' local t v) = mount_tab now local (tab_of v)"
  by (auto simp: setTab_def)

section \<open>Instances\<close>

definition two_shown :: map_view where
  "two_shown = mv_tick (mv_render True [''b'', ''a''] (mv_render False [] mv_initial))"

lemma two_key: "node_key [''b'', ''a''] = ''a'' @ id_mark # ''b''"
  by (simp add: node_key_def sort_with_def)

lemma two_shown_state: "mv_instance two_shown" "mv_frame two_shown = None" "mv_key two_shown = node_key [''b'', ''a'']"
  "mv_fitted two_shown = [fit_ids (node_key [''b'', ''a''])]"
  by (simp_all add: two_shown_def mv_tick_def mv_render_def mv_initial_def Let_def two_key)

theorem view_fits_drawn_witness: "mset (last (mv_fitted two_shown)) = {#''a'', ''b''#} \<and> mv_render True [''a'', ''b''] two_shown = two_shown"
proof -
  have "map_shown two_shown" unfolding two_shown_def by (intro map_shown.intros)
  from view_fits_drawn[OF this two_shown_state(1-3), of "[''a'', ''b'']"] show ?thesis by (simp add: id_mark_def add_mset_commute)
qed

definition demo_server :: "string \<Rightarrow> run_detail" where
  "demo_server i = \<lparr>dt_execution = demo_execution\<lparr>re_id := i\<rparr>, dt_nodes = [], dt_edges = [], dt_nodeRuns = [], dt_qualityResults = []\<rparr>"

definition opened_drawer :: execution_drawer where
  "opened_drawer = dr_answer (Inr (demo_server ''x1'')) (dr_mount ''x1'')"

theorem drawer_shows_its_run_witness:
  "dr_detail opened_drawer = Some (demo_server ''x1'') \<and> full_page_link opened_drawer = ''/runs/x1''"
proof -
  have "drawer_run demo_server (drawer_for (Some ''x1'') None)" by (intro drawer_run.intros)
  then have "drawer_run demo_server (Some (dr_mount ''x1''))" by (simp add: drawer_for_def truthy_def)
  then have r: "drawer_run demo_server (Some opened_drawer)"
    unfolding opened_drawer_def by (rule drawer_run.found) (simp add: dr_mount_def dr_effect_def)
  have d: "set (dr_asked opened_drawer) = {''x1''}" "dr_detail opened_drawer = Some (demo_server ''x1'')"
    by (simp_all add: opened_drawer_def dr_answer_def dr_mount_def dr_effect_def)
  from drawer_shows_its_run[OF r d] d(2) show ?thesis by simp
qed

end
