(* ===== verification/AnalyticsPage.thy ===== *)
theory AnalyticsPage
  imports AnalyticsModel Complex_Main
begin

text \<open>
  The state of the analytics page, \<open>apps/web/src/pages/AnalyticsPage.tsx\<close>, with the save dialog
  (\<open>SaveDashboardModal.tsx\<close>) and the data-set browser (\<open>DatasetPreview.tsx\<close>).

  A handler is a function on the page's state. A call that waits for the server is two of them:
  the start, which logs the request, and the answer. \<open>now\<close> is the clock.
\<close>

section \<open>The page\<close>

record analytics_page =
  ap_datasets :: "dataset list"
  ap_dashboards :: "dashboard list"
  ap_active :: "dashboard option"
  ap_widgets :: "widget_def list"
  ap_layout :: grid_layout
  ap_loadingDatasets :: bool
  ap_loadingData :: "(string \<times> bool) list"
  ap_widgetErrors :: "(string \<times> string) list"
  ap_error :: "string option"
  ap_hours :: int
  ap_timeRange :: time_range
  ap_dirty :: bool
  ap_requests :: "(string \<times> string \<times> query_spec \<times> time_range) list"
  ap_saving :: "(string option \<times> string \<times> dashboard_definition) list"
  ap_deleting :: "(dashboard \<times> dashboard list) list"

definition initial_page :: "int \<Rightarrow> analytics_page" where
  "initial_page now =
     \<lparr>ap_datasets = [], ap_dashboards = [], ap_active = None, ap_widgets = [], ap_layout = [],
      ap_loadingDatasets = True, ap_loadingData = [], ap_widgetErrors = [], ap_error = None, ap_hours = 96,
      ap_timeRange = timeRangeFor 96 now, ap_dirty = False, ap_requests = [], ap_saving = [], ap_deleting = []\<rparr>"

text \<open>\<open>fetchWidgetData\<close>: its start and its answer.\<close>

definition fetch_start :: "time_range \<Rightarrow> widget_def \<Rightarrow> analytics_page \<Rightarrow> analytics_page" where
  "fetch_start window w st =
     st\<lparr>ap_loadingData := AList.update (w_id w) True (ap_loadingData st),
        ap_widgetErrors := filter (\<lambda>e. fst e \<noteq> w_id w) (ap_widgetErrors st),
        ap_requests := ap_requests st @ [(w_id w, w_dataset w, w_spec w, window)]\<rparr>"

definition fetch_answer :: "string \<Rightarrow> string option + data_row list \<Rightarrow> analytics_page \<Rightarrow> analytics_page" where
  "fetch_answer wid answer st =
     (let st1 = (case answer of
          Inr rows \<Rightarrow> st\<lparr>ap_widgets := map (\<lambda>w. if w_id w = wid then w\<lparr>w_data := Some rows\<rparr> else w) (ap_widgets st)\<rparr>
        | Inl e \<Rightarrow> st\<lparr>ap_widgetErrors := AList.update wid (nullish e ''Query failed'') (ap_widgetErrors st)\<rparr>)
      in st1\<lparr>ap_loadingData := AList.update wid False (ap_loadingData st1)\<rparr>)"

definition with_data :: "data_row list option \<Rightarrow> widget \<Rightarrow> widget_def" where
  "with_data rows w = widget.extend w (widget_def.fields rows)"

definition loadDashboard :: "int \<Rightarrow> dashboard \<Rightarrow> analytics_page \<Rightarrow> analytics_page" where
  "loadDashboard now db st =
     (let ws = map (with_data None) (dd_widgets (db_definition db));
          h = nullish (dd_timeRangeHours (db_definition db)) 96;
          window = timeRangeFor h now
      in fold (fetch_start window) ws
           (st\<lparr>ap_active := Some db, ap_widgets := ws, ap_layout := map (\<lambda>w. (w_id w, w_layout w)) ws,
              ap_hours := h, ap_timeRange := window, ap_widgetErrors := [], ap_dirty := False\<rparr>))"

definition page_loaded :: "int \<Rightarrow> string + (dataset list \<times> dashboard list) \<Rightarrow> analytics_page \<Rightarrow> analytics_page" where
  "page_loaded now answer st =
     (let st1 = (case answer of
          Inr (ds, dbs) \<Rightarrow>
            (let st' = st\<lparr>ap_error := None, ap_datasets := ds, ap_dashboards := dbs\<rparr>
             in case dbs of [] \<Rightarrow> st' | db # _ \<Rightarrow> loadDashboard now db st')
        | Inl e \<Rightarrow> st\<lparr>ap_error := Some e\<rparr>)
      in st1\<lparr>ap_loadingDatasets := False\<rparr>)"

definition addWidget :: "widget \<Rightarrow> analytics_page \<Rightarrow> analytics_page" where
  "addWidget def st =
     (let w = with_data (Some []) def in
      fetch_start (ap_timeRange st) w
        (st\<lparr>ap_widgets := (if list_ex (\<lambda>x. w_id x = w_id w) (ap_widgets st)
              then map (\<lambda>x. if w_id x = w_id w then w else x) (ap_widgets st) else ap_widgets st @ [w]),
           ap_layout := (if list_ex (\<lambda>l. fst l = w_id w) (ap_layout st) then ap_layout st
              else ap_layout st @ [(w_id w, w_layout w)]),
           ap_dirty := True\<rparr>))"

definition removeWidget :: "string \<Rightarrow> analytics_page \<Rightarrow> analytics_page" where
  "removeWidget wid st =
     st\<lparr>ap_widgets := filter (\<lambda>w. w_id w \<noteq> wid) (ap_widgets st),
        ap_layout := filter (\<lambda>l. fst l \<noteq> wid) (ap_layout st), ap_dirty := True\<rparr>"

definition handleLayoutChange :: "grid_layout \<Rightarrow> analytics_page \<Rightarrow> analytics_page" where
  "handleLayoutChange newLayout st =
     (let st1 = st\<lparr>ap_layout := newLayout\<rparr> in
      if layoutChanged (ap_widgets st) newLayout
      then st1\<lparr>ap_dirty := True,
             ap_widgets := map (\<lambda>w. case map_of newLayout (w_id w) of Some l \<Rightarrow> w\<lparr>w_layout := l\<rparr> | None \<Rightarrow> w) (ap_widgets st)\<rparr>
      else st1)"

text \<open>\<open>handleSave\<close>: what is sent, and the page after the server has stored it.\<close>

definition save_start :: "string option \<Rightarrow> string \<Rightarrow> analytics_page \<Rightarrow> analytics_page" where
  "save_start existing name st =
     st\<lparr>ap_saving := ap_saving st @ [(existing, name, dashboardDefinition (ap_widgets st) (ap_hours st))]\<rparr>"

definition save_answer :: "string option \<Rightarrow> dashboard \<Rightarrow> analytics_page \<Rightarrow> analytics_page" where
  "save_answer existing saved st =
     st\<lparr>ap_dashboards := (case existing of
            Some did \<Rightarrow> map (\<lambda>d. if db_id d = did then saved else d) (ap_dashboards st)
          | None \<Rightarrow> ap_dashboards st @ [saved]),
        ap_active := Some saved, ap_dirty := False\<rparr>"

definition changeTimeRange :: "int \<Rightarrow> int \<Rightarrow> analytics_page \<Rightarrow> analytics_page" where
  "changeTimeRange now h st =
     (let window = timeRangeFor h now in
      fold (fetch_start window) (ap_widgets st) (st\<lparr>ap_hours := h, ap_timeRange := window, ap_dirty := True\<rparr>))"

text \<open>A tick of the auto-refresh timer.\<close>

definition refresh_tick :: "int \<Rightarrow> analytics_page \<Rightarrow> analytics_page" where
  "refresh_tick now st =
     (let window = timeRangeFor (ap_hours st) now in
      fold (fetch_start window) (ap_widgets st) (st\<lparr>ap_timeRange := window\<rparr>))"

text \<open>
  \<open>deleteDashboard\<close>: the request, which keeps the dashboard and the list that were shown when the
  question was confirmed, and the answer to it.
\<close>

definition delete_start :: "bool \<Rightarrow> analytics_page \<Rightarrow> analytics_page" where
  "delete_start confirmed st =
     (case ap_active st of
        None \<Rightarrow> st
      | Some db \<Rightarrow> if confirmed then st\<lparr>ap_deleting := ap_deleting st @ [(db, ap_dashboards st)]\<rparr> else st)"

definition remaining_of :: "dashboard \<times> dashboard list \<Rightarrow> dashboard list" where
  "remaining_of asked = filter (\<lambda>d. db_id d \<noteq> db_id (fst asked)) (snd asked)"

definition delete_answer ::
  "int \<Rightarrow> dashboard \<times> dashboard list \<Rightarrow> string option + unit \<Rightarrow> analytics_page \<Rightarrow> analytics_page" where
  "delete_answer now asked answer st =
     (case answer of
        Inl e \<Rightarrow> st\<lparr>ap_error := Some (nullish e ''Could not delete dashboard'')\<rparr>
      | Inr _ \<Rightarrow>
          (let st1 = st\<lparr>ap_dashboards := remaining_of asked, ap_active := None, ap_widgets := [], ap_layout := []\<rparr>
           in case remaining_of asked of [] \<Rightarrow> st1 | d # _ \<Rightarrow> loadDashboard now d st1))"

text \<open>Which of its four faces the page shows, and when its save button is off.\<close>

datatype page_view = LoadingView | ErrorView string | NoDatasetsView | DashboardView

definition page_view :: "analytics_page \<Rightarrow> page_view" where
  "page_view st =
     (if ap_loadingDatasets st then LoadingView
      else if ap_datasets st = [] then (case truthy (ap_error st) of Some e \<Rightarrow> ErrorView e | None \<Rightarrow> NoDatasetsView)
      else DashboardView)"

definition save_disabled :: "analytics_page \<Rightarrow> bool" where
  "save_disabled st \<longleftrightarrow> \<not> ap_dirty st \<and> ap_active st \<noteq> None"

section \<open>The save dialog\<close>

record save_dialog =
  sd_name :: string
  sd_selected :: "string option"
  sd_busy :: bool
  sd_err :: "string option"
  sd_open :: bool

definition open_dialog :: save_dialog where
  "open_dialog = \<lparr>sd_name = ''My Dashboard'', sd_selected = None, sd_busy = False, sd_err = None, sd_open = True\<rparr>"

definition select_target :: "dashboard list \<Rightarrow> string option \<Rightarrow> save_dialog \<Rightarrow> save_dialog" where
  "select_target existing target d =
     (let d1 = d\<lparr>sd_selected := target\<rparr> in
      case target of
        None \<Rightarrow> d1
      | Some did \<Rightarrow> (case find (\<lambda>x. db_id x = did) existing of Some x \<Rightarrow> d1\<lparr>sd_name := db_name x\<rparr> | None \<Rightarrow> d1))"

definition dialog_save :: "save_dialog \<Rightarrow> save_dialog" where
  "dialog_save d = d\<lparr>sd_busy := True, sd_err := None\<rparr>"

definition dialog_answer :: "string + unit \<Rightarrow> save_dialog \<Rightarrow> save_dialog" where
  "dialog_answer answer d =
     (case answer of
        Inr _ \<Rightarrow> d\<lparr>sd_open := False, sd_busy := False\<rparr>
      | Inl e \<Rightarrow> d\<lparr>sd_err := Some e, sd_busy := False\<rparr>)"

definition dialog_disabled :: "save_dialog \<Rightarrow> bool" where
  "dialog_disabled d \<longleftrightarrow> sd_busy d \<or> js_trim (sd_name d) = []"

section \<open>The data-set browser\<close>

definition PAGE :: nat where "PAGE = 50"

record preview =
  pv_rows :: "data_row list"
  pv_total :: nat
  pv_offset :: nat
  pv_loading :: bool
  pv_err :: "string option"

definition open_preview :: preview where
  "open_preview = \<lparr>pv_rows = [], pv_total = 0, pv_offset = 0, pv_loading = True, pv_err = None\<rparr>"

definition preview_start :: "preview \<Rightarrow> preview" where
  "preview_start p = p\<lparr>pv_loading := True, pv_err := None\<rparr>"

definition preview_answer :: "string + (data_row list \<times> nat) \<Rightarrow> preview \<Rightarrow> preview" where
  "preview_answer answer p =
     (case answer of
        Inr (rows, amount) \<Rightarrow> p\<lparr>pv_rows := rows, pv_total := amount, pv_loading := False\<rparr>
      | Inl e \<Rightarrow> p\<lparr>pv_err := Some e, pv_loading := False\<rparr>)"

definition preview_prev :: "preview \<Rightarrow> preview" where
  "preview_prev p = (if pv_offset p = 0 then p else preview_start (p\<lparr>pv_offset := pv_offset p - PAGE\<rparr>))"

definition preview_next :: "preview \<Rightarrow> preview" where
  "preview_next p = (if pv_offset p + PAGE \<ge> pv_total p then p else preview_start (p\<lparr>pv_offset := pv_offset p + PAGE\<rparr>))"

definition page_no :: "preview \<Rightarrow> nat" where
  "page_no p = pv_offset p div PAGE + 1"

definition page_count :: "preview \<Rightarrow> nat" where
  "page_count p = max 1 ((pv_total p + PAGE - 1) div PAGE)"

text \<open>The cells of the table: \<open>JSON.stringify\<close> for objects, text for the rest.\<close>

definition preview_table :: "preview \<Rightarrow> string list \<times> string list list" where
  "preview_table p =
     (let cols = (case pv_rows p of [] \<Rightarrow> [] | r # _ \<Rightarrow> map fst r)
      in (cols, map (\<lambda>row. map (\<lambda>c. csv_text (map_of row c)) cols) (pv_rows p)))"

section \<open>What the page shows\<close>

text \<open>The toolbar: title, unsaved mark, error, whether sharing and deleting are offered, whether Save is locked.\<close>

record toolbar =
  tb_title :: string
  tb_unsaved :: bool
  tb_error :: "string option"
  tb_share_delete :: bool
  tb_save_locked :: bool

definition toolbar_of :: "analytics_page \<Rightarrow> toolbar" where
  "toolbar_of st =
     \<lparr>tb_title = (case ap_active st of Some db \<Rightarrow> db_name db | None \<Rightarrow> ''Untitled Dashboard''), tb_unsaved = ap_dirty st,
      tb_error = truthy (ap_error st), tb_share_delete = (ap_active st \<noteq> None), tb_save_locked = save_disabled st\<rparr>"

text \<open>The choices of the two selects: quarters of an hour, seconds.\<close>

definition hours_options :: "(int \<times> string) list" where
  "hours_options = [(1, ''15m''), (4, ''1h''), (24, ''6h''), (96, ''24h''), (672, ''7d'')]"

definition refresh_options :: "(nat \<times> string) list" where
  "refresh_options = [(0, ''No refresh''), (30, ''30s''), (60, ''1m''), (300, ''5m'')]"

text \<open>The sidebar: data sets with their size, dashboards with the mark of the active one.\<close>

definition dataset_rows :: "(int \<Rightarrow> string) \<Rightarrow> analytics_page \<Rightarrow> (string \<times> string) list" where
  "dataset_rows to_locale st = map (\<lambda>d. (ds_collection d, to_locale (ds_row_count d) @ '' rows'')) (ap_datasets st)"

definition dashboard_rows :: "analytics_page \<Rightarrow> string + (string \<times> bool) list" where
  "dashboard_rows st =
     (if ap_dashboards st = [] then Inl ''No saved dashboards.''
      else Inr (map (\<lambda>db. (db_name db, map_option db_id (ap_active st) = Some (db_id db))) (ap_dashboards st)))"

text \<open>A widget: its head, and an error in the place of the chart.\<close>

definition widget_head :: "analytics_page \<Rightarrow> widget_def \<Rightarrow> string \<times> string" where
  "widget_head st w =
     (w_title w, w_dataset w
        @ (if map_of (ap_loadingData st) (w_id w) = Some True then '' '' @ [CHR 0xC2, CHR 0xB7] @ '' loading'' @ [CHR 0xE2, CHR 0x80, CHR 0xA6]
           else ''''))"

definition widget_body :: "analytics_page \<Rightarrow> widget_def \<Rightarrow> string + widget_def" where
  "widget_body st w = (case truthy (map_of (ap_widgetErrors st) (w_id w)) of Some e \<Rightarrow> Inl e | None \<Rightarrow> Inr w)"

section \<open>The dialogs of the page\<close>

record page_dialogs =
  pd_showAdd :: bool
  pd_initialDataset :: "string option"
  pd_editing :: "widget_def option"
  pd_preview :: "string option"
  pd_showShare :: bool
  pd_showSave :: bool
  pd_refreshSec :: nat
  pd_gridWidth :: int

definition no_dialogs :: page_dialogs where
  "no_dialogs = \<lparr>pd_showAdd = False, pd_initialDataset = None, pd_editing = None, pd_preview = None, pd_showShare = False,
     pd_showSave = False, pd_refreshSec = 0, pd_gridWidth = 900\<rparr>"

definition addClicked :: "page_dialogs \<Rightarrow> page_dialogs" where
  "addClicked d = d\<lparr>pd_initialDataset := None, pd_editing := None, pd_showAdd := True\<rparr>"

definition addFirstClicked :: "page_dialogs \<Rightarrow> page_dialogs" where
  "addFirstClicked d = d\<lparr>pd_initialDataset := None, pd_showAdd := True\<rparr>"

definition editClicked :: "widget_def \<Rightarrow> page_dialogs \<Rightarrow> page_dialogs" where
  "editClicked w d = d\<lparr>pd_editing := Some w, pd_showAdd := True\<rparr>"

definition closeAdd :: "page_dialogs \<Rightarrow> page_dialogs" where
  "closeAdd d = d\<lparr>pd_showAdd := False, pd_editing := None\<rparr>"

definition browse :: "string \<Rightarrow> page_dialogs \<Rightarrow> page_dialogs" where
  "browse collection d = d\<lparr>pd_preview := Some collection\<rparr>"

definition closePreview :: "page_dialogs \<Rightarrow> page_dialogs" where
  "closePreview d = d\<lparr>pd_preview := None\<rparr>"

definition addFromPreview :: "page_dialogs \<Rightarrow> page_dialogs" where
  "addFromPreview d = d\<lparr>pd_initialDataset := pd_preview d, pd_editing := None, pd_showAdd := True, pd_preview := None\<rparr>"

definition setShare :: "bool \<Rightarrow> page_dialogs \<Rightarrow> page_dialogs" where
  "setShare b d = d\<lparr>pd_showShare := b\<rparr>"

definition setSave :: "bool \<Rightarrow> page_dialogs \<Rightarrow> page_dialogs" where
  "setSave b d = d\<lparr>pd_showSave := b\<rparr>"

definition setRefreshSec :: "nat \<Rightarrow> page_dialogs \<Rightarrow> page_dialogs" where
  "setRefreshSec n d = d\<lparr>pd_refreshSec := n\<rparr>"

text \<open>The period of the auto-refresh timer in milliseconds, when there is one.\<close>

definition refresh_timer :: "page_dialogs \<Rightarrow> nat option" where
  "refresh_timer d = (if pd_refreshSec d = 0 then None else Some (pd_refreshSec d * 1000))"

text \<open>The observer of the grid reports a width; none and zero are ignored.\<close>

definition gridResized :: "rat option \<Rightarrow> page_dialogs \<Rightarrow> page_dialogs" where
  "gridResized width d = (case width of Some w \<Rightarrow> if w \<noteq> 0 then d\<lparr>pd_gridWidth := \<lfloor>w\<rfloor>\<rparr> else d | None \<Rightarrow> d)"

text \<open>What is open, from the bottom to the top.\<close>

datatype page_dialog = ShareDialog string | PreviewDialog string | AddDialog "widget_def option" "string option" | SaveDialog

definition open_dialogs :: "analytics_page \<Rightarrow> page_dialogs \<Rightarrow> page_dialog list" where
  "open_dialogs st d =
     (case ap_active st of Some db \<Rightarrow> if pd_showShare d then [ShareDialog (db_id db)] else [] | None \<Rightarrow> [])
     @ (case truthy (pd_preview d) of Some p \<Rightarrow> if pd_showAdd d then [] else [PreviewDialog p] | None \<Rightarrow> [])
     @ (if pd_showAdd d then [AddDialog (pd_editing d) (pd_initialDataset d)] else [])
     @ (if pd_showSave d then [SaveDialog] else [])"

inductive dialogs_step :: "page_dialogs \<Rightarrow> page_dialogs \<Rightarrow> bool" where
  "dialogs_step d (addClicked d)"
| "dialogs_step d (addFirstClicked d)"
| "dialogs_step d (editClicked w d)"
| "dialogs_step d (closeAdd d)"
| "dialogs_step d (browse collection d)"
| "dialogs_step d (closePreview d)"
| "dialogs_step d (addFromPreview d)"
| "dialogs_step d (setShare b d)"
| "dialogs_step d (setSave b d)"
| "dialogs_step d (setRefreshSec n d)"
| "dialogs_step d (gridResized width d)"

section \<open>The widget form\<close>

text \<open>Its title, the data sets it offers, the mark of the chart type.\<close>

definition form_heading :: "widget_def option \<Rightarrow> string \<times> string" where
  "form_heading editing =
     (if editing \<noteq> None then (''Edit Widget'', ''Save widget '' @ u_arrow) else (''Add Widget'', ''Add widget '' @ u_arrow))"

definition dataset_options :: "(int \<Rightarrow> string) \<Rightarrow> dataset list \<Rightarrow> (string \<times> string) list" where
  "dataset_options to_locale ds =
     map (\<lambda>d. (ds_collection d, ds_collection d @ '' ('' @ to_locale (ds_row_count d) @ '' rows)'')) ds"

definition chart_buttons :: "widget_form \<Rightarrow> (chart_type \<times> bool) list" where
  "chart_buttons f = map (\<lambda>t. (t, wf_chartType f = t)) CHART_TYPES"

text \<open>The part with the columns: a notice, or the X and Y selects that are shown, each with its value; all offer the columns.\<close>

definition form_columns :: "widget_form \<Rightarrow> string + (string \<times> string) list" where
  "form_columns f =
     (if wf_loadingSchema f then Inl (''Loading schema'' @ [CHR 0xE2, CHR 0x80, CHR 0xA6])
      else case truthy (wf_schemaErr f) of
          Some e \<Rightarrow> Inl e
        | None \<Rightarrow> Inr ((if shows_xCol f then [(''X column'', wf_xCol f)] else []) @ (if shows_yCol f then [(''Y column'', wf_yCol f)] else [])))"

text \<open>The aggregation and, where it is shown, the time bucket; \<open>None\<close> is the entry without a bucket.\<close>

definition form_aggregation :: "widget_form \<Rightarrow> (agg_choice list \<times> bucket_interval option list option) option" where
  "form_aggregation f =
     (if wf_chartType f = TableChart then None
      else Some (AGG_OPTIONS, if shows_bucket f then Some (None # map Some BUCKETS) else None))"

definition form_filters :: "widget_form \<Rightarrow> filter_row list option" where
  "form_filters f = (if wf_fields f = [] then None else Some (wf_filters f))"

section \<open>The rest of the save dialog\<close>

definition target_options :: "dashboard list \<Rightarrow> (string \<times> string) list option" where
  "target_options existing =
     (if existing = [] then None else Some ((''new'', ''New dashboard'') # map (\<lambda>d. (db_id d, db_name d)) existing))"

definition save_button :: "save_dialog \<Rightarrow> string" where
  "save_button d = (if sd_busy d then ''Saving'' @ [CHR 0xE2, CHR 0x80, CHR 0xA6] else ''Save'')"

section \<open>The steps of a session\<close>

text \<open>The definition that the page would send now, and the stored one: without a window it means a day.\<close>

definition shown_definition :: "analytics_page \<Rightarrow> dashboard_definition" where
  "shown_definition st = dashboardDefinition (ap_widgets st) (ap_hours st)"

definition stored_definition :: "dashboard \<Rightarrow> dashboard_definition" where
  "stored_definition db = (db_definition db)\<lparr>dd_timeRangeHours := Some (nullish (dd_timeRangeHours (db_definition db)) 96)\<rparr>"

text \<open>
  One step of the page: an event of the user, the timer or the server. The user acts whenever the
  dashboard is drawn, also while a save or a deletion is under way: the save dialog can be
  closed before its answer. The server answers the requests in any order and stores what it was sent.
  A step says whether it loaded a dashboard or was the answer to a save, and of which definition.
\<close>

datatype page_event = LoadedBoard | StoredBoard dashboard_definition | OtherEvent

definition loaded_event :: "string + (dataset list \<times> dashboard list) \<Rightarrow> page_event" where
  "loaded_event answer = (case answer of Inr (ds, db # dbs) \<Rightarrow> LoadedBoard | _ \<Rightarrow> OtherEvent)"

definition deleted_event :: "dashboard \<times> dashboard list \<Rightarrow> string option + unit \<Rightarrow> page_event" where
  "deleted_event asked answer = (case answer of Inr _ \<Rightarrow> if remaining_of asked = [] then OtherEvent else LoadedBoard | Inl _ \<Rightarrow> OtherEvent)"

abbreviation acts :: "analytics_page \<Rightarrow> bool" where
  "acts st \<equiv> page_view st = DashboardView"

inductive page_step :: "analytics_page \<Rightarrow> page_event \<Rightarrow> analytics_page \<Rightarrow> bool" where
  Loaded: "ap_loadingDatasets st \<Longrightarrow> page_step st (loaded_event answer) (page_loaded now answer st)"
| Select: "acts st \<Longrightarrow> db \<in> set (ap_dashboards st) \<Longrightarrow> page_step st LoadedBoard (loadDashboard now db st)"
| Answered: "page_step st OtherEvent (fetch_answer wid answer st)"
| Add: "acts st \<Longrightarrow> page_step st OtherEvent (addWidget def st)"
| Remove: "acts st \<Longrightarrow> page_step st OtherEvent (removeWidget wid st)"
| Move: "acts st \<Longrightarrow> page_step st OtherEvent (handleLayoutChange newLayout st)"
| Window: "acts st \<Longrightarrow> page_step st OtherEvent (changeTimeRange now h st)"
| Tick: "page_step st OtherEvent (refresh_tick now st)"
| Save: "acts st \<Longrightarrow> page_step st OtherEvent (save_start existing name st)"
| Saved: "ap_saving st = before @ (existing, name, def) # after \<Longrightarrow>
    page_step st (StoredBoard def) (save_answer existing \<lparr>db_id = nullish existing fresh, db_name = name, db_definition = def\<rparr>
      (st\<lparr>ap_saving := before @ after\<rparr>))"
| SaveFailed: "ap_saving st = before @ request # after \<Longrightarrow> page_step st OtherEvent (st\<lparr>ap_saving := before @ after\<rparr>)"
| Delete: "acts st \<Longrightarrow> page_step st OtherEvent (delete_start confirmed st)"
| Deleted: "ap_deleting st = before @ asked # after \<Longrightarrow>
    page_step st (deleted_event asked answer) (delete_answer now asked answer (st\<lparr>ap_deleting := before @ after\<rparr>))"

text \<open>
  What a session has behind it: whether the last save that was answered, if no dashboard was loaded
  since, was outdated, that is, the page no longer showed what had been sent.
\<close>

fun outdated_after :: "page_event \<Rightarrow> analytics_page \<Rightarrow> bool \<Rightarrow> bool" where
  "outdated_after LoadedBoard st outdated = False"
| "outdated_after (StoredBoard def) st outdated = (def \<noteq> shown_definition st)"
| "outdated_after OtherEvent st outdated = outdated"

inductive page_reachable :: "int \<Rightarrow> analytics_page \<Rightarrow> bool \<Rightarrow> bool" for now where
  Start: "page_reachable now (initial_page now) False"
| Step: "page_reachable now st outdated \<Longrightarrow> page_step st event st' \<Longrightarrow> page_reachable now st' (outdated_after event st outdated)"

text \<open>What holds in every session; a request holds a definition with a window.\<close>

definition mark_inv :: "bool \<Rightarrow> analytics_page \<Rightarrow> bool" where
  "mark_inv outdated st \<longleftrightarrow>
     (\<forall>db. ap_active st = Some db \<and> \<not> ap_dirty st \<longrightarrow> (shown_definition st = stored_definition db \<longleftrightarrow> \<not> outdated))
   \<and> (\<forall>request\<in>set (ap_saving st). dd_timeRangeHours (snd (snd request)) \<noteq> None)"

lemma truncate_with_data [simp]: "widget.truncate (with_data rows w) = w"
  by (simp add: with_data_def widget.truncate_def widget.extend_def)

lemma truncate_data [simp]: "widget.truncate (w\<lparr>w_data := rows\<rparr>) = widget.truncate w"
  by (simp add: widget.truncate_def)

lemma fetch_start_keeps [simp]:
  "ap_widgets (fold (fetch_start window) ws st) = ap_widgets st"
  "ap_hours (fold (fetch_start window) ws st) = ap_hours st"
  "ap_active (fold (fetch_start window) ws st) = ap_active st"
  "ap_dirty (fold (fetch_start window) ws st) = ap_dirty st"
  "ap_saving (fold (fetch_start window) ws st) = ap_saving st"
  by (induction ws arbitrary: st) (simp_all add: fetch_start_def)

lemmas page_defs = shown_definition_def dashboardDefinition_def mark_inv_def Let_def

lemma shown_after_answer [simp]: "shown_definition (fetch_answer wid answer st) = shown_definition st"
  by (cases answer) (auto simp: fetch_answer_def page_defs comp_def)

lemma answer_keeps [simp]:
  "ap_active (fetch_answer wid answer st) = ap_active st" "ap_dirty (fetch_answer wid answer st) = ap_dirty st"
  "ap_saving (fetch_answer wid answer st) = ap_saving st"
  by (cases answer; simp add: fetch_answer_def Let_def)+

text \<open>A loaded dashboard is shown as stored; an edit is marked; what is sent is what is shown.\<close>

lemma load_shows:
  "mark_inv outdated st \<Longrightarrow> mark_inv False (loadDashboard now db st)"
  by (simp add: loadDashboard_def page_defs comp_def stored_definition_def)

lemma dirty_marked: "ap_dirty st' \<Longrightarrow> ap_saving st' = ap_saving st \<Longrightarrow> mark_inv outdated st \<Longrightarrow> mark_inv outdated st'"
  by (simp add: mark_inv_def)

lemma edits_are_dirty [simp]:
  "ap_dirty (addWidget def st)" "ap_dirty (removeWidget wid st)" "ap_dirty (changeTimeRange now h st)"
  "ap_saving (addWidget def st) = ap_saving st" "ap_saving (removeWidget wid st) = ap_saving st"
  "ap_saving (changeTimeRange now h st) = ap_saving st"
  by (simp_all add: addWidget_def removeWidget_def changeTimeRange_def Let_def fetch_start_def)

lemma move_marked: "mark_inv outdated st \<Longrightarrow> mark_inv outdated (handleLayoutChange l st)"
  by (auto simp: handleLayoutChange_def page_defs)

lemma tick_marked: "mark_inv outdated st \<Longrightarrow> mark_inv outdated (refresh_tick now st)"
  by (simp add: refresh_tick_def page_defs)

lemma save_sends_shown: "set (ap_saving (save_start existing name st)) = insert (existing, name, shown_definition st) (set (ap_saving st))"
  by (simp add: save_start_def shown_definition_def)

lemma save_marked: "mark_inv outdated st \<Longrightarrow> mark_inv outdated (save_start existing name st)"
  by (auto simp: save_start_def page_defs)

lemma saved_marked:
  assumes "mark_inv outdated st" and "ap_saving st = xs @ (existing, name, def) # ys"
  shows "mark_inv (def \<noteq> shown_definition st)
    (save_answer existing \<lparr>db_id = did, db_name = name, db_definition = def\<rparr> (st\<lparr>ap_saving := xs @ ys\<rparr>))"
proof -
  have "dd_timeRangeHours def \<noteq> None" using assms by (auto simp: mark_inv_def)
  then have "stored_definition \<lparr>db_id = did, db_name = name, db_definition = def\<rparr> = def"
    by (auto simp: stored_definition_def)
  then show ?thesis using assms by (auto simp: save_answer_def page_defs)
qed

lemma fewer_requests_marked: "mark_inv outdated st \<Longrightarrow> ap_saving st = xs @ r # ys \<Longrightarrow> mark_inv outdated (st\<lparr>ap_saving := xs @ ys\<rparr>)"
  by (simp add: page_defs)

lemma deleting_marked [simp]: "mark_inv outdated (st\<lparr>ap_deleting := ds\<rparr>) = mark_inv outdated st"
  by (simp add: page_defs)

lemma cleared_marked:
  "mark_inv outdated st \<Longrightarrow> mark_inv outdated (st\<lparr>ap_dashboards := ds, ap_active := None, ap_widgets := [], ap_layout := []\<rparr>)"
  by (simp add: page_defs)

lemma deleted_marked:
  assumes "mark_inv outdated st"
  shows "mark_inv (outdated_after (deleted_event asked answer) st outdated) (delete_answer now asked answer st)"
proof (cases answer)
  case Inl
  then show ?thesis using assms by (simp add: deleted_event_def delete_answer_def page_defs)
next
  case (Inr u)
  then show ?thesis using cleared_marked[OF assms] load_shows[OF cleared_marked[OF assms]]
    by (cases "remaining_of asked") (simp_all add: deleted_event_def delete_answer_def Let_def)
qed

lemma page_loaded_marked:
  assumes "mark_inv outdated st"
  shows "mark_inv (outdated_after (loaded_event answer) st outdated) (page_loaded now answer st)"
proof -
  have same: "mark_inv outdated (st\<lparr>ap_error := e, ap_datasets := ds, ap_dashboards := dbs\<rparr>)" for e ds dbs
    using assms by (simp add: page_defs)
  have loading: "mark_inv b (st'\<lparr>ap_loadingDatasets := False\<rparr>) = mark_inv b st'" for b st'
    by (simp add: page_defs)
  show ?thesis
    using assms load_shows[OF same]
    by (auto simp: page_loaded_def loaded_event_def Let_def loading same mark_inv_def shown_definition_def
        split: sum.splits list.splits prod.splits)
qed

lemma step_marked: "page_step st event st' \<Longrightarrow> mark_inv outdated st \<Longrightarrow> mark_inv (outdated_after event st outdated) st'"
proof (induction rule: page_step.induct)
  case (Loaded st answer now)
  then show ?case by (simp add: page_loaded_marked)
next
  case (Select st db now)
  then show ?case by (simp add: load_shows)
next
  case (Add st def)
  then show ?case by (simp add: dirty_marked[of _ st])
next
  case (Remove st wid)
  then show ?case by (simp add: dirty_marked[of _ st])
next
  case (Window st now h)
  then show ?case by (simp add: dirty_marked[of _ st])
next
  case (Move st l)
  then show ?case by (simp add: move_marked)
next
  case (Tick st now)
  then show ?case by (simp add: tick_marked)
next
  case (Save st existing name)
  then show ?case by (simp add: save_marked)
next
  case (Saved st xs existing name def ys fresh)
  then show ?case by (simp add: saved_marked)
next
  case (SaveFailed st xs r ys)
  then show ?case by (simp add: fewer_requests_marked)
next
  case (Delete st confirmed)
  then show ?case by (simp add: delete_start_def split: option.split)
next
  case (Deleted st xs asked ys answer now)
  have "outdated_after (deleted_event asked answer) (st\<lparr>ap_deleting := xs @ ys\<rparr>) outdated
      = outdated_after (deleted_event asked answer) st outdated"
    by (simp add: deleted_event_def split: sum.split)
  then show ?case using deleted_marked[of outdated "st\<lparr>ap_deleting := xs @ ys\<rparr>" asked answer now] Deleted by simp
qed (simp add: mark_inv_def)

lemma reachable_marked: "page_reachable now st outdated \<Longrightarrow> mark_inv outdated st"
proof (induction rule: page_reachable.induct)
  case Start
  show ?case by (simp add: initial_page_def mark_inv_def)
next
  case (Step st outdated event st')
  then show ?case using step_marked by blast
qed

section \<open>Properties\<close>

text \<open>C25: in every reachable state of the page, whatever was loaded, edited, moved, refreshed, saved or
  deleted before and in whatever order the answers came, an active dashboard that is not marked as
  unsaved shows its stored definition if and only if the last save, unless a dashboard was loaded
  since, was answered while the page still showed what had been sent. An edit made while the save
  is under way loses its mark to the answer; that is the only way an unsaved edit goes unmarked.\<close>

theorem unmarked_is_saved:
  assumes "page_reachable now st outdated" and "ap_active st = Some db" and "\<not> ap_dirty st"
  shows "shown_definition st = stored_definition db \<longleftrightarrow> \<not> outdated"
  using reachable_marked[OF assms(1)] assms(2,3) by (simp add: mark_inv_def)

abbreviation sample_dashboard :: dashboard where
  "sample_dashboard \<equiv> \<lparr>db_id = ''d1'', db_name = ''Sales'', db_definition = \<lparr>dd_widgets =
     [\<lparr>w_id = ''w1'', w_layout = \<lparr>gb_x = 0, gb_y = Some 0, gb_w = 4, gb_h = 4\<rparr>, w_type = Bar, w_dataset = ''orders'',
       w_title = ''Orders'', w_spec = no_query\<rparr>], dd_timeRangeHours = None\<rparr>\<rparr>"

abbreviation orders_set :: dataset where
  "orders_set \<equiv> \<lparr>ds_collection = ''orders'', ds_row_count = 3\<rparr>"

text \<open>A session that loads a dashboard, changes its window, saves and has the answer: it is clean and saved.\<close>

abbreviation windowed :: analytics_page where
  "windowed \<equiv> changeTimeRange 5 4 (page_loaded 5 (Inr ([orders_set], [sample_dashboard])) (initial_page 0))"

abbreviation windowed_def :: dashboard_definition where
  "windowed_def \<equiv> \<lparr>dd_widgets = dd_widgets (db_definition sample_dashboard), dd_timeRangeHours = Some 4\<rparr>"

lemmas session_defs = page_loaded_def loadDashboard_def changeTimeRange_def save_start_def save_answer_def removeWidget_def
  initial_page_def shown_definition_def dashboardDefinition_def fetch_start_def with_data_def widget.defs page_view_def Let_def

lemma windowed_reachable: "page_reachable 0 windowed False"
proof -
  have "page_reachable 0 (page_loaded 5 (Inr ([orders_set], [sample_dashboard])) (initial_page 0)) False"
    using Step[OF Start Loaded[of "initial_page 0" "Inr ([orders_set], [sample_dashboard])" 5]]
    by (simp add: loaded_event_def initial_page_def)
  from Step[OF this Window[of _ 5 4]] show ?thesis by (simp add: session_defs)
qed

theorem unmarked_is_saved_witness:
  "let st = save_answer (Some ''d1'') \<lparr>db_id = ''d1'', db_name = ''Sales'', db_definition = windowed_def\<rparr>
       ((save_start (Some ''d1'') ''Sales'' windowed)\<lparr>ap_saving := []\<rparr>)
   in shown_definition st = stored_definition \<lparr>db_id = ''d1'', db_name = ''Sales'', db_definition = windowed_def\<rparr>"
proof -
  have "page_reachable 0 (save_start (Some ''d1'') ''Sales'' windowed) False"
    using Step[OF windowed_reachable Save[of _ "Some ''d1''" "''Sales''"]] by (simp add: session_defs)
  from Step[OF this Saved[of _ "[]" "Some ''d1''" "''Sales''" windowed_def "[]" "''d1''"]]
  have "page_reachable 0 (save_answer (Some ''d1'') \<lparr>db_id = ''d1'', db_name = ''Sales'', db_definition = windowed_def\<rparr>
       ((save_start (Some ''d1'') ''Sales'' windowed)\<lparr>ap_saving := []\<rparr>)) False"
    by (simp add: session_defs)
  from unmarked_is_saved[OF this] show ?thesis by (simp add: save_answer_def)
qed

text \<open>The other side: the dialog is closed while the save runs and a widget is removed; the answer to
  the save then clears the mark, and the page without the widget passes for saved.\<close>

lemma edit_during_save_lost:
  "let st = save_answer (Some ''d1'') \<lparr>db_id = ''d1'', db_name = ''Sales'', db_definition = windowed_def\<rparr>
       ((removeWidget ''w1'' (save_start (Some ''d1'') ''Sales'' windowed))\<lparr>ap_saving := []\<rparr>)
   in page_reachable 0 st True \<and> \<not> ap_dirty st \<and> ap_widgets st = [] \<and> dd_widgets (db_definition (the (ap_active st))) \<noteq> []"
proof -
  have "page_reachable 0 (save_start (Some ''d1'') ''Sales'' windowed) False"
    using Step[OF windowed_reachable Save[of _ "Some ''d1''" "''Sales''"]] by (simp add: session_defs)
  from Step[OF this Remove[of _ "''w1''"]]
  have "page_reachable 0 (removeWidget ''w1'' (save_start (Some ''d1'') ''Sales'' windowed)) False"
    by (simp add: session_defs)
  from Step[OF this Saved[of _ "[]" "Some ''d1''" "''Sales''" windowed_def "[]" "''d1''"]]
  show ?thesis by (simp add: session_defs)
qed

text \<open>Nothing orders the answers of a widget either: rows of an older window replace those of the present one.\<close>

lemma late_rows_win:
  "let st = changeTimeRange 9 4 (changeTimeRange 5 96 (page_loaded 0 (Inr ([], [sample_dashboard])) (initial_page 0)));
       st' = fetch_answer ''w1'' (Inr [[(''n'', JNum 96)]]) (fetch_answer ''w1'' (Inr [[(''n'', JNum 4)]]) st)
   in ap_hours st' = 4 \<and> map w_data (ap_widgets st') = [Some [[(''n'', JNum 96)]]]"
  by (simp add: Let_def page_loaded_def loadDashboard_def changeTimeRange_def initial_page_def fetch_start_def
      fetch_answer_def with_data_def widget.defs)

section \<open>The browser's pages\<close>

text \<open>The states of the browser of a data set of a fixed size, after the first answer.\<close>

inductive browsing :: "nat \<Rightarrow> preview \<Rightarrow> bool" for amount where
  First: "browsing amount (preview_answer (Inr (rows, amount)) open_preview)"
| Prev: "browsing amount p \<Longrightarrow> browsing amount (preview_prev p)"
| Next: "browsing amount p \<Longrightarrow> browsing amount (preview_next p)"
| Rows: "browsing amount p \<Longrightarrow> browsing amount (preview_answer (Inr (rows, amount)) p)"
| Failed: "browsing amount p \<Longrightarrow> browsing amount (preview_answer (Inl e) p)"

lemma browsing_inv:
  "browsing amount p \<Longrightarrow> pv_total p = amount \<and> PAGE dvd pv_offset p \<and> (pv_offset p = 0 \<or> pv_offset p < amount)"
proof (induction rule: browsing.induct)
  case (Prev p)
  then show ?case by (auto simp: preview_prev_def preview_start_def intro: dvd_diff_nat)
next
  case (Next p)
  then show ?case by (auto simp: preview_next_def preview_start_def)
qed (auto simp: preview_answer_def open_preview_def)

text \<open>The browser never leaves the data set: however the buttons are used, the offset is a multiple of
  the page size, and the page number shown lies between one and the number of pages.\<close>

theorem browser_in_bounds:
  assumes "browsing amount p"
  shows "PAGE dvd pv_offset p \<and> 1 \<le> page_no p \<and> page_no p \<le> page_count p"
proof -
  note I = browsing_inv[OF assms]
  then obtain k where k: "pv_offset p = PAGE * k" by (auto elim: dvdE)
  have "k + 1 \<le> max 1 ((pv_total p + PAGE - 1) div PAGE)"
  proof (cases "k = 0")
    case False
    then have "PAGE * k < pv_total p" using I k by (auto simp: PAGE_def)
    then have "PAGE * (k + 1) \<le> pv_total p + PAGE - 1" by (simp add: PAGE_def)
    then have "PAGE * (k + 1) div PAGE \<le> (pv_total p + PAGE - 1) div PAGE" by (rule div_le_mono)
    then show ?thesis by (simp add: PAGE_def)
  qed simp
  then show ?thesis using I by (simp add: page_no_def page_count_def k PAGE_def)
qed

theorem browser_in_bounds_witness:
  "page_no (preview_next (preview_answer (Inr ([], 120)) open_preview)) \<le> page_count (preview_next (preview_answer (Inr ([], 120)) open_preview))"
  using browser_in_bounds[OF Next[OF First]] by blast

section \<open>Dialogs\<close>

text \<open>Whatever is clicked, at most one dialog of the widgets is open: a widget is being edited only in an open form, so the form
  for a new widget never starts from an old one, and the browser of a data set is not shown behind the form.\<close>

lemma editing_in_form:
  assumes "dialogs_step\<^sup>*\<^sup>* no_dialogs d"
  shows "(pd_editing d \<noteq> None \<longrightarrow> pd_showAdd d)
    \<and> length (filter (\<lambda>x. case x of PreviewDialog _ \<Rightarrow> True | AddDialog _ _ \<Rightarrow> True | _ \<Rightarrow> False) (open_dialogs st d)) \<le> 1"
proof -
  have "pd_editing d \<noteq> None \<longrightarrow> pd_showAdd d" using assms
  proof (induction rule: rtranclp_induct)
    case (step d d')
    from step(2,3) show ?case
      by (cases rule: dialogs_step.cases)
        (auto simp: addClicked_def addFirstClicked_def editClicked_def closeAdd_def browse_def closePreview_def addFromPreview_def
          setShare_def setSave_def setRefreshSec_def gridResized_def split: option.splits)
  qed (simp add: no_dialogs_def)
  then show ?thesis by (simp add: open_dialogs_def split: option.split)
qed

text \<open>The form does not match a schema to the data set it was asked for: the columns of the former one are offered for the
  present one when its answer is the later.\<close>

lemma schema_of_other_dataset:
  "let f0 = schema_start (f\<lparr>wf_dataset := ''orders''\<rparr>); f1 = schema_start (f0\<lparr>wf_dataset := ''users''\<rparr>);
      f2 = schema_answer (Inr [\<lparr>sf_name = ''order_id'', sf_type = ''String''\<rparr>]) (schema_answer (Inr [\<lparr>sf_name = ''email'', sf_type = ''String''\<rparr>]) f1)
    in wf_dataset f2 = ''users'' \<and> map sf_name (wf_fields f2) = [''order_id''] \<and> wf_xCol f2 = ''order_id''"
  by (simp add: schema_start_def schema_answer_def Let_def nth_opt_def)

end
