(* ===== verification/ShareLinks.thy ===== *)
theory ShareLinks
  imports PageText ApiClient
begin

text \<open>
  The links that share a dashboard, \<open>apps/web/src/components/analytics/ShareModal.tsx\<close>: the list of the active ones, the
  creation of a link and its revocation. The answers of the server come in any order; the clipboard is the text
  that was written to it last, when the browser allows it.
\<close>

record share =
  sr_hash :: string
  sr_expires_at :: string
  sr_created_at :: string

record share_modal =
  sm_shares :: "share list"
  sm_newUrl :: "string option"
  sm_busy :: bool
  sm_err :: "string option"
  sm_clipboard :: "string option"
  sm_calls :: "api_call list"

definition sm_load :: "string \<Rightarrow> share_modal \<Rightarrow> share_modal" where
  "sm_load dashboardId st = st\<lparr>sm_calls := sm_calls st @ [AnalyticsCall (ListDashboardShares dashboardId)]\<rparr>"

definition sm_load_answer :: "api_error + share list \<Rightarrow> share_modal \<Rightarrow> share_modal" where
  "sm_load_answer out st = (case out of Inr ss \<Rightarrow> st\<lparr>sm_shares := ss\<rparr> | Inl e \<Rightarrow> st\<lparr>sm_err := Some (error_message e)\<rparr>)"

definition sm_opened :: "string \<Rightarrow> share_modal" where
  "sm_opened dashboardId = sm_load dashboardId
     \<lparr>sm_shares = [], sm_newUrl = None, sm_busy = False, sm_err = None, sm_clipboard = None, sm_calls = []\<rparr>"

definition sm_create :: "string \<Rightarrow> share_modal \<Rightarrow> share_modal" where
  "sm_create dashboardId st =
     st\<lparr>sm_busy := True, sm_err := None, sm_calls := sm_calls st @ [AnalyticsCall (ShareDashboard dashboardId)]\<rparr>"

text \<open>The answer to a creation is the path of the link; the list is asked for again.\<close>

definition sm_create_answer :: "string \<Rightarrow> bool \<Rightarrow> string \<Rightarrow> api_error + string \<Rightarrow> share_modal \<Rightarrow> share_modal" where
  "sm_create_answer origin clipboard dashboardId out st =
     (case out of
        Inr shareUrl \<Rightarrow> sm_load dashboardId (st\<lparr>sm_newUrl := Some (origin @ shareUrl),
            sm_clipboard := (if clipboard then Some (origin @ shareUrl) else sm_clipboard st)\<rparr>)
      | Inl e \<Rightarrow> st\<lparr>sm_err := Some (error_message e)\<rparr>)\<lparr>sm_busy := False\<rparr>"

definition sm_copy :: "bool \<Rightarrow> share_modal \<Rightarrow> share_modal" where
  "sm_copy clipboard st = (case truthy (sm_newUrl st) of
     Some url \<Rightarrow> if clipboard then st\<lparr>sm_clipboard := Some url\<rparr> else st | None \<Rightarrow> st)"

definition sm_revoke :: "string \<Rightarrow> string \<Rightarrow> share_modal \<Rightarrow> share_modal" where
  "sm_revoke dashboardId h st = st\<lparr>sm_calls := sm_calls st @ [AnalyticsCall (RevokeDashboardShare dashboardId h)]\<rparr>"

definition sm_revoke_answer :: "string \<Rightarrow> api_error + json \<Rightarrow> share_modal \<Rightarrow> share_modal" where
  "sm_revoke_answer h out st =
     (case out of
        Inr _ \<Rightarrow> st\<lparr>sm_shares := filter (\<lambda>s. sr_hash s \<noteq> h) (sm_shares st)\<rparr>
      | Inl e \<Rightarrow> st\<lparr>sm_err := Some (error_message e)\<rparr>)"

text \<open>What is shown: the button, the new link, the error and the lines of the list.\<close>

definition last8 :: "string \<Rightarrow> string" where
  "last8 s = drop (length s - 8) s"

definition share_lines :: "(string \<Rightarrow> string) \<Rightarrow> share_modal \<Rightarrow> string list" where
  "share_lines locale_time st =
     (if sm_shares st = [] then [''No active share links.'']
      else map (\<lambda>s. u_ellipsis @ last8 (sr_hash s) @ '' '' @ u_middot @ '' expires '' @ locale_time (sr_expires_at s)) (sm_shares st))"

definition create_button :: "share_modal \<Rightarrow> string \<times> bool" where
  "create_button st = (if sm_busy st then ''Creating'' @ u_ellipsis else ''Create read-only link (24h)'', sm_busy st)"

section \<open>The list against the server\<close>

text \<open>The server's list and the modal, when a list is asked for only while no other request is under way: every answer is
  the state of the server at that moment.\<close>

inductive share_step :: "string \<Rightarrow> share_modal \<times> share list \<Rightarrow> share_modal \<times> share list \<Rightarrow> bool" for dash where
  Listed: "share_step dash (st, srv) (sm_load_answer (Inr srv) (sm_load dash st), srv)"
| ListFailed: "share_step dash (st, srv) (sm_load_answer (Inl e) (sm_load dash st), srv)"
| CreatedShare: "sr_hash s \<notin> sr_hash ` set srv \<Longrightarrow>
    share_step dash (st, srv) (sm_load_answer (Inr (s # srv)) (sm_create_answer origin cb dash (Inr url) (sm_create dash st)), s # srv)"
| CreateFailed: "share_step dash (st, srv) (sm_create_answer origin cb dash (Inl e) (sm_create dash st), srv)"
| RevokedShare: "s \<in> set (sm_shares st) \<Longrightarrow>
    share_step dash (st, srv) (sm_revoke_answer (sr_hash s) (Inr v) (sm_revoke dash (sr_hash s) st), filter (\<lambda>t. sr_hash t \<noteq> sr_hash s) srv)"
| RevokeFailed: "share_step dash (st, srv) (sm_revoke_answer h (Inl e) (sm_revoke dash h st), srv)"
| CopiedLink: "share_step dash (st, srv) (sm_copy cb st, srv)"

inductive share_reachable :: "string \<Rightarrow> share_modal \<times> share list \<Rightarrow> bool" for dash where
  ModalOpened: "share_reachable dash (sm_load_answer (Inr srv) (sm_opened dash), srv)"
| ModalStepped: "share_reachable dash s \<Longrightarrow> share_step dash s s' \<Longrightarrow> share_reachable dash s'"

text \<open>When requests do not overlap the modal lists exactly the active links of the server, through creations and
  revocations that succeed or fail, and no request concerns another dashboard.\<close>

theorem active_links_shown:
  assumes "share_reachable dash s"
  shows "sm_shares (fst s) = snd s
    \<and> (\<forall>c\<in>set (sm_calls (fst s)). c = AnalyticsCall (ListDashboardShares dash) \<or> c = AnalyticsCall (ShareDashboard dash)
         \<or> (\<exists>h. c = AnalyticsCall (RevokeDashboardShare dash h)))"
  using assms
proof (induction rule: share_reachable.induct)
  case (ModalOpened srv)
  show ?case by (simp add: sm_load_answer_def sm_opened_def sm_load_def)
next
  case (ModalStepped s s')
  from ModalStepped(2,3) show ?case
    by (cases rule: share_step.cases)
      (auto simp: sm_load_answer_def sm_load_def sm_create_answer_def sm_create_def sm_revoke_answer_def sm_revoke_def sm_copy_def
        split: option.splits)
qed

text \<open>When they do overlap, a list that left before a revocation brings the revoked link back.\<close>

lemma revoked_link_returns:
  "sm_shares (sm_load_answer (Inr [s]) (sm_revoke_answer (sr_hash s) (Inr v) (sm_revoke dash (sr_hash s) (sm_load dash st)))) = [s]"
  by (simp add: sm_load_answer_def)

theorem active_links_shown_witness:
  "sm_shares (sm_revoke_answer ''h1'' (Inr JNull) (sm_revoke ''d1'' ''h1''
     (sm_load_answer (Inr [\<lparr>sr_hash = ''h1'', sr_expires_at = '''', sr_created_at = ''''\<rparr>]) (sm_opened ''d1'')))) = []"
proof -
  let ?s = "\<lparr>sr_hash = ''h1'', sr_expires_at = '''', sr_created_at = ''''\<rparr>"
  have "share_reachable ''d1'' (sm_revoke_answer (sr_hash ?s) (Inr JNull) (sm_revoke ''d1'' (sr_hash ?s)
     (sm_load_answer (Inr [?s]) (sm_opened ''d1''))), filter (\<lambda>t. sr_hash t \<noteq> sr_hash ?s) [?s])"
    by (rule share_reachable.ModalStepped[OF share_reachable.ModalOpened share_step.RevokedShare]) (simp add: sm_load_answer_def)
  from active_links_shown[OF this] show ?thesis by simp
qed

end
