(* ===== verification/AuthPages.thy ===== *)
theory AuthPages
  imports PageText Session
begin

text \<open>
  Signing in and inviting: the password form, the sign-in page and the page of an invitation
  (\<open>apps/web/src/pages/auth.tsx\<close>) and the team of a workspace (\<open>pages/TeamPage.tsx\<close>). The switches
  of the build and the browser's validation of a form are parameters. Requests are the calls of theory ApiClient.
\<close>

section \<open>The password form\<close>

datatype auth_mode = LoginMode | RegisterMode

record password_form =
  pf_mode :: auth_mode
  pf_email :: string
  pf_password :: string
  pf_tenantName :: string
  pf_busy :: bool
  pf_err :: "json option"
  pf_left :: bool
  pf_calls :: "api_call list"

definition pf_opened :: "string \<Rightarrow> string option \<Rightarrow> password_form" where
  "pf_opened initialEmail inviteToken =
     \<lparr>pf_mode = (if truthy inviteToken \<noteq> None then RegisterMode else LoginMode), pf_email = initialEmail, pf_password = '''',
      pf_tenantName = '''', pf_busy = False, pf_err = None, pf_left = False, pf_calls = []\<rparr>"

text \<open>The body of a registration; \<open>JSON.stringify\<close> drops what is undefined.\<close>

definition form_body :: "string option \<Rightarrow> password_form \<Rightarrow> api_call" where
  "form_body inviteToken st =
     AccountCall (case pf_mode st of
       RegisterMode \<Rightarrow> RegisterWithPassword (JObj ([(''email'', JStr (pf_email st)), (''password'', JStr (pf_password st))]
         @ (case truthy (Some (pf_tenantName st)) of Some t \<Rightarrow> [(''tenantName'', JStr t)] | None \<Rightarrow> [])
         @ (case inviteToken of Some t \<Rightarrow> [(''inviteToken'', JStr t)] | None \<Rightarrow> [])))
     | LoginMode \<Rightarrow> LoginWithPassword (JObj [(''email'', JStr (pf_email st)), (''password'', JStr (pf_password st))]))"

definition submit :: "string option \<Rightarrow> password_form \<Rightarrow> password_form" where
  "submit inviteToken st = st\<lparr>pf_busy := True, pf_err := None, pf_calls := pf_calls st @ [form_body inviteToken st]\<rparr>"

text \<open>What a failed call shows: the \<open>error\<close> of the body of the answer when there is one, else the whole message.\<close>

definition message_body :: "string \<Rightarrow> string" where
  "message_body raw = (if CHR '' '' \<in> set raw then tl (dropWhile (\<lambda>c. c \<noteq> CHR '' '') raw) else '''')"

definition shown_error :: "string \<Rightarrow> json" where
  "shown_error raw =
     (case Option.bind (parse (message_body raw)) (\<lambda>p. json_prop p ''error'') of
        Some e \<Rightarrow> if truthy_json (Some e) then e else JStr raw
      | None \<Rightarrow> JStr raw)"

definition submit_answer :: "api_error + json \<Rightarrow> password_form \<Rightarrow> password_form" where
  "submit_answer out st =
     (case out of
        Inr _ \<Rightarrow> st\<lparr>pf_left := True\<rparr>
      | Inl e \<Rightarrow> st\<lparr>pf_err := Some (shown_error (error_message e)), pf_busy := False\<rparr>)"

definition switchMode :: "password_form \<Rightarrow> password_form" where
  "switchMode st = st\<lparr>pf_mode := (case pf_mode st of LoginMode \<Rightarrow> RegisterMode | RegisterMode \<Rightarrow> LoginMode), pf_err := None\<rparr>"

text \<open>The form: the inputs on display with whether they can be edited, the error and the buttons.\<close>

definition form_inputs :: "string option \<Rightarrow> password_form \<Rightarrow> (string \<times> bool) list" where
  "form_inputs inviteToken st =
     [(''Email'', truthy inviteToken = None), (''Password'', True)]
     @ (if pf_mode st = RegisterMode \<and> truthy inviteToken = None then [(''Workspace name (optional)'', True)] else [])"

definition form_texts :: "string option \<Rightarrow> password_form \<Rightarrow> string list" where
  "form_texts inviteToken st =
     [if truthy inviteToken \<noteq> None then ''Create your account'' else ''Or sign in with email'']
     @ [if pf_busy st then u_ellipsis else if pf_mode st = LoginMode then ''Sign in'' else ''Create account'']
     @ (if truthy inviteToken = None
        then [if pf_mode st = LoginMode then ''Need an account? Register'' else ''Already have an account? Sign in''] else [])"

text \<open>The user and the answers. Editing needs an input that is not read-only, submitting a button that is not
  disabled and a form that the browser finds valid.\<close>

inductive form_step :: "(string \<Rightarrow> string \<Rightarrow> bool) \<Rightarrow> string option \<Rightarrow> password_form \<Rightarrow> password_form \<Rightarrow> bool"
  for valid inviteToken where
  EmailEdited: "(''Email'', True) \<in> set (form_inputs inviteToken st) \<Longrightarrow> form_step valid inviteToken st (st\<lparr>pf_email := v\<rparr>)"
| PasswordEdited: "form_step valid inviteToken st (st\<lparr>pf_password := v\<rparr>)"
| TenantEdited: "(''Workspace name (optional)'', True) \<in> set (form_inputs inviteToken st) \<Longrightarrow>
    form_step valid inviteToken st (st\<lparr>pf_tenantName := v\<rparr>)"
| Switched: "truthy inviteToken = None \<Longrightarrow> form_step valid inviteToken st (switchMode st)"
| Submitted: "\<not> pf_busy st \<Longrightarrow> valid (pf_email st) (pf_password st) \<Longrightarrow> form_step valid inviteToken st (submit inviteToken st)"
| SubmitAnswered: "pf_busy st \<Longrightarrow> form_step valid inviteToken st (submit_answer out st)"

inductive form_reachable :: "(string \<Rightarrow> string \<Rightarrow> bool) \<Rightarrow> string \<Rightarrow> string option \<Rightarrow> password_form \<Rightarrow> bool"
  for valid initialEmail inviteToken where
  FormOpened: "form_reachable valid initialEmail inviteToken (pf_opened initialEmail inviteToken)"
| FormStepped: "form_reachable valid initialEmail inviteToken st \<Longrightarrow> form_step valid inviteToken st st' \<Longrightarrow>
    form_reachable valid initialEmail inviteToken st'"

section \<open>The sign-in page\<close>

text \<open>A property that an object has of itself is text; the names of \<open>Object.prototype\<close> are found too: functions,
  which React leaves out, and the prototype of the prototype, an object, on which React throws.\<close>

datatype looked_up = LookedText string | LookedFunction | LookedObject

definition OAUTH_ERRORS :: "(string \<times> string) list" where
  "OAUTH_ERRORS =
     [(''oauth_state'', ''Sign-in session expired. Please try again.''),
      (''oauth_token'', ''Could not complete sign-in. Please try again.''),
      (''oauth_profile'', ''Your account did not return a verified email.''),
      (''oauth_failed'', ''Sign-in failed. Please try again.''),
      (''oidc_token'', ''Could not complete SSO sign-in. Please try again.''),
      (''oidc_userinfo'', ''Could not retrieve your SSO profile. Please try again.''),
      (''oidc_profile'', ''Your SSO account did not return a verified email.''),
      (''oidc_failed'', ''SSO sign-in failed. Please try again.'')]"

definition prototype_functions :: "string list" where
  "prototype_functions = [''constructor'', ''toString'', ''toLocaleString'', ''valueOf'', ''hasOwnProperty'', ''isPrototypeOf'',
     ''propertyIsEnumerable'', ''__defineGetter__'', ''__defineSetter__'', ''__lookupGetter__'', ''__lookupSetter__'']"

definition looked_up_error :: "string \<Rightarrow> looked_up" where
  "looked_up_error c =
     (case map_of OAUTH_ERRORS c of
        Some t \<Rightarrow> LookedText t
      | None \<Rightarrow> if c = ''__proto__'' then LookedObject
                else if c \<in> set prototype_functions then LookedFunction else LookedText ''Sign-in failed.'')"

definition login_error :: "string option \<Rightarrow> looked_up option" where
  "login_error errorCode = map_option looked_up_error (truthy errorCode)"

datatype sign_in_way = GoogleWay | OidcWay | PasswordWay

datatype login_view =
    GoTo string
  | SignIn "sign_in_way list" "looked_up option" bool
  | ThrownView

definition LoginPage :: "bool \<Rightarrow> bool \<Rightarrow> bool \<Rightarrow> json option \<Rightarrow> string option \<Rightarrow> string option \<Rightarrow> login_view" where
  "LoginPage google oidc password user from errorCode =
     (if truthy_json user then GoTo (nullish from ''/'')
      else if login_error errorCode = Some LookedObject then ThrownView
      else SignIn ((if google then [GoogleWay] else []) @ (if oidc then [OidcWay] else []) @ (if password then [PasswordWay] else []))
             (login_error errorCode) (\<not> password))"

section \<open>The page of an invitation\<close>

record accept_page =
  ac_token :: "string option"
  ac_info :: "json option"
  ac_err :: "string option"
  ac_calls :: "api_call list"

definition info_effect :: "accept_page \<Rightarrow> accept_page" where
  "info_effect st =
     (case truthy (ac_token st) of
        None \<Rightarrow> st\<lparr>ac_err := Some ''Missing token.''\<rparr>
      | Some t \<Rightarrow> st\<lparr>ac_calls := ac_calls st @ [AccountCall (InviteInfo t)]\<rparr>)"

definition ac_opened :: "string option \<Rightarrow> accept_page" where
  "ac_opened token = info_effect \<lparr>ac_token = token, ac_info = None, ac_err = None, ac_calls = []\<rparr>"

definition token_changed :: "string option \<Rightarrow> accept_page \<Rightarrow> accept_page" where
  "token_changed token st = (if token = ac_token st then st else info_effect (st\<lparr>ac_token := token\<rparr>))"

definition info_answer :: "api_error + json \<Rightarrow> accept_page \<Rightarrow> accept_page" where
  "info_answer out st =
     (case out of
        Inr v \<Rightarrow> st\<lparr>ac_info := Some v\<rparr>
      | Inl e \<Rightarrow> st\<lparr>ac_err := Some (or_else (Some (error_message e)) ''Invalid invite.'')\<rparr>)"

text \<open>\<open>`${info.k}`\<close>.\<close>

definition info_text :: "json \<Rightarrow> string \<Rightarrow> string" where
  "info_text v k = (case v of JObj es \<Rightarrow> (case obj_get es k of Some p \<Rightarrow> to_string p | None \<Rightarrow> ''undefined'') | _ \<Rightarrow> ''undefined'')"

definition info_email :: "json \<Rightarrow> string" where
  "info_email v = nullish (json_string (json_prop v ''email'')) ''''"

datatype accept_view =
    InviteProblem string
  | LoadingInvite
  | JoinView string string bool "(string \<times> string option) option" bool

definition AcceptInvitePage :: "bool \<Rightarrow> bool \<Rightarrow> accept_page \<Rightarrow> accept_view" where
  "AcceptInvitePage google password st =
     (case (if truthy_json (ac_info st) then ac_info st else None) of
        None \<Rightarrow> (case truthy (ac_err st) of Some e \<Rightarrow> InviteProblem e | None \<Rightarrow> LoadingInvite)
      | Some v \<Rightarrow> JoinView (''Join '' @ info_text v ''tenantName'') (''You've been invited as '' @ info_text v ''role'' @ ''.'')
          google (if password then Some (info_email v, ac_token st) else None) (\<not> google \<and> \<not> password))"


section \<open>What a failed sign-in shows\<close>

text \<open>The error that the body of an answer names.\<close>

definition named_error :: "string \<Rightarrow> json option" where
  "named_error text = (case Option.bind (parse text) (\<lambda>p. json_prop p ''error'') of
     Some e \<Rightarrow> if truthy_json (Some e) then Some e else None | None \<Rightarrow> None)"

lemma digit_char_not_space: "d < 10 \<Longrightarrow> digit_char d \<noteq> CHR '' ''"
  by (auto simp: digit_char_def less_Suc_eq numeral_eq_Suc)

lemma nat_str_no_space: "CHR '' '' \<notin> set (nat_str n)"
proof (induction n rule: nat_str.induct)
  case (1 n)
  then show ?case
    by (subst nat_str.simps) (auto simp: digit_char_not_space[symmetric] dest: digit_char_not_space[of "n mod 10"] digit_char_not_space[of n])
qed

lemma int_str_no_space: "CHR '' '' \<notin> set (int_str i)"
  by (simp add: int_str_def nat_str_no_space)

lemma message_body_split: "CHR '' '' \<notin> set w \<Longrightarrow> message_body (w @ '' '' @ text) = text"
  by (auto simp: message_body_def dropWhile_append3 dropWhile_append)

lemma shown_error_named: "shown_error raw = nullish (named_error (message_body raw)) (JStr raw)"
  by (simp add: shown_error_def named_error_def split: option.split)

lemma own_messages_plain:
  "named_error (message_body (error_message NetworkError)) = None" "named_error (message_body (error_message BadJson)) = None"
  by (code_simp, code_simp)

text \<open>C32: What the form shows after a submit: nothing and the page is left when the request succeeds; when the
  server refuses, the \<open>error\<close> that its answer names, and the status with the whole body when it names none;
  when there is no answer, or no JSON in it, the message of the browser. The form can be used again in every case of failure.\<close>

theorem refusal_shown:
  "pf_err st = None \<Longrightarrow>
   (let st' = submit_answer (j r) st in
    (case r of
       Inl NetworkError \<Rightarrow> pf_err st' = Some (JStr ''Failed to fetch'') \<and> \<not> pf_busy st'
     | Inl e \<Rightarrow> pf_err st' = Some (shown_error (error_message e)) \<and> \<not> pf_busy st'
     | Inr res \<Rightarrow>
         (if \<not> response_ok res
          then pf_err st' = Some (nullish (named_error (nullish (rs_text res) ''''))
                 (JStr (int_str (rs_status res) @ '' '' @ nullish (rs_text res) ''''))) \<and> \<not> pf_busy st' \<and> pf_left st' = pf_left st
          else if Option.bind (rs_text res) parse = None
          then pf_err st' = Some (JStr (error_message BadJson)) \<and> \<not> pf_busy st' \<and> pf_left st' = pf_left st
          else pf_left st' \<and> pf_err st' = None)))"
  by (simp add: submit_answer_def j_def Let_def shown_error_named message_body_split[OF int_str_no_space, simplified] own_messages_plain[simplified]
      split: sum.split option.split api_error.split)

section \<open>An invitation is registered as it was issued\<close>

text \<open>C40: Whatever is done in the form of an invitation, every request it sends registers the invited address
  with the token of the invitation and no workspace of its own: the address cannot be edited, the form cannot be
  switched to signing in.\<close>

theorem invited_registers:
  assumes "form_reachable valid e (Some t) st" and "t \<noteq> ''''" and "c \<in> set (pf_calls st)"
  shows "\<exists>p. valid e p \<and> c = AccountCall (RegisterWithPassword
    (JObj [(''email'', JStr e), (''password'', JStr p), (''inviteToken'', JStr t)]))"
proof -
  let ?ok = "\<lambda>c. \<exists>p. valid e p \<and> c = AccountCall (RegisterWithPassword
    (JObj [(''email'', JStr e), (''password'', JStr p), (''inviteToken'', JStr t)]))"
  have "pf_mode st = RegisterMode \<and> pf_email st = e \<and> pf_tenantName st = '''' \<and> (\<forall>c\<in>set (pf_calls st). ?ok c)"
    using assms(1)
  proof (induction rule: form_reachable.induct)
    case FormOpened
    show ?case using assms(2) by (simp add: pf_opened_def truthy_def)
  next
    case (FormStepped st st')
    from FormStepped(2,3) show ?case
      by (cases rule: form_step.cases)
        (use assms(2) in \<open>auto simp: form_inputs_def submit_def form_body_def submit_answer_def truthy_def split: sum.split\<close>)
  qed
  then show ?thesis using assms(3) by blast
qed

section \<open>Where the sign-in leads\<close>

text \<open>The page a visitor was turned away from is kept for the sign-in page only: a user who is signed in by the time
  it is drawn is led back there, and a form that succeeds leaves for the root of the application (\<open>pf_left\<close>).\<close>

lemma turned_away_and_back:
  assumes "ProtectedRoute s path = RedirectToLogin from" and "truthy_json user"
  shows "LoginPage google oidc password user (Some from) code = GoTo path"
  using assms by (auto simp: ProtectedRoute_def LoginPage_def split: if_splits)

text \<open>An error code that names a property of every object is not one of the table: \<open>__proto__\<close> makes the page throw.\<close>

lemma proto_code_throws: "LoginPage google oidc password None from (Some ''__proto__'') = ThrownView"
  by (simp add: LoginPage_def truthy_json_def login_error_def truthy_def looked_up_error_def OAUTH_ERRORS_def)

text \<open>The answer about an earlier invitation is shown under the token of a later one.\<close>

lemma late_invitation_mixes:
  "t \<noteq> '''' \<Longrightarrow> t' \<noteq> '''' \<Longrightarrow> t' \<noteq> t \<Longrightarrow> truthy_json (Some v) \<Longrightarrow>
   AcceptInvitePage False True (info_answer (Inr v) (token_changed (Some t') (ac_opened (Some t))))
     = JoinView (''Join '' @ info_text v ''tenantName'') (''You've been invited as '' @ info_text v ''role'' @ ''.'')
         False (Some (info_email v, Some t')) False"
  by (simp add: AcceptInvitePage_def info_answer_def token_changed_def ac_opened_def info_effect_def truthy_def)

text \<open>The page of an invitation sends its token once and offers no form without the answer: a link without
  a token asks nothing and says so, a refusal is shown, and the form of an answered invitation carries the token
  that was asked about.\<close>

theorem invitation_guarded:
  "case truthy token of
     None \<Rightarrow> ac_calls (ac_opened token) = [] \<and> AcceptInvitePage google password (ac_opened token) = InviteProblem ''Missing token.''
   | Some t \<Rightarrow>
       ac_calls (ac_opened token) = [AccountCall (InviteInfo t)] \<and> AcceptInvitePage google password (ac_opened token) = LoadingInvite
       \<and> (case out of
            Inl e \<Rightarrow> AcceptInvitePage google password (info_answer out (ac_opened token)) = InviteProblem (or_else (Some (error_message e)) ''Invalid invite.'')
          | Inr v \<Rightarrow>
              (if truthy_json (Some v)
               then \<exists>title sub. AcceptInvitePage google password (info_answer out (ac_opened token))
                 = JoinView title sub google (if password then Some (info_email v, Some t) else None) (\<not> google \<and> \<not> password)
               else AcceptInvitePage google password (info_answer out (ac_opened token)) = LoadingInvite))"
  by (auto simp: AcceptInvitePage_def info_answer_def ac_opened_def info_effect_def truthy_def or_else_def truthy_json_def[of None]
      split: option.splits sum.split if_splits)

text \<open>Witnesses.\<close>

theorem refusal_shown_witness:
  "pf_err (submit_answer (j (Inr \<lparr>rs_status = 401, rs_text = Some ''{\"error\":\"invalid credentials\"}''\<rparr>)) (pf_opened '''' None))
     = Some (JStr ''invalid credentials'')"
proof -
  have n: "named_error ''{\"error\":\"invalid credentials\"}'' = Some (JStr ''invalid credentials'')" by code_simp
  have "pf_err (pf_opened '''' None) = None" by (simp add: pf_opened_def)
  from refusal_shown[OF this, of "Inr \<lparr>rs_status = 401, rs_text = Some ''{\"error\":\"invalid credentials\"}''\<rparr>"]
  show ?thesis by (simp add: Let_def response_ok_def n)
qed

theorem invited_registers_witness:
  "\<exists>p. (p :: string) \<noteq> '''' \<and> AccountCall (RegisterWithPassword (JObj [(''email'', JStr ''a@b.c''), (''password'', JStr ''longenough''), (''inviteToken'', JStr ''tok'')]))
     = AccountCall (RegisterWithPassword (JObj [(''email'', JStr ''a@b.c''), (''password'', JStr p), (''inviteToken'', JStr ''tok'')]))"
proof -
  let ?valid = "\<lambda>_ p. p \<noteq> ''''" and ?t = "Some ''tok''"
  let ?st = "(pf_opened ''a@b.c'' ?t)\<lparr>pf_password := ''longenough''\<rparr>"
  have r: "form_reachable ?valid ''a@b.c'' ?t (submit ?t ?st)"
    by (rule form_reachable.FormStepped[OF form_reachable.FormStepped[OF form_reachable.FormOpened form_step.PasswordEdited] form_step.Submitted])
      (simp_all add: pf_opened_def)
  have "AccountCall (RegisterWithPassword (JObj [(''email'', JStr ''a@b.c''), (''password'', JStr ''longenough''), (''inviteToken'', JStr ''tok'')]))
      \<in> set (pf_calls (submit ?t ?st))"
    by (simp add: submit_def form_body_def pf_opened_def truthy_def)
  from invited_registers[OF r _ this] show ?thesis by simp
qed

end
