(* ===== verification/TeamPage.thy ===== *)
theory TeamPage
  imports Session
begin

text \<open>
  The team of a workspace, \<open>apps/web/src/pages/TeamPage.tsx\<close>: its members, its pending invitations and the form
  that sends one. The state keeps the requests that were sent and those that wait for an answer.
\<close>

record member =
  mb_id :: string
  mb_email :: string
  mb_role :: string
  mb_email_verified :: bool
  mb_created_at :: string

record invitation =
  iv_email :: string
  iv_role :: string
  iv_expires_at :: string
  iv_created_at :: string

datatype team_role = MemberRole | OwnerRole

fun team_role_str :: "team_role \<Rightarrow> string" where
  "team_role_str MemberRole = ''member''"
| "team_role_str OwnerRole = ''owner''"

record team_page =
  tm_members :: "member list"
  tm_invites :: "invitation list"
  tm_email :: string
  tm_role :: team_role
  tm_msg :: string
  tm_busy :: bool
  tm_calls :: "api_call list"
  tm_pending :: "string list"
  tm_accepted :: "string list"

text \<open>\<open>refresh\<close>: both lists are asked for; without the list of invitations an empty one is shown.\<close>

definition tm_refresh :: "team_page \<Rightarrow> team_page" where
  "tm_refresh st = st\<lparr>tm_calls := tm_calls st @ [AccountCall ListMembers, AccountCall ListInvitations]\<rparr>"

definition tm_refresh_answer :: "api_error + member list \<Rightarrow> api_error + invitation list \<Rightarrow> team_page \<Rightarrow> team_page" where
  "tm_refresh_answer m i st =
     (case m of
        Inr ms \<Rightarrow> st\<lparr>tm_members := ms, tm_invites := (case i of Inr is \<Rightarrow> is | Inl _ \<Rightarrow> [])\<rparr>
      | Inl e \<Rightarrow> st\<lparr>tm_msg := error_message e\<rparr>)"

definition tm_opened :: team_page where
  "tm_opened = tm_refresh \<lparr>tm_members = [], tm_invites = [], tm_email = '''', tm_role = MemberRole, tm_msg = '''', tm_busy = False,
     tm_calls = [], tm_pending = [], tm_accepted = []\<rparr>"

text \<open>\<open>invite\<close>: the address is the one of the moment of the submit (\<open>tm_pending\<close>); accepted ones are recorded.\<close>

definition invite_body :: "team_page \<Rightarrow> api_call" where
  "invite_body st = AccountCall (Invite (JObj [(''email'', JStr (tm_email st)), (''role'', JStr (team_role_str (tm_role st)))]))"

definition tm_invite :: "team_page \<Rightarrow> team_page" where
  "tm_invite st = st\<lparr>tm_msg := '''', tm_busy := True, tm_calls := tm_calls st @ [invite_body st], tm_pending := tm_pending st @ [tm_email st]\<rparr>"

definition invited_text :: "string \<Rightarrow> string" where
  "invited_text email = ''Invited '' @ email @ ''.''"

definition tm_invite_answer :: "string \<Rightarrow> api_error + json \<Rightarrow> team_page \<Rightarrow> team_page" where
  "tm_invite_answer email out st =
     (let st1 = st\<lparr>tm_pending := remove1 email (tm_pending st)\<rparr> in
      (case out of
         Inr _ \<Rightarrow> tm_refresh (st1\<lparr>tm_msg := invited_text email, tm_email := '''', tm_accepted := tm_accepted st @ [email]\<rparr>)
       | Inl e \<Rightarrow> st1\<lparr>tm_msg := error_message e\<rparr>)\<lparr>tm_busy := False\<rparr>)"

text \<open>\<open>revoke\<close>, its answer and the answer of the refresh that it waits for.\<close>

definition tm_revoke :: "string \<Rightarrow> team_page \<Rightarrow> team_page" where
  "tm_revoke email st = st\<lparr>tm_msg := '''', tm_busy := True, tm_calls := tm_calls st @ [AccountCall (RevokeInvite email)]\<rparr>"

definition tm_revoke_answer :: "api_error + json \<Rightarrow> team_page \<Rightarrow> team_page" where
  "tm_revoke_answer out st =
     (case out of Inr _ \<Rightarrow> tm_refresh st | Inl e \<Rightarrow> st\<lparr>tm_msg := error_message e, tm_busy := False\<rparr>)"

definition tm_revoke_refreshed :: "api_error + member list \<Rightarrow> api_error + invitation list \<Rightarrow> team_page \<Rightarrow> team_page" where
  "tm_revoke_refreshed m i st = (tm_refresh_answer m i st)\<lparr>tm_busy := False\<rparr>"

section \<open>What the page shows\<close>

definition is_owner :: "json option \<Rightarrow> bool" where
  "is_owner user \<longleftrightarrow> Option.bind user (\<lambda>u. json_prop u ''role'') = Some (JStr ''owner'')"

definition member_line :: "member \<Rightarrow> string list" where
  "member_line m = [mb_email m, mb_role m] @ (if mb_email_verified m then [] else [''unverified''])"

definition members_heading :: "team_page \<Rightarrow> string" where
  "members_heading st = ''Members ('' @ nat_str (length (tm_members st)) @ '')''"

definition pending_section :: "json option \<Rightarrow> team_page \<Rightarrow> (string \<times> (string \<times> string) list) option" where
  "pending_section user st =
     (if is_owner user
      then Some (''Pending invites ('' @ nat_str (length (tm_invites st)) @ '')'', map (\<lambda>i. (iv_email i, iv_role i)) (tm_invites st))
      else None)"

definition can_invite :: "json option \<Rightarrow> team_page \<Rightarrow> bool" where
  "can_invite user st \<longleftrightarrow> is_owner user \<and> \<not> tm_busy st \<and> tm_email st \<noteq> ''''"

definition can_revoke :: "json option \<Rightarrow> team_page \<Rightarrow> string \<Rightarrow> bool" where
  "can_revoke user st email \<longleftrightarrow> is_owner user \<and> email \<in> set (map iv_email (tm_invites st))"

section \<open>The page at work\<close>

inductive team_step :: "json option \<Rightarrow> team_page \<Rightarrow> team_page \<Rightarrow> bool" for user where
  TeamRefreshed: "team_step user st (tm_refresh_answer m i st)"
| InviteeEdited: "is_owner user \<Longrightarrow> team_step user st (st\<lparr>tm_email := v\<rparr>)"
| RoleEdited: "is_owner user \<Longrightarrow> team_step user st (st\<lparr>tm_role := r\<rparr>)"
| InviteSent: "can_invite user st \<Longrightarrow> team_step user st (tm_invite st)"
| InviteAnswered: "email \<in> set (tm_pending st) \<Longrightarrow> team_step user st (tm_invite_answer email out st)"
| RevokeSent: "can_revoke user st email \<Longrightarrow> team_step user st (tm_revoke email st)"
| RevokeAnswered: "RevokeInvite email \<in> {c. AccountCall c \<in> set (tm_calls st)} \<Longrightarrow> team_step user st (tm_revoke_answer out st)"
| RevokeRefreshed: "RevokeInvite email \<in> {c. AccountCall c \<in> set (tm_calls st)} \<Longrightarrow> team_step user st (tm_revoke_refreshed m i st)"

inductive team_reachable :: "json option \<Rightarrow> team_page \<Rightarrow> bool" for user where
  TeamOpened: "team_reachable user tm_opened"
| TeamStepped: "team_reachable user st \<Longrightarrow> team_step user st st' \<Longrightarrow> team_reachable user st'"

lemmas tm_defs = tm_refresh_def tm_refresh_answer_def tm_invite_def tm_invite_answer_def tm_revoke_def tm_revoke_answer_def
  tm_revoke_refreshed_def Let_def

text \<open>Only an owner changes the team: in a session of another role the page asks for the two lists, nothing else,
  and offers neither the form nor the list of invitations.\<close>

theorem only_owner_invites:
  assumes "team_reachable user st" and "\<not> is_owner user"
  shows "set (tm_calls st) \<subseteq> {AccountCall ListMembers, AccountCall ListInvitations}
    \<and> pending_section user st = None \<and> \<not> can_invite user st \<and> (\<forall>email. \<not> can_revoke user st email)"
proof -
  have "set (tm_calls st) \<subseteq> {AccountCall ListMembers, AccountCall ListInvitations} \<and> tm_pending st = []" using assms(1)
  proof (induction rule: team_reachable.induct)
    case TeamOpened
    show ?case by (simp add: tm_opened_def tm_refresh_def)
  next
    case (TeamStepped st st')
    from TeamStepped(2,3) show ?case
      by (cases rule: team_step.cases)
        (use assms(2) in \<open>auto simp: tm_defs can_invite_def can_revoke_def split: sum.splits\<close>)
  qed
  then show ?thesis using assms(2) by (simp add: pending_section_def can_invite_def can_revoke_def)
qed

text \<open>The page reports no invitation that the server did not accept: every accepted address was sent in a request,
  with one of the two roles, and a message that says an address was invited names one of them, unless an error of
  the server reads so.\<close>

definition sent_to :: "team_page \<Rightarrow> string \<Rightarrow> bool" where
  "sent_to st email \<longleftrightarrow> (\<exists>r. AccountCall (Invite (JObj [(''email'', JStr email), (''role'', JStr (team_role_str r))])) \<in> set (tm_calls st))"

definition reports :: "team_page \<Rightarrow> bool" where
  "reports st \<longleftrightarrow> tm_msg st \<in> {''''} \<union> error_message ` UNIV \<union> invited_text ` set (tm_accepted st)"

definition addressed :: "team_page \<Rightarrow> bool" where
  "addressed st \<longleftrightarrow> (\<forall>email\<in>set (tm_pending st) \<union> set (tm_accepted st). email \<noteq> '''' \<and> sent_to st email)"

lemma sent_to_more: "sent_to st email \<Longrightarrow> set (tm_calls st) \<subseteq> set (tm_calls st') \<Longrightarrow> sent_to st' email"
  by (auto simp: sent_to_def)

lemma addressed_more:
  "addressed st \<Longrightarrow> set (tm_calls st) \<subseteq> set (tm_calls st') \<Longrightarrow>
   set (tm_pending st') \<union> set (tm_accepted st') \<subseteq> set (tm_pending st) \<union> set (tm_accepted st) \<Longrightarrow> addressed st'"
  unfolding addressed_def by (meson sent_to_more subsetD)

lemma reports_step: "reports st \<Longrightarrow> team_step user st st' \<Longrightarrow> reports st'"
  by (erule team_step.cases) (auto simp: reports_def tm_defs split: sum.split)

lemma addressed_sent: "addressed st \<Longrightarrow> tm_email st \<noteq> '''' \<Longrightarrow> addressed (tm_invite st)"
  by (auto simp: addressed_def sent_to_def tm_invite_def invite_body_def)

lemma addressed_answered: "addressed st \<Longrightarrow> email \<in> set (tm_pending st) \<Longrightarrow> addressed (tm_invite_answer email out st)"
  by (erule addressed_more) (auto simp: tm_defs split: sum.split dest: set_remove1_subset[THEN subsetD])

lemma addressed_step: "addressed st \<Longrightarrow> team_step user st st' \<Longrightarrow> addressed st'"
proof (erule team_step.cases)
  fix email out sta
  assume "addressed st" "st = sta" "st' = tm_invite_answer email out sta" "email \<in> set (tm_pending sta)"
  then show ?thesis by (simp add: addressed_answered)
next
  fix sta
  assume "addressed st" "st = sta" "st' = tm_invite sta" "can_invite user sta"
  then show ?thesis by (simp add: addressed_sent can_invite_def)
qed (auto elim!: addressed_more simp: tm_refresh_def tm_refresh_answer_def tm_revoke_def tm_revoke_answer_def tm_revoke_refreshed_def split: sum.splits)

theorem invitations_reported:
  assumes "team_reachable user st"
  shows "(tm_msg st = '''' \<or> (\<exists>e. tm_msg st = error_message e) \<or> (\<exists>email\<in>set (tm_accepted st). tm_msg st = invited_text email))
    \<and> (\<forall>email\<in>set (tm_accepted st). email \<noteq> '''' \<and> sent_to st email)"
proof -
  have "reports st \<and> addressed st" using assms
  proof (induction rule: team_reachable.induct)
    case TeamOpened
    show ?case by (simp add: reports_def addressed_def tm_opened_def tm_refresh_def)
  next
    case (TeamStepped st st')
    then show ?case using reports_step addressed_step by blast
  qed
  then show ?thesis unfolding reports_def addressed_def by blast
qed

text \<open>Revoking sets and clears the same \<open>busy\<close> as inviting: a revocation that fails unlocks the form while an invitation
  is under way, and the answer of an invitation empties the field whatever was typed in the meantime.\<close>

lemma revoke_unlocks:
  "\<not> tm_busy (tm_revoke_answer (Inl e) (tm_revoke email (tm_invite st))) \<and> tm_pending (tm_revoke_answer (Inl e) (tm_revoke email (tm_invite st))) \<noteq> []"
  by (simp add: tm_defs)

lemma typed_address_lost: "tm_email (tm_invite_answer (tm_email st) (Inr v) ((tm_invite st)\<lparr>tm_email := typed\<rparr>)) = ''''"
  by (simp add: tm_defs)

text \<open>Witnesses.\<close>

theorem only_owner_invites_witness:
  "set (tm_calls tm_opened) \<subseteq> {AccountCall ListMembers, AccountCall ListInvitations}"
  using only_owner_invites[OF team_reachable.TeamOpened[of None]] by (simp add: is_owner_def)

theorem invitations_reported_witness:
  "sent_to (tm_invite_answer ''a@b.c'' (Inr JNull) (tm_invite (tm_opened\<lparr>tm_email := ''a@b.c''\<rparr>))) ''a@b.c''"
proof -
  let ?u = "Some (JObj [(''role'', JStr ''owner'')])"
  let ?s = "tm_invite_answer ''a@b.c'' (Inr JNull) (tm_invite (tm_opened\<lparr>tm_email := ''a@b.c''\<rparr>))"
  have o: "is_owner ?u" by (simp add: is_owner_def json_prop_def obj_get_def)
  have r: "team_reachable ?u ?s"
    by (rule team_reachable.TeamStepped[OF team_reachable.TeamStepped[OF team_reachable.TeamStepped[OF
          team_reachable.TeamOpened team_step.InviteeEdited[OF o]] team_step.InviteSent] team_step.InviteAnswered])
      (use o in \<open>simp_all add: can_invite_def tm_opened_def tm_refresh_def tm_invite_def\<close>)
  have "''a@b.c'' \<in> set (tm_accepted ?s)" by (simp add: tm_defs tm_opened_def)
  with invitations_reported[OF r] show ?thesis by blast
qed

end
