(* ===== verification/Shell.thy ===== *)
theory Shell
  imports AuthPages
begin

text \<open>
  The frame of the application: the routes of \<open>apps/web/src/App.tsx\<close> behind the guard of theory Session, the
  navigation and the header of \<open>components/AppShell.tsx\<close>, the error boundary (\<open>components/RouteErrorBoundary.tsx\<close>),
  the settings (\<open>pages/SettingsPage.tsx\<close>) and the profile (\<open>pages/ProfilePage.tsx\<close>).

  The router is used as it is documented: a route matches segment by segment without regard to case, a slash at
  the end does not count, and a link is active on its page and on the pages below it.
\<close>

section \<open>Routes\<close>

datatype screen =
    CanvasScreen | PipelinesScreen | LifecycleScreen | RunsScreen | RunDetailScreen | LineageScreen | MonitoringScreen
  | ConnectorsScreen | BillingScreen | AnalyticsScreen | TeamScreen | SettingsScreen | ProfileScreen

datatype element =
    LoginElement
  | AcceptInviteElement
  | Bare screen
  | Shelled screen
  | RedirectElement string

definition ROUTES :: "(string list \<times> element) list" where
  "ROUTES =
     [([''login''], LoginElement), ([''accept-invite''], AcceptInviteElement),
      ([], Bare CanvasScreen),
      ([''ai-builder''], RedirectElement ''/?ai=1''),
      ([''pipelines''], Shelled PipelinesScreen), ([''lifecycle''], Shelled LifecycleScreen), ([''runs''], Shelled RunsScreen),
      ([''runs'', '':id''], Shelled RunDetailScreen), ([''lineage''], Shelled LineageScreen),
      ([''monitoring''], Shelled MonitoringScreen), ([''connectors''], Shelled ConnectorsScreen),
      ([''billing''], Shelled BillingScreen), ([''analytics''], Shelled AnalyticsScreen), ([''team''], Shelled TeamScreen),
      ([''settings''], Shelled SettingsScreen), ([''profile''], Shelled ProfileScreen)]"

text \<open>The segments of a path name, which starts with a slash.\<close>

definition strip_slashes :: "string \<Rightarrow> string" where
  "strip_slashes s = rev (dropWhile (\<lambda>c. c = CHR ''/'') (rev s))"

definition segments :: "string \<Rightarrow> string list" where
  "segments pathname = (let s = strip_slashes (drop 1 pathname) in if s = [] then [] else split_char (CHR ''/'') s)"

definition segment_matches :: "string \<Rightarrow> string \<Rightarrow> bool" where
  "segment_matches p s \<longleftrightarrow> (if p = '':id'' then s \<noteq> [] else to_lower s = p)"

definition route_of :: "string \<Rightarrow> element option" where
  "route_of pathname = map_option snd (find (\<lambda>r. list_all2 segment_matches (fst r) (segments pathname)) ROUTES)"

text \<open>What the application shows: the page with or without its frame, nothing when no route matches.\<close>

datatype app_view =
    LoginRoute
  | InviteRoute
  | WaitingView
  | TurnedAway string
  | ScreenView bool screen
  | MovedTo string
  | NothingView

definition app_view :: "'w session \<Rightarrow> string \<Rightarrow> app_view" where
  "app_view st pathname =
     (case route_of pathname of
        None \<Rightarrow> NothingView
      | Some LoginElement \<Rightarrow> LoginRoute
      | Some AcceptInviteElement \<Rightarrow> InviteRoute
      | Some el \<Rightarrow>
          (case ProtectedRoute st pathname of
             LoadingView \<Rightarrow> WaitingView
           | RedirectToLogin from \<Rightarrow> TurnedAway from
           | Children \<Rightarrow> (case el of Bare s \<Rightarrow> ScreenView False s | Shelled s \<Rightarrow> ScreenView True s | RedirectElement to \<Rightarrow> MovedTo to
               | _ \<Rightarrow> NothingView)))"

section \<open>The frame\<close>

definition NAV :: "(string \<times> string) list" where
  "NAV =
     [(''/pipelines'', ''Pipelines''), (''/lifecycle'', ''Lifecycle''), (''/runs'', ''Runs''), (''/monitoring'', ''Monitoring''),
      (''/lineage'', ''Lineage''), (''/connectors'', ''Connectors''), (''/analytics'', ''Analytics''), (''/team'', ''Team''),
      (''/billing'', ''Billing'')]"

definition PAGE_META :: "(string \<times> string \<times> string) list" where
  "PAGE_META =
     [(''/pipelines'', ''Pipelines'', ''Build & orchestrate''), (''/lifecycle'', ''Lifecycle'', ''Promote & gate''),
      (''/runs'', ''Runs'', ''History & observability''), (''/monitoring'', ''Monitoring'', ''Reliability & health''),
      (''/lineage'', ''Lineage'', ''Workspace architecture''), (''/connectors'', ''Connect accounts'', ''Data sources''),
      (''/analytics'', ''Analytics'', ''Explore outcomes''), (''/team'', ''Team'', ''Workspace access''),
      (''/billing'', ''Billing'', ''Usage & plan''), (''/settings'', ''Settings'', ''Preferences''),
      (''/profile'', ''Profile'', ''Your account'')]"

definition page_meta :: "string \<Rightarrow> string \<times> string" where
  "page_meta pathname =
     (case map_of PAGE_META pathname of
        Some m \<Rightarrow> m
      | None \<Rightarrow>
          (case Option.bind (find (\<lambda>k. starts_with (k @ ''/'') pathname) (map fst PAGE_META)) (map_of PAGE_META) of
             Some m \<Rightarrow> m
           | None \<Rightarrow> (''Pipelines'', ''Build & orchestrate'')))"

definition link_active :: "string \<Rightarrow> string \<Rightarrow> bool" where
  "link_active to pathname \<longleftrightarrow>
     (let p = to_lower pathname; t = to_lower to in p = t \<or> starts_with (t @ ''/'') p)"

definition active_links :: "string \<Rightarrow> string list" where
  "active_links pathname = map snd (filter (\<lambda>n. link_active (fst n) pathname) NAV)"

definition upper_char :: "char \<Rightarrow> char" where
  "upper_char c = (let n = of_char c :: nat in if 97 \<le> n \<and> n \<le> 122 then char_of (n - 32) else c)"

text \<open>An address is plain ASCII: its first two characters are two bytes.\<close>

definition user_text :: "json option \<Rightarrow> string \<Rightarrow> string option" where
  "user_text user k = map_option to_string (Option.bind user (\<lambda>u. json_prop u k))"

definition initials :: "json option \<Rightarrow> string" where
  "initials user = nullish (map_option (\<lambda>e. map upper_char (take 2 e)) (user_text user ''email'')) ''DF''"

record app_shell =
  sh_sidebarOpen :: bool
  sh_bannerDismissed :: bool

definition sh_opened :: app_shell where
  "sh_opened = \<lparr>sh_sidebarOpen = False, sh_bannerDismissed = False\<rparr>"

definition sh_openSidebar :: "app_shell \<Rightarrow> app_shell" where
  "sh_openSidebar st = st\<lparr>sh_sidebarOpen := True\<rparr>"

definition sh_closeSidebar :: "app_shell \<Rightarrow> app_shell" where
  "sh_closeSidebar st = st\<lparr>sh_sidebarOpen := False\<rparr>"

definition sh_dismiss :: "app_shell \<Rightarrow> app_shell" where
  "sh_dismiss st = st\<lparr>sh_bannerDismissed := True\<rparr>"

text \<open>\<open>doLogout\<close>: the session after it and the address that replaces the present one.\<close>

definition doLogout :: "'w fetch \<Rightarrow> 'w session \<Rightarrow> 'w session \<times> string" where
  "doLogout fetch st = (logout fetch st, ''/login'')"

text \<open>What the frame shows: the banner, the heading with the user, the two lists of links and the button of the theme. A link
  is its address, its text and whether it is the active one; one of the menu for small screens closes the menu.\<close>

definition banner :: "app_shell \<Rightarrow> string option" where
  "banner st =
     (if sh_bannerDismissed st then None
      else Some (''Pre-release demo '' @ u_emdash @ '' single-zone deployment, not highly available. Data may be reset.''))"

definition header :: "json option \<Rightarrow> string \<Rightarrow> string list" where
  "header user pathname =
     [snd (page_meta pathname), fst (page_meta pathname), nullish (user_text user ''email'') '''', nullish (user_text user ''role'') '''']"

definition nav_links :: "string \<Rightarrow> (string \<times> string \<times> bool) list" where
  "nav_links pathname = map (\<lambda>(to, label). (to, label, link_active to pathname)) NAV"

definition menu :: "app_shell \<Rightarrow> string \<Rightarrow> (string \<times> string \<times> bool) list option" where
  "menu st pathname = (if sh_sidebarOpen st then Some (nav_links pathname) else None)"

definition sh_follow :: "string \<Rightarrow> app_shell \<Rightarrow> app_shell \<times> string" where
  "sh_follow to st = (sh_closeSidebar st, to)"

definition sidebar :: "json option \<Rightarrow> string \<Rightarrow> (string \<times> string \<times> bool) list" where
  "sidebar user pathname =
     nav_links pathname
     @ [(''/settings'', ''Settings'', link_active ''/settings'' pathname),
        (''/profile'', nullish (user_text user ''email'') ''Profile'', link_active ''/profile'' pathname)]"

definition theme_title :: "bool \<Rightarrow> string" where
  "theme_title is_dark = (if is_dark then ''Light mode'' else ''Dark mode'')"

lemma links_marked: "map (fst \<circ> snd) (filter (snd \<circ> snd) (nav_links pathname)) = active_links pathname"
  by (simp add: nav_links_def active_links_def filter_map comp_def case_prod_unfold)

text \<open>The menu of a small screen has no link to the settings, the profile or the theme's other choices.\<close>

lemma menu_lacks_settings: "menu st pathname = Some links \<Longrightarrow> ''/settings'' \<notin> fst ` set links \<and> ''/profile'' \<notin> fst ` set links"
  by (auto simp: menu_def nav_links_def NAV_def split: if_splits)

section \<open>The error boundary\<close>

text \<open>A boundary keeps its error until it is mounted again: the one of the frame has the path as its key, the one around
  the routes has none.\<close>

record boundary =
  bd_key :: "string option"
  bd_failed :: bool

definition bd_mounted :: "string option \<Rightarrow> boundary" where
  "bd_mounted key = \<lparr>bd_key = key, bd_failed = False\<rparr>"

definition bd_render :: "string option \<Rightarrow> boundary \<Rightarrow> boundary" where
  "bd_render key b = (if bd_key b = key then b else bd_mounted key)"

definition bd_throw :: "boundary \<Rightarrow> boundary" where
  "bd_throw b = b\<lparr>bd_failed := True\<rparr>"

section \<open>Settings and profile\<close>

definition theme_options :: "theme_mode \<Rightarrow> (theme_mode \<times> string \<times> bool) list" where
  "theme_options mode = map (\<lambda>(v, l). (v, l, mode = v)) [(LightMode, ''Light''), (DarkMode, ''Dark''), (SystemMode, ''System'')]"

definition about_rows :: "(string \<times> string) list" where
  "about_rows = [(''Version'', ''v0.1.0-dev''), (''License'', ''Apache 2.0''), (''Runtime'', ''Go + Temporal'')]"

definition capitalised :: "string \<Rightarrow> string" where
  "capitalised s = map upper_char (take 1 s) @ drop 1 s"

definition profile_rows :: "json option \<Rightarrow> (string \<times> string) list" where
  "profile_rows user =
     [(''Email'', nullish (user_text user ''email'') u_emdash),
      (''Role'', case truthy (user_text user ''role'') of Some r \<Rightarrow> capitalised r | None \<Rightarrow> u_emdash),
      (''Workspace'', case user_text user ''tenant_name'' of Some t \<Rightarrow> t | None \<Rightarrow> nullish (user_text user ''tenant_id'') u_emdash),
      (''Verified'', if truthy_json (Option.bind user (\<lambda>u. json_prop u ''email_verified''))
         \<or> truthy_json (Option.bind user (\<lambda>u. json_prop u ''emailVerified'')) then ''Yes'' else ''Pending'')]"

text \<open>The head of the profile: initials, address, and the role with the workspace. Signing out from it is that of the frame.\<close>

definition profile_head :: "json option \<Rightarrow> string list" where
  "profile_head user =
     [initials user, nullish (user_text user ''email'') '''',
      nullish (user_text user ''role'') ''''
        @ (case truthy (user_text user ''tenant_name'') of Some t \<Rightarrow> '' '' @ u_middot @ '' '' @ t | None \<Rightarrow> '''')]"

text \<open>A row of the settings: label, remark, and its content; \<open>zone\<close> is the browser's time zone.\<close>

definition settings_rows :: "string \<Rightarrow> theme_mode \<Rightarrow> (string \<times> string \<times> string list) list" where
  "settings_rows zone mode =
     [(''Theme'', ''Controls light/dark mode across the UI'', map (\<lambda>(_, l, _). l) (theme_options mode)),
      (''Timezone'', ''All dates and times use your browser's local timezone'', [zone])]"

lemma one_theme_marked: "length (filter (snd \<circ> snd) (theme_options mode)) = 1"
  by (cases mode) (simp_all add: theme_options_def)

section \<open>Guarded pages\<close>

text \<open>No page of the application but the sign-in and the invitation is drawn without a user, and none before the session is
  known; a visitor is turned away with the path that was asked for.\<close>

theorem pages_guarded:
  "case app_view st pathname of
     ScreenView framed s \<Rightarrow> \<not> us_loading (ui st) \<and> us_user (ui st) \<noteq> None
   | MovedTo to \<Rightarrow> \<not> us_loading (ui st) \<and> us_user (ui st) \<noteq> None
   | TurnedAway from \<Rightarrow> from = pathname \<and> \<not> us_loading (ui st) \<and> us_user (ui st) = None
   | WaitingView \<Rightarrow> us_loading (ui st)
   | _ \<Rightarrow> route_of pathname \<in> {None, Some LoginElement, Some AcceptInviteElement}"
proof (cases "route_of pathname")
  case None
  then show ?thesis by (simp add: app_view_def)
next
  case (Some el)
  then show ?thesis
    by (cases el; cases "us_loading (ui st)"; cases "us_user (ui st)") (simp_all add: app_view_def ProtectedRoute_def)
qed

text \<open>After a sign-out every page of the application leads to the sign-in.\<close>

lemma signed_out_everywhere:
  "signed_out st \<Longrightarrow> \<not> us_loading (ui st) \<Longrightarrow> app_view st pathname \<in> {NothingView, LoginRoute, InviteRoute, TurnedAway pathname}"
  by (auto simp: app_view_def ProtectedRoute_def signed_out_def split: option.split element.split)

section \<open>The header names the page\<close>

text \<open>The title that belongs to a page of the frame, and its entry in the navigation.\<close>

fun screen_path :: "screen \<Rightarrow> string" where
  "screen_path PipelinesScreen = ''/pipelines''"
| "screen_path LifecycleScreen = ''/lifecycle''"
| "screen_path RunsScreen = ''/runs''"
| "screen_path RunDetailScreen = ''/runs''"
| "screen_path LineageScreen = ''/lineage''"
| "screen_path MonitoringScreen = ''/monitoring''"
| "screen_path ConnectorsScreen = ''/connectors''"
| "screen_path BillingScreen = ''/billing''"
| "screen_path AnalyticsScreen = ''/analytics''"
| "screen_path TeamScreen = ''/team''"
| "screen_path SettingsScreen = ''/settings''"
| "screen_path ProfileScreen = ''/profile''"
| "screen_path CanvasScreen = ''/''"

definition first_segment :: "string \<Rightarrow> string" where
  "first_segment s = takeWhile (\<lambda>c. c \<noteq> CHR ''/'') (drop 1 s)"

lemma strip_slashes_split: "\<exists>n. s = strip_slashes s @ replicate n (CHR ''/'')"
proof -
  have "rev s = takeWhile (\<lambda>c. c = CHR ''/'') (rev s) @ dropWhile (\<lambda>c. c = CHR ''/'') (rev s)" by simp
  then have "s = strip_slashes s @ rev (takeWhile (\<lambda>c. c = CHR ''/'') (rev s))"
    unfolding strip_slashes_def by (metis rev_append rev_rev_ident)
  moreover have "takeWhile (\<lambda>c. c = CHR ''/'') (rev s) = replicate (length (takeWhile (\<lambda>c. c = CHR ''/'') (rev s))) (CHR ''/'')"
    by (rule replicate_eqI) (auto dest: set_takeWhileD)
  ultimately show ?thesis by (metis rev_replicate)
qed

lemma takeWhile_split: "split_char d s = w # ws \<Longrightarrow> takeWhile (\<lambda>c. c \<noteq> d) s = w"
  by (induction s arbitrary: w ws) (auto split: if_splits list.splits)

lemma first_segment_of:
  assumes "segments pathname = w # ws" and "w \<noteq> ''''"
  shows "first_segment pathname = w"
proof -
  obtain n where n: "drop 1 pathname = strip_slashes (drop 1 pathname) @ replicate n (CHR ''/'')" using strip_slashes_split by blast
  define s where "s = strip_slashes (drop 1 pathname)"
  have "split_char (CHR ''/'') s = w # ws" using assms(1) by (auto simp: segments_def s_def Let_def split: if_splits)
  from takeWhile_split[OF this] have t: "takeWhile (\<lambda>c. c \<noteq> CHR ''/'') s = w" .
  have "takeWhile (\<lambda>c. c \<noteq> CHR ''/'') (s @ replicate n (CHR ''/'')) = takeWhile (\<lambda>c. c \<noteq> CHR ''/'') s"
    by (induction s) (cases n, simp_all)
  then show ?thesis unfolding first_segment_def using t by (subst n) (simp add: s_def)
qed

lemma below_first_segment:
  assumes "CHR ''/'' \<notin> set k" and "hd pathname = CHR ''/''" and "pathname \<noteq> ''''"
  shows "starts_with ((CHR ''/'' # k) @ ''/'') pathname \<Longrightarrow> first_segment pathname = k"
    and "pathname = CHR ''/'' # k \<Longrightarrow> first_segment pathname = k"
    and "first_segment pathname = k \<Longrightarrow> pathname = CHR ''/'' # k \<or> starts_with ((CHR ''/'' # k) @ ''/'') pathname"
proof -
  show "first_segment pathname = k" if below: "starts_with ((CHR ''/'' # k) @ ''/'') pathname"
  proof -
    obtain r where "pathname = CHR ''/'' # k @ CHR ''/'' # r" using below unfolding starts_with_iff by fastforce
    moreover have "takeWhile (\<lambda>c. c \<noteq> CHR ''/'') (k @ CHR ''/'' # r) = k"
      using assms(1) by (induction k) auto
    ultimately show ?thesis by (simp add: first_segment_def)
  qed
  show "first_segment pathname = k" if "pathname = CHR ''/'' # k"
  proof -
    have "takeWhile (\<lambda>c. c \<noteq> CHR ''/'') k = k" using assms(1) by (induction k) auto
    then show ?thesis using that by (simp add: first_segment_def)
  qed
  show "pathname = CHR ''/'' # k \<or> starts_with ((CHR ''/'' # k) @ ''/'') pathname" if f: "first_segment pathname = k"
  proof -
    obtain p where p: "pathname = CHR ''/'' # p" using assms(2,3) by (cases pathname) auto
    let ?r = "dropWhile (\<lambda>c. c \<noteq> CHR ''/'') p"
    have "takeWhile (\<lambda>c. c \<noteq> CHR ''/'') p = k" using f p by (simp add: first_segment_def)
    then have k: "p = k @ ?r" using takeWhile_dropWhile_id[of "\<lambda>c. c \<noteq> CHR ''/''" p] by simp
    show ?thesis
    proof (cases ?r)
      case Nil
      then have "p = k" using k by (metis append_Nil2)
      then show ?thesis using p by simp
    next
      case (Cons c r)
      then have "c = CHR ''/''" using hd_dropWhile[of "\<lambda>c. c \<noteq> CHR ''/''" p] by simp
      then have "pathname = ((CHR ''/'' # k) @ ''/'') @ r" using k p Cons by simp
      then show ?thesis unfolding starts_with_iff by blast
    qed
  qed
qed


lemma lookup_page:
  fixes m :: "(string \<times> 'v) list"
  assumes "\<forall>k\<in>fst ` set m. CHR ''/'' \<notin> set k" and "hd p = CHR ''/''" and "p \<noteq> ''''"
  defines "m' \<equiv> map (\<lambda>(k, v). (CHR ''/'' # k, v)) m"
  shows "(case map_of m' p of Some v \<Rightarrow> Some v
      | None \<Rightarrow> Option.bind (find (\<lambda>k. starts_with (k @ ''/'') p) (map fst m')) (map_of m')) = map_of m (first_segment p)"
proof -
  have "map_of (map (\<lambda>(k, v). (CHR ''/'' # k, v)) xs) (CHR ''/'' # k) = map_of xs k" for k and xs :: "(string \<times> 'v) list"
    by (induction xs) auto
  then have get: "map_of m' (CHR ''/'' # k) = map_of m k" for k by (simp add: m'_def)
  have keys: "k' \<in> set (map fst m') \<Longrightarrow> \<exists>k. k' = CHR ''/'' # k \<and> k \<in> fst ` set m" for k' by (force simp: m'_def)
  show ?thesis
  proof (cases "map_of m' p")
    case (Some v)
    then obtain k where "p = CHR ''/'' # k" "k \<in> fst ` set m" using keys[of p] by (force dest: map_of_SomeD)
    then show ?thesis using Some get below_first_segment(2)[of k p] assms by simp
  next
    case None
    show ?thesis
    proof (cases "find (\<lambda>k. starts_with (k @ ''/'') p) (map fst m')")
      case None2: None
      have "map_of m (first_segment p) = None"
      proof (rule ccontr)
        assume "map_of m (first_segment p) \<noteq> None"
        then have k: "first_segment p \<in> fst ` set m" by (metis map_of_eq_None_iff)
        then have "starts_with ((CHR ''/'' # first_segment p) @ ''/'') p"
          using below_first_segment(3)[of "first_segment p" p] assms None get \<open>map_of m (first_segment p) \<noteq> None\<close> by metis
        moreover have "CHR ''/'' # first_segment p \<in> set (map fst m')" using k by (force simp: m'_def)
        ultimately show False using None2 unfolding find_None_iff by blast
      qed
      then show ?thesis using None None2 by simp
    next
      case (Some k')
      then have "k' \<in> set (map fst m')" "starts_with (k' @ ''/'') p" by (auto simp: find_Some_iff)
      then obtain k where "k' = CHR ''/'' # k" "k \<in> fst ` set m" "starts_with (k' @ ''/'') p" using keys by blast
      then have "first_segment p = k" using below_first_segment(1)[of k p] assms by simp
      then show ?thesis using None Some get \<open>k' = CHR ''/'' # k\<close> by simp
    qed
  qed
qed

lemma page_meta_segment:
  assumes "hd p = CHR ''/''" and "p \<noteq> ''''"
  shows "page_meta p = nullish (map_of (map (\<lambda>(k, v). (drop 1 k, v)) PAGE_META) (first_segment p)) (''Pipelines'', ''Build & orchestrate'')"
proof -
  let ?m = "map (\<lambda>(k, v). (drop 1 k, v)) PAGE_META"
  have m': "map (\<lambda>(k, v). (CHR ''/'' # k, v)) ?m = PAGE_META" by (simp add: PAGE_META_def)
  have "\<forall>k\<in>fst ` set ?m. CHR ''/'' \<notin> set k" by (simp add: PAGE_META_def)
  from lookup_page[OF this assms, unfolded m'] show ?thesis
    by (auto simp: page_meta_def split: option.splits)
qed

lemma to_lower_parts: "to_lower p = p \<Longrightarrow> to_lower (first_segment p) = first_segment p"
proof -
  assume "to_lower p = p"
  then have "\<forall>c\<in>set p. lower_char c = c" unfolding to_lower_def by (metis map_eq_conv map_ident)
  then have "\<forall>c\<in>set (first_segment p). lower_char c = c"
    by (auto simp: first_segment_def dest: set_takeWhileD in_set_dropD)
  then show ?thesis by (simp add: to_lower_def map_idI)
qed

lemma link_active_segment:
  assumes "hd p = CHR ''/''" "p \<noteq> ''''" "to_lower p = p" "to_lower k = k" "CHR ''/'' \<notin> set k"
  shows "link_active (CHR ''/'' # k) p \<longleftrightarrow> first_segment p = k"
proof -
  have "to_lower (CHR ''/'' # k) = CHR ''/'' # k" using assms(4) by (simp add: to_lower_def lower_char_def)
  then show ?thesis using below_first_segment[of k p] assms by (auto simp: link_active_def Let_def)
qed

lemma shelled_listed: "route_of p = Some el \<Longrightarrow> \<exists>pat. (pat, el) \<in> set ROUTES \<and> list_all2 segment_matches pat (segments p)"
proof -
  assume "route_of p = Some el"
  then obtain r where "find (\<lambda>r. list_all2 segment_matches (fst r) (segments p)) ROUTES = Some r" "snd r = el"
    unfolding route_of_def by blast
  then have "r \<in> set ROUTES" "list_all2 segment_matches (fst r) (segments p)" by (auto simp: find_Some_iff)
  then show ?thesis using \<open>snd r = el\<close> by (metis prod.collapse)
qed

lemma shelled_segment:
  assumes "route_of p = Some (Shelled s)"
  shows "to_lower (first_segment p) = drop 1 (screen_path s)"
proof -
  obtain pat where "(pat, Shelled s) \<in> set ROUTES" "list_all2 segment_matches pat (segments p)"
    using shelled_listed[OF assms] by blast
  then obtain w ws where w: "segments p = w # ws" "to_lower w = drop 1 (screen_path s)"
    by (auto simp: ROUTES_def list_all2_Cons1 segment_matches_def)
  have "drop 1 (screen_path s) \<noteq> ''''" using \<open>(pat, Shelled s) \<in> set ROUTES\<close> by (auto simp: ROUTES_def)
  then have "w \<noteq> ''''" using w(2) by (auto simp: to_lower_def)
  then show ?thesis using first_segment_of[OF w(1)] w(2) by simp
qed

text \<open>Whatever path leads to a page of the frame, with slashes at its end or the run behind it, the header shows
  the title of that page, and the navigation marks its entry and no other; the settings and the profile have none.\<close>

theorem header_names_page:
  assumes "route_of p = Some (Shelled s)" and "hd p = CHR ''/''" and "p \<noteq> ''''" and "to_lower p = p"
  shows "map_of PAGE_META (screen_path s) = Some (page_meta p)
    \<and> active_links p = map snd (filter (\<lambda>n. fst n = screen_path s) NAV)"
proof -
  have f: "first_segment p = drop 1 (screen_path s)" using shelled_segment[OF assms(1)] to_lower_parts[OF assms(4)] by simp
  have "s \<noteq> CanvasScreen" using shelled_listed[OF assms(1)] by (auto simp: ROUTES_def)
  then have "map_of PAGE_META (screen_path s) = Some (page_meta p)"
    using page_meta_segment[OF assms(2,3)] f by (cases s) (simp_all add: PAGE_META_def)
  moreover have "link_active (fst n) p \<longleftrightarrow> fst n = screen_path s" if "n \<in> set NAV" for n
  proof -
    have "fst n = CHR ''/'' # drop 1 (fst n) \<and> to_lower (drop 1 (fst n)) = drop 1 (fst n) \<and> CHR ''/'' \<notin> set (drop 1 (fst n))"
      using that by (auto simp: NAV_def to_lower_def lower_char_def)
    then have "link_active (fst n) p \<longleftrightarrow> drop 1 (screen_path s) = drop 1 (fst n)"
      using link_active_segment[OF assms(2,3,4), of "drop 1 (fst n)"] f by metis
    moreover have "screen_path s = CHR ''/'' # drop 1 (screen_path s)" by (cases s) simp_all
    ultimately show ?thesis by (metis \<open>fst n = CHR ''/'' # drop 1 (fst n) \<and> _\<close>)
  qed
  ultimately show ?thesis by (simp add: active_links_def cong: filter_cong)
qed

theorem header_names_page_witness: "page_meta ''/runs/42/'' = (''Runs'', ''History & observability'') \<and> active_links ''/runs/42/'' = [''Runs'']"
proof -
  have "route_of ''/runs/42/'' = Some (Shelled RunDetailScreen)" by code_simp
  moreover have "to_lower ''/runs/42/'' = ''/runs/42/''" by code_simp
  ultimately show ?thesis using header_names_page[of "''/runs/42/''" RunDetailScreen] by (simp add: PAGE_META_def NAV_def)
qed

text \<open>The router does not look at case, the header does: a path in capitals opens a page under the title of another. A path
  that no route matches shows an empty page, signed in or not.\<close>

lemma capitals_lose_title:
  "route_of ''/Billing'' = Some (Shelled BillingScreen)" "page_meta ''/Billing'' = (''Pipelines'', ''Build & orchestrate'')"
  "active_links ''/Billing'' = [''Billing'']"
  by (code_simp, code_simp, code_simp)

lemma unknown_path_empty: "app_view st ''/pipeline'' = NothingView"
proof -
  have "route_of ''/pipeline'' = None" by code_simp
  then show ?thesis by (simp add: app_view_def)
qed

text \<open>A page that throws outside the frame leaves its error on every page that is opened next; inside the frame
  another path clears it.\<close>

lemma boundary_cleared: "key \<noteq> key' \<Longrightarrow> \<not> bd_failed (bd_render (Some key') (bd_throw (bd_mounted (Some key))))"
  by (simp add: bd_render_def bd_throw_def bd_mounted_def)

lemma boundary_stuck: "bd_failed (bd_render None (bd_throw (bd_mounted None)))"
  by (simp add: bd_render_def bd_throw_def bd_mounted_def)

end
